(* ===== verification/Prelude.thy ===== *)
theory Prelude
  imports Complex_Main "HOL-Library.Char_ord" "HOL-Library.List_Lexorder"
begin

text \<open>
  Shared vocabulary of the development: the Rust \<open>Result\<close> type with panics made explicit,
  the state-and-error monad the interpreter is written in, the ordered association lists that
  stand for \<open>serde_json::Map\<close> (a \<open>BTreeMap\<close>, since the \<open>preserve_order\<close> feature is off in
  \<open>core/Cargo.lock\<close>), with the contract of a finite map stated as a locale.
\<close>

named_theorems result_simps \<open>equations of the result type and of the monad\<close>
named_theorems om_simps \<open>lookups in ordered maps after updates\<close>

section \<open>Results\<close>

text \<open>
  A Rust call returns a value, returns an error or panics (an out-of-range slice, a slice that
  cuts a UTF-8 character, an \<open>unwrap\<close> on nothing).
\<close>

datatype ('a, 'e) result = Ok 'a | Err 'e | Panic

fun rbind :: "('a, 'e) result \<Rightarrow> ('a \<Rightarrow> ('b, 'e) result) \<Rightarrow> ('b, 'e) result" where
  "rbind (Ok a) f = f a"
| "rbind (Err e) f = Err e"
| "rbind Panic f = Panic"

fun map_err :: "('e \<Rightarrow> 'f) \<Rightarrow> ('a, 'e) result \<Rightarrow> ('a, 'f) result" where
  "map_err g (Ok a) = Ok a"
| "map_err g (Err e) = Err (g e)"
| "map_err g Panic = Panic"

lemma rbind_cong [fundef_cong]:
  assumes "m = m'" and "\<And>a. m' = Ok a \<Longrightarrow> f a = f' a"
  shows "rbind m f = rbind m' f'"
  using assms by (cases m') auto

lemma rbind_eq_Ok [result_simps]: "rbind m f = Ok b \<longleftrightarrow> (\<exists>a. m = Ok a \<and> f a = Ok b)"
  by (cases m) auto

lemma rbind_eq_Err [result_simps]:
  "rbind m f = Err e \<longleftrightarrow> m = Err e \<or> (\<exists>a. m = Ok a \<and> f a = Err e)"
  by (cases m) auto

lemma rbind_eq_Panic [result_simps]:
  "rbind m f = Panic \<longleftrightarrow> m = Panic \<or> (\<exists>a. m = Ok a \<and> f a = Panic)"
  by (cases m) auto

lemma map_err_eq_Ok [simp]: "map_err g m = Ok a \<longleftrightarrow> m = Ok a"
  by (cases m) auto

lemma map_err_eq_Err [simp]: "map_err g m = Err e \<longleftrightarrow> (\<exists>e'. m = Err e' \<and> e = g e')"
  by (cases m) auto

lemma map_err_eq_Panic [simp]: "map_err g m = Panic \<longleftrightarrow> m = Panic"
  by (cases m) auto

lemma rbind_mono_not_Err:
  assumes "m \<noteq> Err e" and "\<And>a. m = Ok a \<Longrightarrow> f a \<noteq> Err e"
  shows "rbind m f \<noteq> Err e"
  using assms by (cases m) auto

section \<open>The state-and-error monad\<close>

text \<open>
  A stateful call takes the state and returns its result together with the state it left, on
  the error paths too: Rust's \<open>?\<close> returns early but keeps every mutation made so far.
\<close>

type_synonym ('s, 'a, 'e) stm = "'s \<Rightarrow> ('a, 'e) result \<times> 's"

definition mret :: "'a \<Rightarrow> ('s, 'a, 'e) stm" where
  "mret a s = (Ok a, s)"

definition mfail :: "'e \<Rightarrow> ('s, 'a, 'e) stm" where
  "mfail e s = (Err e, s)"

definition mbind :: "('s, 'a, 'e) stm \<Rightarrow> ('a \<Rightarrow> ('s, 'b, 'e) stm) \<Rightarrow> ('s, 'b, 'e) stm" where
  "mbind m f s =
     (case m s of
        (Ok a, s') \<Rightarrow> f a s'
      | (Err e, s') \<Rightarrow> (Err e, s')
      | (Panic, s') \<Rightarrow> (Panic, s'))"

definition mget :: "('s, 's, 'e) stm" where
  "mget s = (Ok s, s)"

definition mupd :: "('s \<Rightarrow> 's) \<Rightarrow> ('s, unit, 'e) stm" where
  "mupd g s = (Ok (), g s)"

text \<open>A computation that reads and writes nothing of the state, such as a call of the parser.\<close>

definition mlift :: "('a, 'e) result \<Rightarrow> ('s, 'a, 'e) stm" where
  "mlift r s = (r, s)"

lemma mret_run [simp, result_simps]: "mret a s = (Ok a, s)"
  and mfail_run [simp, result_simps]: "mfail e s = (Err e, s)"
  and mget_run [simp, result_simps]: "mget s = (Ok s, s)"
  and mupd_run [simp, result_simps]: "mupd g s = (Ok (), g s)"
  and mlift_run [simp, result_simps]: "mlift r s = (r, s)"
  by (simp_all add: mret_def mfail_def mget_def mupd_def mlift_def)

lemma mbind_mret [simp]: "mbind (mret a) f s = f a s"
  by (simp add: mbind_def)

lemma mbind_cases:
  assumes "mbind m f s = (r, s')"
  obtains (Ok) a t where "m s = (Ok a, t)" "f a t = (r, s')"
    | (Err) e where "m s = (Err e, s')" "r = Err e"
    | (Panic) "m s = (Panic, s')" "r = Panic"
  using assms by (auto simp: mbind_def split: prod.splits result.splits)

text \<open>
  How a call ended, and the frame of a computation: a relation between the way it ended, the
  state before and the state after. A relation that holds of both parts of a sequence holds of
  the sequence, the shape of every frame property of the interpreter.
\<close>

datatype 'e ending = EndOk | EndErr 'e | EndPanic

fun end_of :: "('a, 'e) result \<Rightarrow> 'e ending" where
  "end_of (Ok a) = EndOk"
| "end_of (Err e) = EndErr e"
| "end_of Panic = EndPanic"

definition keeps :: "('e ending \<Rightarrow> 's \<Rightarrow> 's \<Rightarrow> bool) \<Rightarrow> ('s, 'a, 'e) stm \<Rightarrow> bool" where
  "keeps R m \<longleftrightarrow> (\<forall>s. R (end_of (fst (m s))) s (snd (m s)))"

lemma keepsI: "(\<And>s. R (end_of (fst (m s))) s (snd (m s))) \<Longrightarrow> keeps R m"
  by (simp add: keeps_def)

lemma keepsD: "keeps R m \<Longrightarrow> R (end_of (fst (m s))) s (snd (m s))"
  by (simp add: keeps_def)

lemma keepsE: "keeps R m \<Longrightarrow> m s = (r, s') \<Longrightarrow> R (end_of r) s s'"
  by (metis fst_conv keepsD snd_conv)

lemma end_of_eq [simp]:
  "end_of r = EndOk \<longleftrightarrow> (\<exists>a. r = Ok a)"
  "end_of r = EndErr e \<longleftrightarrow> r = Err e"
  "end_of r = EndPanic \<longleftrightarrow> r = Panic"
  by (cases r; auto)+

text \<open>
  A frame relation: nothing changed is in the relation, for every ending but the errors of
  \<open>bad\<close>, and a completed step can be put before any other.
\<close>

locale frame =
  fixes R :: "'e ending \<Rightarrow> 's \<Rightarrow> 's \<Rightarrow> bool"
    and bad :: "'e \<Rightarrow> bool"
  assumes stay: "(\<And>e. k = EndErr e \<Longrightarrow> \<not> bad e) \<Longrightarrow> R k s s"
    and step: "R EndOk s t \<Longrightarrow> R k t u \<Longrightarrow> R k s u"
begin

lemma mret_keeps [intro]: "keeps R (mret a)"
  by (auto simp: keeps_def intro: stay)

lemma mfail_keeps [intro]: "\<not> bad e \<Longrightarrow> keeps R (mfail e)"
  by (auto simp: keeps_def intro: stay)

lemma mget_keeps [intro]: "keeps R mget"
  by (auto simp: keeps_def intro: stay)

lemma mlift_keeps [intro]: "(\<And>e. r = Err e \<Longrightarrow> \<not> bad e) \<Longrightarrow> keeps R (mlift r)"
  by (auto simp: keeps_def intro: stay)

lemma mbind_keeps [intro]:
  assumes m: "keeps R m" and f: "\<And>a. keeps R (f a)"
  shows "keeps R (mbind m f)"
proof (rule keepsI)
  fix s
  obtain r t where ms: "m s = (r, t)" by fastforce
  with m have "R (end_of r) s t" by (rule keepsE)
  with f ms show "R (end_of (fst (mbind m f s))) s (snd (mbind m f s))"
    by (cases r) (auto simp: mbind_def intro: step dest: keepsD)
qed

end

text \<open>Two computations that, started in related states, end alike in related states.\<close>

definition sim :: "('s \<Rightarrow> 's \<Rightarrow> bool) \<Rightarrow> ('s, 'a, 'e) stm \<Rightarrow> ('s, 'a, 'e) stm \<Rightarrow> bool" where
  "sim Rel m m' \<longleftrightarrow>
     (\<forall>s s'. Rel s s' \<longrightarrow> fst (m s) = fst (m' s') \<and> Rel (snd (m s)) (snd (m' s')))"

lemma simI:
  assumes "\<And>s s'. Rel s s' \<Longrightarrow> fst (m s) = fst (m' s') \<and> Rel (snd (m s)) (snd (m' s'))"
  shows "sim Rel m m'"
  using assms by (simp add: sim_def)

lemma simD:
  assumes "sim Rel m m'" and "Rel s s'"
  shows "fst (m s) = fst (m' s')" and "Rel (snd (m s)) (snd (m' s'))"
  using assms by (auto simp: sim_def)

lemma sim_mret [intro]: "sim Rel (mret a) (mret a)"
  and sim_mfail [intro]: "sim Rel (mfail e) (mfail e)"
  and sim_mlift [intro]: "sim Rel (mlift r) (mlift r)"
  by (simp_all add: sim_def)

lemma sim_mupd: "(\<And>s s'. Rel s s' \<Longrightarrow> Rel (g s) (g' s')) \<Longrightarrow> sim Rel (mupd g) (mupd g')"
  by (simp add: sim_def)

lemma sim_mbind [intro]:
  assumes m: "sim Rel m m'" and f: "\<And>a. sim Rel (f a) (f' a)"
  shows "sim Rel (mbind m f) (mbind m' f')"
proof (rule simI)
  fix s s' assume rel: "Rel s s'"
  obtain r t where ms: "m s = (r, t)" by fastforce
  obtain r' t' where ms': "m' s' = (r', t')" by fastforce
  have "r' = r" "Rel t t'" using simD [OF m rel] ms ms' by auto
  then show "fst (mbind m f s) = fst (mbind m' f' s') \<and> Rel (snd (mbind m f s)) (snd (mbind m' f' s'))"
    using ms ms' by (cases r) (auto simp: mbind_def simD [OF f])
qed

text \<open>
  An invariant of the state with a property of the value a computation returns; with \<open>np\<close> also
  that it does not panic.
\<close>

definition yields :: "bool \<Rightarrow> ('s \<Rightarrow> bool) \<Rightarrow> ('a \<Rightarrow> bool) \<Rightarrow> ('s, 'a, 'e) stm \<Rightarrow> bool" where
  "yields np I Q m \<longleftrightarrow>
     (\<forall>s. I s \<longrightarrow>
        I (snd (m s)) \<and> (\<forall>a. fst (m s) = Ok a \<longrightarrow> Q a) \<and> (np \<longrightarrow> fst (m s) \<noteq> Panic))"

lemma yieldsI:
  assumes "\<And>s. I s \<Longrightarrow>
    I (snd (m s)) \<and> (\<forall>a. fst (m s) = Ok a \<longrightarrow> Q a) \<and> (np \<longrightarrow> fst (m s) \<noteq> Panic)"
  shows "yields np I Q m"
  using assms by (simp add: yields_def)

lemma yieldsD:
  assumes "yields np I Q m" and "I s"
  shows "I (snd (m s))" and "fst (m s) = Ok a \<Longrightarrow> Q a" and "np \<Longrightarrow> fst (m s) \<noteq> Panic"
  using assms by (auto simp: yields_def)

lemma yields_mret: "Q a \<Longrightarrow> yields np I Q (mret a)"
  and yields_mfail: "yields np I Q (mfail e)"
  by (simp_all add: yields_def)

lemma yields_mlift: "(\<And>a. r = Ok a \<Longrightarrow> Q a) \<Longrightarrow> r \<noteq> Panic \<Longrightarrow> yields np I Q (mlift r)"
  by (simp add: yields_def)

lemma yields_mget: "(\<And>s. I s \<Longrightarrow> Q s) \<Longrightarrow> yields np I Q mget"
  by (simp add: yields_def)

lemma yields_mupd: "(\<And>s. I s \<Longrightarrow> I (g s)) \<Longrightarrow> yields np I (\<lambda>_. True) (mupd g)"
  by (simp add: yields_def)

lemma yields_mbind:
  assumes m: "yields np I Q m" and f: "\<And>a. Q a \<Longrightarrow> yields np I Q' (f a)"
  shows "yields np I Q' (mbind m f)"
proof (rule yieldsI)
  fix s assume I: "I s"
  obtain r t where ms: "m s = (r, t)" by fastforce
  from yieldsD [OF m I] ms have t: "I t" "\<And>a. r = Ok a \<Longrightarrow> Q a" "np \<Longrightarrow> r \<noteq> Panic"
    by auto
  show "I (snd (mbind m f s)) \<and> (\<forall>a. fst (mbind m f s) = Ok a \<longrightarrow> Q' a) \<and>
      (np \<longrightarrow> fst (mbind m f s) \<noteq> Panic)"
  proof (cases r)
    case (Ok a)
    with f [OF t(2)] t(1) ms show ?thesis by (simp add: mbind_def yields_def)
  qed (use ms t in \<open>auto simp: mbind_def\<close>)
qed

lemma yields_mono: "yields np I Q m \<Longrightarrow> (\<And>a. Q a \<Longrightarrow> Q' a) \<Longrightarrow> yields np I Q' m"
  by (simp add: yields_def)

section \<open>Ordered maps\<close>

text \<open>
  \<open>serde_json::Map\<close> iterates in key order, so a map is the list of its entries in strictly
  increasing key order; strings compare byte by byte.
\<close>

type_synonym 'v omap = "(string \<times> 'v) list"

fun om_get :: "'v omap \<Rightarrow> string \<Rightarrow> 'v option" where
  "om_get [] k = None"
| "om_get ((k', v) # m) k = (if k = k' then Some v else om_get m k)"

fun om_insert :: "string \<Rightarrow> 'v \<Rightarrow> 'v omap \<Rightarrow> 'v omap" where
  "om_insert k v [] = [(k, v)]"
| "om_insert k v ((k', v') # m) =
     (if k < k' then (k, v) # (k', v') # m
      else if k = k' then (k, v) # m
      else (k', v') # om_insert k v m)"

fun om_remove :: "string \<Rightarrow> 'v omap \<Rightarrow> 'v omap" where
  "om_remove k [] = []"
| "om_remove k ((k', v') # m) = (if k = k' then m else (k', v') # om_remove k m)"

definition om_wf :: "'v omap \<Rightarrow> bool" where
  "om_wf m \<longleftrightarrow> sorted_wrt (<) (map fst m)"

fun om_insert_all :: "(string \<times> 'v) list \<Rightarrow> 'v omap \<Rightarrow> 'v omap" where
  "om_insert_all [] m = m"
| "om_insert_all ((k, v) # kvs) m = om_insert_all kvs (om_insert k v m)"

abbreviation om_of_list :: "(string \<times> 'v) list \<Rightarrow> 'v omap" where
  "om_of_list kvs \<equiv> om_insert_all kvs []"

text \<open>Putting back what a key held before: \<open>Some\<close> is an insert, \<open>None\<close> a remove.\<close>

fun om_restore :: "(string \<times> 'v option) list \<Rightarrow> 'v omap \<Rightarrow> 'v omap" where
  "om_restore [] m = m"
| "om_restore ((k, Some v) # ks) m = om_restore ks (om_insert k v m)"
| "om_restore ((k, None) # ks) m = om_restore ks (om_remove k m)"

lemma om_wf_Nil [simp]: "om_wf []"
  by (simp add: om_wf_def)

lemma om_wf_Cons [simp]: "om_wf ((k, v) # m) \<longleftrightarrow> (\<forall>x \<in> set m. k < fst x) \<and> om_wf m"
  by (auto simp: om_wf_def)

lemma om_get_None_iff: "om_get m k = None \<longleftrightarrow> k \<notin> fst ` set m"
  by (induction m k rule: om_get.induct) auto

lemma om_get_insert: "om_get (om_insert k v m) k' = (if k' = k then Some v else om_get m k')"
  by (induction k v m rule: om_insert.induct) auto

lemma om_keys_insert [simp]: "fst ` set (om_insert k v m) = insert k (fst ` set m)"
  by (induction k v m rule: om_insert.induct) auto

lemma om_wf_insert [simp, intro]: "om_wf m \<Longrightarrow> om_wf (om_insert k v m)"
proof (induction k v m rule: om_insert.induct)
  case (2 k v k' v' m)
  have "fst x \<in> insert k (fst ` set m)" if "x \<in> set (om_insert k v m)" for x
    using that om_keys_insert [of k v m] by blast
  with 2 show ?case by (fastforce simp: not_less_iff_gr_or_eq)
qed simp

lemma om_remove_sub: "set (om_remove k m) \<subseteq> set m"
  by (induction k m rule: om_remove.induct) auto

lemma om_wf_remove [simp, intro]: "om_wf m \<Longrightarrow> om_wf (om_remove k m)"
  using om_remove_sub by (induction k m rule: om_remove.induct) fastforce+

lemma om_get_remove:
  "om_wf m \<Longrightarrow> om_get (om_remove k m) k' = (if k' = k then None else om_get m k')"
proof (induction k m rule: om_remove.induct)
  case (2 k k0 v0 m)
  then have "k0 \<notin> fst ` set m" by auto
  then have "om_get m k0 = None" by (simp add: om_get_None_iff)
  with 2 show ?case by auto
qed simp

lemma om_wf_insert_all [simp, intro]: "om_wf m \<Longrightarrow> om_wf (om_insert_all kvs m)"
  by (induction kvs m rule: om_insert_all.induct) auto

lemma om_wf_restore [simp, intro]: "om_wf m \<Longrightarrow> om_wf (om_restore ks m)"
  by (induction ks m rule: om_restore.induct) auto

text \<open>Two well-formed maps with the same lookups are the same list.\<close>

lemma om_get_hd_less: "om_wf m \<Longrightarrow> \<forall>x \<in> set m. k < fst x \<Longrightarrow> om_get m k = None"
  by (force simp: om_get_None_iff)

lemma om_ext:
  assumes "om_wf m" and "om_wf m'" and "\<And>k. om_get m k = om_get m' k"
  shows "m = m'"
  using assms
proof (induction m arbitrary: m')
  case Nil
  then show ?case by (cases m') (auto, metis option.distinct(1))
next
  case (Cons x m)
  obtain k v where x: "x = (k, v)" by fastforce
  from Cons.prems(3) [of k] x have gk: "om_get m' k = Some v" by simp
  then obtain k' v' m'' where m': "m' = (k', v') # m''" by (cases m') auto
  have "k = k'"
  proof (rule ccontr)
    assume "k \<noteq> k'"
    with gk m' have "om_get m'' k = Some v" by simp
    then have "k \<in> fst ` set m''" by (metis om_get_None_iff option.distinct(1))
    with Cons.prems(2) m' have "k' < k" by auto
    moreover from Cons.prems(3) [of k'] m' have "om_get (x # m) k' = Some v'" by simp
    then have "k' \<in> insert k (fst ` set m)"
      using x by (metis image_insert list.simps(15) om_get_None_iff option.distinct(1) fst_conv)
    with Cons.prems(1) x have "k \<le> k'" by auto
    ultimately show False by simp
  qed
  with gk m' have v: "v' = v" by simp
  have "om_get m j = om_get m'' j" for j
    using Cons.prems(3) [of j] Cons.prems(1,2) x m' \<open>k = k'\<close>
      om_get_hd_less [of m k] om_get_hd_less [of m'' k] by (cases "j = k") auto
  with Cons m' x \<open>k = k'\<close> v show ?case by auto
qed

text \<open>The contract of a finite map, and what a client may rely on.\<close>

locale finite_map =
  fixes empty :: 'm
    and get :: "'m \<Rightarrow> 'k \<Rightarrow> 'v option"
    and ins :: "'k \<Rightarrow> 'v \<Rightarrow> 'm \<Rightarrow> 'm"
    and del :: "'k \<Rightarrow> 'm \<Rightarrow> 'm"
    and inv :: "'m \<Rightarrow> bool"
  assumes inv_empty: "inv empty"
    and inv_ins: "inv m \<Longrightarrow> inv (ins k v m)"
    and inv_del: "inv m \<Longrightarrow> inv (del k m)"
    and get_empty: "get empty k = None"
    and get_ins: "inv m \<Longrightarrow> get (ins k v m) k' = (if k' = k then Some v else get m k')"
    and get_del: "inv m \<Longrightarrow> get (del k m) k' = (if k' = k then None else get m k')"
    and ext: "inv m \<Longrightarrow> inv m' \<Longrightarrow> (\<And>k. get m k = get m' k) \<Longrightarrow> m = m'"
begin

lemma ins_twice: "inv m \<Longrightarrow> ins k v (ins k w m) = ins k v m"
  by (rule ext) (auto simp: inv_ins get_ins)

lemma ins_commute: "inv m \<Longrightarrow> k \<noteq> j \<Longrightarrow> ins k v (ins j w m) = ins j w (ins k v m)"
  by (rule ext) (auto simp: inv_ins get_ins)

lemma ins_same: "inv m \<Longrightarrow> get m k = Some v \<Longrightarrow> ins k v m = m"
  by (rule ext) (auto simp: inv_ins get_ins)

lemma del_ins: "inv m \<Longrightarrow> get m k = None \<Longrightarrow> del k (ins k v m) = m"
  by (rule ext) (auto simp: inv_ins inv_del get_ins get_del)

text \<open>Shadowing one key and putting the old content back leaves the map as it was.\<close>

lemma shadow_one:
  "inv m \<Longrightarrow> (case get m k of Some w \<Rightarrow> ins k w (ins k v m) | None \<Rightarrow> del k (ins k v m)) = m"
  by (cases "get m k") (auto simp: ins_twice ins_same del_ins)

end

interpretation om: finite_map "[]" om_get om_insert om_remove om_wf
  by unfold_locales (auto simp: om_get_insert om_get_remove intro: om_ext)

lemma om_get_insert_all:
  "om_get (om_insert_all kvs m) k =
     (case map_of (rev kvs) k of Some v \<Rightarrow> Some v | None \<Rightarrow> om_get m k)"
  by (induction kvs m rule: om_insert_all.induct)
    (auto simp: om_get_insert map_add_def split: option.splits)

lemma om_get_restore:
  assumes "om_wf m"
  shows "om_get (om_restore ks m) k = (case map_of (rev ks) k of Some w \<Rightarrow> w | None \<Rightarrow> om_get m k)"
  using assms
  by (induction ks m rule: om_restore.induct)
    (auto simp: om_get_insert om_get_remove map_add_def split: option.splits)

text \<open>
  The scoping of a filter: every key of \<open>kvs\<close> is shadowed and then put back, which leaves
  the variables as they were.
\<close>

lemma om_shadow_restore:
  assumes "om_wf m"
  shows "om_restore (map (\<lambda>k. (k, om_get m k)) (map fst kvs)) (om_insert_all kvs m) = m"
proof (rule om_ext)
  show "om_wf (om_restore (map (\<lambda>k. (k, om_get m k)) (map fst kvs)) (om_insert_all kvs m))"
    using assms by blast
  fix k
  have saved: "map_of (rev (map (\<lambda>k. (k, om_get m k)) ks)) k =
      (if k \<in> set ks then Some (om_get m k) else None)" for ks
    by (induction ks) (auto simp: map_add_def split: option.splits)
  have absent: "map_of (rev kvs) k = None" if "k \<notin> set (map fst kvs)"
    using that by (auto simp: map_of_eq_None_iff)
  show "om_get (om_restore (map (\<lambda>k. (k, om_get m k)) (map fst kvs)) (om_insert_all kvs m)) k =
      om_get m k"
    using assms absent
    by (simp only: om_get_restore om_wf_insert_all saved om_get_insert_all) simp
qed (rule assms)

lemmas om_lookup [om_simps] = om_get_insert om_get_remove om_get_insert_all

end
