(* ===== verification/Rust_Str.thy ===== *)
theory Rust_Str
  imports Prelude
begin

text \<open>
  Rust strings. A \<open>String\<close> is a sequence of bytes in UTF-8, so the model is the list of its
  bytes (\<^typ>\<open>char\<close> has 8 bits); byte offsets, which the lexer and the literal editor use, are
  list positions. Operations on Unicode characters go through the decomposition of the bytes
  into UTF-8 sequences. Slicing at an offset inside a sequence panics, as in Rust.
  Character classes are those of the Rust standard library.
\<close>

section \<open>Bytes\<close>

definition byte :: "char \<Rightarrow> int" where
  "byte c = of_char c"

definition byte_in :: "int \<Rightarrow> int \<Rightarrow> char \<Rightarrow> bool" where
  "byte_in lo hi c \<longleftrightarrow> lo \<le> byte c \<and> byte c \<le> hi"

definition is_ascii_digit :: "char \<Rightarrow> bool" where
  "is_ascii_digit c \<longleftrightarrow> byte_in 48 57 c"

definition is_ascii_uppercase :: "char \<Rightarrow> bool" where
  "is_ascii_uppercase c \<longleftrightarrow> byte_in 65 90 c"

definition is_ascii_lowercase :: "char \<Rightarrow> bool" where
  "is_ascii_lowercase c \<longleftrightarrow> byte_in 97 122 c"

definition is_ascii_alphabetic :: "char \<Rightarrow> bool" where
  "is_ascii_alphabetic c \<longleftrightarrow> is_ascii_uppercase c \<or> is_ascii_lowercase c"

definition is_ascii_alphanumeric :: "char \<Rightarrow> bool" where
  "is_ascii_alphanumeric c \<longleftrightarrow> is_ascii_alphabetic c \<or> is_ascii_digit c"

definition is_ascii :: "string \<Rightarrow> bool" where
  "is_ascii s \<longleftrightarrow> list_all (\<lambda>c. byte c < 128) s"

definition to_ascii_uppercase :: "char \<Rightarrow> char" where
  "to_ascii_uppercase c = (if is_ascii_lowercase c then char_of (byte c - 32) else c)"

definition to_ascii_lowercase :: "char \<Rightarrow> char" where
  "to_ascii_lowercase c = (if is_ascii_uppercase c then char_of (byte c + 32) else c)"

lemma byte_nat: "byte c = int (of_char c)"
  by (simp add: byte_def of_nat_of_char)

lemma byte_nonneg [simp]: "0 \<le> byte c" and byte_less [simp]: "byte c < 256"
  using nat_of_char_less_256 [of c] by (simp_all add: byte_nat)

lemma byte_inject [simp]: "byte c = byte d \<longleftrightarrow> c = d"
  by (simp add: byte_def)

lemma byte_Char: "byte (Char b0 b1 b2 b3 b4 b5 b6 b7) =
    horner_sum of_bool 2 [b0, b1, b2, b3, b4, b5, b6, b7]"
  by (simp add: byte_def)

section \<open>UTF-8\<close>

definition is_cont :: "char \<Rightarrow> bool" where
  "is_cont c \<longleftrightarrow> byte_in 128 191 c"

text \<open>
  The first sequence of a non-empty byte string: its length and whether it is well-formed.
  An ill-formed one is the maximal prefix of a well-formed sequence, as in
  \<open>String::from_utf8_lossy\<close>.
\<close>

definition utf8_second :: "char \<Rightarrow> char \<Rightarrow> bool" where
  "utf8_second b c =
     (if byte b = 224 then byte_in 160 191 c
      else if byte b = 237 then byte_in 128 159 c
      else if byte b = 240 then byte_in 144 191 c
      else if byte b = 244 then byte_in 128 143 c
      else is_cont c)"

definition utf8_width :: "char \<Rightarrow> nat" where
  "utf8_width b =
     (if byte b < 128 then 1
      else if byte_in 194 223 b then 2
      else if byte_in 224 239 b then 3
      else if byte_in 240 244 b then 4 else 0)"

definition utf8_step :: "string \<Rightarrow> nat \<times> bool" where
  "utf8_step s =
     (case s of
        [] \<Rightarrow> (1, False)
      | b # s1 \<Rightarrow>
          if utf8_width b = 0 then (1, False)
          else if utf8_width b = 1 then (1, True)
          else (case s1 of
             [] \<Rightarrow> (1, False)
           | c1 # s2 \<Rightarrow>
               if \<not> utf8_second b c1 then (1, False)
               else if utf8_width b = 2 then (2, True)
               else (case s2 of
                  [] \<Rightarrow> (2, False)
                | c2 # s3 \<Rightarrow>
                    if \<not> is_cont c2 then (2, False)
                    else if utf8_width b = 3 then (3, True)
                    else (case s3 of
                       [] \<Rightarrow> (3, False)
                     | c3 # s4 \<Rightarrow> if is_cont c3 then (4, True) else (3, False)))))"

lemma utf8_step_pos [simp]: "0 < fst (utf8_step s)"
  by (auto simp: utf8_step_def split: list.splits)

function utf8_chunks :: "string \<Rightarrow> (string \<times> bool) list" where
  "utf8_chunks s =
     (if s = [] then []
      else (take (fst (utf8_step s)) s, snd (utf8_step s)) #
        utf8_chunks (drop (fst (utf8_step s)) s))"
  by pat_completeness auto
termination by (relation "measure length") auto

declare utf8_chunks.simps [simp del]

lemma utf8_chunks_Nil [simp]: "utf8_chunks [] = []"
  by (simp add: utf8_chunks.simps)

definition valid_utf8 :: "string \<Rightarrow> bool" where
  "valid_utf8 s \<longleftrightarrow> list_all snd (utf8_chunks s)"

text \<open>\<open>str::chars\<close>: the UTF-8 sequences of the string, one per character.\<close>

definition str_chars :: "string \<Rightarrow> string list" where
  "str_chars s = map fst (utf8_chunks s)"

definition replacement :: string where
  "replacement = [CHR 0xEF, CHR 0xBF, CHR 0xBD]"

definition from_utf8_lossy :: "string \<Rightarrow> string" where
  "from_utf8_lossy s = concat (map (\<lambda>(t, ok). if ok then t else replacement) (utf8_chunks s))"

lemma concat_utf8_chunks: "concat (map fst (utf8_chunks s)) = s"
  by (induction s rule: utf8_chunks.induct) (subst utf8_chunks.simps, simp)

lemma concat_str_chars [simp]: "concat (str_chars s) = s"
  by (simp add: str_chars_def concat_utf8_chunks)

lemma from_utf8_lossy_valid: "valid_utf8 s \<Longrightarrow> from_utf8_lossy s = s"
proof -
  assume "valid_utf8 s"
  then have "\<forall>x \<in> set (utf8_chunks s). snd x" by (simp add: valid_utf8_def list_all_iff)
  then have "map (\<lambda>(t, ok). if ok then t else replacement) (utf8_chunks s) = map fst (utf8_chunks s)"
    by (auto simp: map_eq_conv split: prod.splits)
  then show ?thesis unfolding from_utf8_lossy_def by (simp only: concat_utf8_chunks)
qed

lemma utf8_chunks_ascii: "is_ascii s \<Longrightarrow> utf8_chunks s = map (\<lambda>c. ([c], True)) s"
proof (induction s)
  case (Cons c s)
  then have "utf8_step (c # s) = (1, True)"
    by (simp add: is_ascii_def utf8_step_def utf8_width_def)
  with Cons show ?case by (subst utf8_chunks.simps) (simp add: is_ascii_def)
qed simp

lemma valid_utf8_ascii: "is_ascii s \<Longrightarrow> valid_utf8 s"
  by (simp add: valid_utf8_def utf8_chunks_ascii list_all_iff)

lemma str_chars_ascii: "is_ascii s \<Longrightarrow> str_chars s = map (\<lambda>c. [c]) s"
  by (simp add: str_chars_def utf8_chunks_ascii)

text \<open>The code point of a sequence.\<close>

fun code_point :: "string \<Rightarrow> int" where
  "code_point [a] = byte a"
| "code_point [a, b] = (byte a - 192) * 64 + (byte b - 128)"
| "code_point [a, b, c] = (byte a - 224) * 4096 + (byte b - 128) * 64 + (byte c - 128)"
| "code_point [a, b, c, d] =
     (byte a - 240) * 262144 + (byte b - 128) * 4096 + (byte c - 128) * 64 + (byte d - 128)"
| "code_point _ = 65533"

text \<open>\<open>char::is_whitespace\<close> (the property White\_Space) and \<open>char::is_control\<close> (category Cc).\<close>

definition is_whitespace_cp :: "int \<Rightarrow> bool" where
  "is_whitespace_cp p \<longleftrightarrow>
     (9 \<le> p \<and> p \<le> 13) \<or> p = 32 \<or> p = 133 \<or> p = 160 \<or> p = 5760 \<or> (8192 \<le> p \<and> p \<le> 8202) \<or>
     p = 8232 \<or> p = 8233 \<or> p = 8239 \<or> p = 8287 \<or> p = 12288"

definition is_control_cp :: "int \<Rightarrow> bool" where
  "is_control_cp p \<longleftrightarrow> (0 \<le> p \<and> p \<le> 31) \<or> (127 \<le> p \<and> p \<le> 159)"

definition is_whitespace :: "string \<Rightarrow> bool" where
  "is_whitespace c \<longleftrightarrow> is_whitespace_cp (code_point c)"

definition is_control :: "string \<Rightarrow> bool" where
  "is_control c \<longleftrightarrow> is_control_cp (code_point c)"

section \<open>Slices\<close>

definition is_char_boundary :: "string \<Rightarrow> nat \<Rightarrow> bool" where
  "is_char_boundary s i \<longleftrightarrow> i = 0 \<or> i = length s \<or> (i < length s \<and> \<not> is_cont (s ! i))"

text \<open>\<open>&s[a..b]\<close>: panics unless both ends are character boundaries in order.\<close>

definition str_slice :: "string \<Rightarrow> nat \<Rightarrow> nat \<Rightarrow> (string, 'e) result" where
  "str_slice s a b =
     (if a \<le> b \<and> b \<le> length s \<and> is_char_boundary s a \<and> is_char_boundary s b
      then Ok (take (b - a) (drop a s)) else Panic)"

text \<open>\<open>s.get(a..b)\<close>: the same slice, or nothing.\<close>

definition str_get :: "string \<Rightarrow> nat \<Rightarrow> nat \<Rightarrow> string option" where
  "str_get s a b =
     (if a \<le> b \<and> b \<le> length s \<and> is_char_boundary s a \<and> is_char_boundary s b
      then Some (take (b - a) (drop a s)) else None)"

lemma str_slice_Ok: "str_slice s a b = Ok t \<Longrightarrow> t = take (b - a) (drop a s) \<and> b \<le> length s"
  by (auto simp: str_slice_def split: if_splits)

section \<open>Searching, splitting, trimming\<close>

definition starts_with :: "string \<Rightarrow> string \<Rightarrow> bool" where
  "starts_with s p \<longleftrightarrow> take (length p) s = p"

definition ends_with :: "string \<Rightarrow> string \<Rightarrow> bool" where
  "ends_with s p \<longleftrightarrow> length p \<le> length s \<and> drop (length s - length p) s = p"

definition strip_prefix :: "string \<Rightarrow> string \<Rightarrow> string option" where
  "strip_prefix p s = (if starts_with s p then Some (drop (length p) s) else None)"

fun str_contains :: "string \<Rightarrow> string \<Rightarrow> bool" where
  "str_contains [] p = (p = [])"
| "str_contains (c # s) p = (starts_with (c # s) p \<or> str_contains s p)"

text \<open>The offset of the first occurrence.\<close>

fun str_find :: "string \<Rightarrow> string \<Rightarrow> nat option" where
  "str_find [] p = (if p = [] then Some 0 else None)"
| "str_find (c # s) p =
     (if starts_with (c # s) p then Some 0 else map_option Suc (str_find s p))"

text \<open>The offset of the last occurrence of a byte.\<close>

fun byte_rfind :: "string \<Rightarrow> char \<Rightarrow> nat option" where
  "byte_rfind [] c = None"
| "byte_rfind (a # s) c =
     (case byte_rfind s c of
        Some i \<Rightarrow> Some (Suc i)
      | None \<Rightarrow> if a = c then Some 0 else None)"

function split_ne :: "string \<Rightarrow> string \<Rightarrow> string \<Rightarrow> string list" where
  "split_ne sep acc s =
     (if s = [] then [rev acc]
      else if sep \<noteq> [] \<and> starts_with s sep
        then rev acc # split_ne sep [] (drop (length sep) s)
      else split_ne sep (hd s # acc) (tl s))"
  by pat_completeness auto
termination by (relation "measure (\<lambda>(sep, acc, s). length s)") auto

declare split_ne.simps [simp del]

text \<open>
  \<open>str::split\<close> on a string pattern. An empty pattern matches at every character boundary, so
  the pieces are the characters between two empty strings.
\<close>

definition str_split :: "string \<Rightarrow> string \<Rightarrow> string list" where
  "str_split s sep = (if sep = [] then [] # str_chars s @ [[]] else split_ne sep [] s)"

fun str_join :: "string \<Rightarrow> string list \<Rightarrow> string" where
  "str_join sep [] = []"
| "str_join sep [x] = x"
| "str_join sep (x # y # xs) = x @ sep @ str_join sep (y # xs)"

definition str_replace :: "string \<Rightarrow> string \<Rightarrow> string \<Rightarrow> string" where
  "str_replace s from to = str_join to (str_split s from)"

text \<open>\<open>split_once\<close> and \<open>rsplit_once\<close> on one ASCII byte.\<close>

definition split_once :: "string \<Rightarrow> char \<Rightarrow> (string \<times> string) option" where
  "split_once s c =
     map_option (\<lambda>i. (take i s, drop (Suc i) s)) (str_find s [c])"

definition rsplit_once :: "string \<Rightarrow> char \<Rightarrow> (string \<times> string) option" where
  "rsplit_once s c =
     map_option (\<lambda>i. (take i s, drop (Suc i) s)) (byte_rfind s c)"

definition trim_end :: "string \<Rightarrow> string" where
  "trim_end s = concat (rev (dropWhile is_whitespace (rev (str_chars s))))"

definition trim :: "string \<Rightarrow> string" where
  "trim s =
     concat (rev (dropWhile is_whitespace (rev (dropWhile is_whitespace (str_chars s)))))"

text \<open>\<open>str::split_whitespace\<close>: the runs of characters that are not white space.\<close>

fun split_ws :: "string list \<Rightarrow> string \<Rightarrow> string list" where
  "split_ws [] w = (if w = [] then [] else [w])"
| "split_ws (c # cs) w =
     (if is_whitespace c then (if w = [] then split_ws cs [] else w # split_ws cs [])
      else split_ws cs (w @ c))"

definition split_whitespace :: "string \<Rightarrow> string list" where
  "split_whitespace s = split_ws (str_chars s) []"

lemma starts_with_split: "starts_with s p \<Longrightarrow> s = p @ drop (length p) s"
  unfolding starts_with_def by (metis append_take_drop_id)

lemma split_ne_not_Nil [simp]: "split_ne sep acc s \<noteq> []"
  by (induction sep acc s rule: split_ne.induct) (subst split_ne.simps, simp)

lemma str_join_Cons: "xs \<noteq> [] \<Longrightarrow> str_join sep (x # xs) = x @ sep @ str_join sep xs"
  by (cases xs) auto

lemma split_ne_char:
  "str_join t (split_ne [c] acc s) = rev acc @ concat (map (\<lambda>x. if x = c then t else [x]) s)"
proof (induction s arbitrary: acc)
  case Nil
  then show ?case by (subst split_ne.simps) simp
next
  case (Cons a s)
  show ?case by (subst split_ne.simps) (simp add: starts_with_def Cons.IH str_join_Cons)
qed

lemma replace_char: "str_replace s [c] t = concat (map (\<lambda>x. if x = c then t else [x]) s)"
  by (simp add: str_replace_def str_split_def split_ne_char)

lemma str_find_bound: "str_find s p = Some i \<Longrightarrow> i + length p \<le> length s"
proof (induction s p arbitrary: i rule: str_find.induct)
  case (2 c s p)
  show ?case
  proof (cases "starts_with (c # s) p")
    case True
    then have "length p \<le> length (c # s)" unfolding starts_with_def by (metis length_take min.cobounded1)
    then show ?thesis using 2 True by simp
  next
    case False
    then show ?thesis using 2 by (cases "str_find s p") auto
  qed
qed (simp split: if_splits)

lemma join_split_ne: "str_join sep (split_ne sep acc s) = rev acc @ s"
proof (induction sep acc s rule: split_ne.induct)
  case (1 sep acc s)
  show ?case
  proof (cases "s = [] \<or> \<not> (sep \<noteq> [] \<and> starts_with s sep)")
    case True
    with 1 show ?thesis
      by (cases s) (auto simp: split_ne.simps [of sep acc])
  next
    case False
    with 1 have "str_join sep (split_ne sep [] (drop (length sep) s)) = drop (length sep) s"
      by simp
    moreover have "split_ne sep acc s = rev acc # split_ne sep [] (drop (length sep) s)"
      using False by (simp add: split_ne.simps [of sep acc])
    moreover from False have "s = sep @ drop (length sep) s" by (auto dest: starts_with_split)
    ultimately show ?thesis by (metis split_ne_not_Nil str_join_Cons)
  qed
qed

lemma str_join_Nil_sep: "str_join [] xs = concat xs"
  by (induction "[] :: string" xs rule: str_join.induct) auto

lemma join_split: "str_join sep (str_split s sep) = s"
  by (cases "sep = []") (auto simp: str_split_def join_split_ne str_join_Nil_sep)

text \<open>A piece of a split never holds a one-byte separator.\<close>

lemma split_ne_no_sep:
  "c \<notin> set acc \<Longrightarrow> t \<in> set (split_ne [c] acc s) \<Longrightarrow> c \<notin> set t"
proof (induction "[c]" acc s rule: split_ne.induct)
  case (1 acc s)
  show ?case
  proof (cases s)
    case Nil
    with 1 show ?thesis by (simp add: split_ne.simps)
  next
    case (Cons a s')
    show ?thesis
    proof (cases "a = c")
      case True
      with Cons have sw: "starts_with s [c]" by (simp add: starts_with_def)
      with 1 Cons True have "t = rev acc \<or> t \<in> set (split_ne [c] [] (drop (length [c]) s))"
        by (subst (asm) split_ne.simps) simp
      with 1 Cons sw True show ?thesis by auto
    next
      case False
      with Cons have nsw: "\<not> starts_with s [c]" by (simp add: starts_with_def)
      with 1 Cons have "t \<in> set (split_ne [c] (hd s # acc) (tl s))"
        by (subst (asm) split_ne.simps) simp
      with 1 Cons nsw False show ?thesis by simp
    qed
  qed
qed

text \<open>\<open>trim_end_matches\<close> and \<open>trim_start_matches\<close>: the pattern goes as often as it is there.\<close>

function trim_end_matches :: "string \<Rightarrow> string \<Rightarrow> string" where
  "trim_end_matches s ext =
     (if ext \<noteq> [] \<and> s \<noteq> [] \<and> ends_with s ext then trim_end_matches (take (length s - length ext) s) ext else s)"
  by pat_completeness auto
termination
  by (relation "measure (\<lambda>(s, ext). length s)") auto

declare trim_end_matches.simps [simp del]

function trim_start_matches :: "string \<Rightarrow> string \<Rightarrow> string" where
  "trim_start_matches s pat =
     (if pat \<noteq> [] \<and> s \<noteq> [] \<and> starts_with s pat then trim_start_matches (drop (length pat) s) pat else s)"
  by pat_completeness auto
termination
  by (relation "measure (\<lambda>(s, pat). length s)") auto

declare trim_start_matches.simps [simp del]

text \<open>The dash of the program's messages, U+2014 between spaces.\<close>

definition dash :: string where
  "dash = '' '' @ [CHR 0xE2, CHR 0x80, CHR 0x94] @ '' ''"

section \<open>Decimal numerals\<close>

fun digit_char :: "nat \<Rightarrow> char" where
  "digit_char d = char_of (48 + d)"

fun nat_str :: "nat \<Rightarrow> string" where
  "nat_str n = (if n < 10 then [digit_char n] else nat_str (n div 10) @ [digit_char (n mod 10)])"

declare nat_str.simps [simp del] digit_char.simps [simp del]

definition int_str :: "int \<Rightarrow> string" where
  "int_str i = (if i < 0 then CHR ''-'' # nat_str (nat (- i)) else nat_str (nat i))"

definition digit_val :: "char \<Rightarrow> int" where
  "digit_val c = byte c - 48"

fun digits_val :: "int \<Rightarrow> string \<Rightarrow> int" where
  "digits_val acc [] = acc"
| "digits_val acc (c # cs) = digits_val (acc * 10 + digit_val c) cs"

lemma byte_digit_char: "d < 10 \<Longrightarrow> byte (digit_char d) = int d + 48"
  by (simp add: digit_char.simps byte_nat)

lemma digit_char_is_digit: "d < 10 \<Longrightarrow> is_ascii_digit (digit_char d)"
  by (simp add: is_ascii_digit_def byte_in_def byte_digit_char)

lemma digits_val_append: "digits_val acc (xs @ ys) = digits_val (digits_val acc xs) ys"
  by (induction xs arbitrary: acc) auto

lemma nat_str_digits: "list_all is_ascii_digit (nat_str n)"
proof (induction n rule: nat_str.induct)
  case (1 n)
  then show ?case
    by (cases "n < 10") (subst nat_str.simps, simp add: digit_char_is_digit)+
qed

lemma digits_val_nat_str: "digits_val 0 (nat_str n) = int n"
proof (induction n rule: nat_str.induct)
  case (1 n)
  show ?case
  proof (cases "n < 10")
    case True
    then show ?thesis by (subst nat_str.simps) (simp add: digit_val_def byte_digit_char)
  next
    case False
    with 1 show ?thesis
      by (subst nat_str.simps)
        (simp add: digits_val_append digit_val_def byte_digit_char zdiv_int zmod_int)
  qed
qed

lemma nat_str_not_Nil [simp]: "nat_str n \<noteq> []"
  by (subst nat_str.simps) simp

end
