(* ===== verification/F64.thy ===== *)
theory F64
  imports Rust_Str "HOL-Library.Log_Nat"
begin

text \<open>
  IEEE 754 binary64 as Rust's \<open>f64\<close> has it: finite values as sign, integer significand and
  exponent, the two infinities and one NaN (payloads are not observable in the program).
  Every operation computes the exact result and rounds it once to nearest, ties to even;
  division and decimal conversion round a quotient that carries a sticky bit.
\<close>

datatype f64 = NaN | Inf bool | Fin bool int int

section \<open>Rounding\<close>

definition emin :: int where "emin = - 1074"
definition emax :: int where "emax = 971"

definition pow2 :: "int \<Rightarrow> int" where
  "pow2 k = 2 ^ nat k"

text \<open>The exponent of the last bit kept, for a significand \<open>m\<close> at exponent \<open>e\<close>.\<close>

definition ulp_exp :: "int \<Rightarrow> int \<Rightarrow> int" where
  "ulp_exp m e = max (e + bitlen m - 53) emin"

definition round_even :: "int \<Rightarrow> int \<Rightarrow> int" where
  "round_even m d =
     (let q = m div pow2 d; r = m mod pow2 d; h = pow2 (d - 1)
      in if h < r \<or> (r = h \<and> odd q) then q + 1 else q)"

definition fpack :: "bool \<Rightarrow> int \<Rightarrow> int \<Rightarrow> f64" where
  "fpack s m e =
     (let (m', e') = (if m = 2 ^ 53 then (2 ^ 52, e + 1) else (m, e))
      in if emax < e' then Inf s else Fin s m' e')"

text \<open>The value \<open>(-1)^s * m * 2^e\<close>, with \<open>m \<ge> 0\<close>, rounded.\<close>

definition fround :: "bool \<Rightarrow> int \<Rightarrow> int \<Rightarrow> f64" where
  "fround s m e =
     (if m = 0 then Fin s 0 emin
      else let u = ulp_exp m e
        in if u \<le> e then fpack s (m * pow2 (e - u)) u
           else fpack s (round_even m (u - e)) u)"

text \<open>The value \<open>(-1)^s * m / n\<close> rounded: 64 quotient bits and a sticky bit.\<close>

definition fquot :: "bool \<Rightarrow> int \<Rightarrow> int \<Rightarrow> int \<Rightarrow> f64" where
  "fquot s m n e =
     (let t = 64 + bitlen n; q = (m * pow2 t) div n; r = (m * pow2 t) mod n
      in fround s (2 * q + (if r = 0 then 0 else 1)) (e - t - 1))"

definition f64_of_int :: "int \<Rightarrow> f64" where
  "f64_of_int i = fround (i < 0) \<bar>i\<bar> 0"

section \<open>Operations\<close>

fun f_neg :: "f64 \<Rightarrow> f64" where
  "f_neg NaN = NaN"
| "f_neg (Inf s) = Inf (\<not> s)"
| "f_neg (Fin s m e) = Fin (\<not> s) m e"

fun f_abs :: "f64 \<Rightarrow> f64" where
  "f_abs NaN = NaN"
| "f_abs (Inf s) = Inf False"
| "f_abs (Fin s m e) = Fin False m e"

definition signed :: "bool \<Rightarrow> int \<Rightarrow> int" where
  "signed s m = (if s then - m else m)"

fun f_add :: "f64 \<Rightarrow> f64 \<Rightarrow> f64" where
  "f_add (Fin s1 m1 e1) (Fin s2 m2 e2) =
     (let e = min e1 e2;
          v = signed s1 m1 * pow2 (e1 - e) + signed s2 m2 * pow2 (e2 - e)
      in if v = 0 then Fin (s1 \<and> s2) 0 emin else fround (v < 0) \<bar>v\<bar> e)"
| "f_add (Inf s) (Inf t) = (if s = t then Inf s else NaN)"
| "f_add (Inf s) (Fin _ _ _) = Inf s"
| "f_add (Fin _ _ _) (Inf s) = Inf s"
| "f_add NaN _ = NaN"
| "f_add _ NaN = NaN"

definition f_sub :: "f64 \<Rightarrow> f64 \<Rightarrow> f64" where
  "f_sub a b = f_add a (f_neg b)"

fun f_mul :: "f64 \<Rightarrow> f64 \<Rightarrow> f64" where
  "f_mul (Fin s1 m1 e1) (Fin s2 m2 e2) = fround (s1 \<noteq> s2) (m1 * m2) (e1 + e2)"
| "f_mul (Inf s) (Inf t) = Inf (s \<noteq> t)"
| "f_mul (Inf s) (Fin t m e) = (if m = 0 then NaN else Inf (s \<noteq> t))"
| "f_mul (Fin t m e) (Inf s) = (if m = 0 then NaN else Inf (s \<noteq> t))"
| "f_mul NaN _ = NaN"
| "f_mul _ NaN = NaN"

fun f_div :: "f64 \<Rightarrow> f64 \<Rightarrow> f64" where
  "f_div (Fin s1 m1 e1) (Fin s2 m2 e2) =
     (if m2 = 0 then (if m1 = 0 then NaN else Inf (s1 \<noteq> s2))
      else fquot (s1 \<noteq> s2) m1 m2 (e1 - e2))"
| "f_div (Inf s) (Inf t) = NaN"
| "f_div (Inf s) (Fin t m e) = Inf (s \<noteq> t)"
| "f_div (Fin s m e) (Inf t) = Fin (s \<noteq> t) 0 emin"
| "f_div NaN _ = NaN"
| "f_div _ NaN = NaN"

text \<open>\<open>partial_cmp\<close>: \<open>None\<close> when a NaN is involved. The sign of the difference decides.\<close>

datatype ordering = Less | Equal | Greater

fun ord_int :: "int \<Rightarrow> int \<Rightarrow> ordering" where
  "ord_int a b = (if a < b then Less else if a = b then Equal else Greater)"

fun f_cmp :: "f64 \<Rightarrow> f64 \<Rightarrow> ordering option" where
  "f_cmp (Fin s1 m1 e1) (Fin s2 m2 e2) =
     (let e = min e1 e2
      in Some (ord_int (signed s1 m1 * pow2 (e1 - e)) (signed s2 m2 * pow2 (e2 - e))))"
| "f_cmp (Inf s) (Inf t) = Some (if s = t then Equal else if s then Less else Greater)"
| "f_cmp (Inf s) (Fin _ _ _) = Some (if s then Less else Greater)"
| "f_cmp (Fin _ _ _) (Inf s) = Some (if s then Greater else Less)"
| "f_cmp NaN _ = None"
| "f_cmp _ NaN = None"

definition f_eq :: "f64 \<Rightarrow> f64 \<Rightarrow> bool" where
  "f_eq a b \<longleftrightarrow> f_cmp a b = Some Equal"

definition f_lt :: "f64 \<Rightarrow> f64 \<Rightarrow> bool" where
  "f_lt a b \<longleftrightarrow> f_cmp a b = Some Less"

definition f_zero :: f64 where "f_zero = Fin False 0 emin"
definition f_one :: f64 where "f_one = f64_of_int 1"

text \<open>\<open>n.fract() == 0.0\<close>; the fraction of an infinity is NaN.\<close>

fun f_is_int :: "f64 \<Rightarrow> bool" where
  "f_is_int (Fin s m e) \<longleftrightarrow> 0 \<le> e \<or> m mod pow2 (- e) = 0"
| "f_is_int _ \<longleftrightarrow> False"

text \<open>\<open>n as i64\<close>: truncation, saturating, NaN to 0.\<close>

definition i64_min :: int where "i64_min = - (2 ^ 63)"
definition i64_max :: int where "i64_max = 2 ^ 63 - 1"

fun f_trunc :: "f64 \<Rightarrow> int" where
  "f_trunc (Fin s m e) = signed s (if 0 \<le> e then m * pow2 e else m div pow2 (- e))"
| "f_trunc (Inf s) = (if s then i64_min else i64_max)"
| "f_trunc NaN = 0"

definition f_as_i64 :: "f64 \<Rightarrow> int" where
  "f_as_i64 n = max i64_min (min i64_max (f_trunc n))"

definition f_as_i32 :: "f64 \<Rightarrow> int" where
  "f_as_i32 n = max (- (2 ^ 31)) (min (2 ^ 31 - 1) (f_trunc n))"

text \<open>\<open>f64::round\<close>: to the nearest integer, halves away from zero.\<close>

fun f_round :: "f64 \<Rightarrow> f64" where
  "f_round (Fin s m e) =
     (if 0 \<le> e then Fin s m e
      else fround s ((2 * m + pow2 (- e)) div pow2 (1 - e)) 0)"
| "f_round x = x"

text \<open>
  \<open>f64::powi\<close> by repeated squaring, with one reciprocal at the end for a negative exponent.
\<close>

fun f_powi_nat :: "f64 \<Rightarrow> f64 \<Rightarrow> nat \<Rightarrow> f64" where
  "f_powi_nat acc b n =
     (if n = 0 then acc
      else f_powi_nat (if odd n then f_mul acc b else acc) (f_mul b b) (n div 2))"

declare f_powi_nat.simps [simp del]

definition f_powi :: "f64 \<Rightarrow> int \<Rightarrow> f64" where
  "f_powi b n =
     (let r = f_powi_nat f_one b (nat \<bar>n\<bar>) in if n < 0 then f_div f_one r else r)"

section \<open>Parsing\<close>

text \<open>\<open>(-1)^s * m * 10^k\<close>, correctly rounded.\<close>

definition f64_of_dec :: "bool \<Rightarrow> int \<Rightarrow> int \<Rightarrow> f64" where
  "f64_of_dec s m k =
     (if 0 \<le> k then fround s (m * 10 ^ nat k) 0 else fquot s m (10 ^ nat (- k)) 0)"

definition split_digits :: "string \<Rightarrow> string \<times> string" where
  "split_digits s = (takeWhile is_ascii_digit s, dropWhile is_ascii_digit s)"

text \<open>The exponent part of a literal: nothing, or \<open>e\<close> with an optional sign and digits.\<close>

definition parse_exp :: "string \<Rightarrow> int option" where
  "parse_exp s =
     (case s of
        [] \<Rightarrow> Some 0
      | c # r \<Rightarrow>
          if c = CHR ''e'' \<or> c = CHR ''E'' then
            (let (neg, ds) =
               (case r of
                  d # r' \<Rightarrow> if d = CHR ''-'' then (True, r')
                            else if d = CHR ''+'' then (False, r') else (False, r)
                | [] \<Rightarrow> (False, r))
             in if ds \<noteq> [] \<and> list_all is_ascii_digit ds
                then Some (signed neg (digits_val 0 ds)) else None)
          else None)"

definition parse_unsigned :: "bool \<Rightarrow> string \<Rightarrow> f64 option" where
  "parse_unsigned neg s =
     (let low = map to_ascii_lowercase s
      in if low = ''inf'' \<or> low = ''infinity'' then Some (Inf neg)
         else if low = ''nan'' then Some NaN
         else
           (let (ip, r) = split_digits s;
                (fp, r') = (case r of c # r1 \<Rightarrow> if c = CHR ''.'' then split_digits r1 else ([], r)
                                    | [] \<Rightarrow> ([], r))
            in if ip = [] \<and> fp = [] then None
               else (case parse_exp r' of
                       None \<Rightarrow> None
                     | Some k \<Rightarrow>
                         Some (f64_of_dec neg (digits_val 0 (ip @ fp)) (k - int (length fp))))))"

text \<open>\<open>str::parse::<f64>\<close>.\<close>

definition parse_f64 :: "string \<Rightarrow> f64 option" where
  "parse_f64 s =
     (case s of
        [] \<Rightarrow> None
      | c # r \<Rightarrow>
          if c = CHR ''-'' then parse_unsigned True r
          else if c = CHR ''+'' then parse_unsigned False r
          else parse_unsigned False s)"


section \<open>Integers below \<open>2^53\<close> are exact\<close>

lemma pow2_add: "0 \<le> a \<Longrightarrow> 0 \<le> b \<Longrightarrow> pow2 (a + b) = pow2 a * pow2 b"
  by (simp add: pow2_def nat_add_distrib power_add)

lemma pow2_pos [simp]: "0 < pow2 k"
  by (simp add: pow2_def)

lemma pow2_not_zero [simp]: "pow2 k \<noteq> 0"
  by (simp add: pow2_def)

lemma pow2_zero [simp]: "pow2 0 = 1"
  by (simp add: pow2_def)

lemma ulp_exp_scale: "0 < m \<Longrightarrow> 0 \<le> k \<Longrightarrow> ulp_exp (m * pow2 k) e = ulp_exp m (e + k)"
  by (simp add: ulp_exp_def pow2_def bitlen_pow2)

lemma round_even_exact: "0 < d \<Longrightarrow> round_even (q * pow2 d) d = q"
  by (simp add: round_even_def Let_def less_imp_neq [OF pow2_pos] not_less_iff_gr_or_eq)

lemma round_even_scale:
  assumes "0 \<le> k" and "0 < d"
  shows "round_even (m * pow2 k) (d + k) = round_even m d"
proof -
  have p: "pow2 (d + k) = pow2 d * pow2 k" and h: "pow2 (d + k - 1) = pow2 (d - 1) * pow2 k"
    using assms pow2_add [of d k] pow2_add [of "d - 1" k] by (simp_all add: algebra_simps)
  have "m * pow2 k div (pow2 d * pow2 k) = m div pow2 d"
    and "m * pow2 k mod (pow2 d * pow2 k) = m mod pow2 d * pow2 k"
    by (simp_all add: mult_mod_left)
  then show ?thesis
    unfolding round_even_def Let_def p h by simp
qed

text \<open>Rounding depends on the value \<open>m * 2^e\<close> only.\<close>

lemma fround_scale:
  assumes "0 < m" and "0 \<le> k"
  shows "fround s (m * pow2 k) e = fround s m (e + k)"
proof -
  define u where "u = ulp_exp m (e + k)"
  have u: "ulp_exp (m * pow2 k) e = u" using assms by (simp add: u_def ulp_exp_scale)
  have nz: "m * pow2 k \<noteq> 0" "m \<noteq> 0" using assms by simp_all
  consider "u \<le> e" | "e < u" "u \<le> e + k" | "e + k < u" by linarith
  then show ?thesis
  proof cases
    case 1
    have "pow2 (e + k - u) = pow2 (e - u) * pow2 k"
      using 1 assms(2) pow2_add [of "e - u" k] by (simp add: algebra_simps)
    then have "m * pow2 k * pow2 (e - u) = m * pow2 (e + k - u)" by simp
    with 1 assms nz u show ?thesis
      unfolding fround_def Let_def by (simp add: u_def [symmetric] mult.assoc)
  next
    case 2
    have "m * pow2 k = (m * pow2 (e + k - u)) * pow2 (u - e)"
      using 2 pow2_add [of "e + k - u" "u - e"] by (simp add: mult.assoc)
    then have "round_even (m * pow2 k) (u - e) = m * pow2 (e + k - u)"
      using 2 by (metis diff_gt_0_iff_gt round_even_exact)
    with 2 nz u show ?thesis
      unfolding fround_def Let_def by (simp add: u_def [symmetric])
  next
    case 3
    have "round_even (m * pow2 k) (u - e) = round_even m (u - (e + k))"
      using 3 assms(2) round_even_scale [of k "u - (e + k)" m] by simp
    with 3 assms nz u show ?thesis
      unfolding fround_def Let_def by (simp add: u_def [symmetric])
  qed
qed

lemma bitlen_le_53: "0 < m \<Longrightarrow> m < 2 ^ 53 \<Longrightarrow> bitlen m \<le> 53"
  by (simp add: bitlen_le_iff_power)

lemma mult_pow2_bitlen_less: "0 < m \<Longrightarrow> bitlen m \<le> 53 \<Longrightarrow> m * pow2 (53 - bitlen m) < 2 ^ 53"
proof -
  assume m: "0 < m" "bitlen m \<le> 53"
  have b0: "0 \<le> bitlen m" by (simp add: bitlen_nonneg)
  have "m < 2 ^ nat (bitlen m)" using m(1) bitlen_bounds [of m] by simp
  then have "m * pow2 (53 - bitlen m) < pow2 (bitlen m) * pow2 (53 - bitlen m)"
    by (simp add: pow2_def)
  also have "\<dots> = pow2 53" using pow2_add [of "bitlen m" "53 - bitlen m"] b0 m(2) by simp
  finally show ?thesis by (simp add: pow2_def)
qed

text \<open>What an integer below \<open>2^53\<close> in absolute value becomes: itself, shifted.\<close>

lemma f64_of_int_repr:
  assumes "\<bar>i\<bar> < 2 ^ 53" and "i \<noteq> 0"
  shows "\<exists>k. 0 \<le> k \<and> f64_of_int i = Fin (i < 0) (\<bar>i\<bar> * pow2 k) (- k)"
proof -
  have "0 < \<bar>i\<bar>" using assms(2) by simp
  then have b: "bitlen \<bar>i\<bar> \<le> 53" "0 < bitlen \<bar>i\<bar>"
    using assms(1) bitlen_le_53 [of "\<bar>i\<bar>"] by (auto simp: bitlen_nonneg bitlen_zero order_less_le bitlen_eq_zero_iff)
  define u where "u = ulp_exp \<bar>i\<bar> 0"
  have u: "u = bitlen \<bar>i\<bar> - 53" using b by (simp add: u_def ulp_exp_def emin_def)
  have lt: "\<bar>i\<bar> * pow2 (- u) < 2 ^ 53"
    using mult_pow2_bitlen_less [OF \<open>0 < \<bar>i\<bar>\<close> b(1)] by (simp add: u)
  have "fround (i < 0) \<bar>i\<bar> 0 = fpack (i < 0) (\<bar>i\<bar> * pow2 (- u)) u"
    using assms(2) b u by (simp add: fround_def Let_def u_def [symmetric])
  also have "\<dots> = Fin (i < 0) (\<bar>i\<bar> * pow2 (- u)) u"
    using lt b u by (simp add: fpack_def Let_def emax_def)
  finally show ?thesis using b u by (intro exI [of _ "- u"]) (simp add: f64_of_int_def)
qed

lemma f64_of_int_0 [simp]: "f64_of_int 0 = Fin False 0 emin"
  by (simp add: f64_of_int_def fround_def)

lemma signed_abs: "signed (i < 0) (\<bar>i\<bar> * p) = i * p"
  by (simp add: signed_def)

lemma f_add_signed:
  assumes "0 \<le> j" and "0 \<le> k" and "signed s m = a * pow2 j" and "signed t n = b * pow2 k"
    and "a + b \<noteq> 0"
  shows "f_add (Fin s m (- j)) (Fin t n (- k)) = f64_of_int (a + b)"
proof -
  define M where "M = max j k"
  have e: "min (- j) (- k) = - M" by (simp add: M_def)
  have "signed s m * pow2 (- j - (- M)) = a * pow2 M"
    using assms(1,3) pow2_add [of j "M - j"] by (simp add: M_def algebra_simps)
  moreover have "signed t n * pow2 (- k - (- M)) = b * pow2 M"
    using assms(2,4) pow2_add [of k "M - k"] by (simp add: M_def algebra_simps)
  ultimately have v: "signed s m * pow2 (- j - (- M)) + signed t n * pow2 (- k - (- M)) =
      (a + b) * pow2 M"
    by (simp add: algebra_simps)
  have "f_add (Fin s m (- j)) (Fin t n (- k)) = fround ((a + b) * pow2 M < 0) \<bar>(a + b) * pow2 M\<bar> (- M)"
    unfolding f_add.simps(1) e Let_def v using assms(5) by simp
  also have "\<dots> = fround (a + b < 0) (\<bar>a + b\<bar> * pow2 M) (- M)"
    by (simp add: mult_less_0_iff abs_mult order_less_not_sym abs_of_pos)
  also have "\<dots> = f64_of_int (a + b)"
    using fround_scale [of "\<bar>a + b\<bar>" M _ "- M"] assms by (simp add: f64_of_int_def M_def)
  finally show ?thesis .
qed

lemma f64_of_int_signed:
  assumes "\<bar>a\<bar> < 2 ^ 53"
  obtains s m j where "0 \<le> j" "f64_of_int a = Fin s m (- j)" "signed s m = a * pow2 j"
    "0 \<le> m" "s \<longleftrightarrow> a < 0"
proof (cases "a = 0")
  case True
  then show ?thesis by (intro that [of 1074 False 0]) (simp_all add: signed_def emin_def)
next
  case False
  with assms f64_of_int_repr obtain k where "0 \<le> k" "f64_of_int a = Fin (a < 0) (\<bar>a\<bar> * pow2 k) (- k)"
    by blast
  then show ?thesis
    by (intro that [of k "a < 0" "\<bar>a\<bar> * pow2 k"]) (simp_all add: signed_abs less_imp_le)
qed

lemma f_add_int:
  assumes "\<bar>a\<bar> < 2 ^ 53" and "\<bar>b\<bar> < 2 ^ 53"
  shows "f_add (f64_of_int a) (f64_of_int b) = f64_of_int (a + b)"
proof -
  obtain s m j where 1: "0 \<le> j" "f64_of_int a = Fin s m (- j)" "signed s m = a * pow2 j" "s \<longleftrightarrow> a < 0"
    using f64_of_int_signed [OF assms(1)] by metis
  obtain t n k where 2: "0 \<le> k" "f64_of_int b = Fin t n (- k)" "signed t n = b * pow2 k" "t \<longleftrightarrow> b < 0"
    using f64_of_int_signed [OF assms(2)] by metis
  show ?thesis
  proof (cases "a + b = 0")
    case False
    then show ?thesis
      unfolding 1(2) 2(2) by (rule f_add_signed [OF 1(1) 2(1) 1(3) 2(3)])
  next
    case True
    define M where "M = max j k"
    have e: "min (- j) (- k) = - M" by (simp add: M_def)
    have "signed s m * pow2 (- j - (- M)) = a * pow2 M"
      using 1(1,3) pow2_add [of j "M - j"] by (simp add: M_def algebra_simps)
    moreover have "signed t n * pow2 (- k - (- M)) = b * pow2 M"
      using 2(1,3) pow2_add [of k "M - k"] by (simp add: M_def algebra_simps)
    ultimately have v: "signed s m * pow2 (- j - (- M)) + signed t n * pow2 (- k - (- M)) = 0"
      using True by (metis distrib_right mult_zero_left)
    from True 1(4) 2(4) have "\<not> (s \<and> t)" by linarith
    with v True 1(2) 2(2) show ?thesis by (simp only: f_add.simps(1) e Let_def) simp
  qed
qed

lemma f_neg_signed: "signed (\<not> s) m = - signed s m"
  by (simp add: signed_def)

lemma f_sub_int:
  assumes "\<bar>a\<bar> < 2 ^ 53" and "\<bar>b\<bar> < 2 ^ 53" and "a \<noteq> b"
  shows "f_sub (f64_of_int a) (f64_of_int b) = f64_of_int (a - b)"
proof -
  obtain s m j where 1: "0 \<le> j" "f64_of_int a = Fin s m (- j)" "signed s m = a * pow2 j"
    using f64_of_int_signed [OF assms(1)] by metis
  obtain t n k where 2: "0 \<le> k" "f64_of_int b = Fin t n (- k)" "signed t n = b * pow2 k"
    using f64_of_int_signed [OF assms(2)] by metis
  show ?thesis
    using f_add_signed [of j k s m a "\<not> t" n "- b"] 1 2 assms(3)
    by (simp add: f_sub_def f_neg_signed)
qed

lemma f_mul_int:
  assumes "\<bar>a\<bar> < 2 ^ 53" and "\<bar>b\<bar> < 2 ^ 53" and "a \<noteq> 0" and "b \<noteq> 0"
  shows "f_mul (f64_of_int a) (f64_of_int b) = f64_of_int (a * b)"
proof -
  obtain j where 1: "0 \<le> j" "f64_of_int a = Fin (a < 0) (\<bar>a\<bar> * pow2 j) (- j)"
    using f64_of_int_repr assms by blast
  obtain k where 2: "0 \<le> k" "f64_of_int b = Fin (b < 0) (\<bar>b\<bar> * pow2 k) (- k)"
    using f64_of_int_repr assms by blast
  have p: "\<bar>a\<bar> * pow2 j * (\<bar>b\<bar> * pow2 k) = \<bar>a * b\<bar> * pow2 (j + k)"
    using 1(1) 2(1) by (simp add: pow2_add abs_mult algebra_simps)
  have sg: "(a < 0) \<noteq> (b < 0) \<longleftrightarrow> a * b < 0"
    using assms by (auto simp: mult_less_0_iff)
  have "fround ((a < 0) \<noteq> (b < 0)) (\<bar>a * b\<bar> * pow2 (j + k)) (- j + - k) = fround (a * b < 0) \<bar>a * b\<bar> 0"
    using fround_scale [of "\<bar>a * b\<bar>" "j + k" _ "- j + - k"] assms 1(1) 2(1) sg by simp
  with p 1 2 show ?thesis by (simp only: f_mul.simps(1) f64_of_int_def [of "a * b"])
qed

lemma f64_of_int_is_int:
  assumes "\<bar>a\<bar> < 2 ^ 53"
  shows "f_is_int (f64_of_int a)" and "f_trunc (f64_of_int a) = a"
proof -
  show "f_is_int (f64_of_int a)"
  proof (cases "a = 0")
    case False
    with assms f64_of_int_repr obtain k where "0 \<le> k" "f64_of_int a = Fin (a < 0) (\<bar>a\<bar> * pow2 k) (- k)"
      by blast
    then show ?thesis by simp
  qed simp
  show "f_trunc (f64_of_int a) = a"
  proof (cases "a = 0")
    case False
    with assms f64_of_int_repr obtain k where "0 \<le> k" "f64_of_int a = Fin (a < 0) (\<bar>a\<bar> * pow2 k) (- k)"
      by blast
    then show ?thesis by (cases "k = 0") (auto simp: signed_def)
  qed (simp add: signed_def emin_def)
qed

lemma f_cmp_int:
  assumes "\<bar>a\<bar> < 2 ^ 53" and "\<bar>b\<bar> < 2 ^ 53"
  shows "f_cmp (f64_of_int a) (f64_of_int b) = Some (ord_int a b)"
proof -
  obtain s m j where 1: "0 \<le> j" "f64_of_int a = Fin s m (- j)" "signed s m = a * pow2 j"
    using f64_of_int_signed [OF assms(1)] by metis
  obtain t n k where 2: "0 \<le> k" "f64_of_int b = Fin t n (- k)" "signed t n = b * pow2 k"
    using f64_of_int_signed [OF assms(2)] by metis
  define M where "M = max j k"
  have e: "min (- j) (- k) = - M" by (simp add: M_def)
  have "signed s m * pow2 (- j - (- M)) = a * pow2 M"
    using 1(1,3) pow2_add [of j "M - j"] by (simp add: M_def algebra_simps)
  moreover have "signed t n * pow2 (- k - (- M)) = b * pow2 M"
    using 2(1,3) pow2_add [of k "M - k"] by (simp add: M_def algebra_simps)
  moreover have "ord_int (a * pow2 M) (b * pow2 M) = ord_int a b"
    by simp
  ultimately show ?thesis using 1(2) 2(2) by (simp only: f_cmp.simps(1) e Let_def)
qed

lemma f_abs_of_int:
  assumes "\<bar>a\<bar> < 2 ^ 53"
  shows "f_abs (f64_of_int a) = f64_of_int \<bar>a\<bar>"
proof -
  have "f_abs (fround s m e) = fround False m e" for s m e
    by (simp add: fround_def fpack_def Let_def)
  then show ?thesis by (simp add: f64_of_int_def)
qed

end
