(* ===== verification/Json.thy ===== *)
theory Json
  imports F64
begin

text \<open>
  JSON documents as \<open>serde_json\<close> has them (\<open>Value\<close>, \<open>Number\<close>, \<open>Map\<close>), with the accessors the
  program calls, and the value-level helpers of \<open>core/src/vjs.rs\<close>: \<open>num\<close>, \<open>truthy\<close>,
  \<open>to_display\<close> and the comparison the interpreter uses. A number is a non-negative integer, a
  negative integer or a float; the three are never equal to each other, as in \<open>serde_json\<close>.
\<close>

datatype number = PosInt int | NegInt int | Float f64

datatype json =
    VNull
  | VBool bool
  | VNumber number
  | VString string
  | VArray "json list"
  | VObject "(string \<times> json) list"

section \<open>Numbers\<close>

definition number_from_i64 :: "int \<Rightarrow> number" where
  "number_from_i64 i = (if i < 0 then NegInt i else PosInt i)"

text \<open>\<open>Number::from_f64\<close>: a float that is not finite has no number.\<close>

fun number_from_f64 :: "f64 \<Rightarrow> number option" where
  "number_from_f64 (Fin s m e) = Some (Float (Fin s m e))"
| "number_from_f64 _ = None"

fun number_as_f64 :: "number \<Rightarrow> f64" where
  "number_as_f64 (PosInt i) = f64_of_int i"
| "number_as_f64 (NegInt i) = f64_of_int i"
| "number_as_f64 (Float f) = f"

fun number_as_i64 :: "number \<Rightarrow> int option" where
  "number_as_i64 (PosInt i) = (if i \<le> i64_max then Some i else None)"
| "number_as_i64 (NegInt i) = Some i"
| "number_as_i64 (Float f) = None"

fun number_as_u64 :: "number \<Rightarrow> int option" where
  "number_as_u64 (PosInt i) = Some i"
| "number_as_u64 _ = None"

fun number_eq :: "number \<Rightarrow> number \<Rightarrow> bool" where
  "number_eq (PosInt a) (PosInt b) = (a = b)"
| "number_eq (NegInt a) (NegInt b) = (a = b)"
| "number_eq (Float a) (Float b) = f_eq a b"
| "number_eq _ _ = False"

section \<open>Accessors\<close>

fun as_str :: "json \<Rightarrow> string option" where
  "as_str (VString s) = Some s"
| "as_str _ = None"

fun as_bool :: "json \<Rightarrow> bool option" where
  "as_bool (VBool b) = Some b"
| "as_bool _ = None"

fun as_f64 :: "json \<Rightarrow> f64 option" where
  "as_f64 (VNumber n) = Some (number_as_f64 n)"
| "as_f64 _ = None"

fun as_u64 :: "json \<Rightarrow> int option" where
  "as_u64 (VNumber n) = number_as_u64 n"
| "as_u64 _ = None"

fun as_array :: "json \<Rightarrow> json list option" where
  "as_array (VArray a) = Some a"
| "as_array _ = None"

fun as_object :: "json \<Rightarrow> json omap option" where
  "as_object (VObject m) = Some m"
| "as_object _ = None"

text \<open>\<open>v.get(k)\<close> on a string key, and \<open>v[k]\<close>, which is null when there is nothing.\<close>

fun value_get :: "json \<Rightarrow> string \<Rightarrow> json option" where
  "value_get (VObject m) k = om_get m k"
| "value_get _ k = None"

definition value_index :: "json \<Rightarrow> string \<Rightarrow> json" where
  "value_index v k = (case value_get v k of Some w \<Rightarrow> w | None \<Rightarrow> VNull)"

text \<open>The derived \<open>PartialEq\<close> of \<open>Value\<close>.\<close>

fun value_eq :: "json \<Rightarrow> json \<Rightarrow> bool"
  and values_eq :: "json list \<Rightarrow> json list \<Rightarrow> bool"
  and fields_eq :: "(string \<times> json) list \<Rightarrow> (string \<times> json) list \<Rightarrow> bool"
where
  "value_eq VNull w = (w = VNull)"
| "value_eq (VBool a) w = (case w of VBool b \<Rightarrow> a = b | _ \<Rightarrow> False)"
| "value_eq (VNumber a) w = (case w of VNumber b \<Rightarrow> number_eq a b | _ \<Rightarrow> False)"
| "value_eq (VString a) w = (case w of VString b \<Rightarrow> a = b | _ \<Rightarrow> False)"
| "value_eq (VArray a) w = (case w of VArray b \<Rightarrow> values_eq a b | _ \<Rightarrow> False)"
| "value_eq (VObject a) w = (case w of VObject b \<Rightarrow> fields_eq a b | _ \<Rightarrow> False)"
| "values_eq [] ws = (ws = [])"
| "values_eq (v # vs) ws = (case ws of w # ws' \<Rightarrow> value_eq v w \<and> values_eq vs ws' | [] \<Rightarrow> False)"
| "fields_eq [] ws = (ws = [])"
| "fields_eq ((k, v) # vs) ws =
     (case ws of (k', w) # ws' \<Rightarrow> k = k' \<and> value_eq v w \<and> fields_eq vs ws' | [] \<Rightarrow> False)"

section \<open>Helpers of the interpreter\<close>

definition nine_e15 :: f64 where
  "nine_e15 = f64_of_int 9000000000000000"

text \<open>\<open>fn num\<close>: an integral float below 9e15 becomes an integer, a non-finite one null.\<close>

definition num :: "f64 \<Rightarrow> json" where
  "num n =
     (if f_is_int n \<and> f_lt (f_abs n) nine_e15
      then VNumber (number_from_i64 (f_as_i64 n))
      else (case number_from_f64 n of Some k \<Rightarrow> VNumber k | None \<Rightarrow> VNull))"

definition truthy :: "json \<Rightarrow> bool" where
  "truthy v =
     (case v of
        VNull \<Rightarrow> False
      | VBool b \<Rightarrow> b
      | VNumber n \<Rightarrow> \<not> f_eq (number_as_f64 n) f_zero
      | VString s \<Rightarrow> s \<noteq> []
      | VArray a \<Rightarrow> a \<noteq> []
      | VObject _ \<Rightarrow> True)"

text \<open>
  \<open>fn to_display\<close>; \<open>to_json\<close> is the text \<open>serde_json\<close> prints for a value, a parameter of the
  model.
\<close>

definition to_display :: "(json \<Rightarrow> string) \<Rightarrow> json \<Rightarrow> string" where
  "to_display to_json v =
     (case v of VNull \<Rightarrow> [] | VString s \<Rightarrow> s | other \<Rightarrow> to_json other)"

section \<open>Well-formed values\<close>

text \<open>Every object of the value has its keys in order, integers in the range of their kind.\<close>

fun number_wf :: "number \<Rightarrow> bool" where
  "number_wf (PosInt i) \<longleftrightarrow> 0 \<le> i \<and> i < 2 ^ 64"
| "number_wf (NegInt i) \<longleftrightarrow> i < 0 \<and> - (2 ^ 63) \<le> i"
| "number_wf (Float f) \<longleftrightarrow> (\<exists>s m e. f = Fin s m e)"

fun json_wf :: "json \<Rightarrow> bool" where
  "json_wf (VNumber n) = number_wf n"
| "json_wf (VArray vs) = list_all json_wf vs"
| "json_wf (VObject m) = (om_wf m \<and> list_all (\<lambda>x. json_wf (snd x)) m)"
| "json_wf _ = True"

definition vars_wf :: "json omap \<Rightarrow> bool" where
  "vars_wf m \<longleftrightarrow> om_wf m \<and> (\<forall>x \<in> set m. json_wf (snd x))"

lemma json_wf_VObject [simp]: "json_wf (VObject m) \<longleftrightarrow> vars_wf m"
  by (auto simp: vars_wf_def list_all_iff)

declare json_wf.simps(3) [simp del]

lemma vars_wf_Nil [simp]: "vars_wf []"
  by (simp add: vars_wf_def)

lemma om_get_in: "om_get m k = Some v \<Longrightarrow> (k, v) \<in> set m"
  by (induction m k rule: om_get.induct) (auto split: if_splits)

lemma vars_wf_get: "vars_wf m \<Longrightarrow> om_get m k = Some v \<Longrightarrow> json_wf v"
  by (force simp: vars_wf_def dest: om_get_in)

lemma set_om_insert: "set (om_insert k v m) \<subseteq> insert (k, v) (set m)"
  by (induction k v m rule: om_insert.induct) auto

lemma vars_wf_insert [intro]: "vars_wf m \<Longrightarrow> json_wf v \<Longrightarrow> vars_wf (om_insert k v m)"
  unfolding vars_wf_def using set_om_insert [of k v m] by fastforce

lemma vars_wf_remove [intro]: "vars_wf m \<Longrightarrow> vars_wf (om_remove k m)"
  unfolding vars_wf_def using om_remove_sub [of k m] by blast

lemma vars_wf_insert_all:
  "vars_wf m \<Longrightarrow> \<forall>x \<in> set kvs. json_wf (snd x) \<Longrightarrow> vars_wf (om_insert_all kvs m)"
  by (induction kvs m rule: om_insert_all.induct) (auto intro: vars_wf_insert)

lemma fround_finite_or_inf: "(\<exists>s m e. fround s' m' e' = Fin s m e) \<or> (\<exists>s. fround s' m' e' = Inf s)"
  by (auto simp: fround_def fpack_def Let_def split: if_splits)


end
