(* ===== verification/Lexer.thy ===== *)
theory Lexer
  imports Json
begin

text \<open>
  The lexer of VejasScript (\<open>core/src/vjs.rs\<close>, \<open>lex\<close>, \<open>lex_string\<close>, \<open>lex_fstring\<close>,
  \<open>err_at\<close>). It walks the bytes of the source by index; an f-string lexes the text of each
  hole with a recursive call. \<open>lex_n\<close> bounds the depth of that recursion and \<open>lex\<close>
  passes a bound the text cannot exhaust, so \<open>lex\<close> satisfies the program's own recursion
  equation (\<open>lex_unfold\<close>).
\<close>

section \<open>Tokens and errors\<close>

datatype tok =
    TIdent string | TStr string | TFStr "fpart list" | TNum f64
  | TTrue | TFalse | TNull | TIf | TElif | TElse | TEnd | TFor | TIn | TAnd | TOr | TNot
  | TEmit | TInvoke | TSource | TTool | TDriver | TApi | TRespond | TNewline
  | TColon | TComma | TDot | TQDot | TQQ | TLBrace | TRBrace | TLBrack | TRBrack
  | TLParen | TRParen | TEq | TEqEq | TNe | TLt | TLe | TGt | TGe
  | TPlus | TMinus | TStar | TSlash
and fpart = PLit string | PExpr "spanned list"
and spanned = Spanned (sp_tok: tok) (sp_pos: nat)

text \<open>
  The text of an error message: a fixed text, or one of the messages that quote a token or a
  character. \<open>ErrAt\<close> carries the line \<open>err_at\<close> computes. \<open>OutOfFuel\<close> is the only value the
  program does not have; \<open>lex\<close> and \<open>parse\<close> never return it.
\<close>

datatype msg =
    MText string | MUnexpectedChar char | MExpected string tok | MUnexpectedTok tok

datatype perr = ErrAt nat msg | OutOfFuel

definition err_at :: "nat \<Rightarrow> string \<Rightarrow> msg \<Rightarrow> ('a, perr) result" where
  "err_at pos src m =
     rbind (str_slice src 0 (min pos (length src)))
       (\<lambda>t. Err (ErrAt (length (filter (\<lambda>b. b = CHR 0x0A) t) + 1) m))"

section \<open>Loops over the source\<close>

function scan_while :: "(char \<Rightarrow> bool) \<Rightarrow> string \<Rightarrow> nat \<Rightarrow> nat" where
  "scan_while p src i = (if i < length src \<and> p (src ! i) then scan_while p src (Suc i) else i)"
  by pat_completeness auto
termination by (relation "measure (\<lambda>(p, src, i). length src - i)") auto

declare scan_while.simps [simp del]

text \<open>The character an escape stands for.\<close>

definition unescape :: "char \<Rightarrow> char" where
  "unescape c = (if c = CHR ''n'' then CHR 0x0A else if c = CHR ''t'' then CHR 0x09 else c)"

function lex_string_loop :: "string \<Rightarrow> nat \<Rightarrow> nat \<Rightarrow> string \<Rightarrow> (string \<times> nat, perr) result" where
  "lex_string_loop src start i s =
     (if i < length src then
        if src ! i = CHR 0x22 then Ok (from_utf8_lossy s, i + 1)
        else if src ! i = CHR 0x5C \<and> i + 1 < length src
          then lex_string_loop src start (i + 2) (s @ [unescape (src ! (i + 1))])
        else lex_string_loop src start (i + 1) (s @ [src ! i])
      else err_at start src (MText ''unterminated string''))"
  by pat_completeness auto
termination by (relation "measure (\<lambda>(src, start, i, s). length src - i)") auto

declare lex_string_loop.simps [simp del]

definition lex_string :: "string \<Rightarrow> nat \<Rightarrow> (string \<times> nat, perr) result" where
  "lex_string src start = lex_string_loop src start (start + 1) []"

text \<open>The end of an f-string hole: the position after the brace that closes it.\<close>

function brace_scan :: "string \<Rightarrow> nat \<Rightarrow> nat \<Rightarrow> nat \<times> nat" where
  "brace_scan src j depth =
     (if j < length src \<and> 0 < depth then
        brace_scan src (Suc j)
          (if src ! j = CHR ''{'' then Suc depth
           else if src ! j = CHR ''}'' then depth - 1 else depth)
      else (j, depth))"
  by pat_completeness auto
termination by (relation "measure (\<lambda>(src, j, depth). length src - j)") auto

declare brace_scan.simps [simp del]

definition flush :: "string \<Rightarrow> fpart list \<Rightarrow> fpart list" where
  "flush lit parts = (if lit = [] then parts else parts @ [PLit (from_utf8_lossy lit)])"

lemma brace_scan_le: "j \<le> fst (brace_scan src j depth)"
proof (induction src j depth rule: brace_scan.induct)
  case (1 src j depth)
  then show ?case
    by (cases "j < length src \<and> 0 < depth") (subst brace_scan.simps, simp add: Suc_le_eq)+
qed

lemma brace_scan_gt: "brace_scan src (Suc i) d = (j, d') \<Longrightarrow> i < j"
  using brace_scan_le [of "Suc i" src d] by simp

text \<open>\<open>lexer\<close> is the recursive call of \<open>lex\<close> on the text of a hole.\<close>

function lex_fstring_loop ::
  "(string \<Rightarrow> (spanned list, perr) result) \<Rightarrow> string \<Rightarrow> nat \<Rightarrow> nat \<Rightarrow> string \<Rightarrow> fpart list \<Rightarrow>
    (fpart list \<times> nat, perr) result" where
  "lex_fstring_loop lexer src quote i lit parts =
     (if i < length src then
        if src ! i = CHR 0x22 then Ok (flush lit parts, i + 1)
        else if src ! i = CHR ''{'' \<and> i + 1 < length src \<and> src ! (i + 1) = CHR ''{''
          then lex_fstring_loop lexer src quote (i + 2) (lit @ [CHR ''{'']) parts
        else if src ! i = CHR ''}'' \<and> i + 1 < length src \<and> src ! (i + 1) = CHR ''}''
          then lex_fstring_loop lexer src quote (i + 2) (lit @ [CHR ''}'']) parts
        else if src ! i = CHR ''{'' then
          (let (j, depth) = brace_scan src (i + 1) 1
           in if depth \<noteq> 0 then err_at i src (MText ''unterminated { in f-string'')
              else rbind (str_slice src (i + 1) (j - 1)) (\<lambda>inner.
                rbind (lexer inner) (\<lambda>toks.
                  lex_fstring_loop lexer src quote j [] (flush lit parts @ [PExpr toks]))))
        else if src ! i = CHR 0x5C \<and> i + 1 < length src
          then lex_fstring_loop lexer src quote (i + 2) (lit @ [unescape (src ! (i + 1))]) parts
        else lex_fstring_loop lexer src quote (i + 1) (lit @ [src ! i]) parts
      else err_at quote src (MText ''unterminated f-string''))"
  by pat_completeness auto
termination
proof (relation "measure (\<lambda>(lexer, src, quote, i, lit, parts). length src - i)", goal_cases)
  case (4 lexer src quote i lit parts x j depth)
  then have "i < j" by (metis Suc_eq_plus1 brace_scan_gt)
  with 4 show ?case by simp
qed auto

declare lex_fstring_loop.simps [simp del]

definition lex_fstring ::
  "(string \<Rightarrow> (spanned list, perr) result) \<Rightarrow> string \<Rightarrow> nat \<Rightarrow> (fpart list \<times> nat, perr) result" where
  "lex_fstring lexer src quote = lex_fstring_loop lexer src quote (quote + 1) [] []"

section \<open>One token\<close>

definition word_tok :: "string \<Rightarrow> tok" where
  "word_tok w =
     (if w = ''if'' then TIf else if w = ''elif'' then TElif else if w = ''else'' then TElse
      else if w = ''end'' then TEnd else if w = ''for'' then TFor else if w = ''in'' then TIn
      else if w = ''and'' then TAnd else if w = ''or'' then TOr else if w = ''not'' then TNot
      else if w = ''emit'' then TEmit else if w = ''invoke'' then TInvoke
      else if w = ''source'' then TSource else if w = ''tool'' then TTool
      else if w = ''driver'' then TDriver else if w = ''api'' then TApi
      else if w = ''respond'' then TRespond else if w = ''true'' then TTrue
      else if w = ''false'' then TFalse else if w = ''null'' then TNull
      else TIdent w)"

definition op2_tok :: "string \<Rightarrow> tok option" where
  "op2_tok two =
     (if two = ''?.'' then Some TQDot else if two = ''??'' then Some TQQ
      else if two = ''=='' then Some TEqEq else if two = ''!='' then Some TNe
      else if two = ''<='' then Some TLe else if two = ''>='' then Some TGe else None)"

definition op1_tok :: "char \<Rightarrow> tok option" where
  "op1_tok c =
     (if c = CHR '':'' then Some TColon else if c = CHR '','' then Some TComma
      else if c = CHR ''.'' then Some TDot else if c = CHR ''{'' then Some TLBrace
      else if c = CHR ''}'' then Some TRBrace else if c = CHR ''['' then Some TLBrack
      else if c = CHR '']'' then Some TRBrack else if c = CHR ''('' then Some TLParen
      else if c = CHR '')'' then Some TRParen else if c = CHR ''='' then Some TEq
      else if c = CHR ''<'' then Some TLt else if c = CHR ''>'' then Some TGt
      else if c = CHR ''+'' then Some TPlus else if c = CHR ''-'' then Some TMinus
      else if c = CHR ''*'' then Some TStar else if c = CHR 0x2F then Some TSlash else None)"

text \<open>
  One turn of the loop of \<open>lex\<close> at offset \<open>i\<close>: the tokens it pushes (at most one) and the
  offset after it. Looking at two bytes slices the source, which panics when the second one
  starts inside a character.
\<close>

definition lex_at ::
  "(string \<Rightarrow> (spanned list, perr) result) \<Rightarrow> string \<Rightarrow> nat \<Rightarrow> (spanned list \<times> nat, perr) result" where
  "lex_at lexer src i =
     (let c = src ! i in
      if c = CHR '' '' \<or> c = CHR 0x09 \<or> c = CHR 0x0D then Ok ([], i + 1)
      else if c = CHR 0x0A then Ok ([Spanned TNewline i], i + 1)
      else if c = CHR ''#'' then Ok ([], scan_while (\<lambda>b. b \<noteq> CHR 0x0A) src (i + 1))
      else if c = CHR 0x22 then
        rbind (lex_string src i) (\<lambda>(s, ni). Ok ([Spanned (TStr s) i], ni))
      else if c = CHR ''f'' \<and> i + 1 < length src \<and> src ! (i + 1) = CHR 0x22 then
        rbind (lex_fstring lexer src (i + 1)) (\<lambda>(parts, ni). Ok ([Spanned (TFStr parts) i], ni))
      else if is_ascii_digit c then
        (let j = scan_while (\<lambda>b. is_ascii_digit b \<or> b = CHR ''.'') src (i + 1) in
         rbind (str_slice src i j) (\<lambda>t.
           case parse_f64 t of
             Some n \<Rightarrow> Ok ([Spanned (TNum n) i], j)
           | None \<Rightarrow> err_at i src (MText ''bad number'')))
      else if is_ascii_alphabetic c \<or> c = CHR ''_'' then
        (let j = scan_while (\<lambda>b. is_ascii_alphanumeric b \<or> b = CHR ''_'') src (i + 1) in
         rbind (str_slice src i j) (\<lambda>w. Ok ([Spanned (word_tok w) i], j)))
      else
        rbind (if i + 1 < length src then str_slice src i (i + 2) else Ok []) (\<lambda>two.
          case op2_tok two of
            Some t \<Rightarrow> Ok ([Spanned t i], i + 2)
          | None \<Rightarrow>
              (case op1_tok c of
                 Some t \<Rightarrow> Ok ([Spanned t i], i + 1)
               | None \<Rightarrow> err_at i src (MUnexpectedChar c))))"

lemma scan_while_le: "i \<le> scan_while p src i"
proof (induction p src i rule: scan_while.induct)
  case (1 p src i)
  then show ?case
    by (cases "i < length src \<and> p (src ! i)") (subst scan_while.simps, simp add: Suc_le_eq)+
qed

lemma err_at_not_Ok [simp]: "err_at pos src m \<noteq> Ok a"
  by (auto simp: err_at_def rbind_eq_Ok)

lemma err_at_not_OutOfFuel [simp]: "err_at pos src m \<noteq> Err OutOfFuel"
  by (auto simp: err_at_def rbind_eq_Err str_slice_def split: if_splits)

lemma lex_string_loop_gt: "lex_string_loop src start i s = Ok (t, ni) \<Longrightarrow> i < ni"
  by (induction src start i s rule: lex_string_loop.induct)
    (subst (asm) lex_string_loop.simps, force split: if_splits)

lemma lex_string_gt: "lex_string src i = Ok (t, ni) \<Longrightarrow> i < ni"
  unfolding lex_string_def by (drule lex_string_loop_gt) simp

lemma lex_fstring_loop_gt:
  "lex_fstring_loop lexer src quote i lit parts = Ok (ps, ni) \<Longrightarrow> i < ni"
proof (induction "length src - i" arbitrary: i lit parts rule: less_induct)
  case less
  have IH: "i < ni"
    if "lex_fstring_loop lexer src quote k l p = Ok (ps, ni)" "i < k" "i < length src" for k l p
    using less.hyps [OF _ that(1)] that(2,3) by linarith
  show ?case
    using less.prems
    by (subst (asm) lex_fstring_loop.simps)
      (auto simp: rbind_eq_Ok split: if_splits prod.splits dest: brace_scan_gt IH)
qed

lemma lex_at_gt: "lex_at lexer src i = Ok (ts, ni) \<Longrightarrow> i < ni"
  using scan_while_le [of "i + 1" _ src]
  by (fastforce simp: lex_at_def Let_def rbind_eq_Ok lex_fstring_def Suc_le_eq
      split: if_splits option.splits dest: lex_string_gt lex_fstring_loop_gt)

section \<open>The loop and the recursion over f-string holes\<close>

function lex_loop ::
  "(string \<Rightarrow> (spanned list, perr) result) \<Rightarrow> string \<Rightarrow> nat \<Rightarrow> spanned list \<Rightarrow>
    (spanned list, perr) result" where
  "lex_loop lexer src i out =
     (if i < length src then
        rbind (lex_at lexer src i) (\<lambda>(ts, ni). lex_loop lexer src ni (out @ ts))
      else Ok (out @ [Spanned TNewline (length src)]))"
  by pat_completeness auto
termination
  by (relation "measure (\<lambda>(lexer, src, i, out). length src - i)") (auto dest: lex_at_gt)

declare lex_loop.simps [simp del]

fun lex_n :: "nat \<Rightarrow> string \<Rightarrow> (spanned list, perr) result" where
  "lex_n 0 src = Err OutOfFuel"
| "lex_n (Suc n) src = lex_loop (lex_n n) src 0 []"

definition lex :: "string \<Rightarrow> (spanned list, perr) result" where
  "lex src = lex_n (Suc (length src)) src"

end
