(* ===== verification/Ast.thy ===== *)
theory Ast
  imports Lexer
begin

text \<open>
  The syntax trees of VejasScript and the \<open>Program\<close> a source file parses to
  (\<open>core/src/vjs.rs\<close>, section ast).
\<close>

datatype unop = UNot | UNeg

datatype binop =
    BOr | BAnd | BCoalesce | BEq | BNe | BLt | BLe | BGt | BGe | BIn | BAdd | BSub | BMul | BDiv

datatype expr =
    ELit json
  | EFString "fstring_part list"
  | EVar string
  | EDoc "(string \<times> expr) list"
  | EArray "expr list"
  | EField expr string bool
  | EIndex expr expr
  | EProjection expr
  | EFilter expr expr
  | ECall string "expr list"
  | EInvoke string "(string \<times> expr) list"
  | EUnary unop expr
  | EBin binop expr expr
and fstring_part = FLit string | FExpr expr

text \<open>Each arm of an \<open>if\<close> is its condition, the byte span of the condition and its body.\<close>

datatype stmt =
    SAssign "string list" expr
  | SIf "(expr \<times> (nat \<times> nat) \<times> stmt list) list" "stmt list option"
  | SFor string expr "stmt list"
  | SEmit expr expr
  | SRespond expr expr
  | SInvokeMerge string "(string \<times> expr) list"

type_synonym span = "nat \<times> nat"
type_synonym arm = "expr \<times> span \<times> stmt list"

record surface_entry =
  se_name :: string
  se_value :: json
  se_value_span :: span
  se_entry_spans :: "(string \<times> span) list"

record program =
  pg_source :: "string option"
  pg_tool :: "string option"
  pg_api :: "string option"
  pg_driver :: "string option"
  pg_stmts :: "stmt list"
  pg_surface :: "surface_entry list"
  pg_emit_subjects :: "string list"
  pg_invokes :: "string list"
  pg_secret_refs :: "(string \<times> string) list"

end
