(* ===== verification/Static.thy ===== *)
theory Static
  imports Ast
begin

text \<open>
  The static analyses of \<open>core/src/vjs.rs\<close>: the targets \<open>collect_static\<close> lists, the secret
  references of \<open>walk_stmts\<close>, the write gate \<open>writes_bus\<close>, and the read-only rules view
  (\<open>render_guard\<close>, \<open>render_action\<close>, \<open>flow_rules\<close>). A nested list of the syntax has its own
  function, so that every analysis is structural.
\<close>

section \<open>Bus writes\<close>

fun expr_writes_bus :: "expr \<Rightarrow> bool"
  and fparts_write_bus :: "fstring_part list \<Rightarrow> bool"
  and fields_write_bus :: "(string \<times> expr) list \<Rightarrow> bool"
  and exprs_write_bus :: "expr list \<Rightarrow> bool"
where
  "expr_writes_bus (EInvoke _ _) = True"
| "expr_writes_bus (ELit _) = False"
| "expr_writes_bus (EVar _) = False"
| "expr_writes_bus (EFString parts) = fparts_write_bus parts"
| "expr_writes_bus (EDoc pairs) = fields_write_bus pairs"
| "expr_writes_bus (EArray es) = exprs_write_bus es"
| "expr_writes_bus (EField b _ _) = expr_writes_bus b"
| "expr_writes_bus (EIndex a b) = (expr_writes_bus a \<or> expr_writes_bus b)"
| "expr_writes_bus (EProjection b) = expr_writes_bus b"
| "expr_writes_bus (EFilter a b) = (expr_writes_bus a \<or> expr_writes_bus b)"
| "expr_writes_bus (ECall _ args) = exprs_write_bus args"
| "expr_writes_bus (EUnary _ b) = expr_writes_bus b"
| "expr_writes_bus (EBin _ a b) = (expr_writes_bus a \<or> expr_writes_bus b)"
| "fparts_write_bus [] = False"
| "fparts_write_bus (FLit _ # ps) = fparts_write_bus ps"
| "fparts_write_bus (FExpr e # ps) = (expr_writes_bus e \<or> fparts_write_bus ps)"
| "fields_write_bus [] = False"
| "fields_write_bus ((_, e) # fs) = (expr_writes_bus e \<or> fields_write_bus fs)"
| "exprs_write_bus [] = False"
| "exprs_write_bus (e # es) = (expr_writes_bus e \<or> exprs_write_bus es)"

fun stmt_writes_bus :: "stmt \<Rightarrow> bool"
  and stmts_write_bus :: "stmt list \<Rightarrow> bool"
  and arms_write_bus :: "arm list \<Rightarrow> bool"
where
  "stmt_writes_bus (SEmit _ _) = True"
| "stmt_writes_bus (SInvokeMerge _ _) = True"
| "stmt_writes_bus (SAssign _ e) = expr_writes_bus e"
| "stmt_writes_bus (SRespond status body) = (expr_writes_bus status \<or> expr_writes_bus body)"
| "stmt_writes_bus (SIf arms otherwise) =
     (arms_write_bus arms \<or> (case otherwise of Some b \<Rightarrow> stmts_write_bus b | None \<Rightarrow> False))"
| "stmt_writes_bus (SFor _ iter body) = (expr_writes_bus iter \<or> stmts_write_bus body)"
| "stmts_write_bus [] = False"
| "stmts_write_bus (s # ss) = (stmt_writes_bus s \<or> stmts_write_bus ss)"
| "arms_write_bus [] = False"
| "arms_write_bus ((cond, _, body) # arms) =
     ((expr_writes_bus cond \<or> stmts_write_bus body) \<or> arms_write_bus arms)"

definition writes_bus :: "program \<Rightarrow> bool" where
  "writes_bus prog = stmts_write_bus (pg_stmts prog)"

section \<open>Static targets\<close>

definition push_new :: "'a list \<Rightarrow> 'a \<Rightarrow> 'a list" where
  "push_new v s = (if s \<in> set v then v else v @ [s])"

text \<open>\<open>consts.iter().find(...)\<close>: the first entry of that name.\<close>

fun find_const :: "(string \<times> string) list \<Rightarrow> string \<Rightarrow> string option" where
  "find_const [] name = None"
| "find_const ((n, v) # cs) name = (if n = name then Some v else find_const cs name)"

definition emit_target :: "(string \<times> string) list \<Rightarrow> expr \<Rightarrow> string option" where
  "emit_target consts subj =
     (case subj of
        ELit (VString s) \<Rightarrow> Some s
      | EVar name \<Rightarrow> find_const consts name
      | _ \<Rightarrow> None)"

text \<open>The two accumulators of \<open>collect_static\<close>: emit subjects and invoked services.\<close>

type_synonym targets = "string list \<times> string list"

definition push_emit :: "string \<Rightarrow> targets \<Rightarrow> targets" where
  "push_emit s t = (push_new (fst t) s, snd t)"

definition push_invoke :: "string \<Rightarrow> targets \<Rightarrow> targets" where
  "push_invoke s t = (fst t, push_new (snd t) s)"

fun collect_stmt :: "(string \<times> string) list \<Rightarrow> stmt \<Rightarrow> targets \<Rightarrow> targets"
  and collect_static :: "(string \<times> string) list \<Rightarrow> stmt list \<Rightarrow> targets \<Rightarrow> targets"
  and collect_arms :: "(string \<times> string) list \<Rightarrow> arm list \<Rightarrow> targets \<Rightarrow> targets"
where
  "collect_stmt consts (SEmit subj _) =
     (case emit_target consts subj of Some s \<Rightarrow> push_emit s | None \<Rightarrow> id)"
| "collect_stmt consts (SInvokeMerge name _) = push_invoke name"
| "collect_stmt consts (SAssign _ e) =
     (case e of EInvoke name _ \<Rightarrow> push_invoke name | _ \<Rightarrow> id)"
| "collect_stmt consts (SIf arms otherwise) =
     (case otherwise of Some b \<Rightarrow> collect_static consts b | None \<Rightarrow> id) \<circ> collect_arms consts arms"
| "collect_stmt consts (SFor _ _ b) = collect_static consts b"
| "collect_stmt consts (SRespond _ _) = id"
| "collect_static consts [] = id"
| "collect_static consts (s # ss) = collect_static consts ss \<circ> collect_stmt consts s"
| "collect_arms consts [] = id"
| "collect_arms consts ((_, _, b) # arms) = collect_arms consts arms \<circ> collect_static consts b"

section \<open>Secret references\<close>

type_synonym refs = "(string \<times> string) list"

definition secret_arg :: "string \<Rightarrow> expr list \<Rightarrow> string option" where
  "secret_arg name args =
     (if name = ''secret'' then
        (case args of ELit (VString r) # _ \<Rightarrow> Some r | _ \<Rightarrow> None)
      else None)"

fun walk_expr :: "string \<Rightarrow> expr \<Rightarrow> refs \<Rightarrow> refs"
  and walk_fparts :: "string \<Rightarrow> fstring_part list \<Rightarrow> refs \<Rightarrow> refs"
  and walk_fields :: "string \<Rightarrow> (string \<times> expr) list \<Rightarrow> refs \<Rightarrow> refs"
  and walk_exprs :: "string \<Rightarrow> expr list \<Rightarrow> refs \<Rightarrow> refs"
where
  "walk_expr ctx (ECall name args) =
     walk_exprs ctx args \<circ>
       (\<lambda>out. case secret_arg name args of Some r \<Rightarrow> push_new out (ctx, r) | None \<Rightarrow> out)"
| "walk_expr ctx (EFString parts) = walk_fparts ctx parts"
| "walk_expr ctx (EDoc pairs) = walk_fields ctx pairs"
| "walk_expr ctx (EArray items) = walk_exprs ctx items"
| "walk_expr ctx (EField b _ _) = walk_expr ctx b"
| "walk_expr ctx (EProjection b) = walk_expr ctx b"
| "walk_expr ctx (EUnary _ b) = walk_expr ctx b"
| "walk_expr ctx (EIndex a b) = walk_expr ctx b \<circ> walk_expr ctx a"
| "walk_expr ctx (EFilter a b) = walk_expr ctx b \<circ> walk_expr ctx a"
| "walk_expr ctx (EBin _ a b) = walk_expr ctx b \<circ> walk_expr ctx a"
| "walk_expr ctx (EInvoke _ args) = walk_fields ctx args"
| "walk_expr ctx (ELit _) = id"
| "walk_expr ctx (EVar _) = id"
| "walk_fparts ctx [] = id"
| "walk_fparts ctx (FLit _ # ps) = walk_fparts ctx ps"
| "walk_fparts ctx (FExpr e # ps) = walk_fparts ctx ps \<circ> walk_expr ctx e"
| "walk_fields ctx [] = id"
| "walk_fields ctx ((_, e) # fs) = walk_fields ctx fs \<circ> walk_expr ctx e"
| "walk_exprs ctx [] = id"
| "walk_exprs ctx (e # es) = walk_exprs ctx es \<circ> walk_expr ctx e"

fun walk_stmt :: "stmt \<Rightarrow> refs \<Rightarrow> refs"
  and walk_stmts :: "stmt list \<Rightarrow> refs \<Rightarrow> refs"
  and walk_arms :: "arm list \<Rightarrow> refs \<Rightarrow> refs"
where
  "walk_stmt (SAssign path e) = walk_expr (str_join ''.'' path) e"
| "walk_stmt (SEmit a b) = walk_expr ''emit'' b \<circ> walk_expr ''emit'' a"
| "walk_stmt (SRespond a b) = walk_expr ''respond'' b \<circ> walk_expr ''respond'' a"
| "walk_stmt (SInvokeMerge _ args) = walk_fields ''invoke'' args"
| "walk_stmt (SIf arms els) =
     (case els of Some b \<Rightarrow> walk_stmts b | None \<Rightarrow> id) \<circ> walk_arms arms"
| "walk_stmt (SFor _ it b) = walk_stmts b \<circ> walk_expr ''for'' it"
| "walk_stmts [] = id"
| "walk_stmts (s # ss) = walk_stmts ss \<circ> walk_stmt s"
| "walk_arms [] = id"
| "walk_arms ((c, _, b) # arms) = walk_arms arms \<circ> (walk_stmts b \<circ> walk_expr ''if'' c)"

section \<open>The rules view\<close>

fun render_atom :: "(json \<Rightarrow> string) \<Rightarrow> expr \<Rightarrow> string option" where
  "render_atom to_json (EVar n) = Some n"
| "render_atom to_json (ELit v) =
     (case v of VString s \<Rightarrow> Some ([CHR 0x22] @ s @ [CHR 0x22]) | _ \<Rightarrow> Some (to_json v))"
| "render_atom to_json (EField b name opt) =
     (if opt then None
      else map_option (\<lambda>t. t @ ''.'' @ name) (render_atom to_json b))"
| "render_atom to_json (EIndex b idx) =
     (case render_atom to_json b of
        None \<Rightarrow> None
      | Some t \<Rightarrow> map_option (\<lambda>u. t @ ''['' @ u @ '']'') (render_atom to_json idx))"
| "render_atom to_json _ = None"

fun collect_surface_refs :: "expr \<Rightarrow> string list \<Rightarrow> string list \<Rightarrow> string list" where
  "collect_surface_refs (EVar n) surface out =
     (if n \<in> set surface then push_new out n else out)"
| "collect_surface_refs (EField b _ _) surface out = collect_surface_refs b surface out"
| "collect_surface_refs (EIndex b i) surface out =
     collect_surface_refs i surface (collect_surface_refs b surface out)"
| "collect_surface_refs _ surface out = out"

text \<open>The comparison signs, in UTF-8.\<close>

fun cmp_symbol :: "binop \<Rightarrow> string option" where
  "cmp_symbol BEq = Some ''=''"
| "cmp_symbol BNe = Some [CHR 0xE2, CHR 0x89, CHR 0xA0]"
| "cmp_symbol BLt = Some ''<''"
| "cmp_symbol BLe = Some [CHR 0xE2, CHR 0x89, CHR 0xA4]"
| "cmp_symbol BGt = Some ''>''"
| "cmp_symbol BGe = Some [CHR 0xE2, CHR 0x89, CHR 0xA5]"
| "cmp_symbol BIn = Some ''in''"
| "cmp_symbol _ = None"

definition render_guard ::
  "(json \<Rightarrow> string) \<Rightarrow> expr \<Rightarrow> string list \<Rightarrow> (string \<times> string list) option" where
  "render_guard to_json cond surface =
     (case cond of
        EBin op a b \<Rightarrow>
          (case cmp_symbol op of
             None \<Rightarrow> None
           | Some sy \<Rightarrow>
               (case (render_atom to_json a, render_atom to_json b) of
                  (Some la, Some lb) \<Rightarrow>
                    Some (la @ '' '' @ sy @ '' '' @ lb,
                      collect_surface_refs b surface (collect_surface_refs a surface []))
                | _ \<Rightarrow> None))
      | _ \<Rightarrow> None)"

fun find_surface :: "surface_entry list \<Rightarrow> string \<Rightarrow> surface_entry option" where
  "find_surface [] name = None"
| "find_surface (e # es) name = (if se_name e = name then Some e else find_surface es name)"

definition resolve_subject :: "expr \<Rightarrow> surface_entry list \<Rightarrow> string option" where
  "resolve_subject subject surface =
     (case subject of
        ELit (VString s) \<Rightarrow> Some s
      | EVar name \<Rightarrow>
          (case find_surface surface name of Some e \<Rightarrow> as_str (se_value e) | None \<Rightarrow> None)
      | _ \<Rightarrow> None)"

definition arrow :: string where
  "arrow = [CHR 0xE2, CHR 0x86, CHR 0x92, CHR '' '']"

fun render_acts ::
  "(json \<Rightarrow> string) \<Rightarrow> stmt list \<Rightarrow> surface_entry list \<Rightarrow> string list \<Rightarrow> string list option" where
  "render_acts to_json [] surface acts = Some acts"
| "render_acts to_json (st # body) surface acts =
     (case st of
        SEmit subject _ \<Rightarrow>
          (case resolve_subject subject surface of
             Some s \<Rightarrow> render_acts to_json body surface (acts @ [arrow @ s])
           | None \<Rightarrow> None)
      | SRespond status _ \<Rightarrow>
          render_acts to_json body surface
            (acts @ [case status of ELit v \<Rightarrow> ''respond '' @ to_json v | _ \<Rightarrow> ''respond''])
      | SAssign _ _ \<Rightarrow> render_acts to_json body surface acts
      | SInvokeMerge _ _ \<Rightarrow> render_acts to_json body surface acts
      | SIf _ _ \<Rightarrow> None
      | SFor _ _ _ \<Rightarrow> None)"

definition render_action ::
  "(json \<Rightarrow> string) \<Rightarrow> stmt list \<Rightarrow> surface_entry list \<Rightarrow> string list option" where
  "render_action to_json body surface =
     (case render_acts to_json body surface [] of
        None \<Rightarrow> None
      | Some acts \<Rightarrow> if acts = [] then None else Some acts)"

definition rule_raw :: "string \<Rightarrow> string \<Rightarrow> json" where
  "rule_raw kind raw =
     VObject (om_of_list [(''kind'', VString kind), (''projectable'', VBool False), (''raw'', VString raw)])"

definition rule_view :: "string \<Rightarrow> json \<Rightarrow> string list \<Rightarrow> string list \<Rightarrow> json" where
  "rule_view kind whn thn literals =
     VObject (om_of_list
       [(''kind'', VString kind), (''projectable'', VBool True), (''when'', whn),
        (''then'', VArray (map VString thn)), (''literals'', VArray (map VString literals))])"

definition arm_rule ::
  "(json \<Rightarrow> string) \<Rightarrow> string \<Rightarrow> surface_entry list \<Rightarrow> nat \<Rightarrow> arm \<Rightarrow> json" where
  "arm_rule to_json src surface i a =
     (case a of (cond, (b, e), body) \<Rightarrow>
        let kind = (if i = 0 then ''if'' else ''elif'');
            raw = (case str_get src b e of Some s \<Rightarrow> trim s | None \<Rightarrow> [])
        in (case (render_guard to_json cond (map se_name surface), render_action to_json body surface) of
              (Some (whn, literals), Some thn) \<Rightarrow> rule_view kind (VString whn) thn literals
            | _ \<Rightarrow> rule_raw kind raw))"

fun arm_rules ::
  "(json \<Rightarrow> string) \<Rightarrow> string \<Rightarrow> surface_entry list \<Rightarrow> nat \<Rightarrow> arm list \<Rightarrow> json list" where
  "arm_rules to_json src surface i [] = []"
| "arm_rules to_json src surface i (a # arms) =
     arm_rule to_json src surface i a # arm_rules to_json src surface (Suc i) arms"

definition else_rule :: "(json \<Rightarrow> string) \<Rightarrow> surface_entry list \<Rightarrow> stmt list option \<Rightarrow> json list" where
  "else_rule to_json surface otherwise =
     (case otherwise of
        None \<Rightarrow> []
      | Some body \<Rightarrow>
          (case render_action to_json body surface of
             Some thn \<Rightarrow> [rule_view ''else'' VNull thn []]
           | None \<Rightarrow> [rule_raw ''else'' [CHR 0xE2, CHR 0x80, CHR 0xA6]]))"

fun stmts_rules ::
  "(json \<Rightarrow> string) \<Rightarrow> string \<Rightarrow> surface_entry list \<Rightarrow> stmt list \<Rightarrow> json list" where
  "stmts_rules to_json src surface [] = []"
| "stmts_rules to_json src surface (SIf arms otherwise # ss) =
     arm_rules to_json src surface 0 arms @ else_rule to_json surface otherwise @
     stmts_rules to_json src surface ss"
| "stmts_rules to_json src surface (_ # ss) = stmts_rules to_json src surface ss"

definition flow_rules ::
  "(json \<Rightarrow> string) \<Rightarrow> program \<Rightarrow> string \<Rightarrow> surface_entry list \<Rightarrow> json list" where
  "flow_rules to_json prog src surface = stmts_rules to_json src surface (pg_stmts prog)"

end
