(* ===== verification/Parser.thy ===== *)
theory Parser
  imports Static
begin

text \<open>
  The parser of VejasScript (\<open>core/src/vjs.rs\<close>, \<open>struct Parser\<close>, \<open>parse\<close>): a
  recursive-descent parser over the token vector with a Pratt loop for binary operators. The
  cursor \<open>i\<close> of the Rust struct is threaded through every call. Each call takes a bound on
  the remaining calls; \<open>parse\<close> passes one that the token vector cannot exhaust, which the
  theorems below show.
\<close>

record pctx =
  p_toks :: "spanned list"
  p_src :: string

section \<open>The cursor\<close>

definition peek :: "pctx \<Rightarrow> nat \<Rightarrow> tok" where
  "peek P i = (if i < length (p_toks P) then sp_tok (p_toks P ! i) else TNewline)"

definition peek2 :: "pctx \<Rightarrow> nat \<Rightarrow> tok option" where
  "peek2 P i = (if i + 1 < length (p_toks P) then Some (sp_tok (p_toks P ! (i + 1))) else None)"

definition p_pos :: "pctx \<Rightarrow> nat \<Rightarrow> nat" where
  "p_pos P i =
     (if i < length (p_toks P) then sp_pos (p_toks P ! i)
      else if p_toks P = [] then 0 else sp_pos (last (p_toks P)))"

definition p_err :: "pctx \<Rightarrow> nat \<Rightarrow> msg \<Rightarrow> ('a, perr) result" where
  "p_err P i m = err_at (p_pos P i) (p_src P) m"

definition eat :: "pctx \<Rightarrow> tok \<Rightarrow> string \<Rightarrow> nat \<Rightarrow> (nat, perr) result" where
  "eat P t what i = (if peek P i = t then Ok (i + 1) else p_err P i (MExpected what (peek P i)))"

function skip_newlines :: "pctx \<Rightarrow> nat \<Rightarrow> nat" where
  "skip_newlines P i =
     (if i < length (p_toks P) \<and> peek P i = TNewline then skip_newlines P (Suc i) else i)"
  by pat_completeness auto
termination by (relation "measure (\<lambda>(P, i). length (p_toks P) - i)") auto

declare skip_newlines.simps [simp del]

definition at_end :: "pctx \<Rightarrow> nat \<Rightarrow> bool" where
  "at_end P i \<longleftrightarrow> length (p_toks P) - 1 \<le> i"

text \<open>The text of a token that may stand in key position: identifiers, strings, keywords.\<close>

fun tok_word :: "tok \<Rightarrow> string option" where
  "tok_word (TIdent s) = Some s"
| "tok_word (TStr s) = Some s"
| "tok_word TIf = Some ''if''"
| "tok_word TElif = Some ''elif''"
| "tok_word TElse = Some ''else''"
| "tok_word TEnd = Some ''end''"
| "tok_word TFor = Some ''for''"
| "tok_word TIn = Some ''in''"
| "tok_word TAnd = Some ''and''"
| "tok_word TOr = Some ''or''"
| "tok_word TNot = Some ''not''"
| "tok_word TEmit = Some ''emit''"
| "tok_word TInvoke = Some ''invoke''"
| "tok_word TSource = Some ''source''"
| "tok_word TTool = Some ''tool''"
| "tok_word TDriver = Some ''driver''"
| "tok_word TApi = Some ''api''"
| "tok_word TRespond = Some ''respond''"
| "tok_word TTrue = Some ''true''"
| "tok_word TFalse = Some ''false''"
| "tok_word TNull = Some ''null''"
| "tok_word _ = None"

definition word :: "pctx \<Rightarrow> string \<Rightarrow> nat \<Rightarrow> (string \<times> nat, perr) result" where
  "word P what i =
     (case tok_word (peek P i) of
        Some w \<Rightarrow> Ok (w, i + 1)
      | None \<Rightarrow> p_err P i (MExpected what (peek P i)))"

section \<open>Expressions\<close>

text \<open>Binary operators with their binding power.\<close>

fun binop_of :: "tok \<Rightarrow> (binop \<times> nat) option" where
  "binop_of TOr = Some (BOr, 1)"
| "binop_of TAnd = Some (BAnd, 2)"
| "binop_of TQQ = Some (BCoalesce, 3)"
| "binop_of TEqEq = Some (BEq, 4)"
| "binop_of TNe = Some (BNe, 4)"
| "binop_of TLt = Some (BLt, 4)"
| "binop_of TLe = Some (BLe, 4)"
| "binop_of TGt = Some (BGt, 4)"
| "binop_of TGe = Some (BGe, 4)"
| "binop_of TIn = Some (BIn, 4)"
| "binop_of TPlus = Some (BAdd, 5)"
| "binop_of TMinus = Some (BSub, 5)"
| "binop_of TStar = Some (BMul, 6)"
| "binop_of TSlash = Some (BDiv, 6)"
| "binop_of _ = None"

text \<open>\<open>a[e]\<close> is a filter when \<open>e\<close> is a comparison or a boolean combination.\<close>

definition is_filter :: "expr \<Rightarrow> bool" where
  "is_filter e =
     (case e of
        EBin op _ _ \<Rightarrow> op \<in> {BEq, BNe, BLt, BLe, BGt, BGe, BIn, BAnd, BOr}
      | EUnary UNot _ \<Rightarrow> True
      | _ \<Rightarrow> False)"

definition after_comma :: "pctx \<Rightarrow> nat \<Rightarrow> nat" where
  "after_comma P i =
     (let j = skip_newlines P i in if peek P j = TComma then skip_newlines P (j + 1) else j)"

definition after_comma_inline :: "pctx \<Rightarrow> nat \<Rightarrow> nat" where
  "after_comma_inline P i = (if peek P i = TComma then i + 1 else i)"

text \<open>The name after \<open>invoke\<close>: \<open>svc\<close> or \<open>pkg:svc\<close>.\<close>

definition invoke_name :: "pctx \<Rightarrow> nat \<Rightarrow> (string \<times> nat, perr) result" where
  "invoke_name P i =
     (case peek P i of
        TIdent n \<Rightarrow>
          (case (peek P (i + 1), peek2 P (i + 1)) of
             (TColon, Some (TIdent svc)) \<Rightarrow> Ok (n @ '':'' @ svc, i + 3)
           | _ \<Rightarrow> Ok (n, i + 1))
      | _ \<Rightarrow> p_err P (i + 1) (MText ''expected service name after invoke''))"

text \<open>
  The recursive call \<open>self.expr(bp)\<close> is a parameter \<open>ex\<close> of the functions below; \<open>p_expr\<close> ties
  the knot. The loops carry the same bound as the recursion.
\<close>

type_synonym expr_parser = "pctx \<Rightarrow> nat \<Rightarrow> nat \<Rightarrow> (expr \<times> nat, perr) result"

fun p_items :: "expr_parser \<Rightarrow> nat \<Rightarrow> pctx \<Rightarrow> expr list \<Rightarrow> nat \<Rightarrow> (expr list \<times> nat, perr) result" where
  "p_items ex 0 P acc i = Err OutOfFuel"
| "p_items ex (Suc n) P acc i =
     (if peek P i = TRBrack then Ok (acc, i + 1)
      else rbind (ex P 0 i) (\<lambda>(e, j). p_items ex n P (acc @ [e]) (after_comma P j)))"

fun p_fields :: "expr_parser \<Rightarrow> nat \<Rightarrow> pctx \<Rightarrow> (string \<times> expr) list \<Rightarrow> nat \<Rightarrow>
    ((string \<times> expr) list \<times> nat, perr) result" where
  "p_fields ex 0 P acc i = Err OutOfFuel"
| "p_fields ex (Suc n) P acc i =
     (if peek P i = TRBrace then Ok (acc, i + 1)
      else rbind (word P ''key'' i) (\<lambda>(key, j).
           rbind (eat P TColon '':'' j) (\<lambda>k.
           rbind (ex P 0 k) (\<lambda>(e, l). p_fields ex n P (acc @ [(key, e)]) (after_comma P l)))))"

fun p_args :: "expr_parser \<Rightarrow> nat \<Rightarrow> pctx \<Rightarrow> expr list \<Rightarrow> nat \<Rightarrow> (expr list \<times> nat, perr) result" where
  "p_args ex 0 P acc i = Err OutOfFuel"
| "p_args ex (Suc n) P acc i =
     (if peek P i = TRParen then Ok (acc, i + 1)
      else rbind (ex P 0 i) (\<lambda>(e, j). p_args ex n P (acc @ [e]) (after_comma_inline P j)))"

fun p_named :: "expr_parser \<Rightarrow> nat \<Rightarrow> pctx \<Rightarrow> (string \<times> expr) list \<Rightarrow> nat \<Rightarrow>
    ((string \<times> expr) list \<times> nat, perr) result" where
  "p_named ex 0 P acc i = Err OutOfFuel"
| "p_named ex (Suc n) P acc i =
     (if peek P i = TRParen then Ok (acc, i + 1)
      else rbind (word P ''argument name'' i) (\<lambda>(key, j).
           rbind (eat P TColon '':'' j) (\<lambda>k.
           rbind (ex P 0 k) (\<lambda>(e, l).
             p_named ex n P (acc @ [(key, e)]) (after_comma_inline P l)))))"

text \<open>A hole of an f-string is parsed by a parser of its own over the hole's tokens.\<close>

fun p_fparts :: "expr_parser \<Rightarrow> pctx \<Rightarrow> fpart list \<Rightarrow> (fstring_part list, perr) result" where
  "p_fparts ex P [] = Ok []"
| "p_fparts ex P (PLit s # ps) = rbind (p_fparts ex P ps) (\<lambda>out. Ok (FLit s # out))"
| "p_fparts ex P (PExpr ts # ps) =
     rbind (ex (P\<lparr>p_toks := ts\<rparr>) 0 0) (\<lambda>(e, _).
     rbind (p_fparts ex P ps) (\<lambda>out. Ok (FExpr e # out)))"

definition invoke_args ::
  "expr_parser \<Rightarrow> nat \<Rightarrow> pctx \<Rightarrow> nat \<Rightarrow> ((string \<times> (string \<times> expr) list) \<times> nat, perr) result" where
  "invoke_args ex n P i =
     rbind (invoke_name P i) (\<lambda>(nm, j).
     rbind (eat P TLParen ''('' j) (\<lambda>k.
     rbind (p_named ex n P [] k) (\<lambda>(args, l). Ok ((nm, args), l))))"

definition p_atom :: "expr_parser \<Rightarrow> nat \<Rightarrow> pctx \<Rightarrow> nat \<Rightarrow> (expr \<times> nat, perr) result" where
  "p_atom ex n P i =
     (case peek P i of
        TNum x \<Rightarrow> Ok (ELit (num x), i + 1)
      | TStr s \<Rightarrow> Ok (ELit (VString s), i + 1)
      | TTrue \<Rightarrow> Ok (ELit (VBool True), i + 1)
      | TFalse \<Rightarrow> Ok (ELit (VBool False), i + 1)
      | TNull \<Rightarrow> Ok (ELit VNull, i + 1)
      | TFStr parts \<Rightarrow> rbind (p_fparts ex P parts) (\<lambda>ps. Ok (EFString ps, i + 1))
      | TNot \<Rightarrow> rbind (ex P 9 (i + 1)) (\<lambda>(e, j). Ok (EUnary UNot e, j))
      | TMinus \<Rightarrow> rbind (ex P 9 (i + 1)) (\<lambda>(e, j). Ok (EUnary UNeg e, j))
      | TSource \<Rightarrow> Ok (EVar ''source'', i + 1)
      | TTool \<Rightarrow> Ok (EVar ''tool'', i + 1)
      | TDriver \<Rightarrow> Ok (EVar ''driver'', i + 1)
      | TApi \<Rightarrow> Ok (EVar ''api'', i + 1)
      | TInvoke \<Rightarrow> rbind (invoke_args ex n P (i + 1)) (\<lambda>((nm, args), j). Ok (EInvoke nm args, j))
      | TLParen \<Rightarrow>
          rbind (ex P 0 (i + 1)) (\<lambda>(e, j).
          rbind (eat P TRParen '')'' j) (\<lambda>k. Ok (e, k)))
      | TLBrack \<Rightarrow>
          rbind (p_items ex n P [] (skip_newlines P (i + 1))) (\<lambda>(es, j). Ok (EArray es, j))
      | TLBrace \<Rightarrow>
          rbind (p_fields ex n P [] (skip_newlines P (i + 1))) (\<lambda>(fs, j). Ok (EDoc fs, j))
      | TIdent name \<Rightarrow>
          if peek P (i + 1) = TLParen
          then rbind (p_args ex n P [] (i + 2)) (\<lambda>(es, j). Ok (ECall name es, j))
          else Ok (EVar name, i + 1)
      | other \<Rightarrow> p_err P (i + 1) (MUnexpectedTok other))"

fun p_postfix :: "expr_parser \<Rightarrow> nat \<Rightarrow> pctx \<Rightarrow> expr \<Rightarrow> nat \<Rightarrow> (expr \<times> nat, perr) result" where
  "p_postfix ex 0 P lhs i = Err OutOfFuel"
| "p_postfix ex (Suc n) P lhs i =
     (case peek P i of
        TDot \<Rightarrow>
          rbind (word P ''field name'' (i + 1)) (\<lambda>(f, j). p_postfix ex n P (EField lhs f False) j)
      | TQDot \<Rightarrow>
          rbind (word P ''field name'' (i + 1)) (\<lambda>(f, j). p_postfix ex n P (EField lhs f True) j)
      | TLBrack \<Rightarrow>
          if peek P (i + 1) = TRBrack then p_postfix ex n P (EProjection lhs) (i + 2)
          else rbind (ex P 0 (i + 1)) (\<lambda>(inner, j).
               rbind (eat P TRBrack '']'' j) (\<lambda>k.
                 p_postfix ex n P
                   (if is_filter inner then EFilter lhs inner else EIndex lhs inner) k))
      | _ \<Rightarrow> Ok (lhs, i))"

fun p_infix :: "expr_parser \<Rightarrow> nat \<Rightarrow> pctx \<Rightarrow> nat \<Rightarrow> expr \<Rightarrow> nat \<Rightarrow> (expr \<times> nat, perr) result" where
  "p_infix ex 0 P min_bp lhs i = Err OutOfFuel"
| "p_infix ex (Suc n) P min_bp lhs i =
     (case binop_of (peek P i) of
        None \<Rightarrow> Ok (lhs, i)
      | Some (bop, bp) \<Rightarrow>
          if bp \<le> min_bp then Ok (lhs, i)
          else rbind (ex P bp (i + 1)) (\<lambda>(rhs, j).
                 p_infix ex n P min_bp (EBin bop lhs rhs) j))"

fun p_expr :: "nat \<Rightarrow> expr_parser" where
  "p_expr 0 P bp i = Err OutOfFuel"
| "p_expr (Suc n) P bp i =
     rbind (p_atom (p_expr n) n P i) (\<lambda>(lhs, i1).
     rbind (p_postfix (p_expr n) n P lhs i1) (\<lambda>(lhs', i2).
       p_infix (p_expr n) n P bp lhs' i2))"

section \<open>Statements\<close>

text \<open>Two expressions separated by a comma, as after \<open>emit\<close> and \<open>respond\<close>.\<close>

definition p_pair :: "nat \<Rightarrow> pctx \<Rightarrow> nat \<Rightarrow> ((expr \<times> expr) \<times> nat, perr) result" where
  "p_pair n P i =
     rbind (p_expr n P 0 i) (\<lambda>(a, j).
     rbind (eat P TComma '','' j) (\<lambda>k.
     rbind (p_expr n P 0 k) (\<lambda>(b, l). Ok ((a, b), l))))"

text \<open>A condition up to its colon, with its span.\<close>

definition p_cond :: "nat \<Rightarrow> pctx \<Rightarrow> nat \<Rightarrow> ((expr \<times> span) \<times> nat, perr) result" where
  "p_cond n P i =
     rbind (p_expr n P 0 i) (\<lambda>(c, j).
     rbind (eat P TColon '':'' j) (\<lambda>k. Ok ((c, (p_pos P i, p_pos P j)), k)))"

fun p_path :: "nat \<Rightarrow> pctx \<Rightarrow> string list \<Rightarrow> nat \<Rightarrow> (string list \<times> nat, perr) result" where
  "p_path 0 P path i = Err OutOfFuel"
| "p_path (Suc n) P path i =
     (if peek P i = TDot
      then rbind (word P ''field name'' (i + 1)) (\<lambda>(w, j). p_path n P (path @ [w]) j)
      else Ok (path, i))"

text \<open>The recursive call \<open>self.stmt()\<close> of a block is the parameter \<open>st\<close>.\<close>

type_synonym stmt_parser = "pctx \<Rightarrow> nat \<Rightarrow> (stmt \<times> nat, perr) result"

fun p_block :: "stmt_parser \<Rightarrow> nat \<Rightarrow> pctx \<Rightarrow> stmt list \<Rightarrow> nat \<Rightarrow> (stmt list \<times> nat, perr) result" where
  "p_block st 0 P acc i = Err OutOfFuel"
| "p_block st (Suc n) P acc i =
     (let j = skip_newlines P i in
      if peek P j = TEnd \<or> peek P j = TElif \<or> peek P j = TElse then Ok (acc, j)
      else if at_end P j then p_err P j (MText ''missing `end`'')
      else rbind (st P j) (\<lambda>(s, k). p_block st n P (acc @ [s]) k))"

fun p_arms :: "stmt_parser \<Rightarrow> nat \<Rightarrow> pctx \<Rightarrow> arm list \<Rightarrow> stmt list option \<Rightarrow> nat \<Rightarrow>
    (stmt \<times> nat, perr) result" where
  "p_arms st 0 P arms otherwise i = Err OutOfFuel"
| "p_arms st (Suc n) P arms otherwise i =
     (case peek P i of
        TElif \<Rightarrow>
          rbind (p_cond n P (i + 1)) (\<lambda>((c, sp), j).
          rbind (p_block st n P [] j) (\<lambda>(body, k).
            p_arms st n P (arms @ [(c, sp, body)]) otherwise k))
      | TElse \<Rightarrow>
          rbind (eat P TColon '':'' (i + 1)) (\<lambda>j.
          rbind (p_block st n P [] j) (\<lambda>(body, k). p_arms st n P arms (Some body) k))
      | TEnd \<Rightarrow> Ok (SIf arms otherwise, i + 1)
      | _ \<Rightarrow> p_err P i (MText ''expected elif/else/end''))"

fun p_stmt :: "nat \<Rightarrow> stmt_parser" where
  "p_stmt 0 P i = Err OutOfFuel"
| "p_stmt (Suc n) P i =
     (case peek P i of
        TEmit \<Rightarrow> rbind (p_pair n P (i + 1)) (\<lambda>((s, p), j). Ok (SEmit s p, j))
      | TRespond \<Rightarrow> rbind (p_pair n P (i + 1)) (\<lambda>((s, b), j). Ok (SRespond s b, j))
      | TInvoke \<Rightarrow>
          rbind (invoke_args (p_expr n) n P (i + 1)) (\<lambda>((nm, args), j). Ok (SInvokeMerge nm args, j))
      | TIf \<Rightarrow>
          rbind (p_cond n P (i + 1)) (\<lambda>((c, sp), j).
          rbind (p_block (p_stmt n) n P [] j) (\<lambda>(body, k).
            p_arms (p_stmt n) n P [(c, sp, body)] None k))
      | TFor \<Rightarrow>
          (case peek P (i + 1) of
             TIdent v \<Rightarrow>
               rbind (eat P TIn ''in'' (i + 2)) (\<lambda>j.
               rbind (p_expr n P 0 j) (\<lambda>(it, k).
               rbind (eat P TColon '':'' k) (\<lambda>l.
               rbind (p_block (p_stmt n) n P [] l) (\<lambda>(body, m).
               rbind (eat P TEnd ''end'' m) (\<lambda>q. Ok (SFor v it body, q))))))
           | _ \<Rightarrow> p_err P (i + 2) (MText ''expected loop variable''))
      | TIdent first \<Rightarrow>
          rbind (p_path n P [first] (i + 1)) (\<lambda>(path, j).
          rbind (eat P TEq ''='' j) (\<lambda>k.
            if peek P k = TInvoke
            then rbind (invoke_args (p_expr n) n P (k + 1))
                   (\<lambda>((nm, args), l). Ok (SAssign path (EInvoke nm args), l))
            else rbind (p_expr n P 0 k) (\<lambda>(e, l). Ok (SAssign path e, l))))
      | _ \<Rightarrow> p_err P i (MText ''expected a statement''))"

section \<open>Surface literals\<close>

type_synonym literal = "json \<times> (string \<times> span) list \<times> nat"

type_synonym lit_parser = "pctx \<Rightarrow> nat \<Rightarrow> (literal \<times> nat, perr) result"

fun p_lit_items :: "lit_parser \<Rightarrow> nat \<Rightarrow> pctx \<Rightarrow> json list \<Rightarrow> nat \<Rightarrow> (literal \<times> nat, perr) result" where
  "p_lit_items lit 0 P items i = Err OutOfFuel"
| "p_lit_items lit (Suc n) P items i =
     (if peek P i = TRBrack then Ok ((VArray items, [], p_pos P (i + 1)), i + 1)
      else rbind (lit P i) (\<lambda>((v, _, _), j). p_lit_items lit n P (items @ [v]) (after_comma P j)))"

fun p_lit_fields :: "lit_parser \<Rightarrow> nat \<Rightarrow> pctx \<Rightarrow> json omap \<Rightarrow> (string \<times> span) list \<Rightarrow> nat \<Rightarrow>
    (literal \<times> nat, perr) result" where
  "p_lit_fields lit 0 P m spans i = Err OutOfFuel"
| "p_lit_fields lit (Suc n) P m spans i =
     (if peek P i = TRBrace then Ok ((VObject m, spans, p_pos P (i + 1)), i + 1)
      else rbind (word P ''key'' i) (\<lambda>(key, j).
           rbind (eat P TColon '':'' j) (\<lambda>k.
           rbind (lit P k) (\<lambda>((v, _, _), l).
             p_lit_fields lit n P (om_insert key v m) (spans @ [(key, (p_pos P k, p_pos P l))])
               (after_comma P l)))))"

fun p_lit :: "nat \<Rightarrow> lit_parser" where
  "p_lit 0 P i = Err OutOfFuel"
| "p_lit (Suc n) P i =
     (case peek P i of
        TStr s \<Rightarrow> Ok ((VString s, [], p_pos P (i + 1)), i + 1)
      | TNum x \<Rightarrow> Ok ((num x, [], p_pos P (i + 1)), i + 1)
      | TTrue \<Rightarrow> Ok ((VBool True, [], p_pos P (i + 1)), i + 1)
      | TFalse \<Rightarrow> Ok ((VBool False, [], p_pos P (i + 1)), i + 1)
      | TNull \<Rightarrow> Ok ((VNull, [], p_pos P (i + 1)), i + 1)
      | TMinus \<Rightarrow>
          (case peek P (i + 1) of
             TNum x \<Rightarrow> Ok ((num (f_neg x), [], p_pos P (i + 2)), i + 2)
           | _ \<Rightarrow> p_err P (i + 2) (MText ''expected number''))
      | TLBrack \<Rightarrow> p_lit_items (p_lit n) n P [] (skip_newlines P (i + 1))
      | TLBrace \<Rightarrow> p_lit_fields (p_lit n) n P [] [] (skip_newlines P (i + 1))
      | _ \<Rightarrow> p_err P (i + 1) (MText ''not a literal''))"

text \<open>\<open>try_literal\<close>: a literal that ends its line, or nothing and the cursor back.\<close>

definition try_literal :: "nat \<Rightarrow> pctx \<Rightarrow> nat \<Rightarrow> ((literal \<times> nat) option, perr) result" where
  "try_literal n P i =
     (case p_lit n P i of
        Ok (l, j) \<Rightarrow> if peek P j = TNewline then Ok (Some (l, j)) else Ok None
      | Err OutOfFuel \<Rightarrow> Err OutOfFuel
      | Err _ \<Rightarrow> Ok None
      | Panic \<Rightarrow> Panic)"

section \<open>Programs\<close>

definition is_surface_name :: "string \<Rightarrow> bool" where
  "is_surface_name name \<longleftrightarrow>
     list_all (\<lambda>c. is_ascii_uppercase c \<or> c = CHR ''_'' \<or> is_ascii_digit c) name \<and>
     list_ex is_ascii_uppercase name"

text \<open>A directive \<open>source "..."\<close>, \<open>tool "..."\<close>, \<open>driver "..."\<close>, \<open>api "..."\<close>.\<close>

definition p_directive ::
  "pctx \<Rightarrow> string \<Rightarrow> nat \<Rightarrow> (string \<times> nat, perr) result" where
  "p_directive P complaint i =
     (case peek P (i + 1) of
        TStr s \<Rightarrow> Ok (s, i + 2)
      | _ \<Rightarrow> p_err P (i + 2) (MText complaint))"

text \<open>A surface literal \<open>NAME = literal\<close>, if the cursor is at one.\<close>

definition p_surface ::
  "nat \<Rightarrow> pctx \<Rightarrow> nat \<Rightarrow> ((surface_entry \<times> nat) option, perr) result" where
  "p_surface n P i =
     (case peek P i of
        TIdent name \<Rightarrow>
          if is_surface_name name \<and> peek2 P i = Some TEq then
            rbind (try_literal n P (i + 2)) (\<lambda>r.
              case r of
                Some ((v, spans, e), j) \<Rightarrow>
                  Ok (Some (\<lparr>se_name = name, se_value = v, se_value_span = (p_pos P (i + 2), e),
                    se_entry_spans = spans\<rparr>, j))
              | None \<Rightarrow> Ok None)
          else Ok None
      | _ \<Rightarrow> Ok None)"

definition empty_program :: program where
  "empty_program =
     \<lparr>pg_source = None, pg_tool = None, pg_api = None, pg_driver = None, pg_stmts = [],
      pg_surface = [], pg_emit_subjects = [], pg_invokes = [], pg_secret_refs = []\<rparr>"

fun p_program :: "nat \<Rightarrow> pctx \<Rightarrow> program \<Rightarrow> nat \<Rightarrow> (program, perr) result" where
  "p_program 0 P pg i = Err OutOfFuel"
| "p_program (Suc n) P pg i =
     (let j = skip_newlines P i in
      if at_end P j then Ok pg
      else if peek P j = TSource then
        rbind (p_directive P ''source expects a string subject'' j)
          (\<lambda>(s, k). p_program n P (pg\<lparr>pg_source := Some s\<rparr>) k)
      else if peek P j = TTool then
        rbind (p_directive P ''tool expects a string description'' j)
          (\<lambda>(s, k). p_program n P (pg\<lparr>pg_tool := Some s\<rparr>) k)
      else if peek P j = TDriver then
        rbind (p_directive P ''driver expects a string driver name'' j)
          (\<lambda>(s, k). p_program n P (pg\<lparr>pg_driver := Some s\<rparr>) k)
      else if peek P j = TApi then
        rbind (p_directive P (''api expects a string like '' @ [CHR 0x22] @ ''POST /orders'' @ [CHR 0x22]) j)
          (\<lambda>(s, k). p_program n P (pg\<lparr>pg_api := Some s\<rparr>) k)
      else
        rbind (p_surface n P j) (\<lambda>r.
          case r of
            Some (e, k) \<Rightarrow>
              p_program n P
                (pg\<lparr>pg_stmts := pg_stmts pg @ [SAssign [se_name e] (ELit (se_value e))],
                    pg_surface := pg_surface pg @ [e]\<rparr>) k
          | None \<Rightarrow>
              rbind (p_stmt n P j)
                (\<lambda>(s, k). p_program n P (pg\<lparr>pg_stmts := pg_stmts pg @ [s]\<rparr>) k)))"

text \<open>The string constants of the surface, and the analyses that close \<open>program()\<close>.\<close>

definition surface_consts :: "surface_entry list \<Rightarrow> (string \<times> string) list" where
  "surface_consts es =
     concat (map (\<lambda>e. case as_str (se_value e) of Some s \<Rightarrow> [(se_name e, s)] | None \<Rightarrow> []) es)"

definition finish_program :: "program \<Rightarrow> program" where
  "finish_program pg =
     (let (emits, invokes) = collect_static (surface_consts (pg_surface pg)) (pg_stmts pg) ([], [])
      in pg\<lparr>pg_emit_subjects := emits, pg_invokes := invokes,
            pg_secret_refs := walk_stmts (pg_stmts pg) []\<rparr>)"

text \<open>The number of tokens, those of f-string holes included.\<close>

fun tok_weight :: "tok \<Rightarrow> nat"
  and fparts_weight :: "fpart list \<Rightarrow> nat"
  and toks_weight :: "spanned list \<Rightarrow> nat"
where
  "tok_weight t = (case t of TFStr parts \<Rightarrow> Suc (fparts_weight parts) | _ \<Rightarrow> 1)"
| "fparts_weight [] = 1"
| "fparts_weight (PLit _ # ps) = Suc (fparts_weight ps)"
| "fparts_weight (PExpr ts # ps) = Suc (toks_weight ts + fparts_weight ps)"
| "toks_weight [] = 1"
| "toks_weight (Spanned t _ # ts) = tok_weight t + toks_weight ts"

definition parse_fuel :: "spanned list \<Rightarrow> nat" where
  "parse_fuel toks = 4 * toks_weight toks + 8"

definition parse :: "string \<Rightarrow> (program, perr) result" where
  "parse src =
     rbind (lex src) (\<lambda>toks.
     rbind (p_program (parse_fuel toks) \<lparr>p_toks = toks, p_src = src\<rparr> empty_program 0)
       (\<lambda>pg. Ok (finish_program pg)))"

end
