(* ===== verification/Eval.thy ===== *)
theory Eval
  imports Parser
begin

text \<open>
  The interpreter of VejasScript (\<open>core/src/vjs.rs\<close>, section eval): \<open>Engine\<close>, \<open>Ctx\<close>, \<open>run\<close>,
  \<open>run_service\<close>, \<open>exec_block\<close>, \<open>set_path\<close>, \<open>eval\<close> and \<open>builtin\<close>. Both \<open>&mut\<close> arguments are
  the state of a state-and-error computation, so a run that fails still has the mutations it
  made. A composed service calls back into the interpreter: the call is a parameter \<open>rs\<close> of
  \<open>eval\<close> and \<open>exec_block\<close>, and \<open>run_service\<close> ties the knot with 33 levels, one more than the
  depth the code allows.
\<close>

section \<open>The world and the state\<close>

type_synonym path = "string list"

text \<open>
  What the interpreter asks of code and tables outside the repository: the text
  \<open>serde_json\<close> prints, the file system, and the Unicode case tables for characters that are
  not ASCII.
\<close>

record world =
  w_to_json :: "json \<Rightarrow> string"
  w_read :: "path \<Rightarrow> string option"
  w_upper :: "string \<Rightarrow> string"
  w_lower :: "string \<Rightarrow> string"

type_synonym secret_get = "string \<Rightarrow> (string, string) result"

record engine =
  project_root :: path
  caller_pkg :: string
  cache :: "program omap"
  exports :: "string list omap"
  secrets :: secret_get
  depth :: nat

record ctx =
  vars :: "json omap"
  emits :: "(string \<times> json) list"
  response :: "(json \<times> json) option"

text \<open>One constructor per error message of the interpreter.\<close>

datatype rerr =
    RDepth string
  | RNoManifest string
  | RManifest string perr
  | RInvalidRef string
  | RNotExported string string
  | RUnknownService string path
  | RService string perr
  | REmitNotString json
  | REmitSubject string
  | RField string json
  | RSecretArg
  | RSecret string
  | RUnknownFunction string
  | ROutOfFuel

type_synonym st = "ctx \<times> engine"
type_synonym 'a interp = "(st, 'a, rerr) stm"
type_synonym 'a eng = "(engine, 'a, rerr) stm"
type_synonym service_run = "string \<Rightarrow> json omap \<Rightarrow> (json \<times> (string \<times> json) list) eng"

section \<open>Engine\<close>

definition with_secrets :: "path \<Rightarrow> string \<Rightarrow> secret_get \<Rightarrow> engine" where
  "with_secrets dir pkg get =
     \<lparr>project_root = dir, caller_pkg = pkg, cache = [], exports = [], secrets = get, depth = 0\<rparr>"

definition invalidate :: "engine \<Rightarrow> engine" where
  "invalidate e = e\<lparr>cache := [], exports := []\<rparr>"

definition pkg_dir :: "engine \<Rightarrow> string \<Rightarrow> path" where
  "pkg_dir e pkg =
     (if pkg = ''default'' then project_root e else project_root e @ [''packages'', pkg])"

text \<open>The services the \<open>EXPORTS\<close> literal of a manifest lists.\<close>

definition export_list :: "program \<Rightarrow> string list" where
  "export_list prog =
     (case find_surface (pg_surface prog) ''EXPORTS'' of
        None \<Rightarrow> []
      | Some entry \<Rightarrow>
          (case as_array (se_value entry) of
             None \<Rightarrow> []
           | Some a \<Rightarrow> List.map_filter as_str a))"

definition exports_of :: "world \<Rightarrow> string \<Rightarrow> string list eng" where
  "exports_of W pkg e =
     (case om_get (exports e) pkg of
        Some l \<Rightarrow> (Ok l, e)
      | None \<Rightarrow>
          (case w_read W (pkg_dir e pkg @ [''package.vjs'']) of
             None \<Rightarrow> (Err (RNoManifest pkg), e)
           | Some src \<Rightarrow>
               (case parse src of
                  Ok prog \<Rightarrow>
                    (let l = export_list prog
                     in (Ok l, e\<lparr>exports := om_insert pkg l (exports e)\<rparr>))
                | Err x \<Rightarrow> (Err (RManifest pkg x), e)
                | Panic \<Rightarrow> (Panic, e))))"

definition valid_ref :: "string \<Rightarrow> bool" where
  "valid_ref s \<longleftrightarrow> s \<noteq> [] \<and> list_all (\<lambda>c. is_ascii_alphanumeric c \<or> c = CHR ''_'') s"

definition resolve :: "world \<Rightarrow> string \<Rightarrow> (string \<times> string) eng" where
  "resolve W name e =
     (let (pkg, svc) =
            (case split_once name CHR '':'' of Some (p, s) \<Rightarrow> (p, s) | None \<Rightarrow> (caller_pkg e, name))
      in if \<not> valid_ref pkg \<or> \<not> valid_ref svc then (Err (RInvalidRef name), e)
         else if pkg \<noteq> caller_pkg e then
           mbind (exports_of W pkg)
             (\<lambda>l. if svc \<in> set l then mret (pkg, svc) else mfail (RNotExported pkg svc)) e
         else (Ok (pkg, svc), e))"

definition service_stmts :: "world \<Rightarrow> string \<Rightarrow> string \<Rightarrow> stmt list eng" where
  "service_stmts W pkg svc e =
     (let key = pkg @ '':'' @ svc in
      case om_get (cache e) key of
        Some prog \<Rightarrow> (Ok (pg_stmts prog), e)
      | None \<Rightarrow>
          (let file = pkg_dir e pkg @ [''services'', svc @ ''.vjs''] in
           case w_read W file of
             None \<Rightarrow> (Err (RUnknownService key file), e)
           | Some src \<Rightarrow>
               (case parse src of
                  Ok prog \<Rightarrow> (Ok (pg_stmts prog), e\<lparr>cache := om_insert key prog (cache e)\<rparr>)
                | Err x \<Rightarrow> (Err (RService key x), e)
                | Panic \<Rightarrow> (Panic, e))))"

section \<open>Builtins and operators\<close>

definition to_uppercase :: "world \<Rightarrow> string \<Rightarrow> string" where
  "to_uppercase W s =
     concat (map (\<lambda>c. if is_ascii c then map to_ascii_uppercase c else w_upper W c) (str_chars s))"

definition to_lowercase :: "world \<Rightarrow> string \<Rightarrow> string" where
  "to_lowercase W s = (if is_ascii s then map to_ascii_lowercase s else w_lower W s)"

definition arg :: "json list \<Rightarrow> nat \<Rightarrow> json" where
  "arg args i = (if i < length args then args ! i else VNull)"

definition case_fn :: "(string \<Rightarrow> string) \<Rightarrow> world \<Rightarrow> json \<Rightarrow> json" where
  "case_fn f W v =
     (case v of
        VString s \<Rightarrow> VString (f s)
      | VNull \<Rightarrow> VNull
      | v \<Rightarrow> VString (f (to_display (w_to_json W) v)))"

definition b_len :: "json \<Rightarrow> json" where
  "b_len v =
     (case v of
        VString s \<Rightarrow> num (f64_of_int (int (length (str_chars s))))
      | VArray a \<Rightarrow> num (f64_of_int (int (length a)))
      | VObject m \<Rightarrow> num (f64_of_int (int (length m)))
      | _ \<Rightarrow> num f_zero)"

definition b_num :: "json \<Rightarrow> json" where
  "b_num v =
     (case v of
        VNumber n \<Rightarrow> VNumber n
      | VString s \<Rightarrow> (case parse_f64 (trim s) of Some f \<Rightarrow> num f | None \<Rightarrow> VNull)
      | VBool b \<Rightarrow> num (if b then f_one else f_zero)
      | _ \<Rightarrow> VNull)"

definition b_split :: "json \<Rightarrow> json \<Rightarrow> json" where
  "b_split v w =
     (case (v, w) of
        (VString s, VString sep) \<Rightarrow> VArray (map VString (str_split s sep))
      | _ \<Rightarrow> VNull)"

definition b_join :: "world \<Rightarrow> json \<Rightarrow> json \<Rightarrow> json" where
  "b_join W v w =
     (case (v, w) of
        (VArray a, VString sep) \<Rightarrow> VString (str_join sep (map (to_display (w_to_json W)) a))
      | _ \<Rightarrow> VNull)"

definition b_replace :: "json \<Rightarrow> json \<Rightarrow> json \<Rightarrow> json" where
  "b_replace v w x =
     (case (v, w, x) of
        (VString s, VString from, VString to) \<Rightarrow> VString (str_replace s from to)
      | _ \<Rightarrow> VNull)"

definition b_round :: "json \<Rightarrow> json \<Rightarrow> json" where
  "b_round v w =
     (case (as_f64 v, as_f64 w) of
        (Some x, Some d) \<Rightarrow>
          (let f = f_powi (f64_of_int 10) (f_as_i32 d) in num (f_div (f_round (f_mul x f)) f))
      | (Some x, None) \<Rightarrow> num (f_round x)
      | _ \<Rightarrow> VNull)"

definition builtin :: "world \<Rightarrow> string \<Rightarrow> json list \<Rightarrow> (json, rerr) result" where
  "builtin W name args =
     (if name = ''upper'' then Ok (case_fn (to_uppercase W) W (arg args 0))
      else if name = ''lower'' then Ok (case_fn (to_lowercase W) W (arg args 0))
      else if name = ''trim'' then
        Ok (case arg args 0 of VString s \<Rightarrow> VString (trim s) | v \<Rightarrow> v)
      else if name = ''len'' then Ok (b_len (arg args 0))
      else if name = ''str'' then Ok (VString (to_display (w_to_json W) (arg args 0)))
      else if name = ''num'' then Ok (b_num (arg args 0))
      else if name = ''split'' then Ok (b_split (arg args 0) (arg args 1))
      else if name = ''join'' then Ok (b_join W (arg args 0) (arg args 1))
      else if name = ''replace'' then Ok (b_replace (arg args 0) (arg args 1) (arg args 2))
      else if name = ''round'' then Ok (b_round (arg args 0) (arg args 1))
      else if name = ''abs'' then
        Ok (case as_f64 (arg args 0) of Some f \<Rightarrow> num (f_abs f) | None \<Rightarrow> VNull)
      else Err (RUnknownFunction name))"

fun str_cmp :: "string \<Rightarrow> string \<Rightarrow> ordering" where
  "str_cmp a b = (if a < b then Less else if a = b then Equal else Greater)"

definition value_cmp :: "json \<Rightarrow> json \<Rightarrow> ordering option" where
  "value_cmp l r =
     (case (l, r) of
        (VNumber a, VNumber b) \<Rightarrow> f_cmp (number_as_f64 a) (number_as_f64 b)
      | (VString a, VString b) \<Rightarrow> Some (str_cmp a b)
      | _ \<Rightarrow> None)"

definition cmp_holds :: "binop \<Rightarrow> ordering \<Rightarrow> bool" where
  "cmp_holds bop r =
     (case bop of
        BLt \<Rightarrow> r = Less
      | BLe \<Rightarrow> r \<noteq> Greater
      | BGt \<Rightarrow> r = Greater
      | _ \<Rightarrow> r \<noteq> Less)"

definition b_compare :: "binop \<Rightarrow> json \<Rightarrow> json \<Rightarrow> json" where
  "b_compare bop l r =
     VBool (case value_cmp l r of Some d \<Rightarrow> cmp_holds bop d | None \<Rightarrow> False)"

definition b_in :: "json \<Rightarrow> json \<Rightarrow> json" where
  "b_in l r =
     (case r of
        VArray a \<Rightarrow> VBool (list_ex (\<lambda>v. value_eq v l) a)
      | VString s \<Rightarrow> (case l of VString needle \<Rightarrow> VBool (str_contains s needle) | _ \<Rightarrow> VBool False)
      | VObject m \<Rightarrow> (case l of VString k \<Rightarrow> VBool (om_get m k \<noteq> None) | _ \<Rightarrow> VBool False)
      | _ \<Rightarrow> VBool False)"

definition b_add :: "world \<Rightarrow> json \<Rightarrow> json \<Rightarrow> json" where
  "b_add W l r =
     (case (l, r) of
        (VNumber a, VNumber b) \<Rightarrow> num (f_add (number_as_f64 a) (number_as_f64 b))
      | (VArray a, VArray b) \<Rightarrow> VArray (a @ b)
      | _ \<Rightarrow> VString (to_display (w_to_json W) l @ to_display (w_to_json W) r))"

definition b_arith :: "binop \<Rightarrow> json \<Rightarrow> json \<Rightarrow> json" where
  "b_arith bop l r =
     (case (as_f64 l, as_f64 r) of
        (Some a, Some b) \<Rightarrow>
          (case bop of
             BSub \<Rightarrow> num (f_sub a b)
           | BMul \<Rightarrow> num (f_mul a b)
           | _ \<Rightarrow> if f_eq b f_zero then VNull else num (f_div a b))
      | _ \<Rightarrow> VNull)"

text \<open>The operators that evaluate both sides; the three lazy ones are in \<open>eval\<close>.\<close>

definition strict_op :: "world \<Rightarrow> binop \<Rightarrow> json \<Rightarrow> json \<Rightarrow> json" where
  "strict_op W bop l r =
     (case bop of
        BEq \<Rightarrow> VBool (value_eq l r)
      | BNe \<Rightarrow> VBool (\<not> value_eq l r)
      | BIn \<Rightarrow> b_in l r
      | BAdd \<Rightarrow> b_add W l r
      | BSub \<Rightarrow> b_arith bop l r
      | BMul \<Rightarrow> b_arith bop l r
      | BDiv \<Rightarrow> b_arith bop l r
      | _ \<Rightarrow> b_compare bop l r)"

definition apply_unop :: "unop \<Rightarrow> json \<Rightarrow> json" where
  "apply_unop uop v =
     (case uop of
        UNot \<Rightarrow> VBool (\<not> truthy v)
      | UNeg \<Rightarrow> (case as_f64 v of Some f \<Rightarrow> num (f_neg f) | None \<Rightarrow> VNull))"

definition get_or_null :: "json omap \<Rightarrow> string \<Rightarrow> json" where
  "get_or_null m k = (case om_get m k of Some v \<Rightarrow> v | None \<Rightarrow> VNull)"

definition read_field :: "json \<Rightarrow> string \<Rightarrow> bool \<Rightarrow> (json, rerr) result" where
  "read_field b f safe =
     (case b of
        VObject m \<Rightarrow> Ok (get_or_null m f)
      | VArray items \<Rightarrow> Ok (VArray (map (\<lambda>it. value_index it f) items))
      | VNull \<Rightarrow> Ok VNull
      | other \<Rightarrow> if safe then Ok VNull else Err (RField f other))"

definition read_index :: "json \<Rightarrow> json \<Rightarrow> json" where
  "read_index b k =
     (case (b, k) of
        (VObject m, VString s) \<Rightarrow> get_or_null m s
      | (VArray a, VNumber n) \<Rightarrow>
          (let i = (case number_as_i64 n of Some i \<Rightarrow> i | None \<Rightarrow> -1)
           in if 0 \<le> i \<and> nat i < length a then a ! nat i else VNull)
      | _ \<Rightarrow> VNull)"

section \<open>Expressions\<close>

definition upd_vars :: "(json omap \<Rightarrow> json omap) \<Rightarrow> st \<Rightarrow> st" where
  "upd_vars f s = ((fst s)\<lparr>vars := f (vars (fst s))\<rparr>, snd s)"

definition set_var :: "string \<Rightarrow> json \<Rightarrow> unit interp" where
  "set_var k v = mupd (upd_vars (om_insert k v))"

definition push_emits :: "(string \<times> json) list \<Rightarrow> unit interp" where
  "push_emits ems = mupd (\<lambda>s. ((fst s)\<lparr>emits := emits (fst s) @ ems\<rparr>, snd s))"

text \<open>A call of the engine from inside a run: the context is not touched.\<close>

definition on_engine :: "'a eng \<Rightarrow> 'a interp" where
  "on_engine m s = (case m (snd s) of (r, e) \<Rightarrow> (r, (fst s, e)))"

definition invoke :: "service_run \<Rightarrow> string \<Rightarrow> json omap \<Rightarrow> json interp" where
  "invoke rs name args =
     mbind (on_engine (rs name args)) (\<lambda>(out, ems). mbind (push_emits ems) (\<lambda>_. mret out))"

text \<open>
  One element of a filter: its fields shadow the variables while the condition runs, then the
  saved values are put back.
\<close>

definition item_fields :: "json \<Rightarrow> json omap" where
  "item_fields item = (case item of VObject m \<Rightarrow> m | _ \<Rightarrow> [])"

definition scoped :: "json omap \<Rightarrow> json interp \<Rightarrow> json interp" where
  "scoped fs cond =
     mbind mget (\<lambda>s.
       let saved = map (\<lambda>k. (k, om_get (vars (fst s)) k)) (map fst fs) in
       mbind (mupd (upd_vars (om_insert_all fs))) (\<lambda>_.
       mbind cond (\<lambda>v.
       mbind (mupd (upd_vars (om_restore saved))) (\<lambda>_. mret v))))"

fun filter_items :: "json interp \<Rightarrow> json list \<Rightarrow> json list \<Rightarrow> json interp" where
  "filter_items cond [] out = mret (VArray out)"
| "filter_items cond (item # items) out =
     mbind (scoped (item_fields item) cond)
       (\<lambda>keep. filter_items cond items (if truthy keep then out @ [item] else out))"

definition eval_call :: "world \<Rightarrow> string \<Rightarrow> json list \<Rightarrow> json interp" where
  "eval_call W name vals =
     (if name = ''secret'' then
        (case (case vals of v # _ \<Rightarrow> as_str v | [] \<Rightarrow> None) of
           None \<Rightarrow> mfail RSecretArg
         | Some reference \<Rightarrow>
             mbind mget (\<lambda>s. mlift (map_err RSecret
               (rbind (secrets (snd s) reference) (\<lambda>v. Ok (VString v))))))
      else mlift (builtin W name vals))"

fun eval :: "world \<Rightarrow> service_run \<Rightarrow> expr \<Rightarrow> json interp"
  and eval_fparts :: "world \<Rightarrow> service_run \<Rightarrow> fstring_part list \<Rightarrow> string \<Rightarrow> string interp"
  and eval_fields :: "world \<Rightarrow> service_run \<Rightarrow> (string \<times> expr) list \<Rightarrow> json omap \<Rightarrow> json omap interp"
  and eval_list :: "world \<Rightarrow> service_run \<Rightarrow> expr list \<Rightarrow> json list \<Rightarrow> json list interp"
where
  "eval W rs (ELit v) = mret v"
| "eval W rs (EVar name) = mbind mget (\<lambda>s. mret (get_or_null (vars (fst s)) name))"
| "eval W rs (EFString parts) = mbind (eval_fparts W rs parts []) (mret \<circ> VString)"
| "eval W rs (EDoc pairs) = mbind (eval_fields W rs pairs []) (mret \<circ> VObject)"
| "eval W rs (EArray es) = mbind (eval_list W rs es []) (mret \<circ> VArray)"
| "eval W rs (EInvoke name args) = mbind (eval_fields W rs args []) (invoke rs name)"
| "eval W rs (EField base f safe) = mbind (eval W rs base) (\<lambda>b. mlift (read_field b f safe))"
| "eval W rs (EIndex base key) =
     mbind (eval W rs base) (\<lambda>b. mbind (eval W rs key) (mret \<circ> read_index b))"
| "eval W rs (EProjection base) = eval W rs base"
| "eval W rs (EFilter base cond) =
     mbind (eval W rs base) (\<lambda>b.
       case b of
         VArray items \<Rightarrow> filter_items (eval W rs cond) items []
       | _ \<Rightarrow> mret (VArray []))"
| "eval W rs (ECall name args) = mbind (eval_list W rs args []) (eval_call W name)"
| "eval W rs (EUnary uop e) = mbind (eval W rs e) (mret \<circ> apply_unop uop)"
| "eval W rs (EBin bop l r) =
     mbind (eval W rs l) (\<lambda>lv.
       case bop of
         BAnd \<Rightarrow> if truthy lv then eval W rs r else mret lv
       | BOr \<Rightarrow> if truthy lv then mret lv else eval W rs r
       | BCoalesce \<Rightarrow> if lv = VNull then eval W rs r else mret lv
       | _ \<Rightarrow> mbind (eval W rs r) (mret \<circ> strict_op W bop lv))"
| "eval_fparts W rs [] acc = mret acc"
| "eval_fparts W rs (FLit s # ps) acc = eval_fparts W rs ps (acc @ s)"
| "eval_fparts W rs (FExpr e # ps) acc =
     mbind (eval W rs e) (\<lambda>v. eval_fparts W rs ps (acc @ to_display (w_to_json W) v))"
| "eval_fields W rs [] acc = mret acc"
| "eval_fields W rs ((k, e) # fs) acc =
     mbind (eval W rs e) (\<lambda>v. eval_fields W rs fs (om_insert k v acc))"
| "eval_list W rs [] acc = mret acc"
| "eval_list W rs (e # es) acc = mbind (eval W rs e) (\<lambda>v. eval_list W rs es (acc @ [v]))"

section \<open>Statements\<close>

definition valid_subject :: "string \<Rightarrow> bool" where
  "valid_subject subject \<longleftrightarrow>
     subject \<noteq> [] \<and> \<not> list_ex (\<lambda>c. is_whitespace c \<or> is_control c) (str_chars subject)"

text \<open>
  \<open>set_path\<close> on the value a key holds. The parser never builds an empty path, and the code
  would index out of range on one.
\<close>

fun set_path :: "json \<Rightarrow> string list \<Rightarrow> json \<Rightarrow> json" where
  "set_path base [] v = base"
| "set_path base [k] v = VObject (om_insert k v (item_fields base))"
| "set_path base (k # k' # ks) v =
     (let obj = item_fields base;
          next = (case om_get obj k of Some w \<Rightarrow> w | None \<Rightarrow> VObject [])
      in VObject (om_insert k (set_path next (k' # ks) v) obj))"

definition assign :: "string list \<Rightarrow> json \<Rightarrow> unit interp" where
  "assign path v =
     (case path of
        [] \<Rightarrow> mlift Panic
      | [k] \<Rightarrow> set_var k v
      | k # ks \<Rightarrow>
          mbind mget (\<lambda>s.
            let base = (case om_get (vars (fst s)) k of Some w \<Rightarrow> w | None \<Rightarrow> VObject [])
            in set_var k (set_path base ks v)))"

definition emit :: "json \<Rightarrow> json interp \<Rightarrow> unit interp" where
  "emit subj payload =
     (case subj of
        VString s \<Rightarrow>
          if valid_subject s then mbind payload (\<lambda>p. push_emits [(s, p)])
          else mfail (REmitSubject s)
      | other \<Rightarrow> mfail (REmitNotString other))"

definition respond :: "json \<Rightarrow> json \<Rightarrow> unit interp" where
  "respond st b = mupd (\<lambda>s. ((fst s)\<lparr>response := Some (st, b)\<rparr>, snd s))"

text \<open>\<open>InvokeMerge\<close>: the fields of the result become variables.\<close>

definition merge_vars :: "json \<Rightarrow> unit interp" where
  "merge_vars out = mupd (upd_vars (om_insert_all (item_fields out)))"

fun for_items :: "string \<Rightarrow> unit interp \<Rightarrow> json list \<Rightarrow> unit interp" where
  "for_items var body [] = mret ()"
| "for_items var body (item # items) =
     mbind (set_var var item) (\<lambda>_. mbind body (\<lambda>_. for_items var body items))"

fun exec_stmt :: "world \<Rightarrow> service_run \<Rightarrow> stmt \<Rightarrow> unit interp"
  and exec_block :: "world \<Rightarrow> service_run \<Rightarrow> stmt list \<Rightarrow> unit interp"
  and exec_arms :: "world \<Rightarrow> service_run \<Rightarrow> arm list \<Rightarrow> unit interp \<Rightarrow> unit interp"
where
  "exec_stmt W rs (SAssign path e) = mbind (eval W rs e) (assign path)"
| "exec_stmt W rs (SInvokeMerge name args) =
     mbind (eval_fields W rs args []) (\<lambda>m. mbind (invoke rs name m) merge_vars)"
| "exec_stmt W rs (SIf arms otherwise) =
     exec_arms W rs arms
       (case otherwise of Some body \<Rightarrow> exec_block W rs body | None \<Rightarrow> mret ())"
| "exec_stmt W rs (SFor var iter body) =
     mbind (eval W rs iter) (\<lambda>v.
       case v of VArray items \<Rightarrow> for_items var (exec_block W rs body) items | _ \<Rightarrow> mret ())"
| "exec_stmt W rs (SEmit subj payload) =
     mbind (eval W rs subj) (\<lambda>s. emit s (eval W rs payload))"
| "exec_stmt W rs (SRespond status body) =
     mbind (eval W rs status) (\<lambda>st. mbind (eval W rs body) (respond st))"
| "exec_block W rs [] = mret ()"
| "exec_block W rs (s # ss) = mbind (exec_stmt W rs s) (\<lambda>_. exec_block W rs ss)"
| "exec_arms W rs [] otherwise = otherwise"
| "exec_arms W rs ((cond, _, body) # arms) otherwise =
     mbind (eval W rs cond)
       (\<lambda>v. if truthy v then exec_block W rs body else exec_arms W rs arms otherwise)"

section \<open>Services and runs\<close>

text \<open>The body of \<open>run_service\<close>, over the block interpreter it calls.\<close>

definition service_ctx :: "json omap \<Rightarrow> ctx" where
  "service_ctx args =
     \<lparr>vars = om_insert ''event'' (VObject args) args, emits = [], response = None\<rparr>"

definition service_body :: "world \<Rightarrow> (stmt list \<Rightarrow> unit interp) \<Rightarrow> service_run" where
  "service_body W exec name args e =
     (if 32 \<le> depth e then (Err (RDepth name), e)
      else
        (case resolve W name e of
           (Err x, e1) \<Rightarrow> (Err x, e1)
         | (Panic, e1) \<Rightarrow> (Panic, e1)
         | (Ok (pkg, svc), e1) \<Rightarrow>
             (let e2 = e1\<lparr>depth := depth e1 + 1\<rparr> in
              case service_stmts W pkg svc e2 of
                (Err x, e3) \<Rightarrow> (Err x, e3\<lparr>depth := depth e3 - 1\<rparr>)
              | (Panic, e3) \<Rightarrow> (Panic, e3)
              | (Ok stmts, e3) \<Rightarrow>
                  (case exec stmts (service_ctx args, e3\<lparr>caller_pkg := pkg\<rparr>) of
                     (Panic, (c, e4)) \<Rightarrow> (Panic, e4)
                   | (r, (c, e4)) \<Rightarrow>
                       (let e5 = e4\<lparr>caller_pkg := caller_pkg e3, depth := depth e4 - 1\<rparr> in
                        case r of
                          Err x \<Rightarrow> (Err x, e5)
                        | _ \<Rightarrow> (Ok (VObject (om_remove ''event'' (vars c)), emits c), e5))))))"

fun run_service_n :: "world \<Rightarrow> nat \<Rightarrow> service_run" where
  "run_service_n W 0 name args e = (Err ROutOfFuel, e)"
| "run_service_n W (Suc n) name args e =
     service_body W (exec_block W (run_service_n W n)) name args e"

definition run_service :: "world \<Rightarrow> service_run" where
  "run_service W = run_service_n W 33"

definition initial_ctx :: "json \<Rightarrow> ctx" where
  "initial_ctx event =
     \<lparr>vars = om_insert ''event'' event (om_insert_all (item_fields event) []),
      emits = [], response = None\<rparr>"

definition run :: "world \<Rightarrow> program \<Rightarrow> json \<Rightarrow> ctx eng" where
  "run W prog event e =
     (case exec_block W (run_service W) (pg_stmts prog) (initial_ctx event, e) of
        (Ok _, (c, e')) \<Rightarrow> (Ok c, e')
      | (Err x, (c, e')) \<Rightarrow> (Err x, e')
      | (Panic, (c, e')) \<Rightarrow> (Panic, e'))"

end
