(* ===== verification/Frames.thy ===== *)
theory Frames
  imports Eval
begin

text \<open>
  What the interpreter leaves alone. Every frame property of \<open>eval\<close> and \<open>exec_block\<close> is one
  induction over the syntax, done once in the locales \<open>eval_frame\<close> and \<open>exec_frame\<close>; the
  properties of a run are their interpretations. The locale \<open>interp_sim\<close> is the same for two
  runs side by side.
\<close>

section \<open>Frames of expressions and statements\<close>

text \<open>
  \<open>bus\<close> says whether the code may write the bus: with \<open>bus\<close> false the frame is claimed only of
  code that \<open>expr_writes_bus\<close> and \<open>stmt_writes_bus\<close> clear, and an invoke need not keep it.
\<close>

locale eval_frame = frame R "\<lambda>x. x = ROutOfFuel" for R :: "rerr ending \<Rightarrow> st \<Rightarrow> st \<Rightarrow> bool" +
  fixes rs :: service_run and bus :: bool
  assumes invoke_keeps: "bus \<Longrightarrow> keeps R (invoke rs name args)"
    and scoped_keeps: "keeps R m \<Longrightarrow> keeps R (scoped fs m)"
begin

lemma filter_items_keeps: "keeps R cond \<Longrightarrow> keeps R (filter_items cond items out)"
  by (induction cond items out rule: filter_items.induct) (auto intro: scoped_keeps)

lemma builtin_error: "builtin W name vals \<noteq> Err ROutOfFuel"
  by (simp add: builtin_def)

lemma read_field_error: "read_field b f safe \<noteq> Err ROutOfFuel"
  by (auto simp: read_field_def split: json.splits)

lemma eval_call_keeps: "keeps R (eval_call W name vals)"
  by (auto simp: eval_call_def builtin_error intro!: mbind_keeps mget_keeps mlift_keeps mfail_keeps
      split: option.splits)

lemma eval_all_keeps:
  "rs' = rs \<Longrightarrow> bus \<or> \<not> expr_writes_bus e \<Longrightarrow> keeps R (eval W rs' e)"
  "rs' = rs \<Longrightarrow> bus \<or> \<not> fparts_write_bus ps \<Longrightarrow> keeps R (eval_fparts W rs' ps s)"
  "rs' = rs \<Longrightarrow> bus \<or> \<not> fields_write_bus fs \<Longrightarrow> keeps R (eval_fields W rs' fs m)"
  "rs' = rs \<Longrightarrow> bus \<or> \<not> exprs_write_bus es \<Longrightarrow> keeps R (eval_list W rs' es vs)"
proof (induction W rs' e and W rs' ps s and W rs' fs m and W rs' es vs
    rule: eval_eval_fparts_eval_fields_eval_list.induct)
  case (13 W rs' bop l r)
  then show ?case
    by (simp only: eval.simps) (rule mbind_keeps; cases bop; auto simp: comp_def)
qed (auto simp: comp_def read_field_error split: json.split
      intro!: mbind_keeps mret_keeps mget_keeps mlift_keeps filter_items_keeps eval_call_keeps invoke_keeps)

lemmas eval_keeps = eval_all_keeps(1) [OF refl]
  and eval_fields_keeps = eval_all_keeps(3) [OF refl]

end

locale exec_frame = eval_frame +
  assumes set_var_keeps: "keeps R (set_var k v)"
    and respond_keeps: "keeps R (respond v w)"
    and emit_keeps: "bus \<Longrightarrow> valid_subject s \<Longrightarrow> keeps R (push_emits [(s, p)])"
    and merge_keeps: "keeps R (merge_vars out)"
begin

lemma assign_keeps: "keeps R (assign path v)"
  by (auto simp: assign_def Let_def intro!: mbind_keeps set_var_keeps split: list.split)

lemma emit_stmt_keeps: "bus \<Longrightarrow> keeps R m \<Longrightarrow> keeps R (emit v m)"
  by (auto simp: emit_def intro!: mbind_keeps emit_keeps split: json.split)

lemma for_items_keeps: "keeps R body \<Longrightarrow> keeps R (for_items var body items)"
  by (induction var body items rule: for_items.induct) (auto intro: set_var_keeps)

lemma exec_all_keeps:
  "rs' = rs \<Longrightarrow> bus \<or> \<not> stmt_writes_bus s \<Longrightarrow> keeps R (exec_stmt W rs' s)"
  "rs' = rs \<Longrightarrow> bus \<or> \<not> stmts_write_bus ss \<Longrightarrow> keeps R (exec_block W rs' ss)"
  "rs' = rs \<Longrightarrow> bus \<or> \<not> arms_write_bus arms \<Longrightarrow> keeps R m \<Longrightarrow> keeps R (exec_arms W rs' arms m)"
  by (induction W rs' s and W rs' ss and W rs' arms m
      rule: exec_stmt_exec_block_exec_arms.induct)
    (auto simp: mret_keeps intro!: mbind_keeps eval_keeps eval_fields_keeps invoke_keeps assign_keeps
      merge_keeps emit_stmt_keeps respond_keeps for_items_keeps split: option.split json.split)

lemmas exec_block_keeps = exec_all_keeps(2) [OF refl]

end

section \<open>What a service call leaves alone\<close>

text \<open>
  The engine a run hands back after a result or an error: the same project, package, secret store and depth. Only the two
  caches may differ.
\<close>

definition same_engine :: "engine \<Rightarrow> engine \<Rightarrow> bool" where
  "same_engine e e' \<longleftrightarrow>
     project_root e' = project_root e \<and> caller_pkg e' = caller_pkg e \<and>
     secrets e' = secrets e \<and> depth e' = depth e"

lemma same_engine_refl [simp]: "same_engine e e"
  by (simp add: same_engine_def)

lemma same_engine_trans: "same_engine e f \<Longrightarrow> same_engine f g \<Longrightarrow> same_engine e g"
  by (simp add: same_engine_def)

lemma exports_of_engine: "exports_of W pkg e = (r, e') \<Longrightarrow> same_engine e e'"
  by (auto simp: exports_of_def same_engine_def Let_def split: option.splits result.splits)

lemma resolve_engine: "resolve W name e = (r, e') \<Longrightarrow> same_engine e e'"
  by (auto simp: resolve_def Let_def split: prod.splits option.splits if_splits
      elim!: mbind_cases dest: exports_of_engine)

lemma service_stmts_engine: "service_stmts W pkg svc e = (r, e') \<Longrightarrow> same_engine e e'"
  by (auto simp: service_stmts_def same_engine_def Let_def split: option.splits result.splits)

lemma resolve_error: "resolve W name e \<noteq> (Err ROutOfFuel, e')"
  by (auto simp: resolve_def exports_of_def mbind_def Let_def
      split: prod.splits option.splits if_splits result.splits)

lemma service_stmts_error: "service_stmts W pkg svc e \<noteq> (Err ROutOfFuel, e')"
  by (auto simp: service_stmts_def Let_def split: option.splits result.splits)

text \<open>
  The ways a service call can go, with the block it ran: the elimination rule the frame
  proofs of \<open>run_service\<close> share.
\<close>

lemma service_body_cases:
  assumes "service_body W exec name args e = (r, e')"
  obtains
    (refused) x where "r = Err x" "x \<noteq> ROutOfFuel" "same_engine e e'"
  | (panic_early) "r = Panic" "depth e \<le> depth e'"
  | (ran) e3 pkg stmts q c e4 where
      "depth e < 32" "project_root e3 = project_root e" "secrets e3 = secrets e"
      "caller_pkg e3 = pkg" "depth e3 = depth e + 1"
      "exec stmts (service_ctx args, e3) = (q, (c, e4))"
      "q = Panic \<Longrightarrow> r = Panic"
      "\<And>x. q = Err x \<Longrightarrow> r = Err x"
      "q = Ok () \<Longrightarrow> r = Ok (VObject (om_remove ''event'' (vars c)), emits c)"
      "q \<noteq> Panic \<Longrightarrow> e' = e4\<lparr>caller_pkg := caller_pkg e, depth := depth e4 - 1\<rparr>"
      "q = Panic \<Longrightarrow> e' = e4"
proof (cases "32 \<le> depth e")
  case True
  with assms show ?thesis by (auto simp: service_body_def intro: refused)
next
  case deep: False
  obtain r1 e1 where rv: "resolve W name e = (r1, e1)" by fastforce
  note e1 = resolve_engine [OF rv]
  show ?thesis
  proof (cases r1)
    case (Ok ps)
    obtain pkg svc where ps: "ps = (pkg, svc)" by fastforce
    define e2 where "e2 = e1\<lparr>depth := depth e1 + 1\<rparr>"
    obtain r2 e3 where ss: "service_stmts W pkg svc e2 = (r2, e3)" by fastforce
    note e3 = service_stmts_engine [OF ss]
    show ?thesis
    proof (cases r2)
      case (Err x)
      with assms deep rv Ok ps ss e1 e3 service_stmts_error show ?thesis
        by (auto simp: service_body_def e2_def same_engine_def intro!: refused)
    next
      case Panic
      with assms deep rv Ok ps ss e1 e3 show ?thesis
        by (auto simp: service_body_def e2_def same_engine_def intro!: panic_early)
    next
      case Ok2: (Ok stmts)
      define e3' where "e3' = e3\<lparr>caller_pkg := pkg\<rparr>"
      obtain q c e4 where ex: "exec stmts (service_ctx args, e3') = (q, (c, e4))"
        by (metis prod.exhaust)
      have e3': "project_root e3' = project_root e" "secrets e3' = secrets e"
        "caller_pkg e3' = pkg" "depth e3' = depth e + 1"
        using e1 e3 by (simp_all add: e2_def e3'_def same_engine_def)
      note run = assms deep rv Ok ps ss Ok2 ex [unfolded e3'_def]
      have q: "q = Panic \<Longrightarrow> r = Panic" "q = Panic \<Longrightarrow> e' = e4" "\<And>x. q = Err x \<Longrightarrow> r = Err x"
        "q = Ok () \<Longrightarrow> r = Ok (VObject (om_remove ''event'' (vars c)), emits c)"
        using run by (auto simp: service_body_def e2_def split: result.splits)
      have kept: "q \<noteq> Panic \<Longrightarrow> e' = e4\<lparr>caller_pkg := caller_pkg e, depth := depth e4 - 1\<rparr>"
        using run e1 e3 by (auto simp: service_body_def e2_def same_engine_def split: result.splits)
      from deep have "depth e < 32" by simp
      from ran [OF this e3' ex q(1) q(3,4) kept q(2)] show ?thesis by blast
    qed
  next
    case (Err x)
    with assms deep rv e1 resolve_error show ?thesis
      by (auto simp: service_body_def intro!: refused)
  next
    case Panic
    with assms deep rv e1 show ?thesis
      by (auto simp: service_body_def same_engine_def intro!: panic_early)
  qed
qed

section \<open>The frames\<close>

lemma keeps_scoped_alike:
  assumes "keeps R m"
    and "\<And>f s. R EndOk s (upd_vars f s)"
    and "\<And>s t k u. R EndOk s t \<Longrightarrow> R k t u \<Longrightarrow> R k s u"
  shows "keeps R (scoped fs m)"
proof (rule keepsI)
  fix s
  let ?t = "upd_vars (om_insert_all fs) s"
  obtain r u where m: "m ?t = (r, u)" by (meson surj_pair)
  have "R (end_of r) s u" using assms(2,3) keepsE [OF assms(1) m] by blast
  then show "R (end_of (fst (scoped fs m s))) s (snd (scoped fs m s))"
    using m assms(2) assms(3) [of s u EndOk] by (cases r) (auto simp: scoped_def mbind_def Let_def)
qed

lemma invoke_run:
  "invoke rs name args s =
     (case rs name args (snd s) of
        (Ok (out, ems), e) \<Rightarrow> (Ok out, ((fst s)\<lparr>emits := emits (fst s) @ ems\<rparr>, e))
      | (Err x, e) \<Rightarrow> (Err x, (fst s, e))
      | (Panic, e) \<Rightarrow> (Panic, (fst s, e)))"
  by (auto simp: invoke_def on_engine_def push_emits_def mbind_def
      split: prod.splits result.splits)

lemmas state_ops = upd_vars_def set_var_def respond_def push_emits_def merge_vars_def

paragraph \<open>The engine is handed back\<close>

definition engine_frame :: "rerr ending \<Rightarrow> st \<Rightarrow> st \<Rightarrow> bool" where
  "engine_frame k s s' \<longleftrightarrow>
     depth (snd s) \<le> depth (snd s') \<and> (k \<noteq> EndPanic \<longrightarrow> same_engine (snd s) (snd s'))"

lemma exec_frame_engine:
  assumes "\<And>name args e r e'. rs name args e = (r, e') \<Longrightarrow>
      depth e \<le> depth e' \<and> (r \<noteq> Panic \<longrightarrow> same_engine e e')"
  shows "exec_frame engine_frame rs True"
proof unfold_locales
  show "keeps engine_frame (invoke rs name args)" for name args
    using assms by (intro keepsI) (fastforce simp: engine_frame_def invoke_run
        split: prod.splits result.splits)
  show "keeps engine_frame (scoped fs m)" if "keeps engine_frame m" for fs m
    using that by (rule keeps_scoped_alike)
      (auto simp: engine_frame_def state_ops intro: same_engine_trans)
qed (auto simp: engine_frame_def keeps_def state_ops intro: same_engine_trans)

lemma run_service_n_engine:
  "run_service_n W n name args e = (r, e') \<Longrightarrow>
     depth e \<le> depth e' \<and> (r \<noteq> Panic \<longrightarrow> same_engine e e')"
proof (induction n arbitrary: name args e r e')
  case (Suc n)
  have frame: "keeps engine_frame (exec_block W (run_service_n W n) ss)" for ss
    using exec_frame.exec_block_keeps [OF exec_frame_engine, of "run_service_n W n" ss W] Suc.IH
    by blast
  from Suc.prems(1) show ?case unfolding run_service_n.simps
  proof (cases rule: service_body_cases)
    case (ran e3 pkg stmts q c e4)
    with keepsE [OF frame ran(6)] show ?thesis
      by (cases q) (auto simp: engine_frame_def same_engine_def)
  qed (auto simp: same_engine_def)
qed simp

interpretation eng: exec_frame engine_frame "run_service W" True for W
  by (rule exec_frame_engine) (simp add: run_service_def run_service_n_engine)

paragraph \<open>No level is missing\<close>

definition fuel_frame :: "nat \<Rightarrow> rerr ending \<Rightarrow> st \<Rightarrow> st \<Rightarrow> bool" where
  "fuel_frame n k s s' \<longleftrightarrow>
     (33 \<le> n + depth (snd s) \<longrightarrow>
        k \<noteq> EndErr ROutOfFuel \<and> (k \<noteq> EndPanic \<longrightarrow> depth (snd s') = depth (snd s)))"

lemma exec_frame_fuel:
  assumes "\<And>name args e r e'. rs name args e = (r, e') \<Longrightarrow> 33 \<le> n + depth e \<Longrightarrow>
      r \<noteq> Err ROutOfFuel \<and> (r \<noteq> Panic \<longrightarrow> depth e' = depth e)"
  shows "exec_frame (fuel_frame n) rs True"
proof unfold_locales
  show "keeps (fuel_frame n) (invoke rs name args)" for name args
    using assms by (intro keepsI) (fastforce simp: fuel_frame_def invoke_run
        split: prod.splits result.splits)
  show "keeps (fuel_frame n) (scoped fs m)" if "keeps (fuel_frame n) m" for fs m
    using that by (rule keeps_scoped_alike) (auto simp: fuel_frame_def state_ops)
qed (auto simp: fuel_frame_def keeps_def state_ops)

lemma run_service_n_fuel:
  "run_service_n W n name args e = (r, e') \<Longrightarrow> 33 \<le> n + depth e \<Longrightarrow> 0 < n \<Longrightarrow> r \<noteq> Err ROutOfFuel"
proof (induction n arbitrary: name args e r e')
  case (Suc n)
  from Suc.prems(1) show ?case unfolding run_service_n.simps
  proof (cases rule: service_body_cases)
    case (ran e3 pkg stmts q c e4)
    have "exec_frame (fuel_frame n) (run_service_n W n) True"
      using Suc.IH Suc.prems(2) ran(1) run_service_n_engine [of W n]
      by (intro exec_frame_fuel) (auto simp: same_engine_def)
    from keepsE [OF exec_frame.exec_block_keeps [OF this] ran(6)] ran Suc.prems(2)
    have "q \<noteq> Err ROutOfFuel" by (cases q) (auto simp: fuel_frame_def)
    with ran show ?thesis by (cases q) auto
  qed auto
qed simp

interpretation fuel: exec_frame "fuel_frame 33" "run_service W" True for W
  using run_service_n_fuel [of W 33] run_service_n_engine [of W 33]
  by (intro exec_frame_fuel) (auto simp: run_service_def same_engine_def)

paragraph \<open>The bus is only appended to, with valid subjects\<close>

definition emit_frame :: "rerr ending \<Rightarrow> st \<Rightarrow> st \<Rightarrow> bool" where
  "emit_frame k s s' \<longleftrightarrow>
     (\<exists>xs. emits (fst s') = emits (fst s) @ xs \<and> (\<forall>x \<in> set xs. valid_subject (fst x)))"

lemma emit_frame_trans: "emit_frame j s t \<Longrightarrow> emit_frame k t u \<Longrightarrow> emit_frame k s u"
  unfolding emit_frame_def by (elim exE conjE) (rule exI, fastforce)

lemma exec_frame_emit:
  assumes "\<And>name args e out ems e'. rs name args e = (Ok (out, ems), e') \<Longrightarrow>
      \<forall>x \<in> set ems. valid_subject (fst x)"
  shows "exec_frame emit_frame rs True"
proof unfold_locales
  show "keeps emit_frame (invoke rs name args)" for name args
    using assms by (intro keepsI) (fastforce simp: emit_frame_def invoke_run
        split: prod.splits result.splits)
  show "keeps emit_frame (scoped fs m)" if "keeps emit_frame m" for fs m
    using that by (rule keeps_scoped_alike) (auto simp: emit_frame_def state_ops intro: emit_frame_trans)
qed (auto simp: keeps_def state_ops emit_frame_def intro: emit_frame_trans)

lemma run_service_n_emit:
  "run_service_n W n name args e = (Ok (out, ems), e') \<Longrightarrow> \<forall>x \<in> set ems. valid_subject (fst x)"
proof (induction n arbitrary: name args e out ems e')
  case (Suc n)
  have frame: "keeps emit_frame (exec_block W (run_service_n W n) ss)" for ss
    using exec_frame.exec_block_keeps [OF exec_frame_emit, of "run_service_n W n" ss W] Suc.IH
    by blast
  from Suc.prems(1) show ?case unfolding run_service_n.simps
  proof (cases rule: service_body_cases)
    case (ran e3 pkg stmts q c e4)
    with keepsE [OF frame ran(6)] show ?thesis
      by (cases q) (auto simp: emit_frame_def service_ctx_def)
  qed auto
qed simp

interpretation emits: exec_frame emit_frame "run_service W" True for W
  by (rule exec_frame_emit) (auto simp: run_service_def dest: run_service_n_emit)

paragraph \<open>Code without bus writes is silent\<close>

definition quiet_frame :: "rerr ending \<Rightarrow> st \<Rightarrow> st \<Rightarrow> bool" where
  "quiet_frame k s s' \<longleftrightarrow> emits (fst s') = emits (fst s) \<and> snd s' = snd s"

interpretation quiet: exec_frame quiet_frame rs False for rs
proof unfold_locales
  show "keeps quiet_frame (scoped fs m)" if "keeps quiet_frame m" for fs m
    using that by (rule keeps_scoped_alike) (auto simp: quiet_frame_def state_ops)
qed (auto simp: quiet_frame_def keeps_def state_ops)

paragraph \<open>An expression leaves the variables alone\<close>

definition scope_frame :: "rerr ending \<Rightarrow> st \<Rightarrow> st \<Rightarrow> bool" where
  "scope_frame k s s' \<longleftrightarrow>
     response (fst s') = response (fst s) \<and>
     (k = EndOk \<longrightarrow> om_wf (vars (fst s)) \<longrightarrow> vars (fst s') = vars (fst s))"

lemma scope_frame_scoped:
  assumes "keeps scope_frame m"
  shows "keeps scope_frame (scoped fs m)"
proof (rule keepsI)
  fix s
  let ?t = "upd_vars (om_insert_all fs) s"
  obtain r u where m: "m ?t = (r, u)" by (meson surj_pair)
  have "scope_frame (end_of r) ?t u" using keepsE [OF assms m] .
  then show "scope_frame (end_of (fst (scoped fs m s))) s (snd (scoped fs m s))"
    using m om_shadow_restore [of "vars (fst s)" fs]
    by (cases r) (auto simp: scoped_def mbind_def Let_def scope_frame_def upd_vars_def)
qed

interpretation scope: eval_frame scope_frame rs True for rs
proof unfold_locales
  show "keeps scope_frame (invoke rs name args)" for name args
    by (intro keepsI) (auto simp: scope_frame_def invoke_run split: prod.splits result.splits)
qed (auto simp: scope_frame_def scope_frame_scoped)

end
