(* ===== verification/Sims.thy ===== *)
theory Sims
  imports Frames
begin

text \<open>
  Two runs side by side. The locale \<open>interp_sim\<close> lifts a relation between engines from service
  calls to every expression and block; its interpretations give the recursion equation of
  \<open>run_service\<close>, and that the two caches of an engine never show in what a run returns.
\<close>

definition on_ctx :: "(engine \<Rightarrow> engine \<Rightarrow> bool) \<Rightarrow> st \<Rightarrow> st \<Rightarrow> bool" where
  "on_ctx Rel s s' \<longleftrightarrow> fst s' = fst s \<and> Rel (snd s) (snd s')"

locale interp_sim =
  fixes Rel :: "engine \<Rightarrow> engine \<Rightarrow> bool" and rs rs' :: service_run
  assumes rel_secrets: "Rel e e' \<Longrightarrow> secrets e' = secrets e"
    and rel_service: "sim Rel (rs name args) (rs' name args)"
begin

abbreviation SR :: "st \<Rightarrow> st \<Rightarrow> bool" where
  "SR \<equiv> on_ctx Rel"

lemma upd_vars_sim: "sim SR (mupd (upd_vars f)) (mupd (upd_vars f))"
  by (rule sim_mupd) (simp add: on_ctx_def upd_vars_def)

lemma push_emits_sim: "sim SR (push_emits ems) (push_emits ems)"
  unfolding push_emits_def by (rule sim_mupd) (simp add: on_ctx_def)

lemma mget_sim:
  assumes "\<And>s s'. SR s s' \<Longrightarrow> sim SR (f s) (f' s')"
  shows "sim SR (mbind mget f) (mbind mget f')"
  using assms by (auto simp: sim_def mbind_def)

lemma invoke_sim: "sim SR (invoke rs name args) (invoke rs' name args)"
  unfolding invoke_def
proof (rule sim_mbind)
  show "sim SR (on_engine (rs name args)) (on_engine (rs' name args))"
    using rel_service [of name args]
    by (auto simp: sim_def on_ctx_def on_engine_def split_beta)
qed (auto intro!: sim_mbind push_emits_sim sim_mret split: prod.split)

lemma scoped_sim: "sim SR m m' \<Longrightarrow> sim SR (scoped fs m) (scoped fs m')"
  unfolding scoped_def Let_def
  by (rule mget_sim) (auto simp: on_ctx_def intro!: sim_mbind upd_vars_sim sim_mret)

lemma filter_items_sim:
  "sim SR m m' \<Longrightarrow> sim SR (filter_items m items out) (filter_items m' items out)"
  by (induction items arbitrary: out) (auto intro!: sim_mbind scoped_sim)

lemma eval_call_sim: "sim SR (eval_call W name vals) (eval_call W name vals)"
  unfolding eval_call_def
  by (auto intro!: mget_sim sim_mlift sim_mfail simp: on_ctx_def rel_secrets split: option.split list.split)

lemma eval_all_sim:
  "rs1 = rs \<Longrightarrow> sim SR (eval W rs1 e) (eval W rs' e)"
  "rs1 = rs \<Longrightarrow> sim SR (eval_fparts W rs1 ps s) (eval_fparts W rs' ps s)"
  "rs1 = rs \<Longrightarrow> sim SR (eval_fields W rs1 fs m) (eval_fields W rs' fs m)"
  "rs1 = rs \<Longrightarrow> sim SR (eval_list W rs1 es vs) (eval_list W rs' es vs)"
proof (induction W rs1 e and W rs1 ps s and W rs1 fs m and W rs1 es vs
    rule: eval_eval_fparts_eval_fields_eval_list.induct)
  case (13 W rs' bop l r)
  then show ?case
    by (simp only: eval.simps) (rule sim_mbind; cases bop; auto simp: comp_def)
qed (auto simp: comp_def on_ctx_def split: json.split
      intro!: sim_mbind mget_sim sim_mret sim_mlift filter_items_sim eval_call_sim invoke_sim)

lemmas eval_sim = eval_all_sim(1) [OF refl]
  and eval_fields_sim = eval_all_sim(3) [OF refl]

lemma assign_sim: "sim SR (assign path v) (assign path v)"
  by (auto simp: assign_def set_var_def on_ctx_def Let_def intro!: mget_sim upd_vars_sim sim_mlift
      split: list.split)

lemma emit_sim: "sim SR m m' \<Longrightarrow> sim SR (emit v m) (emit v m')"
  by (auto simp: emit_def intro!: sim_mbind push_emits_sim sim_mfail split: json.split)

lemma for_items_sim: "sim SR m m' \<Longrightarrow> sim SR (for_items var m items) (for_items var m' items)"
  by (induction items) (auto simp: set_var_def intro!: sim_mbind upd_vars_sim)

lemma respond_sim: "sim SR (respond v w) (respond v w)"
  unfolding respond_def by (rule sim_mupd) (simp add: on_ctx_def)

lemma exec_all_sim:
  "rs1 = rs \<Longrightarrow> sim SR (exec_stmt W rs1 s) (exec_stmt W rs' s)"
  "rs1 = rs \<Longrightarrow> sim SR (exec_block W rs1 ss) (exec_block W rs' ss)"
  "rs1 = rs \<Longrightarrow> sim SR m m' \<Longrightarrow> sim SR (exec_arms W rs1 arms m) (exec_arms W rs' arms m')"
proof (induction W rs1 s and W rs1 ss and W rs1 arms m arbitrary: and and m'
    rule: exec_stmt_exec_block_exec_arms.induct)
  case (3 W rs1 arms otherwise)
  then show ?case by (cases otherwise) (simp_all add: sim_mret del: mret_run)
qed (auto simp: merge_vars_def intro!: sim_mbind eval_sim eval_fields_sim invoke_sim assign_sim
      upd_vars_sim emit_sim respond_sim for_items_sim sim_mret split: json.split)

lemmas exec_block_sim = exec_all_sim(2) [OF refl]

end

section \<open>The recursion of \<open>run_service\<close>\<close>

lemma service_body_cong:
  assumes "\<And>stmts c e3. depth e3 = depth e + 1 \<Longrightarrow> exec stmts (c, e3) = exec' stmts (c, e3)"
  shows "service_body W exec name args e = service_body W exec' name args e"
proof (cases "resolve W name e")
  case rv: (Pair r e1)
  show ?thesis
  proof (cases r)
    case (Ok ps)
    obtain pkg svc where ps: "ps = (pkg, svc)" by fastforce
    obtain r2 e3 where ss: "service_stmts W pkg svc (e1\<lparr>depth := depth e1 + 1\<rparr>) = (r2, e3)"
      by (meson surj_pair)
    have "depth e3 = depth e + 1"
      using service_stmts_engine [OF ss] resolve_engine [OF rv] by (simp add: same_engine_def)
    with assms rv Ok ps ss show ?thesis by (simp add: service_body_def split: result.split)
  qed (simp_all add: service_body_def rv)
qed

definition level_rel :: "nat \<Rightarrow> engine \<Rightarrow> engine \<Rightarrow> bool" where
  "level_rel n e e' \<longleftrightarrow> e' = e \<and> 33 \<le> n + depth e"

lemma interp_sim_level:
  assumes "\<And>name args e. 33 \<le> n + depth e \<Longrightarrow>
      run_service_n W n name args e = run_service_n W (Suc n) name args e"
  shows "interp_sim (level_rel n) (run_service_n W n) (run_service_n W (Suc n))"
proof
  show "sim (level_rel n) (run_service_n W n name args) (run_service_n W (Suc n) name args)"
    for name args
  proof (rule simI)
    fix e e' assume rel: "level_rel n e e'"
    let ?q = "run_service_n W n name args e"
    have eq: "run_service_n W (Suc n) name args e' = ?q"
      using rel assms [of e name args] by (simp add: level_rel_def del: run_service_n.simps)
    have "depth e \<le> depth (snd ?q)"
      using run_service_n_engine [of W n name args e "fst ?q" "snd ?q"] by simp
    with rel show "fst ?q = fst (run_service_n W (Suc n) name args e') \<and>
        level_rel n (snd ?q) (snd (run_service_n W (Suc n) name args e'))"
      unfolding eq by (simp add: level_rel_def)
  qed
qed (simp add: level_rel_def)

lemma run_service_n_more:
  "0 < n \<Longrightarrow> 33 \<le> n + depth e \<Longrightarrow>
     run_service_n W n name args e = run_service_n W (Suc n) name args e"
proof (induction n arbitrary: name args e)
  case (Suc n)
  show ?case
  proof (cases "32 \<le> depth e")
    case True
    then show ?thesis by (simp add: service_body_def)
  next
    case False
    with Suc have "interp_sim (level_rel n) (run_service_n W n) (run_service_n W (Suc n))"
      by (intro interp_sim_level) (simp del: run_service_n.simps)
    then have "exec_block W (run_service_n W n) ss (c, e3) = exec_block W (run_service_n W (Suc n)) ss (c, e3)"
      if "depth e3 = depth e + 1" for ss c e3
      using simD [OF interp_sim.exec_block_sim, of "level_rel n" _ _ "(c, e3)" "(c, e3)" W ss] that Suc.prems(2)
      by (auto simp: on_ctx_def level_rel_def prod_eq_iff simp del: run_service_n.simps)
    then show ?thesis
      by (simp only: run_service_n.simps(2)) (rule service_body_cong)
  qed
qed simp

text \<open>
  The equation of the program: \<open>run_service\<close> calls the interpreter with itself. The 33 levels
  are never exhausted, since a call at depth 32 is refused before it recurses.
\<close>

interpretation level: interp_sim "level_rel 32" "run_service_n W 32" "run_service W" for W
  using interp_sim_level [of 32 W] run_service_n_more [of 32 _ W]
  by (simp add: run_service_def eval_nat_numeral del: run_service_n.simps)

lemma run_service_unfold:
  "run_service W name args e = service_body W (exec_block W (run_service W)) name args e"
proof -
  have "run_service W name args e = service_body W (exec_block W (run_service_n W 32)) name args e"
    by (simp add: run_service_def eval_nat_numeral)
  also have "\<dots> = service_body W (exec_block W (run_service W)) name args e"
    using simD [OF level.exec_block_sim]
    by (intro service_body_cong) (force simp: on_ctx_def level_rel_def prod_eq_iff)
  finally show ?thesis .
qed

section \<open>The caches are transparent\<close>

definition load_exports :: "world \<Rightarrow> engine \<Rightarrow> string \<Rightarrow> (string list, rerr) result" where
  "load_exports W e pkg =
     (case w_read W (pkg_dir e pkg @ [''package.vjs'']) of
        None \<Rightarrow> Err (RNoManifest pkg)
      | Some src \<Rightarrow> rbind (map_err (RManifest pkg) (parse src)) (\<lambda>prog. Ok (export_list prog)))"

definition load_service :: "world \<Rightarrow> engine \<Rightarrow> string \<Rightarrow> string \<Rightarrow> (program, rerr) result" where
  "load_service W e pkg svc =
     (let key = pkg @ '':'' @ svc; file = pkg_dir e pkg @ [''services'', svc @ ''.vjs''] in
      case w_read W file of
        None \<Rightarrow> Err (RUnknownService key file)
      | Some src \<Rightarrow> map_err (RService key) (parse src))"

text \<open>Every entry of the caches is what the file on disk gives now.\<close>

definition cache_ok :: "world \<Rightarrow> engine \<Rightarrow> bool" where
  "cache_ok W e \<longleftrightarrow>
     (\<forall>pkg l. om_get (exports e) pkg = Some l \<longrightarrow> load_exports W e pkg = Ok l) \<and>
     (\<forall>pkg svc prog. valid_ref pkg \<longrightarrow> om_get (cache e) (pkg @ '':'' @ svc) = Some prog \<longrightarrow>
        load_service W e pkg svc = Ok prog)"

lemma valid_ref_no_colon: "valid_ref s \<Longrightarrow> CHR '':'' \<notin> set s"
  by (auto simp: valid_ref_def list_all_iff is_ascii_alphanumeric_def is_ascii_alphabetic_def
      is_ascii_digit_def is_ascii_uppercase_def is_ascii_lowercase_def byte_in_def byte_Char)

lemma append_sep_inject:
  "c \<notin> set xs \<Longrightarrow> c \<notin> set xs' \<Longrightarrow> xs @ c # ys = xs' @ c # ys' \<longleftrightarrow> xs = xs' \<and> ys = ys'"
  by (induction xs arbitrary: xs') (case_tac xs'; auto)+

lemma load_same_root:
  "project_root e' = project_root e \<Longrightarrow> load_exports W e' pkg = load_exports W e pkg"
  "project_root e' = project_root e \<Longrightarrow> load_service W e' pkg svc = load_service W e pkg svc"
  by (simp_all add: load_exports_def load_service_def pkg_dir_def)

lemma cache_ok_fresh [simp]: "cache_ok W (with_secrets dir pkg get)" "cache_ok W (invalidate e)"
  by (simp_all add: cache_ok_def with_secrets_def invalidate_def)

lemma cache_ok_upd [simp]:
  "cache_ok W (e\<lparr>depth := n\<rparr>) = cache_ok W e"
  "cache_ok W (e\<lparr>caller_pkg := p\<rparr>) = cache_ok W e"
  by (simp_all add: cache_ok_def load_same_root [of "e\<lparr>depth := n\<rparr>" e]
      load_same_root [of "e\<lparr>caller_pkg := p\<rparr>" e])

lemma load_upd [simp]:
  "load_exports W (e\<lparr>exports := x\<rparr>) pkg = load_exports W e pkg"
  "load_exports W (e\<lparr>cache := y\<rparr>) pkg = load_exports W e pkg"
  "load_service W (e\<lparr>exports := x\<rparr>) pkg svc = load_service W e pkg svc"
  "load_service W (e\<lparr>cache := y\<rparr>) pkg svc = load_service W e pkg svc"
  by (simp_all add: load_same_root [of "e\<lparr>exports := x\<rparr>" e] load_same_root [of "e\<lparr>cache := y\<rparr>" e])

lemma exports_of_eq:
  "exports_of W pkg e =
     (case om_get (exports e) pkg of
        Some l \<Rightarrow> (Ok l, e)
      | None \<Rightarrow>
          (load_exports W e pkg,
           case load_exports W e pkg of Ok l \<Rightarrow> e\<lparr>exports := om_insert pkg l (exports e)\<rparr> | _ \<Rightarrow> e))"
  by (simp add: exports_of_def load_exports_def Let_def split: option.split result.split)

lemma service_stmts_eq:
  "service_stmts W pkg svc e =
     (case om_get (cache e) (pkg @ '':'' @ svc) of
        Some prog \<Rightarrow> (Ok (pg_stmts prog), e)
      | None \<Rightarrow>
          (rbind (load_service W e pkg svc) (\<lambda>prog. Ok (pg_stmts prog)),
           case load_service W e pkg svc of
             Ok prog \<Rightarrow> e\<lparr>cache := om_insert (pkg @ '':'' @ svc) prog (cache e)\<rparr> | _ \<Rightarrow> e))"
  by (simp add: service_stmts_def load_service_def Let_def split: option.split result.split)

lemma exports_of_load:
  assumes "cache_ok W e" and "exports_of W pkg e = (r, e')"
  shows "r = load_exports W e pkg" and "cache_ok W e'"
  using assms
  by (auto simp: exports_of_eq cache_ok_def om_get_insert split: option.splits result.splits if_splits)

lemma service_key_inject:
  assumes "valid_ref p" and "valid_ref pkg"
  shows "p @ '':'' @ v = pkg @ '':'' @ svc \<longleftrightarrow> p = pkg \<and> v = svc"
  using append_sep_inject [of "CHR '':''" p pkg v svc] assms valid_ref_no_colon by simp

lemma service_stmts_load:
  assumes ok: "cache_ok W e" and pkg: "valid_ref pkg" and run: "service_stmts W pkg svc e = (r, e')"
  shows "r = rbind (load_service W e pkg svc) (\<lambda>prog. Ok (pg_stmts prog))" and "cache_ok W e'"
proof -
  let ?key = "pkg @ '':'' @ svc"
  have "om_get (cache e) ?key = Some prog \<Longrightarrow> load_service W e pkg svc = Ok prog" for prog
    using ok pkg unfolding cache_ok_def by blast
  with run show "r = rbind (load_service W e pkg svc) (\<lambda>prog. Ok (pg_stmts prog))"
    unfolding service_stmts_eq by (cases "om_get (cache e) ?key") auto
  have "cache_ok W (e\<lparr>cache := om_insert ?key prog (cache e)\<rparr>)"
    if "load_service W e pkg svc = Ok prog" for prog
    using ok pkg that service_key_inject
    by (auto simp: cache_ok_def om_get_insert simp del: append_Cons append_Nil)
  with run ok show "cache_ok W e'"
    unfolding service_stmts_eq
    by (cases "om_get (cache e) ?key"; cases "load_service W e pkg svc") auto
qed

text \<open>Two engines that differ in nothing but caches that agree with the disk.\<close>

definition cache_rel :: "world \<Rightarrow> engine \<Rightarrow> engine \<Rightarrow> bool" where
  "cache_rel W e e' \<longleftrightarrow> same_engine e e' \<and> cache_ok W e \<and> cache_ok W e'"

lemma cache_rel_upd:
  "cache_rel W e e' \<Longrightarrow> cache_rel W (e\<lparr>caller_pkg := p, depth := n\<rparr>) (e'\<lparr>caller_pkg := p, depth := n\<rparr>)"
  "cache_rel W e e' \<Longrightarrow> cache_rel W (e\<lparr>depth := n\<rparr>) (e'\<lparr>depth := n\<rparr>)"
  "cache_rel W e e' \<Longrightarrow> cache_rel W (e\<lparr>caller_pkg := p\<rparr>) (e'\<lparr>caller_pkg := p\<rparr>)"
  by (simp_all add: cache_rel_def same_engine_def)

lemma exports_of_cache: "sim (cache_rel W) (exports_of W pkg) (exports_of W pkg)"
proof (rule simI)
  fix e e' assume rel: "cache_rel W e e'"
  obtain r f where 1: "exports_of W pkg e = (r, f)" by fastforce
  obtain r' f' where 2: "exports_of W pkg e' = (r', f')" by fastforce
  show "fst (exports_of W pkg e) = fst (exports_of W pkg e') \<and>
      cache_rel W (snd (exports_of W pkg e)) (snd (exports_of W pkg e'))"
    using rel exports_of_load [OF _ 1] exports_of_load [OF _ 2] exports_of_engine [OF 1]
      exports_of_engine [OF 2] load_same_root(1) [of e' e W pkg] 1 2
    by (auto simp: cache_rel_def same_engine_def)
qed

lemma resolve_cache: "sim (cache_rel W) (resolve W name) (resolve W name)"
proof (rule simI)
  fix e e' assume rel: "cache_rel W e e'"
  then have pkg: "caller_pkg e' = caller_pkg e" by (simp add: cache_rel_def same_engine_def)
  have "sim (cache_rel W) (mbind (exports_of W p) (\<lambda>l. if v \<in> set l then mret (p, v) else mfail (RNotExported p v)))
     (mbind (exports_of W p) (\<lambda>l. if v \<in> set l then mret (p, v) else mfail (RNotExported p v)))" for p v
    using exports_of_cache by (auto intro!: sim_mbind)
  from simD [OF this rel] rel
  show "fst (resolve W name e) = fst (resolve W name e') \<and>
      cache_rel W (snd (resolve W name e)) (snd (resolve W name e'))"
    by (simp add: resolve_def pkg split: option.split prod.split)
qed

lemma resolve_valid:
  "resolve W name e = (Ok (pkg, svc), e') \<Longrightarrow> valid_ref pkg \<and> valid_ref svc"
  by (auto simp: resolve_def Let_def split: prod.splits option.splits if_splits elim!: mbind_cases)

lemma service_stmts_cache:
  assumes "valid_ref pkg"
  shows "sim (cache_rel W) (service_stmts W pkg svc) (service_stmts W pkg svc)"
proof (rule simI)
  fix e e' assume rel: "cache_rel W e e'"
  obtain r f where 1: "service_stmts W pkg svc e = (r, f)" by fastforce
  obtain r' f' where 2: "service_stmts W pkg svc e' = (r', f')" by fastforce
  show "fst (service_stmts W pkg svc e) = fst (service_stmts W pkg svc e') \<and>
      cache_rel W (snd (service_stmts W pkg svc e)) (snd (service_stmts W pkg svc e'))"
    using rel service_stmts_load [OF _ assms 1] service_stmts_load [OF _ assms 2]
      service_stmts_engine [OF 1] service_stmts_engine [OF 2] load_same_root(2) [of e' e W pkg svc] 1 2
    by (auto simp: cache_rel_def same_engine_def)
qed

text \<open>The part of \<open>service_body\<close> after the target is resolved.\<close>

definition service_call ::
  "world \<Rightarrow> (stmt list \<Rightarrow> unit interp) \<Rightarrow> json omap \<Rightarrow> string \<times> string \<Rightarrow>
    (json \<times> (string \<times> json) list) eng" where
  "service_call W exec args ps e1 =
     (case service_stmts W (fst ps) (snd ps) (e1\<lparr>depth := depth e1 + 1\<rparr>) of
        (Err x, e3) \<Rightarrow> (Err x, e3\<lparr>depth := depth e3 - 1\<rparr>)
      | (Panic, e3) \<Rightarrow> (Panic, e3)
      | (Ok stmts, e3) \<Rightarrow>
          (case exec stmts (service_ctx args, e3\<lparr>caller_pkg := fst ps\<rparr>) of
             (Panic, (c, e4)) \<Rightarrow> (Panic, e4)
           | (Err x, (c, e4)) \<Rightarrow> (Err x, e4\<lparr>caller_pkg := caller_pkg e3, depth := depth e4 - 1\<rparr>)
           | (Ok _, (c, e4)) \<Rightarrow>
               (Ok (VObject (om_remove ''event'' (vars c)), emits c),
                e4\<lparr>caller_pkg := caller_pkg e3, depth := depth e4 - 1\<rparr>)))"

lemma service_body_eq:
  "service_body W exec name args e =
     (if 32 \<le> depth e then (Err (RDepth name), e)
      else mbind (resolve W name) (service_call W exec args) e)"
  by (auto simp: service_body_def service_call_def mbind_def Let_def split: prod.splits result.splits)

lemma service_call_cache:
  assumes exec: "\<And>ss. sim (on_ctx (cache_rel W)) (exec ss) (exec ss)"
    and pkg: "valid_ref (fst ps)"
  shows "sim (cache_rel W) (service_call W exec args ps) (service_call W exec args ps)"
proof (rule simI)
  fix e e' assume rel: "cache_rel W e e'"
  let ?s = "\<lambda>e. service_stmts W (fst ps) (snd ps) (e\<lparr>depth := depth e + 1\<rparr>)"
  have up: "cache_rel W (e\<lparr>depth := depth e + 1\<rparr>) (e'\<lparr>depth := depth e' + 1\<rparr>)"
    using rel cache_rel_upd(2) [OF rel, of "depth e + 1"] by (simp add: cache_rel_def same_engine_def)
  note s = simD [OF service_stmts_cache [OF pkg] up, of "snd ps"]
  obtain r e3 where 1: "?s e = (r, e3)" by (meson surj_pair)
  obtain r' e3' where 2: "?s e' = (r', e3')" by (meson surj_pair)
  from s 1 2 have r: "r' = r" and rel3: "cache_rel W e3 e3'" by auto
  have d: "cache_rel W f f' \<Longrightarrow> depth f' = depth f \<and> caller_pkg f' = caller_pkg f" for f f'
    by (simp add: cache_rel_def same_engine_def)
  let ?x = "\<lambda>ss f. exec ss (service_ctx args, f\<lparr>caller_pkg := fst ps\<rparr>)"
  have x: "fst (?x ss e3) = fst (?x ss e3')" "on_ctx (cache_rel W) (snd (?x ss e3)) (snd (?x ss e3'))" for ss
    using simD [OF exec, of "(service_ctx args, e3\<lparr>caller_pkg := fst ps\<rparr>)"
        "(service_ctx args, e3'\<lparr>caller_pkg := fst ps\<rparr>)" ss] cache_rel_upd(3) [OF rel3]
    by (auto simp: on_ctx_def)
  show "fst (service_call W exec args ps e) = fst (service_call W exec args ps e') \<and>
      cache_rel W (snd (service_call W exec args ps e)) (snd (service_call W exec args ps e'))"
  proof (cases r)
    case (Ok ss)
    obtain q c e4 where 3: "?x ss e3 = (q, (c, e4))" by (metis surj_pair)
    obtain q' c' e4' where 4: "?x ss e3' = (q', (c', e4'))" by (metis surj_pair)
    from x [of ss] 3 4 have "q' = q" "c' = c" "cache_rel W e4 e4'" by (auto simp: on_ctx_def)
    with 1 2 3 4 r rel3 Ok d [of e3 e3'] d [of e4 e4'] show ?thesis
      by (cases q) (auto simp: service_call_def cache_rel_upd)
  qed (use 1 2 r rel3 d [of e3 e3'] in \<open>auto simp: service_call_def cache_rel_upd\<close>)
qed

lemma service_body_cache:
  assumes exec: "\<And>ss. sim (on_ctx (cache_rel W)) (exec ss) (exec ss)"
  shows "sim (cache_rel W) (service_body W exec name args) (service_body W exec name args)"
proof (rule simI)
  fix e e' assume rel: "cache_rel W e e'"
  obtain r e1 where 1: "resolve W name e = (r, e1)" by fastforce
  obtain r' e1' where 2: "resolve W name e' = (r', e1')" by fastforce
  from simD [OF resolve_cache rel, of name] 1 2 have r: "r' = r" "cache_rel W e1 e1'" by auto
  have "depth e' = depth e" using rel by (simp add: cache_rel_def same_engine_def)
  with 1 2 r rel show "fst (service_body W exec name args e) = fst (service_body W exec name args e') \<and>
      cache_rel W (snd (service_body W exec name args e)) (snd (service_body W exec name args e'))"
    using resolve_valid [of W name e] simD [OF service_call_cache [OF exec]]
    by (cases r) (fastforce simp: service_body_eq mbind_def)+
qed

lemma interp_sim_cache:
  assumes "\<And>name args. sim (cache_rel W) (rs name args) (rs name args)"
  shows "interp_sim (cache_rel W) rs rs"
  by unfold_locales (use assms in \<open>auto simp: cache_rel_def same_engine_def\<close>)

lemma run_service_n_cache:
  "sim (cache_rel W) (run_service_n W n name args) (run_service_n W n name args)"
proof (induction n arbitrary: name args)
  case (Suc n)
  have "sim (on_ctx (cache_rel W)) (exec_block W (run_service_n W n) ss) (exec_block W (run_service_n W n) ss)"
    for ss
    by (rule interp_sim.exec_block_sim [OF interp_sim_cache]) (rule Suc)
  then have "sim (cache_rel W) (service_body W (exec_block W (run_service_n W n)) name args)
      (service_body W (exec_block W (run_service_n W n)) name args)"
    by (rule service_body_cache)
  then show ?case by (simp add: sim_def)
qed (simp add: sim_def)

interpretation caches: interp_sim "cache_rel W" "run_service W" "run_service W" for W
  by (rule interp_sim_cache) (simp add: run_service_def run_service_n_cache)

end
