(* ===== verification/Lexer_Facts.thy ===== *)
theory Lexer_Facts
  imports Lexer
begin

text \<open>
  Facts about the lexer: the bound on nested f-strings is never reached, so \<open>lex\<close> satisfies the
  recursion equation of the program, and an ASCII source never makes it panic.
\<close>

section \<open>The recursion over f-string holes\<close>

lemma brace_scan_bound: "j \<le> length src \<Longrightarrow> fst (brace_scan src j d) \<le> length src"
proof (induction src j d rule: brace_scan.induct)
  case (1 src j d)
  then show ?case
    by (cases "j < length src \<and> 0 < d") (subst brace_scan.simps, simp add: Suc_le_eq)+
qed

lemma hole_shorter:
  assumes "brace_scan src (Suc i) 1 = (j, d)" and "i < length src"
    and "str_slice src (Suc i) (j - 1) = Ok inner"
  shows "length inner < length src"
  using assms brace_scan_bound [of "Suc i" src 1] str_slice_Ok [OF assms(3)] by auto

text \<open>The loop only ever lexes texts shorter than its own source.\<close>

lemma lex_fstring_loop_cong:
  assumes "\<And>t. length t < length src \<Longrightarrow> lexer t = lexer' t"
  shows "lex_fstring_loop lexer src q i lit parts = lex_fstring_loop lexer' src q i lit parts"
proof (induction "length src - i" arbitrary: i lit parts rule: less_induct)
  case less
  have IH: "lex_fstring_loop lexer src q k l p = lex_fstring_loop lexer' src q k l p"
    if "i < k" "i < length src" for k l p
    using less that by auto
  show ?case
    using assms hole_shorter [of src i] brace_scan_gt [of src i 1] IH
    by (subst (1 2) lex_fstring_loop.simps) (auto intro!: rbind_cong split: prod.split)
qed

lemma lex_at_cong:
  assumes "\<And>t. length t < length src \<Longrightarrow> lexer t = lexer' t"
  shows "lex_at lexer src i = lex_at lexer' src i"
proof -
  have "lex_fstring lexer src q = lex_fstring lexer' src q" for q
    unfolding lex_fstring_def by (rule lex_fstring_loop_cong) (rule assms)
  then show ?thesis unfolding lex_at_def by (simp only:)
qed

lemma lex_loop_cong:
  assumes "\<And>t. length t < length src \<Longrightarrow> lexer t = lexer' t"
  shows "lex_loop lexer src i out = lex_loop lexer' src i out"
proof (induction "length src - i" arbitrary: i out rule: less_induct)
  case less
  have "lex_at lexer src i = lex_at lexer' src i"
    by (rule lex_at_cong) (rule assms)
  with less lex_at_gt [of lexer' src i] show ?case
    by (subst (1 2) lex_loop.simps) (auto intro!: rbind_cong)
qed

lemma lex_n_enough: "length src < n \<Longrightarrow> length src < k \<Longrightarrow> lex_n n src = lex_n k src"
proof (induction n arbitrary: k src)
  case (Suc n)
  then obtain k' where k: "k = Suc k'" by (cases k) auto
  have "lex_n n t = lex_n k' t" if "length t < length src" for t
    using Suc.IH [of t k'] Suc.prems that k by linarith
  with k show ?case by (simp add: lex_loop_cong [of src "lex_n n" "lex_n k'"])
qed simp

lemma lex_unfold: "lex src = lex_loop lex src 0 []"
proof -
  have "lex_n (length src) t = lex t" if "length t < length src" for t
    using that unfolding lex_def by (intro lex_n_enough) simp_all
  then show ?thesis
    unfolding lex_def [of src] lex_n.simps by (rule lex_loop_cong)
qed

text \<open>Nothing but an exhausted bound gives \<open>OutOfFuel\<close>.\<close>

lemma str_slice_not_Err [simp]: "str_slice s a b \<noteq> Err e"
  by (simp add: str_slice_def)

lemma lex_string_loop_fuel: "lex_string_loop src start i s \<noteq> Err OutOfFuel"
  by (induction src start i s rule: lex_string_loop.induct) (subst lex_string_loop.simps, simp)

lemma lex_fstring_loop_fuel:
  assumes "\<And>t. length t < length src \<Longrightarrow> lexer t \<noteq> Err OutOfFuel"
  shows "lex_fstring_loop lexer src q i lit parts \<noteq> Err OutOfFuel"
proof (induction "length src - i" arbitrary: i lit parts rule: less_induct)
  case less
  have IH: "lex_fstring_loop lexer src q k l p \<noteq> Err OutOfFuel"
    if "i < k" "i < length src" for k l p
    using less that by auto
  show ?case
    using assms hole_shorter [of src i] brace_scan_gt [of src i 1] IH
    by (subst lex_fstring_loop.simps) (auto simp: rbind_eq_Err split: prod.split)
qed

lemma lex_at_fuel:
  assumes "\<And>t. length t < length src \<Longrightarrow> lexer t \<noteq> Err OutOfFuel"
  shows "lex_at lexer src i \<noteq> Err OutOfFuel"
proof -
  have "lex_fstring lexer src q \<noteq> Err OutOfFuel" for q
    unfolding lex_fstring_def by (rule lex_fstring_loop_fuel) (rule assms)
  moreover have "lex_string src i \<noteq> Err OutOfFuel"
    unfolding lex_string_def by (rule lex_string_loop_fuel)
  ultimately show ?thesis
    by (auto simp: lex_at_def Let_def rbind_eq_Err split: option.split)
qed

lemma lex_loop_fuel:
  assumes "\<And>t. length t < length src \<Longrightarrow> lexer t \<noteq> Err OutOfFuel"
  shows "lex_loop lexer src i out \<noteq> Err OutOfFuel"
proof (induction "length src - i" arbitrary: i out rule: less_induct)
  case less
  have "lex_at lexer src i \<noteq> Err OutOfFuel"
    by (rule lex_at_fuel) (rule assms)
  with less lex_at_gt [of lexer src i] show ?case
    by (subst lex_loop.simps) (auto simp: rbind_eq_Err)
qed

lemma lex_n_fuel: "length src < n \<Longrightarrow> lex_n n src \<noteq> Err OutOfFuel"
  by (induction n arbitrary: src) (auto intro!: lex_loop_fuel)

lemma lex_fuel: "lex src \<noteq> Err OutOfFuel"
  unfolding lex_def by (rule lex_n_fuel) simp

section \<open>ASCII sources\<close>

lemma is_ascii_nth: "is_ascii s \<Longrightarrow> i < length s \<Longrightarrow> \<not> is_cont (s ! i)"
  by (auto simp: is_ascii_def list_all_iff is_cont_def byte_in_def dest!: nth_mem)

lemma str_slice_ascii:
  "is_ascii s \<Longrightarrow> a \<le> b \<Longrightarrow> b \<le> length s \<Longrightarrow> str_slice s a b = Ok (take (b - a) (drop a s))"
  by (cases "a = length s"; cases "b = length s") (auto simp: str_slice_def is_char_boundary_def is_ascii_nth)

lemma is_ascii_slice: "is_ascii s \<Longrightarrow> is_ascii (take n (drop a s))"
  by (auto simp: is_ascii_def list_all_iff dest!: in_set_takeD in_set_dropD)

lemma err_at_ascii: "is_ascii src \<Longrightarrow> err_at pos src m \<noteq> Panic"
  by (simp add: err_at_def str_slice_ascii)

lemma scan_while_bound: "i \<le> length src \<Longrightarrow> scan_while p src i \<le> length src"
proof (induction p src i rule: scan_while.induct)
  case (1 p src i)
  then show ?case
    by (cases "i < length src \<and> p (src ! i)") (subst scan_while.simps, simp add: Suc_le_eq)+
qed

lemma lex_string_loop_ascii: "is_ascii src \<Longrightarrow> lex_string_loop src start i s \<noteq> Panic"
  by (induction src start i s rule: lex_string_loop.induct)
    (subst lex_string_loop.simps, simp add: err_at_ascii)

lemma brace_scan_close:
  "brace_scan src j d = (k, 0) \<Longrightarrow> 0 < d \<Longrightarrow> j < k"
proof (induction src j d rule: brace_scan.induct)
  case (1 src j d)
  then have "j < length src \<and> 0 < d" by (subst (asm) brace_scan.simps) (auto split: if_splits)
  with 1(2) have "k = fst (brace_scan src (Suc j)
      (if src ! j = CHR ''{'' then Suc d else if src ! j = CHR ''}'' then d - 1 else d))"
    by (subst (asm) brace_scan.simps) (auto split: if_splits)
  then show ?case using brace_scan_le by (metis Suc_le_eq)
qed

lemma lex_fstring_loop_ascii:
  assumes src: "is_ascii src" and lexer: "\<And>t. is_ascii t \<Longrightarrow> lexer t \<noteq> Panic"
  shows "lex_fstring_loop lexer src q i lit parts \<noteq> Panic"
proof (induction "length src - i" arbitrary: i lit parts rule: less_induct)
  case less
  have IH: "lex_fstring_loop lexer src q k l p \<noteq> Panic" if "i < k" "i < length src" for k l p
    using less that by auto
  have slice: "(str_slice src (Suc i) (j - 1) :: (string, perr) result) =
      Ok (take (j - 1 - Suc i) (drop (Suc i) src))"
    if "brace_scan src (Suc i) 1 = (j, 0)" "i < length src" for j
    using that src brace_scan_close [OF that(1)] brace_scan_bound [of "Suc i" src 1]
    by (intro str_slice_ascii) auto
  show ?case
    using lexer brace_scan_gt [of src i 1] IH slice is_ascii_slice [OF src]
    by (subst lex_fstring_loop.simps) (auto simp: rbind_eq_Panic err_at_ascii [OF src] split: prod.split)
qed

lemma lex_at_ascii:
  assumes src: "is_ascii src" and lexer: "\<And>t. is_ascii t \<Longrightarrow> lexer t \<noteq> Panic" and i: "i < length src"
  shows "lex_at lexer src i \<noteq> Panic"
proof -
  have "lex_fstring lexer src q \<noteq> Panic" for q
    unfolding lex_fstring_def using src by (rule lex_fstring_loop_ascii) (rule lexer)
  moreover have "lex_string src i \<noteq> Panic"
    unfolding lex_string_def using src by (rule lex_string_loop_ascii)
  moreover have "str_slice src i (scan_while p src (i + 1)) \<noteq> Panic" for p
    using scan_while_bound [of "i + 1" src p] scan_while_le [of "i + 1" p src] i
    by (simp add: str_slice_ascii [OF src])
  moreover have "(if i + 1 < length src then str_slice src i (i + 2) else Ok []) \<noteq> Panic"
    by (simp add: str_slice_ascii [OF src])
  ultimately show ?thesis
    using err_at_ascii [OF src]
    by (auto simp: lex_at_def Let_def rbind_eq_Panic simp del: One_nat_def split: option.split)
qed

lemma lex_n_ascii: "is_ascii src \<Longrightarrow> lex_n n src \<noteq> Panic"
proof (induction n arbitrary: src)
  case (Suc n)
  have "lex_loop (lex_n n) src i out \<noteq> Panic" for i out
  proof (induction "length src - i" arbitrary: i out rule: less_induct)
    case less
    have "i < length src \<Longrightarrow> lex_at (lex_n n) src i \<noteq> Panic"
      using Suc.prems by (rule lex_at_ascii) (rule Suc.IH)
    with less lex_at_gt [of "lex_n n" src i] show ?case
      by (subst lex_loop.simps) (auto simp: rbind_eq_Panic)
  qed
  then show ?case by simp
qed simp

lemma lex_ascii: "is_ascii src \<Longrightarrow> lex src \<noteq> Panic"
  unfolding lex_def by (rule lex_n_ascii)

end
