(* ===== verification/Parser_Facts.thy ===== *)
theory Parser_Facts
  imports Parser Lexer_Facts
begin

text \<open>
  Facts about the parser, proved in one pass over its functions: the bound \<open>parse\<close> passes is
  never reached, an ASCII source never makes it panic, and the trees it builds are well formed
  (every literal is a well-formed value, no assignment has an empty path).
\<close>

section \<open>Well-formed trees\<close>

fun expr_wf :: "expr \<Rightarrow> bool" and fpart_wf :: "fstring_part \<Rightarrow> bool" where
  "expr_wf (ELit v) = json_wf v"
| "expr_wf (EFString ps) = list_all fpart_wf ps"
| "expr_wf (EVar _) = True"
| "expr_wf (EDoc pairs) = list_all (\<lambda>x. expr_wf (snd x)) pairs"
| "expr_wf (EArray es) = list_all expr_wf es"
| "expr_wf (EField b _ _) = expr_wf b"
| "expr_wf (EIndex a b) = (expr_wf a \<and> expr_wf b)"
| "expr_wf (EProjection b) = expr_wf b"
| "expr_wf (EFilter a b) = (expr_wf a \<and> expr_wf b)"
| "expr_wf (ECall _ es) = list_all expr_wf es"
| "expr_wf (EInvoke _ pairs) = list_all (\<lambda>x. expr_wf (snd x)) pairs"
| "expr_wf (EUnary _ b) = expr_wf b"
| "expr_wf (EBin _ a b) = (expr_wf a \<and> expr_wf b)"
| "fpart_wf (FLit _) = True"
| "fpart_wf (FExpr e) = expr_wf e"

fun stmt_wf :: "stmt \<Rightarrow> bool" and stmts_wf :: "stmt list \<Rightarrow> bool" and arms_wf :: "arm list \<Rightarrow> bool"
where
  "stmt_wf (SAssign path e) = (path \<noteq> [] \<and> expr_wf e)"
| "stmt_wf (SIf arms otherwise) =
     (arms_wf arms \<and> (case otherwise of Some b \<Rightarrow> stmts_wf b | None \<Rightarrow> True))"
| "stmt_wf (SFor _ iter body) = (expr_wf iter \<and> stmts_wf body)"
| "stmt_wf (SEmit subj payload) = (expr_wf subj \<and> expr_wf payload)"
| "stmt_wf (SRespond status body) = (expr_wf status \<and> expr_wf body)"
| "stmt_wf (SInvokeMerge _ pairs) = list_all (\<lambda>x. expr_wf (snd x)) pairs"
| "stmts_wf [] = True"
| "stmts_wf (s # ss) = (stmt_wf s \<and> stmts_wf ss)"
| "arms_wf [] = True"
| "arms_wf ((cond, _, body) # arms) = (expr_wf cond \<and> stmts_wf body \<and> arms_wf arms)"

lemma stmts_wf_append [simp]: "stmts_wf (xs @ ys) \<longleftrightarrow> stmts_wf xs \<and> stmts_wf ys"
  by (induction xs) auto

lemma arms_wf_append [simp]: "arms_wf (xs @ ys) \<longleftrightarrow> arms_wf xs \<and> arms_wf ys"
  by (induction xs) auto

lemma f_as_i64_range: "i64_min \<le> f_as_i64 f \<and> f_as_i64 f \<le> i64_max"
  by (auto simp: f_as_i64_def i64_min_def i64_max_def)

lemma num_wf [simp]: "json_wf (num f)"
  using f_as_i64_range [of f]
  by (auto simp: num_def number_from_i64_def i64_min_def i64_max_def split: option.split
      elim!: number_from_f64.elims)

section \<open>What a parser call promises\<close>

text \<open>The weight of the tokens from the cursor on.\<close>

definition wt :: "pctx \<Rightarrow> nat \<Rightarrow> nat" where
  "wt P i = toks_weight (drop i (p_toks P))"

text \<open>
  A call that may return a cursor of weight below \<open>w\<close> and a value with the property \<open>Q\<close>, that
  never runs out of levels and panics on no ASCII source.
\<close>

definition pok :: "pctx \<Rightarrow> nat \<Rightarrow> ('a \<Rightarrow> bool) \<Rightarrow> ('a \<times> nat, perr) result \<Rightarrow> bool" where
  "pok P w Q r \<longleftrightarrow>
     r \<noteq> Err OutOfFuel \<and> (is_ascii (p_src P) \<longrightarrow> r \<noteq> Panic) \<and>
     (\<forall>a j. r = Ok (a, j) \<longrightarrow> wt P j < w \<and> Q a)"

lemma tok_weight_pos: "0 < tok_weight t"
  by (auto split: tok.split)

declare tok_weight.simps [simp del]

lemma toks_weight_pos: "0 < toks_weight ts"
  by (induction ts) (auto elim: spanned.exhaust, metis add_gr_0 spanned.exhaust toks_weight.simps(2))

lemma toks_weight_Cons: "toks_weight (t # ts) = tok_weight (sp_tok t) + toks_weight ts"
  by (cases t) simp

lemma wt_Suc_le: "wt P (Suc i) \<le> wt P i"
proof (cases "i < length (p_toks P)")
  case True
  then show ?thesis by (simp add: wt_def Cons_nth_drop_Suc [symmetric] toks_weight_Cons)
qed (simp add: wt_def)

lemma wt_mono: "i \<le> j \<Longrightarrow> wt P j \<le> wt P i"
  by (induction j rule: dec_induct) (auto intro: le_trans wt_Suc_le)

lemma wt_Suc: "peek P i \<noteq> TNewline \<Longrightarrow> wt P (Suc i) < wt P i"
  by (auto simp: peek_def wt_def Cons_nth_drop_Suc [symmetric] toks_weight_Cons tok_weight_pos
      split: if_splits)

lemma wt_Suc2: "peek P i \<noteq> TNewline \<Longrightarrow> wt P (Suc (Suc i)) < wt P i"
  using wt_Suc wt_Suc_le [of P "Suc i"] by fastforce

lemma wt_Suc3: "peek P i \<noteq> TNewline \<Longrightarrow> wt P (Suc (Suc (Suc i))) < wt P i"
  using wt_Suc2 wt_Suc_le [of P "Suc (Suc i)"] by fastforce

lemma skip_newlines_ge: "i \<le> skip_newlines P i"
proof (induction P i rule: skip_newlines.induct)
  case (1 P i)
  then show ?case
    by (cases "i < length (p_toks P) \<and> peek P i = TNewline") (subst skip_newlines.simps, simp add: Suc_le_eq)+
qed

lemma wt_skip: "wt P (skip_newlines P i) \<le> wt P i"
  by (intro wt_mono skip_newlines_ge)

lemma wt_after_comma: "wt P (after_comma P i) \<le> wt P i"
proof (rule wt_mono)
  show "i \<le> after_comma P i"
    using skip_newlines_ge [of i P] skip_newlines_ge [of "Suc (skip_newlines P i)" P]
    by (simp add: after_comma_def Let_def)
qed

lemma wt_after_comma_inline: "wt P (after_comma_inline P i) \<le> wt P i"
  by (simp add: after_comma_inline_def wt_Suc_le)

lemma pok_Ok [simp]: "pok P w Q (Ok (a, j)) \<longleftrightarrow> wt P j < w \<and> Q a"
  by (auto simp: pok_def)

lemma pok_p_err [simp]: "pok P w Q (p_err P i m)"
  by (simp add: pok_def p_err_def err_at_ascii)

lemma pok_weaken: "pok P w Q r \<Longrightarrow> w \<le> v \<Longrightarrow> pok P v Q r"
  by (force simp: pok_def)

lemma pok_bind:
  assumes "pok P w Q m" and "\<And>a j. wt P j < w \<Longrightarrow> Q a \<Longrightarrow> pok P v Q' (f (a, j))"
  shows "pok P v Q' (rbind m f)"
  using assms by (cases m) (auto simp: pok_def)

lemma pok_eat:
  assumes "t \<noteq> TNewline" and "wt P (Suc i) < wt P i \<Longrightarrow> pok P v Q (f (Suc i))"
  shows "pok P v Q (rbind (eat P t what i) f)"
proof (cases "peek P i = t")
  case True
  with assms wt_Suc show ?thesis by (auto simp: eat_def)
next
  case False
  then have "rbind (eat P t what i) f = p_err P i (MExpected what (peek P i))"
    by (simp add: eat_def p_err_def err_at_def str_slice_def)
  then show ?thesis by simp
qed

lemma pok_word: "pok P (wt P i) (\<lambda>_. True) (word P what i)"
  by (auto simp: word_def split: option.split intro!: wt_Suc)

section \<open>Expressions\<close>

text \<open>A parser of expressions that is good for every cursor of weight below \<open>n\<close>.\<close>

definition ex_ok :: "nat \<Rightarrow> expr_parser \<Rightarrow> bool" where
  "ex_ok n ex \<longleftrightarrow> (\<forall>P bp i. wt P i < n \<longrightarrow> pok P (wt P i) expr_wf (ex P bp i))"

lemma ex_okD: "ex_ok n ex \<Longrightarrow> wt P i < n \<Longrightarrow> pok P (wt P i) expr_wf (ex P bp i)"
  by (simp add: ex_ok_def)

lemma p_items_ok:
  assumes ex: "ex_ok m ex"
  shows "wt P i < n \<Longrightarrow> wt P i < m \<Longrightarrow> list_all expr_wf acc \<Longrightarrow>
    pok P (wt P i) (list_all expr_wf) (p_items ex n P acc i)"
proof (induction n arbitrary: acc i)
  case (Suc n)
  show ?case
  proof (cases "peek P i = TRBrack")
    case True
    with Suc.prems wt_Suc [of P i] show ?thesis by simp
  next
    case False
    have "pok P (wt P i) (list_all expr_wf) (p_items ex n P (acc @ [e]) (after_comma P j))"
      if "wt P j < wt P i" "expr_wf e" for e j
      using Suc that wt_after_comma [of P j]
      by (intro pok_weaken [OF Suc.IH]) auto
    with False Suc.prems show ?thesis
      by (auto intro!: pok_bind [OF ex_okD [OF ex]])
  qed
qed simp

lemma p_args_ok:
  assumes ex: "ex_ok m ex"
  shows "wt P i < n \<Longrightarrow> wt P i < m \<Longrightarrow> list_all expr_wf acc \<Longrightarrow>
    pok P (wt P i) (list_all expr_wf) (p_args ex n P acc i)"
proof (induction n arbitrary: acc i)
  case (Suc n)
  show ?case
  proof (cases "peek P i = TRParen")
    case True
    with Suc.prems wt_Suc [of P i] show ?thesis by simp
  next
    case False
    have "pok P (wt P i) (list_all expr_wf) (p_args ex n P (acc @ [e]) (after_comma_inline P j))"
      if "wt P j < wt P i" "expr_wf e" for e j
      using Suc that wt_after_comma_inline [of P j]
      by (intro pok_weaken [OF Suc.IH]) auto
    with False Suc.prems show ?thesis
      by (auto intro!: pok_bind [OF ex_okD [OF ex]])
  qed
qed simp

abbreviation pairs_wf :: "(string \<times> expr) list \<Rightarrow> bool" where
  "pairs_wf \<equiv> list_all (\<lambda>x. expr_wf (snd x))"

text \<open>One \<open>key: expr\<close> of a document or of named arguments.\<close>

lemma pair_ok:
  assumes ex: "ex_ok m ex" and i: "wt P i < m"
    and rest: "\<And>key e l. wt P l < wt P i \<Longrightarrow> expr_wf e \<Longrightarrow> pok P v Q (f key e l)"
  shows "pok P v Q (rbind (word P what i) (\<lambda>(key, j). rbind (eat P TColon '':'' j) (\<lambda>k.
     rbind (ex P 0 k) (\<lambda>(e, l). f key e l))))"
proof (rule pok_bind [OF pok_word], simp, rule pok_eat, simp)
  fix key j
  assume j: "wt P j < wt P i" "wt P (Suc j) < wt P j"
  then have "wt P (Suc j) < m" using i by simp
  show "pok P v Q (rbind (ex P 0 (Suc j)) (\<lambda>(e, l). f key e l))"
  proof (rule pok_bind [OF ex_okD [OF ex \<open>wt P (Suc j) < m\<close>]], simp)
    show "pok P v Q (f key e l)" if "wt P l < wt P (Suc j)" "expr_wf e" for e l
      using j that by (intro rest) auto
  qed
qed

lemma p_fields_ok:
  assumes ex: "ex_ok m ex"
  shows "wt P i < n \<Longrightarrow> wt P i < m \<Longrightarrow> pairs_wf acc \<Longrightarrow>
    pok P (wt P i) pairs_wf (p_fields ex n P acc i)"
proof (induction n arbitrary: acc i)
  case (Suc n)
  have "pok P (wt P i) pairs_wf (p_fields ex n P (acc @ [(key, e)]) (after_comma P l))"
    if "wt P l < wt P i" "expr_wf e" for key e l
    using Suc that wt_after_comma [of P l] by (intro pok_weaken [OF Suc.IH]) auto
  with Suc.prems have "pok P (wt P i) pairs_wf (rbind (word P ''key'' i) (\<lambda>(key, j).
      rbind (eat P TColon '':'' j) (\<lambda>k. rbind (ex P 0 k) (\<lambda>(e, l).
        p_fields ex n P (acc @ [(key, e)]) (after_comma P l)))))"
    by (intro pair_ok [OF ex])
  with Suc.prems wt_Suc [of P i] show ?case by simp
qed simp

lemma p_named_ok:
  assumes ex: "ex_ok m ex"
  shows "wt P i < n \<Longrightarrow> wt P i < m \<Longrightarrow> pairs_wf acc \<Longrightarrow>
    pok P (wt P i) pairs_wf (p_named ex n P acc i)"
proof (induction n arbitrary: acc i)
  case (Suc n)
  have "pok P (wt P i) pairs_wf (p_named ex n P (acc @ [(key, e)]) (after_comma_inline P l))"
    if "wt P l < wt P i" "expr_wf e" for key e l
    using Suc that wt_after_comma_inline [of P l] by (intro pok_weaken [OF Suc.IH]) auto
  with Suc.prems have "pok P (wt P i) pairs_wf (rbind (word P ''argument name'' i) (\<lambda>(key, j).
      rbind (eat P TColon '':'' j) (\<lambda>k. rbind (ex P 0 k) (\<lambda>(e, l).
        p_named ex n P (acc @ [(key, e)]) (after_comma_inline P l)))))"
    by (intro pair_ok [OF ex])
  with Suc.prems wt_Suc [of P i] show ?case by simp
qed simp

lemma invoke_name_ok: "pok P (wt P i) (\<lambda>_. True) (invoke_name P i)"
proof (cases "peek P i")
  case (TIdent n)
  then have i: "wt P (i + 1) < wt P i" "wt P (i + 3) < wt P i"
    using wt_Suc [of P i] wt_Suc3 [of P i] by (simp_all add: eval_nat_numeral)
  show ?thesis
  proof (cases "peek P (i + 1)")
    case TColon
    show ?thesis
    proof (cases "peek2 P (i + 1)")
      case (Some t)
      with TIdent TColon i show ?thesis by (cases t) (simp_all add: invoke_name_def)
    qed (use TIdent TColon i in \<open>simp add: invoke_name_def\<close>)
  qed (use TIdent i in \<open>simp_all add: invoke_name_def\<close>)
qed (simp_all add: invoke_name_def)

lemma invoke_args_ok:
  assumes ex: "ex_ok m ex" and "wt P i < n" and "wt P i < m"
  shows "pok P (wt P i) (\<lambda>x. pairs_wf (snd x)) (invoke_args ex n P i)"
  unfolding invoke_args_def
proof (rule pok_bind [OF invoke_name_ok], simp, rule pok_eat, simp)
  fix nm j
  assume "wt P j < wt P i" "wt P (Suc j) < wt P j"
  with assms show "pok P (wt P i) (\<lambda>x. pairs_wf (snd x))
      (rbind (p_named ex n P [] (Suc j)) (\<lambda>(args, l). Ok ((nm, args), l)))"
    by (intro pok_bind [OF p_named_ok [OF ex]]) auto
qed

text \<open>The tokens of a hole weigh less than the f-string they stand in.\<close>

lemma p_fparts_ok:
  assumes ex: "ex_ok m ex"
  shows "fparts_weight ps \<le> m \<Longrightarrow>
    p_fparts ex P ps \<noteq> Err OutOfFuel \<and> (is_ascii (p_src P) \<longrightarrow> p_fparts ex P ps \<noteq> Panic) \<and>
    (\<forall>out. p_fparts ex P ps = Ok out \<longrightarrow> list_all fpart_wf out)"
proof (induction ps)
  case (Cons p ps)
  show ?case
  proof (cases p)
    case (PExpr ts)
    with Cons.prems have "wt (P\<lparr>p_toks := ts\<rparr>) 0 < m" by (simp add: wt_def)
    from ex_okD [OF ex this, of 0] Cons PExpr show ?thesis
      by (auto simp: pok_def rbind_eq_Err rbind_eq_Panic rbind_eq_Ok)
  qed (use Cons in \<open>auto simp: rbind_eq_Err rbind_eq_Panic rbind_eq_Ok\<close>)
qed simp

lemma fparts_weight_peek: "peek P i = TFStr ps \<Longrightarrow> fparts_weight ps < wt P i"
  by (auto simp: peek_def wt_def Cons_nth_drop_Suc [symmetric] toks_weight_Cons tok_weight.simps
      split: if_splits)

lemma p_atom_ok:
  assumes ex: "ex_ok n ex" and i: "wt P i < Suc n"
  shows "pok P (wt P i) expr_wf (p_atom ex n P i)"
proof -
  have sub: "wt P (Suc i) < n" "wt P (Suc i) < wt P i" if "peek P i \<noteq> TNewline"
    using wt_Suc [OF that] i by auto
  have sub2: "wt P (Suc (Suc i)) < n" "wt P (Suc (Suc i)) < wt P i" if "peek P i \<noteq> TNewline"
    using wt_Suc2 [OF that] i by auto
  have skip: "wt P (skip_newlines P (Suc i)) < n" "wt P (skip_newlines P (Suc i)) < wt P i"
    if "peek P i \<noteq> TNewline"
    using sub [OF that] wt_skip [of P "Suc i"] by auto
  show ?thesis
  proof (cases "peek P i")
    case (TFStr ps)
    with fparts_weight_peek [OF TFStr] p_fparts_ok [OF ex, of ps P] i sub show ?thesis
      by (auto simp: p_atom_def pok_def rbind_eq_Err rbind_eq_Panic rbind_eq_Ok)
  next
    case TInvoke
    with sub invoke_args_ok [OF ex, of P "Suc i" n] show ?thesis
      by (auto simp: p_atom_def elim!: pok_bind)
  next
    case TLBrack
    with skip p_items_ok [OF ex, of P "skip_newlines P (Suc i)" n "[]"] show ?thesis
      by (auto simp: p_atom_def elim!: pok_bind)
  next
    case TLBrace
    with skip p_fields_ok [OF ex, of P "skip_newlines P (Suc i)" n "[]"] show ?thesis
      by (auto simp: p_atom_def elim!: pok_bind)
  next
    case TLParen
    with sub ex_okD [OF ex, of P "Suc i" 0] show ?thesis
      by (auto simp: p_atom_def elim!: pok_bind intro!: pok_eat)
  next
    case (TIdent name)
    with sub sub2 p_args_ok [OF ex, of P "Suc (Suc i)" n "[]"] show ?thesis
      by (auto simp: p_atom_def elim!: pok_bind)
  next
    case TNot
    with sub ex_okD [OF ex, of P "Suc i" 9] show ?thesis
      by (auto simp: p_atom_def elim!: pok_bind)
  next
    case TMinus
    with sub ex_okD [OF ex, of P "Suc i" 9] show ?thesis
      by (auto simp: p_atom_def elim!: pok_bind)
  qed (use sub in \<open>auto simp: p_atom_def\<close>)
qed

lemma p_postfix_ok:
  assumes ex: "ex_ok m ex"
  shows "wt P i < n \<Longrightarrow> wt P i < m \<Longrightarrow> expr_wf lhs \<Longrightarrow>
    pok P (Suc (wt P i)) expr_wf (p_postfix ex n P lhs i)"
proof (induction n arbitrary: lhs i)
  case (Suc n)
  have next_ok: "pok P (Suc (wt P i)) expr_wf (p_postfix ex n P e j)"
    if "wt P j < wt P i" "expr_wf e" for e j
    using Suc that by (intro pok_weaken [OF Suc.IH]) auto
  have field: "pok P (Suc (wt P i)) expr_wf
      (rbind (word P ''field name'' (Suc i)) (\<lambda>(f, j). p_postfix ex n P (EField lhs f s) j))"
    if "peek P i \<noteq> TNewline" for s
    using wt_Suc [OF that] Suc.prems by (intro pok_bind [OF pok_word]) (auto intro!: next_ok)
  show ?case
  proof (cases "peek P i")
    case TLBrack
    have i: "wt P (Suc i) < wt P i" "wt P (Suc (Suc i)) < wt P i"
      using wt_Suc [of P i] wt_Suc2 [of P i] TLBrack by auto
    with Suc.prems have "wt P (Suc i) < m" by simp
    from ex_okD [OF ex this, of 0] TLBrack i Suc.prems show ?thesis
      by (auto elim!: pok_bind intro!: next_ok pok_eat)
  qed (use field Suc.prems in auto)
qed simp

lemma p_infix_ok:
  assumes ex: "ex_ok m ex"
  shows "wt P i < n \<Longrightarrow> wt P i < m \<Longrightarrow> expr_wf lhs \<Longrightarrow>
    pok P (Suc (wt P i)) expr_wf (p_infix ex n P bp lhs i)"
proof (induction n arbitrary: lhs i)
  case (Suc n)
  have next_ok: "pok P (Suc (wt P i)) expr_wf (p_infix ex n P bp e j)"
    if "wt P j < wt P i" "expr_wf e" for e j
    using Suc that by (intro pok_weaken [OF Suc.IH]) auto
  show ?case
  proof (cases "binop_of (peek P i)")
    case (Some bb)
    then have i: "wt P (Suc i) < wt P i" by (intro wt_Suc) auto
    with Suc.prems have "wt P (Suc i) < m" by simp
    from ex_okD [OF ex this] i Some Suc.prems show ?thesis
      by (auto intro!: next_ok pok_bind [OF ex_okD [OF ex \<open>wt P (Suc i) < m\<close>]] split: prod.split)
  qed (use Suc.prems in simp)
qed simp

lemma p_expr_ok: "ex_ok n (p_expr n)"
proof (induction n)
  case (Suc n)
  show ?case unfolding ex_ok_def
  proof (intro allI impI)
    fix P bp i assume i: "wt P i < Suc n"
    show "pok P (wt P i) expr_wf (p_expr (Suc n) P bp i)"
      unfolding p_expr.simps
    proof (rule pok_bind [OF p_atom_ok [OF Suc i]], simp)
      fix e j assume j: "wt P j < wt P i" "expr_wf e"
      then have "wt P j < n" using i by simp
      note post = p_postfix_ok [OF Suc this this j(2)]
      show "pok P (wt P i) expr_wf
          (rbind (p_postfix (p_expr n) n P e j) (\<lambda>(lhs', y). p_infix (p_expr n) n P bp lhs' y))"
      proof (rule pok_bind [OF post], simp)
        fix e' k assume k: "wt P k < Suc (wt P j)" "expr_wf e'"
        then show "pok P (wt P i) expr_wf (p_infix (p_expr n) n P bp e' k)"
          using i j by (intro pok_weaken [OF p_infix_ok [OF Suc]]) auto
      qed
    qed
  qed
qed (simp add: ex_ok_def)

lemmas expr_ok = ex_okD [OF p_expr_ok]

section \<open>Statements\<close>

lemma p_pair_ok:
  assumes "wt P i < n"
  shows "pok P (wt P i) (\<lambda>x. expr_wf (fst x) \<and> expr_wf (snd x)) (p_pair n P i)"
  unfolding p_pair_def
proof (rule pok_bind [OF expr_ok [OF assms]], simp, rule pok_eat, simp)
  fix a j assume j: "wt P j < wt P i" "expr_wf a" "wt P (Suc j) < wt P j"
  then have "wt P (Suc j) < n" using assms by simp
  then show "pok P (wt P i) (\<lambda>x. expr_wf (fst x) \<and> expr_wf (snd x))
      (rbind (p_expr n P 0 (Suc j)) (\<lambda>(b, l). Ok ((a, b), l)))"
    by (rule pok_bind [OF expr_ok]) (use j in auto)
qed

lemma p_cond_ok:
  assumes "wt P i < n"
  shows "pok P (wt P i) (\<lambda>x. expr_wf (fst x)) (p_cond n P i)"
  unfolding p_cond_def
  by (rule pok_bind [OF expr_ok [OF assms]]) (auto intro!: pok_eat)

lemma p_path_ok:
  "wt P i < n \<Longrightarrow> path \<noteq> [] \<Longrightarrow> pok P (Suc (wt P i)) (\<lambda>p. p \<noteq> []) (p_path n P path i)"
proof (induction n arbitrary: path i)
  case (Suc n)
  show ?case
  proof (cases "peek P i = TDot")
    case True
    then have i: "wt P (Suc i) < wt P i" using wt_Suc [of P i] by simp
    have "pok P (Suc (wt P i)) (\<lambda>p. p \<noteq> []) (p_path n P (path @ [w]) j)" if "wt P j < wt P (Suc i)" for w j
      using Suc.prems that i by (intro pok_weaken [OF Suc.IH]) auto
    with True show ?thesis by (auto intro!: pok_bind [OF pok_word])
  qed (use Suc.prems in simp)
qed simp

definition st_ok :: "nat \<Rightarrow> stmt_parser \<Rightarrow> bool" where
  "st_ok n st \<longleftrightarrow> (\<forall>P i. wt P i < n \<longrightarrow> pok P (wt P i) stmt_wf (st P i))"

lemma p_block_ok:
  assumes st: "st_ok m st"
  shows "wt P i < n \<Longrightarrow> wt P i < m \<Longrightarrow> stmts_wf acc \<Longrightarrow>
    pok P (Suc (wt P i)) stmts_wf (p_block st n P acc i)"
proof (induction n arbitrary: acc i)
  case (Suc n)
  let ?j = "skip_newlines P i"
  have j: "wt P ?j \<le> wt P i" by (rule wt_skip)
  with st Suc.prems have s: "pok P (wt P ?j) stmt_wf (st P ?j)" by (simp add: st_ok_def)
  have "pok P (Suc (wt P i)) stmts_wf (p_block st n P (acc @ [t]) k)"
    if "wt P k < wt P ?j" "stmt_wf t" for t k
    using Suc.prems that j by (intro pok_weaken [OF Suc.IH]) auto
  then have "pok P (Suc (wt P i)) stmts_wf (rbind (st P ?j) (\<lambda>(t, k). p_block st n P (acc @ [t]) k))"
    by (intro pok_bind [OF s]) auto
  with Suc.prems j show ?case by (simp add: Let_def)
qed simp

lemma p_arms_ok:
  assumes st: "st_ok m st"
  shows "wt P i < n \<Longrightarrow> wt P i < m \<Longrightarrow> arms_wf arms \<Longrightarrow>
    (case otherwise of Some b \<Rightarrow> stmts_wf b | None \<Rightarrow> True) \<Longrightarrow>
    pok P (wt P i) stmt_wf (p_arms st n P arms otherwise i)"
proof (induction n arbitrary: arms otherwise i)
  case (Suc n)
  have block: "pok P (Suc (wt P j)) stmts_wf (p_block st n P [] j)" if "wt P j < wt P i" for j
    using Suc.prems that by (intro p_block_ok [OF st]) auto
  have again: "pok P (wt P i) stmt_wf (p_arms st n P arms' otherwise' j)"
    if "wt P j < wt P i" "arms_wf arms'" "case otherwise' of Some b \<Rightarrow> stmts_wf b | None \<Rightarrow> True"
    for j arms' otherwise'
    using Suc.prems that by (intro pok_weaken [OF Suc.IH]) auto
  show ?case
  proof (cases "peek P i")
    case TElif
    then have i: "wt P (Suc i) < wt P i" "wt P (Suc i) < n" using wt_Suc [of P i] Suc.prems by auto
    have "pok P (wt P i) stmt_wf (rbind (p_block st n P [] j)
        (\<lambda>(body, k). p_arms st n P (arms @ [(c, sp, body)]) otherwise k))"
      if "wt P j < wt P (Suc i)" "expr_wf c" for c sp j
      using i that Suc.prems by (intro pok_bind [OF block]) (auto intro!: again)
    then have "pok P (wt P i) stmt_wf (rbind (p_cond n P (Suc i)) (\<lambda>((c, sp), j).
        rbind (p_block st n P [] j) (\<lambda>(body, k). p_arms st n P (arms @ [(c, sp, body)]) otherwise k)))"
      by (intro pok_bind [OF p_cond_ok [OF i(2)]]) auto
    with TElif show ?thesis by simp
  next
    case TElse
    then have i: "wt P (Suc i) < wt P i" using wt_Suc [of P i] by auto
    have "pok P (wt P i) stmt_wf (rbind (p_block st n P [] j) (\<lambda>(body, k). p_arms st n P arms (Some body) k))"
      if "wt P j < wt P (Suc i)" for j
      using i that Suc.prems by (intro pok_bind [OF block]) (auto intro!: again)
    with TElse show ?thesis by (auto intro!: pok_eat)
  qed (use Suc.prems wt_Suc [of P i] in auto)
qed simp

text \<open>The body of an \<open>if\<close> and of a \<open>for\<close>, after their header.\<close>

lemma if_ok:
  assumes st: "st_ok n st" and i: "wt P i < n"
  shows "pok P (wt P i) stmt_wf (rbind (p_cond n P i) (\<lambda>((c, sp), j).
     rbind (p_block st n P [] j) (\<lambda>(body, k). p_arms st n P [(c, sp, body)] None k)))"
proof (rule pok_bind [OF p_cond_ok [OF i]], clarsimp)
  fix c sp1 sp2 j assume j: "wt P j < wt P i" "expr_wf c"
  then have jn: "wt P j < n" using i by simp
  show "pok P (wt P i) stmt_wf
      (rbind (p_block st n P [] j) (\<lambda>(body, k). p_arms st n P [(c, (sp1, sp2), body)] None k))"
  proof (rule pok_bind [OF p_block_ok [OF st jn jn]], simp, simp)
    fix body k assume "wt P k < Suc (wt P j)" "stmts_wf body"
    with j jn show "pok P (wt P i) stmt_wf (p_arms st n P [(c, (sp1, sp2), body)] None k)"
      by (intro pok_weaken [OF p_arms_ok [OF st]]) auto
  qed
qed

lemma for_ok:
  assumes st: "st_ok n st" and i: "wt P i < n"
  shows "pok P (wt P i) stmt_wf (rbind (eat P TIn ''in'' i) (\<lambda>j.
     rbind (p_expr n P 0 j) (\<lambda>(it, k). rbind (eat P TColon '':'' k) (\<lambda>l.
     rbind (p_block st n P [] l) (\<lambda>(body, m). rbind (eat P TEnd ''end'' m) (\<lambda>q. Ok (SFor v it body, q)))))))"
proof (rule pok_eat, simp)
  assume j: "wt P (Suc i) < wt P i"
  then have jn: "wt P (Suc i) < n" using i by simp
  show "pok P (wt P i) stmt_wf (rbind (p_expr n P 0 (Suc i)) (\<lambda>(it, k). rbind (eat P TColon '':'' k) (\<lambda>l.
     rbind (p_block st n P [] l) (\<lambda>(body, m). rbind (eat P TEnd ''end'' m) (\<lambda>q. Ok (SFor v it body, q))))))"
  proof (rule pok_bind [OF expr_ok [OF jn]], simp, rule pok_eat, simp)
    fix it k assume k: "wt P k < wt P (Suc i)" "expr_wf it" "wt P (Suc k) < wt P k"
    then have kn: "wt P (Suc k) < n" using jn by simp
    show "pok P (wt P i) stmt_wf (rbind (p_block st n P [] (Suc k))
        (\<lambda>(body, m). rbind (eat P TEnd ''end'' m) (\<lambda>q. Ok (SFor v it body, q))))"
      by (rule pok_bind [OF p_block_ok [OF st kn kn]]) (use j k in \<open>auto intro!: pok_eat\<close>)
  qed
qed

lemma assign_ok:
  assumes i: "wt P i < n"
  shows "pok P (Suc (wt P i)) stmt_wf (rbind (p_path n P [first] i) (\<lambda>(path, j).
     rbind (eat P TEq ''='' j) (\<lambda>k.
       if peek P k = TInvoke
       then rbind (invoke_args (p_expr n) n P (k + 1)) (\<lambda>((nm, args), l). Ok (SAssign path (EInvoke nm args), l))
       else rbind (p_expr n P 0 k) (\<lambda>(e, l). Ok (SAssign path e, l)))))"
proof (rule pok_bind [OF p_path_ok [OF i]], simp, simp, rule pok_eat, simp)
  fix path :: "string list" and j assume j: "wt P j < Suc (wt P i)" "path \<noteq> []" "wt P (Suc j) < wt P j"
  then have jn: "wt P (Suc j) < n" using i by simp
  have jn': "wt P (Suc (Suc j)) < n" using jn wt_Suc_le [of P "Suc j"] by simp
  have 1: "pok P (Suc (wt P i)) stmt_wf (rbind (invoke_args (p_expr n) n P (Suc (Suc j)))
      (\<lambda>((nm, args), l). Ok (SAssign path (EInvoke nm args), l)))"
    by (rule pok_bind [OF invoke_args_ok [OF p_expr_ok jn' jn']])
      (use j wt_Suc_le [of P "Suc j"] in auto)
  have 2: "pok P (Suc (wt P i)) stmt_wf (rbind (p_expr n P 0 (Suc j)) (\<lambda>(e, l). Ok (SAssign path e, l)))"
    by (rule pok_bind [OF expr_ok [OF jn]]) (use j in auto)
  from 1 2 show "pok P (Suc (wt P i)) stmt_wf (if peek P (Suc j) = TInvoke
       then rbind (invoke_args (p_expr n) n P (Suc j + 1))
         (\<lambda>((nm, args), l). Ok (SAssign path (EInvoke nm args), l))
       else rbind (p_expr n P 0 (Suc j)) (\<lambda>(e, l). Ok (SAssign path e, l)))"
    by simp
qed

lemma p_stmt_ok: "st_ok n (p_stmt n)"
proof (induction n)
  case (Suc n)
  show ?case unfolding st_ok_def
  proof (intro allI impI)
    fix P i assume i: "wt P i < Suc n"
    have sub: "wt P (Suc i) < n" "wt P (Suc i) < wt P i" if "peek P i \<noteq> TNewline"
      using wt_Suc [OF that] i by auto
    have sub2: "wt P (Suc (Suc i)) < n" "wt P (Suc (Suc i)) < wt P i" if "peek P i \<noteq> TNewline"
      using wt_Suc2 [OF that] i by auto
    show "pok P (wt P i) stmt_wf (p_stmt (Suc n) P i)"
    proof (cases "peek P i")
      case TEmit
      with sub show ?thesis by (auto intro!: pok_bind [OF p_pair_ok])
    next
      case TRespond
      with sub show ?thesis by (auto intro!: pok_bind [OF p_pair_ok])
    next
      case TInvoke
      with sub show ?thesis by (auto intro!: pok_bind [OF invoke_args_ok [OF p_expr_ok]])
    next
      case TIf
      with sub pok_weaken [OF if_ok [OF Suc, of P "Suc i"], of "wt P i"] show ?thesis by simp
    next
      case TFor
      show ?thesis
      proof (cases "peek P (Suc i)")
        case (TIdent v)
        with TFor sub2 pok_weaken [OF for_ok [OF Suc, of P "Suc (Suc i)" v], of "wt P i"]
        show ?thesis by simp
      qed (use TFor in simp_all)
    next
      case (TIdent first)
      with sub pok_weaken [OF assign_ok [of P "Suc i" n first], of "wt P i"] show ?thesis by simp
    qed simp_all
  qed
qed (simp add: st_ok_def)

lemmas stmt_ok = p_stmt_ok [unfolded st_ok_def, rule_format]

section \<open>Literals and programs\<close>

definition lit_ok :: "nat \<Rightarrow> lit_parser \<Rightarrow> bool" where
  "lit_ok n lit \<longleftrightarrow> (\<forall>P i. wt P i < n \<longrightarrow> pok P (wt P i) (\<lambda>l. json_wf (fst l)) (lit P i))"

lemma lit_okD: "lit_ok n lit \<Longrightarrow> wt P i < n \<Longrightarrow> pok P (wt P i) (\<lambda>l. json_wf (fst l)) (lit P i)"
  by (simp add: lit_ok_def)

lemma p_lit_items_ok:
  assumes lit: "lit_ok m lit"
  shows "wt P i < n \<Longrightarrow> wt P i < m \<Longrightarrow> list_all json_wf items \<Longrightarrow>
    pok P (wt P i) (\<lambda>l. json_wf (fst l)) (p_lit_items lit n P items i)"
proof (induction n arbitrary: items i)
  case (Suc n)
  have "pok P (wt P i) (\<lambda>l. json_wf (fst l)) (p_lit_items lit n P (items @ [v]) (after_comma P j))"
    if "wt P j < wt P i" "json_wf v" for v j
    using Suc.prems that wt_after_comma [of P j] by (intro pok_weaken [OF Suc.IH]) auto
  then have "pok P (wt P i) (\<lambda>l. json_wf (fst l)) (rbind (lit P i)
      (\<lambda>((v, _, _), j). p_lit_items lit n P (items @ [v]) (after_comma P j)))"
    by (intro pok_bind [OF lit_okD [OF lit Suc.prems(2)]]) auto
  with Suc.prems wt_Suc [of P i] show ?case by simp
qed simp

lemma p_lit_fields_ok:
  assumes lit: "lit_ok m lit"
  shows "wt P i < n \<Longrightarrow> wt P i < m \<Longrightarrow> vars_wf fs \<Longrightarrow>
    pok P (wt P i) (\<lambda>l. json_wf (fst l)) (p_lit_fields lit n P fs spans i)"
proof (induction n arbitrary: fs spans i)
  case (Suc n)
  have "pok P (wt P i) (\<lambda>l. json_wf (fst l)) (rbind (word P ''key'' i) (\<lambda>(key, j).
      rbind (eat P TColon '':'' j) (\<lambda>k. rbind (lit P k) (\<lambda>((v, _, _), l).
        p_lit_fields lit n P (om_insert key v fs) (spans @ [(key, (p_pos P k, p_pos P l))])
          (after_comma P l)))))"
  proof (rule pok_bind [OF pok_word], simp, rule pok_eat, simp)
    fix key j assume j: "wt P j < wt P i" "wt P (Suc j) < wt P j"
    have "pok P (wt P i) (\<lambda>l. json_wf (fst l)) (p_lit_fields lit n P (om_insert key v fs) sps (after_comma P l))"
      if "wt P l < wt P i" "json_wf v" for v l sps
      using Suc.prems that wt_after_comma [of P l] by (intro pok_weaken [OF Suc.IH]) auto
    then show "pok P (wt P i) (\<lambda>l. json_wf (fst l)) (rbind (lit P (Suc j)) (\<lambda>((v, _, _), l).
        p_lit_fields lit n P (om_insert key v fs) (spans @ [(key, (p_pos P (Suc j), p_pos P l))])
          (after_comma P l)))"
      using j Suc.prems by (intro pok_bind [OF lit_okD [OF lit]]) auto
  qed
  with Suc.prems wt_Suc [of P i] show ?case by simp
qed simp

lemma p_lit_ok: "lit_ok n (p_lit n)"
proof (induction n)
  case (Suc n)
  show ?case unfolding lit_ok_def
  proof (intro allI impI)
    fix P i assume i: "wt P i < Suc n"
    have sub: "wt P (Suc i) < wt P i" "wt P (Suc (Suc i)) < wt P i" if "peek P i \<noteq> TNewline"
      using wt_Suc [OF that] wt_Suc2 [OF that] by auto
    have skip: "wt P (skip_newlines P (Suc i)) < n" "wt P (skip_newlines P (Suc i)) < wt P i"
      if "peek P i \<noteq> TNewline"
      using sub [OF that] wt_skip [of P "Suc i"] i by auto
    show "pok P (wt P i) (\<lambda>l. json_wf (fst l)) (p_lit (Suc n) P i)"
    proof (cases "peek P i")
      case TLBrack
      with skip pok_weaken [OF p_lit_items_ok [OF Suc, of P "skip_newlines P (Suc i)" n "[]"], of "wt P i"]
      show ?thesis by simp
    next
      case TLBrace
      with skip pok_weaken [OF p_lit_fields_ok [OF Suc, of P "skip_newlines P (Suc i)" n "[]" "[]"], of "wt P i"]
      show ?thesis by simp
    next
      case TMinus
      with sub show ?thesis by (cases "peek P (Suc i)") simp_all
    qed (use sub in simp_all)
  qed
qed (simp add: lit_ok_def)

text \<open>The same promise for the optional literal of a surface line.\<close>

definition sok :: "pctx \<Rightarrow> nat \<Rightarrow> ((surface_entry \<times> nat) option, perr) result \<Rightarrow> bool" where
  "sok P w r \<longleftrightarrow>
     r \<noteq> Err OutOfFuel \<and> (is_ascii (p_src P) \<longrightarrow> r \<noteq> Panic) \<and>
     (\<forall>e j. r = Ok (Some (e, j)) \<longrightarrow> wt P j < w \<and> json_wf (se_value e))"

lemma p_surface_ok:
  assumes "wt P i < n"
  shows "sok P (wt P i) (p_surface n P i)"
proof (cases "\<exists>name. peek P i = TIdent name \<and> is_surface_name name \<and> peek2 P i = Some TEq")
  case True
  then obtain name where name: "peek P i = TIdent name" "is_surface_name name" "peek2 P i = Some TEq"
    by blast
  then have i: "wt P (i + 2) < wt P i" using wt_Suc2 [of P i] by simp
  with assms lit_okD [OF p_lit_ok, of P "i + 2" n]
  have "pok P (wt P (i + 2)) (\<lambda>l. json_wf (fst l)) (p_lit n P (i + 2))" by simp
  with i name show ?thesis
    by (auto simp: p_surface_def sok_def pok_def try_literal_def rbind_eq_Err rbind_eq_Panic rbind_eq_Ok
        split: result.splits perr.splits option.splits if_splits)
next
  case False
  then show ?thesis by (auto simp: p_surface_def sok_def split: tok.split)
qed

definition program_wf :: "program \<Rightarrow> bool" where
  "program_wf pg \<longleftrightarrow> stmts_wf (pg_stmts pg) \<and> (\<forall>e \<in> set (pg_surface pg). json_wf (se_value e))"

definition gok :: "pctx \<Rightarrow> (program, perr) result \<Rightarrow> bool" where
  "gok P r \<longleftrightarrow> r \<noteq> Err OutOfFuel \<and> (is_ascii (p_src P) \<longrightarrow> r \<noteq> Panic) \<and>
     (\<forall>pg. r = Ok pg \<longrightarrow> program_wf pg)"

lemma gok_bind:
  assumes "pok P w Q m" and "\<And>a j. wt P j < w \<Longrightarrow> Q a \<Longrightarrow> gok P (f (a, j))"
  shows "gok P (rbind m f)"
  using assms by (cases m) (auto simp: pok_def gok_def)

lemma p_directive_ok: "peek P i \<noteq> TNewline \<Longrightarrow> pok P (wt P i) (\<lambda>_. True) (p_directive P complaint i)"
  using wt_Suc2 [of P i] by (simp add: p_directive_def split: tok.split)

lemma skip_newlines_stop: "skip_newlines P i < length (p_toks P) \<Longrightarrow> peek P (skip_newlines P i) \<noteq> TNewline"
proof (induction P i rule: skip_newlines.induct)
  case (1 P i)
  then show ?case
    by (cases "i < length (p_toks P) \<and> peek P i = TNewline")
      (subst (asm) skip_newlines.simps, subst skip_newlines.simps, simp)+
qed

lemma p_program_ok: "Suc (wt P i) < n \<Longrightarrow> program_wf pg \<Longrightarrow> gok P (p_program n P pg i)"
proof (induction n arbitrary: pg i)
  case (Suc n)
  let ?j = "skip_newlines P i"
  have j: "wt P ?j < n" using Suc.prems wt_skip [of P i] by simp
  have again: "gok P (p_program n P pg' k)" if "wt P k < wt P ?j" "program_wf pg'" for pg' k
    using Suc.IH that j by simp
  have dir: "gok P (rbind (p_directive P c ?j) (\<lambda>(s, k). p_program n P (g s) k))"
    if "peek P ?j \<noteq> TNewline" "\<And>s. program_wf (g s)" for c g
    using that again by (intro gok_bind [OF p_directive_ok]) auto
  have stmt: "gok P (rbind (p_stmt n P ?j) (\<lambda>(s, k). p_program n P (pg\<lparr>pg_stmts := pg_stmts pg @ [s]\<rparr>) k))"
    using Suc.prems(2) by (intro gok_bind [OF stmt_ok [OF j]]) (auto intro!: again simp: program_wf_def)
  have surface: "gok P (p_program n P (pg\<lparr>pg_stmts := pg_stmts pg @ [SAssign [se_name e] (ELit (se_value e))],
      pg_surface := pg_surface pg @ [e]\<rparr>) k)" if "wt P k < wt P ?j" "json_wf (se_value e)" for e k
    using Suc.prems(2) that by (intro again) (auto simp: program_wf_def)
  have rest: "gok P (rbind (p_surface n P ?j) (\<lambda>r. case r of
        Some (e, k) \<Rightarrow> p_program n P (pg\<lparr>pg_stmts := pg_stmts pg @ [SAssign [se_name e] (ELit (se_value e))],
          pg_surface := pg_surface pg @ [e]\<rparr>) k
      | None \<Rightarrow> rbind (p_stmt n P ?j) (\<lambda>(s, k). p_program n P (pg\<lparr>pg_stmts := pg_stmts pg @ [s]\<rparr>) k)))"
    using p_surface_ok [OF j] stmt surface
    by (cases "p_surface n P ?j") (auto simp: sok_def gok_def split: option.split)
  have upd: "program_wf (pg\<lparr>pg_source := a\<rparr>)" "program_wf (pg\<lparr>pg_tool := a\<rparr>)"
    "program_wf (pg\<lparr>pg_driver := a\<rparr>)" "program_wf (pg\<lparr>pg_api := a\<rparr>)" for a
    using Suc.prems(2) by (simp_all add: program_wf_def)
  from Suc.prems(2) have "gok P (Ok pg)" by (simp add: gok_def)
  with dir [OF _ upd(1)] dir [OF _ upd(2)] dir [OF _ upd(3)] dir [OF _ upd(4)] rest show ?case
    by (simp add: Let_def del: rbind.simps)
qed simp

lemma finish_program_wf [simp]: "program_wf (finish_program pg) = program_wf pg"
  by (simp add: finish_program_def program_wf_def split_beta)

lemma parse_ok:
  shows parse_not_OutOfFuel: "parse src \<noteq> Err OutOfFuel"
    and parse_ascii: "is_ascii src \<Longrightarrow> parse src \<noteq> Panic"
    and parse_wf: "parse src = Ok pg \<Longrightarrow> program_wf pg"
proof -
  have "gok P (p_program (parse_fuel (p_toks P)) P empty_program 0)" for P
    by (rule p_program_ok) (simp_all add: wt_def parse_fuel_def program_wf_def empty_program_def)
  from this [of "\<lparr>p_toks = _, p_src = src\<rparr>"]
  have p: "gok \<lparr>p_toks = toks, p_src = src\<rparr>
      (p_program (parse_fuel toks) \<lparr>p_toks = toks, p_src = src\<rparr> empty_program 0)" for toks
    by simp
  show "parse src \<noteq> Err OutOfFuel"
    using p lex_fuel [of src] by (auto simp: parse_def gok_def rbind_eq_Err)
  show "is_ascii src \<Longrightarrow> parse src \<noteq> Panic"
    using p lex_ascii [of src] by (auto simp: parse_def gok_def rbind_eq_Panic)
  show "parse src = Ok pg \<Longrightarrow> program_wf pg"
    using p by (auto simp: parse_def gok_def rbind_eq_Ok)
qed

end
