(* ===== verification/Wf.thy ===== *)
theory Wf
  imports Sims Parser_Facts
begin

text \<open>
  The type invariant of the interpreter: every value it computes, every variable it binds and
  every document it emits is well formed (object keys in order, numbers in range), so the
  \<open>BTreeMap\<close> model of objects is never left. The same induction shows that the interpreter has
  no panic of its own.
\<close>

section \<open>Values\<close>

lemma json_wf_index: "json_wf v \<Longrightarrow> json_wf (value_index v k)"
  by (cases v) (auto simp: value_index_def vars_wf_get split: option.split)

lemma get_or_null_wf: "vars_wf m \<Longrightarrow> json_wf (get_or_null m k)"
  by (auto simp: get_or_null_def vars_wf_get split: option.split)

lemma item_fields_wf: "json_wf v \<Longrightarrow> vars_wf (item_fields v)"
  by (cases v) (auto simp: item_fields_def)

lemma arg_wf: "list_all json_wf args \<Longrightarrow> json_wf (arg args i)"
  by (auto simp: arg_def list_all_length)

lemma read_field_wf: "json_wf b \<Longrightarrow> read_field b f safe = Ok v \<Longrightarrow> json_wf v"
  by (auto simp: read_field_def list_all_iff json_wf_index get_or_null_wf split: json.splits if_splits)

lemma read_index_wf: "json_wf b \<Longrightarrow> json_wf (read_index b k)"
  by (auto simp: read_index_def Let_def list_all_length get_or_null_wf split: json.splits option.splits)

lemma apply_unop_wf: "json_wf (apply_unop uop v)"
  by (auto simp: apply_unop_def split: unop.split option.split)

lemma strict_op_wf: "json_wf l \<Longrightarrow> json_wf r \<Longrightarrow> json_wf (strict_op W bop l r)"
  by (auto simp: strict_op_def b_in_def b_compare_def b_add_def b_arith_def
      split: binop.split json.split option.split)

lemma builtin_wf:
  assumes "list_all json_wf args" and "builtin W name args = Ok v"
  shows "json_wf v"
proof -
  have "json_wf (b_num (arg args 0))"
    using arg_wf [OF assms(1), of 0] by (auto simp: b_num_def split: json.split option.split)
  moreover have "json_wf (case arg args 0 of VString s \<Rightarrow> VString (trim s) | v \<Rightarrow> v)"
    using arg_wf [OF assms(1), of 0] by (auto split: json.split)
  moreover have "json_wf (case_fn f W v)" "json_wf (b_len v)" "json_wf (b_split v w)"
    "json_wf (b_join W v w)" "json_wf (b_replace v w x)" "json_wf (b_round v w)" for f v w x
    by (auto simp: case_fn_def b_len_def b_split_def b_join_def b_replace_def b_round_def Let_def
        list_all_iff split: json.split option.split)
  ultimately show ?thesis
    using assms(2) by (auto simp: builtin_def split: if_splits option.splits)
qed

lemma builtin_not_Panic: "builtin W name args \<noteq> Panic"
  by (simp add: builtin_def)

lemma read_field_not_Panic: "read_field b f safe \<noteq> Panic"
  by (auto simp: read_field_def split: json.splits)

lemma set_path_wf: "json_wf base \<Longrightarrow> json_wf v \<Longrightarrow> json_wf (set_path base path v)"
proof (induction base path v rule: set_path.induct)
  case (2 base k v)
  then show ?case by (auto intro: item_fields_wf)
next
  case (3 base k k' ks v)
  let ?n = "case om_get (item_fields base) k of Some w \<Rightarrow> w | None \<Rightarrow> VObject []"
  have "json_wf ?n"
    using vars_wf_get [OF item_fields_wf [OF 3(2)]] by (auto split: option.split)
  with 3 show ?case by (auto simp: Let_def intro: item_fields_wf)
qed simp

lemma vars_wf_merge: "vars_wf m \<Longrightarrow> vars_wf fs \<Longrightarrow> vars_wf (om_insert_all fs m)"
  by (rule vars_wf_insert_all) (auto simp: vars_wf_def)

lemma vars_wf_restore:
  "vars_wf m \<Longrightarrow> (\<And>k v. (k, Some v) \<in> set ks \<Longrightarrow> json_wf v) \<Longrightarrow> vars_wf (om_restore ks m)"
  by (induction ks m rule: om_restore.induct) (auto intro: vars_wf_insert vars_wf_remove)

section \<open>States\<close>

definition ctx_wf :: "ctx \<Rightarrow> bool" where
  "ctx_wf c \<longleftrightarrow>
     vars_wf (vars c) \<and> (\<forall>x \<in> set (emits c). json_wf (snd x)) \<and>
     (\<forall>a b. response c = Some (a, b) \<longrightarrow> json_wf a \<and> json_wf b)"

text \<open>The cached programs are well formed; with \<open>np\<close> the secret store never panics.\<close>

definition engine_wf :: "bool \<Rightarrow> engine \<Rightarrow> bool" where
  "engine_wf np e \<longleftrightarrow>
     (\<forall>k prog. om_get (cache e) k = Some prog \<longrightarrow> program_wf prog) \<and>
     (np \<longrightarrow> (\<forall>r. secrets e r \<noteq> Panic))"

definition st_wf :: "bool \<Rightarrow> st \<Rightarrow> bool" where
  "st_wf np s \<longleftrightarrow> ctx_wf (fst s) \<and> engine_wf np (snd s)"

lemma st_wf_vars: "st_wf np s \<Longrightarrow> vars_wf (vars (fst s))"
  by (simp add: st_wf_def ctx_wf_def)

lemma st_wf_upd_vars: "st_wf np s \<Longrightarrow> vars_wf (f (vars (fst s))) \<Longrightarrow> st_wf np (upd_vars f s)"
  by (simp add: st_wf_def ctx_wf_def upd_vars_def)

locale interp_wf =
  fixes np :: bool and rs :: service_run
  assumes service_wf: "vars_wf args \<Longrightarrow>
    yields np (engine_wf np) (\<lambda>x. json_wf (fst x) \<and> (\<forall>y \<in> set (snd x). json_wf (snd y))) (rs name args)"
begin

abbreviation Y :: "('a \<Rightarrow> bool) \<Rightarrow> 'a interp \<Rightarrow> bool" where
  "Y \<equiv> yields np (st_wf np)"

lemma set_var_wf: "json_wf v \<Longrightarrow> Y (\<lambda>_. True) (set_var k v)"
  unfolding set_var_def
  by (rule yields_mupd) (auto intro!: st_wf_upd_vars vars_wf_insert st_wf_vars)

lemma push_emits_wf: "\<forall>y \<in> set ems. json_wf (snd y) \<Longrightarrow> Y (\<lambda>_. True) (push_emits ems)"
  unfolding push_emits_def by (rule yields_mupd) (auto simp: st_wf_def ctx_wf_def)

lemma invoke_wf:
  assumes "vars_wf args"
  shows "Y json_wf (invoke rs name args)"
  unfolding invoke_def
proof (rule yields_mbind)
  show "Y (\<lambda>x. json_wf (fst x) \<and> (\<forall>y \<in> set (snd x). json_wf (snd y))) (on_engine (rs name args))"
    using service_wf [OF assms, of name]
    by (auto simp: yields_def on_engine_def st_wf_def split_beta)
qed (auto intro!: yields_mbind [OF push_emits_wf] yields_mret split: prod.split)

lemma scoped_wf:
  assumes "Y json_wf cond" and "vars_wf fs"
  shows "Y json_wf (scoped fs cond)"
  unfolding scoped_def Let_def
proof (rule yields_mbind [OF yields_mget [of _ "st_wf np"]])
  fix s assume s: "st_wf np s"
  have saved: "json_wf v" if "(k, Some v) \<in> set (map (\<lambda>k. (k, om_get (vars (fst s)) k)) (map fst fs))" for k v
    using that vars_wf_get [OF st_wf_vars [OF s]] by fastforce
  show "Y json_wf (mbind (mupd (upd_vars (om_insert_all fs))) (\<lambda>_. mbind cond (\<lambda>v.
      mbind (mupd (upd_vars (om_restore (map (\<lambda>k. (k, om_get (vars (fst s)) k)) (map fst fs)))))
        (\<lambda>_. mret v))))"
  proof (rule yields_mbind [OF yields_mupd])
    show "st_wf np t \<Longrightarrow> st_wf np (upd_vars (om_insert_all fs) t)" for t
      using assms(2) by (auto intro!: st_wf_upd_vars vars_wf_merge st_wf_vars)
  qed (use saved in \<open>auto intro!: yields_mbind [OF assms(1)] yields_mbind [OF yields_mupd] yields_mret
      st_wf_upd_vars vars_wf_restore st_wf_vars\<close>)
qed assumption

lemma filter_items_wf:
  assumes "Y json_wf cond"
  shows "list_all json_wf items \<Longrightarrow> list_all json_wf out \<Longrightarrow> Y json_wf (filter_items cond items out)"
  by (induction items arbitrary: out)
    (auto intro!: yields_mret yields_mbind [OF scoped_wf [OF assms]] item_fields_wf)

lemma eval_call_wf:
  assumes "list_all json_wf vals"
  shows "Y json_wf (eval_call W name vals)"
proof -
  have "Y json_wf (mbind mget (\<lambda>s. mlift (map_err RSecret (rbind (secrets (snd s) reference) (\<lambda>v. Ok (VString v))))))"
    for reference
    by (auto simp: yields_def mbind_def rbind_eq_Ok rbind_eq_Panic st_wf_def engine_wf_def)
  with assms show ?thesis
    by (auto simp: eval_call_def builtin_not_Panic intro!: yields_mfail yields_mlift builtin_wf
        split: option.split list.split)
qed

lemma eval_all_wf:
  "rs' = rs \<Longrightarrow> expr_wf e \<Longrightarrow> Y json_wf (eval W rs' e)"
  "rs' = rs \<Longrightarrow> list_all fpart_wf ps \<Longrightarrow> Y (\<lambda>_. True) (eval_fparts W rs' ps s)"
  "rs' = rs \<Longrightarrow> pairs_wf fs \<Longrightarrow> vars_wf m \<Longrightarrow> Y vars_wf (eval_fields W rs' fs m)"
  "rs' = rs \<Longrightarrow> list_all expr_wf es \<Longrightarrow> list_all json_wf vs \<Longrightarrow> Y (list_all json_wf) (eval_list W rs' es vs)"
proof (induction W rs' e and W rs' ps s and W rs' fs m and W rs' es vs
    rule: eval_eval_fparts_eval_fields_eval_list.induct)
  case (2 W rs' name)
  show ?case
    by (auto intro!: yields_mbind [OF yields_mget [of _ "st_wf np"]] yields_mret get_or_null_wf st_wf_vars)
next
  case (10 W rs' base cond)
  then show ?case
    by (auto intro!: yields_mbind yields_mret filter_items_wf split: json.split)
next
  case (13 W rs' bop l r)
  have t: "truthy (VBool True)" "\<not> truthy VNull" by (simp_all add: truthy_def)
  have r: "Y json_wf (eval W rs r)"
    using 13(2) [OF _ t(2)] 13(3) [OF _ t(1)] 13(4-) by (cases bop) simp_all
  have l: "Y json_wf (eval W rs l)" using 13 by simp
  have "Y json_wf (case bop of BAnd \<Rightarrow> if truthy lv then eval W rs r else mret lv
      | BOr \<Rightarrow> if truthy lv then mret lv else eval W rs r
      | BCoalesce \<Rightarrow> if lv = VNull then eval W rs r else mret lv
      | _ \<Rightarrow> mbind (eval W rs r) (mret \<circ> strict_op W bop lv))" if "json_wf lv" for lv
    using r that
    by (cases bop) (auto simp: comp_def intro!: yields_mret yields_mbind [OF r] strict_op_wf)
  with l 13 show ?case by (simp only: eval.simps) (rule yields_mbind)
next
  case (8 W rs' base key)
  then show ?case
    by (auto simp: comp_def read_index_wf intro!: yields_mret elim!: yields_mbind)
next
  case (7 W rs' base f safe)
  then show ?case
    by (auto simp: read_field_not_Panic intro!: yields_mlift elim!: yields_mbind dest: read_field_wf)
qed (auto simp: comp_def apply_unop_wf intro!: yields_mret invoke_wf eval_call_wf elim!: yields_mbind)

lemmas eval_wf = eval_all_wf(1) [OF refl]
  and eval_fields_wf = eval_all_wf(3) [OF refl]

lemma assign_wf:
  assumes "path \<noteq> []" and "json_wf v"
  shows "Y (\<lambda>_. True) (assign path v)"
proof -
  have "Y (\<lambda>_. True) (mbind mget (\<lambda>s. set_var k (set_path
      (case om_get (vars (fst s)) k of Some w \<Rightarrow> w | None \<Rightarrow> VObject []) ks v)))" for k ks
  proof (rule yields_mbind [OF yields_mget [of _ "st_wf np"]])
    fix s assume "st_wf np s"
    from vars_wf_get [OF st_wf_vars [OF this], of k] assms(2)
    show "Y (\<lambda>_. True) (set_var k (set_path
        (case om_get (vars (fst s)) k of Some w \<Rightarrow> w | None \<Rightarrow> VObject []) ks v))"
      by (auto intro!: set_var_wf set_path_wf split: option.split)
  qed assumption
  with assms set_var_wf show ?thesis by (auto simp: assign_def Let_def split: list.split)
qed

lemma emit_wf: "Y json_wf m \<Longrightarrow> Y (\<lambda>_. True) (emit v m)"
  by (auto simp: emit_def intro!: yields_mbind push_emits_wf yields_mfail split: json.split)

lemma respond_wf: "json_wf v \<Longrightarrow> json_wf w \<Longrightarrow> Y (\<lambda>_. True) (respond v w)"
  unfolding respond_def by (rule yields_mupd) (auto simp: st_wf_def ctx_wf_def)

lemma merge_vars_wf: "json_wf v \<Longrightarrow> Y (\<lambda>_. True) (merge_vars v)"
  unfolding merge_vars_def
  by (rule yields_mupd) (auto intro!: st_wf_upd_vars vars_wf_merge st_wf_vars item_fields_wf)

lemma for_items_wf:
  "Y (\<lambda>_. True) body \<Longrightarrow> list_all json_wf items \<Longrightarrow> Y (\<lambda>_. True) (for_items var body items)"
  by (induction items) (auto intro!: yields_mret yields_mbind [OF set_var_wf] yields_mbind [of _ _ _ body])

lemma exec_all_wf:
  "rs' = rs \<Longrightarrow> stmt_wf s \<Longrightarrow> Y (\<lambda>_. True) (exec_stmt W rs' s)"
  "rs' = rs \<Longrightarrow> stmts_wf ss \<Longrightarrow> Y (\<lambda>_. True) (exec_block W rs' ss)"
  "rs' = rs \<Longrightarrow> arms_wf arms \<Longrightarrow> Y (\<lambda>_. True) m \<Longrightarrow> Y (\<lambda>_. True) (exec_arms W rs' arms m)"
proof (induction W rs' s and W rs' ss and W rs' arms m rule: exec_stmt_exec_block_exec_arms.induct)
  case (3 W rs' arms otherwise)
  then show ?case by (cases otherwise) (simp_all add: yields_mret del: mret_run)
next
  case (6 W rs' status body)
  then show ?case by (auto intro!: yields_mbind [OF eval_wf] respond_wf)
next
  case (4 W rs' var iter body)
  then show ?case by (auto intro!: yields_mbind [OF eval_wf] for_items_wf yields_mret split: json.split)
next
  case (10 W rs' c sp body arms m)
  then show ?case by (auto intro!: yields_mbind [OF eval_wf])
next
  case (8 W rs' s ss)
  then show ?case by (auto intro!: yields_mbind)
qed (auto intro!: yields_mret yields_mbind [OF eval_wf] yields_mbind [OF eval_fields_wf]
      yields_mbind [OF invoke_wf] assign_wf emit_wf eval_wf merge_vars_wf)

lemmas exec_block_wf = exec_all_wf(2) [OF refl]

end

section \<open>Service calls and runs\<close>

text \<open>No file that parses as VejasScript makes the parser panic.\<close>

definition files_ok :: "world \<Rightarrow> bool" where
  "files_ok W \<longleftrightarrow> (\<forall>p src. w_read W p = Some src \<longrightarrow> parse src \<noteq> Panic)"

lemma engine_wf_upd [simp]:
  "engine_wf np (e\<lparr>depth := n\<rparr>) = engine_wf np e"
  "engine_wf np (e\<lparr>caller_pkg := p\<rparr>) = engine_wf np e"
  "engine_wf np (e\<lparr>exports := x\<rparr>) = engine_wf np e"
  by (simp_all add: engine_wf_def)

lemma exports_of_wf:
  assumes "np \<Longrightarrow> files_ok W"
  shows "yields np (engine_wf np) (\<lambda>_. True) (exports_of W pkg)"
  using assms
  by (auto simp: yields_def exports_of_def files_ok_def Let_def split: option.splits result.splits)

lemma resolve_wf:
  assumes "np \<Longrightarrow> files_ok W"
  shows "yields np (engine_wf np) (\<lambda>_. True) (resolve W name)"
proof (rule yieldsI)
  fix e assume e: "engine_wf np e"
  have "yields np (engine_wf np) (\<lambda>_. True)
      (mbind (exports_of W p) (\<lambda>l. if v \<in> set l then mret (p, v) else mfail (RNotExported p v)))" for p v
    using exports_of_wf [OF assms] by (auto intro!: yields_mbind yields_mret yields_mfail)
  from yieldsD [OF this e] e
  show "engine_wf np (snd (resolve W name e)) \<and> (\<forall>a. fst (resolve W name e) = Ok a \<longrightarrow> True) \<and>
      (np \<longrightarrow> fst (resolve W name e) \<noteq> Panic)"
    by (simp add: resolve_def split: option.split prod.split)
qed

lemma service_stmts_wf:
  assumes "np \<Longrightarrow> files_ok W"
  shows "yields np (engine_wf np) stmts_wf (service_stmts W pkg svc)"
proof (rule yieldsI)
  fix e assume e: "engine_wf np e"
  have "load_service W e pkg svc = Ok prog \<Longrightarrow> program_wf prog" for prog
    by (auto simp: load_service_def Let_def dest: parse_wf split: option.splits)
  moreover have "np \<Longrightarrow> load_service W e pkg svc \<noteq> Panic"
    using assms by (auto simp: load_service_def files_ok_def Let_def split: option.splits)
  moreover have "om_get (cache e) (pkg @ '':'' @ svc) = Some prog \<Longrightarrow> program_wf prog" for prog
    using e by (simp add: engine_wf_def)
  ultimately show "engine_wf np (snd (service_stmts W pkg svc e)) \<and>
      (\<forall>a. fst (service_stmts W pkg svc e) = Ok a \<longrightarrow> stmts_wf a) \<and>
      (np \<longrightarrow> fst (service_stmts W pkg svc e) \<noteq> Panic)"
    using e
    by (auto simp: service_stmts_eq engine_wf_def om_get_insert program_wf_def rbind_eq_Ok rbind_eq_Panic
        split: option.split result.split)
qed

lemma service_ctx_wf: "vars_wf args \<Longrightarrow> ctx_wf (service_ctx args)"
  by (auto simp: service_ctx_def ctx_wf_def)

lemma service_call_wf:
  assumes W: "np \<Longrightarrow> files_ok W" and args: "vars_wf args"
    and exec: "\<And>ss. stmts_wf ss \<Longrightarrow> yields np (st_wf np) (\<lambda>_. True) (exec ss)"
  shows "yields np (engine_wf np) (\<lambda>x. json_wf (fst x) \<and> (\<forall>y \<in> set (snd x). json_wf (snd y)))
    (service_call W exec args ps)"
proof (rule yieldsI)
  fix e assume e: "engine_wf np e"
  obtain r e3 where ss: "service_stmts W (fst ps) (snd ps) (e\<lparr>depth := depth e + 1\<rparr>) = (r, e3)"
    by (meson surj_pair)
  have "yields np (engine_wf np) stmts_wf (service_stmts W (fst ps) (snd ps))"
    by (rule service_stmts_wf) (rule W)
  from yieldsD [OF this, of "e\<lparr>depth := depth e + 1\<rparr>"] e ss
  have e3: "engine_wf np e3" "\<And>ss. r = Ok ss \<Longrightarrow> stmts_wf ss" "np \<Longrightarrow> r \<noteq> Panic"
    by auto
  show "engine_wf np (snd (service_call W exec args ps e)) \<and>
      (\<forall>x. fst (service_call W exec args ps e) = Ok x \<longrightarrow>
         json_wf (fst x) \<and> (\<forall>y \<in> set (snd x). json_wf (snd y))) \<and>
      (np \<longrightarrow> fst (service_call W exec args ps e) \<noteq> Panic)"
  proof (cases r)
    case (Ok stmts)
    let ?s = "(service_ctx args, e3\<lparr>caller_pkg := fst ps\<rparr>)"
    have s: "st_wf np ?s" using e3 args by (simp add: st_wf_def service_ctx_wf)
    obtain q c e4 where ex: "exec stmts ?s = (q, (c, e4))" by (metis surj_pair)
    with yieldsD [OF exec [OF e3(2) [OF Ok]] s]
    have "ctx_wf c" "engine_wf np e4" "np \<Longrightarrow> q \<noteq> Panic" by (auto simp: st_wf_def)
    with Ok ss ex show ?thesis
      by (cases q) (auto simp: service_call_def ctx_wf_def intro: vars_wf_remove)
  qed (use ss e3 in \<open>auto simp: service_call_def\<close>)
qed

lemma service_body_wf:
  assumes W: "np \<Longrightarrow> files_ok W" and args: "vars_wf args"
    and exec: "\<And>ss. stmts_wf ss \<Longrightarrow> yields np (st_wf np) (\<lambda>_. True) (exec ss)"
  shows "yields np (engine_wf np) (\<lambda>x. json_wf (fst x) \<and> (\<forall>y \<in> set (snd x). json_wf (snd y)))
    (service_body W exec name args)"
proof (rule yieldsI)
  fix e assume e: "engine_wf np e"
  have "yields np (engine_wf np) (\<lambda>x. json_wf (fst x) \<and> (\<forall>y \<in> set (snd x). json_wf (snd y)))
      (mbind (resolve W name) (service_call W exec args))"
    using resolve_wf [OF W] service_call_wf [OF W args exec] by (rule yields_mbind)
  from yieldsD [OF this e] e
  show "engine_wf np (snd (service_body W exec name args e)) \<and>
      (\<forall>x. fst (service_body W exec name args e) = Ok x \<longrightarrow>
         json_wf (fst x) \<and> (\<forall>y \<in> set (snd x). json_wf (snd y))) \<and>
      (np \<longrightarrow> fst (service_body W exec name args e) \<noteq> Panic)"
    by (simp add: service_body_eq del: split_paired_All)
qed

lemma interp_wf_service_n:
  assumes "np \<Longrightarrow> files_ok W"
  shows "interp_wf np (run_service_n W n)"
proof (induction n)
  case 0
  show ?case by unfold_locales (simp add: yields_def)
next
  case (Suc n)
  show ?case
  proof
    fix args :: "json omap" and name
    assume args: "vars_wf args"
    have "yields np (engine_wf np) (\<lambda>x. json_wf (fst x) \<and> (\<forall>y \<in> set (snd x). json_wf (snd y)))
        (service_body W (exec_block W (run_service_n W n)) name args)"
      using assms args interp_wf.exec_block_wf [OF Suc] by (rule service_body_wf)
    moreover have "run_service_n W (Suc n) name args =
        service_body W (exec_block W (run_service_n W n)) name args"
      by (rule ext) simp
    ultimately show "yields np (engine_wf np) (\<lambda>x. json_wf (fst x) \<and> (\<forall>y \<in> set (snd x). json_wf (snd y)))
        (run_service_n W (Suc n) name args)"
      by (simp only:)
  qed
qed

interpretation wf: interp_wf False "run_service W" for W
  unfolding run_service_def by (rule interp_wf_service_n) simp

lemma interp_wf_run_service: "files_ok W \<Longrightarrow> interp_wf True (run_service W)"
  unfolding run_service_def by (rule interp_wf_service_n)

lemma initial_ctx_wf: "json_wf event \<Longrightarrow> ctx_wf (initial_ctx event)"
  by (auto simp: initial_ctx_def ctx_wf_def intro!: vars_wf_insert vars_wf_merge item_fields_wf)

end
