(* ===== verification/Secrets.thy ===== *)
theory Secrets
  imports Eval
begin

text \<open>
  Secret resolution (\<open>core/src/secrets.rs\<close>): the trait \<open>SecretStore\<close>, its backends
  \<open>FileStore\<close>, \<open>EnvStore\<close> and \<open>VaultStore\<close>, the wrapper \<open>RedactedStore\<close> every shadow run
  resolves through, and the choice of \<open>default_store\<close>. The environment, the file system and
  the HTTP client are parameters.
\<close>

section \<open>The file backend\<close>

datatype fentry = Content string | Missing | Unreadable string

type_synonym fs = "path \<Rightarrow> fentry"

text \<open>
  What the operating system answers to the calls of \<open>FileStore::set\<close>: the error of writing the
  temporary file (with what it left there), of the rename (with its error number), and of the
  write in place; and \<open>serde_json\<close>.
\<close>

record os =
  os_write_tmp :: "(string \<times> fentry) option"
  os_rename :: "(int \<times> string) option"
  os_write_in_place :: "(string \<times> fentry) option"
  os_print :: "json \<Rightarrow> string"
  os_parse :: "string \<Rightarrow> json option"

definition not_an_object :: "path \<Rightarrow> string" where
  "not_an_object p = ''secrets file '' @ str_join ''/'' p @ '' is not a JSON object''"

definition file_load :: "os \<Rightarrow> fs \<Rightarrow> path \<Rightarrow> (json omap, string) result" where
  "file_load S fs p =
     (case fs p of
        Content s \<Rightarrow>
          if trim s = [] then Ok []
          else (case os_parse S s of Some (VObject m) \<Rightarrow> Ok m | _ \<Rightarrow> Err (not_an_object p))
      | Missing \<Rightarrow> Ok []
      | Unreadable e \<Rightarrow> Err e)"

definition not_set :: "string \<Rightarrow> path \<Rightarrow> string" where
  "not_set r p = ''secret '' @ r @ '' not set (panel Secrets card, or '' @ str_join ''/'' p @ '')''"

definition file_get :: "os \<Rightarrow> fs \<Rightarrow> path \<Rightarrow> secret_get" where
  "file_get S fs p r =
     rbind (file_load S fs p) (\<lambda>m.
       case om_get m r of
         Some (VString s) \<Rightarrow> if s = [] then Err (not_set r p) else Ok s
       | _ \<Rightarrow> Err (not_set r p))"

text \<open>\<open>Path::with_extension\<close>, on the last component.\<close>

definition with_extension :: "path \<Rightarrow> string \<Rightarrow> path" where
  "with_extension p ext =
     (case rev p of
        [] \<Rightarrow> []
      | f # dirs \<Rightarrow>
          (let stem = (case rsplit_once f CHR ''.'' of
                         Some (a, _) \<Rightarrow> if a = [] then f else a | None \<Rightarrow> f)
           in rev ((stem @ ''.'' @ ext) # dirs)))"

definition file_set :: "os \<Rightarrow> path \<Rightarrow> string \<Rightarrow> string \<Rightarrow> (fs, unit, string) stm" where
  "file_set S p r v fs =
     (case file_load S fs p of
        Err e \<Rightarrow> (Err e, fs)
      | Panic \<Rightarrow> (Panic, fs)
      | Ok m \<Rightarrow>
          (let rendered = os_print S (VObject (om_insert r (VString v) m));
               tmp = with_extension p ''tmp'' in
           case os_write_tmp S of
             Some (e, torn) \<Rightarrow> (Err e, fs(tmp := torn))
           | None \<Rightarrow>
               (let fs1 = fs(tmp := Content rendered) in
                case os_rename S of
                  None \<Rightarrow> (Ok (), (fs1(tmp := Missing))(p := Content rendered))
                | Some (code, e) \<Rightarrow>
                    (let fs2 = fs1(tmp := Missing) in
                     if code = 16 then
                       (case os_write_in_place S of
                          None \<Rightarrow> (Ok (), fs2(p := Content rendered))
                        | Some (e', torn) \<Rightarrow> (Err e', fs2(p := torn)))
                     else (Err e, fs2)))))"

section \<open>The environment backend\<close>

definition env_key :: "string \<Rightarrow> string" where
  "env_key reference =
     ''VEJAS_SECRET_'' @
     map (\<lambda>c. case c of
            [b] \<Rightarrow> if is_ascii_alphanumeric b then to_ascii_uppercase b else CHR ''_''
          | _ \<Rightarrow> CHR ''_'') (str_chars reference)"

type_synonym env = "string \<Rightarrow> string option"

definition env_get :: "env \<Rightarrow> secret_get" where
  "env_get env r =
     (case env (env_key r) of
        Some v \<Rightarrow> Ok v
      | None \<Rightarrow> Err (''secret '' @ r @ '' not found (set env '' @ env_key r @ '')''))"

section \<open>The Vault backend\<close>

record vault =
  v_addr :: string
  v_token :: string
  v_mount :: string

type_synonym http =
  "string \<Rightarrow> string \<Rightarrow> (string \<times> string) list \<Rightarrow> string option \<Rightarrow> (nat \<times> string, string) result"

definition trim_end_slashes :: "string \<Rightarrow> string" where
  "trim_end_slashes s = rev (dropWhile (\<lambda>c. c = CHR 0x2F) (rev s))"

definition env_or :: "env \<Rightarrow> string \<Rightarrow> string \<Rightarrow> string" where
  "env_or env k d = (case env k of Some v \<Rightarrow> v | None \<Rightarrow> d)"

definition vault_from_env :: "env \<Rightarrow> vault" where
  "vault_from_env env =
     \<lparr>v_addr = trim_end_slashes (env_or env ''VAULT_ADDR'' []),
      v_token = env_or env ''VAULT_TOKEN'' [],
      v_mount = env_or env ''VEJAS_VAULT_MOUNT'' ''secret''\<rparr>"

definition bad_ref :: "string \<Rightarrow> string" where
  "bad_ref r = ''secret ref '' @ r @ '' must be path/key''"

definition vault_url :: "vault \<Rightarrow> string \<Rightarrow> string" where
  "vault_url V p = v_addr V @ ''/v1/'' @ v_mount V @ ''/data/'' @ p"

definition vault_headers :: "vault \<Rightarrow> (string \<times> string) list" where
  "vault_headers V = [(''X-Vault-Token'', v_token V)]"

definition success :: "nat \<Rightarrow> bool" where
  "success code \<longleftrightarrow> 200 \<le> code \<and> code < 300"

definition vault_get :: "http \<Rightarrow> (string \<Rightarrow> json option) \<Rightarrow> vault \<Rightarrow> secret_get" where
  "vault_get H from_json V r =
     (case rsplit_once r CHR 0x2F of
        None \<Rightarrow> Err (bad_ref r)
      | Some (p, key) \<Rightarrow>
          (case H ''GET'' (vault_url V p) (vault_headers V) None of
             Err e \<Rightarrow> Err (''vault: '' @ e)
           | Panic \<Rightarrow> Panic
           | Ok (code, body) \<Rightarrow>
               if \<not> success code then Err (''vault: HTTP '' @ nat_str code @ '' reading '' @ p)
               else
                 (case from_json body of
                    None \<Rightarrow> Err ''vault: bad response''
                  | Some v \<Rightarrow>
                      (case as_str (value_index (value_index (value_index v ''data'') ''data'') key) of
                         Some s \<Rightarrow> Ok s
                       | None \<Rightarrow> Err (''secret key '' @ key @ '' not found at '' @ p)))))"

text \<open>The keys a path holds now; a failed read counts as none.\<close>

definition vault_existing :: "http \<Rightarrow> (string \<Rightarrow> json option) \<Rightarrow> vault \<Rightarrow> string \<Rightarrow> json omap" where
  "vault_existing H from_json V p =
     (case H ''GET'' (vault_url V p) (vault_headers V) None of
        Ok (code, body) \<Rightarrow>
          if success code then
            (case from_json body of
               Some v \<Rightarrow>
                 (case as_object (value_index (value_index v ''data'') ''data'') of
                    Some m \<Rightarrow> m | None \<Rightarrow> [])
             | None \<Rightarrow> [])
          else []
      | _ \<Rightarrow> [])"

definition vault_set ::
  "http \<Rightarrow> (json \<Rightarrow> string) \<Rightarrow> (string \<Rightarrow> json option) \<Rightarrow> vault \<Rightarrow> string \<Rightarrow> string \<Rightarrow> (unit, string) result" where
  "vault_set H to_json from_json V r v =
     (case rsplit_once r CHR 0x2F of
        None \<Rightarrow> Err (bad_ref r)
      | Some (p, key) \<Rightarrow>
          (let data = om_insert key (VString v) (vault_existing H from_json V p);
               body = to_json (VObject [(''data'', VObject data)]) in
           case H ''POST'' (vault_url V p)
                  (vault_headers V @ [(''Content-Type'', ''application/json'')]) (Some body) of
             Ok (code, _) \<Rightarrow>
               if success code then Ok ()
               else Err (''vault: HTTP '' @ nat_str code @ '' writing '' @ p)
           | Err e \<Rightarrow> Err (''vault: '' @ e)
           | Panic \<Rightarrow> Panic))"

section \<open>The store a run resolves through\<close>

definition redacted :: "secret_get \<Rightarrow> secret_get" where
  "redacted get r = rbind (get r) (\<lambda>_. Ok (''<secret:'' @ r @ ''>''))"

datatype backend = VaultStore vault | FileStore path | EnvStore

text \<open>A path from the environment is its components.\<close>

definition path_of :: "string \<Rightarrow> path" where
  "path_of s = str_split s ''/''"

definition default_store :: "env \<Rightarrow> backend" where
  "default_store env =
     (if (case env ''VAULT_ADDR'' of Some v \<Rightarrow> v \<noteq> [] | None \<Rightarrow> False) then VaultStore (vault_from_env env)
      else
        (case env ''VEJAS_SECRETS_FILE'' of
           Some p \<Rightarrow> if p \<noteq> [] then FileStore (path_of p) else EnvStore
         | None \<Rightarrow> EnvStore))"

record host =
  h_env :: env
  h_os :: os
  h_http :: http

definition store_get :: "host \<Rightarrow> fs \<Rightarrow> backend \<Rightarrow> secret_get" where
  "store_get H fs b =
     (case b of
        VaultStore V \<Rightarrow> vault_get (h_http H) (os_parse (h_os H)) V
      | FileStore p \<Rightarrow> file_get (h_os H) fs p
      | EnvStore \<Rightarrow> env_get (h_env H))"

definition kind :: "backend \<Rightarrow> string" where
  "kind b = (case b of VaultStore _ \<Rightarrow> ''vault'' | FileStore _ \<Rightarrow> ''file'' | EnvStore \<Rightarrow> ''env'')"

definition store_set ::
  "host \<Rightarrow> (json \<Rightarrow> string) \<Rightarrow> backend \<Rightarrow> string \<Rightarrow> string \<Rightarrow> (fs, unit, string) stm" where
  "store_set H to_json b r v =
     (case b of
        VaultStore V \<Rightarrow> mlift (vault_set (h_http H) to_json (os_parse (h_os H)) V r v)
      | FileStore p \<Rightarrow> file_set (h_os H) p r v
      | EnvStore \<Rightarrow> mfail (''the '' @ kind b @ '' secret backend is read-only''))"

text \<open>\<open>Engine::live\<close> and \<open>Engine::shadow\<close>.\<close>

definition live :: "host \<Rightarrow> fs \<Rightarrow> path \<Rightarrow> string \<Rightarrow> engine" where
  "live H fs dir pkg = with_secrets dir pkg (store_get H fs (default_store (h_env H)))"

definition shadow :: "host \<Rightarrow> fs \<Rightarrow> path \<Rightarrow> string \<Rightarrow> engine" where
  "shadow H fs dir pkg = with_secrets dir pkg (redacted (store_get H fs (default_store (h_env H))))"

section \<open>The contract of a backend\<close>

text \<open>A backend answers with a value or an error, and never panics.\<close>

locale secret_backend =
  fixes get :: secret_get
  assumes answers: "get r \<noteq> Panic"
begin

lemma redacted_answers: "redacted get r \<noteq> Panic"
  using answers by (cases "get r") (auto simp: redacted_def)

lemma redacted_Ok: "redacted get r = Ok v \<longleftrightarrow> (\<exists>s. get r = Ok s) \<and> v = ''<secret:'' @ r @ ''>''"
  by (auto simp: redacted_def rbind_eq_Ok)

lemma redacted_fails: "redacted get r = Err e \<longleftrightarrow> get r = Err e"
  by (auto simp: redacted_def rbind_eq_Err)

end

lemma file_load_answers: "file_load S fs p \<noteq> Panic"
  by (auto simp: file_load_def split: fentry.split option.split json.split)

interpretation file_store: secret_backend "file_get S fs p" for S fs p
  by unfold_locales
    (auto simp: file_get_def rbind_eq_Panic file_load_answers split: option.split json.split)

interpretation env_store: secret_backend "env_get env" for env
  by unfold_locales (simp add: env_get_def split: option.split)

text \<open>The HTTP client is assumed to answer; then so does every backend.\<close>

definition http_answers :: "http \<Rightarrow> bool" where
  "http_answers H \<longleftrightarrow> (\<forall>meth url hs body. H meth url hs body \<noteq> Panic)"

lemma store_backend: "http_answers (h_http H) \<Longrightarrow> secret_backend (store_get H fs b)"
  by unfold_locales
    (auto simp: store_get_def vault_get_def http_answers_def file_store.answers env_store.answers
      split: backend.split option.split result.split)

lemma with_secrets_same: "secrets (with_secrets dir pkg get) = get"
  by (simp add: with_secrets_def)

lemma redacted_cong:
  assumes "\<And>r. map_err id (rbind (get r) (\<lambda>_. Ok ())) = map_err id (rbind (get' r) (\<lambda>_. Ok ()))"
  shows "redacted get = redacted get'"
proof (rule ext)
  fix r
  show "redacted get r = redacted get' r"
    using assms [of r] by (cases "get r"; cases "get' r") (auto simp: redacted_def)
qed

section \<open>What the stores promise\<close>

text \<open>
  The file backend reads back what it wrote: after a \<open>set\<close> that succeeds, \<open>get\<close> of that
  reference is the new value and every other reference resolves as before.
\<close>

theorem file_set_get:
  assumes "file_load S fs p = Ok m"
    and "os_parse S (os_print S (VObject (om_insert r (VString v) m))) = Some (VObject (om_insert r (VString v) m))"
    and "trim (os_print S (VObject (om_insert r (VString v) m))) \<noteq> []"
    and "file_set S p r v fs = (Ok (), fs')" and "v \<noteq> []" and "r' \<noteq> r"
  shows "file_get S fs' p r = Ok v \<and> file_get S fs' p r' = file_get S fs p r'"
proof -
  have "fs' p = Content (os_print S (VObject (om_insert r (VString v) m)))"
    using assms(1,4) by (auto simp: file_set_def Let_def split: option.splits if_splits)
  with assms(2,3) have "file_load S fs' p = Ok (om_insert r (VString v) m)"
    by (simp add: file_load_def)
  with assms(1,5,6) show ?thesis by (simp add: file_get_def om_get_insert)
qed

definition demo_os :: os where
  "demo_os =
     \<lparr>os_write_tmp = None, os_rename = None, os_write_in_place = None,
      os_print = (\<lambda>v. ''x''), os_parse = (\<lambda>s. Some (VObject [(''k'', VString ''v'')]))\<rparr>"

theorem file_set_get_witness:
  "\<exists>fs'. file_set demo_os [''s.json''] ''k'' ''v'' (\<lambda>_. Missing) = (Ok (), fs') \<and>
     file_get demo_os fs' [''s.json''] ''k'' = Ok ''v''"
proof -
  obtain fs' where set: "file_set demo_os [''s.json''] ''k'' ''v'' (\<lambda>_. Missing) = (Ok (), fs')"
    by (simp add: file_set_def file_load_def demo_os_def Let_def)
  have "trim ''x'' \<noteq> []" by code_simp
  then have "file_get demo_os fs' [''s.json''] ''k'' = Ok ''v''"
    using file_set_get [OF _ _ _ set, of "[]" "''j''"] by (simp add: file_load_def demo_os_def)
  with set show ?thesis by blast
qed

lemma with_extension_other:
  assumes "p \<noteq> []" and "\<not> ends_with (last p) ''.tmp''"
  shows "with_extension p ''tmp'' \<noteq> p"
proof
  assume eq: "with_extension p ''tmp'' = p"
  obtain f dirs where p: "rev p = f # dirs" using assms(1) by (cases "rev p") auto
  define st where "st = (case rsplit_once f CHR ''.'' of Some (a, _) \<Rightarrow> if a = [] then f else a | None \<Rightarrow> f)"
  have "with_extension p ''tmp'' = rev dirs @ [st @ ''.tmp'']"
    using p by (simp add: with_extension_def Let_def st_def)
  with eq have "last p = st @ ''.tmp''" by (metis last_snoc)
  with assms(2) show False by (simp add: ends_with_def)
qed

text \<open>
  A \<open>set\<close> that does not reach the rename, or whose rename fails for any reason but a busy
  mount, leaves the secrets file as it was: no failure on that path loses a secret.
\<close>

theorem file_set_failure_keeps_file:
  assumes "file_set S p r v fs = (Err e, fs')"
    and "\<And>c e'. os_rename S = Some (c, e') \<Longrightarrow> c \<noteq> 16"
    and "p \<noteq> []" and "\<not> ends_with (last p) ''.tmp''"
  shows "fs' p = fs p"
  using assms(1,2) with_extension_other [OF assms(3,4)]
  by (auto simp: file_set_def Let_def split: result.splits option.splits if_splits)

theorem file_set_failure_keeps_file_witness:
  "\<exists>fs'. file_set (demo_os\<lparr>os_rename := Some (13, ''denied'')\<rparr>) [''s.json''] ''k'' ''v'' (\<lambda>_. Missing) = (Err ''denied'', fs') \<and>
     fs' [''s.json''] = Missing"
proof -
  obtain fs' where set: "file_set (demo_os\<lparr>os_rename := Some (13, ''denied'')\<rparr>) [''s.json''] ''k'' ''v'' (\<lambda>_. Missing) = (Err ''denied'', fs')"
    by (simp add: file_set_def file_load_def demo_os_def Let_def)
  have "\<not> ends_with ''s.json'' ''.tmp''" by code_simp
  then have "fs' [''s.json''] = Missing"
    using file_set_failure_keeps_file [OF set] by simp
  with set show ?thesis by blast
qed

text \<open>
  \<open>VaultStore::set\<close> writes the whole path back; when reading the existing keys fails, what it
  writes holds the new key alone.
\<close>

theorem vault_set_after_failed_read:
  assumes "H ''GET'' (vault_url V p) (vault_headers V) None = Err e"
    and "rsplit_once r CHR 0x2F = Some (p, key)"
  shows "vault_set H to_json from_json V r v =
    (case H ''POST'' (vault_url V p) (vault_headers V @ [(''Content-Type'', ''application/json'')])
            (Some (to_json (VObject [(''data'', VObject [(key, VString v)])]))) of
       Ok (code, _) \<Rightarrow>
         if success code then Ok () else Err (''vault: HTTP '' @ nat_str code @ '' writing '' @ p)
     | Err e \<Rightarrow> Err (''vault: '' @ e)
     | Panic \<Rightarrow> Panic)"
  using assms by (simp add: vault_set_def vault_existing_def)

end
