(* ===== verification/Script_Props.thy ===== *)
theory Script_Props
  imports Wf Secrets
begin

text \<open>
  What the scanner, the parser and the interpreter of VejasScript guarantee, as theorems over
  their definitions. The demonstration flow below is the concrete input of the witnesses.
\<close>

section \<open>A small project\<close>

definition demo_flow :: program where
  "demo_flow =
     empty_program\<lparr>pg_stmts := [SAssign [''n''] (EInvoke ''ping'' []), SEmit (ELit (VString ''vx.out'')) (EVar ''n'')]\<rparr>"

definition demo_read :: program where
  "demo_read = empty_program\<lparr>pg_stmts := [SRespond (ELit (VNumber (PosInt 200))) (EVar ''event'')]\<rparr>"

definition demo_world :: world where
  "demo_world =
     \<lparr>w_to_json = (\<lambda>_. ''?''),
      w_read = (\<lambda>p. if p = [''srv'', ''services'', ''ping.vjs''] then Some ''x = 1'' else None),
      w_upper = id, w_lower = id\<rparr>"

definition demo_engine :: engine where
  "demo_engine = with_secrets [''srv''] ''default'' (\<lambda>r. Err r)"

lemma demo_ping: "parse ''x = 1'' =
    Ok (empty_program\<lparr>pg_stmts := [SAssign [''x''] (ELit (VNumber (PosInt 1)))]\<rparr>)"
  by code_simp

definition demo_ctx :: ctx where
  "demo_ctx =
     \<lparr>vars = [(''event'', VNull), (''n'', VObject [(''x'', VNumber (PosInt 1))])],
      emits = [(''vx.out'', VObject [(''x'', VNumber (PosInt 1))])], response = None\<rparr>"

lemma demo_ends: "fst (run demo_world demo_flow VNull demo_engine) = Ok demo_ctx"
  by code_simp

lemma demo_run:
  "run demo_world demo_flow VNull demo_engine = (Ok demo_ctx, snd (run demo_world demo_flow VNull demo_engine))"
  by (simp add: demo_ends prod_eq_iff)

section \<open>Scanner and parser\<close>

text \<open>
  The scanner calls itself on every hole of an f-string; the model bounds that nesting by
  the length of the source. The bound is never met, so the scanner is the fixed point the
  source code writes, and it ends on every input.
\<close>

theorem lex_is_recursive: "lex src = lex_loop lex src 0 [] \<and> lex src \<noteq> Err OutOfFuel"
  using lex_unfold lex_fuel by simp

text \<open>
  (C38) Recursive descent ends on every source: the budget the model gives the parser, a
  multiple of the number of tokens, is always enough.
\<close>

theorem parse_terminates: "parse src \<noteq> Err OutOfFuel"
  by (rule parse_not_OutOfFuel)

text \<open>
On an ASCII source the parser answers with a program or a message; it never panics.
\<close>

theorem parse_ascii_answers:
  assumes "is_ascii src"
  shows "(\<exists>prog. parse src = Ok prog) \<or> (\<exists>e. parse src = Err e \<and> e \<noteq> OutOfFuel)"
  using parse_ascii [OF assms] parse_not_OutOfFuel [of src] by (cases "parse src") auto

theorem parse_ascii_answers_witness: "(\<exists>prog. parse ''x = 1'' = Ok prog) \<or> (\<exists>e. parse ''x = 1'' = Err e \<and> e \<noteq> OutOfFuel)"
  using parse_ascii_answers [of "''x = 1''"] by (simp add: is_ascii_def byte_in_def byte_def)



text \<open>
  Outside a string a character of three bytes makes the scanner slice the source inside it,
  which panics: an em dash is enough.
\<close>

theorem lex_em_dash_panics: "lex [CHR 0xE2, CHR 0x80, CHR 0x94] = Panic"
  by code_simp

section \<open>The interpreter\<close>

text \<open>
  (C31) Composition is bounded by the depth check of the code alone: the 33 levels of the model
  are never exhausted, \<open>run_service\<close> satisfies the recursion of the source, and no run ends for
  lack of levels.
\<close>

theorem run_service_is_recursive:
  "run_service W name args e = service_body W (exec_block W (run_service W)) name args e \<and>
   fst (run W prog event e') \<noteq> Err ROutOfFuel"
proof
  show "run_service W name args e = service_body W (exec_block W (run_service W)) name args e"
    by (rule run_service_unfold)
  have "fuel_frame 33 (end_of (fst (exec_block W (run_service W) (pg_stmts prog) (initial_ctx event, e'))))
      (initial_ctx event, e') (snd (exec_block W (run_service W) (pg_stmts prog) (initial_ctx event, e')))"
    by (rule keepsD [OF fuel.exec_block_keeps]) simp
  then show "fst (run W prog event e') \<noteq> Err ROutOfFuel"
    by (auto simp: run_def fuel_frame_def split: prod.splits result.splits)
qed

text \<open>
A service below 32 levels of composition is refused before anything of it is read.
\<close>

theorem run_service_too_deep:
  assumes "32 \<le> depth e"
  shows "run_service W name args e = (Err (RDepth name), e)"
  using assms by (simp add: run_service_unfold service_body_def)

theorem run_service_too_deep_witness:
  "run_service demo_world ''ping'' [] (demo_engine\<lparr>depth := 32\<rparr>) =
     (Err (RDepth ''ping''), demo_engine\<lparr>depth := 32\<rparr>)"
  by (rule run_service_too_deep) simp

lemma run_block:
  assumes "run W prog event e = (r, e')"
  obtains q c where
    "exec_block W (run_service W) (pg_stmts prog) (initial_ctx event, e) = (q, (c, e'))"
    "r = (case q of Ok _ \<Rightarrow> Ok c | Err x \<Rightarrow> Err x | Panic \<Rightarrow> Panic)"
proof -
  obtain q c e1 where "exec_block W (run_service W) (pg_stmts prog) (initial_ctx event, e) = (q, (c, e1))"
    by (metis surj_pair)
  with assms that show ?thesis by (cases q) (auto simp: run_def)
qed

lemma run_engine:
  assumes "run W prog event e = (r, e')" and "r \<noteq> Panic"
  shows "same_engine e e'"
proof -
  from assms(1) obtain q c where
    "exec_block W (run_service W) (pg_stmts prog) (initial_ctx event, e) = (q, (c, e'))"
    and r: "r = (case q of Ok _ \<Rightarrow> Ok c | Err x \<Rightarrow> Err x | Panic \<Rightarrow> Panic)" by (rule run_block)
  from keepsE [OF eng.exec_block_keeps this(1)] assms(2) r show ?thesis
    by (cases q) (auto simp: engine_frame_def same_engine_def)
qed

lemma run_quiet:
  assumes "\<not> writes_bus prog"
  shows "snd (run W prog event e) = e" and "fst (run W prog event e) = Ok c \<Longrightarrow> emits c = []"
proof -
  obtain r e' where run: "run W prog event e = (r, e')" by fastforce
  then obtain q c' where
    x: "exec_block W (run_service W) (pg_stmts prog) (initial_ctx event, e) = (q, (c', e'))"
    and r: "r = (case q of Ok _ \<Rightarrow> Ok c' | Err x \<Rightarrow> Err x | Panic \<Rightarrow> Panic)" by (rule run_block)
  have k: "keeps quiet_frame (exec_block W (run_service W) (pg_stmts prog))"
    using assms by (intro quiet.exec_block_keeps) (simp add: writes_bus_def)
  from keepsE [OF k x] r run show "snd (run W prog event e) = e"
    by (cases q) (auto simp: quiet_frame_def initial_ctx_def)
  from keepsE [OF k x] r run show "emits c = []" if "fst (run W prog event e) = Ok c"
    using that by (cases q) (auto simp: quiet_frame_def initial_ctx_def)
qed

text \<open>
  A run hands the engine back as it was, but for the caches: the project root, the package
  on whose behalf it runs, the secret store and the depth are restored, on errors too.
\<close>

theorem run_restores_engine:
  assumes "run W prog event e = (r, e')" and "r \<noteq> Panic"
  shows "project_root e' = project_root e \<and> caller_pkg e' = caller_pkg e \<and>
    secrets e' = secrets e \<and> depth e' = depth e"
  using run_engine [OF assms] by (simp add: same_engine_def)

theorem run_restores_engine_witness:
  "caller_pkg (snd (run demo_world demo_flow VNull demo_engine)) = caller_pkg demo_engine"
  using run_restores_engine [OF demo_run] by simp

text \<open>
  (C4) \<open>Program::writes_bus\<close> is sound: a program it clears emits nothing, invokes nothing and
  leaves the engine untouched, whatever the event, whether the run succeeds or fails.
\<close>

theorem writes_bus_sound:
  assumes "\<not> writes_bus prog"
  shows "snd (run W prog event e) = e \<and>
    (\<forall>c. fst (run W prog event e) = Ok c \<longrightarrow> emits c = [])"
  using run_quiet [OF assms] by blast

theorem writes_bus_sound_witness:
  "\<not> writes_bus demo_read \<and> snd (run demo_world demo_read VNull demo_engine) = demo_engine"
  using writes_bus_sound [of demo_read demo_world VNull demo_engine]
  by (simp add: demo_read_def writes_bus_def)

text \<open>
  Every subject a run emits on is one the bus can carry: no spaces, no control characters,
  no empty subject, through composed services too.
\<close>

theorem run_emits_valid_subjects:
  assumes "run W prog event e = (Ok c, e')" and "x \<in> set (emits c)"
  shows "valid_subject (fst x)"
proof -
  from assms(1) obtain q c' where
    x: "exec_block W (run_service W) (pg_stmts prog) (initial_ctx event, e) = (q, (c', e'))"
    and r: "Ok c = (case q of Ok _ \<Rightarrow> Ok c' | Err x \<Rightarrow> Err x | Panic \<Rightarrow> Panic)" by (rule run_block)
  from keepsE [OF emits.exec_block_keeps x] have "emit_frame (end_of q) (initial_ctx event, e) (c', e')"
    by simp
  with r assms(2) show ?thesis by (cases q) (auto simp: emit_frame_def initial_ctx_def)
qed

theorem run_emits_valid_subjects_witness: "valid_subject ''vx.out''"
  using run_emits_valid_subjects [OF demo_run] by (simp add: demo_ctx_def)

text \<open>
  Evaluating an expression that succeeds leaves every variable as it was: what a filter
  or a projection binds while it runs is put back.
\<close>

theorem eval_restores_variables:
  assumes "eval W rs x (c, e) = (Ok v, (c', e'))" and "om_wf (vars c)"
  shows "vars c' = vars c \<and> response c' = response c"
proof -
  have "keeps scope_frame (eval W rs x)" by (rule scope.eval_keeps) simp
  from keepsE [OF this assms(1)] assms(2) show ?thesis by (simp add: scope_frame_def)
qed

definition demo_filter :: expr where
  "demo_filter = EFilter (ELit (VArray [VObject [(''n'', VNumber (PosInt 7))]])) (EVar ''n'')"

definition demo_eval :: "(json, rerr) result \<times> st" where
  "demo_eval = eval demo_world (run_service demo_world) demo_filter (initial_ctx VNull, demo_engine)"

lemma demo_eval_ends: "fst demo_eval = Ok (VArray [VObject [(''n'', VNumber (PosInt 7))]])"
  by code_simp

lemma demo_eval_run:
  "eval demo_world (run_service demo_world) demo_filter (initial_ctx VNull, demo_engine) =
     (Ok (VArray [VObject [(''n'', VNumber (PosInt 7))]]), (fst (snd demo_eval), snd (snd demo_eval)))"
  by (simp add: demo_eval_ends prod_eq_iff flip: demo_eval_def)

theorem eval_restores_variables_witness: "vars (fst (snd demo_eval)) = vars (initial_ctx VNull)"
  using eval_restores_variables [OF demo_eval_run] by (simp add: initial_ctx_def item_fields_def)

lemma run_sim:
  assumes "cache_rel W e f"
  shows "fst (run W prog event e) = fst (run W prog event f)"
    and "cache_rel W (snd (run W prog event e)) (snd (run W prog event f))"
proof -
  let ?x = "exec_block W (run_service W) (pg_stmts prog)"
  have rel: "on_ctx (cache_rel W) (initial_ctx event, e) (initial_ctx event, f)"
    using assms by (simp add: on_ctx_def)
  obtain q c e' where 1: "?x (initial_ctx event, e) = (q, (c, e'))" by (metis surj_pair)
  obtain q' c' f' where 2: "?x (initial_ctx event, f) = (q', (c', f'))" by (metis surj_pair)
  have "q' = q" "c' = c" "cache_rel W e' f'"
    using simD [OF caches.exec_block_sim [of W W "pg_stmts prog"] rel] 1 2 by (simp_all add: on_ctx_def)
  with 1 2 show "fst (run W prog event e) = fst (run W prog event f)"
    and "cache_rel W (snd (run W prog event e)) (snd (run W prog event f))"
    by (cases q; simp add: run_def)+
qed

lemma cache_rel_invalidate: "cache_ok W e \<Longrightarrow> cache_rel W e (invalidate e)"
  by (simp add: cache_rel_def same_engine_def) (simp add: invalidate_def)

text \<open>
  The caches of an engine change nothing but time: a run on an engine whose cached
  services and export lists are those of the files gives what a run on an emptied cache gives.
\<close>

theorem run_ignores_caches:
  assumes "cache_ok W e"
  shows "fst (run W prog event e) = fst (run W prog event (invalidate e))"
  using assms by (intro run_sim cache_rel_invalidate)

lemma demo_warm: "cache_ok demo_world (snd (run demo_world demo_flow VNull demo_engine))"
  using run_sim(2) [of demo_world demo_engine demo_engine demo_flow VNull]
  by (simp add: cache_rel_def demo_engine_def)

theorem run_ignores_caches_witness:
  "fst (run demo_world demo_flow VNull (snd (run demo_world demo_flow VNull demo_engine))) =
   fst (run demo_world demo_flow VNull (invalidate (snd (run demo_world demo_flow VNull demo_engine))))"
  by (rule run_ignores_caches) (rule demo_warm)

text \<open>
  Values stay well formed: a run of a parsed program on a well-formed event ends with
  well-formed variables, emits and response (keys in order, no duplicates, integers in range,
  floats finite).
\<close>

theorem run_well_formed:
  assumes "program_wf prog" and "json_wf event" and "engine_wf False e"
    and "run W prog event e = (Ok c, e')"
  shows "ctx_wf c"
proof -
  from assms(4) obtain q c' where
    x: "exec_block W (run_service W) (pg_stmts prog) (initial_ctx event, e) = (q, (c', e'))"
    and r: "Ok c = (case q of Ok _ \<Rightarrow> Ok c' | Err x \<Rightarrow> Err x | Panic \<Rightarrow> Panic)" by (rule run_block)
  have "st_wf False (initial_ctx event, e)"
    using assms by (simp add: st_wf_def initial_ctx_wf)
  moreover have "yields False (st_wf False) (\<lambda>_. True) (exec_block W (run_service W) (pg_stmts prog))"
    using assms(1) by (intro wf.exec_block_wf) (simp add: program_wf_def)
  ultimately show ?thesis using yieldsD x r by (cases q) (fastforce simp: st_wf_def)+
qed

lemma demo_flow_wf: "program_wf demo_flow"
  by (simp add: program_wf_def demo_flow_def empty_program_def)

lemma demo_engine_wf: "engine_wf np demo_engine"
  by (simp add: engine_wf_def demo_engine_def with_secrets_def)

theorem run_well_formed_witness: "ctx_wf demo_ctx"
  by (rule run_well_formed [OF demo_flow_wf _ demo_engine_wf demo_run]) simp

text \<open>
  (C30) In a project of ASCII files the interpreter never panics: whatever the event and however
  services compose, a run ends with a context or an error message.
\<close>

theorem run_never_panics:
  assumes "\<And>p src. w_read W p = Some src \<Longrightarrow> is_ascii src"
    and "program_wf prog" and "json_wf event" and "engine_wf True e"
  shows "fst (run W prog event e) \<noteq> Panic"
proof -
  have files: "files_ok W" using assms(1) parse_ascii by (auto simp: files_ok_def)
  obtain r e' where run: "run W prog event e = (r, e')" by fastforce
  then obtain q c where
    x: "exec_block W (run_service W) (pg_stmts prog) (initial_ctx event, e) = (q, (c, e'))"
    and r: "r = (case q of Ok _ \<Rightarrow> Ok c | Err x \<Rightarrow> Err x | Panic \<Rightarrow> Panic)" by (rule run_block)
  have "st_wf True (initial_ctx event, e)"
    using assms by (simp add: st_wf_def initial_ctx_wf)
  from yieldsD [OF interp_wf.exec_block_wf [OF interp_wf_run_service [OF files]] this, of "pg_stmts prog" W]
    assms(2) x r run
  show ?thesis by (cases q) (auto simp: program_wf_def)
qed

theorem run_never_panics_witness: "fst (run demo_world demo_flow VNull demo_engine) \<noteq> Panic"
  by (rule run_never_panics [OF _ demo_flow_wf _ demo_engine_wf])
    (auto simp: demo_world_def is_ascii_def byte_in_def byte_def split: if_splits)

text \<open>
  (C7) A service of another package runs only if that package's manifest exports it: when a
  call succeeds, the reference is well formed and names the caller's own package or a service
  in the export list the engine has for it.
\<close>

theorem invoke_needs_export:
  assumes "run_service W name args e = (Ok x, e')"
  shows "\<exists>pkg svc e1. resolve W name e = (Ok (pkg, svc), e1) \<and> valid_ref pkg \<and> valid_ref svc \<and>
    (pkg = caller_pkg e \<or> (\<exists>l e2. exports_of W pkg e = (Ok l, e2) \<and> svc \<in> set l))"
proof -
  from assms obtain pkg svc e1 where "resolve W name e = (Ok (pkg, svc), e1)"
    by (auto simp: run_service_unfold service_body_def split: if_splits prod.splits result.splits)
  then show ?thesis
    by (intro exI [of _ pkg] exI [of _ svc] exI [of _ e1])
      (auto simp: resolve_def Let_def mbind_def split: if_splits prod.splits result.splits option.splits)
qed

definition demo_call :: "(json \<times> (string \<times> json) list, rerr) result \<times> engine" where
  "demo_call = run_service demo_world ''ping'' [] demo_engine"

lemma demo_call_ends: "fst demo_call = Ok (VObject [(''x'', VNumber (PosInt 1))], [])"
  by code_simp

lemma demo_call_run:
  "run_service demo_world ''ping'' [] demo_engine =
     (Ok (VObject [(''x'', VNumber (PosInt 1))], []), snd demo_call)"
  by (simp add: demo_call_ends prod_eq_iff flip: demo_call_def)

theorem invoke_needs_export_witness:
  "\<exists>pkg svc e1. resolve demo_world ''ping'' demo_engine = (Ok (pkg, svc), e1) \<and> valid_ref svc"
  using invoke_needs_export [OF demo_call_run] by blast

definition path_expr :: "string \<Rightarrow> string list \<Rightarrow> expr" where
  "path_expr k ks = foldl (\<lambda>b f. EField b f False) (EVar k) ks"

definition get_path :: "json \<Rightarrow> string list \<Rightarrow> json" where
  "get_path v ks = foldl value_index v ks"

lemma set_path_object: "ks \<noteq> [] \<Longrightarrow> \<exists>m. set_path base ks v = VObject m"
  by (cases ks rule: remdups_adj.cases) (auto simp: Let_def)

lemma get_set_path:
  "ks \<noteq> [] \<Longrightarrow> get_path (set_path base ks v) ks = v \<and>
     (\<forall>n < length ks. \<exists>m. get_path (set_path base ks v) (take n ks) = VObject m)"
proof (induction base ks v rule: set_path.induct)
  case (2 base k v)
  then show ?case by (simp add: get_path_def value_index_def om_get_insert)
next
  case (3 base k k' ks v)
  let ?next = "case om_get (item_fields base) k of Some w \<Rightarrow> w | None \<Rightarrow> VObject []"
  have IH: "get_path (set_path ?next (k' # ks) v) (k' # ks) = v"
    "\<forall>n < length (k' # ks). \<exists>m. get_path (set_path ?next (k' # ks) v) (take n (k' # ks)) = VObject m"
    using 3 by simp_all
  have step: "get_path (set_path base (k # k' # ks) v) (k # l) = get_path (set_path ?next (k' # ks) v) l" for l
    by (simp add: get_path_def value_index_def om_get_insert Let_def)
  have "\<exists>m. get_path (set_path base (k # k' # ks) v) (take n (k # k' # ks)) = VObject m"
    if "n < length (k # k' # ks)" for n
  proof (cases n)
    case 0 then show ?thesis by (simp add: get_path_def Let_def)
  next
    case (Suc n')
    then show ?thesis
      using that IH(2) by (simp only: take_Suc_Cons step) simp
  qed
  with IH(1) show ?case by (simp only: step) blast
qed simp

lemma read_field_object: "read_field (VObject m) f safe = Ok (value_index (VObject m) f)"
  by (simp add: read_field_def get_or_null_def value_index_def)

lemma eval_path_expr:
  assumes "om_get (vars (fst s)) k = Some a"
    and "\<forall>n < length ks. \<exists>m. get_path a (take n ks) = VObject m"
  shows "eval W rs (path_expr k ks) s = (Ok (get_path a ks), s)"
  using assms(2)
proof (induction ks rule: rev_induct)
  case Nil
  then show ?case using assms(1) by (simp add: path_expr_def get_path_def mbind_def get_or_null_def)
next
  case (snoc f ks)
  have "eval W rs (path_expr k ks) s = (Ok (get_path a ks), s)"
    using snoc.prems by (intro snoc.IH) (auto dest!: spec [of _ "_ :: nat"])
  moreover obtain m where "get_path a ks = VObject m"
    using snoc.prems by (auto dest: spec [of _ "length ks"])
  moreover have "path_expr k (ks @ [f]) = EField (path_expr k ks) f False"
    and "get_path a (ks @ [f]) = value_index (get_path a ks) f"
    by (simp_all add: path_expr_def get_path_def)
  ultimately show ?case by (simp add: mbind_def read_field_object)
qed

text \<open>
  What an assignment writes is what the path reads: after \<open>a.b.c = v\<close> the expression
  \<open>a.b.c\<close> is \<open>v\<close>, whatever \<open>a\<close> was before, and every other variable is untouched.
\<close>

theorem assign_then_read:
  "fst (assign (k # ks) v s) = Ok () \<and>
   eval W rs (path_expr k ks) (snd (assign (k # ks) v s)) = (Ok v, snd (assign (k # ks) v s)) \<and>
   (om_get (vars (fst (snd (assign (k # ks) v s)))))(k := None) = (om_get (vars (fst s)))(k := None)"
proof -
  let ?base = "case om_get (vars (fst s)) k of Some w \<Rightarrow> w | None \<Rightarrow> VObject []"
  define a where "a = (if ks = [] then v else set_path ?base ks v)"
  have st: "assign (k # ks) v s = (Ok (), upd_vars (om_insert k a) s)"
    by (cases ks) (simp_all add: assign_def set_var_def a_def mbind_def Let_def)
  have "eval W rs (path_expr k ks) (upd_vars (om_insert k a) s) =
      (Ok (get_path a ks), upd_vars (om_insert k a) s)"
    using get_set_path [of ks ?base v]
    by (intro eval_path_expr) (auto simp: a_def upd_vars_def om_get_insert split: prod.split)
  moreover have "get_path a ks = v"
    using get_set_path [of ks ?base v] by (auto simp: a_def get_path_def)
  ultimately show ?thesis
    unfolding st by (auto simp: upd_vars_def om_get_insert split: prod.split)
qed

text \<open>
  (C32) A shadow run is blind to secret values: two stores that answer for the same references
  and fail alike give the same run, event for event and emit for emit, whatever their values.
\<close>

theorem shadow_run_hides_secrets:
  assumes "\<And>r. (\<exists>v. store_get H fs (default_store (h_env H)) r = Ok v) =
                (\<exists>v. store_get H' fs' (default_store (h_env H')) r = Ok v)"
    and "\<And>r e. store_get H fs (default_store (h_env H)) r = Err e \<longleftrightarrow>
                store_get H' fs' (default_store (h_env H')) r = Err e"
  shows "run W prog event (shadow H fs dir pkg) = run W prog event (shadow H' fs' dir pkg)"
proof -
  have "redacted (store_get H fs (default_store (h_env H))) =
      redacted (store_get H' fs' (default_store (h_env H')))"
  proof (rule redacted_cong)
    fix r
    show "map_err id (rbind (store_get H fs (default_store (h_env H)) r) (\<lambda>_. Ok ())) =
        map_err id (rbind (store_get H' fs' (default_store (h_env H')) r) (\<lambda>_. Ok ()))"
    proof (cases "store_get H fs (default_store (h_env H)) r")
      case (Ok v)
      then obtain v' where "store_get H' fs' (default_store (h_env H')) r = Ok v'"
        using assms(1) [of r] by blast
      with Ok show ?thesis by simp
    next
      case (Err e)
      then have "store_get H' fs' (default_store (h_env H')) r = Err e" using assms(2) [of r e] by blast
      with Err show ?thesis by simp
    next
      case Panic
      then have "store_get H' fs' (default_store (h_env H')) r = Panic"
        using assms(1) [of r] assms(2) [of r]
        by (cases "store_get H' fs' (default_store (h_env H')) r") auto
      with Panic show ?thesis by simp
    qed
  qed
  then show ?thesis by (simp add: shadow_def)
qed

definition demo_host :: "string \<Rightarrow> host" where
  "demo_host v =
     \<lparr>h_env = (\<lambda>k. if k = ''VEJAS_SECRET_K'' then Some v else None), h_os = demo_os,
      h_http = (\<lambda>_ _ _ _. Err ''down'')\<rparr>"

lemma demo_host_get:
  "store_get (demo_host v) fs (default_store (h_env (demo_host v))) r =
     (if env_key r = ''VEJAS_SECRET_K'' then Ok v
      else Err (''secret '' @ r @ '' not found (set env '' @ env_key r @ '')''))"
  by (simp add: store_get_def default_store_def demo_host_def env_get_def)

definition demo_secret_flow :: program where
  "demo_secret_flow =
     empty_program\<lparr>pg_stmts := [SEmit (ELit (VString ''vx.out'')) (ECall ''secret'' [ELit (VString ''k'')])]\<rparr>"

theorem shadow_run_hides_secrets_witness:
  "run demo_world demo_secret_flow VNull (shadow (demo_host ''one'') (\<lambda>_. Missing) [''srv''] ''default'') =
   run demo_world demo_secret_flow VNull (shadow (demo_host ''two'') (\<lambda>_. Missing) [''srv''] ''default'')"
  by (rule shadow_run_hides_secrets) (simp_all add: demo_host_get)

section \<open>Numbers\<close>

definition int_json :: "int \<Rightarrow> json" where
  "int_json i = VNumber (number_from_i64 i)"

lemma number_as_f64_int: "number_as_f64 (number_from_i64 i) = f64_of_int i"
  by (simp add: number_from_i64_def)

lemma num_int:
  assumes "\<bar>i\<bar> < 9000000000000000"
  shows "num (f64_of_int i) = int_json i"
proof -
  have b: "\<bar>i\<bar> < 2 ^ 53" "\<bar>\<bar>i\<bar>\<bar> < 2 ^ 53" using assms by simp_all
  have "f_lt (f_abs (f64_of_int i)) nine_e15"
    using f_cmp_int [OF b(2), of 9000000000000000] assms
    by (simp add: f_lt_def f_abs_of_int [OF b(1)] nine_e15_def)
  moreover have "f_as_i64 (f64_of_int i) = i"
    using f64_of_int_is_int(2) [OF b(1)] assms
    by (cases "f64_of_int i") (auto simp: f_as_i64_def i64_min_def i64_max_def)
  ultimately show ?thesis
    using f64_of_int_is_int(1) [OF b(1)] by (simp add: num_def int_json_def)
qed

lemma num_zero: "num (Fin False 0 emin) = int_json 0" "num (Fin True 0 emin) = int_json 0"
  by code_simp+

lemma f_mul_zero:
  assumes "a = 0 \<or> b = 0" and "\<bar>a\<bar> < 2 ^ 53" and "\<bar>b\<bar> < 2 ^ 53"
  shows "num (f_mul (f64_of_int a) (f64_of_int b)) = int_json 0"
proof -
  obtain s m e where 1: "f64_of_int a = Fin s m e" using f64_of_int_signed [OF assms(2)] by metis
  obtain t n k where 2: "f64_of_int b = Fin t n k" using f64_of_int_signed [OF assms(3)] by metis
  have "m * n = 0" using assms(1) 1 2 by auto
  with 1 2 have "f_mul (f64_of_int a) (f64_of_int b) = Fin (s \<noteq> t) 0 emin"
    by (simp add: fround_def)
  then show ?thesis using num_zero by (cases "s \<noteq> t") simp_all
qed

text \<open>
  Integer arithmetic is exact below 9e15 although the interpreter computes in floats:
  sums and products of integers, and the order of two integers, are those of mathematics, and
  the result is an integer value again.
\<close>

theorem integers_are_exact:
  assumes "\<bar>a\<bar> < 9000000000000000" and "\<bar>b\<bar> < 9000000000000000"
    and "\<bar>a + b\<bar> < 9000000000000000" and "\<bar>a * b\<bar> < 9000000000000000"
  shows "strict_op W BAdd (int_json a) (int_json b) = int_json (a + b) \<and>
    strict_op W BMul (int_json a) (int_json b) = int_json (a * b) \<and>
    strict_op W BLt (int_json a) (int_json b) = VBool (a < b) \<and>
    strict_op W BEq (int_json a) (int_json b) = VBool (a = b)"
proof (intro conjI)
  have b: "\<bar>a\<bar> < 2 ^ 53" "\<bar>b\<bar> < 2 ^ 53" using assms by simp_all
  show "strict_op W BAdd (int_json a) (int_json b) = int_json (a + b)"
    using f_add_int [OF b] num_int [OF assms(3)]
    by (simp add: strict_op_def b_add_def int_json_def number_as_f64_int)
  show "strict_op W BMul (int_json a) (int_json b) = int_json (a * b)"
  proof (cases "a = 0 \<or> b = 0")
    case True
    with f_mul_zero [OF True b] show ?thesis
      by (auto simp: strict_op_def b_arith_def int_json_def number_as_f64_int)
  next
    case False
    with f_mul_int [OF b] num_int [OF assms(4)] show ?thesis
      by (simp add: strict_op_def b_arith_def int_json_def number_as_f64_int)
  qed
  show "strict_op W BLt (int_json a) (int_json b) = VBool (a < b)"
    using f_cmp_int [OF b]
    by (simp add: strict_op_def b_compare_def value_cmp_def cmp_holds_def int_json_def number_as_f64_int)
  show "strict_op W BEq (int_json a) (int_json b) = VBool (a = b)"
    by (auto simp: strict_op_def int_json_def number_from_i64_def)
qed

theorem integers_are_exact_witness:
  "strict_op demo_world BMul (int_json 3000000) (int_json (- 7)) = int_json (- 21000000)"
  using integers_are_exact [of 3000000 "- 7" demo_world] by simp

text \<open>
  An integer and a float of the same value are unequal although each is at most the other:
  equality compares representations, order compares values.
\<close>

theorem integer_is_not_its_float:
  "strict_op W BEq (VNumber (PosInt 1)) (VNumber (Float (f64_of_int 1))) = VBool False \<and>
   strict_op W BLe (VNumber (PosInt 1)) (VNumber (Float (f64_of_int 1))) = VBool True \<and>
   strict_op W BGe (VNumber (PosInt 1)) (VNumber (Float (f64_of_int 1))) = VBool True"
  using f_cmp_int [of 1 1]
  by (simp add: strict_op_def b_compare_def value_cmp_def cmp_holds_def)

end
