(* ===== verification/Edit.thy ===== *)
theory Edit
  imports Parser_Facts
begin

text \<open>
  Editing the business surface of a source text (\<open>core/src/vjs.rs\<close>, section editing):
  \<open>get_literal\<close> reads a surface literal, \<open>set_literal\<close> rewrites one literal or adds a key to a
  table, by splicing the text at the spans the parser recorded. \<open>serde_json\<close> is a parameter:
  \<open>to_json\<close> is its compact printer, \<open>from_json\<close> its parser.
\<close>

datatype eerr =
    EParse perr
  | ENoLiteral string
  | ENotEditable string string
  | ENotTable string string
  | EMalformed string

definition whole_key :: "string \<Rightarrow> bool" where
  "whole_key key \<longleftrightarrow> key = [] \<or> key = ''-''"

definition get_literal :: "string \<Rightarrow> string \<Rightarrow> string \<Rightarrow> (json option, eerr) result" where
  "get_literal src name key =
     (case parse src of
        Panic \<Rightarrow> Panic
      | Err _ \<Rightarrow> Ok None
      | Ok prog \<Rightarrow>
          (case find_surface (pg_surface prog) name of
             None \<Rightarrow> Ok None
           | Some entry \<Rightarrow>
               if whole_key key then Ok (Some (se_value entry))
               else Ok (value_get (se_value entry) key)))"

text \<open>The end of a literal without the blanks before the next token.\<close>

fun trim_span :: "string \<Rightarrow> nat \<Rightarrow> nat \<Rightarrow> nat" where
  "trim_span src start 0 = 0"
| "trim_span src start (Suc e) =
     (if start < Suc e \<and> (src ! e = CHR '' '' \<or> src ! e = CHR 0x09 \<or> src ! e = CHR 0x0D)
      then trim_span src start e else Suc e)"

definition splice :: "string \<Rightarrow> nat \<Rightarrow> nat \<Rightarrow> string \<Rightarrow> (string, eerr) result" where
  "splice src a b mid =
     rbind (str_slice src 0 a) (\<lambda>pre.
     rbind (str_slice src b (length src)) (\<lambda>post.
       let out = pre @ mid @ post in
       rbind (map_err EParse (parse out)) (\<lambda>_. Ok out)))"

fun find_span :: "(string \<times> span) list \<Rightarrow> string \<Rightarrow> span option" where
  "find_span [] key = None"
| "find_span ((k, sp) # rest) key = (if k = key then Some sp else find_span rest key)"

definition literal_span :: "surface_entry \<Rightarrow> string \<Rightarrow> span option" where
  "literal_span entry key =
     (if whole_key key then Some (se_value_span entry) else find_span (se_entry_spans entry) key)"

text \<open>A key the table does not have yet is inserted before the closing brace.\<close>

definition insertion :: "(json \<Rightarrow> string) \<Rightarrow> json omap \<Rightarrow> string \<Rightarrow> json \<Rightarrow> string" where
  "insertion to_json obj key v =
     (if obj = [] then [] else '', '') @ to_json (VString key) @ '': '' @ to_json v"

definition add_key ::
  "(json \<Rightarrow> string) \<Rightarrow> (string \<Rightarrow> json option) \<Rightarrow> string \<Rightarrow> string \<Rightarrow> span \<Rightarrow> string \<Rightarrow> json \<Rightarrow>
    (string, eerr) result" where
  "add_key to_json from_json src name sp key v =
     (let (vstart, vend) = sp in
      rbind (str_slice src vstart (min vend (length src))) (\<lambda>slice.
        let val_text = trim_end slice in
        case from_json val_text of
          None \<Rightarrow> Err (ENotEditable name key)
        | Some parsed \<Rightarrow>
            (case as_object parsed of
               None \<Rightarrow> Err (ENotTable name key)
             | Some obj \<Rightarrow>
                 (case byte_rfind val_text CHR ''}'' of
                    None \<Rightarrow> Err (EMalformed name)
                  | Some i \<Rightarrow>
                      splice src (vstart + i) (vstart + i) (insertion to_json obj key v)))))"

definition set_literal ::
  "(json \<Rightarrow> string) \<Rightarrow> (string \<Rightarrow> json option) \<Rightarrow> string \<Rightarrow> string \<Rightarrow> string \<Rightarrow> json \<Rightarrow>
    (string, eerr) result" where
  "set_literal to_json from_json src name key v =
     rbind (map_err EParse (parse src)) (\<lambda>prog.
       case find_surface (pg_surface prog) name of
         None \<Rightarrow> Err (ENoLiteral name)
       | Some entry \<Rightarrow>
           (case literal_span entry key of
              Some (start, stop) \<Rightarrow>
                splice src start (trim_span src start (min stop (length src))) (to_json v)
            | None \<Rightarrow> add_key to_json from_json src name (se_value_span entry) key v))"

section \<open>Facts\<close>

lemma splice_Ok:
  assumes "splice src a b mid = Ok out"
  shows "out = take a src @ mid @ drop b src" and "a \<le> length src" and "b \<le> length src"
    and "\<exists>prog. parse out = Ok prog"
  using assms by (auto simp: splice_def Let_def rbind_eq_Ok str_slice_def split: if_splits)

lemma trim_span_le: "trim_span src start e \<le> e"
  by (induction src start e rule: trim_span.induct) auto

lemma trim_span_ge: "start \<le> e \<Longrightarrow> start \<le> trim_span src start e"
  by (induction src start e rule: trim_span.induct) auto

text \<open>Only blanks are cut off the end of the span.\<close>

lemma trim_span_blank:
  "trim_span src start e \<le> i \<Longrightarrow> i < e \<Longrightarrow> src ! i = CHR '' '' \<or> src ! i = CHR 0x09 \<or> src ! i = CHR 0x0D"
  by (induction src start e rule: trim_span.induct) (auto split: if_splits simp: less_Suc_eq)

lemma add_key_Ok:
  assumes "add_key to_json from_json src name sp key v = Ok out"
  obtains obj a where "splice src a a (insertion to_json obj key v) = Ok out"
proof -
  obtain vstart vend where sp: "sp = (vstart, vend)" by fastforce
  with assms obtain slice where sl: "str_slice src vstart (min vend (length src)) = (Ok slice :: (string, eerr) result)"
    by (auto simp: add_key_def rbind_eq_Ok)
  with assms sp obtain parsed where fj: "from_json (trim_end slice) = Some parsed"
    by (cases "from_json (trim_end slice)") (auto simp: add_key_def)
  with assms sp sl obtain obj where obj: "as_object parsed = Some obj"
    by (cases "as_object parsed") (auto simp: add_key_def)
  with assms sp sl fj obtain i where "byte_rfind (trim_end slice) CHR ''}'' = Some i"
    by (cases "byte_rfind (trim_end slice) CHR ''}''") (auto simp: add_key_def)
  with assms sp sl fj obj show thesis
    by (intro that [of "vstart + i" obj]) (simp add: add_key_def Let_def)
qed

lemma set_literal_cases:
  assumes "set_literal to_json from_json src name key v = Ok out"
  obtains (replaced) start stop entry prog where
      "parse src = Ok prog" "find_surface (pg_surface prog) name = Some entry"
      "literal_span entry key = Some (start, stop)"
      "splice src start (trim_span src start (min stop (length src))) (to_json v) = Ok out"
  | (added) obj a entry prog where
      "parse src = Ok prog" "find_surface (pg_surface prog) name = Some entry"
      "literal_span entry key = None"
      "splice src a a (insertion to_json obj key v) = Ok out"
proof -
  from assms obtain prog where prog: "parse src = Ok prog"
    by (auto simp: set_literal_def rbind_eq_Ok)
  with assms obtain entry where entry: "find_surface (pg_surface prog) name = Some entry"
    by (cases "find_surface (pg_surface prog) name") (auto simp: set_literal_def)
  show thesis
  proof (cases "literal_span entry key")
    case None
    with assms prog entry have "add_key to_json from_json src name (se_value_span entry) key v = Ok out"
      by (simp add: set_literal_def)
    then show ?thesis by (rule add_key_Ok) (rule added [OF prog entry None])
  next
    case (Some sp)
    with assms prog entry show ?thesis
      by (cases sp) (auto simp: set_literal_def intro: replaced)
  qed
qed

section \<open>What an edit keeps\<close>


definition demo_surface :: string where
  "demo_surface = ''LIMIT = 10'' @ [CHR 0x0A] @ ''x = LIMIT''"

lemma demo_edit:
  "set_literal (\<lambda>_. ''25'') (\<lambda>_. None) demo_surface ''LIMIT'' ''-'' (VNumber (PosInt 25)) =
     Ok (''LIMIT = 25'' @ [CHR 0x0A] @ ''x = LIMIT'')"
  by code_simp


text \<open>
  The value printed as JSON is read back by the scanner of VejasScript, which knows fewer
  escapes: a carriage return printed as \<open>\r\<close> comes back as the letter.
\<close>

theorem set_literal_loses_carriage_return:
  "get_literal ([CHR ''K'', CHR 0x20, CHR ''='', CHR 0x20, CHR 0x22, CHR 0x5C, CHR ''r'', CHR 0x22]) ''K'' ''-'' =
     Ok (Some (VString ''r''))"
  by code_simp

end
