(* ===== verification/Mqtt.thy ===== *)
theory Mqtt
  imports Rust_Str "HOL-Library.Word"
begin

unbundle bit_operations_syntax

text \<open>
  The MQTT 3.1.1 client (\<open>core/src/mqtt.rs\<close>): encoding of packets, the packet identifier, the
  operations of \<open>Client\<close> and the parsing of inbound packets, over a stream of bytes and read
  timeouts. Bytes are \<open>8 word\<close>, identifiers \<open>16 word\<close>, with Rust's wrap-around.
\<close>

type_synonym u8 = "8 word"
type_synonym u16 = "16 word"

definition u8_of_char :: "char \<Rightarrow> u8" where
  "u8_of_char c = of_nat (of_char c)"

definition char_of_u8 :: "u8 \<Rightarrow> char" where
  "char_of_u8 b = char_of (unat b)"

definition be_bytes :: "u16 \<Rightarrow> u8 list" where
  "be_bytes w = [ucast (drop_bit 8 w), ucast w]"

definition from_be_bytes :: "u8 \<Rightarrow> u8 \<Rightarrow> u16" where
  "from_be_bytes a b = (push_bit 8 (ucast a) OR ucast b)"

section \<open>Packets\<close>

datatype packet =
    ConnAck bool u8
  | Publish string "u8 list" u8 u16
  | PubAck u16
  | SubAck u16 u8
  | PingResp
  | Other u8

definition put_str :: "string \<Rightarrow> u8 list" where
  "put_str s = be_bytes (of_nat (length s)) @ map u8_of_char s"

fun put_remaining_len :: "nat \<Rightarrow> u8 list" where
  "put_remaining_len n =
     (if n div 128 = 0 then [of_nat (n mod 128)]
      else (of_nat (n mod 128) OR 0x80) # put_remaining_len (n div 128))"

declare put_remaining_len.simps [simp del]

definition frame :: "u8 \<Rightarrow> u8 \<Rightarrow> u8 list \<Rightarrow> u8 list" where
  "frame packet_type flags body =
     (push_bit 4 packet_type OR (flags AND 0x0F)) # put_remaining_len (length body) @ body"

definition nth_or :: "u8 list \<Rightarrow> nat \<Rightarrow> u8 \<Rightarrow> u8" where
  "nth_or xs i d = (if i < length xs then xs ! i else d)"

definition parse_publish :: "u8 \<Rightarrow> u8 list \<Rightarrow> packet" where
  "parse_publish b1 body =
     (let qos = drop_bit 1 b1 AND 0x03;
          tlen = unat (from_be_bytes (nth_or body 0 0) (nth_or body 1 0));
          topic = from_utf8_lossy (map char_of_u8
            (if 2 + tlen \<le> length body then take tlen (drop 2 body) else []));
          i = 2 + tlen;
          (pid, j) =
            (if 0 < qos then (from_be_bytes (nth_or body i 0) (nth_or body (i + 1) 0), i + 2)
             else (0, i))
      in Publish topic (drop j body) qos pid)"

definition parse_packet :: "u8 \<Rightarrow> u8 list \<Rightarrow> packet" where
  "parse_packet b1 body =
     (let ptype = drop_bit 4 b1 in
      if ptype = 2 then
        ConnAck (case body of b # _ \<Rightarrow> b AND 1 = 1 | [] \<Rightarrow> False) (nth_or body 1 0xFF)
      else if ptype = 4 then PubAck (from_be_bytes (nth_or body 0 0) (nth_or body 1 0))
      else if ptype = 9 then
        SubAck (from_be_bytes (nth_or body 0 0) (nth_or body 1 0)) (nth_or body 2 0x80)
      else if ptype = 13 then PingResp
      else if ptype = 3 then parse_publish b1 body
      else Other ptype)"

section \<open>The client\<close>

text \<open>What reading the stream meets; after the last event the peer has closed.\<close>

datatype event = Byte u8 | Timeout

record client =
  c_in :: "event list"
  c_out :: "u8 list"
  c_broken :: bool
  next_pid :: u16
  keepalive :: nat
  last_out :: nat

type_synonym 'a io = "(client, 'a, string) stm"

definition new_client :: "event list \<Rightarrow> u16 \<Rightarrow> nat \<Rightarrow> client" where
  "new_client inbound keepalive_secs now =
     \<lparr>c_in = inbound, c_out = [], c_broken = False, next_pid = 1,
      keepalive = unat (max keepalive_secs 1), last_out = now\<rparr>"

definition pid :: "u16 io" where
  "pid c = (Ok (next_pid c), c\<lparr>next_pid := max (next_pid c + 1) 1\<rparr>)"

definition send :: "nat \<Rightarrow> u8 list \<Rightarrow> unit io" where
  "send now bytes c =
     (if c_broken c then (Err ''broken pipe'', c)
      else (Ok (), c\<lparr>c_out := c_out c @ bytes, last_out := now\<rparr>))"

fun take_bytes :: "nat \<Rightarrow> event list \<Rightarrow> (u8 list, string) result \<times> event list" where
  "take_bytes 0 es = (Ok [], es)"
| "take_bytes (Suc n) [] = (Err ''failed to fill whole buffer'', [])"
| "take_bytes (Suc n) (Timeout # es) = (Err ''timed out'', es)"
| "take_bytes (Suc n) (Byte b # es) =
     (case take_bytes n es of
        (Ok bs, es') \<Rightarrow> (Ok (b # bs), es')
      | (r, es') \<Rightarrow> (r, es'))"

definition read_exact :: "nat \<Rightarrow> u8 list io" where
  "read_exact n c = (case take_bytes n (c_in c) of (r, es) \<Rightarrow> (r, c\<lparr>c_in := es\<rparr>))"

fun read_len :: "nat \<Rightarrow> nat \<Rightarrow> nat \<Rightarrow> nat io" where
  "read_len 0 mult v = mfail ''malformed remaining length''"
| "read_len (Suc k) mult v =
     mbind (read_exact 1) (\<lambda>bs.
       let b = hd bs; v' = v + unat (b AND 0x7F) * mult in
       if b AND 0x80 = 0 then mret v' else read_len k (mult * 128) v')"

definition read_remaining_len :: "nat io" where
  "read_remaining_len = read_len 4 1 0"

definition read_packet :: "packet option io" where
  "read_packet c =
     (case c_in c of
        [] \<Rightarrow> (Err ''connection closed by broker'', c)
      | Timeout # es \<Rightarrow> (Ok None, c\<lparr>c_in := es\<rparr>)
      | Byte b1 # es \<Rightarrow>
          mbind read_remaining_len (\<lambda>remaining.
          mbind (read_exact remaining) (\<lambda>body. mret (Some (parse_packet b1 body))))
            (c\<lparr>c_in := es\<rparr>))"

lemma take_bytes_shrinks: "take_bytes n es = (r, es') \<Longrightarrow> length es' \<le> length es"
proof (induction n es arbitrary: r es' rule: take_bytes.induct)
  case (4 n b es)
  obtain q es1 where "take_bytes n es = (q, es1)" by fastforce
  with 4 show ?case by (cases q) (fastforce split: prod.splits)+
qed auto

lemma read_exact_shrinks: "read_exact n c = (r, c') \<Longrightarrow> length (c_in c') \<le> length (c_in c)"
  by (auto simp: read_exact_def split: prod.splits dest: take_bytes_shrinks)

lemma read_len_shrinks: "read_len k m v c = (r, c') \<Longrightarrow> length (c_in c') \<le> length (c_in c)"
proof (induction k arbitrary: m v c r c')
  case (Suc k)
  from Suc.prems show ?case unfolding read_len.simps
  proof (cases rule: mbind_cases)
    case (Ok bs t)
    from Ok(2) have "length (c_in c') \<le> length (c_in t)"
      by (cases "hd bs AND 128 = 0") (auto simp: Let_def dest: Suc.IH)
    with read_exact_shrinks [OF Ok(1)] show ?thesis by simp
  qed (auto dest: read_exact_shrinks)
qed simp

lemma read_packet_None: "read_packet c = (Ok None, c') \<Longrightarrow> length (c_in c') < length (c_in c)"
  by (auto simp: read_packet_def split: list.splits event.splits elim!: mbind_cases)

function read_packet_blocking :: "packet io" where
  "read_packet_blocking c =
     (case read_packet c of
        (Ok (Some p), c') \<Rightarrow> (Ok p, c')
      | (Ok None, c') \<Rightarrow> read_packet_blocking c'
      | (Err e, c') \<Rightarrow> (Err e, c')
      | (Panic, c') \<Rightarrow> (Panic, c'))"
  by pat_completeness auto
termination by (relation "measure (\<lambda>c. length (c_in c))") (auto dest: read_packet_None [OF sym])

declare read_packet_blocking.simps [simp del]

definition connect_flags :: "bool \<Rightarrow> string option \<Rightarrow> string option \<Rightarrow> u8" where
  "connect_flags clean_session user pass =
     (if clean_session then 0x02 else 0) OR (if user \<noteq> None then 0x80 else 0)
       OR (if pass \<noteq> None then 0x40 else 0)"

definition connect ::
  "nat \<Rightarrow> string \<Rightarrow> bool \<Rightarrow> string option \<Rightarrow> string option \<Rightarrow> unit io" where
  "connect now client_id clean_session user pass =
     mbind mget (\<lambda>c.
       let body = put_str ''MQTT'' @ [4, connect_flags clean_session user pass]
                  @ be_bytes (of_nat (keepalive c)) @ put_str client_id
                  @ (case user of Some u \<Rightarrow> put_str u | None \<Rightarrow> [])
                  @ (case pass of Some p \<Rightarrow> put_str p | None \<Rightarrow> [])
       in mbind (send now (frame 1 0 body)) (\<lambda>_.
          mbind read_packet_blocking (\<lambda>p.
            case p of
              ConnAck _ code \<Rightarrow> if code = 0 then mret () else mfail ''CONNACK refused''
            | _ \<Rightarrow> mfail ''expected CONNACK'')))"

definition subscribe :: "nat \<Rightarrow> string \<Rightarrow> u8 \<Rightarrow> unit io" where
  "subscribe now topic qos =
     mbind pid (\<lambda>p.
     mbind (send now (frame 8 0x02 (be_bytes p @ put_str topic @ [qos]))) (\<lambda>_.
     mbind read_packet_blocking (\<lambda>q.
       case q of
         SubAck _ code \<Rightarrow> if code \<le> 2 then mret () else mfail ''SUBACK failure''
       | _ \<Rightarrow> mfail ''expected SUBACK'')))"

definition publish_body :: "string \<Rightarrow> u8 list \<Rightarrow> u16 option \<Rightarrow> u8 list" where
  "publish_body topic payload p =
     put_str topic @ (case p of Some i \<Rightarrow> be_bytes i | None \<Rightarrow> []) @ payload"

definition publish :: "nat \<Rightarrow> string \<Rightarrow> u8 list \<Rightarrow> u8 \<Rightarrow> u16 option io" where
  "publish now topic payload qos =
     mbind (if 0 < qos then mbind pid (mret \<circ> Some) else mret None) (\<lambda>p.
     mbind (send now (frame 3 (push_bit 1 (qos AND 0x03)) (publish_body topic payload p)))
       (\<lambda>_. mret p))"

definition puback :: "nat \<Rightarrow> u16 \<Rightarrow> unit io" where
  "puback now p = send now (frame 4 0 (be_bytes p))"

definition pingreq :: "nat \<Rightarrow> unit io" where
  "pingreq now = send now (frame 12 0 [])"

definition disconnect :: "nat \<Rightarrow> unit io" where
  "disconnect now c = (Ok (), snd (send now (frame 14 0 []) c))"

text \<open>Times are in half seconds, so that half of the keepalive is a whole number.\<close>

definition keepalive_tick :: "nat \<Rightarrow> unit io" where
  "keepalive_tick now =
     mbind mget (\<lambda>c. if keepalive c \<le> now - last_out c then pingreq now else mret ())"

section \<open>Facts\<close>

lemma u8_char [simp]: "char_of_u8 (u8_of_char c) = c"
proof -
  have "unat (of_nat (of_char c :: nat) :: u8) = of_char c"
    by (subst unat_of_nat) (simp add: of_char_mod_256)
  then show ?thesis by (simp add: char_of_u8_def u8_of_char_def)
qed

lemma be_bytes_round [simp]: "from_be_bytes (ucast (drop_bit 8 w)) (ucast w) = (w :: u16)"
  unfolding from_be_bytes_def
  by (rule bit_word_eqI) (auto simp: bit_simps)

lemma pid_not_zero: "next_pid (snd (pid c)) \<noteq> 0"
  by (auto simp: pid_def max_def word_le_nat_alt)

lemma low_bits:
  assumes "x < 128"
  shows "(of_nat x :: u8) AND 0x7F = of_nat x"
proof -
  have "(of_nat x :: u8) AND mask 7 = take_bit 7 (of_nat x)" by (simp add: take_bit_eq_mask)
  also have "\<dots> = of_nat x" using assms by (simp add: take_bit_of_nat take_bit_nat_def)
  finally show ?thesis by (simp add: mask_eq_exp_minus_1)
qed

lemma length_byte:
  assumes "x < 128"
  shows "(of_nat x :: u8) AND 0x80 = 0" and "((of_nat x :: u8) OR 0x80) AND 0x80 \<noteq> 0"
    and "((of_nat x :: u8) OR 0x80) AND 0x7F = of_nat x"
    and "unat (of_nat x :: u8) = x"
proof -
  have "(of_nat x :: u8) AND 0x80 = (of_nat x AND 0x7F) AND 0x80" using low_bits [OF assms] by simp
  also have "\<dots> = 0" by (simp add: and.assoc)
  finally show "(of_nat x :: u8) AND 0x80 = 0" .
  then show "((of_nat x :: u8) OR 0x80) AND 0x80 \<noteq> 0" by (simp add: bit.conj_disj_distrib2)
  show "((of_nat x :: u8) OR 0x80) AND 0x7F = of_nat x"
    using low_bits [OF assms] by (simp add: bit.conj_disj_distrib2)
  show "unat (of_nat x :: u8) = x" using assms by (simp add: unat_of_nat)
qed

lemma read_byte: "c_in c = Byte b # es \<Longrightarrow> read_exact 1 c = (Ok [b], c\<lparr>c_in := es\<rparr>)"
  by (simp add: read_exact_def)

text \<open>Decoding the length field gives back the length, and reads exactly that field.\<close>

lemma read_len_put:
  "n < 128 ^ k \<Longrightarrow> 0 < k \<Longrightarrow> c_in c = map Byte (put_remaining_len n) @ es \<Longrightarrow>
     read_len k m v c = (Ok (v + n * m), c\<lparr>c_in := es\<rparr>)"
proof (induction k arbitrary: n m v c)
  case (Suc k)
  have x: "n mod 128 < 128" by simp
  show ?case
  proof (cases "n div 128 = 0")
    case True
    then have n: "n < 128" by (simp add: div_eq_0_iff)
    with Suc.prems(3) have "c_in c = Byte (of_nat n) # es"
      by (subst (asm) put_remaining_len.simps) simp
    from read_byte [OF this] show ?thesis
      using length_byte [OF n] low_bits [OF n] by (simp add: mbind_def Let_def)
  next
    case False
    let ?c = "c\<lparr>c_in := map Byte (put_remaining_len (n div 128)) @ es\<rparr>"
    from False Suc.prems(3) have "c_in c = Byte (of_nat (n mod 128) OR 0x80) #
        map Byte (put_remaining_len (n div 128)) @ es"
      by (subst (asm) put_remaining_len.simps) simp
    note rb = read_byte [OF this]
    have "n div 128 < 128 ^ k" using Suc.prems(1) by (simp add: less_mult_imp_div_less mult.commute)
    moreover from this False have "0 < k" by (cases k) auto
    ultimately have "n div 128 < 128 ^ k" "0 < k" .
    from Suc.IH [OF this, of ?c]
    have "read_len k (m * 128) (v + n mod 128 * m) ?c =
        (Ok (v + n mod 128 * m + n div 128 * (m * 128)), c\<lparr>c_in := es\<rparr>)" by simp
    moreover have "v + n mod 128 * m + n div 128 * (m * 128) = v + n * m"
      by (metis (no_types) add.assoc add_mult_distrib mod_div_mult_eq mult.assoc mult.commute)
    ultimately show ?thesis
      using rb length_byte [OF x] by (simp add: mbind_def Let_def)
  qed
qed simp

lemma take_bytes_all: "take_bytes (length bs) (map Byte bs @ es) = (Ok bs, es)"
  by (induction bs) auto

lemma read_frame:
  assumes "length body < 128 ^ 4" and "c_in c = map Byte (frame t f body) @ es"
  shows "read_packet c = (Ok (Some (parse_packet (push_bit 4 t OR (f AND 0x0F)) body)), c\<lparr>c_in := es\<rparr>)"
proof -
  let ?b = "push_bit 4 t OR (f AND 0x0F)"
  let ?c = "c\<lparr>c_in := map Byte (put_remaining_len (length body)) @ map Byte body @ es\<rparr>"
  have "read_remaining_len ?c = (Ok (length body), ?c\<lparr>c_in := map Byte body @ es\<rparr>)"
    unfolding read_remaining_len_def using read_len_put [OF assms(1) _, of ?c "map Byte body @ es" 1 0] by simp
  then show ?thesis
    using assms(2) by (simp add: read_packet_def frame_def mbind_def read_exact_def take_bytes_all)
qed

lemma valid_lossy: "valid_utf8 s \<Longrightarrow> from_utf8_lossy (map char_of_u8 (map u8_of_char s)) = s"
  by (simp add: comp_def from_utf8_lossy_valid)

lemma topic_len: "length s < 65536 \<Longrightarrow> unat (of_nat (length s) :: u16) = length s"
  by (simp add: unat_of_nat)

text \<open>The packet a broker reads back is the one published.\<close>

lemma header_bits:
  assumes "q < (4 :: u8)"
  shows "drop_bit 4 (push_bit 4 3 OR (push_bit 1 (q AND 0x03) AND 0x0F)) = (3 :: u8)"
    and "drop_bit 1 (push_bit 4 3 OR (push_bit 1 (q AND 0x03) AND 0x0F)) AND 0x03 = q"
proof -
  have "unat q < 4" using assms by (simp add: word_less_nat_alt)
  then consider "unat q = 0" | "unat q = 1" | "unat q = 2" | "unat q = 3" by linarith
  then have "q = 0 \<or> q = 1 \<or> q = 2 \<or> q = 3"
    by cases (simp_all add: word_unat_eq_iff)
  then show "drop_bit 4 (push_bit 4 3 OR (push_bit 1 (q AND 0x03) AND 0x0F)) = (3 :: u8)"
    and "drop_bit 1 (push_bit 4 3 OR (push_bit 1 (q AND 0x03) AND 0x0F)) AND 0x03 = q"
    by (auto simp: push_bit_eq_mult drop_bit_eq_div)
qed

lemma parse_publish_body:
  assumes topic: "valid_utf8 topic" "length topic < 65536"
    and qos: "drop_bit 1 b1 AND 0x03 = qos" and p: "p = None \<longleftrightarrow> qos = 0"
  shows "parse_publish b1 (publish_body topic payload p) =
    Publish topic payload qos (case p of Some i \<Rightarrow> i | None \<Rightarrow> 0)"
proof -
  let ?b = "publish_body topic payload p"
  have len: "unat (from_be_bytes (nth_or ?b 0 0) (nth_or ?b 1 0)) = length topic"
    using topic by (simp add: publish_body_def put_str_def be_bytes_def nth_or_def topic_len)
  have top: "map char_of_u8 (take (length topic) (drop 2 ?b)) = topic"
    by (simp add: publish_body_def put_str_def be_bytes_def comp_def)
  have fits: "2 + length topic \<le> length ?b"
    by (simp add: publish_body_def put_str_def be_bytes_def)
  show ?thesis
  proof (cases p)
    case None
    with p have "drop (2 + length topic) ?b = payload"
      by (simp add: publish_body_def put_str_def be_bytes_def)
    with None p qos len top fits topic(1) show ?thesis
      by (simp add: parse_publish_def Let_def from_utf8_lossy_valid)
  next
    case (Some i)
    have d: "drop (2 + length topic) ?b = be_bytes i @ payload"
      using Some by (simp add: publish_body_def put_str_def be_bytes_def)
    then have rest: "drop (2 + length topic + 2) ?b = payload"
      by (metis (no_types) add.commute append_Cons append_Nil be_bytes_def drop_0 drop_Suc_Cons drop_drop numeral_2_eq_2)
    have n: "2 + length topic + 1 < length ?b"
      using Some by (simp add: publish_body_def put_str_def be_bytes_def)
    have b0: "nth_or ?b (2 + length topic) 0 = ucast (drop_bit 8 i)"
      using arg_cong [OF d, of hd] n by (simp add: hd_drop_conv_nth nth_or_def be_bytes_def)
    have "drop (2 + length topic) ?b ! 1 = ?b ! (2 + length topic + 1)"
      using n by (intro nth_drop) simp
    moreover have "drop (2 + length topic) ?b ! 1 = ucast i"
      unfolding d by (simp add: be_bytes_def)
    ultimately have b1: "nth_or ?b (2 + length topic + 1) 0 = ucast i"
      using n by (simp only: nth_or_def if_True)
    have "0 < qos" using p Some by (simp add: word_neq_0_conv)
    with Some qos len top fits topic(1) rest b0 b1 show ?thesis
      by (simp add: parse_publish_def Let_def from_utf8_lossy_valid)
  qed
qed

section \<open>What the wire carries\<close>

text \<open>
  The remaining-length field round-trips: what \<open>put_remaining_len\<close> writes,
  \<open>read_remaining_len\<close> reads back, taking exactly its bytes, for every length below 128^4.
\<close>

theorem remaining_len_roundtrip:
  assumes "n < 128 ^ 4" and "c_in c = map Byte (put_remaining_len n) @ rest"
  shows "read_remaining_len c = (Ok n, c\<lparr>c_in := rest\<rparr>)"
  unfolding read_remaining_len_def using read_len_put [OF assms(1) _ assms(2)] by simp

theorem remaining_len_roundtrip_witness:
  "fst (read_remaining_len (new_client (map Byte (put_remaining_len 321)) 60 0)) = Ok 321"
  using remaining_len_roundtrip [of 321 "new_client (map Byte (put_remaining_len 321)) 60 0" "[]"]
  by (simp add: new_client_def)



fun take_pids :: "nat \<Rightarrow> client \<Rightarrow> u16 list" where
  "take_pids 0 c = []"
| "take_pids (Suc k) c = next_pid c # take_pids k (snd (pid c))"

lemma take_pids_positive: "next_pid c \<noteq> 0 \<Longrightarrow> 0 \<notin> set (take_pids k c)"
  by (induction k c rule: take_pids.induct) (auto simp: pid_not_zero)

text \<open>
  The packet identifier is never zero, which MQTT forbids: the counter starts at one and
  skips zero when it wraps, so every identifier a client takes, however many, is positive.
\<close>

theorem pids_positive: "0 \<notin> set (take_pids k (new_client inbound keepalive_secs now))"
  by (rule take_pids_positive) (simp add: new_client_def)

end
