(* ===== verification/Versions.thy ===== *)
theory Versions
  imports Edit "HOL-Library.Word"
begin

unbundle bit_operations_syntax

text \<open>
  The shared buckets of a cluster: the key-value interface of \<open>core/src/bus.rs\<close> (\<open>Kv\<close>), the
  version overlay of \<open>core/src/versions.rs\<close> and the proposal queue of
  \<open>core/src/proposals.rs\<close>. JetStream and \<open>serde_json\<close> are not part of the repository: a bucket
  is a record of operations over a state of its own, a codec a printer with a parser, and what
  the program relies on are the predicates \<open>kv_laws\<close> and \<open>codec_law\<close>.
\<close>

section \<open>Key-value buckets\<close>

record 's kv =
  kv_get :: "string \<Rightarrow> 's \<Rightarrow> (string option, string) result"
  kv_put :: "string \<Rightarrow> string \<Rightarrow> ('s, nat, string) stm"
  kv_create :: "string \<Rightarrow> string \<Rightarrow> ('s, nat, string) stm"
  kv_update :: "string \<Rightarrow> string \<Rightarrow> nat \<Rightarrow> ('s, nat, string) stm"
  kv_delete :: "string \<Rightarrow> ('s, unit, string) stm"
  kv_keys :: "'s \<Rightarrow> (string list, string) result"

text \<open>
  What JetStream documents of a bucket, over the value and revision each key has and the last
  sequence number of its stream: a read is the current value; a write that is confirmed is in
  the bucket, with a revision no message had before; a \<open>create\<close> succeeds on an absent key only,
  an \<open>update\<close> on the named revision only; an operation that fails has changed nothing, or (its
  confirmation was lost) just what it was asked to change.
\<close>

definition written ::
  "('s \<Rightarrow> string \<Rightarrow> (string \<times> nat) option) \<Rightarrow> ('s \<Rightarrow> nat) \<Rightarrow> string \<Rightarrow> string \<Rightarrow> nat \<Rightarrow> 's \<Rightarrow> 's \<Rightarrow> bool" where
  "written view seq k v r s s' \<longleftrightarrow> seq s < r \<and> r \<le> seq s' \<and> view s' = (view s)(k \<mapsto> (v, r))"

definition lost_write ::
  "('s \<Rightarrow> string \<Rightarrow> (string \<times> nat) option) \<Rightarrow> ('s \<Rightarrow> nat) \<Rightarrow> string \<Rightarrow> string \<Rightarrow> 's \<Rightarrow> 's \<Rightarrow> bool" where
  "lost_write view seq k v s s' \<longleftrightarrow>
     (view s' = view s \<and> seq s \<le> seq s') \<or> (\<exists>r. written view seq k v r s s')"

definition kv_laws ::
  "'s kv \<Rightarrow> ('s \<Rightarrow> string \<Rightarrow> (string \<times> nat) option) \<Rightarrow> ('s \<Rightarrow> nat) \<Rightarrow> bool" where
  "kv_laws K view seq \<longleftrightarrow>
     (\<forall>k s v. kv_get K k s = Ok v \<longrightarrow> v = map_option fst (view s k)) \<and>
     (\<forall>k v s r s'. kv_put K k v s = (Ok r, s') \<longrightarrow> written view seq k v r s s') \<and>
     (\<forall>k v s e s'. kv_put K k v s = (Err e, s') \<longrightarrow> lost_write view seq k v s s') \<and>
     (\<forall>k v s r s'. kv_create K k v s = (Ok r, s') \<longrightarrow> view s k = None \<and> written view seq k v r s s') \<and>
     (\<forall>k v s e s'. kv_create K k v s = (Err e, s') \<longrightarrow> lost_write view seq k v s s') \<and>
     (\<forall>k v q s r s'. kv_update K k v q s = (Ok r, s') \<longrightarrow>
        (\<exists>w. view s k = Some (w, q)) \<and> written view seq k v r s s') \<and>
     (\<forall>k v q s e s'. kv_update K k v q s = (Err e, s') \<longrightarrow> lost_write view seq k v s s') \<and>
     (\<forall>k s s'. kv_delete K k s = (Ok (), s') \<longrightarrow> view s' = (view s)(k := None) \<and> seq s \<le> seq s') \<and>
     (\<forall>k s e s'. kv_delete K k s = (Err e, s') \<longrightarrow>
        (view s' = view s \<or> view s' = (view s)(k := None)) \<and> seq s \<le> seq s')"

lemma kv_get_law: "kv_laws K view seq \<Longrightarrow> kv_get K k s = Ok v \<Longrightarrow> v = map_option fst (view s k)"
  and kv_put_law: "kv_laws K view seq \<Longrightarrow> kv_put K k v' s = (Ok r, s') \<Longrightarrow> written view seq k v' r s s'"
  and kv_create_law: "kv_laws K view seq \<Longrightarrow> kv_create K k v' s = (Ok r, s') \<Longrightarrow>
    view s k = None \<and> written view seq k v' r s s'"
  and kv_create_err: "kv_laws K view seq \<Longrightarrow> kv_create K k v' s = (Err e, s') \<Longrightarrow> lost_write view seq k v' s s'"
  and kv_update_law: "kv_laws K view seq \<Longrightarrow> kv_update K k v' q s = (Ok r, s') \<Longrightarrow>
    (\<exists>w. view s k = Some (w, q)) \<and> written view seq k v' r s s'"
  and kv_update_err: "kv_laws K view seq \<Longrightarrow> kv_update K k v' q s = (Err e, s') \<Longrightarrow> lost_write view seq k v' s s'"
  and kv_delete_law: "kv_laws K view seq \<Longrightarrow> kv_delete K k s = (Ok (), s') \<Longrightarrow>
    view s' = (view s)(k := None) \<and> seq s \<le> seq s'"
  and kv_delete_err: "kv_laws K view seq \<Longrightarrow> kv_delete K k s = (Err e, s') \<Longrightarrow>
    (view s' = view s \<or> view s' = (view s)(k := None)) \<and> seq s \<le> seq s'"
  unfolding kv_laws_def by metis+

text \<open>A document that is printed reads back as itself.\<close>

record codec =
  cd_print :: "json \<Rightarrow> string"
  cd_parse :: "string \<Rightarrow> json option"

definition codec_law :: "codec \<Rightarrow> json \<Rightarrow> bool" where
  "codec_law C v \<longleftrightarrow> cd_parse C (cd_print C v) = Some v"

section \<open>Versions\<close>

definition fnv_basis :: "64 word" where "fnv_basis = 0xcbf29ce484222325"
definition fnv_prime :: "64 word" where "fnv_prime = 0x00000100000001b3"

fun fnv1a :: "64 word \<Rightarrow> string \<Rightarrow> 64 word" where
  "fnv1a h [] = h"
| "fnv1a h (b # bs) = fnv1a ((h XOR of_nat (of_char b)) * fnv_prime) bs"

definition hex_digit :: "nat \<Rightarrow> char" where
  "hex_digit d = (if d < 10 then char_of (48 + d) else char_of (87 + d))"

text \<open>\<open>n\<close> lower-case hexadecimal digits of a number, the most significant first.\<close>

fun hex :: "nat \<Rightarrow> nat \<Rightarrow> string" where
  "hex 0 x = []"
| "hex (Suc n) x = hex n (x div 16) @ [hex_digit (x mod 16)]"

definition hash_content :: "string \<Rightarrow> string" where
  "hash_content s = hex 16 (unat (fnv1a fnv_basis s))"

definition key_of :: "string \<Rightarrow> string" where
  "key_of flow =
     map (\<lambda>c. case c of
            [b] \<Rightarrow> if is_ascii_alphanumeric b \<or> b = CHR ''_'' then b else CHR ''_''
          | _ \<Rightarrow> CHR ''_'') (str_chars flow)"

definition get_version :: "'s kv \<Rightarrow> codec \<Rightarrow> string \<Rightarrow> 's \<Rightarrow> json option" where
  "get_version K C flow s =
     (case kv_get K (key_of flow) s of
        Ok (Some b) \<Rightarrow> cd_parse C b
      | _ \<Rightarrow> None)"

definition version_record :: "string \<Rightarrow> string \<Rightarrow> string \<Rightarrow> string \<Rightarrow> nat \<Rightarrow> json" where
  "version_record flow source parent actor ts =
     VObject (om_of_list
       [(''flow'', VString flow), (''source'', VString source), (''parent'', VString parent),
        (''hash'', VString (hash_content source)), (''actor'', VString actor),
        (''ts'', VNumber (PosInt (int ts)))])"

definition put_version ::
  "'s kv \<Rightarrow> codec \<Rightarrow> string \<Rightarrow> string \<Rightarrow> string \<Rightarrow> string \<Rightarrow> nat \<Rightarrow> ('s, nat, string) stm" where
  "put_version K C flow source parent actor ts =
     kv_put K (key_of flow) (cd_print C (version_record flow source parent actor ts))"

datatype outcome = Baseline | Overlay | Evicted string string

text \<open>The ring of recent evictions, newest last, at most 50.\<close>

definition note_eviction :: "string \<Rightarrow> string \<Rightarrow> string \<Rightarrow> nat \<Rightarrow> json list \<Rightarrow> json list" where
  "note_eviction flow parent baseline ts v =
     (let v' = v @ [VObject (om_of_list
          [(''flow'', VString flow), (''parent'', VString parent), (''baseline'', VString baseline),
           (''ts'', VNumber (PosInt (int ts)))])]
      in drop (length v' - 50) v')"

definition str_field :: "json \<Rightarrow> string \<Rightarrow> string \<Rightarrow> string" where
  "str_field v k d = (case as_str (value_index v k) of Some s \<Rightarrow> s | None \<Rightarrow> d)"

definition resolve_source ::
  "'s kv \<Rightarrow> codec \<Rightarrow> bool \<Rightarrow> string \<Rightarrow> string \<Rightarrow> nat \<Rightarrow> 's \<times> json list \<Rightarrow>
    (string \<times> outcome) \<times> ('s \<times> json list)" where
  "resolve_source K C available flow baseline ts st =
     (if \<not> available then ((baseline, Baseline), st)
      else
        (case get_version K C flow (fst st) of
           None \<Rightarrow> ((baseline, Baseline), st)
         | Some ov \<Rightarrow>
             (let parent = str_field ov ''parent'' []; base_hash = hash_content baseline in
              if parent = base_hash then ((str_field ov ''source'' baseline, Overlay), st)
              else
                ((baseline, Evicted parent base_hash),
                 (snd (kv_delete K (key_of flow) (fst st)),
                  note_eviction flow parent base_hash ts (snd st))))))"

section \<open>Proposals\<close>

definition new_id :: "nat \<Rightarrow> nat \<Rightarrow> string \<times> nat" where
  "new_id ts seq = (''p-'' @ nat_str ts @ ''-'' @ nat_str seq, seq + 1)"

definition proposal_record ::
  "string \<Rightarrow> string \<Rightarrow> json \<Rightarrow> string \<Rightarrow> string \<Rightarrow> json \<Rightarrow> nat \<Rightarrow> json" where
  "proposal_record i k payload author baseline evidence ts =
     VObject (om_of_list
       [(''id'', VString i), (''kind'', VString k), (''payload'', payload),
        (''author'', VString author), (''created_at'', VNumber (PosInt (int ts))),
        (''baseline'', VString baseline), (''evidence'', evidence),
        (''status'', VString ''pending'')])"

definition submit ::
  "'s kv \<Rightarrow> codec \<Rightarrow> string \<Rightarrow> string \<Rightarrow> json \<Rightarrow> string \<Rightarrow> string \<Rightarrow> json \<Rightarrow> nat \<Rightarrow> ('s, json, string) stm" where
  "submit K C i k payload author baseline evidence ts =
     (let rec = proposal_record i k payload author baseline evidence ts in
      mbind (kv_put K i (cd_print C rec)) (\<lambda>_. mret rec))"

definition get_proposal :: "'s kv \<Rightarrow> codec \<Rightarrow> string \<Rightarrow> 's \<Rightarrow> json option" where
  "get_proposal K C i s =
     (case kv_get K i s of Ok (Some b) \<Rightarrow> cd_parse C b | _ \<Rightarrow> None)"

definition created_at :: "json \<Rightarrow> int" where
  "created_at p = (case as_u64 (value_index p ''created_at'') of Some n \<Rightarrow> n | None \<Rightarrow> 0)"

text \<open>Newest first; the sort is stable.\<close>

definition list_proposals :: "'s kv \<Rightarrow> codec \<Rightarrow> 's \<Rightarrow> json list" where
  "list_proposals K C s =
     (case kv_keys K s of
        Ok keys \<Rightarrow> sort_key (\<lambda>p. - created_at p) (List.map_filter (\<lambda>k. get_proposal K C k s) keys)
      | _ \<Rightarrow> [])"

definition with_status :: "json \<Rightarrow> string \<Rightarrow> string option \<Rightarrow> nat \<Rightarrow> json" where
  "with_status rec status decided_by ts =
     (case rec of
        VObject m \<Rightarrow>
          (let m1 = om_insert ''decided_at'' (VNumber (PosInt (int ts)))
                      (om_insert ''status'' (VString status) m)
           in VObject (case decided_by of
                Some by \<Rightarrow> om_insert ''decided_by'' (VString by) m1
              | None \<Rightarrow> m1))
      | other \<Rightarrow> other)"

definition set_status ::
  "'s kv \<Rightarrow> codec \<Rightarrow> string \<Rightarrow> string \<Rightarrow> string option \<Rightarrow> nat \<Rightarrow> ('s, json, string) stm" where
  "set_status K C i status decided_by ts s =
     (case get_proposal K C i s of
        None \<Rightarrow> (Err ''proposal not found'', s)
      | Some rec \<Rightarrow>
          (let rec' = with_status rec status decided_by ts in
           mbind (kv_put K i (cd_print C rec')) (\<lambda>_. mret rec') s))"

section \<open>Facts\<close>

lemma hex_length: "length (hex n x) = n"
  by (induction n x rule: hex.induct) auto

lemma hash_content_length: "length (hash_content s) = 16"
  by (simp add: hash_content_def hex_length)

lemma note_eviction_bound: "length (note_eviction flow parent base ts v) \<le> 50"
  by (simp add: note_eviction_def Let_def)

lemma get_after_put:
  assumes "kv_laws K view seq" and "kv_put K k b s = (Ok r, s')" and "kv_get K k s' = Ok w"
  shows "w = Some b"
  using kv_get_law [OF assms(1,3)] kv_put_law [OF assms(1,2)] by (simp add: written_def)

lemma get_other_after_put:
  assumes "kv_laws K view seq" and "kv_put K k b s = (Ok r, s')" and "k \<noteq> j"
    and "kv_get K j s = Ok v" and "kv_get K j s' = Ok w"
  shows "w = v"
  using kv_get_law [OF assms(1,4)] kv_get_law [OF assms(1,5)] kv_put_law [OF assms(1,2)] assms(3)
  by (simp add: written_def)

lemma value_index_insert:
  "value_index (VObject (om_insert k v m)) j = (if j = k then v else value_index (VObject m) j)"
  by (simp add: value_index_def om_get_insert)

lemma with_status_status:
  "rec = VObject m \<Longrightarrow> value_index (with_status rec status by ts) ''status'' = VString status"
  by (simp add: with_status_def Let_def value_index_insert split: option.split)

lemma version_record_fields:
  "str_field (version_record flow source parent actor ts) ''parent'' d = parent"
  "str_field (version_record flow source parent actor ts) ''source'' d = source"
  by (simp_all add: version_record_def str_field_def value_index_def om_get_insert)

lemma get_version_put:
  assumes "kv_laws K view seq" and "codec_law C (version_record flow source parent actor ts)"
    and "put_version K C flow source parent actor ts s = (Ok r, s')"
    and "kv_get K (key_of flow) s' = Ok w"
  shows "get_version K C flow s' = Some (version_record flow source parent actor ts)"
  using get_after_put [OF assms(1) assms(3) [unfolded put_version_def] assms(4)] assms(2,4)
  by (simp add: get_version_def codec_law_def)

section \<open>A bucket in memory\<close>

text \<open>A concrete bucket that has the documented behaviour, for the witnesses.\<close>

type_synonym mem = "(string \<Rightarrow> (string \<times> nat) option) \<times> nat"

definition mem_write :: "string \<Rightarrow> string \<Rightarrow> (mem, nat, string) stm" where
  "mem_write k v s = (Ok (Suc (snd s)), ((fst s)(k \<mapsto> (v, Suc (snd s))), Suc (snd s)))"

definition mem_kv :: "mem kv" where
  "mem_kv =
     \<lparr>kv_get = (\<lambda>k s. Ok (map_option fst (fst s k))),
      kv_put = mem_write,
      kv_create = (\<lambda>k v s. if fst s k = None then mem_write k v s else (Err ''key exists'', s)),
      kv_update = (\<lambda>k v q s.
        if map_option snd (fst s k) = Some q then mem_write k v s else (Err ''wrong last sequence'', s)),
      kv_delete = (\<lambda>k s. (Ok (), ((fst s)(k := None), Suc (snd s)))),
      kv_keys = (\<lambda>s. Ok [])\<rparr>"

lemma mem_kv_laws: "kv_laws mem_kv fst snd"
  by (auto simp: kv_laws_def mem_kv_def mem_write_def written_def lost_write_def split: if_splits)

section \<open>What the overlay promises\<close>

text \<open>
  A promoted version is what runs: after \<open>put_version\<close> for a flow whose file is still the
  one it forked from, \<open>resolve_source\<close> returns the promoted source and evicts nothing.
\<close>

theorem put_then_resolve:
  assumes "kv_laws K view seq" and "codec_law C (version_record flow source (hash_content baseline) actor ts)"
    and "put_version K C flow source (hash_content baseline) actor ts s = (Ok r, s')"
    and "kv_get K (key_of flow) s' = Ok w"
  shows "resolve_source K C True flow baseline ts' (s', ev) = ((source, Overlay), (s', ev))"
  using get_version_put [OF assms]
  by (simp add: resolve_source_def version_record_fields)

definition demo_codec :: "json \<Rightarrow> codec" where
  "demo_codec v = \<lparr>cd_print = (\<lambda>_. ''doc''), cd_parse = (\<lambda>_. Some v)\<rparr>"

definition demo_record :: json where
  "demo_record = version_record ''flow:a'' ''x = 2'' (hash_content ''x = 1'') ''ann'' 7"

lemma demo_put:
  "put_version mem_kv (demo_codec demo_record) ''flow:a'' ''x = 2'' (hash_content ''x = 1'') ''ann'' 7 (\<lambda>_. None, 0) =
     (Ok 1, ([key_of ''flow:a'' \<mapsto> (''doc'', 1)], 1))"
  by (simp add: put_version_def mem_kv_def mem_write_def demo_codec_def)

theorem put_then_resolve_witness:
  "fst (resolve_source mem_kv (demo_codec demo_record) True ''flow:a'' ''x = 1'' 8
     (([key_of ''flow:a'' \<mapsto> (''doc'', 1)], 1), [])) = (''x = 2'', Overlay)"
  using put_then_resolve [OF mem_kv_laws _ demo_put, of "Some ''doc''" 8 "[]"]
  by (simp add: codec_law_def demo_codec_def demo_record_def mem_kv_def)

text \<open>
  Git wins: when the file is not the one the overlay forked from (the hashes differ), the
  file runs, the overlay is deleted from the bucket and the eviction is on record; the record
  of evictions never holds more than fifty.
\<close>

theorem stale_overlay_is_evicted:
  assumes "get_version K C flow s = Some ov" and "str_field ov ''parent'' [] \<noteq> hash_content baseline"
  shows "resolve_source K C True flow baseline ts (s, ev) =
    ((baseline, Evicted (str_field ov ''parent'' []) (hash_content baseline)),
     (snd (kv_delete K (key_of flow) s),
      note_eviction flow (str_field ov ''parent'' []) (hash_content baseline) ts ev)) \<and>
    length (note_eviction flow (str_field ov ''parent'' []) (hash_content baseline) ts ev) \<le> 50"
  using assms by (simp add: resolve_source_def Let_def note_eviction_bound)

theorem stale_overlay_is_evicted_witness:
  "fst (resolve_source mem_kv (demo_codec (VObject [])) True ''flow:a'' ''x = 3'' 8
     (([key_of ''flow:a'' \<mapsto> (''doc'', 1)], 1), [])) = (''x = 3'', Evicted [] (hash_content ''x = 3''))"
proof -
  let ?s = "([key_of ''flow:a'' \<mapsto> (''doc'', 1)], 1) :: mem"
  have "get_version mem_kv (demo_codec (VObject [])) ''flow:a'' ?s = Some (VObject [])"
    by (simp add: get_version_def mem_kv_def demo_codec_def)
  moreover have "str_field (VObject []) ''parent'' [] = []" by (simp add: str_field_def value_index_def)
  moreover have "hash_content ''x = 3'' \<noteq> []" using hash_content_length [of "''x = 3''"] by auto
  ultimately show ?thesis
    using stale_overlay_is_evicted [of mem_kv "demo_codec (VObject [])" "''flow:a''" ?s "VObject []" "''x = 3''" 8 "[]"]
    by simp
qed

text \<open>Two units may share a key of the bucket: the separators of a unit name are not kept apart.\<close>

theorem key_of_collides: "key_of ''flow:a:b'' = key_of ''flow:a_b'' \<and> ''flow:a:b'' \<noteq> ''flow:a_b''"
  by code_simp

end
