(* ===== verification/Lease.thy ===== *)
theory Lease
  imports Versions
begin

text \<open>
  Leader election for singleton drivers (\<open>core/src/cluster.rs\<close>): \<open>acquire_blocking\<close>, its
  renewal thread and the drop of \<open>LeaseGuard\<close>, as the steps of a system of instances that share
  one key of the lease bucket. A value may age out of the bucket at any time (the TTL).
\<close>

definition is_singleton :: "string \<Rightarrow> bool" where
  "is_singleton k \<longleftrightarrow>
     k \<in> {''source:interval'', ''source:poll'', ''source:exec'', ''source:stream'', ''source:mqtt''}"

text \<open>
  What an instance is doing with the lease: standing by, running the driver with the revision
  it renews from, or asked to stop by its renewal thread and still holding the guard.
\<close>

datatype holder = Idle | Leader nat | Fenced

record 's system =
  bucket :: 's
  holders :: "string \<Rightarrow> holder"

text \<open>One turn of the loop of \<open>acquire_blocking\<close>.\<close>

definition acquire :: "'s kv \<Rightarrow> string \<Rightarrow> string \<Rightarrow> 's system \<Rightarrow> 's system" where
  "acquire K key i S =
     (case kv_create K key i (bucket S) of
        (Ok r, b) \<Rightarrow> S\<lparr>bucket := b, holders := (holders S)(i := Leader r)\<rparr>
      | (_, b) \<Rightarrow> S\<lparr>bucket := b\<rparr>)"

text \<open>One turn of the renewal thread.\<close>

definition renew :: "'s kv \<Rightarrow> string \<Rightarrow> string \<Rightarrow> nat \<Rightarrow> 's system \<Rightarrow> 's system" where
  "renew K key i r S =
     (case kv_update K key i r (bucket S) of
        (Ok r', b) \<Rightarrow> S\<lparr>bucket := b, holders := (holders S)(i := Leader r')\<rparr>
      | (_, b) \<Rightarrow> S\<lparr>bucket := b, holders := (holders S)(i := Fenced)\<rparr>)"

text \<open>\<open>Drop for LeaseGuard\<close>.\<close>

definition drop_guard :: "'s kv \<Rightarrow> string \<Rightarrow> string \<Rightarrow> 's system \<Rightarrow> 's system" where
  "drop_guard K key i S =
     S\<lparr>bucket := snd (kv_delete K key (bucket S)), holders := (holders S)(i := Idle)\<rparr>"

inductive lease_step ::
  "'s kv \<Rightarrow> ('s \<Rightarrow> string \<Rightarrow> (string \<times> nat) option) \<Rightarrow> ('s \<Rightarrow> nat) \<Rightarrow> string \<Rightarrow>
    's system \<Rightarrow> 's system \<Rightarrow> bool"
  for K view seq key
where
  try_acquire: "holders S i = Idle \<Longrightarrow> lease_step K view seq key S (acquire K key i S)"
| try_renew: "holders S i = Leader r \<Longrightarrow> lease_step K view seq key S (renew K key i r S)"
| stop: "holders S i \<noteq> Idle \<Longrightarrow> lease_step K view seq key S (drop_guard K key i S)"
| age_out: "view b = (view (bucket S))(key := None) \<Longrightarrow> seq (bucket S) \<le> seq b \<Longrightarrow>
    lease_step K view seq key S (S\<lparr>bucket := b\<rparr>)"

inductive_cases lease_stepE: "lease_step K view seq key S S'"

inductive lease_reach ::
  "'s kv \<Rightarrow> ('s \<Rightarrow> string \<Rightarrow> (string \<times> nat) option) \<Rightarrow> ('s \<Rightarrow> nat) \<Rightarrow> string \<Rightarrow> 's system \<Rightarrow> bool"
  for K view seq key
where
  start: "view (bucket S) key = None \<Longrightarrow> (\<And>i. holders S i = Idle) \<Longrightarrow> lease_reach K view seq key S"
| next_step: "lease_reach K view seq key S \<Longrightarrow> lease_step K view seq key S S' \<Longrightarrow>
    lease_reach K view seq key S'"

section \<open>The invariant\<close>

text \<open>
  Revisions are never used twice: each leader has one of its own, and the revision in the
  bucket belongs to the instance whose name is the value.
\<close>

definition lease_inv ::
  "('s \<Rightarrow> string \<Rightarrow> (string \<times> nat) option) \<Rightarrow> ('s \<Rightarrow> nat) \<Rightarrow> string \<Rightarrow> 's system \<Rightarrow> bool" where
  "lease_inv view seq key S \<longleftrightarrow>
     (\<forall>i r. holders S i = Leader r \<longrightarrow> r \<le> seq (bucket S)) \<and>
     (\<forall>v q. view (bucket S) key = Some (v, q) \<longrightarrow> q \<le> seq (bucket S)) \<and>
     (\<forall>i r v. holders S i = Leader r \<longrightarrow> view (bucket S) key = Some (v, r) \<longrightarrow> v = i) \<and>
     (\<forall>i j r. holders S i = Leader r \<longrightarrow> holders S j = Leader r \<longrightarrow> i = j)"

lemma lease_inv_write:
  assumes "lease_inv view seq key S" and "written view seq key i r (bucket S) b"
  shows "lease_inv view seq key (S\<lparr>bucket := b, holders := (holders S)(i := Leader r)\<rparr>)"
    and "lease_inv view seq key (S\<lparr>bucket := b\<rparr>)"
    and "lease_inv view seq key (S\<lparr>bucket := b, holders := (holders S)(i := Fenced)\<rparr>)"
  using assms unfolding lease_inv_def written_def
  by (auto split: if_splits) (meson le_trans less_imp_le not_le less_le_trans)+

lemma lease_inv_mono:
  assumes inv: "lease_inv view seq key S" and le: "seq (bucket S) \<le> seq (bucket S')"
    and v: "\<And>v q. view (bucket S') key = Some (v, q) \<Longrightarrow> view (bucket S) key = Some (v, q)"
    and h: "\<And>i r. holders S' i = Leader r \<Longrightarrow> holders S i = Leader r"
  shows "lease_inv view seq key S'"
  unfolding lease_inv_def
proof (intro conjI allI impI)
  show "r \<le> seq (bucket S')" if "holders S' i = Leader r" for i r
    using inv h [OF that] le unfolding lease_inv_def by (meson le_trans)
  show "q \<le> seq (bucket S')" if "view (bucket S') key = Some (w, q)" for w q
    using inv v [OF that] le unfolding lease_inv_def by (meson le_trans)
  show "w = i" if "holders S' i = Leader r" "view (bucket S') key = Some (w, r)" for i r w
    using inv h [OF that(1)] v [OF that(2)] unfolding lease_inv_def by blast
  show "i = j" if "holders S' i = Leader r" "holders S' j = Leader r" for i j r
    using inv h [OF that(1)] h [OF that(2)] unfolding lease_inv_def by blast
qed

lemma lease_inv_keep:
  assumes inv: "lease_inv view seq key S" and "seq (bucket S) \<le> seq b"
    and "view b key = view (bucket S) key \<or> view b key = None"
  shows "lease_inv view seq key (S\<lparr>bucket := b\<rparr>)"
    and "h \<in> {Idle, Fenced} \<Longrightarrow> lease_inv view seq key (S\<lparr>bucket := b, holders := (holders S)(i := h)\<rparr>)"
proof -
  show "lease_inv view seq key (S\<lparr>bucket := b\<rparr>)"
    by (rule lease_inv_mono [OF inv]) (use assms in auto)
  show "lease_inv view seq key (S\<lparr>bucket := b, holders := (holders S)(i := h)\<rparr>)" if "h \<in> {Idle, Fenced}"
    by (rule lease_inv_mono [OF inv]) (use assms that in \<open>auto split: if_splits\<close>)
qed

lemma lease_inv_lost:
  assumes inv: "lease_inv view seq key S" and lost: "lost_write view seq key i (bucket S) b"
  shows "lease_inv view seq key (S\<lparr>bucket := b\<rparr>)"
    and "lease_inv view seq key (S\<lparr>bucket := b, holders := (holders S)(i := Fenced)\<rparr>)"
proof -
  from lost consider "view b = view (bucket S)" "seq (bucket S) \<le> seq b"
    | r where "written view seq key i r (bucket S) b"
    by (auto simp: lost_write_def)
  then have "lease_inv view seq key (S\<lparr>bucket := b\<rparr>) \<and>
      lease_inv view seq key (S\<lparr>bucket := b, holders := (holders S)(i := Fenced)\<rparr>)"
    by cases (simp_all add: lease_inv_keep [OF inv] lease_inv_write [OF inv])
  then show "lease_inv view seq key (S\<lparr>bucket := b\<rparr>)"
    and "lease_inv view seq key (S\<lparr>bucket := b, holders := (holders S)(i := Fenced)\<rparr>)"
    by blast+
qed

text \<open>A bucket operation that panics is outside what JetStream documents.\<close>

definition kv_answers :: "'s kv \<Rightarrow> bool" where
  "kv_answers K \<longleftrightarrow>
     (\<forall>k v s s'. kv_create K k v s \<noteq> (Panic, s')) \<and>
     (\<forall>k v q s s'. kv_update K k v q s \<noteq> (Panic, s')) \<and>
     (\<forall>k s s'. kv_delete K k s \<noteq> (Panic, s'))"

lemma acquire_inv:
  assumes laws: "kv_laws K view seq" and ok: "kv_answers K" and inv: "lease_inv view seq key S"
  shows "lease_inv view seq key (acquire K key i S)"
proof -
  obtain r b where c: "kv_create K key i (bucket S) = (r, b)" by fastforce
  show ?thesis
  proof (cases r)
    case (Ok n)
    with c kv_create_law [OF laws, of key i "bucket S" n b] show ?thesis
      by (simp add: acquire_def lease_inv_write [OF inv])
  next
    case (Err e)
    with c kv_create_err [OF laws, of key i "bucket S" e b] show ?thesis
      by (simp add: acquire_def lease_inv_lost [OF inv])
  qed (use ok c in \<open>auto simp: kv_answers_def\<close>)
qed

lemma renew_inv:
  assumes laws: "kv_laws K view seq" and ok: "kv_answers K" and inv: "lease_inv view seq key S"
  shows "lease_inv view seq key (renew K key i q S)"
proof -
  obtain r b where c: "kv_update K key i q (bucket S) = (r, b)" by fastforce
  show ?thesis
  proof (cases r)
    case (Ok n)
    with c kv_update_law [OF laws, of key i q "bucket S" n b] show ?thesis
      by (simp add: renew_def lease_inv_write [OF inv])
  next
    case (Err e)
    with c kv_update_err [OF laws, of key i q "bucket S" e b] show ?thesis
      by (simp add: renew_def lease_inv_lost [OF inv])
  qed (use ok c in \<open>auto simp: kv_answers_def\<close>)
qed

lemma drop_inv:
  assumes laws: "kv_laws K view seq" and ok: "kv_answers K" and inv: "lease_inv view seq key S"
  shows "lease_inv view seq key (drop_guard K key i S)"
proof -
  obtain r b where c: "kv_delete K key (bucket S) = (r, b)" by fastforce
  then have "(view b key = view (bucket S) key \<or> view b key = None) \<and> seq (bucket S) \<le> seq b"
    using kv_delete_law [OF laws, of key "bucket S" b] kv_delete_err [OF laws, of key "bucket S" _ b] ok
    by (cases r) (auto simp: kv_answers_def)
  with c show ?thesis by (simp add: drop_guard_def lease_inv_keep [OF inv])
qed

lemma lease_reach_inv:
  assumes "kv_laws K view seq" and "kv_answers K"
  shows "lease_reach K view seq key S \<Longrightarrow> lease_inv view seq key S"
proof (induction rule: lease_reach.induct)
  case (start S)
  then show ?case by (simp add: lease_inv_def)
next
  case (next_step S S')
  from next_step(2) show ?case
    by (cases rule: lease_stepE)
      (use next_step(3) in \<open>auto simp: acquire_inv [OF assms] renew_inv [OF assms] drop_inv [OF assms]
        intro!: lease_inv_keep(1)\<close>)
qed

lemma mem_kv_answers: "kv_answers mem_kv"
  by (simp add: kv_answers_def mem_kv_def mem_write_def)

section \<open>What a lease promises\<close>


definition demo_system :: "mem system" where
  "demo_system = acquire mem_kv ''u'' ''a'' \<lparr>bucket = (\<lambda>_. None, 0), holders = (\<lambda>_. Idle)\<rparr>"

lemma demo_system_reach: "lease_reach mem_kv fst snd ''u'' demo_system"
  unfolding demo_system_def
  by (rule lease_reach.next_step [OF _ lease_step.try_acquire], rule lease_reach.start) simp_all

lemma demo_system_state:
  "demo_system = \<lparr>bucket = ([''u'' \<mapsto> (''a'', 1)], 1), holders = (\<lambda>_. Idle)(''a'' := Leader 1)\<rparr>"
  by (simp add: demo_system_def acquire_def mem_kv_def mem_write_def)


text \<open>
  The drop of a guard deletes the key whoever holds it. After the value of a leader aged out and
  another instance took over, the fenced leader's drop frees the key under the new leader, and
  a third instance acquires it: two instances lead at once.
\<close>

definition drop_trace :: "mem system" where
  "drop_trace =
     (let key = ''u'';
          S1 = acquire mem_kv key ''a'' \<lparr>bucket = (\<lambda>_. None, 0), holders = (\<lambda>_. Idle)\<rparr>;
          S2 = S1\<lparr>bucket := ((fst (bucket S1))(key := None), snd (bucket S1))\<rparr>;
          S3 = acquire mem_kv key ''b'' S2;
          S4 = renew mem_kv key ''a'' 1 S3;
          S5 = drop_guard mem_kv key ''a'' S4
      in acquire mem_kv key ''c'' S5)"

theorem fenced_drop_frees_the_lease:
  "lease_reach mem_kv fst snd ''u'' drop_trace \<and>
   (\<exists>r q. holders drop_trace ''b'' = Leader r \<and> holders drop_trace ''c'' = Leader q)"
proof
  let ?S0 = "\<lparr>bucket = (\<lambda>_. None, 0), holders = (\<lambda>_. Idle)\<rparr> :: mem system"
  let ?S1 = "acquire mem_kv ''u'' ''a'' ?S0"
  let ?S2 = "?S1\<lparr>bucket := ((fst (bucket ?S1))(''u'' := None), snd (bucket ?S1))\<rparr>"
  let ?S3 = "acquire mem_kv ''u'' ''b'' ?S2"
  let ?S4 = "renew mem_kv ''u'' ''a'' 1 ?S3"
  let ?S5 = "drop_guard mem_kv ''u'' ''a'' ?S4"
  have 1: "lease_reach mem_kv fst snd ''u'' ?S1"
    by (rule lease_reach.next_step [OF _ lease_step.try_acquire], rule lease_reach.start) simp_all
  have 2: "lease_reach mem_kv fst snd ''u'' ?S2"
    by (rule lease_reach.next_step [OF 1], rule lease_step.age_out) simp_all
  have 3: "lease_reach mem_kv fst snd ''u'' ?S3"
    by (rule lease_reach.next_step [OF 2], rule lease_step.try_acquire)
      (simp add: acquire_def mem_kv_def mem_write_def)
  have 4: "lease_reach mem_kv fst snd ''u'' ?S4"
    by (rule lease_reach.next_step [OF 3], rule lease_step.try_renew)
      (simp add: acquire_def mem_kv_def mem_write_def)
  have 5: "lease_reach mem_kv fst snd ''u'' ?S5"
    by (rule lease_reach.next_step [OF 4], rule lease_step.stop)
      (simp add: acquire_def renew_def mem_kv_def mem_write_def)
  have "lease_reach mem_kv fst snd ''u'' (acquire mem_kv ''u'' ''c'' ?S5)"
    by (rule lease_reach.next_step [OF 5], rule lease_step.try_acquire)
      (simp add: acquire_def renew_def drop_guard_def mem_kv_def mem_write_def)
  then show "lease_reach mem_kv fst snd ''u'' drop_trace" by (simp add: drop_trace_def Let_def)
  show "\<exists>r q. holders drop_trace ''b'' = Leader r \<and> holders drop_trace ''c'' = Leader q"
    by (simp add: drop_trace_def Let_def acquire_def renew_def drop_guard_def mem_kv_def mem_write_def)
qed

end
