(* ===== verification/Bus.thy ===== *)
theory Bus
  imports Rust_Str Prelude
begin

text \<open>
  The bus of \<open>core/src/bus.rs\<close>: a held batch and its confirmation, acks, the reading of a
  delivery from its reply subject, and a pull round. The NATS client and server are outside
  the repository: what they answer is any function of the calls made so far, so the state of
  the bus is the history of calls, oldest first, and an order between a publish and an ack is
  an order in that list.
\<close>

section \<open>The client as a history of calls\<close>

datatype call =
    CSend string string
  | CEcho
  | CStore string string
  | CAck string
  | CNak string
  | CDelete nat
  | CPurge
  | CPull

text \<open>
  \<open>nt_answer\<close> is the error a call meets, if any; \<open>nt_up\<close>, \<open>nt_epoch\<close> and \<open>nt_limit\<close> are the
  state of the connection, the number of connections made and the payload limit; \<open>nt_state\<close> is
  the first and last sequence number and the count of the dead-letter stream, \<open>nt_message\<close> a
  message of it, \<open>nt_purged\<close> the count a purge reports.
\<close>

record nats =
  nt_answer :: "call list \<Rightarrow> call \<Rightarrow> string option"
  nt_up :: "call list \<Rightarrow> bool"
  nt_epoch :: "call list \<Rightarrow> nat"
  nt_limit :: "call list \<Rightarrow> nat"
  nt_state :: "call list \<Rightarrow> (nat \<times> nat \<times> nat, string) result"
  nt_message :: "call list \<Rightarrow> nat \<Rightarrow> (nat \<times> string, string) result"
  nt_purged :: "call list \<Rightarrow> nat"

type_synonym 'a bm = "(call list, 'a, string) stm"

definition do_call :: "nats \<Rightarrow> call \<Rightarrow> unit bm" where
  "do_call N c h = (case nt_answer N h c of None \<Rightarrow> (Ok (), h @ [c]) | Some e \<Rightarrow> (Err e, h @ [c]))"

definition barrier_since :: "nats \<Rightarrow> nat \<Rightarrow> unit bm" where
  "barrier_since N epoch =
     mbind (do_call N CEcho) (\<lambda>_ h.
       if nt_epoch N h \<noteq> epoch then (Err ''the connection was replaced during the batch'', h)
       else (Ok (), h))"

section \<open>Batches\<close>

type_synonym batch = "(string \<times> string) list"

definition bad_subject :: "string \<Rightarrow> bool" where
  "bad_subject s \<longleftrightarrow> s = [] \<or> list_ex (\<lambda>c. byte c \<in> {32, 9, 13, 10}) s"

text \<open>
  Holding a publish. The message of a bad subject also quotes it, with the escapes of Rust's
  debug format, which are left out here.
\<close>

definition batch_publish :: "nats \<Rightarrow> call list \<Rightarrow> string \<Rightarrow> string \<Rightarrow> batch \<Rightarrow> (batch, string) result" where
  "batch_publish N h subject payload held =
     (if bad_subject subject then Err ''invalid subject''
      else if nt_limit N h < length payload then
        Err (nat_str (length payload) @ '' bytes is over the server's limit of '' @ nat_str (nt_limit N h))
      else Ok (held @ [(subject, payload)]))"

fun send_all :: "nats \<Rightarrow> batch \<Rightarrow> unit bm" where
  "send_all N [] = mret ()"
| "send_all N ((s, p) # rest) = mbind (do_call N (CSend s p)) (\<lambda>_. send_all N rest)"

text \<open>The batch is empty afterwards, either way: the caller drops what it held.\<close>

definition confirm :: "nats \<Rightarrow> batch \<Rightarrow> unit bm" where
  "confirm N held h =
     (if held = [] then (Ok (), h)
      else if \<not> nt_up N h then (Err ''the connection is down'', h)
      else mbind (send_all N held) (\<lambda>_. barrier_since N (nt_epoch N h)) h)"

section \<open>Messages\<close>

record message =
  ms_subject :: string
  ms_data :: string
  ms_reply :: "string option"

definition ack :: "nats \<Rightarrow> message \<Rightarrow> unit bm" where
  "ack N m = (case ms_reply m of None \<Rightarrow> mret () | Some r \<Rightarrow> do_call N (CAck r))"

definition nak :: "nats \<Rightarrow> message \<Rightarrow> unit bm" where
  "nak N m = (case ms_reply m of None \<Rightarrow> mret () | Some r \<Rightarrow> do_call N (CNak r))"

fun ack_all :: "nats \<Rightarrow> message list \<Rightarrow> unit bm" where
  "ack_all N [] = mret ()"
| "ack_all N (m # ms) = mbind (ack N m) (\<lambda>_. ack_all N ms)"

text \<open>\<open>str::parse\<close> at \<open>u64\<close> and \<open>i64\<close>: an optional sign, digits, no overflow.\<close>

definition parse_digits :: "string \<Rightarrow> int option" where
  "parse_digits s = (if s \<noteq> [] \<and> list_all is_ascii_digit s then Some (digits_val 0 s) else None)"

definition parse_u64 :: "string \<Rightarrow> int option" where
  "parse_u64 s =
     (case parse_digits (case strip_prefix ''+'' s of Some r \<Rightarrow> r | None \<Rightarrow> s) of
        Some n \<Rightarrow> if n < 2 ^ 64 then Some n else None
      | None \<Rightarrow> None)"

definition parse_i64 :: "string \<Rightarrow> int option" where
  "parse_i64 s =
     (case strip_prefix ''-'' s of
        Some r \<Rightarrow> (case parse_digits r of Some n \<Rightarrow> if n \<le> 2 ^ 63 then Some (- n) else None | None \<Rightarrow> None)
      | None \<Rightarrow>
          (case parse_digits (case strip_prefix ''+'' s of Some r \<Rightarrow> r | None \<Rightarrow> s) of
             Some n \<Rightarrow> if n < 2 ^ 63 then Some n else None
           | None \<Rightarrow> None))"

record delivery =
  dl_delivered :: int
  dl_stream_seq :: int

definition parse_ack_subject :: "string \<Rightarrow> delivery option" where
  "parse_ack_subject reply =
     (case strip_prefix ''$JS.ACK.'' reply of
        None \<Rightarrow> None
      | Some rest \<Rightarrow>
          (let tokens = str_split rest ''.''; n = length tokens in
           if n = 7 \<or> 9 \<le> n then
             (let pos = (if n = 7 then 2 else 4) in
              case (parse_i64 (tokens ! pos), parse_u64 (tokens ! Suc pos)) of
                (Some d, Some q) \<Rightarrow> Some \<lparr>dl_delivered = d, dl_stream_seq = q\<rparr>
              | _ \<Rightarrow> None)
           else None))"

definition delivery_of :: "message \<Rightarrow> delivery option" where
  "delivery_of m = (case ms_reply m of None \<Rightarrow> None | Some r \<Rightarrow> parse_ack_subject r)"

section \<open>Pull rounds\<close>

record raw_message =
  rw_status :: "nat option"
  rw_description :: "string option"
  rw_message :: message

datatype pulled = PMessage | PNothing | POver | PGone string

definition classify :: "raw_message \<Rightarrow> pulled" where
  "classify m =
     (let description = (case rw_description m of Some d \<Rightarrow> d | None \<Rightarrow> []) in
      case rw_status m of
        None \<Rightarrow> PMessage
      | Some st \<Rightarrow>
          if st = 200 then PMessage
          else if st = 404 then PNothing
          else if st = 408 then POver
          else if st = 409 \<and> \<not> str_contains description ''Deleted'' then POver
          else PGone (''consumer gone: '' @ nat_str st @ '' '' @ description))"

definition pull_batch :: nat where "pull_batch = 64"

text \<open>
  One \<open>next\<close> of a round: \<open>inbox\<close> holds what arrives before its deadline, so an empty one is the
  timeout. It returns the message, what is left of the inbox, and the fault a status set.
\<close>

fun round_next :: "raw_message list \<Rightarrow> message option \<times> raw_message list \<times> string option" where
  "round_next [] = (None, [], None)"
| "round_next (m # inbox) =
     (case classify m of
        PMessage \<Rightarrow> (Some (rw_message m), inbox, None)
      | PNothing \<Rightarrow> round_next inbox
      | POver \<Rightarrow> (None, inbox, None)
      | PGone why \<Rightarrow> (None, inbox, Some why))"

lemma round_next_shorter: "round_next inbox = (Some m, rest, f) \<Longrightarrow> length rest < length inbox"
  by (induction inbox rule: round_next.induct) (auto split: pulled.splits)

text \<open>The messages of a round: \<open>next\<close> until it gives none, at most \<open>pull_batch\<close> times.\<close>

function round_messages ::
  "nat \<Rightarrow> raw_message list \<Rightarrow> message list \<times> raw_message list \<times> string option" where
  "round_messages taken inbox =
     (if taken < pull_batch then
        (case round_next inbox of
           (None, rest, fault) \<Rightarrow> ([], rest, fault)
         | (Some m, rest, _) \<Rightarrow>
             (case round_messages (Suc taken) rest of (ms, out) \<Rightarrow> (m # ms, out)))
      else ([], inbox, None))"
  by pat_completeness auto
termination
  by (relation "measure (\<lambda>(taken, inbox). length inbox)") (auto dest: round_next_shorter [OF HOL.sym])

declare round_messages.simps [simp del]

text \<open>
  Asking for a round: a fault an earlier round left fails it, and with the connection down no
  request leaves. The fault is taken either way.
\<close>

definition round_request :: "nats \<Rightarrow> string option \<Rightarrow> unit bm" where
  "round_request N fault =
     (case fault of
        Some why \<Rightarrow> mfail why
      | None \<Rightarrow> mbind mget (\<lambda>h. if nt_up N h then do_call N CPull else mret ()))"

section \<open>Facts\<close>

text \<open>
  A publish is confirmed in a history when the call was accepted and a later echo came back on
  the connection the batch started on: by the order of one connection, the server has read it.
\<close>

definition confirmed :: "nats \<Rightarrow> call list \<Rightarrow> string \<times> string \<Rightarrow> bool" where
  "confirmed N h e \<longleftrightarrow>
     (\<exists>start a b c.
        h = start @ a @ CSend (fst e) (snd e) # b @ CEcho # c \<and>
        nt_answer N (start @ a) (CSend (fst e) (snd e)) = None \<and>
        nt_answer N (start @ a @ CSend (fst e) (snd e) # b) CEcho = None \<and>
        nt_epoch N start = nt_epoch N (start @ a @ CSend (fst e) (snd e) # b @ [CEcho]))"

lemma confirmed_append: "confirmed N h e \<Longrightarrow> confirmed N (h @ t) e"
  unfolding confirmed_def by (metis append.assoc append_Cons)

lemma do_call_Ok: "do_call N c h = (Ok x, h') \<longleftrightarrow> nt_answer N h c = None \<and> h' = h @ [c]"
  by (auto simp: do_call_def split: option.splits)

lemma do_call_history: "do_call N c h = (r, h') \<Longrightarrow> h' = h @ [c]"
  by (auto simp: do_call_def split: option.splits)

lemma do_call_no_panic: "do_call N c h \<noteq> (Panic, h')"
  by (auto simp: do_call_def split: option.splits)

text \<open>What a sequence of sends that succeeds has called.\<close>

definition sends :: "batch \<Rightarrow> call list" where
  "sends held = map (\<lambda>(s, p). CSend s p) held"

lemma send_all_Ok:
  "send_all N held h = (Ok (), h') \<Longrightarrow>
     h' = h @ sends held \<and>
     (\<forall>i < length held. nt_answer N (h @ sends (take i held)) (sends held ! i) = None)"
proof (induction N held arbitrary: h h' rule: send_all.induct)
  case (2 N s p rest)
  then obtain h1 where "do_call N (CSend s p) h = (Ok (), h1)" and r: "send_all N rest h1 = (Ok (), h')"
    by (auto simp: mbind_def split: prod.splits result.splits)
  then have h1: "nt_answer N h (CSend s p) = None" "h1 = h @ [CSend s p]" by (simp_all add: do_call_Ok)
  have IH: "h' = h1 @ sends rest"
    "\<forall>i < length rest. nt_answer N (h1 @ sends (take i rest)) (sends rest ! i) = None"
    using "2.IH" [OF r] by simp_all
  have "nt_answer N (h @ sends (take i ((s, p) # rest))) (sends ((s, p) # rest) ! i) = None"
    if "i < length ((s, p) # rest)" for i
    using that IH(2) h1 by (cases i) (auto simp: sends_def)
  then show ?case using IH(1) h1(2) by (simp add: sends_def)
qed (simp add: sends_def mret_def)

lemma confirm_Ok:
  assumes "confirm N held h = (Ok (), h')" and "e \<in> set held"
  shows "confirmed N h' e"
proof -
  from assms(2) obtain i where i: "i < length held" "held ! i = e" by (auto simp: in_set_conv_nth)
  from assms obtain h1 where s: "send_all N held h = (Ok (), h1)"
    and b: "barrier_since N (nt_epoch N h) h1 = (Ok (), h')"
    by (auto simp: confirm_def mbind_def split: prod.splits result.splits if_splits)
  from b have e: "nt_answer N h1 CEcho = None" "h' = h1 @ [CEcho]" "nt_epoch N h' = nt_epoch N h"
    by (auto simp: barrier_since_def mbind_def do_call_def split: option.splits if_splits)
  from send_all_Ok [OF s] i have s': "h1 = h @ sends held"
    "nt_answer N (h @ sends (take i held)) (sends held ! i) = None" by auto
  have c: "sends held ! i = CSend (fst e) (snd e)" using i by (simp add: sends_def split_beta)
  have "sends held = sends (take i held @ held ! i # drop (Suc i) held)"
    by (simp flip: id_take_nth_drop [OF i(1)])
  then have "sends held = sends (take i held) @ CSend (fst e) (snd e) # sends (drop (Suc i) held)"
    by (simp only: sends_def map_append list.map i(2) split_beta)
  then have h1: "h1 = h @ sends (take i held) @ CSend (fst e) (snd e) # sends (drop (Suc i) held)"
    using s'(1) by simp
  show ?thesis
    unfolding confirmed_def
    by (rule exI [of _ h], rule exI [of _ "sends (take i held)"],
        rule exI [of _ "sends (drop (Suc i) held)"], rule exI [of _ "[]"])
       (use e s'(2) c h1 in simp)
qed

text \<open>What a step appends to the history.\<close>

definition extends :: "(call \<Rightarrow> bool) \<Rightarrow> 'e ending \<Rightarrow> call list \<Rightarrow> call list \<Rightarrow> bool" where
  "extends P k h h' \<longleftrightarrow> (\<exists>t. h' = h @ t \<and> list_all P t)"

interpretation hist: frame "extends P" "\<lambda>_. False" for P
  by unfold_locales (fastforce simp: extends_def)+

lemma do_call_extends: "P c \<Longrightarrow> keeps (extends P) (do_call N c)"
  by (rule keepsI) (auto simp: extends_def do_call_def split: option.split)

lemma round_at_most: "length (fst (round_messages taken inbox)) \<le> pull_batch - taken"
proof (induction taken inbox rule: round_messages.induct)
  case (1 taken inbox)
  then show ?case
    by (subst round_messages.simps) (fastforce split: prod.split option.split)
qed

end
