(* ===== verification/Dlq.thy ===== *)
theory Dlq
  imports Bus Versions
begin

text \<open>
  The dead-letter queue: parking a message (\<open>to_dlq\<close>) and announcing it, from
  \<open>core/src/connectors.rs\<close>; listing, replay and purge, from \<open>core/src/main.rs\<close>. The clock is an
  argument, the environment a function.
\<close>

type_synonym environ = "string \<Rightarrow> string option"

definition num_json :: "nat \<Rightarrow> json" where
  "num_json n = VNumber (PosInt (int n))"

definition opt_json :: "('a \<Rightarrow> json) \<Rightarrow> 'a option \<Rightarrow> json" where
  "opt_json f x = (case x of Some a \<Rightarrow> f a | None \<Rightarrow> VNull)"

definition dlq_unit_token :: "string \<Rightarrow> string" where
  "dlq_unit_token unit =
     map (\<lambda>c. case c of
            [b] \<Rightarrow> if is_ascii_alphanumeric b \<or> b = CHR ''_'' then b else CHR ''_''
          | _ \<Rightarrow> CHR ''_'') (str_chars unit)"

section \<open>Announcements\<close>

record announcement =
  an_last_sent :: nat
  an_count :: nat
  an_subject :: string
  an_attempts :: int
  an_version :: string

definition no_announcement :: announcement where
  "no_announcement =
     \<lparr>an_last_sent = 0, an_count = 0, an_subject = [], an_attempts = 0, an_version = []\<rparr>"

definition dlq_events_subject :: "environ \<Rightarrow> string" where
  "dlq_events_subject env =
     (case env ''VEJAS_SUBJECT_ROOT'' of Some r \<Rightarrow> r | None \<Rightarrow> ''vx'') @ ''.dlq.events''"

definition dlq_event_gap :: "environ \<Rightarrow> nat" where
  "dlq_event_gap env =
     (case env ''VEJAS_DLQ_EVENT_SECS'' of
        None \<Rightarrow> 60
      | Some v \<Rightarrow> (case parse_u64 v of Some n \<Rightarrow> nat n | None \<Rightarrow> 60))"

definition is_due :: "nat \<Rightarrow> nat \<Rightarrow> announcement \<Rightarrow> bool" where
  "is_due now gap a \<longleftrightarrow> 0 < an_count a \<and> gap \<le> now - an_last_sent a"

definition due_event :: "nat \<Rightarrow> string \<times> announcement \<Rightarrow> json" where
  "due_event now ua =
     (case ua of (unit, a) \<Rightarrow>
        VObject (om_of_list
          [(''transition'', VString ''dead-lettered''), (''ts'', num_json now), (''unit'', VString unit),
           (''subject'', VString (an_subject a)), (''attempts'', VNumber (number_from_i64 (an_attempts a))),
           (''version'', VString (an_version a)), (''count'', num_json (an_count a))]))"

definition take_due_dlq_events ::
  "announcement omap \<Rightarrow> nat \<Rightarrow> nat \<Rightarrow> json list \<times> announcement omap" where
  "take_due_dlq_events pending now gap =
     (map (due_event now) (filter (is_due now gap \<circ> snd) pending),
      map (\<lambda>(u, a). (u, if is_due now gap a then a\<lparr>an_last_sent := now, an_count := 0\<rparr> else a)) pending)"

text \<open>The part of \<open>announce_dead_letter\<close> under the lock: what is due, and what stays pending.\<close>

definition announce_due ::
  "environ \<Rightarrow> string \<Rightarrow> string \<Rightarrow> int \<Rightarrow> string \<Rightarrow> nat \<Rightarrow> announcement omap \<Rightarrow> json list \<times> announcement omap" where
  "announce_due env unit subject attempts version now pending =
     (if subject = dlq_events_subject env then ([], pending)
      else
        (let a = (case om_get pending unit of Some a \<Rightarrow> a | None \<Rightarrow> no_announcement) in
         take_due_dlq_events
           (om_insert unit
              (a\<lparr>an_count := an_count a + 1, an_subject := subject, an_attempts := attempts,
                 an_version := version\<rparr>) pending)
           now (dlq_event_gap env)))"

record dlq =
  dq_history :: "call list"
  dq_pending :: "announcement omap"

definition on_bus :: "'a bm \<Rightarrow> (dlq, 'a, string) stm" where
  "on_bus m s = (case m (dq_history s) of (r, h) \<Rightarrow> (r, s\<lparr>dq_history := h\<rparr>))"

text \<open>Publishing an event is best effort.\<close>

fun publish_dlq_events :: "nats \<Rightarrow> codec \<Rightarrow> environ \<Rightarrow> json list \<Rightarrow> call list \<Rightarrow> call list" where
  "publish_dlq_events N C env [] h = h"
| "publish_dlq_events N C env (e # es) h =
     publish_dlq_events N C env es (snd (do_call N (CStore (dlq_events_subject env) (cd_print C e)) h))"

definition announce_dead_letter ::
  "nats \<Rightarrow> codec \<Rightarrow> environ \<Rightarrow> string \<Rightarrow> string \<Rightarrow> int \<Rightarrow> string \<Rightarrow> nat \<Rightarrow> dlq \<Rightarrow> dlq" where
  "announce_dead_letter N C env unit subject attempts version now s =
     (case announce_due env unit subject attempts version now (dq_pending s) of
        (due, pending) \<Rightarrow>
          s\<lparr>dq_history := publish_dlq_events N C env due (dq_history s), dq_pending := pending\<rparr>)"

text \<open>One turn of the flusher thread.\<close>

definition flush_tick :: "nats \<Rightarrow> codec \<Rightarrow> environ \<Rightarrow> nat \<Rightarrow> dlq \<Rightarrow> dlq" where
  "flush_tick N C env now s =
     (case take_due_dlq_events (dq_pending s) now (dlq_event_gap env) of
        (due, pending) \<Rightarrow>
          s\<lparr>dq_history := publish_dlq_events N C env due (dq_history s), dq_pending := pending\<rparr>)"

section \<open>Parking a message\<close>

definition envelope ::
  "string \<Rightarrow> string \<Rightarrow> int \<Rightarrow> string \<Rightarrow> string \<Rightarrow> string \<Rightarrow> nat \<Rightarrow> json" where
  "envelope unit subject attempts last_error payload version now =
     VObject (om_of_list
       [(''original_subject'', VString subject), (''unit'', VString unit),
        (''attempts'', VNumber (number_from_i64 attempts)), (''first_seen'', num_json now),
        (''dead_at'', num_json now), (''last_error'', VString last_error),
        (''version'', VString version), (''payload'', VString (from_utf8_lossy payload))])"

definition dlq_subject :: "string \<Rightarrow> string" where
  "dlq_subject unit = ''vxdlq.'' @ dlq_unit_token unit"

definition to_dlq ::
  "nats \<Rightarrow> codec \<Rightarrow> environ \<Rightarrow> string \<Rightarrow> string \<Rightarrow> int \<Rightarrow> string \<Rightarrow> string \<Rightarrow> string \<Rightarrow> nat \<Rightarrow>
     (dlq, unit, string) stm" where
  "to_dlq N C env unit subject attempts last_error payload version now =
     mbind (on_bus (do_call N (CStore (dlq_subject unit)
              (cd_print C (envelope unit subject attempts last_error payload version now))))) (\<lambda>_.
       mupd (announce_dead_letter N C env unit subject attempts version now))"

section \<open>Listing, replay and purge\<close>

definition with_seq :: "nat \<Rightarrow> json \<Rightarrow> json" where
  "with_seq q env = (case env of VObject m \<Rightarrow> VObject (om_insert ''seq'' (num_json q) m) | _ \<Rightarrow> env)"

text \<open>The loop of \<open>dlq_list\<close>, from the last sequence number down.\<close>

fun dlq_walk :: "nats \<Rightarrow> codec \<Rightarrow> call list \<Rightarrow> nat \<Rightarrow> nat \<Rightarrow> nat \<Rightarrow> json list \<Rightarrow> json list" where
  "dlq_walk N C h first limit 0 out = out"
| "dlq_walk N C h first limit (Suc q) out =
     (let out' = (case nt_message N h (Suc q) of
                    Ok (sq, d) \<Rightarrow> (case cd_parse C d of Some env \<Rightarrow> out @ [with_seq sq env] | None \<Rightarrow> out)
                  | _ \<Rightarrow> out)
      in if Suc q \<le> first \<or> limit \<le> length out' then out' else dlq_walk N C h first limit q out')"

definition dlq_list :: "nats \<Rightarrow> codec \<Rightarrow> nat \<Rightarrow> json list bm" where
  "dlq_list N C limit h =
     (case nt_state N h of
        Err e \<Rightarrow> (Err e, h)
      | Panic \<Rightarrow> (Panic, h)
      | Ok (lo, hi, messages) \<Rightarrow>
          if hi = 0 \<or> messages = 0 then (Ok [], h)
          else (Ok (dlq_walk N C h lo limit hi []), h))"

definition audit_subject :: "string \<Rightarrow> string" where
  "audit_subject unit = ''vxaudit.'' @ dlq_unit_token unit"

definition to_audit :: "nats \<Rightarrow> codec \<Rightarrow> string \<Rightarrow> json \<Rightarrow> unit bm" where
  "to_audit N C unit rec = do_call N (CStore (audit_subject unit) (cd_print C rec))"

definition dlq_audit ::
  "nats \<Rightarrow> codec \<Rightarrow> string \<Rightarrow> string \<Rightarrow> nat option \<Rightarrow> string option \<Rightarrow> nat \<Rightarrow> nat \<Rightarrow> unit bm" where
  "dlq_audit N C k actor sq unit count now h =
     (Ok (), snd (to_audit N C (case unit of Some u \<Rightarrow> u | None \<Rightarrow> ''dlq'')
        (VObject (om_of_list
          [(''ts'', num_json now), (''actor'', VString actor), (''kind'', VString k),
           (''unit'', opt_json VString unit), (''seq'', opt_json num_json sq),
           (''count'', num_json count)])) h))"

definition letter_seq :: "json \<Rightarrow> nat option" where
  "letter_seq env = map_option nat (as_u64 (value_index env ''seq''))"

definition replay_target :: "json \<Rightarrow> nat \<times> string \<times> string" where
  "replay_target env =
     ((case letter_seq env of Some q \<Rightarrow> q | None \<Rightarrow> 0),
      (case as_str (value_index env ''original_subject'') of Some s \<Rightarrow> s | None \<Rightarrow> []),
      (case as_str (value_index env ''payload'') of Some s \<Rightarrow> s | None \<Rightarrow> []))"

definition of_unit :: "string option \<Rightarrow> json \<Rightarrow> bool" where
  "of_unit unit env = (case unit of None \<Rightarrow> True | Some u \<Rightarrow> as_str (value_index env ''unit'') = Some u)"

fun replay_all :: "nats \<Rightarrow> (nat \<times> string \<times> string) list \<Rightarrow> nat \<Rightarrow> string list \<Rightarrow> (nat \<times> string list) bm" where
  "replay_all N [] n errs h = (Ok (n, errs), h)"
| "replay_all N ((q, subj, payload) # rest) n errs h =
     (if subj = [] \<or> q = 0 then replay_all N rest n errs h
      else
        (case do_call N (CStore subj payload) h of
           (Ok _, h1) \<Rightarrow> replay_all N rest (n + 1) errs (snd (do_call N (CDelete q) h1))
         | (Err e, h1) \<Rightarrow> replay_all N rest n (errs @ [''seq '' @ nat_str q @ '': '' @ e]) h1
         | (Panic, h1) \<Rightarrow> (Panic, h1)))"

definition replay_targets ::
  "nats \<Rightarrow> codec \<Rightarrow> nat option \<Rightarrow> string option \<Rightarrow> (nat \<times> string \<times> string) list bm" where
  "replay_targets N C sq unit h =
     (case sq of
        Some q \<Rightarrow>
          (case nt_message N h q of
             Err e \<Rightarrow> (Err e, h)
           | Panic \<Rightarrow> (Panic, h)
           | Ok (q', d) \<Rightarrow>
               (case cd_parse C d of
                  None \<Rightarrow> (Err ''not JSON'', h)
                | Some env \<Rightarrow> (Ok [replay_target (with_seq q' env)], h)))
      | None \<Rightarrow>
          mbind (dlq_list N C 100000) (\<lambda>envs.
            mret (map replay_target (filter (of_unit unit) envs))) h)"

definition dlq_replay ::
  "nats \<Rightarrow> codec \<Rightarrow> nat option \<Rightarrow> string option \<Rightarrow> string \<Rightarrow> nat \<Rightarrow> json bm" where
  "dlq_replay N C sq unit actor now =
     mbind (replay_targets N C sq unit) (\<lambda>targets.
     mbind (replay_all N targets 0 []) (\<lambda>(n, errs).
     mbind (dlq_audit N C ''dlq-replay'' actor sq unit n now) (\<lambda>_.
       mret (VObject (om_of_list
         [(''replayed'', num_json n), (''errors'', VArray (map VString errs))])))))"

fun purge_all :: "nats \<Rightarrow> nat list \<Rightarrow> nat \<Rightarrow> nat bm" where
  "purge_all N [] n h = (Ok n, h)"
| "purge_all N (q # qs) n h =
     (case do_call N (CDelete q) h of
        (Ok _, h1) \<Rightarrow> purge_all N qs (n + 1) h1
      | (_, h1) \<Rightarrow> purge_all N qs n h1)"

definition purge_count :: "nats \<Rightarrow> codec \<Rightarrow> nat option \<Rightarrow> string option \<Rightarrow> nat bm" where
  "purge_count N C sq unit =
     (case (sq, unit) of
        (None, None) \<Rightarrow> mbind mget (\<lambda>h. mbind (do_call N CPurge) (\<lambda>_. mret (nt_purged N h)))
      | (Some q, _) \<Rightarrow> mbind (do_call N (CDelete q)) (\<lambda>_. mret 1)
      | (None, Some u) \<Rightarrow>
          mbind (dlq_list N C 100000) (\<lambda>envs.
            purge_all N (List.map_filter letter_seq (filter (of_unit (Some u)) envs)) 0))"

definition dlq_purge ::
  "nats \<Rightarrow> codec \<Rightarrow> nat option \<Rightarrow> string option \<Rightarrow> string \<Rightarrow> nat \<Rightarrow> json bm" where
  "dlq_purge N C sq unit actor now =
     mbind (purge_count N C sq unit) (\<lambda>n.
     mbind (dlq_audit N C ''dlq-purge'' actor sq unit n now) (\<lambda>_.
       mret (VObject (om_of_list [(''purged'', num_json n)]))))"

section \<open>Facts\<close>

lemma om_get_map: "om_get (map (\<lambda>(k, v). (k, f v)) m) u = map_option f (om_get m u)"
  by (induction m) auto

definition pending_count :: "announcement omap \<Rightarrow> string \<Rightarrow> nat" where
  "pending_count pending u = (case om_get pending u of Some a \<Rightarrow> an_count a | None \<Rightarrow> 0)"

text \<open>The dead letters of a unit that a list of events stands for.\<close>

definition event_count :: "string \<Rightarrow> json \<Rightarrow> nat" where
  "event_count u e =
     (if as_str (value_index e ''unit'') = Some u
      then (case as_u64 (value_index e ''count'') of Some n \<Rightarrow> nat n | None \<Rightarrow> 0) else 0)"

definition announced :: "string \<Rightarrow> json list \<Rightarrow> nat" where
  "announced u es = sum_list (map (event_count u) es)"

lemma event_count_due: "event_count u (due_event now (v, a)) = (if v = u then an_count a else 0)"
  by (simp add: event_count_def due_event_def value_index_def num_json_def om_simps)

lemma announced_absent: "u \<notin> fst ` set p \<Longrightarrow> announced u (map (due_event now) (filter P p)) = 0"
  by (induction p) (auto simp: announced_def event_count_due)

lemma take_due_conserves:
  "om_wf p \<Longrightarrow> take_due_dlq_events p now gap = (es, p') \<Longrightarrow>
     announced u es + pending_count p' u = pending_count p u"
proof (induction p arbitrary: es p')
  case (Cons x p)
  obtain v a where x: "x = (v, a)" by fastforce
  have IH: "announced u (map (due_event now) (filter (is_due now gap \<circ> snd) p)) +
      pending_count (snd (take_due_dlq_events p now gap)) u = pending_count p u"
    using Cons.IH Cons.prems(1) x by (simp add: take_due_dlq_events_def)
  have "u = v \<Longrightarrow> u \<notin> fst ` set p" using Cons.prems(1) x by fastforce
  then show ?case
    using IH Cons.prems(2) announced_absent [of u p now]
    by (auto simp: x take_due_dlq_events_def pending_count_def announced_def event_count_due is_due_def
        split: if_splits)
qed (simp add: take_due_dlq_events_def announced_def)

lemma take_due_wf: "om_wf p \<Longrightarrow> om_wf (snd (take_due_dlq_events p now gap))"
  by (induction p) (auto simp: take_due_dlq_events_def, fastforce)

section \<open>What the queue promises\<close>

datatype dlq_act = Letter string string int string nat | FlushTurn nat

fun dlq_acts :: "environ \<Rightarrow> dlq_act list \<Rightarrow> json list \<times> announcement omap \<Rightarrow> json list \<times> announcement omap" where
  "dlq_acts env [] st = st"
| "dlq_acts env (Letter u subject attempts version now # acts) (es, p) =
     (case announce_due env u subject attempts version now p of (due, p') \<Rightarrow> dlq_acts env acts (es @ due, p'))"
| "dlq_acts env (FlushTurn now # acts) (es, p) =
     (case take_due_dlq_events p now (dlq_event_gap env) of (due, p') \<Rightarrow> dlq_acts env acts (es @ due, p'))"

fun letters_of :: "environ \<Rightarrow> string \<Rightarrow> dlq_act list \<Rightarrow> nat" where
  "letters_of env u [] = 0"
| "letters_of env u (Letter v subject attempts version now # acts) =
     (if v = u \<and> subject \<noteq> dlq_events_subject env then 1 else 0) + letters_of env u acts"
| "letters_of env u (FlushTurn now # acts) = letters_of env u acts"

lemma announced_append: "announced u (es @ fs) = announced u es + announced u fs"
  by (simp add: announced_def)

lemma announce_due_conserves:
  assumes "om_wf p" and "announce_due env v subject attempts version now p = (due, p')"
  shows "om_wf p'" and "announced u due + pending_count p' u =
    pending_count p u + (if v = u \<and> subject \<noteq> dlq_events_subject env then 1 else 0)"
proof -
  let ?a = "case om_get p v of Some a \<Rightarrow> a | None \<Rightarrow> no_announcement"
  let ?q = "om_insert v (?a\<lparr>an_count := an_count ?a + 1, an_subject := subject,
    an_attempts := attempts, an_version := version\<rparr>) p"
  have "om_wf p' \<and> announced u due + pending_count p' u =
    pending_count p u + (if v = u \<and> subject \<noteq> dlq_events_subject env then 1 else 0)"
  proof (cases "subject = dlq_events_subject env")
    case True
    with assms show ?thesis by (simp add: announce_due_def announced_def)
  next
    case False
    then have t: "take_due_dlq_events ?q now (dlq_event_gap env) = (due, p')"
      using assms(2) by (simp add: announce_due_def Let_def)
    have wf: "om_wf ?q" using assms(1) by simp
    have "pending_count ?q u = pending_count p u + (if v = u then 1 else 0)"
      by (auto simp: pending_count_def om_get_insert no_announcement_def split: option.split)
    with take_due_conserves [OF wf t, of u] take_due_wf [OF wf, of now "dlq_event_gap env"] t False
    show ?thesis by simp
  qed
  then show "om_wf p'" and "announced u due + pending_count p' u =
    pending_count p u + (if v = u \<and> subject \<noteq> dlq_events_subject env then 1 else 0)" by simp_all
qed

lemma dlq_acts_conserve:
  "om_wf p \<Longrightarrow> dlq_acts env acts (es, p) = (es', p') \<Longrightarrow>
     announced u es' + pending_count p' u = announced u es + pending_count p u + letters_of env u acts"
proof (induction env acts "(es, p)" arbitrary: es p rule: dlq_acts.induct)
  case (2 env v subject attempts version now acts es p)
  obtain due q where d: "announce_due env v subject attempts version now p = (due, q)" by fastforce
  with 2 announce_due_conserves(1) [OF "2.prems"(1) d] announce_due_conserves(2) [OF "2.prems"(1) d, of u] show ?case
    by (simp add: announced_append)
next
  case (3 env now acts es p)
  obtain due q where d: "take_due_dlq_events p now (dlq_event_gap env) = (due, q)" by fastforce
  with 3 take_due_conserves [OF "3.prems"(1) d, of u] take_due_wf [OF "3.prems"(1), of now "dlq_event_gap env"]
  show ?case by (simp add: announced_append)
qed simp

text \<open>
  The window delays news of dead letters without losing any: over any sequence of letters
  and flusher turns, the counts of the events handed out and the counts still pending add up to
  the letters of the unit, letters about the events themselves apart.
\<close>

theorem no_dead_letter_goes_uncounted:
  "announced u (fst (dlq_acts env acts ([], []))) + pending_count (snd (dlq_acts env acts ([], []))) u =
     letters_of env u acts"
  using dlq_acts_conserve [of "[]" env acts "[]"]
  by (cases "dlq_acts env acts ([], [])") (simp add: announced_def pending_count_def)

inductive replay_calls :: "nats \<Rightarrow> (nat \<times> string \<times> string) set \<Rightarrow> call list \<Rightarrow> call list \<Rightarrow> bool"
  for N T
where
  no_more: "replay_calls N T h []"
| moved: "(q, subj, payload) \<in> T \<Longrightarrow> nt_answer N h (CStore subj payload) = None \<Longrightarrow>
    replay_calls N T (h @ [CStore subj payload, CDelete q]) t \<Longrightarrow>
    replay_calls N T h (CStore subj payload # CDelete q # t)"
| kept: "(q, subj, payload) \<in> T \<Longrightarrow> nt_answer N h (CStore subj payload) = Some e \<Longrightarrow>
    replay_calls N T (h @ [CStore subj payload]) t \<Longrightarrow> replay_calls N T h (CStore subj payload # t)"

lemma replay_all_calls:
  "set ts \<subseteq> T \<Longrightarrow> replay_all N ts n errs h = (r, h') \<Longrightarrow> \<exists>t. h' = h @ t \<and> replay_calls N T h t"
proof (induction N ts n errs h arbitrary: r h' rule: replay_all.induct)
  case (1 N n errs h)
  then show ?case by (auto intro: replay_calls.no_more)
next
  case (2 N q subj payload rest n errs h)
  have T: "(q, subj, payload) \<in> T" "set rest \<subseteq> T" using "2.prems"(1) by auto
  let ?c = "CStore subj payload"
  consider (skip) "subj = [] \<or> q = 0"
    | (sent) "\<not> (subj = [] \<or> q = 0)" "nt_answer N h ?c = None"
    | (failed) e where "\<not> (subj = [] \<or> q = 0)" "nt_answer N h ?c = Some e"
    by (cases "nt_answer N h ?c") auto
  then show ?case
  proof cases
    case skip
    then show ?thesis using "2.IH"(1) [OF skip T(2)] "2.prems"(2) by simp
  next
    case sent
    have c: "do_call N ?c h = (Ok (), h @ [?c])" using sent(2) by (simp add: do_call_def)
    have d: "snd (do_call N (CDelete q) (h @ [?c])) = h @ [?c, CDelete q]"
      by (simp add: do_call_def split: option.split)
    from "2.IH"(2) [OF sent(1) c [symmetric] refl T(2), of r h'] "2.prems"(2) sent(1) c d
    obtain t where "h' = (h @ [?c, CDelete q]) @ t" "replay_calls N T (h @ [?c, CDelete q]) t"
      by auto
    then show ?thesis
      using replay_calls.moved [OF T(1) sent(2)] by (intro exI [of _ "?c # CDelete q # t"]) simp
  next
    case (failed e)
    have c: "do_call N ?c h = (Err e, h @ [?c])" using failed(2) by (simp add: do_call_def)
    from "2.IH"(3) [OF failed(1) c [symmetric] refl T(2), of r h'] "2.prems"(2) failed(1) c
    obtain t where "h' = (h @ [?c]) @ t" "replay_calls N T (h @ [?c]) t" by auto
    then show ?thesis
      using replay_calls.kept [OF T(1) failed(2)] by (intro exI [of _ "?c # t"]) simp
  qed
qed

lemma replay_targets_history: "replay_targets N C sq unit h = (r, h') \<Longrightarrow> h' = h"
  by (auto simp: replay_targets_def dlq_list_def mbind_def split: option.splits result.splits prod.splits if_splits)

definition letters_to_replay ::
  "nats \<Rightarrow> codec \<Rightarrow> nat option \<Rightarrow> string option \<Rightarrow> call list \<Rightarrow> (nat \<times> string \<times> string) set" where
  "letters_to_replay N C sq unit h = (case fst (replay_targets N C sq unit h) of Ok ts \<Rightarrow> set ts | _ \<Rightarrow> {})"

text \<open>
  (C19) A replay publishes before it deletes: in the calls a replay makes, every deletion of a
  dead letter comes directly after a publish the bus accepted, of the letter with that sequence
  number, to its original subject. A letter whose publish fails stays in the queue.
\<close>

theorem replay_publishes_before_delete:
  "\<exists>t a. snd (dlq_replay N C sq unit actor now h) = h @ t @ a \<and>
     replay_calls N (letters_to_replay N C sq unit h) h t \<and>
     (a = [] \<or> (\<exists>rec. a = [CStore (audit_subject (case unit of Some u \<Rightarrow> u | None \<Rightarrow> ''dlq'')) rec]))"
proof -
  obtain r1 h1 where 1: "replay_targets N C sq unit h = (r1, h1)" by fastforce
  then have h1: "h1 = h" by (rule replay_targets_history)
  show ?thesis
  proof (cases r1)
    case (Ok ts)
    obtain r2 h2 where 2: "replay_all N ts 0 [] h = (r2, h2)" by fastforce
    from replay_all_calls [OF subset_refl this] obtain t where t: "h2 = h @ t" "replay_calls N (set ts) h t"
      by blast
    have "\<exists>a. snd (dlq_replay N C sq unit actor now h) = h @ t @ a \<and>
        (a = [] \<or> (\<exists>rec. a = [CStore (audit_subject (case unit of Some u \<Rightarrow> u | None \<Rightarrow> ''dlq'')) rec]))"
      using 1 Ok h1 2 t(1)
      by (cases r2) (auto simp: dlq_replay_def mbind_def dlq_audit_def to_audit_def do_call_def
          split: option.split prod.split)
    moreover have "letters_to_replay N C sq unit h = set ts" using 1 Ok by (simp add: letters_to_replay_def)
    ultimately show ?thesis using t(2) by auto
  qed (use 1 h1 in \<open>auto simp: dlq_replay_def mbind_def intro: replay_calls.no_more\<close>)
qed

end
