(* ===== verification/Metrics.thy ===== *)
theory Metrics
  imports F64 Prelude
begin

text \<open>
  The counters of \<open>core/src/metrics.rs\<close>: one record per unit, the latency histogram and the
  operations that update them. The map of units is the value of the global \<open>UNITS\<close>.
\<close>

definition buckets_bounds :: "f64 list" where
  "buckets_bounds =
     [f64_of_dec False 5 (-4), f64_of_dec False 1 (-3), f64_of_dec False 25 (-4),
      f64_of_dec False 5 (-3), f64_of_dec False 1 (-2), f64_of_dec False 25 (-3),
      f64_of_dec False 5 (-2), f64_of_dec False 1 (-1), f64_of_dec False 25 (-2),
      f64_of_dec False 5 (-1), f64_of_dec False 1 0, f64_of_dec False 25 (-1),
      f64_of_dec False 5 0]"

record unit_metrics =
  m_ok :: nat
  m_err :: nat
  m_emits :: nat
  m_dead :: nat
  m_rejected :: nat
  m_fetch_rounds :: nat
  m_fetch_messages :: nat
  m_round_fetch :: f64
  m_round_process :: f64
  m_round_barrier :: f64
  m_buckets :: "nat list"
  m_sum :: f64
  m_count :: nat
  m_snapshots :: nat
  m_snapshot_seq :: nat
  m_snapshot_bytes :: nat
  m_snapshot_secs :: f64
  m_restores :: nat
  m_restore_seq :: nat

definition default_unit :: unit_metrics where
  "default_unit =
     \<lparr>m_ok = 0, m_err = 0, m_emits = 0, m_dead = 0, m_rejected = 0, m_fetch_rounds = 0,
      m_fetch_messages = 0, m_round_fetch = f_zero, m_round_process = f_zero,
      m_round_barrier = f_zero, m_buckets = replicate 13 0, m_sum = f_zero, m_count = 0,
      m_snapshots = 0, m_snapshot_seq = 0, m_snapshot_bytes = 0, m_snapshot_secs = f_zero,
      m_restores = 0, m_restore_seq = 0\<rparr>"

type_synonym units = "string \<Rightarrow> unit_metrics option"

definition on_unit :: "string \<Rightarrow> (unit_metrics \<Rightarrow> unit_metrics) \<Rightarrow> units \<Rightarrow> units" where
  "on_unit u f m = m(u \<mapsto> f (case m u of Some x \<Rightarrow> x | None \<Rightarrow> default_unit))"

definition f_le :: "f64 \<Rightarrow> f64 \<Rightarrow> bool" where
  "f_le a b \<longleftrightarrow> f_cmp a b \<in> {Some Less, Some Equal}"

text \<open>Every bucket whose bound is not below the sample is bumped.\<close>

definition bump :: "f64 \<Rightarrow> nat list \<Rightarrow> nat list" where
  "bump secs bs = map2 (\<lambda>bound n. if f_le secs bound then n + 1 else n) buckets_bounds bs"

definition observe :: "string \<Rightarrow> bool \<Rightarrow> nat \<Rightarrow> f64 \<Rightarrow> units \<Rightarrow> units" where
  "observe u ok emits secs =
     on_unit u (\<lambda>x. x\<lparr>m_ok := m_ok x + (if ok then 1 else 0), m_err := m_err x + (if ok then 0 else 1),
       m_emits := m_emits x + emits, m_sum := f_add (m_sum x) secs, m_count := m_count x + 1,
       m_buckets := bump secs (m_buckets x)\<rparr>)"

definition observe_tick_emits :: "string \<Rightarrow> nat \<Rightarrow> units \<Rightarrow> units" where
  "observe_tick_emits u n = on_unit u (\<lambda>x. x\<lparr>m_emits := m_emits x + n\<rparr>)"

definition observe_fetch :: "string \<Rightarrow> nat \<Rightarrow> units \<Rightarrow> units" where
  "observe_fetch u messages =
     on_unit u (\<lambda>x. x\<lparr>m_fetch_rounds := m_fetch_rounds x + 1,
       m_fetch_messages := m_fetch_messages x + messages\<rparr>)"

definition observe_round :: "string \<Rightarrow> f64 \<Rightarrow> f64 \<Rightarrow> f64 \<Rightarrow> units \<Rightarrow> units" where
  "observe_round u fetch process barrier =
     on_unit u (\<lambda>x. x\<lparr>m_round_fetch := f_add (m_round_fetch x) fetch,
       m_round_process := f_add (m_round_process x) process,
       m_round_barrier := f_add (m_round_barrier x) barrier\<rparr>)"

definition observe_snapshot :: "string \<Rightarrow> nat \<Rightarrow> nat \<Rightarrow> f64 \<Rightarrow> units \<Rightarrow> units" where
  "observe_snapshot u seq bytes secs =
     on_unit u (\<lambda>x. x\<lparr>m_snapshots := m_snapshots x + 1, m_snapshot_seq := seq,
       m_snapshot_bytes := bytes, m_snapshot_secs := f_add (m_snapshot_secs x) secs\<rparr>)"

definition observe_restore :: "string \<Rightarrow> nat \<Rightarrow> units \<Rightarrow> units" where
  "observe_restore u seq = on_unit u (\<lambda>x. x\<lparr>m_restores := m_restores x + 1, m_restore_seq := seq\<rparr>)"

definition inc_dead_letter :: "string \<Rightarrow> units \<Rightarrow> units" where
  "inc_dead_letter u = on_unit u (\<lambda>x. x\<lparr>m_dead := m_dead x + 1\<rparr>)"

definition inc_rejected :: "string \<Rightarrow> units \<Rightarrow> units" where
  "inc_rejected u = on_unit u (\<lambda>x. x\<lparr>m_rejected := m_rejected x + 1\<rparr>)"

section \<open>The invariant of a unit\<close>

text \<open>
  Thirteen buckets that grow with the bound and stay below the count, which is the number of
  processed events: what a Prometheus histogram requires.
\<close>

definition unit_inv :: "unit_metrics \<Rightarrow> bool" where
  "unit_inv x \<longleftrightarrow>
     length (m_buckets x) = 13 \<and> sorted (m_buckets x) \<and>
     (\<forall>n \<in> set (m_buckets x). n \<le> m_count x) \<and> m_count x = m_ok x + m_err x"

definition units_inv :: "units \<Rightarrow> bool" where
  "units_inv m \<longleftrightarrow> (\<forall>u x. m u = Some x \<longrightarrow> unit_inv x)"

lemma unit_inv_default: "unit_inv default_unit"
  by (simp add: unit_inv_def default_unit_def sorted_replicate)

lemma units_inv_on_unit:
  assumes "units_inv m" and "\<And>x. unit_inv x \<Longrightarrow> unit_inv (f x)"
  shows "units_inv (on_unit u f m)"
  using assms unit_inv_default by (auto simp: units_inv_def on_unit_def split: option.split)

lemma bounds_length: "length buckets_bounds = 13"
  by (simp add: buckets_bounds_def)

section \<open>Facts\<close>

text \<open>The comparison of finite floats is the comparison of the numbers they stand for.\<close>

definition f_val :: "bool \<Rightarrow> int \<Rightarrow> int \<Rightarrow> real" where
  "f_val s m e = real_of_int (signed s m) * 2 powi e"

lemma real_pow2: "0 \<le> k \<Longrightarrow> real_of_int (pow2 k) = 2 powi k"
  by (simp add: pow2_def power_int_def)

lemma scaled_val:
  assumes "e \<le> e1"
  shows "real_of_int (signed s m * pow2 (e1 - e)) = f_val s m e1 * 2 powi (- e)"
  using assms by (simp add: f_val_def real_pow2 power_int_diff power_int_minus divide_inverse)

lemma f_le_Fin: "f_le (Fin s1 m1 e1) (Fin s2 m2 e2) \<longleftrightarrow> f_val s1 m1 e1 \<le> f_val s2 m2 e2"
proof -
  let ?e = "min e1 e2"
  let ?a = "signed s1 m1 * pow2 (e1 - ?e)" and ?b = "signed s2 m2 * pow2 (e2 - ?e)"
  have "f_le (Fin s1 m1 e1) (Fin s2 m2 e2) \<longleftrightarrow> ?a \<le> ?b"
    by (auto simp: f_le_def Let_def)
  also have "\<dots> \<longleftrightarrow> real_of_int ?a \<le> real_of_int ?b" by (simp only: of_int_le_iff)
  also have "\<dots> \<longleftrightarrow> f_val s1 m1 e1 \<le> f_val s2 m2 e2"
    by (simp add: scaled_val del: of_int_mult)
  finally show ?thesis .
qed

lemma f_le_trans: "f_le a b \<Longrightarrow> f_le b c \<Longrightarrow> f_le a c"
  by (cases a; cases b; cases c) (auto simp: f_le_Fin, auto simp: f_le_def split: if_splits)

lemma bounds_sorted: "sorted_wrt f_le buckets_bounds"
  by code_simp

lemma bump_length: "length bs = 13 \<Longrightarrow> length (bump secs bs) = 13"
  by (simp add: bump_def bounds_length)

lemma bump_nth:
  "length bs = 13 \<Longrightarrow> i < 13 \<Longrightarrow>
     bump secs bs ! i = bs ! i + (if f_le secs (buckets_bounds ! i) then 1 else 0)"
  by (simp add: bump_def bounds_length)

lemma bump_sorted:
  assumes "length bs = 13" and "sorted bs"
  shows "sorted (bump secs bs)"
proof (rule sorted_iff_nth_mono_less [THEN iffD2], intro allI impI)
  fix i j assume ij: "i < j" "j < length (bump secs bs)"
  then have n: "i < 13" "j < 13" using assms by (simp_all add: bump_length)
  have "f_le (buckets_bounds ! i) (buckets_bounds ! j)"
    using bounds_sorted ij(1) n by (simp add: sorted_wrt_iff_nth_less bounds_length)
  then have "f_le secs (buckets_bounds ! i) \<Longrightarrow> f_le secs (buckets_bounds ! j)" by (rule f_le_trans [rotated])
  moreover have "bs ! i \<le> bs ! j" using assms ij(1) n by (simp add: sorted_iff_nth_mono_less)
  ultimately show "bump secs bs ! i \<le> bump secs bs ! j" using assms n by (simp add: bump_nth)
qed

lemma bump_bound:
  assumes "length bs = 13" and "\<forall>n \<in> set bs. n \<le> c"
  shows "\<forall>n \<in> set (bump secs bs). n \<le> Suc c"
proof
  fix n assume "n \<in> set (bump secs bs)"
  then obtain i where "i < 13" "n = bump secs bs ! i"
    using assms(1) by (auto simp: in_set_conv_nth bump_length)
  moreover have "bs ! i \<le> c" using assms \<open>i < 13\<close> by simp
  ultimately show "n \<le> Suc c" using assms(1) by (simp add: bump_nth)
qed

lemma observe_unit_inv:
  assumes "unit_inv x"
  shows "unit_inv (x\<lparr>m_ok := m_ok x + (if ok then 1 else 0), m_err := m_err x + (if ok then 0 else 1),
       m_emits := m_emits x + emits, m_sum := f_add (m_sum x) secs, m_count := m_count x + 1,
       m_buckets := bump secs (m_buckets x)\<rparr>)"
proof -
  have l: "length (m_buckets x) = 13" and "sorted (m_buckets x)"
    and "\<forall>n \<in> set (m_buckets x). n \<le> m_count x" and c: "m_count x = m_ok x + m_err x"
    using assms unfolding unit_inv_def by blast+
  then have "sorted (bump secs (m_buckets x))"
    and "\<forall>n \<in> set (bump secs (m_buckets x)). n \<le> Suc (m_count x)"
    by (simp_all add: bump_sorted bump_bound)
  then show ?thesis using l c by (simp add: unit_inv_def bump_length)
qed

lemma units_inv_counters:
  assumes "units_inv m"
  shows "units_inv (observe u ok emits secs m)" and "units_inv (observe_tick_emits u n m)"
    and "units_inv (observe_fetch u n m)" and "units_inv (observe_round u a b c m)"
    and "units_inv (observe_snapshot u n k secs m)" and "units_inv (observe_restore u n m)"
    and "units_inv (inc_dead_letter u m)" and "units_inv (inc_rejected u m)"
  unfolding observe_def observe_tick_emits_def observe_fetch_def observe_round_def
    observe_snapshot_def observe_restore_def inc_dead_letter_def inc_rejected_def
  by (rule units_inv_on_unit [OF assms], rule observe_unit_inv, assumption)
     (rule units_inv_on_unit [OF assms], auto simp: unit_inv_def)+

section \<open>What the exposition rests on\<close>

datatype observation =
    Observe string bool nat f64
  | TickEmits string nat
  | FetchRound string nat
  | RoundTimes string f64 f64 f64
  | Snapshot string nat nat f64
  | Restore string nat
  | DeadLetter string
  | Rejected string

fun record_one :: "observation \<Rightarrow> units \<Rightarrow> units" where
  "record_one (Observe u ok n secs) = observe u ok n secs"
| "record_one (TickEmits u n) = observe_tick_emits u n"
| "record_one (FetchRound u n) = observe_fetch u n"
| "record_one (RoundTimes u a b c) = observe_round u a b c"
| "record_one (Snapshot u q k secs) = observe_snapshot u q k secs"
| "record_one (Restore u q) = observe_restore u q"
| "record_one (DeadLetter u) = inc_dead_letter u"
| "record_one (Rejected u) = inc_rejected u"

lemma record_one_inv: "units_inv m \<Longrightarrow> units_inv (record_one ob m)"
  by (cases ob) (simp_all add: units_inv_counters)

text \<open>
  The histogram of every unit stays one: whatever the sequence of observations, the
  thirteen buckets grow with their bounds, no bucket exceeds the count of observed events, and
  the count is the number of successes and failures.
\<close>

theorem histograms_stay_cumulative: "units_inv (fold record_one obs Map.empty)"
proof -
  have "units_inv m \<Longrightarrow> units_inv (fold record_one obs m)" for m
    by (induction obs arbitrary: m) (simp_all add: record_one_inv)
  moreover have "units_inv Map.empty" by (simp add: units_inv_def)
  ultimately show ?thesis by blast
qed

end
