(* ===== verification/Flow.thy ===== *)
theory Flow
  imports Script_Props Dlq Metrics
begin

text \<open>
  The runtime of a flow, from \<open>core/src/main.rs\<close>: the trace ring and the loop of
  \<open>supervise_vjs\<close>, which pulls messages, runs the program on each, holds what it emits, confirms
  the batch and only then acknowledges. The clock, the stop flag and the texts of error values
  are fields of the environment; the clock and the flag are functions of the calls made so far.
\<close>

section \<open>The event trace\<close>

record traces =
  tr_seq :: nat
  tr_rings :: "json list omap"

definition no_traces :: traces where
  "no_traces = \<lparr>tr_seq = 0, tr_rings = []\<rparr>"

definition ring_of :: "traces \<Rightarrow> string \<Rightarrow> json list" where
  "ring_of t unit = (case om_get (tr_rings t) unit of Some r \<Rightarrow> r | None \<Rightarrow> [])"

definition trace_entry ::
  "nat \<Rightarrow> nat \<Rightarrow> string \<Rightarrow> string \<Rightarrow> bool \<Rightarrow> string option \<Rightarrow> string list \<Rightarrow> string \<Rightarrow> json option \<Rightarrow>
     string option \<Rightarrow> json" where
  "trace_entry sq now unit subject ok error emitted preview event resp =
     VObject (om_of_list
       [(''seq'', num_json sq), (''ts'', num_json now), (''flow'', VString unit),
        (''subject'', VString subject), (''ok'', VBool ok), (''error'', opt_json VString error),
        (''emits'', VArray (map VString emitted)), (''preview'', VString preview),
        (''response'', opt_json VString resp), (''event'', opt_json id event)])"

definition record_trace_full ::
  "nat \<Rightarrow> string \<Rightarrow> string \<Rightarrow> bool \<Rightarrow> string option \<Rightarrow> string list \<Rightarrow> string \<Rightarrow> json option \<Rightarrow>
     string option \<Rightarrow> traces \<Rightarrow> traces" where
  "record_trace_full now unit subject ok error emitted preview event resp t =
     (let ring = ring_of t unit @
            [trace_entry (tr_seq t) now unit subject ok error emitted preview event resp]
      in \<lparr>tr_seq = tr_seq t + 1, tr_rings = om_insert unit (drop (length ring - 50) ring) (tr_rings t)\<rparr>)"

definition record_trace ::
  "nat \<Rightarrow> string \<Rightarrow> string \<Rightarrow> bool \<Rightarrow> string option \<Rightarrow> string list \<Rightarrow> string \<Rightarrow> json option \<Rightarrow> traces \<Rightarrow> traces" where
  "record_trace now unit subject ok error emitted preview event =
     record_trace_full now unit subject ok error emitted preview event None"

text \<open>
  What \<open>/events\<close> shows: newest first, a hundred at most, the stored event replaced by its preview.
\<close>

definition preview_of :: "codec \<Rightarrow> json \<Rightarrow> string" where
  "preview_of C v =
     (let cs = str_chars (cd_print C v) in
      if 160 < length cs then concat (take 159 cs) @ [CHR 0xE2, CHR 0x80, CHR 0xA6] else cd_print C v)"

definition shown_event :: "codec \<Rightarrow> json \<Rightarrow> json" where
  "shown_event C e =
     (case e of
        VObject m \<Rightarrow>
          (let empty = (case om_get m ''preview'' of Some (VString p) \<Rightarrow> p = [] | _ \<Rightarrow> True);
               pv = (case om_get m ''event'' of Some ev \<Rightarrow> preview_of C ev | None \<Rightarrow> []);
               m' = (if empty then om_insert ''preview'' (VString pv) m else m)
           in VObject (om_remove ''event'' m'))
      | _ \<Rightarrow> e)"

definition event_seq :: "json \<Rightarrow> int" where
  "event_seq e = (case as_u64 (value_index e ''seq'') of Some n \<Rightarrow> n | None \<Rightarrow> 0)"

definition events_list :: "codec \<Rightarrow> string option \<Rightarrow> traces \<Rightarrow> json list" where
  "events_list C flow t =
     take 100 (sort_key (\<lambda>e. - event_seq e)
       (concat (map (\<lambda>(_, ring). map (shown_event C) ring)
         (filter (\<lambda>(name, _). case flow of Some f \<Rightarrow> f = name | None \<Rightarrow> True) (tr_rings t)))))"

definition events_json :: "codec \<Rightarrow> string option \<Rightarrow> traces \<Rightarrow> string" where
  "events_json C flow t = cd_print C (VObject [(''events'', VArray (events_list C flow t))])"

section \<open>The environment and the state of a flow\<close>

datatype timer = TRun | TFetch | TProcess | TBarrier

record flow_env =
  fe_world :: "call list \<Rightarrow> world"
  fe_nats :: nats
  fe_codec :: codec
  fe_environ :: environ
  fe_run_error :: "rerr \<Rightarrow> string"
  fe_json_error :: "string \<Rightarrow> string"
  fe_now :: "call list \<Rightarrow> nat"
  fe_elapsed :: "call list \<Rightarrow> timer \<Rightarrow> f64"
  fe_stop :: "call list \<Rightarrow> nat \<Rightarrow> bool"

record flow =
  fl_name :: string
  fl_program :: program
  fl_version :: string

record flow_state =
  fs_engine :: engine
  fs_held :: batch
  fs_to_ack :: "message list"
  fs_fault :: "string option"
  fs_dlq :: dlq
  fs_units :: units
  fs_traces :: traces
  fs_last_error :: "string option"

type_synonym 'a flow_m = "(flow_state, 'a, string) stm"

abbreviation fs_history :: "flow_state \<Rightarrow> call list" where
  "fs_history s \<equiv> dq_history (fs_dlq s)"

definition max_deliveries :: int where "max_deliveries = 5"

definition on_flow_bus :: "'a bm \<Rightarrow> 'a flow_m" where
  "on_flow_bus m s = (case on_bus m (fs_dlq s) of (r, d) \<Rightarrow> (r, s\<lparr>fs_dlq := d\<rparr>))"

text \<open>A call whose answer is dropped (\<open>let _ = ...\<close>).\<close>

definition ignoring :: "'a flow_m \<Rightarrow> unit flow_m" where
  "ignoring m s = (case m s of (Panic, s') \<Rightarrow> (Panic, s') | (_, s') \<Rightarrow> (Ok (), s'))"

section \<open>One message\<close>

text \<open>The emits of a run, held one by one: what was held before a refusal stays held.\<close>

fun hold_emits :: "nats \<Rightarrow> codec \<Rightarrow> call list \<Rightarrow> (string \<times> json) list \<Rightarrow> (batch, unit, string) stm" where
  "hold_emits N C h [] held = (Ok (), held)"
| "hold_emits N C h ((subj, payload) # es) held =
     (case batch_publish N h subj (cd_print C payload) held of
        Ok held' \<Rightarrow> hold_emits N C h es held'
      | Err e \<Rightarrow> (Err (''publish '' @ subj @ '': '' @ e), held)
      | Panic \<Rightarrow> (Panic, held))"

definition delivered_count :: "message \<Rightarrow> int" where
  "delivered_count m = (case delivery_of m of Some d \<Rightarrow> dl_delivered d | None \<Rightarrow> 1)"

definition trace_failure ::
  "flow_env \<Rightarrow> flow \<Rightarrow> message \<Rightarrow> string \<Rightarrow> string \<Rightarrow> json option \<Rightarrow> flow_state \<Rightarrow> flow_state" where
  "trace_failure E F m error preview event s =
     s\<lparr>fs_traces := record_trace (fe_now E (fs_history s)) (fl_name F) (ms_subject m) False (Some error) []
         preview event (fs_traces s)\<rparr>"

text \<open>Parking a message: the dead letter is published before the ack, and a failed publish naks.\<close>

definition park ::
  "flow_env \<Rightarrow> flow \<Rightarrow> message \<Rightarrow> string \<Rightarrow> string \<Rightarrow> string \<Rightarrow> json option \<Rightarrow> unit flow_m" where
  "park E F m err parked_text preview event s =
     (case to_dlq (fe_nats E) (fe_codec E) (fe_environ E) (fl_name F) (ms_subject m) (delivered_count m)
             err (ms_data m) (fl_version F) (fe_now E (fs_history s)) (fs_dlq s) of
        (Ok _, d) \<Rightarrow>
          ignoring (on_flow_bus (ack (fe_nats E) m))
            (trace_failure E F m (err @ parked_text) preview event
               (s\<lparr>fs_dlq := d, fs_units := inc_dead_letter (fl_name F) (fs_units s)\<rparr>))
      | (Err de, d) \<Rightarrow>
          ignoring (on_flow_bus (nak (fe_nats E) m))
            (trace_failure E F m (err @ dash @ ''DLQ publish failed: '' @ de) preview event (s\<lparr>fs_dlq := d\<rparr>))
      | (Panic, d) \<Rightarrow> (Panic, s\<lparr>fs_dlq := d\<rparr>))"

text \<open>The program on one event, its emits held: the \<open>outcome\<close> of the loop.\<close>

definition run_and_hold :: "flow_env \<Rightarrow> world \<Rightarrow> flow \<Rightarrow> json \<Rightarrow> ctx flow_m" where
  "run_and_hold E W F event s =
     (case run W (fl_program F) event (fs_engine s) of
        (Ok c, e) \<Rightarrow>
          (case hold_emits (fe_nats E) (fe_codec E) (fs_history s) (emits c) (fs_held s) of
             (Ok _, held) \<Rightarrow> (Ok c, s\<lparr>fs_engine := e, fs_held := held\<rparr>)
           | (Err x, held) \<Rightarrow> (Err x, s\<lparr>fs_engine := e, fs_held := held\<rparr>)
           | (Panic, held) \<Rightarrow> (Panic, s\<lparr>fs_engine := e, fs_held := held\<rparr>))
      | (Err x, e) \<Rightarrow> (Err (fe_run_error E x), s\<lparr>fs_engine := e\<rparr>)
      | (Panic, e) \<Rightarrow> (Panic, s\<lparr>fs_engine := e\<rparr>))"

text \<open>A failed run: parked from the fifth delivery on, before that left unacknowledged.\<close>

definition failed_run :: "flow_env \<Rightarrow> flow \<Rightarrow> message \<Rightarrow> string \<Rightarrow> json \<Rightarrow> unit flow_m" where
  "failed_run E F m e event =
     (if max_deliveries \<le> delivered_count m then
        park E F m e (dash @ ''dead-lettered after '' @ int_str (delivered_count m) @ '' deliveries'')
          [] (Some event)
      else mupd (trace_failure E F m e [] (Some event)))"

definition process_event :: "flow_env \<Rightarrow> world \<Rightarrow> flow \<Rightarrow> message \<Rightarrow> json \<Rightarrow> unit flow_m" where
  "process_event E W F m event s =
     (let secs = fe_elapsed E (fs_history s) TRun in
      case run_and_hold E W F event s of
        (Ok c, s1) \<Rightarrow>
          (Ok (), s1\<lparr>fs_units := observe (fl_name F) True (length (emits c)) secs (fs_units s1),
             fs_traces := record_trace (fe_now E (fs_history s1)) (fl_name F) (ms_subject m) True None
               (map fst (emits c)) [] (Some event) (fs_traces s1),
             fs_to_ack := fs_to_ack s1 @ [m]\<rparr>)
      | (Err e, s1) \<Rightarrow>
          mbind (failed_run E F m e event) (\<lambda>_. mupd (fs_last_error_update (\<lambda>_. Some e)))
            (s1\<lparr>fs_units := observe (fl_name F) False 0 secs (fs_units s1)\<rparr>)
      | (Panic, s1) \<Rightarrow> (Panic, s1))"

definition process_message :: "flow_env \<Rightarrow> world \<Rightarrow> flow \<Rightarrow> message \<Rightarrow> unit flow_m" where
  "process_message E W F m =
     (case cd_parse (fe_codec E) (ms_data m) of
        None \<Rightarrow>
          mbind (mupd (fs_units_update (observe (fl_name F) False 0 f_zero))) (\<lambda>_.
            park E F m (''bad json: '' @ fe_json_error E (ms_data m)) (dash @ ''dead-lettered'')
              (concat (take 160 (str_chars (from_utf8_lossy (ms_data m))))) None)
      | Some event \<Rightarrow> process_event E W F m event)"

section \<open>Rounds\<close>

text \<open>
  The messages of a round in order; a stop seen on taking a message ends the attempt, leaving it
  and the rest unacknowledged. \<open>True\<close> means stopped.
\<close>

fun process_all :: "flow_env \<Rightarrow> world \<Rightarrow> flow \<Rightarrow> message list \<Rightarrow> bool flow_m" where
  "process_all E W F [] = mret False"
| "process_all E W F (m # ms) =
     (\<lambda>s. if fe_stop E (fs_history s) (length (m # ms)) then (Ok True, s)
           else mbind (process_message E W F m) (\<lambda>_. process_all E W F ms) s)"

text \<open>The barrier of a round, then the acks: none if the barrier fails, and an ack that fails is
  only reported.\<close>

definition settle :: "flow_env \<Rightarrow> unit flow_m" where
  "settle E s =
     (case on_flow_bus (confirm (fe_nats E) (fs_held s)) s of
        (Ok _, s1) \<Rightarrow> ignoring (on_flow_bus (ack_all (fe_nats E) (fs_to_ack s1))) (s1\<lparr>fs_held := []\<rparr>)
      | (Err _, s1) \<Rightarrow> (Ok (), s1\<lparr>fs_held := []\<rparr>)
      | (Panic, s1) \<Rightarrow> (Panic, s1))"

definition finish_round :: "flow_env \<Rightarrow> flow \<Rightarrow> nat \<Rightarrow> unit flow_m" where
  "finish_round E F fetched =
     mbind (mupd (fs_units_update (observe_fetch (fl_name F) fetched))) (\<lambda>_.
     mbind (settle E) (\<lambda>_.
       mupd (\<lambda>s. s\<lparr>fs_units := observe_round (fl_name F) (fe_elapsed E (fs_history s) TFetch)
         (fe_elapsed E (fs_history s) TProcess) (fe_elapsed E (fs_history s) TBarrier) (fs_units s)\<rparr>)))"

text \<open>
  One turn of the loop over the messages that are in the inbox: the caches are dropped, the next
  round is asked for, the messages are worked through, and the batch is settled. The files are
  those of the start of the round. What is left of the inbox is for the next turn.
\<close>

definition flow_round :: "flow_env \<Rightarrow> flow \<Rightarrow> raw_message list \<Rightarrow> (bool \<times> raw_message list) flow_m" where
  "flow_round E F inbox =
     mbind mget (\<lambda>s.
     mbind (mupd (\<lambda>s. s\<lparr>fs_engine := invalidate (fs_engine s), fs_to_ack := [], fs_fault := None\<rparr>)) (\<lambda>_.
     mbind (on_flow_bus (round_request (fe_nats E) (fs_fault s))) (\<lambda>_.
       (case round_messages 0 inbox of (ms, rest, fault) \<Rightarrow>
          mbind (mupd (fs_fault_update (\<lambda>_. fault))) (\<lambda>_.
          mbind (process_all E (fe_world E (fs_history s)) F ms) (\<lambda>stopped.
            if stopped then mret (True, rest)
            else mbind (finish_round E F (length ms)) (\<lambda>_. mret (False, rest))))))))"

text \<open>
  The loop of an attempt, over what arrives before each turn. It ends on a stop (\<open>True\<close>) or an
  error; otherwise it is still running when the arrivals given are used up.
\<close>

fun flow_rounds :: "flow_env \<Rightarrow> flow \<Rightarrow> raw_message list list \<Rightarrow> raw_message list \<Rightarrow> bool flow_m" where
  "flow_rounds E F [] inbox = mret False"
| "flow_rounds E F (new # later) inbox =
     (\<lambda>s. if fe_stop E (fs_history s) 0 then (Ok True, s)
           else mbind (flow_round E F (inbox @ new))
             (\<lambda>(stopped, rest). if stopped then mret True else flow_rounds E F later rest) s)"

section \<open>Attempts and supervision\<close>

text \<open>
  How an attempt starts: the file, or the promoted version that forked from it, is parsed; a
  stale version is evicted and the eviction audited; a program with no source is parked if it is
  served otherwise. \<open>available\<close> says whether the store of versions could be opened.
\<close>

datatype start = Parked string | Consume program string string

definition eviction_record :: "string \<Rightarrow> string \<Rightarrow> string \<Rightarrow> nat \<Rightarrow> json" where
  "eviction_record name parent base_hash now =
     VObject (om_of_list
       [(''ts'', num_json now), (''actor'', VString ''eviction''), (''unit'', VString name),
        (''kind'', VString ''overlay-evicted''), (''parent'', VString parent), (''baseline'', VString base_hash)])"

definition effective_source ::
  "flow_env \<Rightarrow> 's kv \<Rightarrow> bool \<Rightarrow> string \<Rightarrow> string \<Rightarrow> ('s \<times> json list) \<times> call list \<Rightarrow>
     string \<times> (('s \<times> json list) \<times> call list)" where
  "effective_source E K available name baseline st =
     (case st of (store, h) \<Rightarrow>
        case resolve_source K (fe_codec E) available name baseline (fe_now E h) store of
          ((src, Evicted parent base_hash), store') \<Rightarrow>
            (src, (store', snd (to_audit (fe_nats E) (fe_codec E) name
               (eviction_record name parent base_hash (fe_now E h)) h)))
        | ((src, _), store') \<Rightarrow> (src, (store', h)))"

definition flow_start ::
  "flow_env \<Rightarrow> 's kv \<Rightarrow> bool \<Rightarrow> (perr \<Rightarrow> string) \<Rightarrow> string \<Rightarrow> (string, string) result \<Rightarrow>
     (('s \<times> json list) \<times> call list, start, string) stm" where
  "flow_start E K available perr_text name contents st =
     (case contents of
        Err e \<Rightarrow> (Err e, st)
      | Panic \<Rightarrow> (Panic, st)
      | Ok baseline \<Rightarrow>
          (case effective_source E K available name baseline st of (src, st') \<Rightarrow>
             (case parse src of
                Err x \<Rightarrow> (Err (perr_text x), st')
              | Panic \<Rightarrow> (Panic, st')
              | Ok prog \<Rightarrow>
                  (case pg_source prog of
                     Some source \<Rightarrow> (Ok (Consume prog (hash_content src) source), st')
                   | None \<Rightarrow>
                       if pg_api prog \<noteq> None then (Ok (Parked ''api''), st')
                       else if pg_tool prog \<noteq> None then (Ok (Parked ''tool''), st')
                       else (Err ''no `source` declaration'', st')))))"

text \<open>The durable consumer of a unit.\<close>

definition durable_name :: "string \<Rightarrow> string" where
  "durable_name name = map (\<lambda>c. if c = CHR '':'' \<or> c = CHR ''.'' then CHR ''_'' else c) name"

text \<open>A panic of an attempt is one more failure.\<close>

definition contained :: "string \<Rightarrow> ('a, string) result \<Rightarrow> ('a, string) result" where
  "contained msg r = (case r of Panic \<Rightarrow> Err (''panic: '' @ msg) | _ \<Rightarrow> r)"

record proc_state =
  ps_status :: string
  ps_restarts :: nat
  ps_started_at :: "nat option"
  ps_last_error :: "string option"

text \<open>
  The outer loop of a supervisor over the outcomes of its attempts: it ends on the first that
  returns, and waits longer after each that fails. The state is that of the unit and the delay
  before the next attempt, in seconds; the list is the delays slept so far.
\<close>

fun supervise :: "string \<Rightarrow> ('a, string) result list \<Rightarrow> proc_state \<Rightarrow> nat \<Rightarrow> proc_state \<times> nat list" where
  "supervise msg [] st delay = (st, [])"
| "supervise msg (r # rs) st delay =
     (case contained msg r of
        Err e \<Rightarrow>
          (case supervise msg rs
              (st\<lparr>ps_status := ''restarting'', ps_restarts := ps_restarts st + 1, ps_last_error := Some e\<rparr>)
              (min (delay * 2) 30) of
             (st', slept) \<Rightarrow> (st', delay # slept))
      | _ \<Rightarrow> (st\<lparr>ps_status := ''stopped''\<rparr>, []))"

section \<open>Facts\<close>

text \<open>
  What a list of calls appended to a history does about acknowledgements: each comes after a
  history that justifies it.
\<close>

definition every_ack :: "(call list \<Rightarrow> string \<Rightarrow> bool) \<Rightarrow> call list \<Rightarrow> call list \<Rightarrow> bool" where
  "every_ack P h t \<longleftrightarrow> (\<forall>a r b. t = a @ CAck r # b \<longrightarrow> P (h @ a) r)"

lemma every_ack_Nil [simp]: "every_ack P h []"
  by (simp add: every_ack_def)

lemma every_ack_Cons [simp]:
  "every_ack P h (c # t) \<longleftrightarrow> (\<forall>r. c = CAck r \<longrightarrow> P h r) \<and> every_ack P (h @ [c]) t"
  by (auto simp: every_ack_def Cons_eq_append_conv)

lemma every_ack_append [simp]: "every_ack P h (t @ u) \<longleftrightarrow> every_ack P h t \<and> every_ack P (h @ t) u"
  by (induction t arbitrary: h) auto

lemma every_ack_mono: "every_ack P h t \<Longrightarrow> (\<And>h r. P h r \<Longrightarrow> Q h r) \<Longrightarrow> every_ack Q h t"
  by (auto simp: every_ack_def)

fun no_ack :: "call \<Rightarrow> bool" where
  "no_ack (CAck r) = False"
| "no_ack _ = True"

lemma every_ack_none: "list_all no_ack t \<Longrightarrow> every_ack P h t"
  by (induction t arbitrary: h) auto

text \<open>The same as a relation between the states before and after a step.\<close>

definition acks :: "(call list \<Rightarrow> string \<Rightarrow> bool) \<Rightarrow> 'e ending \<Rightarrow> flow_state \<Rightarrow> flow_state \<Rightarrow> bool" where
  "acks P k s s' \<longleftrightarrow> (\<exists>t. fs_history s' = fs_history s @ t \<and> every_ack P (fs_history s) t)"

interpretation acks: frame "acks P" "\<lambda>_. False" for P
proof unfold_locales
  fix k :: "'e ending" and s s' s'' :: flow_state
  assume "acks P EndOk s s'" and "acks P k s' s''"
  then obtain t u where "fs_history s' = fs_history s @ t" "every_ack P (fs_history s) t"
    "fs_history s'' = fs_history s' @ u" "every_ack P (fs_history s') u"
    by (auto simp: acks_def)
  then show "acks P k s s''" unfolding acks_def by (intro exI [of _ "t @ u"]) simp
qed (auto simp: acks_def)

lemma acks_trans: "acks P k s s' \<Longrightarrow> acks P l s' s'' \<Longrightarrow> acks P j s s''"
  unfolding acks_def by (metis append_assoc every_ack_append)

lemma acksI: "fs_history s' = fs_history s @ t \<Longrightarrow> every_ack P (fs_history s) t \<Longrightarrow> acks P k s s'"
  by (auto simp: acks_def)

lemma acks_same: "fs_history s' = fs_history s \<Longrightarrow> acks P k s s'"
  by (simp add: acks_def)

lemma acks_mono: "acks P k s s' \<Longrightarrow> (\<And>h r. P h r \<Longrightarrow> Q h r) \<Longrightarrow> acks Q k s s'"
  unfolding acks_def using every_ack_mono by meson

text \<open>An accepted call of a history.\<close>

definition accepted :: "nats \<Rightarrow> call list \<Rightarrow> call \<Rightarrow> bool" where
  "accepted N h c \<longleftrightarrow> (\<exists>a b. h = a @ c # b \<and> nt_answer N a c = None)"

lemma accepted_append: "accepted N h c \<Longrightarrow> accepted N (h @ t) c"
  unfolding accepted_def by (metis append.assoc append_Cons)

text \<open>A message is safe to acknowledge: parked in the dead-letter queue, or processed.\<close>

definition parked :: "flow_env \<Rightarrow> flow \<Rightarrow> call list \<Rightarrow> message \<Rightarrow> bool" where
  "parked E F h m \<longleftrightarrow>
     (\<exists>err now. accepted (fe_nats E) h
        (CStore (dlq_subject (fl_name F))
           (cd_print (fe_codec E)
              (envelope (fl_name F) (ms_subject m) (delivered_count m) err (ms_data m) (fl_version F) now))))"

definition emitted :: "flow_env \<Rightarrow> ctx \<Rightarrow> (string \<times> string) set" where
  "emitted E c = (\<lambda>(s, v). (s, cd_print (fe_codec E) v)) ` set (emits c)"

definition runs_ok :: "flow_env \<Rightarrow> world \<Rightarrow> flow \<Rightarrow> engine \<Rightarrow> message \<Rightarrow> ctx \<Rightarrow> bool" where
  "runs_ok E W F e m c \<longleftrightarrow>
     (\<exists>event. cd_parse (fe_codec E) (ms_data m) = Some event \<and>
        fst (run W (fl_program F) event (invalidate e)) = Ok c)"

definition processed :: "flow_env \<Rightarrow> flow \<Rightarrow> engine \<Rightarrow> call list \<Rightarrow> message \<Rightarrow> bool" where
  "processed E F e h m \<longleftrightarrow>
     (\<exists>start rest c. h = start @ rest \<and> runs_ok E (fe_world E start) F e m c \<and>
        (\<forall>x \<in> emitted E c. confirmed (fe_nats E) h x))"

definition safe_ack :: "flow_env \<Rightarrow> flow \<Rightarrow> engine \<Rightarrow> message set \<Rightarrow> call list \<Rightarrow> string \<Rightarrow> bool" where
  "safe_ack E F e M h r \<longleftrightarrow>
     (\<exists>m \<in> M. ms_reply m = Some r \<and> (parked E F h m \<or> processed E F e h m))"

lemma on_flow_bus_run:
  "on_flow_bus m s = (fst (m (fs_history s)), s\<lparr>fs_dlq := (fs_dlq s)\<lparr>dq_history := snd (m (fs_history s))\<rparr>\<rparr>)"
  by (simp add: on_flow_bus_def on_bus_def split: prod.split)

lemma on_flow_bus_acks:
  assumes "keeps (extends no_ack) m"
  shows "keeps (acks P) (on_flow_bus m)"
proof (rule keepsI)
  fix s
  obtain t where "snd (m (fs_history s)) = fs_history s @ t" "list_all no_ack t"
    using keepsD [OF assms, of "fs_history s"] by (auto simp: extends_def)
  then show "acks P (end_of (fst (on_flow_bus m s))) s (snd (on_flow_bus m s))"
    by (auto simp: on_flow_bus_run acks_def intro: every_ack_none)
qed

lemma send_all_no_ack: "keeps (extends no_ack) (send_all N held)"
  by (induction N held rule: send_all.induct)
     (simp_all only: send_all.simps hist.mret_keeps hist.mbind_keeps do_call_extends no_ack.simps)

lemma barrier_no_ack: "keeps (extends no_ack) (barrier_since N n)"
  unfolding barrier_since_def
  by (intro hist.mbind_keeps do_call_extends keepsI) (auto simp: extends_def)

lemma confirm_no_ack: "keeps (extends no_ack) (confirm N held)"
proof (rule keepsI)
  fix h
  have "keeps (extends no_ack) (mbind (send_all N held) (\<lambda>_. barrier_since N (nt_epoch N h)))"
    by (intro hist.mbind_keeps send_all_no_ack barrier_no_ack)
  from keepsD [OF this, of h] show "extends no_ack (end_of (fst (confirm N held h))) h (snd (confirm N held h))"
    by (auto simp: confirm_def extends_def)
qed

lemma round_request_no_ack: "keeps (extends no_ack) (round_request N fault)"
  unfolding round_request_def
  by (cases fault) (simp_all only: option.case, intro hist.mbind_keeps hist.mget_keeps keepsI,
     auto simp: extends_def do_call_def split: option.split)

lemma publish_dlq_events_stores: "\<exists>t. publish_dlq_events N C env es h = h @ t \<and> list_all no_ack t"
proof (induction N C env es h rule: publish_dlq_events.induct)
  case (2 N C env e es h)
  let ?c = "CStore (dlq_events_subject env) (cd_print C e)"
  have "snd (do_call N ?c h) = h @ [?c]" by (simp add: do_call_def split: option.split)
  with "2.IH" obtain t where "publish_dlq_events N C env (e # es) h = (h @ [?c]) @ t" "list_all no_ack t"
    by auto
  then show ?case by (intro exI [of _ "?c # t"]) simp
qed simp

text \<open>Parking: on success the letter is an accepted call of the history, and nothing is acked.\<close>

lemma to_dlq_history:
  fixes subject attempts err payload version now unit C
  defines "c \<equiv> CStore (dlq_subject unit) (cd_print C (envelope unit subject attempts err payload version now))"
  assumes "to_dlq N C env unit subject attempts err payload version now d = (r, d')"
  shows "\<exists>t. dq_history d' = dq_history d @ c # t \<and> list_all no_ack t"
    and "r = Ok u \<Longrightarrow> nt_answer N (dq_history d) c = None"
proof -
  obtain t where "publish_dlq_events N C env (fst (announce_due env unit subject attempts version now (dq_pending d)))
      (dq_history d @ [c]) = (dq_history d @ [c]) @ t" "list_all no_ack t"
    using publish_dlq_events_stores by blast
  then show "\<exists>t. dq_history d' = dq_history d @ c # t \<and> list_all no_ack t"
    using assms(2) unfolding to_dlq_def c_def [symmetric]
    by (auto simp: mbind_def on_bus_def do_call_def announce_dead_letter_def split: option.splits prod.splits)
  show "nt_answer N (dq_history d) c = None" if "r = Ok u"
    using assms(2) that unfolding to_dlq_def c_def [symmetric]
    by (auto simp: mbind_def on_bus_def do_call_def split: option.splits)
qed

lemma ack_history: "snd (ack N m h) = h @ (case ms_reply m of None \<Rightarrow> [] | Some r \<Rightarrow> [CAck r])"
  and nak_history: "snd (nak N m h) = h @ (case ms_reply m of None \<Rightarrow> [] | Some r \<Rightarrow> [CNak r])"
  by (simp_all add: ack_def nak_def do_call_def split: option.split)

lemma snd_ignoring [simp]: "snd (ignoring m s) = snd (m s)"
  by (simp add: ignoring_def split: prod.split result.split)

lemma fst_ignoring: "fst (m s) \<noteq> Panic \<Longrightarrow> fst (ignoring m s) = Ok ()"
  by (auto simp: ignoring_def split: prod.split result.split)

text \<open>What a step keeps of the state that the acknowledgements rest on.\<close>

definition same_batch :: "flow_state \<Rightarrow> flow_state \<Rightarrow> bool" where
  "same_batch s s' \<longleftrightarrow> fs_engine s' = fs_engine s \<and> fs_held s' = fs_held s \<and> fs_to_ack s' = fs_to_ack s"

lemma trace_failure_simps [simp]:
  "fs_dlq (trace_failure E F m err pv ev s) = fs_dlq s"
  "same_batch s' (trace_failure E F m err pv ev s) = same_batch s' s"
  by (simp_all add: trace_failure_def same_batch_def)

lemma park_acks:
  assumes "park E F m err suffix pv ev s = (r, s')"
  shows "acks (\<lambda>h q. ms_reply m = Some q \<and> parked E F h m) k s s'" and "same_batch s s'"
proof -
  let ?c = "CStore (dlq_subject (fl_name F)) (cd_print (fe_codec E) (envelope (fl_name F) (ms_subject m)
    (delivered_count m) err (ms_data m) (fl_version F) (fe_now E (fs_history s))))"
  obtain q d where d: "to_dlq (fe_nats E) (fe_codec E) (fe_environ E) (fl_name F) (ms_subject m)
      (delivered_count m) err (ms_data m) (fl_version F) (fe_now E (fs_history s)) (fs_dlq s) = (q, d)"
    by (metis surj_pair)
  obtain t where t: "dq_history d = fs_history s @ ?c # t" "list_all no_ack t"
    using to_dlq_history(1) [OF d] by blast
  have none: "every_ack P (fs_history s) (?c # t)" for P by (rule every_ack_none) (use t(2) in simp)
  have p: "parked E F (dq_history d) m" if "q = Ok u" for u
    using to_dlq_history(2) [OF d that] t(1) unfolding parked_def accepted_def by blast
  show "acks (\<lambda>h q. ms_reply m = Some q \<and> parked E F h m) k s s'"
  proof (cases q)
    case (Ok u)
    with assms d have "fs_history s' = fs_history s @ (?c # t) @ (case ms_reply m of None \<Rightarrow> [] | Some r \<Rightarrow> [CAck r])"
      using t(1) by (auto simp: park_def on_flow_bus_run ack_history dest!: arg_cong [of _ _ snd])
    then show ?thesis
      by (rule acksI) (cases "ms_reply m"; use none p [OF Ok] t(1) in simp)
  next
    case (Err e)
    with assms d have "fs_history s' = fs_history s @ (?c # t) @ (case ms_reply m of None \<Rightarrow> [] | Some r \<Rightarrow> [CNak r])"
      using t(1) by (auto simp: park_def on_flow_bus_run nak_history dest!: arg_cong [of _ _ snd])
    then show ?thesis by (rule acksI) (cases "ms_reply m"; use none in simp)
  next
    case Panic
    with assms d t none show ?thesis unfolding acks_def by (auto simp: park_def)
  qed
  show "same_batch s s'"
    using assms d by (cases q) (auto simp: park_def on_flow_bus_run trace_failure_def same_batch_def
        dest!: arg_cong [of _ _ snd])
qed

text \<open>
  The invariant of a round: the engine is the one the round started with, but for sound caches,
  and every message waiting for its ack has run, with its emits among the held ones.
\<close>

definition round_inv :: "flow_env \<Rightarrow> world \<Rightarrow> flow \<Rightarrow> engine \<Rightarrow> message set \<Rightarrow> flow_state \<Rightarrow> bool" where
  "round_inv E W F e M s \<longleftrightarrow>
     same_engine e (fs_engine s) \<and> cache_ok W (fs_engine s) \<and>
     (\<forall>m \<in> set (fs_to_ack s). m \<in> M \<and> (\<exists>c. runs_ok E W F e m c \<and> emitted E c \<subseteq> set (fs_held s)))"

lemma round_inv_same_batch: "same_batch s s' \<Longrightarrow> round_inv E W F e M s' = round_inv E W F e M s"
  by (simp add: round_inv_def same_batch_def)

lemma hold_emits_held:
  "hold_emits N C h es held = (r, held') \<Longrightarrow>
     set held \<subseteq> set held' \<and> (r = Ok () \<longrightarrow> (\<lambda>(s, v). (s, cd_print C v)) ` set es \<subseteq> set held')"
proof (induction N C h es held arbitrary: r held' rule: hold_emits.induct)
  case (2 N C h subj payload es held)
  show ?case
  proof (cases "batch_publish N h subj (cd_print C payload) held")
    case (Ok held1)
    then have "set held1 = set held \<union> {(subj, cd_print C payload)}"
      by (auto simp: batch_publish_def split: if_splits)
    with "2.IH" [OF Ok, of r held'] "2.prems" Ok show ?thesis by auto
  qed (use "2.prems" in auto)
qed simp

lemma run_and_hold_inv:
  assumes "round_inv E W F e M s" and "run_and_hold E W F event s = (r, s')"
  shows "fs_dlq s' = fs_dlq s"
    and "r \<noteq> Panic \<Longrightarrow> round_inv E W F e M s'"
    and "r = Ok c \<Longrightarrow> fst (run W (fl_program F) event (invalidate e)) = Ok c \<and> emitted E c \<subseteq> set (fs_held s')"
proof -
  obtain q e1 where run: "run W (fl_program F) event (fs_engine s) = (q, e1)" by fastforce
  have rel: "cache_rel W (fs_engine s) (invalidate e)"
    using assms(1) by (simp add: round_inv_def cache_rel_def same_engine_def) (simp add: invalidate_def)
  have q: "fst (run W (fl_program F) event (invalidate e)) = q"
    and e1: "cache_ok W e1" "q \<noteq> Panic \<Longrightarrow> same_engine (fs_engine s) e1"
    using run_sim [OF rel, of "fl_program F" event] run run_engine [OF run]
    by (simp_all add: cache_rel_def)
  show "fs_dlq s' = fs_dlq s"
    using assms(2) run by (auto simp: run_and_hold_def split: result.splits prod.splits)
  have keep: "round_inv E W F e M (s\<lparr>fs_engine := e1, fs_held := held\<rparr>)"
    if "set (fs_held s) \<subseteq> set held" and "q \<noteq> Panic" for held
    using assms(1) e1 that by (fastforce simp: round_inv_def same_engine_def)
  show "round_inv E W F e M s'" if "r \<noteq> Panic"
    using assms(2) run that keep keep [of "fs_held s"]
    by (auto simp: run_and_hold_def dest: hold_emits_held split: result.splits prod.splits)
  show "fst (run W (fl_program F) event (invalidate e)) = Ok c \<and> emitted E c \<subseteq> set (fs_held s')" if "r = Ok c"
    using assms(2) run q that
    by (auto simp: run_and_hold_def emitted_def dest!: hold_emits_held split: result.splits prod.splits)
qed

lemma park_inv:
  assumes "park E F m err suffix pv ev s = (r, s')" and "m \<in> M" and "round_inv E W F e M s"
  shows "acks (safe_ack E F e M) k s s' \<and> round_inv E W F e M s'"
  using acks_mono [OF park_acks(1) [OF assms(1)], of "safe_ack E F e M"] park_acks(2) [OF assms(1)] assms(2,3)
  by (auto simp: safe_ack_def round_inv_same_batch)

lemma failed_run_inv:
  assumes "failed_run E F m err event s = (r, s')" and "m \<in> M" and "round_inv E W F e M s"
  shows "acks (safe_ack E F e M) k s s' \<and> round_inv E W F e M s'"
proof (cases "max_deliveries \<le> delivered_count m")
  case True
  with assms(1) obtain suffix where "park E F m err suffix [] (Some event) s = (r, s')"
    by (auto simp: failed_run_def)
  then show ?thesis by (rule park_inv [OF _ assms(2,3)])
next
  case False
  with assms show ?thesis
    using round_inv_same_batch [of s s'] by (auto simp: failed_run_def acks_same same_batch_def trace_failure_def)
qed

lemma process_event_inv:
  assumes inv: "round_inv E W F e M s" and m: "m \<in> M" and ev: "cd_parse (fe_codec E) (ms_data m) = Some event"
    and run: "process_event E W F m event s = (r, s')"
  shows "acks (safe_ack E F e M) k s s' \<and> (r \<noteq> Panic \<longrightarrow> round_inv E W F e M s')"
proof -
  obtain q s1 where q: "run_and_hold E W F event s = (q, s1)" by fastforce
  note rh = run_and_hold_inv [OF inv q]
  show ?thesis
  proof (cases q)
    case (Ok c)
    with run ev q rh m show ?thesis
      by (auto simp: process_event_def acks_same round_inv_def runs_ok_def)
  next
    case (Err x)
    define t where "t = s1\<lparr>fs_units := observe (fl_name F) False 0 (fe_elapsed E (fs_history s) TRun) (fs_units s1)\<rparr>"
    have t: "fs_dlq t = fs_dlq s" "round_inv E W F e M t" using rh Err by (simp_all add: round_inv_def t_def)
    obtain r2 s2 where s2: "failed_run E F m x event t = (r2, s2)" by fastforce
    with run q Err have s': "s' = s2 \<or> s' = s2\<lparr>fs_last_error := Some x\<rparr>"
      by (auto simp: process_event_def t_def [symmetric] mbind_def split: result.splits)
    from failed_run_inv [OF s2 m t(2), of k] s' t(1) show ?thesis by (auto simp: acks_def round_inv_def)
  next
    case Panic
    with run q rh show ?thesis by (auto simp: process_event_def acks_same)
  qed
qed

lemma process_message_inv:
  assumes inv: "round_inv E W F e M s" and m: "m \<in> M" and run: "process_message E W F m s = (r, s')"
  shows "acks (safe_ack E F e M) k s s' \<and> (r \<noteq> Panic \<longrightarrow> round_inv E W F e M s')"
proof (cases "cd_parse (fe_codec E) (ms_data m)")
  case None
  define t where "t = fs_units_update (observe (fl_name F) False 0 f_zero) s"
  have t: "round_inv E W F e M t" "fs_dlq t = fs_dlq s" using inv by (simp_all add: t_def round_inv_def)
  from run None obtain err suffix pv where "park E F m err suffix pv None t = (r, s')"
    by (auto simp: process_message_def mbind_def t_def)
  from park_inv [OF this m t(1), of k] t(2) show ?thesis by (auto simp: acks_def)
next
  case (Some event)
  with run have "process_event E W F m event s = (r, s')" by (simp add: process_message_def)
  from process_event_inv [OF inv m Some this] show ?thesis .
qed

lemma process_all_inv:
  assumes "round_inv E W F e M s" and "set ms \<subseteq> M" and "process_all E W F ms s = (r, s')"
  shows "acks (safe_ack E F e M) k s s' \<and> (r \<noteq> Panic \<longrightarrow> round_inv E W F e M s')"
  using assms
proof (induction ms arbitrary: s)
  case (Cons m ms)
  show ?case
  proof (cases "fe_stop E (fs_history s) (length (m # ms))")
    case True
    with Cons.prems show ?thesis by (auto simp: acks_same)
  next
    case False
    obtain q s1 where q: "process_message E W F m s = (q, s1)" by fastforce
    have m: "m \<in> M" using Cons.prems(2) by simp
    have pm: "acks (safe_ack E F e M) l s s1 \<and> (q \<noteq> Panic \<longrightarrow> round_inv E W F e M s1)" for l :: "'z ending"
      by (rule process_message_inv [OF Cons.prems(1) m q])
    show ?thesis
    proof (cases q)
      case (Ok u)
      then have "process_all E W F ms s1 = (r, s')" using Cons.prems(3) False q by (simp add: mbind_def)
      with Cons.IH [of s1] Cons.prems(2) pm [of k] Ok show ?thesis by (auto intro: acks_trans)
    qed (use Cons.prems(3) False q pm [of k] in \<open>auto simp: mbind_def\<close>)
  qed
qed (auto simp: acks_same)

lemma ack_all_history:
  "ack_all N ms h = (r, h') \<Longrightarrow>
     \<exists>t. h' = h @ t \<and> (\<forall>c \<in> set t. \<exists>m \<in> set ms. \<exists>q. ms_reply m = Some q \<and> c = CAck q)"
proof (induction N ms arbitrary: h rule: ack_all.induct)
  case (2 N m ms)
  obtain q h1 where q: "ack N m h = (q, h1)" by fastforce
  then have h1: "h1 = h @ (case ms_reply m of None \<Rightarrow> [] | Some r \<Rightarrow> [CAck r])"
    using ack_history [of N m h] by simp
  show ?case
  proof (cases q)
    case (Ok u)
    with "2.IH" [of h1] "2.prems" q obtain t where "h' = h1 @ t"
      "\<forall>c \<in> set t. \<exists>m \<in> set ms. \<exists>q. ms_reply m = Some q \<and> c = CAck q" by (auto simp: mbind_def)
    then show ?thesis
      unfolding h1 by (intro exI [of _ "(case ms_reply m of None \<Rightarrow> [] | Some r \<Rightarrow> [CAck r]) @ t"])
         (auto split: option.split)
  qed (use "2.prems" q h1 in \<open>auto simp: mbind_def split: option.split\<close>)
qed simp

text \<open>Settling a batch acknowledges only what the barrier confirmed.\<close>

lemma every_ackI:
  assumes "\<And>c. c \<in> set t \<Longrightarrow> \<exists>q. c = CAck q \<and> P h q" and "\<And>a q. P h q \<Longrightarrow> P (h @ a) q"
  shows "every_ack P h t"
  unfolding every_ack_def
proof (intro allI impI)
  fix a r b assume "t = a @ CAck r # b"
  then have "CAck r \<in> set t" by simp
  with assms(1) have "P h r" by fastforce
  then show "P (h @ a) r" by (rule assms(2))
qed

lemma processed_append: "processed E F e h m \<Longrightarrow> processed E F e (h @ t) m"
  unfolding processed_def by (metis append_assoc confirmed_append)

lemma settle_inv:
  assumes "round_inv E W F e M s" and "fs_history s = start @ rest" and "W = fe_world E start"
    and "settle E s = (r, s')"
  shows "acks (safe_ack E F e M) k s s'"
proof -
  obtain q h1 where q: "confirm (fe_nats E) (fs_held s) (fs_history s) = (q, h1)" by fastforce
  from keepsE [OF confirm_no_ack q] obtain t where t: "h1 = fs_history s @ t" "list_all no_ack t"
    by (auto simp: extends_def)
  define s1 where "s1 = s\<lparr>fs_dlq := (fs_dlq s)\<lparr>dq_history := h1\<rparr>\<rparr>"
  have s1: "on_flow_bus (confirm (fe_nats E) (fs_held s)) s = (q, s1)"
    using q by (simp add: on_flow_bus_run s1_def)
  have a1: "acks (safe_ack E F e M) k s s1" using t
    by (intro acksI [of _ _ t]) (auto simp: s1_def intro: every_ack_none)
  show ?thesis
  proof (cases q)
    case (Ok u)
    then have c: "confirm (fe_nats E) (fs_held s) (fs_history s) = (Ok (), h1)" using q by simp
    have safe: "safe_ack E F e M h1 x" if m: "m \<in> set (fs_to_ack s)" "ms_reply m = Some x" for m x
    proof -
      from assms(1) m obtain c where "m \<in> M" "runs_ok E W F e m c" "emitted E c \<subseteq> set (fs_held s)"
        by (auto simp: round_inv_def)
      moreover from this have "\<forall>y \<in> emitted E c. confirmed (fe_nats E) h1 y"
        using confirm_Ok [OF c] by blast
      ultimately show ?thesis
        unfolding safe_ack_def processed_def using assms(2,3) m(2) t(1) by (metis append_assoc)
    qed
    obtain x h2 where "ack_all (fe_nats E) (fs_to_ack s) h1 = (x, h2)" by fastforce
    moreover from ack_all_history [OF this] obtain u where u: "h2 = h1 @ u"
      "\<forall>c \<in> set u. \<exists>m \<in> set (fs_to_ack s). \<exists>q. ms_reply m = Some q \<and> c = CAck q" by blast
    ultimately have "fs_history s' = fs_history s1 @ u"
      using assms(4) s1 Ok by (auto simp: settle_def on_flow_bus_run s1_def dest!: arg_cong [of _ _ snd])
    moreover have "every_ack (safe_ack E F e M) h1 u"
    proof (rule every_ackI)
      show "\<exists>q. c = CAck q \<and> safe_ack E F e M h1 q" if "c \<in> set u" for c using that u(2) safe by blast
      show "safe_ack E F e M (h1 @ a) q" if "safe_ack E F e M h1 q" for a q
        using that unfolding safe_ack_def parked_def by (meson accepted_append processed_append)
    qed
    ultimately have "acks (safe_ack E F e M) k s1 s'" by (intro acksI) (simp_all add: s1_def)
    with a1 show ?thesis by (rule acks_trans)
  qed (use assms(4) s1 a1 in \<open>auto simp: settle_def acks_def\<close>)
qed

lemma finish_round_inv:
  assumes "round_inv E W F e M s" and "fs_history s = start @ rest" and "W = fe_world E start"
    and "finish_round E F n s = (r, s')"
  shows "acks (safe_ack E F e M) k s s'"
proof -
  define t where "t = fs_units_update (observe_fetch (fl_name F) n) s"
  have t: "round_inv E W F e M t" "fs_dlq t = fs_dlq s" using assms(1) by (simp_all add: t_def round_inv_def)
  obtain q s1 where q: "settle E t = (q, s1)" by fastforce
  have "fs_history s' = fs_history s1"
    using assms(4) q by (cases q) (auto simp: finish_round_def mbind_def t_def [symmetric])
  moreover have "acks (safe_ack E F e M) k t s1"
    by (rule settle_inv [OF t(1) _ assms(3) q]) (use assms(2) t(2) in simp)
  ultimately show ?thesis using t(2) by (simp add: acks_def)
qed

text \<open>The messages of an inbox.\<close>

definition messages :: "raw_message list \<Rightarrow> message set" where
  "messages inbox = rw_message ` set inbox"

lemma messages_mono: "set a \<subseteq> set b \<Longrightarrow> messages a \<subseteq> messages b"
  unfolding messages_def by (rule image_mono)

lemma round_next_from:
  "round_next inbox = (x, rest, f) \<Longrightarrow> set rest \<subseteq> set inbox \<and> (\<forall>m. x = Some m \<longrightarrow> m \<in> messages inbox)"
  by (induction inbox rule: round_next.induct) (auto simp: messages_def split: pulled.splits)

lemma round_messages_from:
  "round_messages n inbox = (ms, rest, f) \<Longrightarrow> set ms \<subseteq> messages inbox \<and> set rest \<subseteq> set inbox"
proof (induction n inbox arbitrary: ms rest f rule: round_messages.induct)
  case (1 taken inbox)
  obtain x rest' f' where x: "round_next inbox = (x, rest', f')" by (metis surj_pair)
  have sub: "messages rest' \<subseteq> messages inbox" "set rest' \<subseteq> set inbox"
    using round_next_from [OF x] by (auto simp: messages_def)
  show ?case
  proof (cases "taken < pull_batch \<and> x \<noteq> None")
    case True
    then obtain m where m: "x = Some m" by blast
    obtain ms' rest'' f'' where r: "round_messages (Suc taken) rest' = (ms', rest'', f'')" by (metis surj_pair)
    have "set ms' \<subseteq> messages rest' \<and> set rest'' \<subseteq> set rest'"
      using "1.IH" [OF _ x [symmetric]] True m r by blast
    moreover have "ms = m # ms'" "rest = rest''"
      using "1.prems" True x m r by (subst (asm) round_messages.simps, simp)+
    ultimately show ?thesis using sub round_next_from [OF x] m by auto
  next
    case False
    then show ?thesis using "1.prems" x sub
      by (subst (asm) round_messages.simps) (auto split: if_splits)
  qed
qed

lemma finish_round_engine: "finish_round E F n s = (r, s') \<Longrightarrow> fs_engine s' = fs_engine s"
  by (auto simp: finish_round_def settle_def mbind_def on_flow_bus_run ignoring_def
      split: result.splits prod.splits)

text \<open>A round after its request: what it works through and how it is settled.\<close>

lemma round_body_inv:
  assumes inv: "round_inv E W F e M s" and h: "fs_history s = start @ rest" "W = fe_world E start"
    and ms: "set ms \<subseteq> M"
    and run: "mbind (process_all E W F ms) (\<lambda>stopped. if stopped then mret (True, left)
        else mbind (finish_round E F (length ms)) (\<lambda>_. mret (False, left))) s = (r, s')"
  shows "acks (safe_ack E F e M) k s s' \<and> (r \<noteq> Panic \<longrightarrow> same_engine e (fs_engine s')) \<and>
    (\<forall>b q. r = Ok (b, q) \<longrightarrow> q = left)"
proof -
  obtain q s1 where q: "process_all E W F ms s = (q, s1)" by fastforce
  have pa: "acks (safe_ack E F e M) l s s1 \<and> (q \<noteq> Panic \<longrightarrow> round_inv E W F e M s1)" for l :: "'z ending"
    by (rule process_all_inv [OF inv ms q])
  from pa [of undefined] obtain t where t: "fs_history s1 = start @ rest @ t" using h(1) by (auto simp: acks_def)
  show ?thesis
  proof (cases "q = Ok False")
    case True
    obtain x s2 where x: "finish_round E F (length ms) s1 = (x, s2)" by fastforce
    have "acks (safe_ack E F e M) k s1 s2"
      by (rule finish_round_inv [OF _ t h(2) x]) (use pa [of k] True in simp)
    with pa [of k] have "acks (safe_ack E F e M) k s s2" by (blast intro: acks_trans)
    moreover have "s' = s2" "\<forall>b q. r = Ok (b, q) \<longrightarrow> q = left"
      using run q True x by (cases x; auto simp: mbind_def)+
    ultimately show ?thesis
      using pa [of k] True finish_round_engine [OF x] by (simp add: round_inv_def)
  next
    case False
    then have "s' = s1" "r = Panic \<longleftrightarrow> q = Panic" "\<forall>b q. r = Ok (b, q) \<longrightarrow> q = left"
      using run q by (cases q; auto simp: mbind_def)+
    then show ?thesis using pa [of k] by (auto simp: round_inv_def)
  qed
qed

lemma flow_round_inv:
  assumes e: "same_engine e (fs_engine s)" and M: "messages inbox \<subseteq> M"
    and run: "flow_round E F inbox s = (r, s')"
  shows "acks (safe_ack E F e M) k s s' \<and> (r \<noteq> Panic \<longrightarrow> same_engine e (fs_engine s')) \<and>
    (\<forall>b q. r = Ok (b, q) \<longrightarrow> set q \<subseteq> set inbox)"
proof -
  obtain ms left fault where ms: "round_messages 0 inbox = (ms, left, fault)" by (metis surj_pair)
  define s1 where "s1 = s\<lparr>fs_engine := invalidate (fs_engine s), fs_to_ack := [], fs_fault := None\<rparr>"
  obtain q s2 where q: "on_flow_bus (round_request (fe_nats E) (fs_fault s)) s1 = (q, s2)" by fastforce
  have a: "acks (safe_ack E F e M) k s1 s2" for k :: "'z ending"
    using keepsE [OF on_flow_bus_acks [OF round_request_no_ack] q] by (auto simp: acks_def)
  then obtain t where t: "fs_history s2 = fs_history s @ t" by (auto simp: acks_def s1_def)
  have s2: "fs_engine s2 = invalidate (fs_engine s)" "fs_to_ack s2 = []"
    using q by (auto simp: on_flow_bus_run s1_def)
  have same: "same_engine e (invalidate (fs_engine s))" using e by (simp add: same_engine_def invalidate_def)
  show ?thesis
  proof (cases q)
    case (Ok u)
    let ?s3 = "s2\<lparr>fs_fault := fault\<rparr>"
    have "acks (safe_ack E F e M) k ?s3 s' \<and> (r \<noteq> Panic \<longrightarrow> same_engine e (fs_engine s')) \<and>
        (\<forall>b q. r = Ok (b, q) \<longrightarrow> q = left)"
    proof (rule round_body_inv)
      show "round_inv E (fe_world E (fs_history s)) F e M ?s3" using s2 same by (simp add: round_inv_def)
      show "fs_history ?s3 = fs_history s @ t" using t by simp
      show "set ms \<subseteq> M" using round_messages_from [OF ms] M by blast
    qed (use run q Ok ms in \<open>simp_all add: flow_round_def mbind_def s1_def\<close>)
    with a [of k] round_messages_from [OF ms] show ?thesis by (auto simp: acks_def s1_def)
  next
    case (Err x)
    with run q s2 same a [of k] show ?thesis
      by (auto simp: flow_round_def mbind_def s1_def acks_def)
  next
    case Panic
    with run q a [of k] show ?thesis by (auto simp: flow_round_def mbind_def s1_def acks_def)
  qed
qed

lemma flow_rounds_inv:
  assumes "same_engine e (fs_engine s)" and "messages inbox \<union> (\<Union>new \<in> set arrivals. messages new) \<subseteq> M"
    and "flow_rounds E F arrivals inbox s = (r, s')"
  shows "acks (safe_ack E F e M) k s s'"
  using assms
proof (induction arrivals arbitrary: inbox s)
  case (Cons new later)
  show ?case
  proof (cases "fe_stop E (fs_history s) 0")
    case True
    with Cons.prems show ?thesis by (auto simp: acks_same)
  next
    case False
    obtain q s1 where q: "flow_round E F (inbox @ new) s = (q, s1)" by fastforce
    have M: "messages (inbox @ new) \<subseteq> M" using Cons.prems(2) by (auto simp: messages_def)
    have fr: "acks (safe_ack E F e M) k s s1 \<and> (q \<noteq> Panic \<longrightarrow> same_engine e (fs_engine s1)) \<and>
        (\<forall>b p. q = Ok (b, p) \<longrightarrow> set p \<subseteq> set (inbox @ new))"
      by (rule flow_round_inv [OF Cons.prems(1) M q])
    show ?thesis
    proof (cases "\<exists>left. q = Ok (False, left)")
      case True
      then obtain left where left: "q = Ok (False, left)" by blast
      have "acks (safe_ack E F e M) k s1 s'"
      proof (rule Cons.IH)
        show "messages left \<union> (\<Union>new \<in> set later. messages new) \<subseteq> M"
          using Cons.prems(2) messages_mono [of left "inbox @ new"] M fr left by auto
        show "flow_rounds E F later left s1 = (r, s')"
          using Cons.prems(3) False q left by (simp add: mbind_def)
      qed (use fr left in simp)
      with fr show ?thesis by (blast intro: acks_trans)
    next
      case no: False
      have "s' = s1"
        using Cons.prems(3) False q no by (cases q) (auto simp: mbind_def split: if_splits)
      with fr show ?thesis by simp
    qed
  qed
qed (auto simp: acks_same)

section \<open>Properties\<close>

text \<open>
  (C1) At least once: whatever the bus answers and whenever a stop comes, every acknowledgement
  the loop of a flow sends comes after the message is safe. Either its dead letter is stored, or
  the program ran on it to the end and every event that run emitted has been confirmed by the
  barrier. Until then the message is unacknowledged and the server delivers it again.
\<close>

theorem no_ack_before_safe:
  "\<exists>t. fs_history (snd (flow_rounds E F arrivals [] s)) = fs_history s @ t \<and>
     every_ack (safe_ack E F (fs_engine s) (\<Union>new \<in> set arrivals. messages new)) (fs_history s) t"
proof -
  obtain r s' where "flow_rounds E F arrivals [] s = (r, s')" by fastforce
  from flow_rounds_inv [OF _ _ this, of "fs_engine s" "\<Union>new \<in> set arrivals. messages new" EndPanic]
  have "acks (safe_ack E F (fs_engine s) (\<Union>new \<in> set arrivals. messages new)) EndPanic s s'"
    by (auto simp: same_engine_def messages_def)
  with \<open>flow_rounds E F arrivals [] s = (r, s')\<close> show ?thesis by (simp add: acks_def)
qed

lemma park_stored:
  fixes E F m err s
  defines "letter \<equiv> CStore (dlq_subject (fl_name F)) (cd_print (fe_codec E) (envelope (fl_name F) (ms_subject m)
    (delivered_count m) err (ms_data m) (fl_version F) (fe_now E (fs_history s))))"
  assumes "ms_reply m = Some r" and "nt_answer (fe_nats E) (fs_history s) letter = None"
  shows "\<exists>s' t. park E F m err suffix pv ev s = (Ok (), s') \<and>
    fs_history s' = fs_history s @ letter # t @ [CAck r] \<and> list_all no_ack t \<and>
    fs_units s' = inc_dead_letter (fl_name F) (fs_units s)"
proof -
  obtain q d where d: "to_dlq (fe_nats E) (fe_codec E) (fe_environ E) (fl_name F) (ms_subject m)
      (delivered_count m) err (ms_data m) (fl_version F) (fe_now E (fs_history s)) (fs_dlq s) = (q, d)"
    by (metis surj_pair)
  have q: "q = Ok ()"
    using d assms(3) unfolding to_dlq_def letter_def [symmetric]
    by (auto simp: mbind_def on_bus_def do_call_def)
  from to_dlq_history(1) [OF d] obtain t where t: "dq_history d = fs_history s @ letter # t" "list_all no_ack t"
    unfolding letter_def by blast
  have a: "fst (ack (fe_nats E) m h) \<noteq> Panic" "snd (ack (fe_nats E) m h) = h @ [CAck r]" for h
    using assms(2) do_call_no_panic [of "fe_nats E" "CAck r" h] ack_history [of "fe_nats E" m h]
    by (auto simp: ack_def) (metis prod.collapse)
  show ?thesis
    using d q t a by (auto simp: park_def on_flow_bus_run ignoring_def trace_failure_def split: result.split)
qed

text \<open>
  (C9) A poison message ends in the dead-letter queue and nowhere else: a message on its fifth
  delivery or later whose run fails is stored as a dead letter that carries it, then acknowledged
  so that it is not delivered again, and counted; nothing it would have emitted is held.
\<close>

theorem poison_is_parked:
  assumes "cd_parse (fe_codec E) (ms_data m) = Some event"
    and "fst (run W (fl_program F) event (fs_engine s)) = Err x"
    and "5 \<le> delivered_count m" and "ms_reply m = Some r"
    and "nt_answer (fe_nats E) (fs_history s) (CStore (dlq_subject (fl_name F))
      (cd_print (fe_codec E) (envelope (fl_name F) (ms_subject m) (delivered_count m) (fe_run_error E x)
         (ms_data m) (fl_version F) (fe_now E (fs_history s))))) = None"
  shows "\<exists>s' t. process_message E W F m s = (Ok (), s') \<and>
    fs_history s' = fs_history s @ CStore (dlq_subject (fl_name F))
      (cd_print (fe_codec E) (envelope (fl_name F) (ms_subject m) (delivered_count m) (fe_run_error E x)
         (ms_data m) (fl_version F) (fe_now E (fs_history s)))) # t @ [CAck r] \<and>
    list_all no_ack t \<and> fs_held s' = fs_held s \<and> fs_to_ack s' = fs_to_ack s \<and>
    (\<exists>u. fs_units s' (fl_name F) = Some u \<and> 0 < m_dead u)"
proof -
  obtain e where e: "run W (fl_program F) event (fs_engine s) = (Err x, e)" using assms(2) by (metis prod.collapse)
  define s1 where "s1 = s\<lparr>fs_engine := e, fs_units := observe (fl_name F) False 0
    (fe_elapsed E (fs_history s) TRun) (fs_units s)\<rparr>"
  have h: "fs_history s1 = fs_history s" by (simp add: s1_def)
  obtain s2 t where p: "park E F m (fe_run_error E x) (dash @ ''dead-lettered after '' @ int_str (delivered_count m) @
      '' deliveries'') [] (Some event) s1 = (Ok (), s2)"
    and hist: "fs_history s2 = fs_history s @ CStore (dlq_subject (fl_name F))
      (cd_print (fe_codec E) (envelope (fl_name F) (ms_subject m) (delivered_count m) (fe_run_error E x)
         (ms_data m) (fl_version F) (fe_now E (fs_history s)))) # t @ [CAck r]" "list_all no_ack t"
    and u: "fs_units s2 = inc_dead_letter (fl_name F) (fs_units s1)"
    using park_stored [of m r E s1 F "fe_run_error E x"] assms(4,5) unfolding h by blast
  have "process_message E W F m s = (Ok (), s2\<lparr>fs_last_error := Some (fe_run_error E x)\<rparr>)"
    using assms(1,3) e p by (simp add: process_message_def process_event_def run_and_hold_def failed_run_def
        max_deliveries_def mbind_def s1_def)
  moreover have "same_batch s1 s2" by (rule park_acks(2) [OF p])
  ultimately show ?thesis
    using hist u by (auto simp: same_batch_def s1_def inc_dead_letter_def on_unit_def)
qed

definition demo_nats :: nats where
  "demo_nats =
     \<lparr>nt_answer = (\<lambda>_ _. None), nt_up = (\<lambda>_. True), nt_epoch = (\<lambda>_. 0), nt_limit = (\<lambda>_. 1000000),
      nt_state = (\<lambda>_. Err []), nt_message = (\<lambda>_ _. Err []), nt_purged = (\<lambda>_. 0)\<rparr>"

definition demo_env :: flow_env where
  "demo_env =
     \<lparr>fe_world = (\<lambda>_. demo_world), fe_nats = demo_nats, fe_codec = demo_codec VNull, fe_environ = (\<lambda>_. None),
      fe_run_error = (\<lambda>_. ''unknown service''), fe_json_error = (\<lambda>_. []), fe_now = (\<lambda>_. 7),
      fe_elapsed = (\<lambda>_ _. f_zero), fe_stop = (\<lambda>_ _. False)\<rparr>"

definition demo_poison :: flow where
  "demo_poison = \<lparr>fl_name = ''flow:a'', fl_program = empty_program\<lparr>pg_stmts := [SInvokeMerge ''gone'' []]\<rparr>,
     fl_version = ''v''\<rparr>"

definition demo_message :: message where
  "demo_message = \<lparr>ms_subject = ''vx.in'', ms_data = ''null'', ms_reply = Some ''$JS.ACK.S.C.5.9.9.0.0''\<rparr>"

definition demo_state :: flow_state where
  "demo_state = \<lparr>fs_engine = demo_engine, fs_held = [], fs_to_ack = [], fs_fault = None,
     fs_dlq = \<lparr>dq_history = [], dq_pending = []\<rparr>, fs_units = Map.empty, fs_traces = no_traces, fs_last_error = None\<rparr>"

lemma demo_poison_fails:
  "fst (run demo_world (fl_program demo_poison) VNull demo_engine) =
     Err (RUnknownService ''default:gone'' [''srv'', ''services'', ''gone.vjs''])"
  by code_simp

lemma demo_delivered: "delivered_count demo_message = 5"
  by code_simp

theorem poison_is_parked_witness:
  "\<exists>s' t. process_message demo_env demo_world demo_poison demo_message demo_state = (Ok (), s') \<and>
     fs_history s' = CStore ''vxdlq.flow_a'' ''doc'' # t @ [CAck ''$JS.ACK.S.C.5.9.9.0.0''] \<and>
     list_all no_ack t \<and> fs_held s' = []"
proof -
  have d: "dlq_subject ''flow:a'' = ''vxdlq.flow_a''" by code_simp
  have r: "fst (run demo_world (fl_program demo_poison) VNull (fs_engine demo_state)) =
     Err (RUnknownService ''default:gone'' [''srv'', ''services'', ''gone.vjs''])"
    using demo_poison_fails by (simp add: demo_state_def)
  have five: "5 \<le> delivered_count demo_message" by (simp add: demo_delivered)
  have "\<exists>s' t. process_message demo_env demo_world demo_poison demo_message demo_state = (Ok (), s') \<and>
    fs_history s' = fs_history demo_state @ CStore (dlq_subject (fl_name demo_poison))
      (cd_print (fe_codec demo_env) (envelope (fl_name demo_poison) (ms_subject demo_message)
         (delivered_count demo_message)
         (fe_run_error demo_env (RUnknownService ''default:gone'' [''srv'', ''services'', ''gone.vjs'']))
         (ms_data demo_message) (fl_version demo_poison) (fe_now demo_env (fs_history demo_state)))) #
      t @ [CAck ''$JS.ACK.S.C.5.9.9.0.0''] \<and>
    list_all no_ack t \<and> fs_held s' = fs_held demo_state \<and> fs_to_ack s' = fs_to_ack demo_state \<and>
    (\<exists>u. fs_units s' (fl_name demo_poison) = Some u \<and> 0 < m_dead u)"
    by (rule poison_is_parked [OF _ r five])
       (simp_all add: demo_env_def demo_codec_def demo_message_def demo_nats_def)
  then show ?thesis
    by (auto simp: demo_state_def demo_poison_def d demo_env_def demo_codec_def)
qed

text \<open>
  A run that emits twice and whose second event is over the server's limit fails, yet its first
  event stays in the batch and leaves with it, on this delivery and on every later one.
\<close>

lemma refused_emit_keeps_earlier:
  assumes "\<not> bad_subject a" and "\<not> bad_subject b" and "length (cd_print C v) \<le> nt_limit N h"
    and "nt_limit N h < length (cd_print C w)"
  shows "\<exists>e. hold_emits N C h [(a, v), (b, w)] held = (Err e, held @ [(a, cd_print C v)])"
  using assms by (auto simp: batch_publish_def)

fun failure :: "string option \<Rightarrow> ('a, string) result" where
  "failure (Some e) = Err e"
| "failure None = Panic"

lemma supervise_failures:
  "supervise msg (map failure fs) st (min (2 ^ k) 30) =
     (st\<lparr>ps_status := (if fs = [] then ps_status st else ''restarting''),
         ps_restarts := ps_restarts st + length fs,
         ps_last_error := (if fs = [] then ps_last_error st
           else Some (case List.last fs of Some e \<Rightarrow> e | None \<Rightarrow> ''panic: '' @ msg))\<rparr>,
      map (\<lambda>i. min (2 ^ i) 30) [k ..< k + length fs])"
proof (induction fs arbitrary: st k)
  case (Cons f fs)
  have d: "min (min (2 ^ k) 30 * 2) 30 = (min (2 ^ Suc k) 30 :: nat)" by simp
  have c: "contained msg (failure f) =
      Err (case f of Some e \<Rightarrow> e | None \<Rightarrow> ''panic: '' @ msg)"
    by (cases f) (simp_all add: contained_def)
  have "[k ..< k + length (f # fs)] = k # [Suc k ..< Suc k + length fs]" by (simp add: upt_rec)
  then show ?case
    using Cons.IH [of _ "Suc k"] by (simp add: c d)
qed simp

text \<open>
  Supervision never gives up: after any number of failed attempts, panics included, the unit
  is restarting with every failure counted, and the waits in between double from one second and
  stay at thirty.
\<close>

theorem supervision_never_gives_up:
  "\<exists>e. supervise msg (map failure (f # fs)) st 1 =
     (st\<lparr>ps_status := ''restarting'', ps_restarts := ps_restarts st + Suc (length fs), ps_last_error := Some e\<rparr>,
      map (\<lambda>i. min (2 ^ i) 30) [0 ..< Suc (length fs)])"
  using supervise_failures [of msg "f # fs" st 0] by auto

end
