(* ===== verification/Governance.thy ===== *)
theory Governance
  imports Versions Secrets
begin

text \<open>
  Governed change (\<open>core/src/main.rs\<close>, proposal queue and write gates): the guard on file paths,
  promotion of a literal, submission, expiry and decision of a proposal, and the gates in front
  of every mutation. The bus, the file system and the clock are parameters; a request is its
  method, its URL, its headers and its body. A message that quotes an error of the bus client
  stops before the quote, and an unknown kind is not quoted.
\<close>

section \<open>Paths\<close>

text \<open>
  The components of a path text, a leading slash being one; empty ones and \<open>.\<close> are dropped, as
  \<open>Path\<close> does.
\<close>

definition comps :: "string \<Rightarrow> path" where
  "comps s =
     (if starts_with s ''/'' then [''/''] else []) @
     filter (\<lambda>c. c \<noteq> [] \<and> c \<noteq> ''.'') (str_split s ''/'')"

function trim_dot_slash :: "string \<Rightarrow> string" where
  "trim_dot_slash s = (if starts_with s ''./'' then trim_dot_slash (drop 2 s) else s)"
  by pat_completeness auto
termination
  by (relation "measure length") (auto simp: starts_with_def, metis diff_less length_greater_0_conv
      list.distinct(1) take_eq_Nil2 zero_less_numeral)

declare trim_dot_slash.simps [simp del]

definition strip_root :: "path \<Rightarrow> string \<Rightarrow> string" where
  "strip_root dir rel =
     (if take (length dir) (comps rel) = dir \<and> dir \<noteq> []
      then str_join ''/'' (drop (length dir) (comps rel)) else rel)"

definition ok_dir :: "string \<Rightarrow> bool" where
  "ok_dir rel \<longleftrightarrow> list_ex (starts_with rel) [''flows'', ''services'', ''connectors'', ''packages'']"

definition ok_ext :: "string \<Rightarrow> bool" where
  "ok_ext rel \<longleftrightarrow> ends_with rel ''.vjs'' \<or> ends_with rel ''.json''"

text \<open>\<open>canon\<close> resolves symbolic links, and fails on a path that does not exist.\<close>

definition resolved :: "(path \<Rightarrow> path option) \<Rightarrow> path \<Rightarrow> path option" where
  "resolved canon p =
     (case canon p of
        Some c \<Rightarrow> Some c
      | None \<Rightarrow> if p = [] then None else map_option (\<lambda>d. d @ [last p]) (canon (butlast p)))"

definition guard_path :: "(path \<Rightarrow> path option) \<Rightarrow> path \<Rightarrow> string \<Rightarrow> path option" where
  "guard_path canon dir rel0 =
     (if str_contains rel0 ''..'' then None
      else
        (let rel = strip_root dir (trim_dot_slash rel0) in
         if \<not> (ok_dir rel \<and> ok_ext rel) then None
         else
           (let p = dir @ comps rel in
            case canon dir of
              None \<Rightarrow> None
            | Some cr \<Rightarrow>
                (case resolved canon p of
                   None \<Rightarrow> None
                 | Some c \<Rightarrow> if take (length cr) c = cr then Some p else None))))"

definition pkg_of_path :: "path \<Rightarrow> string" where
  "pkg_of_path p =
     (case str_split (str_join ''/'' p) ''packages/'' of
        _ # rest # _ \<Rightarrow> hd (str_split rest ''/'')
      | _ \<Rightarrow> ''default'')"

definition file_stem :: "path \<Rightarrow> string" where
  "file_stem p =
     (if p = [] then []
      else (case rsplit_once (last p) CHR ''.'' of
              Some (a, _) \<Rightarrow> if a = [] then last p else a | None \<Rightarrow> last p))"

definition flow_proc_name :: "path \<Rightarrow> string" where
  "flow_proc_name p =
     (let pkg = pkg_of_path p in
      if pkg = ''default'' then ''flow:'' @ file_stem p else ''flow:'' @ pkg @ '':'' @ file_stem p)"

section \<open>State and effects\<close>

datatype gerr = GMsg string | GEdit eerr | GParse perr

record 's genv =
  ge_kv :: "'s kv"
  ge_codec :: codec
  ge_canon :: "path \<Rightarrow> path option"
  ge_root :: path
  ge_env :: env
  ge_bus_up :: bool
  ge_versions_open :: bool
  ge_proposals_open :: bool
  ge_publish_ok :: bool
  ge_write_err :: "path \<Rightarrow> (string \<times> string option) option"
  ge_now :: nat

record 's gov =
  g_files :: "path \<Rightarrow> string option"
  g_versions :: 's
  g_props :: 's
  g_seq :: nat
  g_evictions :: "json list"
  g_audit :: "(string \<times> json) list"
  g_events :: "json list"
  g_reloads :: nat

type_synonym ('s, 'a) gm = "('s gov, 'a, gerr) stm"

definition clustered :: "env \<Rightarrow> bool" where
  "clustered env = (case env ''VEJAS_CLUSTER'' of Some v \<Rightarrow> v = ''1'' \<or> v = ''true'' | None \<Rightarrow> False)"

definition require_approval :: "env \<Rightarrow> bool" where
  "require_approval env =
     (case env ''VEJAS_REQUIRE_APPROVAL'' of Some v \<Rightarrow> v = ''1'' \<or> v = ''true'' | None \<Rightarrow> False)"

definition guard :: "'s genv \<Rightarrow> string \<Rightarrow> ('s, path) gm" where
  "guard E rel =
     (case guard_path (ge_canon E) (ge_root E) rel of
        Some p \<Rightarrow> mret p | None \<Rightarrow> mfail (GMsg ''path not allowed''))"

definition read_file :: "path \<Rightarrow> ('s, string) gm" where
  "read_file p g =
     (case g_files g p of Some s \<Rightarrow> (Ok s, g) | None \<Rightarrow> (Err (GMsg ''No such file or directory''), g))"

definition write_file :: "'s genv \<Rightarrow> path \<Rightarrow> string \<Rightarrow> ('s, unit) gm" where
  "write_file E p s g =
     (case ge_write_err E p of
        Some (e, left) \<Rightarrow> (Err (GMsg e), g\<lparr>g_files := (g_files g)(p := left)\<rparr>)
      | None \<Rightarrow> (Ok (), g\<lparr>g_files := (g_files g)(p \<mapsto> s)\<rparr>))"

definition need :: "bool \<Rightarrow> string \<Rightarrow> ('s, unit) gm" where
  "need b e = (if b then mret () else mfail (GMsg e))"

definition need_some :: "'a option \<Rightarrow> string \<Rightarrow> ('s, 'a) gm" where
  "need_some x e = (case x of Some a \<Rightarrow> mret a | None \<Rightarrow> mfail (GMsg e))"

definition on_versions :: "('s, 'a, string) stm \<Rightarrow> ('s, 'a) gm" where
  "on_versions m g = (case m (g_versions g) of (r, s) \<Rightarrow> (map_err GMsg r, g\<lparr>g_versions := s\<rparr>))"

definition on_props :: "('s, 'a, string) stm \<Rightarrow> ('s, 'a) gm" where
  "on_props m g = (case m (g_props g) of (r, s) \<Rightarrow> (map_err GMsg r, g\<lparr>g_props := s\<rparr>))"

definition resolve_g :: "'s genv \<Rightarrow> bool \<Rightarrow> string \<Rightarrow> string \<Rightarrow> ('s, string) gm" where
  "resolve_g E available unit baseline g =
     (case resolve_source (ge_kv E) (ge_codec E) available unit baseline (ge_now E)
             (g_versions g, g_evictions g) of
        ((src, _), (s, ev)) \<Rightarrow> (Ok src, g\<lparr>g_versions := s, g_evictions := ev\<rparr>))"

text \<open>Publishing an audit record is best effort.\<close>

definition audit :: "'s genv \<Rightarrow> string \<Rightarrow> json \<Rightarrow> ('s, unit) gm" where
  "audit E unit rec = mupd (\<lambda>g. if ge_publish_ok E then g\<lparr>g_audit := g_audit g @ [(unit, rec)]\<rparr> else g)"

definition emit_proposal_event :: "'s genv \<Rightarrow> string \<Rightarrow> json \<Rightarrow> ('s, unit) gm" where
  "emit_proposal_event E transition proposal =
     mupd (\<lambda>g. if ge_publish_ok E
       then g\<lparr>g_events := g_events g @ [VObject (om_of_list
              [(''transition'', VString transition), (''ts'', VNumber (PosInt (int (ge_now E)))),
               (''proposal'', proposal)])]\<rparr>
       else g)"

definition reload_g :: "('s, unit) gm" where
  "reload_g = mupd (\<lambda>g. g\<lparr>g_reloads := g_reloads g + 1\<rparr>)"

section \<open>Promotion\<close>

definition record_promote ::
  "'s genv \<Rightarrow> string \<Rightarrow> string \<Rightarrow> string \<Rightarrow> json \<Rightarrow> json \<Rightarrow> string \<Rightarrow> ('s, unit) gm" where
  "record_promote E rel name key before after actor =
     (case guard_path (ge_canon E) (ge_root E) rel of
        None \<Rightarrow> mret ()
      | Some p \<Rightarrow>
          if \<not> ge_bus_up E then mret ()
          else audit E (flow_proc_name p)
            (VObject (om_of_list
              [(''ts'', VNumber (PosInt (int (ge_now E)))), (''actor'', VString actor),
               (''unit'', VString (flow_proc_name p)), (''file'', VString rel), (''name'', VString name),
               (''key'', VString key), (''before'', before), (''after'', after)])))"

definition literal_before :: "string \<Rightarrow> string \<Rightarrow> string \<Rightarrow> ('s, json) gm" where
  "literal_before src name key =
     mlift (map_err GEdit (rbind (get_literal src name key)
       (\<lambda>v. Ok (case v of Some w \<Rightarrow> w | None \<Rightarrow> VNull))))"

definition edit :: "'s genv \<Rightarrow> string \<Rightarrow> string \<Rightarrow> string \<Rightarrow> json \<Rightarrow> ('s, string) gm" where
  "edit E src name key v =
     mlift (map_err GEdit (set_literal (cd_print (ge_codec E)) (cd_parse (ge_codec E)) src name key v))"

definition promote_version ::
  "'s genv \<Rightarrow> string \<Rightarrow> string \<Rightarrow> string \<Rightarrow> json \<Rightarrow> string \<Rightarrow> ('s, json) gm" where
  "promote_version E rel name key v actor =
     mbind (guard E rel) (\<lambda>p.
     mbind (read_file p) (\<lambda>baseline.
     let unit = flow_proc_name p; parent = hash_content baseline in
     mbind (need (ge_bus_up E) ''NATS unreachable'') (\<lambda>_.
     mbind (need (ge_versions_open E) ''version store unavailable'') (\<lambda>_.
     mbind (resolve_g E True unit baseline) (\<lambda>current.
     mbind (literal_before current name key) (\<lambda>before.
     mbind (edit E current name key v) (\<lambda>new_src.
     mbind (on_versions (put_version (ge_kv E) (ge_codec E) unit new_src parent actor (ge_now E))) (\<lambda>_.
     mbind (record_promote E rel name key before v actor) (\<lambda>_.
       mret (VObject (om_of_list
         [(''ok'', VBool True), (''versioned'', VBool True), (''flow'', VString unit),
          (''parent'', VString parent)])))))))))))"

definition effective_source_hash :: "'s genv \<Rightarrow> string \<Rightarrow> ('s, string) gm" where
  "effective_source_hash E rel =
     mbind (guard E rel) (\<lambda>p.
     mbind (read_file p) (\<lambda>baseline.
     mbind (resolve_g E (ge_versions_open E) (flow_proc_name p) baseline) (\<lambda>src.
       mret (hash_content src))))"

section \<open>The proposal queue\<close>

definition submit_proposal ::
  "'s genv \<Rightarrow> string \<Rightarrow> json \<Rightarrow> string \<Rightarrow> json \<Rightarrow> ('s, json) gm" where
  "submit_proposal E k payload author evidence =
     mbind (need (k = ''set_literal'' \<or> k = ''version'') ''kind must be set_literal or version'') (\<lambda>_.
     mbind (need_some (as_str (value_index payload ''file'')) ''payload.file required'') (\<lambda>rel.
     mbind (need (ge_bus_up E) ''NATS unreachable'') (\<lambda>_.
     mbind (effective_source_hash E rel) (\<lambda>baseline.
     mbind (need (ge_proposals_open E) ''proposal store unavailable'') (\<lambda>_.
     mbind mget (\<lambda>g.
     let (i, seq') = new_id (ge_now E) (g_seq g) in
     mbind (mupd (\<lambda>g. g\<lparr>g_seq := seq'\<rparr>)) (\<lambda>_.
     mbind (on_props (submit (ge_kv E) (ge_codec E) i k payload author baseline evidence (ge_now E))) (\<lambda>rec.
     mbind (emit_proposal_event E ''submitted'' rec) (\<lambda>_. mret rec)))))))))"

definition is_pending :: "json \<Rightarrow> bool" where
  "is_pending p \<longleftrightarrow> value_eq (value_index p ''status'') (VString ''pending'')"

definition payload_file :: "json \<Rightarrow> string option" where
  "payload_file p = as_str (value_index (value_index p ''payload'') ''file'')"

text \<open>One proposal of \<open>reconcile_and_list\<close>; an error of the hash counts as no hash.\<close>

definition reconcile_one :: "'s genv \<Rightarrow> json \<Rightarrow> ('s, json) gm" where
  "reconcile_one E p g =
     (if \<not> is_pending p then (Ok p, g)
      else
        (case payload_file p of
           None \<Rightarrow> (Ok p, g)
         | Some rel \<Rightarrow>
             (case effective_source_hash E rel g of
                (Panic, g1) \<Rightarrow> (Panic, g1)
              | (r, g1) \<Rightarrow>
                  (let current = (case r of Ok h \<Rightarrow> h | _ \<Rightarrow> []); i = str_field p ''id'' [] in
                   if current \<noteq> [] \<and> current \<noteq> str_field p ''baseline'' [] then
                     (case on_props (set_status (ge_kv E) (ge_codec E) i ''expired'' None (ge_now E)) g1 of
                        (Ok updated, g2) \<Rightarrow>
                          mbind (audit E ''proposals'' (VObject (om_of_list
                            [(''ts'', VNumber (PosInt (int (ge_now E)))), (''actor'', VString ''expiry''),
                             (''kind'', VString ''proposal-expired''), (''proposal'', VString i),
                             (''baseline_was'', value_index p ''baseline''),
                             (''baseline_now'', VString current)]))) (\<lambda>_.
                          mbind (emit_proposal_event E ''expired'' updated) (\<lambda>_. mret updated)) g2
                      | (Panic, g2) \<Rightarrow> (Panic, g2)
                      | (Err _, g2) \<Rightarrow> (Ok p, g2))
                   else (Ok p, g1)))))"

fun reconcile_all :: "'s genv \<Rightarrow> json list \<Rightarrow> json list \<Rightarrow> ('s, json list) gm" where
  "reconcile_all E [] out = mret out"
| "reconcile_all E (p # ps) out = mbind (reconcile_one E p) (\<lambda>q. reconcile_all E ps (out @ [q]))"

definition reconcile_and_list :: "'s genv \<Rightarrow> ('s, json list) gm" where
  "reconcile_and_list E =
     mbind (need (ge_bus_up E) ''NATS unreachable'') (\<lambda>_.
     mbind (need (ge_proposals_open E) ''proposal store unavailable'') (\<lambda>_.
     mbind mget (\<lambda>g.
       reconcile_all E (list_proposals (ge_kv E) (ge_codec E) (g_props g)) [])))"

definition apply_set_literal ::
  "'s genv \<Rightarrow> string \<Rightarrow> json \<Rightarrow> string \<Rightarrow> ('s, json) gm" where
  "apply_set_literal E rel payload actor =
     mbind (need_some (as_str (value_index payload ''name'')) ''payload.name'') (\<lambda>name.
     let key = str_field payload ''key'' ''-''; v = value_index payload ''value'' in
     if clustered (ge_env E) then promote_version E rel name key v actor
     else
       mbind (guard E rel) (\<lambda>p.
       mbind (read_file p) (\<lambda>src.
       mbind (literal_before src name key) (\<lambda>before.
       mbind (edit E src name key v) (\<lambda>new_src.
       mbind (write_file E p new_src) (\<lambda>_.
       mbind (record_promote E rel name key before v actor) (\<lambda>_.
       mbind reload_g (\<lambda>_.
         mret (VObject (om_of_list
           [(''ok'', VBool True), (''file'', VString rel), (''name'', VString name),
            (''key'', VString key)]))))))))))"

definition apply_version :: "'s genv \<Rightarrow> string \<Rightarrow> json \<Rightarrow> string \<Rightarrow> ('s, json) gm" where
  "apply_version E rel payload actor =
     mbind (need_some (as_str (value_index payload ''candidate'')) ''payload.candidate'') (\<lambda>candidate.
     mbind (mlift (map_err GParse (parse candidate))) (\<lambda>_.
     mbind (guard E rel) (\<lambda>p.
     mbind (read_file p) (\<lambda>baseline.
     mbind (need (ge_bus_up E) ''NATS unreachable'') (\<lambda>_.
     let unit = flow_proc_name p in
     if clustered (ge_env E) then
       mbind (need (ge_versions_open E) ''version store unavailable'') (\<lambda>_.
       mbind (on_versions (put_version (ge_kv E) (ge_codec E) unit candidate (hash_content baseline)
                actor (ge_now E))) (\<lambda>_.
         mret (VObject (om_of_list
           [(''ok'', VBool True), (''versioned'', VBool True), (''flow'', VString unit)]))))
     else
       mbind (write_file E p candidate) (\<lambda>_.
       mbind reload_g (\<lambda>_.
         mret (VObject (om_of_list
           [(''ok'', VBool True), (''file'', VString rel), (''written'', VBool True)])))))))))"

definition apply_approved :: "'s genv \<Rightarrow> json \<Rightarrow> string \<Rightarrow> ('s, json) gm" where
  "apply_approved E proposal actor =
     (let k = str_field proposal ''kind'' []; payload = value_index proposal ''payload'' in
      mbind (need_some (as_str (value_index payload ''file'')) ''payload.file'') (\<lambda>rel.
        if k = ''set_literal'' then apply_set_literal E rel payload actor
        else if k = ''version'' then apply_version E rel payload actor
        else mfail (GMsg ''unknown proposal kind'')))"

definition reject_proposal :: "'s genv \<Rightarrow> string \<Rightarrow> string \<Rightarrow> ('s, json) gm" where
  "reject_proposal E i by =
     mbind (on_props (set_status (ge_kv E) (ge_codec E) i ''rejected'' (Some by) (ge_now E))) (\<lambda>updated.
     mbind (audit E ''proposals'' (VObject (om_of_list
       [(''ts'', VNumber (PosInt (int (ge_now E)))), (''actor'', VString by),
        (''kind'', VString ''proposal-rejected''), (''proposal'', VString i)]))) (\<lambda>_.
     mbind (emit_proposal_event E ''rejected'' updated) (\<lambda>_. mret updated)))"

definition approve_proposal :: "'s genv \<Rightarrow> string \<Rightarrow> string \<Rightarrow> json \<Rightarrow> ('s, json) gm" where
  "approve_proposal E i by proposal =
     mbind (need_some (payload_file proposal) ''payload.file'') (\<lambda>rel.
     mbind (effective_source_hash E rel) (\<lambda>current.
     if current \<noteq> str_field proposal ''baseline'' [] then
       mbind (on_props (set_status (ge_kv E) (ge_codec E) i ''expired'' None (ge_now E))) (\<lambda>updated.
       mbind (emit_proposal_event E ''expired'' updated) (\<lambda>_.
         mfail (GMsg (''baseline changed since the proposal was made'' @ dash @ ''expired, re-propose''))))
     else
       mbind (apply_approved E proposal by) (\<lambda>applied.
       mbind (audit E ''proposals'' (VObject (om_of_list
         [(''ts'', VNumber (PosInt (int (ge_now E)))), (''actor'', VString by),
          (''kind'', VString ''proposal-approved''), (''proposal'', VString i), (''applied'', applied)]))) (\<lambda>_.
       mbind (on_props (set_status (ge_kv E) (ge_codec E) i ''approved'' (Some by) (ge_now E))) (\<lambda>updated.
       mbind (emit_proposal_event E ''approved'' updated) (\<lambda>_.
         mret (VObject (om_of_list
           [(''ok'', VBool True), (''proposal'', updated), (''applied'', applied)]))))))))"

definition decide_proposal :: "'s genv \<Rightarrow> string \<Rightarrow> bool \<Rightarrow> string \<Rightarrow> ('s, json) gm" where
  "decide_proposal E i approve by =
     mbind (need (ge_bus_up E) ''NATS unreachable'') (\<lambda>_.
     mbind (need (ge_proposals_open E) ''proposal store unavailable'') (\<lambda>_.
     mbind mget (\<lambda>g.
     mbind (need_some (get_proposal (ge_kv E) (ge_codec E) i (g_props g)) ''proposal not found'') (\<lambda>proposal.
       if \<not> is_pending proposal then mfail (GMsg (''proposal already '' @ cd_print (ge_codec E) (value_index proposal ''status'')))
       else if \<not> approve then reject_proposal E i by
       else approve_proposal E i by proposal))))"

section \<open>Requests and gates\<close>

record request =
  rq_method :: string
  rq_url :: string
  rq_headers :: "(string \<times> string) list"
  rq_body :: json

definition equiv :: "string \<Rightarrow> string \<Rightarrow> bool" where
  "equiv a b \<longleftrightarrow> map to_ascii_lowercase a = map to_ascii_lowercase b"

fun ct_diff :: "nat \<Rightarrow> nat \<Rightarrow> string \<Rightarrow> string \<Rightarrow> nat \<Rightarrow> nat" where
  "ct_diff n 0 a b diff = diff"
| "ct_diff n (Suc k) a b diff =
     (let i = n - Suc k;
          x = (if i < length a then of_char (a ! i) else 0);
          y = (if i < length b then of_char (b ! i) else 0)
      in ct_diff n k a b (or diff (xor x y)))"

definition ct_eq :: "string \<Rightarrow> string \<Rightarrow> bool" where
  "ct_eq a b =
     (let n = max (length a) (length b) in ct_diff n n a b (xor (length a) (length b)) = 0)"

definition nonempty_var :: "env \<Rightarrow> string \<Rightarrow> string option" where
  "nonempty_var env k = (case env k of Some t \<Rightarrow> if t = [] then None else Some t | None \<Rightarrow> None)"

definition approval_token :: "env \<Rightarrow> string option" where
  "approval_token env = nonempty_var env ''VEJAS_APPROVAL_TOKEN''"

definition write_token :: "env \<Rightarrow> string option" where
  "write_token env = nonempty_var env ''VEJAS_TOKEN''"

definition approval_authorized :: "env \<Rightarrow> request \<Rightarrow> bool" where
  "approval_authorized env rq =
     (case approval_token env of
        None \<Rightarrow> False
      | Some tok \<Rightarrow>
          list_ex (\<lambda>(f, v). equiv f ''x-approval-token'' \<and> ct_eq v tok) (rq_headers rq))"

definition is_human_route :: "string \<Rightarrow> bool" where
  "is_human_route p \<longleftrightarrow>
     p = ''/dlq/replay'' \<or> p = ''/dlq/purge'' \<or>
     (starts_with p ''/proposals/'' \<and> (ends_with p ''/approve'' \<or> ends_with p ''/reject''))"

definition bearer_authorized :: "request \<Rightarrow> string \<Rightarrow> bool" where
  "bearer_authorized rq token =
     list_ex (\<lambda>(f, v). equiv f ''authorization'' \<and>
       (case strip_prefix ''Bearer '' v of Some t \<Rightarrow> ct_eq t token | None \<Rightarrow> False)) (rq_headers rq)"

definition is_read_method :: "string \<Rightarrow> bool" where
  "is_read_method m \<longleftrightarrow> m = ''GET'' \<or> m = ''HEAD''"

definition header_actor :: "request \<Rightarrow> string \<Rightarrow> string" where
  "header_actor rq d =
     (case filter (\<lambda>(f, _). equiv f ''x-vejas-actor'') (rq_headers rq) of
        (_, v) # _ \<Rightarrow> (let s = trim v in if s \<noteq> [] \<and> length s \<le> 128 then s else d)
      | [] \<Rightarrow> d)"

definition dlq_human_act :: string where
  "dlq_human_act = ''approval required: replaying or discarding dead letters is a human action in governed mode: the panel, or X-Approval-Token (ADR-0024)''"

definition dlq_agent_gate :: "env \<Rightarrow> (unit, string) result" where
  "dlq_agent_gate env = (if require_approval env then Err dlq_human_act else Ok ())"

definition dlq_http_gate :: "env \<Rightarrow> request \<Rightarrow> (unit, nat \<times> string) result" where
  "dlq_http_gate env rq =
     (if \<not> require_approval env \<or> approval_authorized env rq then Ok ()
      else if list_ex (\<lambda>(f, _). equiv f ''x-approval-token'') (rq_headers rq)
        then Err (401, ''unauthorized: X-Approval-Token required'')
      else Err (409, dlq_human_act))"

definition approval_gate :: "env \<Rightarrow> (unit, string) result" where
  "approval_gate env =
     (if require_approval env then
        Err (''approval required: submit a proposal (vejas_propose, or the panel)'' @ dash @
             ''a human approves it, see ADR-0024'')
      else Ok ())"

definition cluster_write_guard :: "env \<Rightarrow> (unit, string) result" where
  "cluster_write_guard env =
     (if clustered env then
        Err (''clustered: this instance will not mutate its local files'' @ dash @
             ''promote through git (GitOps), see ADR-0020'')
      else Ok ())"

section \<open>Facts\<close>

lemma or_zero: "or a b = (0 :: nat) \<longleftrightarrow> a = 0 \<and> b = 0"
  by (auto simp: bit_eq_iff bit_or_iff)

lemma xor_zero: "xor a b = (0 :: nat) \<longleftrightarrow> a = b"
  by (auto simp: bit_eq_iff bit_xor_iff)

lemma ct_diff_zero:
  "k \<le> n \<Longrightarrow> length a = length b \<Longrightarrow> n \<le> length a \<Longrightarrow>
     ct_diff n k a b d = 0 \<longleftrightarrow> d = 0 \<and> (\<forall>i. n - k \<le> i \<and> i < n \<longrightarrow> a ! i = b ! i)"
proof (induction k arbitrary: d)
  case (Suc k)
  let ?i = "n - Suc k"
  have i: "?i < n" using Suc.prems by simp
  have split: "n - Suc k \<le> j \<and> j < n \<longleftrightarrow> j = ?i \<or> (n - k \<le> j \<and> j < n)" for j
    using Suc.prems(1) by auto
  have "ct_diff n (Suc k) a b d = ct_diff n k a b (or d (xor (of_char (a ! ?i)) (of_char (b ! ?i))))"
    using i Suc.prems less_le_trans [OF i Suc.prems(3)]
    by (simp only: ct_diff.simps Let_def if_True)
  also have "\<dots> = 0 \<longleftrightarrow> (d = 0 \<and> a ! ?i = b ! ?i) \<and> (\<forall>j. n - k \<le> j \<and> j < n \<longrightarrow> a ! j = b ! j)"
    using Suc.IH [of "or d (xor (of_char (a ! ?i)) (of_char (b ! ?i)))"] Suc.prems
    by (simp add: or_zero xor_zero)
  also have "\<dots> \<longleftrightarrow> d = 0 \<and> (\<forall>j. n - Suc k \<le> j \<and> j < n \<longrightarrow> a ! j = b ! j)"
    unfolding split by blast
  finally show ?case .
qed auto

lemma ct_diff_keeps: "0 < d \<Longrightarrow> 0 < ct_diff n k a b d"
  by (induction n k a b d rule: ct_diff.induct) (auto simp: Let_def or_zero simp flip: neq0_conv)

lemma ct_eq_iff: "ct_eq a b \<longleftrightarrow> a = b"
proof (cases "length a = length b")
  case True
  then show ?thesis
    using ct_diff_zero [of "length a" "length a" a b 0]
    by (auto simp: ct_eq_def Let_def xor_zero list_eq_iff_nth_eq)
next
  case False
  then have "0 < xor (length a) (length b)" by (simp add: xor_zero flip: neq0_conv)
  from ct_diff_keeps [OF this] have "\<not> ct_eq a b" by (simp add: ct_eq_def Let_def)
  with False show ?thesis by blast
qed

text \<open>What never writes a file.\<close>

definition files_frame :: "gerr ending \<Rightarrow> 's gov \<Rightarrow> 's gov \<Rightarrow> bool" where
  "files_frame k g g' \<longleftrightarrow> g_files g' = g_files g"

interpretation ff: frame files_frame "\<lambda>_. False"
  by unfold_locales (simp_all add: files_frame_def)

lemmas gov_ops = guard_def read_file_def need_def need_some_def on_versions_def on_props_def
  resolve_g_def audit_def emit_proposal_event_def reload_g_def literal_before_def edit_def

lemma files_kept [intro]:
  "keeps files_frame (guard E rel)" "keeps files_frame (read_file p)" "keeps files_frame (need b e)"
  "keeps files_frame (need_some x e')" "keeps files_frame (on_versions m)" "keeps files_frame (on_props m')"
  "keeps files_frame (resolve_g E av u bl)" "keeps files_frame (audit E u rec)"
  "keeps files_frame (emit_proposal_event E tr rec)" "keeps files_frame reload_g"
  "keeps files_frame (literal_before src name key)" "keeps files_frame (edit E src name key v)"
  by (auto simp: keeps_def files_frame_def gov_ops split: option.split prod.split)

lemma record_promote_files [intro]: "keeps files_frame (record_promote E rel name key b a actor)"
  by (auto simp: record_promote_def split: option.split)

lemma hash_files [intro]: "keeps files_frame (effective_source_hash E rel)"
  unfolding effective_source_hash_def by (intro ff.mbind_keeps files_kept ff.mret_keeps)

lemma reject_files [intro]: "keeps files_frame (reject_proposal E i by)"
  unfolding reject_proposal_def by (intro ff.mbind_keeps files_kept ff.mret_keeps)

lemma promote_version_files [intro]: "keeps files_frame (promote_version E rel name key v actor)"
  unfolding promote_version_def Let_def
  by (intro ff.mbind_keeps files_kept record_promote_files ff.mret_keeps)

lemma submit_files [intro]: "keeps files_frame (submit_proposal E k payload author evidence)"
proof -
  have "keeps files_frame (mupd (\<lambda>g. g\<lparr>g_seq := n\<rparr>))" for n
    by (simp add: keeps_def files_frame_def)
  then show ?thesis
    unfolding submit_proposal_def
    by (auto simp: new_id_def intro!: ff.mbind_keeps files_kept ff.mret_keeps ff.mget_keeps)
qed

text \<open>The stale branch of an approval.\<close>

lemma approve_stale:
  assumes "payload_file proposal = Some rel" and "effective_source_hash E rel g = (Ok h, g1)"
    and "h \<noteq> str_field proposal ''baseline'' []" and "approve_proposal E i by proposal g = (r, g')"
  shows "g_files g' = g_files g" and "\<nexists>v. r = Ok v"
proof -
  let ?m = "mbind (on_props (set_status (ge_kv E) (ge_codec E) i ''expired'' None (ge_now E))) (\<lambda>updated.
       mbind (emit_proposal_event E ''expired'' updated) (\<lambda>_.
         mfail (GMsg (''baseline changed since the proposal was made'' @ dash @ ''expired, re-propose''))))"
  have run: "approve_proposal E i by proposal g = ?m g1"
    using assms(1-3) by (simp add: approve_proposal_def need_some_def mbind_def [of "effective_source_hash E rel"])
  have "keeps files_frame ?m"
    by (intro ff.mbind_keeps files_kept ff.mfail_keeps) simp
  from keepsE [OF this, of g1 r g'] keepsE [OF hash_files assms(2)] run assms(4)
  show "g_files g' = g_files g" by (simp add: files_frame_def)
  show "\<nexists>v. r = Ok v"
    using run assms(4)
    by (auto simp: mbind_def emit_proposal_event_def split: prod.splits result.splits)
qed

section \<open>What governed change promises\<close>

text \<open>
  The token comparison runs over the longer of its two arguments whatever they hold, and
  accepts exactly equal strings.
\<close>

theorem ct_eq_is_equality: "ct_eq a b \<longleftrightarrow> a = b"
  by (rule ct_eq_iff)



text \<open>A project of one flow with one proposal, for the witnesses.\<close>

definition demo_path :: path where
  "demo_path = [''/'', ''srv'', ''flows'', ''a.vjs'']"

definition demo_genv :: "codec \<Rightarrow> mem genv" where
  "demo_genv C =
     \<lparr>ge_kv = mem_kv, ge_codec = C, ge_canon = Some, ge_root = [''/'', ''srv''], ge_env = (\<lambda>_. None),
      ge_bus_up = True, ge_versions_open = False, ge_proposals_open = True, ge_publish_ok = True,
      ge_write_err = (\<lambda>_. None), ge_now = 9\<rparr>"

definition demo_gov :: "mem gov" where
  "demo_gov =
     \<lparr>g_files = [demo_path \<mapsto> ''x = 1''], g_versions = (\<lambda>_. None, 0),
      g_props = ([''p-1'' \<mapsto> (''doc'', 1)], 1), g_seq = 0, g_evictions = [], g_audit = [],
      g_events = [], g_reloads = 0\<rparr>"

definition demo_proposal :: json where
  "demo_proposal =
     VObject (om_of_list
       [(''id'', VString ''p-1''), (''kind'', VString ''version''),
        (''payload'', VObject [(''candidate'', VString ''x = 2''), (''file'', VString ''flows/a.vjs'')]),
        (''baseline'', VString (hash_content ''x = 1'')), (''status'', VString ''pending'')])"

lemma demo_guard: "guard_path Some [''/'', ''srv''] ''flows/a.vjs'' = Some demo_path"
  by code_simp

text \<open>
  A decision is final: once a proposal is not pending, deciding it again changes nothing,
  whichever way.
\<close>

theorem decided_is_final:
  assumes "get_proposal (ge_kv E) (ge_codec E) i (g_props g) = Some p" and "\<not> is_pending p"
  shows "snd (decide_proposal E i approve actor g) = g \<and> (\<nexists>v. fst (decide_proposal E i approve actor g) = Ok v)"
  using assms by (auto simp: decide_proposal_def mbind_def need_def need_some_def split: if_splits)

theorem decided_is_final_witness:
  "snd (decide_proposal (demo_genv (demo_codec (VObject []))) ''p-1'' True ''ann'' demo_gov) = demo_gov"
proof -
  have "get_proposal (ge_kv (demo_genv (demo_codec (VObject [])))) (ge_codec (demo_genv (demo_codec (VObject []))))
      ''p-1'' (g_props demo_gov) = Some (VObject [])"
    by (simp add: get_proposal_def demo_genv_def demo_gov_def demo_codec_def mem_kv_def)
  from decided_is_final [OF this] show ?thesis by (simp add: is_pending_def value_index_def)
qed

text \<open>
  (C20) Rejecting a proposal, or approving one whose target changed since it was made, writes no
  file: only an approval on the very source it was proposed for can reach the project.
\<close>

theorem only_a_fresh_approval_writes:
  assumes "decide_proposal E i approve actor g = (r, g')" and "g_files g' \<noteq> g_files g"
  shows "approve \<and> (\<exists>p rel h g1. get_proposal (ge_kv E) (ge_codec E) i (g_props g) = Some p \<and>
    is_pending p \<and> payload_file p = Some rel \<and> effective_source_hash E rel g = (Ok h, g1) \<and>
    h = str_field p ''baseline'' [])"
proof -
  have pre: "ge_bus_up E" "ge_proposals_open E"
    using assms by (auto simp: decide_proposal_def mbind_def need_def split: if_splits)
  from assms pre obtain p where p: "get_proposal (ge_kv E) (ge_codec E) i (g_props g) = Some p"
    by (cases "get_proposal (ge_kv E) (ge_codec E) i (g_props g)")
      (auto simp: decide_proposal_def mbind_def need_def need_some_def)
  have pend: "is_pending p"
    using assms pre p by (auto simp: decide_proposal_def mbind_def need_def need_some_def split: if_splits)
  have run: "(if \<not> approve then reject_proposal E i actor else approve_proposal E i actor p) g = (r, g')"
    using assms(1) pre p pend by (simp add: decide_proposal_def mbind_def need_def need_some_def)
  have "approve"
    using run assms(2) keepsE [OF reject_files, of E i actor g r g'] by (auto simp: files_frame_def)
  with run have ap: "approve_proposal E i actor p g = (r, g')" by simp
  then obtain rel where rel: "payload_file p = Some rel"
    using assms(2) by (cases "payload_file p") (auto simp: approve_proposal_def mbind_def need_some_def)
  obtain q g1 where h: "effective_source_hash E rel g = (q, g1)" by fastforce
  with keepsE [OF hash_files h] have f: "g_files g1 = g_files g" by (simp add: files_frame_def)
  obtain hh where q: "q = Ok hh"
    using ap rel h f assms(2) by (cases q) (auto simp: approve_proposal_def mbind_def need_some_def)
  have "hh = str_field p ''baseline'' []"
    using approve_stale(1) [OF rel _ _ ap] h q assms(2) by blast
  with \<open>approve\<close> p pend rel h q show ?thesis by blast
qed

lemma demo_pending: "is_pending demo_proposal" "payload_file demo_proposal = Some ''flows/a.vjs''"
  by (simp_all add: is_pending_def payload_file_def demo_proposal_def value_index_def)

lemma demo_candidate: "\<exists>prog. parse ''x = 2'' = Ok prog"
  by (rule exI [of _ "empty_program\<lparr>pg_stmts := [SAssign [''x''] (ELit (VNumber (PosInt 2)))]\<rparr>"]) code_simp

definition demo_approved :: "(json, gerr) result \<times> mem gov" where
  "demo_approved = decide_proposal (demo_genv (demo_codec demo_proposal)) ''p-1'' True ''ann'' demo_gov"

lemmas demo_defs = demo_genv_def demo_gov_def demo_proposal_def demo_codec_def mem_kv_def mem_write_def
  value_index_def str_field_def mbind_def need_some_def need_def guard_def read_file_def write_file_def
  reload_g_def audit_def emit_proposal_event_def on_props_def resolve_g_def resolve_source_def clustered_def

lemma demo_approved_files: "g_files (snd demo_approved) = [demo_path \<mapsto> ''x = 2'']"
proof -
  obtain prog where "parse ''x = 2'' = Ok prog" using demo_candidate by blast
  then show ?thesis
    by (simp add: demo_approved_def decide_proposal_def approve_proposal_def is_pending_def payload_file_def
        effective_source_hash_def apply_approved_def apply_version_def set_status_def get_proposal_def
        with_status_def demo_guard demo_defs Let_def)
qed

theorem only_a_fresh_approval_writes_witness:
  "\<exists>p. get_proposal mem_kv (demo_codec demo_proposal) ''p-1'' (g_props demo_gov) = Some p \<and> is_pending p"
proof -
  have "g_files (snd demo_approved) \<noteq> g_files demo_gov"
    by (simp add: demo_approved_files demo_gov_def fun_eq_iff)
  then have "\<exists>p rel h g1. get_proposal (ge_kv (demo_genv (demo_codec demo_proposal)))
      (ge_codec (demo_genv (demo_codec demo_proposal))) ''p-1'' (g_props demo_gov) = Some p \<and> is_pending p"
    using only_a_fresh_approval_writes
      [of "demo_genv (demo_codec demo_proposal)" "''p-1''" True "''ann''" demo_gov "fst demo_approved" "snd demo_approved"]
    by (auto simp: demo_approved_def)
  then show ?thesis by (simp add: demo_genv_def)
qed

text \<open>What leaves the proposal bucket alone: everything but \<open>set_status\<close> and \<open>submit\<close>.\<close>

definition props_frame :: "gerr ending \<Rightarrow> 's gov \<Rightarrow> 's gov \<Rightarrow> bool" where
  "props_frame k g g' \<longleftrightarrow> g_props g' = g_props g"

interpretation pf: frame props_frame "\<lambda>_. False"
  by unfold_locales (simp_all add: props_frame_def)

lemma props_kept [intro]:
  "keeps props_frame (guard E rel)" "keeps props_frame (read_file p)" "keeps props_frame (need b e)"
  "keeps props_frame (need_some x e')" "keeps props_frame (on_versions m)"
  "keeps props_frame (resolve_g E av u bl)" "keeps props_frame (audit E u rec)"
  "keeps props_frame (emit_proposal_event E tr rec)" "keeps props_frame reload_g"
  "keeps props_frame (literal_before src name key)" "keeps props_frame (edit E src name key v)"
  "keeps props_frame (write_file E p s)"
  by (auto simp: keeps_def props_frame_def gov_ops write_file_def split: option.split prod.split)

lemma record_promote_props [intro]: "keeps props_frame (record_promote E rel name key b a actor)"
  by (auto simp: record_promote_def split: option.split)

lemma hash_props [intro]: "keeps props_frame (effective_source_hash E rel)"
  unfolding effective_source_hash_def by (intro pf.mbind_keeps props_kept pf.mret_keeps)

lemma promote_version_props [intro]: "keeps props_frame (promote_version E rel name key v actor)"
  unfolding promote_version_def Let_def
  by (intro pf.mbind_keeps props_kept record_promote_props pf.mret_keeps)

lemma apply_set_literal_props [intro]: "keeps props_frame (apply_set_literal E rel payload actor)"
  unfolding apply_set_literal_def Let_def
  by (auto intro!: pf.mbind_keeps props_kept record_promote_props pf.mret_keeps)

lemma apply_version_props [intro]: "keeps props_frame (apply_version E rel payload actor)"
  unfolding apply_version_def Let_def
  by (auto intro!: pf.mbind_keeps props_kept pf.mret_keeps pf.mlift_keeps)

lemma apply_approved_props [intro]: "keeps props_frame (apply_approved E proposal actor)"
  unfolding apply_approved_def Let_def
  by (auto intro!: pf.mbind_keeps props_kept)

text \<open>A status that was stored is the one read back.\<close>

lemma on_props_set_status:
  assumes laws: "kv_laws (ge_kv E) view seq"
    and g: "get_proposal (ge_kv E) (ge_codec E) i (g_props g) = Some p"
    and cd: "codec_law (ge_codec E) (with_status p status decided_by (ge_now E))"
    and st: "on_props (set_status (ge_kv E) (ge_codec E) i status decided_by (ge_now E)) g = (Ok v, g')"
    and ans: "kv_get (ge_kv E) i (g_props g') = Ok w"
  shows "get_proposal (ge_kv E) (ge_codec E) i (g_props g') = Some (with_status p status decided_by (ge_now E))"
proof -
  let ?rec = "with_status p status decided_by (ge_now E)"
  from st g obtain r where put: "kv_put (ge_kv E) i (cd_print (ge_codec E) ?rec) (g_props g) = (Ok r, g_props g')"
    by (auto simp: on_props_def set_status_def Let_def mbind_def map_err_eq_Ok
        split: prod.splits result.splits)
  from get_after_put [OF laws put ans] ans cd show ?thesis
    by (simp add: get_proposal_def codec_law_def)
qed

lemma mbind_OkE:
  assumes "mbind m f s = (Ok b, s')"
  obtains a t where "m s = (Ok a, t)" and "f a t = (Ok b, s')"
  using assms by (cases rule: mbind_cases) auto

lemma decide_run:
  assumes "decide_proposal E i approve actor g = (Ok v, g')"
  obtains p where "get_proposal (ge_kv E) (ge_codec E) i (g_props g) = Some p" and "is_pending p"
    and "(if approve then approve_proposal E i actor p else reject_proposal E i actor) g = (Ok v, g')"
proof (cases "get_proposal (ge_kv E) (ge_codec E) i (g_props g)")
  case None
  with assms show thesis by (auto simp: decide_proposal_def mbind_def need_def need_some_def split: if_splits)
next
  case (Some p)
  with assms that show thesis
    by (auto simp: decide_proposal_def mbind_def need_def need_some_def split: if_splits)
qed

lemma reject_run:
  assumes "reject_proposal E i actor g = (Ok v, g')"
  obtains u g1 where "on_props (set_status (ge_kv E) (ge_codec E) i ''rejected'' (Some actor) (ge_now E)) g = (Ok u, g1)"
    and "g_props g' = g_props g1"
proof -
  let ?k = "\<lambda>updated. mbind (audit E ''proposals'' (VObject (om_of_list
       [(''ts'', VNumber (PosInt (int (ge_now E)))), (''actor'', VString actor),
        (''kind'', VString ''proposal-rejected''), (''proposal'', VString i)]))) (\<lambda>_.
     mbind (emit_proposal_event E ''rejected'' updated) (\<lambda>_. mret updated))"
  have kk: "keeps props_frame (?k u)" for u by (intro pf.mbind_keeps props_kept pf.mret_keeps)
  from assms obtain u g1 where
    1: "on_props (set_status (ge_kv E) (ge_codec E) i ''rejected'' (Some actor) (ge_now E)) g = (Ok u, g1)"
    and 2: "?k u g1 = (Ok v, g')"
    unfolding reject_proposal_def by (rule mbind_OkE)
  from keepsE [OF kk 2] have "g_props g' = g_props g1" by (simp add: props_frame_def)
  with 1 show thesis by (rule that)
qed

lemma approve_run:
  assumes "approve_proposal E i actor p g = (Ok v, g')"
  obtains u g1 g2 where "g_props g1 = g_props g"
    and "on_props (set_status (ge_kv E) (ge_codec E) i ''approved'' (Some actor) (ge_now E)) g1 = (Ok u, g2)"
    and "g_props g' = g_props g2"
proof -
  let ?stale = "mbind (on_props (set_status (ge_kv E) (ge_codec E) i ''expired'' None (ge_now E))) (\<lambda>updated.
       mbind (emit_proposal_event E ''expired'' updated) (\<lambda>_.
         mfail (GMsg (''baseline changed since the proposal was made'' @ dash @ ''expired, re-propose''))))"
  let ?aud = "\<lambda>applied. audit E ''proposals'' (VObject (om_of_list
         [(''ts'', VNumber (PosInt (int (ge_now E)))), (''actor'', VString actor),
          (''kind'', VString ''proposal-approved''), (''proposal'', VString i), (''applied'', applied)]))"
  let ?fin = "\<lambda>applied updated. mbind (emit_proposal_event E ''approved'' updated) (\<lambda>_.
         mret (VObject (om_of_list
           [(''ok'', VBool True), (''proposal'', updated), (''applied'', applied)])))"
  let ?st = "on_props (set_status (ge_kv E) (ge_codec E) i ''approved'' (Some actor) (ge_now E))"
  have no: "?stale x \<noteq> (Ok v, g')" for x
    by (auto simp: mbind_def emit_proposal_event_def split: prod.splits result.splits)
  have fk: "keeps props_frame (?fin a u)" for a u by (intro pf.mbind_keeps props_kept pf.mret_keeps)
  from assms obtain rel h g0 where h: "effective_source_hash E rel g = (Ok h, g0)"
    and 1: "(if h \<noteq> str_field p ''baseline'' [] then ?stale
       else mbind (apply_approved E p actor) (\<lambda>a. mbind (?aud a) (\<lambda>_. mbind ?st (?fin a)))) g0 = (Ok v, g')"
    unfolding approve_proposal_def
    by (elim mbind_OkE) (auto simp: need_some_def split: option.splits)
  with no have 1: "mbind (apply_approved E p actor) (\<lambda>a. mbind (?aud a) (\<lambda>_. mbind ?st (?fin a))) g0 = (Ok v, g')"
    by (simp split: if_splits)
  then obtain a ga where 2: "apply_approved E p actor g0 = (Ok a, ga)"
    and 3: "mbind (?aud a) (\<lambda>_. mbind ?st (?fin a)) ga = (Ok v, g')" by (rule mbind_OkE)
  from 3 obtain x gb where 3: "?aud a ga = (Ok x, gb)" and 4: "mbind ?st (?fin a) gb = (Ok v, g')"
    by (rule mbind_OkE)
  from 4 obtain u gc where 4: "?st gb = (Ok u, gc)" and 5: "?fin a u gc = (Ok v, g')" by (rule mbind_OkE)
  from keepsE [OF hash_props h] keepsE [OF apply_approved_props 2]
    keepsE [OF props_kept(7) 3] keepsE [OF fk 5]
  have "g_props gb = g_props g" "g_props g' = g_props gc" by (simp_all add: props_frame_def)
  with 4 show thesis by (intro that)
qed

text \<open>
  A decision is recorded: after \<open>decide_proposal\<close> succeeds, the stored proposal carries the
  status of the decision and the name of who took it, and is pending no more.
\<close>

theorem decision_is_recorded:
  assumes "kv_laws (ge_kv E) view seq" and "decide_proposal E i approve actor g = (Ok v, g')"
    and "get_proposal (ge_kv E) (ge_codec E) i (g_props g) = Some p"
    and "codec_law (ge_codec E)
           (with_status p (if approve then ''approved'' else ''rejected'') (Some actor) (ge_now E))"
    and "kv_get (ge_kv E) i (g_props g') = Ok w"
  shows "\<exists>p'. get_proposal (ge_kv E) (ge_codec E) i (g_props g') = Some p' \<and> \<not> is_pending p' \<and>
    value_index p' ''status'' = VString (if approve then ''approved'' else ''rejected'') \<and>
    value_index p' ''decided_by'' = VString actor"
proof -
  from assms(2,3) have pend: "is_pending p"
    and run: "(if approve then approve_proposal E i actor p else reject_proposal E i actor) g = (Ok v, g')"
    by (auto elim: decide_run)
  let ?status = "if approve then ''approved'' else ''rejected''"
  let ?p = "with_status p ?status (Some actor) (ge_now E)"
  obtain m where m: "p = VObject m"
    using pend by (cases p) (auto simp: is_pending_def value_index_def)
  have "get_proposal (ge_kv E) (ge_codec E) i (g_props g') = Some ?p"
  proof (cases approve)
    case True
    with run have "approve_proposal E i actor p g = (Ok v, g')" by simp
    then obtain u g1 g2 where a: "g_props g1 = g_props g"
      "on_props (set_status (ge_kv E) (ge_codec E) i ''approved'' (Some actor) (ge_now E)) g1 = (Ok u, g2)"
      "g_props g' = g_props g2" by (rule approve_run)
    with on_props_set_status [OF assms(1) _ _ a(2)] assms(3-5) True show ?thesis by simp
  next
    case False
    with run have "reject_proposal E i actor g = (Ok v, g')" by simp
    then obtain u g1 where a:
      "on_props (set_status (ge_kv E) (ge_codec E) i ''rejected'' (Some actor) (ge_now E)) g = (Ok u, g1)"
      "g_props g' = g_props g1" by (rule reject_run)
    with on_props_set_status [OF assms(1,3) _ a(1)] assms(4,5) False show ?thesis by simp
  qed
  then show ?thesis
    by (auto simp: m with_status_def Let_def is_pending_def value_index_insert)
qed

definition demo_codec2 :: codec where
  "demo_codec2 =
     \<lparr>cd_print = (\<lambda>v. if v = demo_proposal then ''doc'' else ''doc2''),
      cd_parse = (\<lambda>t. if t = ''doc'' then Some demo_proposal
                     else Some (with_status demo_proposal ''rejected'' (Some ''ann'') 9))\<rparr>"

definition demo_rejected :: "(json, gerr) result \<times> mem gov" where
  "demo_rejected = decide_proposal (demo_genv demo_codec2) ''p-1'' False ''ann'' demo_gov"

lemma demo_status_differs: "with_status demo_proposal ''rejected'' (Some ''ann'') 9 \<noteq> demo_proposal"
  by (simp add: with_status_def demo_proposal_def)

lemma demo_rejected_run:
  "\<exists>v. fst demo_rejected = Ok v"
  "g_props (snd demo_rejected) = ([''p-1'' \<mapsto> (''doc2'', 2)], 2)"
  using demo_status_differs
  by (simp_all add: demo_rejected_def decide_proposal_def reject_proposal_def is_pending_def set_status_def
      get_proposal_def demo_codec2_def Let_def demo_genv_def demo_gov_def mem_kv_def mem_write_def
      mbind_def need_some_def need_def on_props_def audit_def emit_proposal_event_def)
    (simp_all add: demo_proposal_def value_index_def with_status_def numeral_2_eq_2)

theorem decision_is_recorded_witness:
  "\<exists>p'. get_proposal mem_kv demo_codec2 ''p-1'' (g_props (snd demo_rejected)) = Some p' \<and> \<not> is_pending p'"
proof -
  obtain v where v: "decide_proposal (demo_genv demo_codec2) ''p-1'' False ''ann'' demo_gov = (Ok v, snd demo_rejected)"
    using demo_rejected_run(1) by (metis demo_rejected_def prod.collapse)
  have "kv_laws (ge_kv (demo_genv demo_codec2)) fst snd" by (simp add: demo_genv_def mem_kv_laws)
  from decision_is_recorded [OF this v, of demo_proposal "Some ''doc2''"] demo_status_differs demo_rejected_run(2)
  show ?thesis
    by (auto simp: demo_genv_def get_proposal_def mem_kv_def demo_codec2_def demo_gov_def codec_law_def)
qed

end
