(* ===== verification/Shadow.thy ===== *)
theory Shadow
  imports Flow Governance
begin

text \<open>
  Trying a change before it runs, from \<open>core/src/main.rs\<close> and \<open>core/src/connectors.rs\<close>: the
  replay of a literal, time travel over the persisted traffic and the canary that follows the
  live stream. Each runs a current and a candidate program on the same events with the engine
  that holds no secret value, and compares what they emit.
\<close>

section \<open>Shadow runs\<close>

record shadow_env =
  sh_world :: world
  sh_host :: host
  sh_fs :: fs
  sh_run_error :: "rerr \<Rightarrow> string"

definition outcome_json :: "(string \<times> json) list \<Rightarrow> json \<Rightarrow> json" where
  "outcome_json es error =
     VObject (om_of_list
       [(''emits'', VArray (map (\<lambda>(s, p). VObject (om_of_list [(''subject'', VString s), (''payload'', p)])) es)),
        (''error'', error)])"

definition shadow_emits :: "shadow_env \<Rightarrow> path \<Rightarrow> string \<Rightarrow> program \<Rightarrow> json \<Rightarrow> (json, gerr) result" where
  "shadow_emits S dir pkg prog ev =
     (case fst (run (sh_world S) prog ev (shadow (sh_host S) (sh_fs S) dir pkg)) of
        Ok c \<Rightarrow> Ok (outcome_json (emits c) VNull)
      | Err e \<Rightarrow> Ok (outcome_json [] (VString (sh_run_error S e)))
      | Panic \<Rightarrow> Panic)"

text \<open>Both programs on one event: what each gives, and whether they differ.\<close>

definition compare :: "shadow_env \<Rightarrow> path \<Rightarrow> string \<Rightarrow> program \<Rightarrow> program \<Rightarrow> json \<Rightarrow> (json \<times> json, gerr) result" where
  "compare S dir pkg current candidate ev =
     rbind (shadow_emits S dir pkg current ev) (\<lambda>b.
     rbind (shadow_emits S dir pkg candidate ev) (\<lambda>a. Ok (b, a)))"

definition row_json :: "(string \<times> json) list \<Rightarrow> json \<times> json \<Rightarrow> json" where
  "row_json meta ba =
     VObject (om_of_list (meta @
       [(''before'', fst ba), (''after'', snd ba), (''changed'', VBool (fst ba \<noteq> snd ba))]))"

text \<open>The loop over the events of a replay: the rows in order and the number that differ.\<close>

fun diff_rows ::
  "shadow_env \<Rightarrow> path \<Rightarrow> string \<Rightarrow> program \<Rightarrow> program \<Rightarrow> ((string \<times> json) list \<times> json) list \<Rightarrow>
     (json list \<times> nat, gerr) result" where
  "diff_rows S dir pkg current candidate [] = Ok ([], 0)"
| "diff_rows S dir pkg current candidate ((meta, ev) # rest) =
     rbind (compare S dir pkg current candidate ev) (\<lambda>ba.
     rbind (diff_rows S dir pkg current candidate rest) (\<lambda>(rows, n).
       Ok (row_json meta ba # rows, (if fst ba \<noteq> snd ba then n + 1 else n))))"

section \<open>Persisted traffic\<close>

type_synonym row = "nat \<times> string \<times> json"

definition stream_seq_of :: "message \<Rightarrow> nat" where
  "stream_seq_of m = (case delivery_of m of Some d \<Rightarrow> nat (dl_stream_seq d) | None \<Rightarrow> 0)"

definition push_row :: "codec \<Rightarrow> nat \<Rightarrow> row list \<Rightarrow> message \<Rightarrow> row list" where
  "push_row C n ring m =
     (case cd_parse C (ms_data m) of
        None \<Rightarrow> ring
      | Some v \<Rightarrow> (let ring' = ring @ [(stream_seq_of m, ms_subject m, v)] in drop (length ring' - n) ring'))"

text \<open>
  The rounds of the scan: an empty one means the stream is exhausted, and the scan stops at its
  window. A round that fails fails the scan.
\<close>

fun hydrate_scan ::
  "codec \<Rightarrow> nat \<Rightarrow> nat \<Rightarrow> (message list, string) result list \<Rightarrow> row list \<Rightarrow> nat \<Rightarrow> (row list, string) result" where
  "hydrate_scan C n window [] ring scanned = Ok ring"
| "hydrate_scan C n window (Err e # rounds) ring scanned = Err e"
| "hydrate_scan C n window (Panic # rounds) ring scanned = Panic"
| "hydrate_scan C n window (Ok batch # rounds) ring scanned =
     (if batch = [] then Ok ring
      else if window \<le> scanned + length batch then Ok (foldl (push_row C n) ring batch)
      else hydrate_scan C n window rounds (foldl (push_row C n) ring batch) (scanned + length batch))"

definition clamp :: "nat \<Rightarrow> nat \<Rightarrow> nat \<Rightarrow> nat" where
  "clamp lo hi n = max lo (min hi n)"

definition scan_window :: "nat \<Rightarrow> nat" where
  "scan_window n = min 200000 (max 256 (n * 8))"

text \<open>\<open>tail\<close> is the last sequence number of the stream, \<open>pull\<close> the rounds of its consumer from a
  sequence number on, or the error of creating it.\<close>

definition hydrate_recent ::
  "codec \<Rightarrow> nat \<Rightarrow> (nat \<Rightarrow> ((message list, string) result list, string) result) \<Rightarrow> nat \<Rightarrow> (row list, string) result" where
  "hydrate_recent C tail pull n0 =
     (let n = clamp 1 5000 n0 in
      if tail = 0 then Ok []
      else rbind (pull (max 1 (tail - scan_window n)))
        (\<lambda>rounds. hydrate_scan C n (scan_window n) rounds [] 0))"

section \<open>Replay of a literal and time travel\<close>

definition parse_g :: "string \<Rightarrow> ('s, program) gm" where
  "parse_g src = mlift (map_err GParse (parse src))"

definition trace_preview :: "codec \<Rightarrow> json \<Rightarrow> string" where
  "trace_preview C entry =
     (case as_str (value_index entry ''preview'') of
        Some p \<Rightarrow> if p \<noteq> [] then p else (case om_get (item_fields entry) ''event'' of Some ev \<Rightarrow> preview_of C ev | None \<Rightarrow> [])
      | None \<Rightarrow> (case om_get (item_fields entry) ''event'' of Some ev \<Rightarrow> preview_of C ev | None \<Rightarrow> []))"

text \<open>
  The events of a replay: the persisted traffic when there is any, else the trace ring of the
  unit, newest first.
\<close>

definition row_entry :: "codec \<Rightarrow> row \<Rightarrow> json" where
  "row_entry C r =
     (case r of (sq, subject, event) \<Rightarrow>
        VObject (om_of_list
          [(''ts'', VNull), (''seq'', num_json sq), (''subject'', VString subject),
           (''preview'', VString (preview_of C event)), (''event'', event)]))"

definition replay_events :: "codec \<Rightarrow> row list option \<Rightarrow> json list \<Rightarrow> nat \<Rightarrow> json list \<times> string" where
  "replay_events C hydrated ring n =
     (case hydrated of
        Some (r # rows) \<Rightarrow> (map (row_entry C) (r # rows), ''jetstream'')
      | _ \<Rightarrow> (take (clamp 1 50 n) (rev ring), ''trace-ring''))"

definition replayable :: "codec \<Rightarrow> json list \<Rightarrow> ((string \<times> json) list \<times> json) list" where
  "replayable C entries =
     map (\<lambda>e. ([(''ts'', value_index e ''ts''), (''subject'', value_index e ''subject''),
                (''preview'', VString (trace_preview C e))], value_index e ''event''))
       (filter (\<lambda>e. value_index e ''event'' \<noteq> VNull) entries)"

definition replay_literal ::
  "'s genv \<Rightarrow> shadow_env \<Rightarrow> traces \<Rightarrow> (string \<Rightarrow> row list option) \<Rightarrow> string \<Rightarrow> string \<Rightarrow> string \<Rightarrow> json \<Rightarrow> nat \<Rightarrow>
     ('s, json) gm" where
  "replay_literal E S T hydrate rel name key v n =
     mbind (guard E rel) (\<lambda>p.
     mbind (read_file p) (\<lambda>src.
     mbind (edit E src name key v) (\<lambda>patched.
     mbind (parse_g src) (\<lambda>before.
     mbind (parse_g patched) (\<lambda>after.
     let (events, source) =
           replay_events (ge_codec E) (case pg_source before of Some subj \<Rightarrow> hydrate subj | None \<Rightarrow> None)
             (ring_of T (flow_proc_name p)) n in
     mbind (mlift (diff_rows S (ge_root E) (pkg_of_path p) before after (replayable (ge_codec E) events)))
       (\<lambda>(rows, changed).
         mret (VObject (om_of_list
           [(''file'', VString rel), (''name'', VString name), (''key'', VString key), (''value'', v),
            (''source'', VString source), (''events'', num_json (length rows)),
            (''changed'', num_json changed), (''results'', VArray rows)]))))))))"

definition time_travel ::
  "'s genv \<Rightarrow> shadow_env \<Rightarrow> (string \<Rightarrow> (row list, string) result) \<Rightarrow> string \<Rightarrow> string \<Rightarrow> ('s, json) gm" where
  "time_travel E S hydrate rel candidate_src =
     mbind (guard E rel) (\<lambda>p.
     mbind (read_file p) (\<lambda>baseline.
     mbind (need (ge_bus_up E) ''NATS unreachable'') (\<lambda>_.
     mbind (resolve_g E (ge_versions_open E) (flow_proc_name p) baseline) (\<lambda>current_src.
     mbind (parse_g current_src) (\<lambda>current.
     mbind (parse_g candidate_src) (\<lambda>candidate.
     mbind (need_some (pg_source current) ''flow has no bus source to replay'') (\<lambda>subj.
     mbind (mlift (map_err GMsg (hydrate subj))) (\<lambda>rows.
     mbind (mlift (diff_rows S (ge_root E) (pkg_of_path p) current candidate
         (map (\<lambda>(sq, subject, event).
            ([(''seq'', num_json sq), (''subject'', VString subject),
              (''preview'', VString (preview_of (ge_codec E) event))], event)) rows)))
       (\<lambda>(results, changed).
         mret (VObject (om_of_list
           [(''file'', VString rel), (''flow'', VString (flow_proc_name p)),
            (''candidate_hash'', VString (hash_content candidate_src)),
            (''events'', num_json (length results)), (''changed'', num_json changed),
            (''results'', VArray results)])))))))))))"

section \<open>The canary\<close>

record canary =
  cn_candidate_hash :: string
  cn_started_at :: nat
  cn_running :: bool
  cn_total :: nat
  cn_changed :: nat
  cn_ring :: "json list"
  cn_stop_reason :: "string option"

text \<open>What the thread of a canary works with.\<close>

record canary_task =
  ct_unit :: string
  ct_path :: path
  ct_subject :: string
  ct_current :: program
  ct_candidate :: program
  ct_current_hash :: string

type_synonym ('s, 'a) cm = "('s gov \<times> canary omap, 'a, gerr) stm"

definition on_gov :: "('s, 'a) gm \<Rightarrow> ('s, 'a) cm" where
  "on_gov m s = (case m (fst s) of (r, g) \<Rightarrow> (r, (g, snd s)))"

definition canary_register :: "'s genv \<Rightarrow> string \<Rightarrow> string \<Rightarrow> ('s, unit) cm" where
  "canary_register E unit candidate_hash s =
     (if (case om_get (snd s) unit of Some c \<Rightarrow> cn_running c | None \<Rightarrow> False) then
        (Err (GMsg (''canary already running for this flow'' @ dash @ ''stop it first'')), s)
      else
        (Ok (), (fst s, om_insert unit
          \<lparr>cn_candidate_hash = candidate_hash, cn_started_at = ge_now E, cn_running = True, cn_total = 0,
           cn_changed = 0, cn_ring = [], cn_stop_reason = None\<rparr> (snd s))))"

definition canary_start :: "'s genv \<Rightarrow> string \<Rightarrow> string \<Rightarrow> ('s, canary_task \<times> json) cm" where
  "canary_start E rel candidate_src =
     mbind (on_gov (guard E rel)) (\<lambda>p.
     mbind (on_gov (read_file p)) (\<lambda>baseline.
     mbind (on_gov (need (ge_bus_up E) ''NATS unreachable'')) (\<lambda>_.
     mbind (on_gov (resolve_g E (ge_versions_open E) (flow_proc_name p) baseline)) (\<lambda>current_src.
     mbind (on_gov (parse_g current_src)) (\<lambda>current.
     mbind (on_gov (parse_g candidate_src)) (\<lambda>candidate.
     mbind (on_gov (need_some (pg_source current) ''flow has no bus source to shadow'')) (\<lambda>subj.
     mbind (canary_register E (flow_proc_name p) (hash_content candidate_src)) (\<lambda>_.
       mret (\<lparr>ct_unit = flow_proc_name p, ct_path = p, ct_subject = subj, ct_current = current,
              ct_candidate = candidate, ct_current_hash = hash_content current_src\<rparr>,
             VObject (om_of_list
               [(''ok'', VBool True), (''flow'', VString (flow_proc_name p)),
                (''candidate_hash'', VString (hash_content candidate_src))]))))))))))"

definition on_canary :: "string \<Rightarrow> (canary \<Rightarrow> canary) \<Rightarrow> canary omap \<Rightarrow> canary omap" where
  "on_canary unit f m = (case om_get m unit of Some c \<Rightarrow> om_insert unit (f c) m | None \<Rightarrow> m)"

text \<open>One message of the live tail, never acknowledged; one that is not JSON is skipped.\<close>

definition canary_record :: "nat \<Rightarrow> json \<times> json \<Rightarrow> canary \<Rightarrow> canary" where
  "canary_record sq ba c =
     (let ring = cn_ring c @ [VObject (om_of_list
            [(''seq'', num_json sq), (''changed'', VBool (fst ba \<noteq> snd ba)), (''before'', fst ba),
             (''after'', snd ba)])]
      in c\<lparr>cn_total := cn_total c + 1,
           cn_changed := (if fst ba \<noteq> snd ba then cn_changed c + 1 else cn_changed c),
           cn_ring := drop (length ring - 500) ring\<rparr>)"

definition canary_message :: "'s genv \<Rightarrow> shadow_env \<Rightarrow> canary_task \<Rightarrow> message \<Rightarrow> ('s, unit) cm" where
  "canary_message E S k m =
     (case cd_parse (ge_codec E) (ms_data m) of
        None \<Rightarrow> mret ()
      | Some event \<Rightarrow>
          mbind (mlift (compare S (ge_root E) (pkg_of_path (ct_path k)) (ct_current k) (ct_candidate k) event))
            (\<lambda>ba. mupd (\<lambda>s. (fst s, on_canary (ct_unit k) (canary_record (stream_seq_of m) ba) (snd s)))))"

fun canary_batch :: "'s genv \<Rightarrow> shadow_env \<Rightarrow> canary_task \<Rightarrow> message list \<Rightarrow> ('s, unit) cm" where
  "canary_batch E S k [] = mret ()"
| "canary_batch E S k (m # ms) = mbind (canary_message E S k m) (\<lambda>_. canary_batch E S k ms)"

text \<open>
  One turn of the thread while its canary runs: a version that changed under it stops it, before
  anything is compared. \<open>True\<close> means it goes on.
\<close>

definition canary_stale :: "'s genv \<Rightarrow> canary_task \<Rightarrow> ('s, bool) gm" where
  "canary_stale E k g =
     (case g_files g (ct_path k) of
        None \<Rightarrow> (Ok False, g)
      | Some baseline \<Rightarrow>
          mbind (resolve_g E (ge_versions_open E) (ct_unit k) baseline)
            (\<lambda>eff. mret (hash_content eff \<noteq> ct_current_hash k)) g)"

definition canary_turn :: "'s genv \<Rightarrow> shadow_env \<Rightarrow> canary_task \<Rightarrow> message list \<Rightarrow> ('s, bool) cm" where
  "canary_turn E S k batch =
     mbind (on_gov (canary_stale E k)) (\<lambda>stale.
       if stale then
         mbind (mupd (\<lambda>s. (fst s, on_canary (ct_unit k) (\<lambda>c. c\<lparr>cn_running := False,
           cn_stop_reason := Some ''baseline changed (live version promoted or overlay evicted)''\<rparr>) (snd s))))
           (\<lambda>_. mret False)
       else mbind (canary_batch E S k batch) (\<lambda>_. mret True))"

definition canary_read :: "'s genv \<Rightarrow> string \<Rightarrow> ('s, json) cm" where
  "canary_read E rel =
     mbind (on_gov (guard E rel)) (\<lambda>p. mbind mget (\<lambda>s.
       mret (case om_get (snd s) (flow_proc_name p) of
          None \<Rightarrow> VObject (om_of_list
            [(''running'', VBool False), (''flow'', VString (flow_proc_name p)), (''events'', num_json 0)])
        | Some c \<Rightarrow> VObject (om_of_list
            [(''running'', VBool (cn_running c)), (''flow'', VString (flow_proc_name p)),
             (''candidate_hash'', VString (cn_candidate_hash c)), (''started_at'', num_json (cn_started_at c)),
             (''events'', num_json (cn_total c)), (''changed'', num_json (cn_changed c)),
             (''stop_reason'', opt_json VString (cn_stop_reason c)),
             (''results'', VArray (take 100 (rev (cn_ring c))))]))))"

definition canary_stop :: "'s genv \<Rightarrow> string \<Rightarrow> ('s, json) cm" where
  "canary_stop E rel =
     mbind (on_gov (guard E rel)) (\<lambda>p. mbind mget (\<lambda>s.
       mbind (mupd (\<lambda>s. (fst s, on_canary (flow_proc_name p) (\<lambda>c. c\<lparr>cn_running := False\<rparr>) (snd s)))) (\<lambda>_.
         mret (VObject (om_of_list
           [(''ok'', VBool True), (''flow'', VString (flow_proc_name p)),
            (''stopped'', VBool (om_get (snd s) (flow_proc_name p) \<noteq> None))])))))"

section \<open>Facts\<close>

text \<open>What a step leaves of the project: everything but the overlays and the record of evictions.\<close>

definition evicts_only :: "gerr ending \<Rightarrow> 's gov \<Rightarrow> 's gov \<Rightarrow> bool" where
  "evicts_only k g g' \<longleftrightarrow>
     g_files g' = g_files g \<and> g_props g' = g_props g \<and> g_seq g' = g_seq g \<and> g_audit g' = g_audit g \<and>
     g_events g' = g_events g \<and> g_reloads g' = g_reloads g"

interpretation evicts: frame evicts_only "\<lambda>_. False"
  by unfold_locales (auto simp: evicts_only_def)

definition untouched :: "gerr ending \<Rightarrow> 's gov \<Rightarrow> 's gov \<Rightarrow> bool" where
  "untouched k g g' \<longleftrightarrow> g' = g"

interpretation untouched: frame untouched "\<lambda>_. False"
  by unfold_locales (auto simp: untouched_def)

lemma pure_steps:
  "keeps untouched (guard E rel)" "keeps untouched (read_file p)" "keeps untouched (edit E src name key v)"
  "keeps untouched (parse_g src)" "keeps untouched (need b e)" "keeps untouched (need_some x e)"
  "keeps untouched (mlift r)"
  by (auto simp: keeps_def untouched_def guard_def read_file_def edit_def parse_g_def need_def need_some_def
      split: option.split)

lemma untouched_evicts: "keeps untouched m \<Longrightarrow> keeps evicts_only m"
  by (auto simp: keeps_def untouched_def evicts_only_def)

lemma resolve_g_evicts: "keeps evicts_only (resolve_g E a unit src)"
  by (auto simp: keeps_def evicts_only_def resolve_g_def split: prod.split)

lemma replay_literal_untouched: "keeps untouched (replay_literal E S T hydrate rel name key v n)"
  unfolding replay_literal_def Let_def
  by (intro untouched.mbind_keeps untouched.mret_keeps pure_steps; simp split: prod.split;
      intro untouched.mbind_keeps allI impI pure_steps; auto simp: keeps_def untouched_def split: prod.split)

lemma time_travel_evicts: "keeps evicts_only (time_travel E S hydrate rel src)"
  unfolding time_travel_def
  by (intro evicts.mbind_keeps resolve_g_evicts untouched_evicts pure_steps)
     (auto simp: keeps_def untouched_def split: prod.split)


text \<open>
  The diff is honest: one row per event, in order, each marked changed exactly when the two
  programs give different emits or errors on that event, and the count is the number of rows
  marked.
\<close>

theorem diff_counts_what_differs:
  "diff_rows S dir pkg cur cand evs = Ok (rows, n) \<Longrightarrow>
     length rows = length evs \<and> n = length (filter (\<lambda>r. value_index r ''changed'' = VBool True) rows) \<and>
     (\<forall>i < length evs. \<exists>b a. shadow_emits S dir pkg cur (snd (evs ! i)) = Ok b \<and>
        shadow_emits S dir pkg cand (snd (evs ! i)) = Ok a \<and> value_index (rows ! i) ''changed'' = VBool (b \<noteq> a))"
proof (induction evs arbitrary: rows n)
  case (Cons x evs)
  obtain meta ev where x: "x = (meta, ev)" by fastforce
  from Cons.prems x obtain b a rows' n' where c: "shadow_emits S dir pkg cur ev = Ok b"
      "shadow_emits S dir pkg cand ev = Ok a"
    and d: "diff_rows S dir pkg cur cand evs = Ok (rows', n')"
    and r: "rows = row_json meta (b, a) # rows'" "n = (if b \<noteq> a then n' + 1 else n')"
    by (auto simp: compare_def result_simps)
  have "value_index (row_json meta (b, a)) ''changed'' = VBool (b \<noteq> a)"
    by (simp add: row_json_def value_index_def om_get_insert_all)
  then show ?case using Cons.IH [OF d] c r x by (auto simp: nth_Cons' less_Suc_eq_0_disj)
qed simp

definition demo_emits :: "int \<Rightarrow> program" where
  "demo_emits n = empty_program\<lparr>pg_stmts := [SEmit (ELit (VString ''vx.out'')) (ELit (VNumber (PosInt n)))]\<rparr>"

definition demo_shadow :: shadow_env where
  "demo_shadow = \<lparr>sh_world = demo_world, sh_host = demo_host [], sh_fs = (\<lambda>_. Missing), sh_run_error = (\<lambda>_. [])\<rparr>"

lemma demo_diff:
  "diff_rows demo_shadow [] ''default'' (demo_emits 1) (demo_emits 2) [([], VNull)] =
     Ok ([row_json [] (outcome_json [(''vx.out'', VNumber (PosInt 1))] VNull,
                       outcome_json [(''vx.out'', VNumber (PosInt 2))] VNull)], 1)"
  by code_simp

theorem diff_counts_what_differs_witness:
  "(1::nat) = length (filter (\<lambda>r. value_index r ''changed'' = VBool True)
     [row_json [] (outcome_json [(''vx.out'', VNumber (PosInt 1))] VNull,
                   outcome_json [(''vx.out'', VNumber (PosInt 2))] VNull)])"
  using diff_counts_what_differs [OF demo_diff] by blast

text \<open>
  The invariant of the canaries: the counts and the ring agree, and one that stopped by itself
  does not run.
\<close>

definition canary_inv :: "canary \<Rightarrow> bool" where
  "canary_inv c \<longleftrightarrow>
     cn_changed c \<le> cn_total c \<and> length (cn_ring c) = min 500 (cn_total c) \<and>
     (cn_stop_reason c \<noteq> None \<longrightarrow> \<not> cn_running c)"

definition canaries_ok :: "canary omap \<Rightarrow> bool" where
  "canaries_ok m \<longleftrightarrow> (\<forall>u c. om_get m u = Some c \<longrightarrow> canary_inv c)"

definition canaries_inv :: "gerr ending \<Rightarrow> 's gov \<times> canary omap \<Rightarrow> 's gov \<times> canary omap \<Rightarrow> bool" where
  "canaries_inv k s s' \<longleftrightarrow> (canaries_ok (snd s) \<longrightarrow> canaries_ok (snd s'))"

interpretation canaries: frame canaries_inv "\<lambda>_. False"
  by unfold_locales (simp_all add: canaries_inv_def)

lemma on_gov_canaries: "keeps canaries_inv (on_gov m)"
  by (auto simp: keeps_def canaries_inv_def on_gov_def split: prod.split)

lemma canaries_ok_insert: "canaries_ok m \<Longrightarrow> canary_inv c \<Longrightarrow> canaries_ok (om_insert u c m)"
  by (simp add: canaries_ok_def om_get_insert)

lemma canary_record_inv: "canary_inv c \<Longrightarrow> canary_inv (canary_record sq ba c)"
  by (simp add: canary_inv_def canary_record_def Let_def min_def split: if_split_asm)

lemma on_canary_inv:
  "(\<And>c. canary_inv c \<Longrightarrow> canary_inv (f c)) \<Longrightarrow> keeps canaries_inv (mupd (\<lambda>s. (fst s, on_canary unit f (snd s))))"
  by (auto simp: keeps_def canaries_inv_def on_canary_def canaries_ok_def om_get_insert split: option.splits)

lemma canary_register_inv: "keeps canaries_inv (canary_register E unit h)"
  by (auto simp: keeps_def canaries_inv_def canary_register_def intro!: canaries_ok_insert)
     (simp add: canary_inv_def)

lemma canary_batch_inv: "keeps canaries_inv (canary_batch E S k ms)"
proof (induction ms)
  case (Cons m ms)
  have "keeps canaries_inv (canary_message E S k m)"
    unfolding canary_message_def
    by (cases "cd_parse (ge_codec E) (ms_data m)")
       (auto intro!: canaries.mbind_keeps canaries.mlift_keeps on_canary_inv canary_record_inv
          simp: keeps_def [of _ "Pair _"] canaries_inv_def simp del: mupd_run)
  with Cons.IH show ?case by (simp only: canary_batch.simps) (intro canaries.mbind_keeps)
qed (auto simp: keeps_def canaries_inv_def)

lemma canary_turn_inv: "keeps canaries_inv (canary_turn E S k batch)"
proof -
  have "keeps canaries_inv (if stale then
         mbind (mupd (\<lambda>s. (fst s, on_canary (ct_unit k) (\<lambda>c. c\<lparr>cn_running := False,
           cn_stop_reason := Some ''baseline changed (live version promoted or overlay evicted)''\<rparr>) (snd s))))
           (\<lambda>_. mret False)
       else mbind (canary_batch E S k batch) (\<lambda>_. mret True))" for stale
    by (auto intro!: canaries.mbind_keeps canaries.mret_keeps on_canary_inv canary_batch_inv
        simp: canary_inv_def simp del: mupd_run mret_run)
  then show ?thesis unfolding canary_turn_def by (intro canaries.mbind_keeps on_gov_canaries)
qed

lemma canary_start_inv: "keeps canaries_inv (canary_start E rel src)"
  unfolding canary_start_def
  by (intro canaries.mbind_keeps on_gov_canaries canary_register_inv canaries.mret_keeps)

lemma canary_stop_inv: "keeps canaries_inv (canary_stop E rel)"
  unfolding canary_stop_def
  by (intro canaries.mbind_keeps on_gov_canaries canaries.mget_keeps canaries.mret_keeps on_canary_inv)
     (simp add: canary_inv_def)

text \<open>What happens to the canaries of an instance, one act after the other.\<close>

datatype act = Start string string | Turn canary_task "message list" | Stop string

fun canary_act :: "'s genv \<Rightarrow> shadow_env \<Rightarrow> act \<Rightarrow> 's gov \<times> canary omap \<Rightarrow> 's gov \<times> canary omap" where
  "canary_act E S (Start rel src) s = snd (canary_start E rel src s)"
| "canary_act E S (Turn k batch) s = snd (canary_turn E S k batch s)"
| "canary_act E S (Stop rel) s = snd (canary_stop E rel s)"

text \<open>
  A canary counts what it shows: whatever is started, stopped and received, for every canary
  the changes counted are among the events counted, its ring holds the latest five hundred of
  them and no fewer than there are, and one that stopped because the live version changed under
  it no longer runs.
\<close>

theorem canaries_stay_consistent:
  "canaries_ok (snd (fold (canary_act E S) acts (g, [])))"
proof -
  have "canaries_ok (snd s) \<Longrightarrow> canaries_ok (snd (canary_act E S a s))" for a s
    using keepsD [OF canary_start_inv, of E _ _ s] keepsD [OF canary_turn_inv, of E S _ _ s]
      keepsD [OF canary_stop_inv, of E _ s]
    by (cases a) (auto simp: canaries_inv_def)
  then have "canaries_ok (snd s) \<Longrightarrow> canaries_ok (snd (fold (canary_act E S) acts s))" for s
    by (induction acts arbitrary: s) simp_all
  from this [of "(g, [])"] show ?thesis by (simp add: canaries_ok_def)
qed

end
