(* ===== verification/Api.thy ===== *)
theory Api
  imports Shadow "HOL-Library.Product_Lexorder"
begin

text \<open>
  The HTTP surface of \<open>core/src/main.rs\<close>: the flows served under \<open>/api/\<close>, with their routes,
  their OpenAPI document and their runs, the front of \<open>handle_request\<close> with its credentials, and
  pieces of the built-in routes, whose table is in \<open>Routes\<close>.
\<close>

section \<open>Routes\<close>

datatype seg = SegLit string | SegParam string

definition trim_slashes :: "string \<Rightarrow> string" where
  "trim_slashes s = rev (dropWhile (\<lambda>c. c = CHR ''/'') (rev (dropWhile (\<lambda>c. c = CHR ''/'') s)))"

definition path_parts :: "string \<Rightarrow> string list" where
  "path_parts s = filter (\<lambda>p. p \<noteq> []) (str_split (trim_slashes s) ''/'')"

definition seg_of :: "string \<Rightarrow> seg" where
  "seg_of s =
     (if starts_with s ''{'' \<and> ends_with s ''}'' then SegParam (take (length s - 2) (drop 1 s)) else SegLit s)"

definition parse_api_spec :: "string \<Rightarrow> (string \<times> seg list) option" where
  "parse_api_spec spec =
     (case split_whitespace spec of
        m # p # _ \<Rightarrow> Some (map to_ascii_uppercase m, map seg_of (path_parts p))
      | _ \<Rightarrow> None)"

text \<open>The program files, from the listings of the directories; the order of the listings is lost
  in the sort.\<close>

type_synonym listing = "path \<Rightarrow> string list option"

definition is_vjs_file :: "string \<Rightarrow> bool" where
  "is_vjs_file name \<longleftrightarrow>
     (case rsplit_once name CHR ''.'' of Some (a, ext) \<Rightarrow> a \<noteq> [] \<and> ext = ''vjs'' | None \<Rightarrow> False) \<and>
     name \<noteq> ''package.vjs''"

definition push_dir :: "listing \<Rightarrow> path \<Rightarrow> string \<Rightarrow> (path \<times> string) list" where
  "push_dir L dir pkg =
     (case L dir of
        None \<Rightarrow> []
      | Some names \<Rightarrow> map (\<lambda>n. (dir @ [n], pkg)) (filter is_vjs_file names))"

definition vjs_files :: "listing \<Rightarrow> path \<Rightarrow> (path \<times> string) list" where
  "vjs_files L dir =
     sort (push_dir L (dir @ [''flows'']) ''default'' @ push_dir L (dir @ [''services'']) ''default'' @
       concat (map (\<lambda>pkg. push_dir L (dir @ [''packages'', pkg, ''flows'']) pkg @
                          push_dir L (dir @ [''packages'', pkg, ''services'']) pkg)
         (case L (dir @ [''packages'']) of Some pkgs \<Rightarrow> pkgs | None \<Rightarrow> [])))"

record api_route =
  ar_method :: string
  ar_segs :: "seg list"
  ar_file :: string
  ar_summary :: string
  ar_op_id :: string
  ar_req_schema :: "json option"
  ar_resp_schema :: "json option"

definition display_path :: "path \<Rightarrow> string" where
  "display_path p =
     (case p of c # rest \<Rightarrow> if c = ''/'' then ''/'' @ str_join ''/'' rest else str_join ''/'' p | [] \<Rightarrow> [])"

definition surface_literal :: "program \<Rightarrow> string \<Rightarrow> json option" where
  "surface_literal prog name = map_option se_value (find_surface (pg_surface prog) name)"

definition route_of :: "path \<Rightarrow> program \<Rightarrow> api_route option" where
  "route_of p prog =
     (case pg_api prog of
        None \<Rightarrow> None
      | Some spec \<Rightarrow>
          (case parse_api_spec spec of
             None \<Rightarrow> None
           | Some (m, segs) \<Rightarrow>
               Some \<lparr>ar_method = m, ar_segs = segs, ar_file = display_path p,
                 ar_summary = (case pg_tool prog of Some t \<Rightarrow> t | None \<Rightarrow> file_stem p), ar_op_id = file_stem p,
                 ar_req_schema = surface_literal prog ''API_REQUEST'',
                 ar_resp_schema = surface_literal prog ''API_RESPONSE''\<rparr>))"

text \<open>The routes of the files in order; one that cannot be read or parsed is skipped.\<close>

fun routes_of :: "(path \<Rightarrow> string option) \<Rightarrow> (path \<times> string) list \<Rightarrow> (api_route list, 'e) result" where
  "routes_of read [] = Ok []"
| "routes_of read ((p, pkg) # rest) =
     (case read p of
        None \<Rightarrow> routes_of read rest
      | Some src \<Rightarrow>
          (case parse src of
             Panic \<Rightarrow> Panic
           | Err _ \<Rightarrow> routes_of read rest
           | Ok prog \<Rightarrow>
               rbind (routes_of read rest) (\<lambda>rs. Ok (case route_of p prog of Some r \<Rightarrow> r # rs | None \<Rightarrow> rs))))"

definition api_routes :: "listing \<Rightarrow> (path \<Rightarrow> string option) \<Rightarrow> path \<Rightarrow> (api_route list, 'e) result" where
  "api_routes L read dir = routes_of read (vjs_files L dir)"

fun match_segs :: "seg list \<Rightarrow> string list \<Rightarrow> (string \<times> string) list option" where
  "match_segs [] [] = Some []"
| "match_segs (SegLit l # segs) (p # ps) = (if l = p then match_segs segs ps else None)"
| "match_segs (SegParam n # segs) (p # ps) = map_option (\<lambda>r. (n, p) # r) (match_segs segs ps)"
| "match_segs _ _ = None"

fun find_route :: "string \<Rightarrow> string list \<Rightarrow> api_route list \<Rightarrow> (string \<times> (string \<times> string) list) option" where
  "find_route m parts [] = None"
| "find_route m parts (r # rs) =
     (if ar_method r \<noteq> m then find_route m parts rs
      else (case match_segs (ar_segs r) parts of
              Some params \<Rightarrow> Some (ar_file r, params)
            | None \<Rightarrow> find_route m parts rs))"

definition match_api_route ::
  "listing \<Rightarrow> (path \<Rightarrow> string option) \<Rightarrow> path \<Rightarrow> string \<Rightarrow> string \<Rightarrow>
     ((string \<times> (string \<times> string) list) option, 'e) result" where
  "match_api_route L read dir m rel =
     rbind (api_routes L read dir) (\<lambda>rs. Ok (find_route m (path_parts rel) rs))"

definition query_pair :: "string \<Rightarrow> (string \<times> json) option" where
  "query_pair pair =
     (let (k, v) = (case split_once pair CHR ''='' of Some (a, b) \<Rightarrow> (a, b) | None \<Rightarrow> (pair, []))
      in if k = [] then None else Some (k, VString v))"

definition parse_query :: "string \<Rightarrow> json" where
  "parse_query url =
     (case str_split url ''?'' of
        _ # qs # _ \<Rightarrow> VObject (om_of_list (List.map_filter query_pair (str_split qs ''&'')))
      | _ \<Rightarrow> VObject [])"

section \<open>The OpenAPI document\<close>

definition schema_type :: "string \<Rightarrow> string" where
  "schema_type t =
     (let l = map to_ascii_lowercase t in
      if l \<in> {''number'', ''float'', ''double'', ''decimal''} then ''number''
      else if l \<in> {''int'', ''integer''} then ''integer''
      else if l \<in> {''bool'', ''boolean''} then ''boolean''
      else if l \<in> {''array'', ''list''} then ''array''
      else if l \<in> {''object'', ''map''} then ''object''
      else ''string'')"

definition type_json :: "string \<Rightarrow> json" where
  "type_json t = VObject [(''type'', VString t)]"

definition json_schema_from_literal :: "json \<Rightarrow> json" where
  "json_schema_from_literal v =
     (case v of
        VObject m \<Rightarrow>
          VObject (om_of_list
            [(''type'', VString ''object''),
             (''properties'', VObject (om_of_list (map (\<lambda>(k, w).
                (k, type_json (case w of VString s \<Rightarrow> schema_type s | VObject _ \<Rightarrow> ''object''
                               | VArray _ \<Rightarrow> ''array'' | _ \<Rightarrow> ''string''))) m)))])
      | _ \<Rightarrow> type_json ''object'')"

definition schema_or_object :: "json option \<Rightarrow> json" where
  "schema_or_object x = (case x of Some v \<Rightarrow> json_schema_from_literal v | None \<Rightarrow> type_json ''object'')"

definition seg_text :: "seg \<Rightarrow> string" where
  "seg_text s = (case s of SegLit l \<Rightarrow> l | SegParam p \<Rightarrow> ''{'' @ p @ ''}'')"

definition param_json :: "string \<Rightarrow> json" where
  "param_json p =
     VObject (om_of_list [(''name'', VString p), (''in'', VString ''path''), (''required'', VBool True),
       (''schema'', type_json ''string'')])"

definition json_content :: "json \<Rightarrow> json" where
  "json_content schema = VObject [(''application/json'', VObject [(''schema'', schema)])]"

definition seg_params :: "seg list \<Rightarrow> string list" where
  "seg_params segs = List.map_filter (\<lambda>s. case s of SegParam p \<Rightarrow> Some p | SegLit _ \<Rightarrow> None) segs"

definition seg_tag :: "seg list \<Rightarrow> string" where
  "seg_tag segs =
     (case List.map_filter (\<lambda>s. case s of SegLit l \<Rightarrow> Some l | SegParam _ \<Rightarrow> None) segs of
        l # _ \<Rightarrow> l | [] \<Rightarrow> ''default'')"

definition operation_json :: "api_route \<Rightarrow> json" where
  "operation_json r =
     VObject (om_of_list
       ([(''summary'', VString (ar_summary r)), (''operationId'', VString (ar_op_id r)),
         (''tags'', VArray [VString (seg_tag (ar_segs r))]),
         (''responses'', VObject (om_of_list
            [(''200'', VObject (om_of_list [(''description'', VString ''OK''),
                (''content'', json_content (schema_or_object (ar_resp_schema r)))])),
             (''500'', VObject [(''description'', VString ''Flow error'')])]))] @
        (if seg_params (ar_segs r) = [] then []
         else [(''parameters'', VArray (map param_json (seg_params (ar_segs r))))]) @
        (if ar_method r \<in> {''POST'', ''PUT'', ''PATCH''} then
           [(''requestBody'', VObject (om_of_list [(''required'', VBool True),
               (''content'', json_content (schema_or_object (ar_req_schema r)))]))]
         else [])))"

fun openapi_paths :: "api_route list \<Rightarrow> json omap \<Rightarrow> json omap" where
  "openapi_paths [] paths = paths"
| "openapi_paths (r # rs) paths =
     (let key = ''/'' @ str_join ''/'' (map seg_text (ar_segs r));
          entry = (case om_get paths key of Some v \<Rightarrow> v | None \<Rightarrow> VObject [])
      in openapi_paths rs (om_insert key
           (VObject (om_insert (map to_ascii_lowercase (ar_method r)) (operation_json r) (item_fields entry))) paths))"

definition openapi_json :: "env \<Rightarrow> api_route list \<Rightarrow> json" where
  "openapi_json env rs =
     (let var = (\<lambda>k d. VString (case env k of Some v \<Rightarrow> v | None \<Rightarrow> d)) in
      VObject (om_of_list
        [(''openapi'', VString ''3.0.3''),
         (''info'', VObject (om_of_list
            [(''title'', var ''VEJAS_API_TITLE'' ''Vejas API''), (''version'', var ''VEJAS_API_VERSION'' ''1.0.0''),
             (''description'', var ''VEJAS_API_DESCRIPTION'' [])])),
         (''servers'', VArray [VObject [(''url'', VString ''/api'')]]),
         (''paths'', VObject (openapi_paths rs []))]))"

section \<open>Running an API flow\<close>

text \<open>
  What the server runs in: the environment of governance, the bus, the listing of directories,
  the texts of errors. A run reads the files of the state.
\<close>

record 's api_env =
  ap_gov :: "'s genv"
  ap_shadow :: shadow_env
  ap_nats :: nats
  ap_listing :: listing
  ap_connect :: "call list \<Rightarrow> bool"
  ap_gerr :: "gerr \<Rightarrow> string"
  ap_elapsed :: f64

record 's server =
  sv_gov :: "'s gov"
  sv_history :: "call list"
  sv_units :: units

type_synonym response = "nat \<times> string \<times> string"
type_synonym ('s, 'a) sm = "('s server, 'a, string) stm"

definition live_world :: "'s api_env \<Rightarrow> 's server \<Rightarrow> world" where
  "live_world A s = (sh_world (ap_shadow A))\<lparr>w_read := g_files (sv_gov s)\<rparr>"

definition run_flow_ctx :: "'s api_env \<Rightarrow> 's server \<Rightarrow> string \<Rightarrow> json \<Rightarrow> (ctx, string) result" where
  "run_flow_ctx A s rel input =
     (case guard_path (ge_canon (ap_gov A)) (ge_root (ap_gov A)) rel of
        None \<Rightarrow> Err ''path not allowed''
      | Some p \<Rightarrow>
          (case g_files (sv_gov s) p of
             None \<Rightarrow> Err ''No such file or directory''
           | Some src \<Rightarrow>
               rbind (map_err (\<lambda>x. ap_gerr A (GParse x)) (parse src)) (\<lambda>prog.
                 map_err (sh_run_error (ap_shadow A))
                   (fst (run (live_world A s) prog input
                      (live (sh_host (ap_shadow A)) (sh_fs (ap_shadow A)) (ge_root (ap_gov A)) (pkg_of_path p)))))))"

text \<open>The emits of a run, best effort: what the batch refuses is dropped.\<close>

fun hold_all :: "nats \<Rightarrow> codec \<Rightarrow> call list \<Rightarrow> (string \<times> json) list \<Rightarrow> batch \<Rightarrow> batch" where
  "hold_all N C h [] held = held"
| "hold_all N C h ((subj, payload) # es) held =
     hold_all N C h es
       (case batch_publish N h subj (cd_print C payload) held of Ok held' \<Rightarrow> held' | _ \<Rightarrow> held)"

definition publish_emits :: "'s api_env \<Rightarrow> (string \<times> json) list \<Rightarrow> call list \<Rightarrow> call list" where
  "publish_emits A es h =
     (if es = [] \<or> \<not> ap_connect A h then h
      else snd (confirm (ap_nats A) (hold_all (ap_nats A) (ge_codec (ap_gov A)) h es []) h))"

definition flow_writes_bus :: "'s api_env \<Rightarrow> 's server \<Rightarrow> string \<Rightarrow> (bool, 'e) result" where
  "flow_writes_bus A s rel =
     (case guard_path (ge_canon (ap_gov A)) (ge_root (ap_gov A)) rel of
        None \<Rightarrow> Ok False
      | Some p \<Rightarrow>
          (case g_files (sv_gov s) p of
             None \<Rightarrow> Ok False
           | Some src \<Rightarrow>
               (case parse src of Ok prog \<Rightarrow> Ok (writes_bus prog) | Err _ \<Rightarrow> Ok False | Panic \<Rightarrow> Panic)))"

text \<open>The status of a response: a number or a numeral, else 200, truncated to 16 bits.\<close>

definition status_code :: "json \<Rightarrow> nat" where
  "status_code v =
     (let n = (case as_u64 v of
                 Some n \<Rightarrow> n
               | None \<Rightarrow> (case as_str v of
                    Some t \<Rightarrow> (case parse_u64 t of Some n \<Rightarrow> n | None \<Rightarrow> 200)
                  | None \<Rightarrow> 200))
      in nat (n mod 65536))"

definition emits_json :: "(string \<times> json) list \<Rightarrow> json" where
  "emits_json es = VArray (map (\<lambda>(s, p). VObject (om_of_list [(''subject'', VString s), (''payload'', p)])) es)"

definition api_answer :: "codec \<Rightarrow> ctx \<Rightarrow> nat \<times> string" where
  "api_answer C c =
     (case response c of
        Some (status, body) \<Rightarrow> (status_code status, cd_print C body)
      | None \<Rightarrow> (200, cd_print C (VObject (om_of_list [(''ok'', VBool True), (''emits'', emits_json (emits c))]))))"

definition run_api_flow :: "'s api_env \<Rightarrow> string \<Rightarrow> json \<Rightarrow> ('s, nat \<times> string) sm" where
  "run_api_flow A rel input s =
     (let unit = (case guard_path (ge_canon (ap_gov A)) (ge_root (ap_gov A)) rel of
                    Some p \<Rightarrow> flow_proc_name p | None \<Rightarrow> rel);
          seen = (\<lambda>ok n. s\<lparr>sv_units := observe unit ok n (ap_elapsed A) (sv_units s)\<rparr>)
      in case run_flow_ctx A s rel input of
           Ok c \<Rightarrow>
             (Ok (api_answer (ge_codec (ap_gov A)) c),
              (seen True (length (emits c)))\<lparr>sv_history := publish_emits A (emits c) (sv_history s)\<rparr>)
         | Err e \<Rightarrow> (Ok (500, cd_print (ge_codec (ap_gov A)) (VObject [(''error'', VString e)])), seen False 0)
         | Panic \<Rightarrow> (Panic, s))"

section \<open>The front of a request\<close>

definition path_only :: "string \<Rightarrow> string" where
  "path_only url = hd (str_split url ''?'')"

definition text_reply :: "nat \<Rightarrow> string \<Rightarrow> response" where
  "text_reply code body = (code, body, ''text/plain'')"

definition json_reply :: "'s api_env \<Rightarrow> nat \<Rightarrow> json \<Rightarrow> response" where
  "json_reply A code v = (code, cd_print (ge_codec (ap_gov A)) v, ''application/json'')"

text \<open>The write token: a mutation without it is refused, but for the human routes with theirs.\<close>

definition token_refused :: "env \<Rightarrow> request \<Rightarrow> bool" where
  "token_refused env rq =
     (case write_token env of
        None \<Rightarrow> False
      | Some tok \<Rightarrow>
          \<not> is_read_method (rq_method rq) \<and> \<not> bearer_authorized rq tok \<and>
          \<not> (is_human_route (path_only (rq_url rq)) \<and> approval_authorized env rq))"

text \<open>A read that writes: a flow under a read method that can reach the bus needs the token too.\<close>

definition api_read_refused :: "'s api_env \<Rightarrow> request \<Rightarrow> string \<Rightarrow> ('s, bool) sm" where
  "api_read_refused A rq rel s =
     (case write_token (ge_env (ap_gov A)) of
        None \<Rightarrow> (Ok False, s)
      | Some tok \<Rightarrow>
          if \<not> is_read_method (rq_method rq) then (Ok False, s)
          else (rbind (flow_writes_bus A s rel) (\<lambda>w. Ok (w \<and> \<not> bearer_authorized rq tok)), s))"

definition api_event :: "request \<Rightarrow> (string \<times> string) list \<Rightarrow> json" where
  "api_event rq params =
     VObject (om_insert ''query'' (parse_query (rq_url rq))
       (om_insert_all (map (\<lambda>(k, v). (k, VString v)) params) (item_fields (rq_body rq))))"

definition api_route_reply :: "'s api_env \<Rightarrow> request \<Rightarrow> string \<Rightarrow> (string \<times> string) list \<Rightarrow> ('s, response) sm" where
  "api_route_reply A rq rel params =
     mbind (api_read_refused A rq rel) (\<lambda>refused.
       if refused then
         mret (text_reply 401 ''unauthorized: this endpoint writes to the bus; set Authorization: Bearer <VEJAS_TOKEN>'')
       else mbind (run_api_flow A rel (api_event rq params))
         (\<lambda>(code, out). mret (code, out, ''application/json'')))"

definition routes_m :: "'s api_env \<Rightarrow> ('s, api_route list) sm" where
  "routes_m A s = (api_routes (ap_listing A) (g_files (sv_gov s)) (ge_root (ap_gov A)), s)"

definition serve_api :: "'s api_env \<Rightarrow> request \<Rightarrow> string \<Rightarrow> ('s, response) sm" where
  "serve_api A rq rel =
     mbind (routes_m A) (\<lambda>rs.
       case find_route (map to_ascii_uppercase (rq_method rq)) (path_parts rel) rs of
         Some (file, params) \<Rightarrow> api_route_reply A rq file params
       | None \<Rightarrow> mret (json_reply A 404 (VObject (om_of_list
           [(''error'', VString ''no API route''), (''method'', VString (map to_ascii_uppercase (rq_method rq))),
            (''path'', VString (''/'' @ rel))]))))"

definition on_server_gov :: "('s, 'a) gm \<Rightarrow> ('s, ('a, gerr) result) sm" where
  "on_server_gov m s =
     (case m (sv_gov s) of
        (Panic, g) \<Rightarrow> (Panic, s\<lparr>sv_gov := g\<rparr>)
      | (r, g) \<Rightarrow> (Ok r, s\<lparr>sv_gov := g\<rparr>))"

definition gov_reply :: "'s api_env \<Rightarrow> nat \<Rightarrow> (json, gerr) result \<Rightarrow> response" where
  "gov_reply A code r =
     (case r of Ok v \<Rightarrow> json_reply A 200 v | Err e \<Rightarrow> text_reply code (ap_gerr A e) | Panic \<Rightarrow> text_reply 500 [])"

text \<open>Deciding a proposal: the credential of a human, distinct from the agent's token.\<close>

definition serve_decision :: "'s api_env \<Rightarrow> request \<Rightarrow> string \<Rightarrow> ('s, response) sm" where
  "serve_decision A rq rest =
     (case rsplit_once rest CHR ''/'' of
        None \<Rightarrow> mret (text_reply 400 ''use /proposals/{id}/approve|reject'')
      | Some (i, action) \<Rightarrow>
          if action \<noteq> ''approve'' \<and> action \<noteq> ''reject'' then
            mret (text_reply 400 ''action must be approve or reject'')
          else if approval_token (ge_env (ap_gov A)) = None then
            mret (text_reply 403
              ''approval requires VEJAS_APPROVAL_TOKEN (a credential distinct from the agent's VEJAS_TOKEN)'')
          else if \<not> approval_authorized (ge_env (ap_gov A)) rq then
            mret (text_reply 401 ''unauthorized: X-Approval-Token required'')
          else
            mbind (on_server_gov (decide_proposal (ap_gov A) i (action = ''approve'') (header_actor rq ''panel'')))
              (\<lambda>r. mret (gov_reply A 422 r)))"

text \<open>\<open>None\<close> hands the request on to the table of built-in routes.\<close>

definition handle_front :: "'s api_env \<Rightarrow> request \<Rightarrow> ('s, response option) sm" where
  "handle_front A rq =
     (let p = path_only (rq_url rq) in
      if token_refused (ge_env (ap_gov A)) rq then
        mret (Some (text_reply 401 ''unauthorized: set Authorization: Bearer <VEJAS_TOKEN>''))
      else if p = ''/api/openapi.json'' then
        mbind (routes_m A) (\<lambda>rs. mret (Some (json_reply A 200 (openapi_json (ge_env (ap_gov A)) rs))))
      else
        (case strip_prefix ''/api/'' p of
           Some rel \<Rightarrow> mbind (serve_api A rq rel) (\<lambda>r. mret (Some r))
         | None \<Rightarrow>
             if rq_method rq = ''POST'' then
               (case strip_prefix ''/proposals/'' p of
                  Some rest \<Rightarrow> mbind (serve_decision A rq rest) (\<lambda>r. mret (Some r))
                | None \<Rightarrow> mret None)
             else mret None))"

section \<open>Pieces of the built-in routes\<close>

definition body_str :: "request \<Rightarrow> string \<Rightarrow> string \<Rightarrow> string" where
  "body_str rq k d = str_field (rq_body rq) k d"

definition ok_json :: json where "ok_json = VObject [(''ok'', VBool True)]"

definition fixture_path_for :: "path \<Rightarrow> path" where
  "fixture_path_for p = (if p = [] then [''.''] else butlast p) @ [''fixtures'', file_stem p @ ''.json'']"

text \<open>
  \<open>rollback_literal\<close>: the literal goes back to what it was before its latest recorded promotion;
  \<open>recent\<close> is \<open>audit_recent\<close>, the latest records of a unit, oldest first.
\<close>

definition rollback_target :: "json list \<Rightarrow> string \<Rightarrow> string \<Rightarrow> json option" where
  "rollback_target records name key =
     List.find (\<lambda>r. value_index r ''name'' = VString name \<and> value_index r ''key'' = VString key) (rev records)"

definition rollback_literal ::
  "'s genv \<Rightarrow> (string \<Rightarrow> (json list, string) result) \<Rightarrow> string \<Rightarrow> string \<Rightarrow> string \<Rightarrow> string \<Rightarrow> ('s, json) gm" where
  "rollback_literal E recent rel name key actor =
     mbind (guard E rel) (\<lambda>p.
     mbind (need (ge_bus_up E) ''NATS unreachable'') (\<lambda>_.
     mbind (mlift (map_err GMsg (recent (flow_proc_name p)))) (\<lambda>records.
     mbind (need_some (rollback_target records name key) ''no audit record to roll back for this literal'') (\<lambda>target.
     mbind (read_file p) (\<lambda>src.
     mbind (literal_before src name key) (\<lambda>current.
     mbind (edit E src name key (value_index target ''before'')) (\<lambda>new_src.
     mbind (write_file E p new_src) (\<lambda>_.
     mbind (record_promote E rel name key current (value_index target ''before'') actor) (\<lambda>_.
       mret (VObject (om_of_list
         [(''ok'', VBool True), (''file'', VString rel), (''name'', VString name), (''key'', VString key),
          (''restored'', value_index target ''before''), (''was'', current),
          (''rolled_back_promote_ts'', value_index target ''ts''), (''actor'', VString actor)])))))))))))"

definition audit_recent ::
  "codec \<Rightarrow> nat \<Rightarrow> (string \<Rightarrow> nat \<Rightarrow> ((message list, string) result list, string) result) \<Rightarrow> string \<Rightarrow> nat \<Rightarrow>
     (json list, string) result" where
  "audit_recent C tail pull unit n =
     rbind (hydrate_recent C tail (pull (audit_subject unit)) n) (\<lambda>rows. Ok (map (\<lambda>(_, _, v). v) rows))"

section \<open>Facts\<close>

text \<open>What a step leaves of one part of the server.\<close>

definition same_of :: "('s \<Rightarrow> 'p) \<Rightarrow> 'e ending \<Rightarrow> 's \<Rightarrow> 's \<Rightarrow> bool" where
  "same_of f k s s' \<longleftrightarrow> f s' = f s"

interpretation same: frame "same_of f" "\<lambda>_. False" for f
  by unfold_locales (simp_all add: same_of_def)

lemma same_of_simps [simp]: "keeps (same_of f) (mret a)" "keeps (same_of f) (Pair r)"
  by (simp_all add: keeps_def same_of_def)

lemma routes_m_same [simp]: "keeps (same_of f) (routes_m A)"
  by (simp add: keeps_def same_of_def routes_m_def)

lemma api_read_refused_same [simp]: "keeps (same_of f) (api_read_refused A rq rel)"
  by (simp add: keeps_def same_of_def api_read_refused_def split: option.split)

lemma run_api_flow_gov: "keeps (same_of sv_gov) (run_api_flow A rel input)"
  by (auto simp: keeps_def same_of_def run_api_flow_def Let_def split: result.split)

lemma api_route_reply_gov: "keeps (same_of sv_gov) (api_route_reply A rq rel params)"
  unfolding api_route_reply_def
  by (intro same.mbind_keeps api_read_refused_same) (auto intro!: same.mbind_keeps run_api_flow_gov)

lemma serve_api_gov: "keeps (same_of sv_gov) (serve_api A rq rel)"
  unfolding serve_api_def
  by (intro same.mbind_keeps routes_m_same) (auto intro: api_route_reply_gov split: option.split)

lemma serve_decision_same:
  "\<not> approval_authorized (ge_env (ap_gov A)) rq \<Longrightarrow> keeps (same_of f) (serve_decision A rq rest)"
  by (auto simp: serve_decision_def split: option.split)

text \<open>Without the approval credential, the front of a request leaves the state of governance.\<close>

lemma handle_front_gov:
  assumes "\<not> approval_authorized (ge_env (ap_gov A)) rq"
  shows "keeps (same_of sv_gov) (handle_front A rq)"
  unfolding handle_front_def Let_def
  by (auto intro!: same.mbind_keeps serve_api_gov serve_decision_same [OF assms] split: option.split)

lemma parse_check_props:
  "keeps props_frame (mbind (parse_g src) (\<lambda>_. mret ()))" "keeps props_frame (Pair r)"
  by (auto simp: keeps_def props_frame_def parse_g_def mbind_def split: result.split)

lemma rollback_literal_props: "keeps props_frame (rollback_literal E recent rel name key actor)"
  unfolding rollback_literal_def
  by (intro pf.mbind_keeps pf.mlift_keeps props_kept record_promote_props pf.mret_keeps) simp

section \<open>Reads\<close>

definition demo_tokens :: env where
  "demo_tokens = [''VEJAS_TOKEN'' \<mapsto> ''t'', ''VEJAS_APPROVAL_TOKEN'' \<mapsto> ''h'', ''VEJAS_REQUIRE_APPROVAL'' \<mapsto> ''1'']"

text \<open>An agent that tries to approve with its own token, and a caller with none.\<close>

definition demo_agent :: request where
  "demo_agent = \<lparr>rq_method = ''POST'', rq_url = ''/proposals/p-1/approve'',
     rq_headers = [(''Authorization'', ''Bearer t'')], rq_body = VNull\<rparr>"

definition demo_anonymous :: request where
  "demo_anonymous = demo_agent\<lparr>rq_headers := []\<rparr>"

lemma demo_credentials:
  "write_token demo_tokens = Some ''t''" "bearer_authorized demo_agent ''t''"
  "\<not> bearer_authorized demo_anonymous ''t''" "\<not> approval_authorized demo_tokens demo_agent"
  "\<not> approval_authorized demo_tokens demo_anonymous" "require_approval demo_tokens"
  by code_simp+

text \<open>A flow the gate lets through without a token publishes nothing.\<close>

lemma quiet_flow:
  assumes "flow_writes_bus A s rel = Ok False" and "run_flow_ctx A s rel input = Ok c"
  shows "emits c = []"
proof -
  from assms(2) obtain p src prog where "guard_path (ge_canon (ap_gov A)) (ge_root (ap_gov A)) rel = Some p"
    "g_files (sv_gov s) p = Some src" and prog: "parse src = Ok prog"
    and run: "fst (run (live_world A s) prog input
      (live (sh_host (ap_shadow A)) (sh_fs (ap_shadow A)) (ge_root (ap_gov A)) (pkg_of_path p))) = Ok c"
    by (auto simp: run_flow_ctx_def result_simps split: option.splits)
  with assms(1) have "\<not> writes_bus prog" by (simp add: flow_writes_bus_def)
  then show ?thesis by (rule run_quiet(2) [OF _ run])
qed

lemma api_route_reply_quiet:
  assumes "write_token (ge_env (ap_gov A)) = Some tok" and "is_read_method (rq_method rq)"
    and "\<not> bearer_authorized rq tok"
  shows "keeps (same_of sv_history) (api_route_reply A rq rel params)"
proof (rule keepsI)
  fix s
  have "sv_history s1 = sv_history s"
    if "(flow_writes_bus A s rel :: (bool, string) result) = Ok False" "run_api_flow A rel input s = (r, s1)"
    for input r s1
    using quiet_flow [OF that(1)] that(2)
    by (auto simp: run_api_flow_def Let_def publish_emits_def split: result.splits)
  then show "same_of sv_history (end_of (fst (api_route_reply A rq rel params s))) s (snd (api_route_reply A rq rel params s))"
    using assms unfolding api_route_reply_def
    by (cases "flow_writes_bus A s rel :: (bool, string) result")
       (auto simp: same_of_def mbind_def api_read_refused_def split: result.split prod.split)
qed

lemma read_front_quiet:
  assumes "write_token (ge_env (ap_gov A)) = Some tok" and "is_read_method (rq_method rq)"
    and "\<not> bearer_authorized rq tok"
  shows "keeps (same_of sv_history) (handle_front A rq)"
proof -
  have "rq_method rq \<noteq> ''POST''" using assms(2) by (auto simp: is_read_method_def)
  moreover have "keeps (same_of sv_history) (serve_api A rq rel)" for rel
    unfolding serve_api_def
    by (intro same.mbind_keeps routes_m_same) (auto intro: api_route_reply_quiet [OF assms] split: option.split)
  ultimately show ?thesis
    unfolding handle_front_def Let_def by (auto intro!: same.mbind_keeps split: option.split)
qed

end
