(* ===== verification/Units.thy ===== *)
theory Units
  imports Api
begin

text \<open>
  The units of a project, from \<open>core/src/main.rs\<close>: the scan of its directories, the registry of
  supervised units with their start, restart and reload, and writing a secret, which restarts
  the units that use it.
\<close>

section \<open>Scanning the project\<close>

datatype unit_kind = KFlow | KConnector | KDetect

record spec =
  sp_name :: string
  sp_path :: path
  sp_pkg :: string
  sp_kind :: unit_kind
  sp_mtime :: nat

text \<open>The manifest of a package may switch it off; one that is missing or broken does not.\<close>

definition package_enabled :: "(path \<Rightarrow> string option) \<Rightarrow> path \<Rightarrow> (bool, 'e) result" where
  "package_enabled read dir =
     (case read (dir @ [''package.vjs'']) of
        None \<Rightarrow> Ok True
      | Some src \<Rightarrow>
          (case parse src of
             Panic \<Rightarrow> Panic
           | Err _ \<Rightarrow> Ok True
           | Ok prog \<Rightarrow>
               Ok (case find_surface (pg_surface prog) ''ENABLED'' of
                     Some e \<Rightarrow> (case as_bool (se_value e) of Some b \<Rightarrow> b | None \<Rightarrow> True)
                   | None \<Rightarrow> True)))"

definition kind_names :: "unit_kind \<Rightarrow> string \<times> string" where
  "kind_names k =
     (case k of KFlow \<Rightarrow> (''flow'', ''.vjs'') | KConnector \<Rightarrow> (''connector'', ''.vjs'')
      | KDetect \<Rightarrow> (''detect'', ''.vpl''))"

definition unit_name :: "string \<Rightarrow> string \<Rightarrow> string \<Rightarrow> string" where
  "unit_name prefix pkg stem =
     (if pkg = ''default'' then prefix @ '':'' @ stem else prefix @ '':'' @ pkg @ '':'' @ stem)"

definition scan_entry :: "(path \<Rightarrow> nat) \<Rightarrow> path \<Rightarrow> string \<Rightarrow> unit_kind \<Rightarrow> string \<Rightarrow> spec option" where
  "scan_entry mtime dir pkg k fname =
     (case kind_names k of (prefix, ext) \<Rightarrow>
        if \<not> valid_utf8 fname \<or> starts_with fname ''_'' \<or> \<not> ends_with fname ext then None
        else Some \<lparr>sp_name = unit_name prefix pkg (trim_end_matches fname ext), sp_path = dir @ [fname],
               sp_pkg = pkg, sp_kind = k, sp_mtime = mtime (dir @ [fname])\<rparr>)"

definition scan_units :: "listing \<Rightarrow> (path \<Rightarrow> nat) \<Rightarrow> path \<Rightarrow> string \<Rightarrow> unit_kind \<Rightarrow> spec list" where
  "scan_units L mtime dir pkg k =
     (case L dir of None \<Rightarrow> [] | Some names \<Rightarrow> List.map_filter (scan_entry mtime dir pkg k) names)"

definition scan_three :: "listing \<Rightarrow> (path \<Rightarrow> nat) \<Rightarrow> path \<Rightarrow> string \<Rightarrow> spec list" where
  "scan_three L mtime dir pkg =
     scan_units L mtime (dir @ [''flows'']) pkg KFlow @
     scan_units L mtime (dir @ [''connectors'']) pkg KConnector @
     scan_units L mtime (dir @ [''detects'']) pkg KDetect"

fun scan_packages ::
  "listing \<Rightarrow> (path \<Rightarrow> nat) \<Rightarrow> (path \<Rightarrow> string option) \<Rightarrow> path \<Rightarrow> string list \<Rightarrow> (spec list, 'e) result" where
  "scan_packages L mtime read dir [] = Ok []"
| "scan_packages L mtime read dir (pkg # pkgs) =
     (let d = dir @ [''packages'', pkg] in
      if L d = None then scan_packages L mtime read dir pkgs
      else rbind (package_enabled read d) (\<lambda>on.
           rbind (scan_packages L mtime read dir pkgs) (\<lambda>rest.
             Ok ((if on then scan_three L mtime d (from_utf8_lossy pkg) else []) @ rest))))"

definition scan_all ::
  "listing \<Rightarrow> (path \<Rightarrow> nat) \<Rightarrow> (path \<Rightarrow> string option) \<Rightarrow> path \<Rightarrow> (spec list, 'e) result" where
  "scan_all L mtime read dir =
     rbind (scan_packages L mtime read dir (case L (dir @ [''packages'']) of Some ps \<Rightarrow> ps | None \<Rightarrow> []))
       (\<lambda>pk. Ok (sort_key sp_name (scan_three L mtime dir ''default'' @ pk)))"

section \<open>The registry\<close>

text \<open>
  Every handle ever started is kept with its stop flag, since a thread holds its own; the map
  gives the one registered under a name.
\<close>

record handle =
  hd_spec :: spec
  hd_state :: proc_state
  hd_stop :: bool

record registry =
  rg_threads :: "handle list"
  rg_current :: "nat omap"

definition no_units :: registry where
  "no_units = \<lparr>rg_threads = [], rg_current = []\<rparr>"

text \<open>\<open>spawn\<close> gives the error of starting a thread, if any.\<close>

definition start_proc :: "(spec \<Rightarrow> string option) \<Rightarrow> spec \<Rightarrow> registry \<Rightarrow> registry" where
  "start_proc spawn sp R =
     \<lparr>rg_threads = rg_threads R @
        [\<lparr>hd_spec = sp,
          hd_state = (case spawn sp of
             None \<Rightarrow> \<lparr>ps_status = ''starting'', ps_restarts = 0, ps_started_at = None, ps_last_error = None\<rparr>
           | Some e \<Rightarrow> \<lparr>ps_status = ''failed'', ps_restarts = 0, ps_started_at = None,
                        ps_last_error = Some (''cannot start its thread: '' @ e)\<rparr>),
          hd_stop = False\<rparr>],
      rg_current = om_insert (sp_name sp) (length (rg_threads R)) (rg_current R)\<rparr>"

definition stop_thread :: "nat \<Rightarrow> registry \<Rightarrow> registry" where
  "stop_thread i R = R\<lparr>rg_threads := (rg_threads R)[i := (rg_threads R ! i)\<lparr>hd_stop := True\<rparr>]\<rparr>"

definition stop_named :: "string \<Rightarrow> registry \<Rightarrow> registry" where
  "stop_named name R = (case om_get (rg_current R) name of Some i \<Rightarrow> stop_thread i R | None \<Rightarrow> R)"

definition restart_unit :: "(spec \<Rightarrow> string option) \<Rightarrow> spec list \<Rightarrow> string \<Rightarrow> registry \<Rightarrow> bool \<times> registry" where
  "restart_unit spawn specs name R =
     (case List.find (\<lambda>s. sp_name s = name) specs of
        None \<Rightarrow> (False, R)
      | Some sp \<Rightarrow> (True, start_proc spawn sp (stop_named name R)))"

text \<open>\<open>reload\<close>: first what is no longer wanted stops, then what is new, stopped or changed starts.\<close>

fun stop_removed :: "(string \<Rightarrow> bool) \<Rightarrow> (string \<times> nat) list \<Rightarrow> nat \<Rightarrow> registry \<Rightarrow> nat \<times> registry" where
  "stop_removed wanted [] n R = (n, R)"
| "stop_removed wanted ((name, i) # rest) n R =
     (if \<not> wanted name \<and> \<not> hd_stop (rg_threads R ! i)
      then stop_removed wanted rest (n + 1) (stop_thread i R)
      else stop_removed wanted rest n R)"

definition snapshot :: "registry \<Rightarrow> string \<Rightarrow> (bool \<times> nat) option" where
  "snapshot R name =
     map_option (\<lambda>i. (hd_stop (rg_threads R ! i), sp_mtime (hd_spec (rg_threads R ! i)))) (om_get (rg_current R) name)"

fun start_wanted ::
  "(spec \<Rightarrow> string option) \<Rightarrow> (string \<Rightarrow> (bool \<times> nat) option) \<Rightarrow> (string \<times> spec) list \<Rightarrow> nat \<Rightarrow> nat \<Rightarrow> registry \<Rightarrow>
     nat \<times> nat \<times> registry" where
  "start_wanted spawn snap [] started stopped R = (started, stopped, R)"
| "start_wanted spawn snap ((name, sp) # rest) started stopped R =
     (case snap name of
        None \<Rightarrow> start_wanted spawn snap rest (started + 1) stopped (start_proc spawn sp R)
      | Some (halted, old) \<Rightarrow>
          if halted then start_wanted spawn snap rest (started + 1) stopped (start_proc spawn sp R)
          else if old \<noteq> sp_mtime sp then
            start_wanted spawn snap rest (started + 1) (stopped + 1) (start_proc spawn sp (stop_named name R))
          else start_wanted spawn snap rest started stopped R)"

definition wanted_units :: "spec list \<Rightarrow> spec omap" where
  "wanted_units specs = om_of_list (map (\<lambda>s. (sp_name s, s)) specs)"

definition reload :: "(spec \<Rightarrow> string option) \<Rightarrow> spec list \<Rightarrow> registry \<Rightarrow> (nat \<times> nat \<times> nat) \<times> registry" where
  "reload spawn specs R =
     (let wanted = wanted_units specs in
      case stop_removed (\<lambda>n. om_get wanted n \<noteq> None) (rg_current R) 0 R of
        (stopped, R1) \<Rightarrow>
          (case start_wanted spawn (snapshot R1) wanted 0 stopped R1 of
             (started, stopped', R2) \<Rightarrow> ((length wanted, started, stopped'), R2)))"

text \<open>
  \<open>set_secret\<close>: the secret is written, its rotation request is cleared, and every unit whose file
  refers to it restarts. The state is the file system, the rotation requests and the registry.
\<close>

definition fs_text :: "fs \<Rightarrow> path \<Rightarrow> string option" where
  "fs_text fs p = (case fs p of Content s \<Rightarrow> Some s | _ \<Rightarrow> None)"

definition refers_to :: "(path \<Rightarrow> string option) \<Rightarrow> string \<Rightarrow> spec \<Rightarrow> (bool, string) result" where
  "refers_to read reference sp =
     (case read (sp_path sp) of
        None \<Rightarrow> Ok False
      | Some src \<Rightarrow>
          (case parse src of
             Panic \<Rightarrow> Panic
           | Err _ \<Rightarrow> Ok False
           | Ok prog \<Rightarrow> Ok (\<exists>vr \<in> set (pg_secret_refs prog). snd vr = reference)))"

fun restart_users ::
  "(spec \<Rightarrow> string option) \<Rightarrow> (path \<Rightarrow> string option) \<Rightarrow> string \<Rightarrow> spec list \<Rightarrow> spec list \<Rightarrow>
     (registry, string list, string) stm" where
  "restart_users spawn read reference specs [] R = (Ok [], R)"
| "restart_users spawn read reference specs (sp # todo) R =
     (case refers_to read reference sp of
        Panic \<Rightarrow> (Panic, R)
      | Err e \<Rightarrow> (Err e, R)
      | Ok False \<Rightarrow> restart_users spawn read reference specs todo R
      | Ok True \<Rightarrow>
          (case restart_unit spawn specs (sp_name sp) R of (done, R1) \<Rightarrow>
             (case restart_users spawn read reference specs todo R1 of
                (Ok names, R2) \<Rightarrow> (Ok (if done then sp_name sp # names else names), R2)
              | (r, R2) \<Rightarrow> (r, R2))))"

definition set_secret ::
  "host \<Rightarrow> (json \<Rightarrow> string) \<Rightarrow> (spec \<Rightarrow> string option) \<Rightarrow> listing \<Rightarrow> (path \<Rightarrow> nat) \<Rightarrow> path \<Rightarrow> string \<Rightarrow> string \<Rightarrow>
     (fs \<times> string set \<times> registry, string list, string) stm" where
  "set_secret H to_json spawn L mtime dir reference value = (\<lambda>(fs, rot, R).
     (case store_set H to_json (default_store (h_env H)) reference value fs of
        (Err e, fs1) \<Rightarrow> (Err e, (fs1, rot, R))
      | (Panic, fs1) \<Rightarrow> (Panic, (fs1, rot, R))
      | (Ok _, fs1) \<Rightarrow>
          (let rot1 = rot - {reference} in
           case scan_all L mtime (fs_text fs1) dir of
             Err e \<Rightarrow> (Err e, (fs1, rot1, R))
           | Panic \<Rightarrow> (Panic, (fs1, rot1, R))
           | Ok specs \<Rightarrow>
               (case restart_users spawn (fs_text fs1) reference specs specs R of
                  (r, R1) \<Rightarrow> (r, (fs1, rot1, R1))))))"

text \<open>A change of version in the store restarts the unit whose key it is.\<close>

definition version_changed :: "(spec \<Rightarrow> string option) \<Rightarrow> spec list \<Rightarrow> string \<Rightarrow> registry \<Rightarrow> registry" where
  "version_changed spawn specs key R =
     (case List.find (\<lambda>n. key_of n = key) (map fst (rg_current R)) of
        Some name \<Rightarrow> snd (restart_unit spawn specs name R)
      | None \<Rightarrow> R)"

section \<open>Facts\<close>

text \<open>
  The invariant: a name is registered to a thread of its own unit, and a thread that is not told
  to stop is the one registered under its name, so that no unit has two.
\<close>

definition reg_inv :: "registry \<Rightarrow> bool" where
  "reg_inv R \<longleftrightarrow>
     om_wf (rg_current R) \<and>
     (\<forall>name i. om_get (rg_current R) name = Some i \<longrightarrow>
        i < length (rg_threads R) \<and> sp_name (hd_spec (rg_threads R ! i)) = name) \<and>
     (\<forall>i < length (rg_threads R). \<not> hd_stop (rg_threads R ! i) \<longrightarrow>
        om_get (rg_current R) (sp_name (hd_spec (rg_threads R ! i))) = Some i)"

text \<open>The abstract registry: the unit that runs under each name.\<close>

definition live_units :: "registry \<Rightarrow> string \<Rightarrow> spec option" where
  "live_units R name =
     (case om_get (rg_current R) name of
        Some i \<Rightarrow> if hd_stop (rg_threads R ! i) then None else Some (hd_spec (rg_threads R ! i))
      | None \<Rightarrow> None)"

lemma reg_invD:
  assumes "reg_inv R" and "om_get (rg_current R) name = Some i"
  shows "i < length (rg_threads R)" and "sp_name (hd_spec (rg_threads R ! i)) = name"
  using assms by (auto simp: reg_inv_def)

lemma reg_inv_live:
  assumes "reg_inv R" and "i < length (rg_threads R)" and "\<not> hd_stop (rg_threads R ! i)"
  shows "om_get (rg_current R) (sp_name (hd_spec (rg_threads R ! i))) = Some i"
  using assms by (auto simp: reg_inv_def)

lemma no_units_inv: "reg_inv no_units" "live_units no_units = Map.empty"
  by (auto simp: reg_inv_def no_units_def live_units_def)

lemma live_units_stop_thread:
  assumes inv: "reg_inv R" and i: "om_get (rg_current R) name = Some i"
  shows "live_units (stop_thread i R) n = ((live_units R)(name := None)) n"
proof (cases "om_get (rg_current R) n")
  case None
  then show ?thesis by (simp add: live_units_def stop_thread_def)
next
  case (Some j)
  have "i = j \<longleftrightarrow> n = name"
    using reg_invD(2) [OF inv Some] reg_invD(2) [OF inv i] Some i
    by (metis option.inject)
  then show ?thesis
    using Some reg_invD(1) [OF inv i] reg_invD(1) [OF inv Some]
    by (simp add: live_units_def stop_thread_def nth_list_update)
qed

lemma stop_thread_inv:
  assumes inv: "reg_inv R" and i: "om_get (rg_current R) name = Some i"
  shows "reg_inv (stop_thread i R)" and "live_units (stop_thread i R) = (live_units R)(name := None)"
proof -
  show "reg_inv (stop_thread i R)"
    using inv reg_invD(1) [OF inv i]
    by (simp add: reg_inv_def stop_thread_def nth_list_update)
  show "live_units (stop_thread i R) = (live_units R)(name := None)"
    by (rule ext) (rule live_units_stop_thread [OF inv i])
qed

lemma stop_named_inv:
  assumes inv: "reg_inv R"
  shows "reg_inv (stop_named name R)" and "live_units (stop_named name R) = (live_units R)(name := None)"
proof -
  have "reg_inv (stop_named name R) \<and> live_units (stop_named name R) = (live_units R)(name := None)"
  proof (cases "om_get (rg_current R) name")
    case None
    then have "live_units R name = None" by (simp add: live_units_def)
    then show ?thesis using inv None by (simp add: stop_named_def fun_upd_idem)
  next
    case (Some i)
    then show ?thesis using stop_thread_inv [OF inv Some] by (simp add: stop_named_def)
  qed
  then show "reg_inv (stop_named name R)" and "live_units (stop_named name R) = (live_units R)(name := None)"
    by auto
qed

lemma start_proc_inv:
  assumes inv: "reg_inv R" and dead: "live_units R (sp_name sp) = None"
  shows "reg_inv (start_proc spawn sp R)"
    and "live_units (start_proc spawn sp R) = (live_units R)(sp_name sp \<mapsto> sp)"
proof -
  have old: "i < length (rg_threads R)" if "om_get (rg_current R) n = Some i" for n i
    using reg_invD(1) [OF inv that] .
  have stopped: "hd_stop (rg_threads R ! i)"
    if "i < length (rg_threads R)" and "sp_name (hd_spec (rg_threads R ! i)) = sp_name sp" for i
  proof (rule ccontr)
    assume "\<not> hd_stop (rg_threads R ! i)"
    with reg_inv_live [OF inv that(1)] that(2) dead show False
      by (simp add: live_units_def)
  qed
  show "reg_inv (start_proc spawn sp R)"
    using inv stopped unfolding reg_inv_def start_proc_def
    by (auto simp: om_get_insert nth_append less_Suc_eq split: if_splits)
  show "live_units (start_proc spawn sp R) = (live_units R)(sp_name sp \<mapsto> sp)"
    using old by (auto simp: live_units_def start_proc_def om_get_insert nth_append fun_eq_iff split: option.split)
qed

lemma snapshot_live:
  "live_units R n =
     (case snapshot R n of Some (False, _) \<Rightarrow> Some (hd_spec (rg_threads R ! the (om_get (rg_current R) n))) | _ \<Rightarrow> None)"
  by (auto simp: snapshot_def live_units_def split: option.split bool.split)

lemma snapshot_mtime: "snapshot R n = Some (False, m) \<longleftrightarrow> (\<exists>s. live_units R n = Some s \<and> sp_mtime s = m)"
  by (auto simp: snapshot_def live_units_def split: option.split)

lemma snapshot_start_proc:
  assumes "reg_inv R" and "n \<noteq> sp_name sp"
  shows "snapshot (start_proc spawn sp R) n = snapshot R n"
  using assms reg_invD(1) [OF assms(1), of n]
  by (cases "om_get (rg_current R) n") (auto simp: snapshot_def start_proc_def om_get_insert nth_append)

lemma snapshot_stop_named:
  assumes inv: "reg_inv R" and other: "n \<noteq> name"
  shows "snapshot (stop_named name R) n = snapshot R n"
proof (cases "om_get (rg_current R) name")
  case None
  then show ?thesis by (simp add: stop_named_def)
next
  case (Some i)
  have "j \<noteq> i" if "om_get (rg_current R) n = Some j" for j
    using reg_invD(2) [OF inv that] reg_invD(2) [OF inv Some] other by auto
  then show ?thesis using Some
    by (cases "om_get (rg_current R) n") (auto simp: snapshot_def stop_named_def stop_thread_def)
qed

lemma stop_removed_live:
  assumes "reg_inv R" and "\<forall>(n, i) \<in> set l. om_get (rg_current R) n = Some i"
    and "stop_removed w l k R = (k', R')"
  shows "reg_inv R'" and "live_units R' = (\<lambda>n. if n \<in> fst ` set l \<and> \<not> w n then None else live_units R n)"
proof -
  have "reg_inv R' \<and> live_units R' = (\<lambda>n. if n \<in> fst ` set l \<and> \<not> w n then None else live_units R n)"
    using assms
  proof (induction w l k R rule: stop_removed.induct)
    case (1 w k R)
    then show ?case by simp
  next
    case (2 w name i rest k R)
    have i: "om_get (rg_current R) name = Some i" using 2(4) by simp
    show ?case
    proof (cases "\<not> w name \<and> \<not> hd_stop (rg_threads R ! i)")
      case True
      have "reg_inv R' \<and>
          live_units R' = (\<lambda>n. if n \<in> fst ` set rest \<and> \<not> w n then None else live_units (stop_thread i R) n)"
        using 2(1) [OF True stop_thread_inv(1) [OF 2(3) i]] 2(4,5) True by (simp add: stop_thread_def)
      then show ?thesis
        using True by (auto simp: stop_thread_inv(2) [OF 2(3) i] fun_eq_iff)
    next
      case False
      then have "live_units R name = None" if "\<not> w name" using that i by (simp add: live_units_def)
      then show ?thesis
        using 2(2) [OF False 2(3)] 2(4,5) False by (auto simp: fun_eq_iff)
    qed
  qed
  then show "reg_inv R'" and "live_units R' = (\<lambda>n. if n \<in> fst ` set l \<and> \<not> w n then None else live_units R n)"
    by auto
qed

text \<open>What a reload keeps of a unit that runs already: an unchanged file keeps its thread.\<close>

definition kept :: "spec option \<Rightarrow> spec \<Rightarrow> spec" where
  "kept old s = (case old of Some s0 \<Rightarrow> if sp_mtime s0 = sp_mtime s then s0 else s | None \<Rightarrow> s)"

lemma start_wanted_step:
  assumes inv: "reg_inv R" and name: "sp_name sp = name" and snap: "snap name = snapshot R name"
  obtains a1 b1 R1 where
    "start_wanted spawn snap ((name, sp) # rest) a b R = start_wanted spawn snap rest a1 b1 R1"
    "reg_inv R1" "live_units R1 = (live_units R)(name \<mapsto> kept (live_units R name) sp)"
    "\<And>n. n \<noteq> name \<Longrightarrow> snapshot R1 n = snapshot R n"
proof -
  consider (same) s0 where "snap name = Some (False, sp_mtime sp)" "live_units R name = Some s0" "sp_mtime s0 = sp_mtime sp"
    | (changed) s0 where "snap name = Some (False, sp_mtime s0)" "live_units R name = Some s0" "sp_mtime s0 \<noteq> sp_mtime sp"
    | (halted) "snap name = None \<or> (\<exists>m. snap name = Some (True, m))" "live_units R name = None"
    using snap by (cases "live_units R name"; cases "om_get (rg_current R) name")
      (auto simp: snapshot_def live_units_def split: if_splits)
  then show thesis
  proof cases
    case same
    show thesis by (rule that [of a b R]) (use same inv in \<open>auto simp: kept_def fun_upd_idem\<close>)
  next
    case changed
    have inv': "reg_inv (stop_named name R)" using inv by (rule stop_named_inv)
    have dead: "live_units (stop_named name R) (sp_name sp) = None" using inv name by (simp add: stop_named_inv)
    show thesis
      by (rule that [of "a + 1" "b + 1" "start_proc spawn sp (stop_named name R)"])
        (use changed inv name start_proc_inv [OF inv' dead, of spawn] inv' in
          \<open>auto simp: kept_def snapshot_start_proc snapshot_stop_named stop_named_inv\<close>)
  next
    case halted
    have dead: "live_units R (sp_name sp) = None" using halted name by simp
    show thesis
      by (rule that [of "a + 1" b "start_proc spawn sp R"])
        (use halted inv name start_proc_inv [OF inv dead, of spawn] in \<open>auto simp: kept_def snapshot_start_proc\<close>)
  qed
qed

lemma start_wanted_live:
  assumes "reg_inv R" and "distinct (map fst l)" and "\<forall>(n, s) \<in> set l. sp_name s = n"
    and "\<forall>(n, s) \<in> set l. snap n = snapshot R n"
    and "start_wanted spawn snap l a b R = (a', b', R')"
  shows "reg_inv R' \<and>
    live_units R' = (\<lambda>n. case map_of l n of Some s \<Rightarrow> Some (kept (live_units R n) s) | None \<Rightarrow> live_units R n)"
  using assms
proof (induction l arbitrary: a b R)
  case Nil
  then show ?case by simp
next
  case (Cons x rest)
  obtain name sp where x: "x = (name, sp)" by (cases x)
  have fresh: "name \<notin> fst ` set rest" using Cons.prems(2) x by simp
  have "sp_name sp = name" and "snap name = snapshot R name" using Cons.prems(3,4) x by auto
  from start_wanted_step [where rest = rest and a = a and b = b and spawn = spawn and snap = snap, OF Cons.prems(1) this]
  obtain a1 b1 R1 where st: "start_wanted spawn snap (x # rest) a b R = start_wanted spawn snap rest a1 b1 R1"
    and R1: "reg_inv R1" "live_units R1 = (live_units R)(name \<mapsto> kept (live_units R name) sp)"
    and keep: "\<And>n. n \<noteq> name \<Longrightarrow> snapshot R1 n = snapshot R n"
    unfolding x by blast
  have "\<forall>(n, s) \<in> set rest. snap n = snapshot R1 n"
  proof clarify
    fix n s assume mem: "(n, s) \<in> set rest"
    then have "n \<noteq> name" using fresh by (auto intro: rev_image_eqI)
    moreover have "snap n = snapshot R n" using Cons.prems(4) mem by auto
    ultimately show "snap n = snapshot R1 n" using keep by simp
  qed
  then have "reg_inv R' \<and> live_units R' =
      (\<lambda>n. case map_of rest n of Some s \<Rightarrow> Some (kept (live_units R1 n) s) | None \<Rightarrow> live_units R1 n)"
    using Cons.IH [OF R1(1)] Cons.prems(2,3,5) st by simp
  moreover have "map_of rest name = None" using fresh by (simp add: map_of_eq_None_iff)
  ultimately show ?case
    using R1(2) x by (auto simp: fun_eq_iff split: option.split)
qed

lemma om_get_map_of: "om_get m = map_of m"
  by (rule ext, induct_tac m) auto

lemma wanted_units_wf: "om_wf (wanted_units specs)"
  by (simp add: wanted_units_def)

lemma om_wf_distinct: "om_wf m \<Longrightarrow> distinct (map fst m)"
  by (simp add: om_wf_def strict_sorted_iff)

lemma om_get_mem: "om_wf m \<Longrightarrow> (k, v) \<in> set m \<longleftrightarrow> om_get m k = Some v"
  by (metis om_get_map_of om_wf_distinct map_of_eq_Some_iff)

lemma wanted_units_name: "om_get (wanted_units specs) n = Some s \<Longrightarrow> sp_name s = n \<and> s \<in> set specs"
  by (auto simp: wanted_units_def om_get_insert_all dest!: map_of_SomeD split: option.splits)

lemma reload_live:
  assumes inv: "reg_inv R" and rl: "reload spawn specs R = (counts, R')"
  shows "reg_inv R'"
    and "live_units R' = (\<lambda>n. map_option (kept (live_units R n)) (om_get (wanted_units specs) n))"
proof -
  let ?w = "wanted_units specs"
  obtain k R1 where sr: "stop_removed (\<lambda>n. om_get ?w n \<noteq> None) (rg_current R) 0 R = (k, R1)"
    by (metis surj_pair)
  obtain a b where sw: "start_wanted spawn (snapshot R1) ?w 0 k R1 = (a, b, R')"
    using rl sr by (auto simp: reload_def Let_def split: prod.splits)
  have cur: "\<forall>(n, i) \<in> set (rg_current R). om_get (rg_current R) n = Some i"
    using inv om_get_mem by (fastforce simp: reg_inv_def)
  note r1 = stop_removed_live [OF inv cur sr]
  have "reg_inv R' \<and> live_units R' =
      (\<lambda>n. case map_of ?w n of Some s \<Rightarrow> Some (kept (live_units R1 n) s) | None \<Rightarrow> live_units R1 n)"
    by (rule start_wanted_live [OF r1(1) om_wf_distinct [OF wanted_units_wf] _ _ sw])
      (use wanted_units_name om_get_mem [OF wanted_units_wf] in fastforce)+
  moreover have "live_units R n = None" if "n \<notin> fst ` set (rg_current R)" for n
    using that by (simp add: live_units_def flip: om_get_None_iff)
  ultimately show "reg_inv R'"
    and "live_units R' = (\<lambda>n. map_option (kept (live_units R n)) (om_get ?w n))"
    by (auto simp: r1(2) om_get_map_of fun_eq_iff split: option.split)
qed

section \<open>Registries as they come about\<close>

inductive reaches :: "registry \<Rightarrow> bool" where
  start: "reaches no_units"
| reload: "reaches R \<Longrightarrow> reaches (snd (reload spawn specs R))"
| restart: "reaches R \<Longrightarrow> reaches (snd (restart_unit spawn specs name R))"

lemma restart_unit_inv:
  assumes inv: "reg_inv R" and rs: "restart_unit spawn specs name R = (done, R')"
  shows "reg_inv R'"
    and "live_units R' =
      (case List.find (\<lambda>s. sp_name s = name) specs of Some sp \<Rightarrow> (live_units R)(name \<mapsto> sp) | None \<Rightarrow> live_units R)"
proof -
  have "reg_inv R' \<and> live_units R' =
      (case List.find (\<lambda>s. sp_name s = name) specs of Some sp \<Rightarrow> (live_units R)(name \<mapsto> sp) | None \<Rightarrow> live_units R)"
  proof (cases "List.find (\<lambda>s. sp_name s = name) specs")
    case None
    then show ?thesis using rs inv by (simp add: restart_unit_def)
  next
    case (Some sp)
    then have name: "sp_name sp = name" by (auto simp: find_Some_iff)
    have "live_units (stop_named name R) (sp_name sp) = None" using inv name by (simp add: stop_named_inv)
    from start_proc_inv [OF stop_named_inv(1) [OF inv] this, of spawn]
    show ?thesis using rs Some inv name by (auto simp: restart_unit_def stop_named_inv)
  qed
  then show "reg_inv R'" and "live_units R' =
      (case List.find (\<lambda>s. sp_name s = name) specs of Some sp \<Rightarrow> (live_units R)(name \<mapsto> sp) | None \<Rightarrow> live_units R)"
    by auto
qed

lemma reaches_inv: "reaches R \<Longrightarrow> reg_inv R"
proof (induction rule: reaches.induct)
  case start
  show ?case by (rule no_units_inv)
next
  case (reload R spawn specs)
  then show ?case using reload_live(1) by (metis prod.collapse)
next
  case (restart R spawn specs name)
  then show ?case using restart_unit_inv(1) by (metis prod.collapse)
qed

lemma version_changed_reaches: "reaches R \<Longrightarrow> reaches (version_changed spawn specs key R)"
  by (auto simp: version_changed_def intro: reaches.restart split: option.split)

lemma restart_users_reaches:
  "reaches R \<Longrightarrow> reaches (snd (restart_users spawn read reference specs todo R))"
proof (induction todo arbitrary: R)
  case (Cons sp todo)
  obtain ok R1 where r1: "restart_unit spawn specs (sp_name sp) R = (ok, R1)" by fastforce
  obtain r R2 where r2: "restart_users spawn read reference specs todo R1 = (r, R2)" by fastforce
  have "reaches R2"
    using Cons.IH [OF reaches.restart [OF Cons.prems, of spawn specs "sp_name sp"]] r1 r2 by simp
  then show ?case
    using Cons r1 r2 by (simp split: result.split bool.split)
qed simp

lemma live_same_name:
  assumes "reg_inv R" and "i < length (rg_threads R)" and "j < length (rg_threads R)"
    and "\<not> hd_stop (rg_threads R ! i)" and "\<not> hd_stop (rg_threads R ! j)"
    and "sp_name (hd_spec (rg_threads R ! i)) = sp_name (hd_spec (rg_threads R ! j))"
  shows "i = j"
  using reg_inv_live [OF assms(1,2,4)] reg_inv_live [OF assms(1,3,5)] assms(6)
  by (metis option.inject)

text \<open>A reload with nothing to do.\<close>

lemma start_wanted_idle:
  assumes "\<forall>(n, s) \<in> set l. snap n = Some (False, sp_mtime s)"
  shows "start_wanted spawn snap l a b R = (a, b, R)"
  using assms by (induction l) auto

lemma stop_removed_idle:
  assumes "\<forall>(n, i) \<in> set l. w n \<or> hd_stop (rg_threads R ! i)"
  shows "stop_removed w l k R = (k, R)"
  using assms by (induction l) auto

lemma reload_idle:
  assumes inv: "reg_inv R"
    and up: "\<And>n. map_option sp_mtime (live_units R n) = map_option sp_mtime (om_get (wanted_units specs) n)"
  shows "reload spawn specs R = ((length (wanted_units specs), 0, 0), R)"
proof -
  have "om_get (wanted_units specs) n \<noteq> None \<or> hd_stop (rg_threads R ! i)" if "(n, i) \<in> set (rg_current R)" for n i
  proof -
    have "om_get (rg_current R) n = Some i" using that inv by (simp add: reg_inv_def om_get_mem)
    then show ?thesis
      using up [of n] by (cases "om_get (wanted_units specs) n") (auto simp: live_units_def split: if_splits)
  qed
  then have "stop_removed (\<lambda>n. om_get (wanted_units specs) n \<noteq> None) (rg_current R) 0 R = (0, R)"
    by (intro stop_removed_idle) auto
  moreover have "snapshot R n = Some (False, sp_mtime s)" if "(n, s) \<in> set (wanted_units specs)" for n s
    using up [of n] that by (auto simp: snapshot_mtime om_get_mem [OF wanted_units_wf])
  then have "start_wanted spawn (snapshot R) (wanted_units specs) 0 0 R = (0, 0, R)"
    by (intro start_wanted_idle) auto
  ultimately show ?thesis by (simp add: reload_def)
qed

lemma restart_unit_threads:
  assumes "sp \<in> set specs" and "reg_inv R" and "restart_unit spawn specs (sp_name sp) R = (done, R')"
  shows "done" and "length (rg_threads R') = Suc (length (rg_threads R))"
    and "om_get (rg_current R') (sp_name sp) = Some (length (rg_threads R))"
    and "n \<noteq> sp_name sp \<Longrightarrow> om_get (rg_current R') n = om_get (rg_current R) n"
proof -
  obtain s where s: "List.find (\<lambda>s. sp_name s = sp_name sp) specs = Some s"
    using assms(1) by (cases "List.find (\<lambda>s. sp_name s = sp_name sp) specs") (auto simp: find_None_iff)
  then have "sp_name s = sp_name sp" by (auto simp: find_Some_iff)
  moreover have "length (rg_threads (stop_named n R)) = length (rg_threads R)"
      "rg_current (stop_named n R) = rg_current R" for n
    by (auto simp: stop_named_def stop_thread_def split: option.split)
  ultimately show "done" and "length (rg_threads R') = Suc (length (rg_threads R))"
    and "om_get (rg_current R') (sp_name sp) = Some (length (rg_threads R))"
    and "n \<noteq> sp_name sp \<Longrightarrow> om_get (rg_current R') n = om_get (rg_current R) n"
    using assms(3) s by (auto simp: restart_unit_def start_proc_def om_get_insert)
qed

lemma restart_users_fresh:
  assumes "reaches R" and "set todo \<subseteq> set specs"
    and "restart_users spawn read reference specs todo R = (Ok names, R')"
  shows "names = map sp_name (filter (\<lambda>s. refers_to read reference s = Ok True) todo) \<and>
    length (rg_threads R) \<le> length (rg_threads R') \<and>
    (\<forall>n. if n \<in> set names then \<exists>i \<ge> length (rg_threads R). om_get (rg_current R') n = Some i
         else om_get (rg_current R') n = om_get (rg_current R) n)"
  using assms
proof (induction todo arbitrary: R names)
  case (Cons sp todo)
  show ?case
  proof (cases "refers_to read reference sp = Ok True")
    case True
    obtain ok R1 where r1: "restart_unit spawn specs (sp_name sp) R = (ok, R1)" by fastforce
    obtain ns where ns: "restart_users spawn read reference specs todo R1 = (Ok ns, R')"
        "names = (if ok then sp_name sp # ns else ns)"
      using Cons.prems(3) True r1 by (auto split: result.splits prod.splits)
    have mem: "sp \<in> set specs" using Cons.prems(2) by simp
    note t = restart_unit_threads [OF mem reaches_inv [OF Cons.prems(1)] r1]
    have "reaches R1" using reaches.restart [OF Cons.prems(1), of spawn specs "sp_name sp"] r1 by simp
    with Cons.IH [OF this _ ns(1)] Cons.prems(2)
    have ih: "ns = map sp_name (filter (\<lambda>s. refers_to read reference s = Ok True) todo)"
        "length (rg_threads R1) \<le> length (rg_threads R')"
      and all: "n \<in> set ns \<Longrightarrow> \<exists>i \<ge> length (rg_threads R1). om_get (rg_current R') n = Some i"
        "n \<notin> set ns \<Longrightarrow> om_get (rg_current R') n = om_get (rg_current R1) n" for n
      by (auto split: if_splits)
    have names: "names = sp_name sp # ns" using ns(2) t(1) by simp
    have "\<exists>i \<ge> length (rg_threads R). om_get (rg_current R') n = Some i" if "n \<in> set names" for n
      using that names all [of n] t(2,3) by (cases "n \<in> set ns") (auto dest: Suc_leD)
    moreover have "om_get (rg_current R') n = om_get (rg_current R) n" if "n \<notin> set names" for n
      using that names all(2) [of n] t(4) [of n] by simp
    ultimately show ?thesis using True names ih t(2) by simp
  next
    case False
    then show ?thesis
      using Cons by (auto simp: refers_to_def split: result.splits option.splits bool.splits)
  qed
qed simp

section \<open>Properties\<close>


definition sample_unit :: "string \<Rightarrow> nat \<Rightarrow> spec" where
  "sample_unit stem t =
     \<lparr>sp_name = ''flow:'' @ stem, sp_path = [''flows'', stem @ ''.vjs''], sp_pkg = ''default'',
      sp_kind = KFlow, sp_mtime = t\<rparr>"

definition sample_registry :: registry where
  "sample_registry = snd (reload (\<lambda>_. None) [sample_unit ''a'' 1, sample_unit ''b'' 1, sample_unit ''c'' 1] no_units)"

lemma sample_registry_reaches: "reaches sample_registry"
  unfolding sample_registry_def by (intro reaches.intros)


text \<open>
  (C26) A unit never has two supervisors: of all the threads ever started, at most one with a
  given unit name has not been told to stop, whatever reloads and restarts ran one after the
  other.
\<close>

theorem one_supervisor_per_unit:
  assumes "reaches R" and "i < length (rg_threads R)" and "j < length (rg_threads R)"
    and "\<not> hd_stop (rg_threads R ! i)" and "\<not> hd_stop (rg_threads R ! j)"
    and "sp_name (hd_spec (rg_threads R ! i)) = sp_name (hd_spec (rg_threads R ! j))"
  shows "i = j"
  using live_same_name [OF reaches_inv [OF assms(1)] assms(2-)] .

theorem one_supervisor_per_unit_witness:
  "let R = snd (restart_unit (\<lambda>_. None) [sample_unit ''a'' 5] ''flow:a'' sample_registry) in
   length (rg_threads R) = 4 \<and>
   \<not> (\<not> hd_stop (rg_threads R ! 0) \<and> sp_name (hd_spec (rg_threads R ! 0)) = sp_name (hd_spec (rg_threads R ! 3)))"
proof -
  let ?R = "snd (restart_unit (\<lambda>_. None) [sample_unit ''a'' 5] ''flow:a'' sample_registry)"
  have "length (rg_threads ?R) = 4" and "\<not> hd_stop (rg_threads ?R ! 3)" by code_simp+
  moreover have "reaches ?R" by (intro reaches.restart sample_registry_reaches)
  ultimately show ?thesis
    using one_supervisor_per_unit [of ?R 0 3] by (auto simp: Let_def)
qed

text \<open>
  Setting a secret restarts exactly the units whose file refers to it: each of them is
  registered with a thread started after the secret was written, every other unit keeps the
  thread it has, and the request to rotate the secret is gone.
\<close>

theorem set_secret_restarts_its_users:
  assumes "reaches R"
    and "set_secret H to_json spawn L mtime dir reference value (fs, rot, R) = (Ok names, (fs1, rot1, R1))"
  shows "\<exists>specs. scan_all L mtime (fs_text fs1) dir = (Ok specs :: (spec list, string) result) \<and>
      names = map sp_name (filter (\<lambda>s. refers_to (fs_text fs1) reference s = Ok True) specs) \<and>
      reference \<notin> rot1 \<and>
      (\<forall>n. if n \<in> set names then \<exists>i \<ge> length (rg_threads R). om_get (rg_current R1) n = Some i
           else om_get (rg_current R1) n = om_get (rg_current R) n)"
proof -
  obtain specs where sc: "scan_all L mtime (fs_text fs1) dir = (Ok specs :: (spec list, string) result)"
    and ru: "restart_users spawn (fs_text fs1) reference specs specs R = (Ok names, R1)" and rot: "reference \<notin> rot1"
    using assms(2) by (auto simp: set_secret_def Let_def split: prod.splits result.splits)
  show ?thesis
    using restart_users_fresh [OF assms(1) subset_refl ru] sc rot by auto
qed

definition sample_host :: host where
  "sample_host =
     \<lparr>h_env = [''VEJAS_SECRETS_FILE'' \<mapsto> ''secrets.json''],
      h_os = \<lparr>os_write_tmp = None, os_rename = None, os_write_in_place = None,
              os_print = (\<lambda>_. ''{}''), os_parse = (\<lambda>_. Some (VObject []))\<rparr>,
      h_http = (\<lambda>_ _ _ _. Err ''offline'')\<rparr>"

definition sample_files :: fs where
  "sample_files = (\<lambda>p.
     if p = [''flows'', ''a.vjs''] then Content (''TOKEN = secret('' @ [CHR 0x22] @ ''api'' @ [CHR 0x22] @ '')'')
     else if p = [''flows'', ''b.vjs''] then Content ''X = 1'' else Missing)"

definition sample_listing :: listing where
  "sample_listing = [[''flows''] \<mapsto> [''b.vjs'', ''a.vjs'', ''_draft.vjs'']]"

theorem set_secret_restarts_its_users_witness:
  "let r = set_secret sample_host (\<lambda>_. []) (\<lambda>_. None) sample_listing (\<lambda>_. 7) [] ''api'' ''s3cret''
         (sample_files, {''api'', ''other''}, sample_registry) in
   fst r = Ok [''flow:a''] \<and> ''api'' \<notin> fst (snd (snd r)) \<and>
   om_get (rg_current (snd (snd (snd r)))) ''flow:b'' = om_get (rg_current sample_registry) ''flow:b''"
proof -
  define r where "r = set_secret sample_host (\<lambda>_. []) (\<lambda>_. None) sample_listing (\<lambda>_. 7) [] ''api'' ''s3cret''
         (sample_files, {''api'', ''other''}, sample_registry)"
  have ok: "fst r = Ok [''flow:a'']" unfolding r_def by code_simp
  then have "set_secret sample_host (\<lambda>_. []) (\<lambda>_. None) sample_listing (\<lambda>_. 7) [] ''api'' ''s3cret''
         (sample_files, {''api'', ''other''}, sample_registry) =
       (Ok [''flow:a''], (fst (snd r), fst (snd (snd r)), snd (snd (snd r))))"
    by (simp add: r_def prod_eq_iff)
  from set_secret_restarts_its_users [OF sample_registry_reaches this]
  have "''api'' \<notin> fst (snd (snd r))"
    and "\<forall>n. n \<noteq> ''flow:a'' \<longrightarrow> om_get (rg_current (snd (snd (snd r)))) n = om_get (rg_current sample_registry) n"
    by (auto split: if_splits)
  then show ?thesis
    using ok unfolding r_def [symmetric] Let_def by simp
qed

text \<open>
  Calls that overlap do not keep the invariant: the registry is unlocked between telling the old
  thread to stop and registering the new one, so two restarts of one unit whose first halves both
  run before their second halves leave two threads of it running.
\<close>

lemma overlapping_restarts_leave_two_supervisors:
  assumes "R' = start_proc spawn sp (start_proc spawn sp (stop_named (sp_name sp) (stop_named (sp_name sp) R)))"
  shows "\<exists>i j. i \<noteq> j \<and> i < length (rg_threads R') \<and> j < length (rg_threads R') \<and>
    rg_threads R' ! i = rg_threads R' ! j \<and> hd_spec (rg_threads R' ! i) = sp \<and> \<not> hd_stop (rg_threads R' ! i)"
proof -
  have "length (rg_threads (stop_named n R)) = length (rg_threads R)" for n R
    by (auto simp: stop_named_def stop_thread_def split: option.split)
  then show ?thesis
    by (intro exI [of _ "length (rg_threads R)"] exI [of _ "Suc (length (rg_threads R))"])
      (simp add: assms start_proc_def nth_append)
qed

end
