(* ===== verification/Provision.thy ===== *)
theory Provision
  imports Units
begin

text \<open>
  Provisioning, from \<open>core/src/main.rs\<close>: a package is made from a template directory whose files
  are rendered with parameters, checked, and written under \<open>packages/<slug>\<close>. The parameters land
  inside programs that are then run, so what they may contain is restricted.
\<close>

section \<open>What is allowed\<close>

definition valid_slug :: "string \<Rightarrow> bool" where
  "valid_slug s \<longleftrightarrow>
     s \<noteq> [] \<and> length s \<le> 64 \<and> is_ascii_lowercase (hd s) \<and>
     list_all (\<lambda>c. is_ascii_lowercase c \<or> is_ascii_digit c \<or> c = CHR ''_'') s"

definition valid_template_name :: "string \<Rightarrow> bool" where
  "valid_template_name s \<longleftrightarrow>
     s \<noteq> [] \<and> length s \<le> 64 \<and> list_all (\<lambda>c. is_ascii_alphanumeric c \<or> c = CHR ''-'' \<or> c = CHR ''_'') s"

definition valid_param_char :: "char \<Rightarrow> bool" where
  "valid_param_char c \<longleftrightarrow> is_ascii_alphanumeric c \<or> c \<in> set ''-_./:?=&%$@#+, ''"

definition valid_param_value :: "string \<Rightarrow> bool" where
  "valid_param_value s \<longleftrightarrow> length s \<le> 512 \<and> list_all valid_param_char s"

definition placeholder_char :: "char \<Rightarrow> bool" where
  "placeholder_char c \<longleftrightarrow> is_ascii_lowercase c \<or> is_ascii_digit c \<or> c = CHR ''_''"

datatype provision_error =
    PvTemplateName
  | PvSlug
  | PvParamName string
  | PvForbidden string
  | PvNotString string
  | PvUnknownTemplate string
  | PvExists string
  | PvEmpty string
  | PvRead string
  | PvMissing string
  | PvParse path perr
  | PvJson path
  | PvRender path provision_error
  | PvWrite string

section \<open>Rendering\<close>

definition placeholder :: "string \<Rightarrow> string" where
  "placeholder k = ''${'' @ k @ ''}''"

fun fill_params :: "(string \<times> json) list \<Rightarrow> string \<Rightarrow> (string, provision_error) result" where
  "fill_params [] out = Ok out"
| "fill_params ((k, v) # ps) out =
     (case as_str v of
        None \<Rightarrow> Err (PvNotString k)
      | Some s \<Rightarrow> fill_params ps (str_replace out (placeholder k) s))"

text \<open>The first placeholder that is left, if any.\<close>

function unfilled :: "string \<Rightarrow> string option" where
  "unfilled rest =
     (case str_find rest ''${'' of
        None \<Rightarrow> None
      | Some i \<Rightarrow>
          (let tail = drop (i + 2) rest in
           case str_find tail ''}'' of
             Some j \<Rightarrow>
               if take j tail \<noteq> [] \<and> list_all placeholder_char (take j tail) then Some (take j tail)
               else unfilled tail
           | None \<Rightarrow> unfilled tail))"
  by pat_completeness auto

termination
  by (relation "measure length") (auto dest: str_find_bound)

declare unfilled.simps [simp del]

definition render_template :: "string \<Rightarrow> string \<Rightarrow> json omap \<Rightarrow> (string, provision_error) result" where
  "render_template src slug params =
     rbind (fill_params params (str_replace src (placeholder ''tenant_slug'') slug)) (\<lambda>out.
       case unfilled out of Some name \<Rightarrow> Err (PvMissing name) | None \<Rightarrow> Ok out)"

section \<open>Provisioning\<close>

fun check_params :: "(string \<times> json) list \<Rightarrow> (unit, provision_error) result" where
  "check_params [] = Ok ()"
| "check_params ((k, v) # ps) =
     (if \<not> list_all placeholder_char k then Err (PvParamName k)
      else (case as_str v of
              Some s \<Rightarrow> if valid_param_value s then check_params ps else Err (PvForbidden k)
            | None \<Rightarrow> Err (PvNotString k)))"

text \<open>The template directory as it is read: files and directories with their names.\<close>

datatype tree_node = TFile string | TDir string "tree_node list"

fun template_files :: "path \<Rightarrow> tree_node \<Rightarrow> path list" where
  "template_files rel (TFile n) = [rel @ [n]]"
| "template_files rel (TDir n ts) = concat (map (template_files (rel @ [n])) ts)"

record provision_env =
  pe_host :: host
  pe_listing :: "fs \<Rightarrow> listing"
  pe_mtime :: "fs \<Rightarrow> path \<Rightarrow> nat"
  pe_parse_json :: "string \<Rightarrow> json option"
  pe_spawn :: "spec \<Rightarrow> string option"
  pe_write :: "fs \<Rightarrow> path \<Rightarrow> (string \<times> fentry) option"

definition render_file ::
  "provision_env \<Rightarrow> fs \<Rightarrow> path \<Rightarrow> string \<Rightarrow> json omap \<Rightarrow> path \<Rightarrow> (path \<times> string, provision_error) result" where
  "render_file E fs tdir slug params rel =
     (case fs (tdir @ rel) of
        Content src \<Rightarrow>
          (case render_template src slug params of
             Err e \<Rightarrow> Err (PvRender rel e)
           | Panic \<Rightarrow> Panic
           | Ok body \<Rightarrow>
               (let name = str_join ''/'' rel in
                if ends_with name ''.vjs'' then
                  (case parse body of Ok _ \<Rightarrow> Ok (rel, body) | Err e \<Rightarrow> Err (PvParse rel e) | Panic \<Rightarrow> Panic)
                else if ends_with name ''.json'' then
                  (case pe_parse_json E body of Some _ \<Rightarrow> Ok (rel, body) | None \<Rightarrow> Err (PvJson rel))
                else Ok (rel, body)))
      | Missing \<Rightarrow> Err (PvRead ''not found'')
      | Unreadable e \<Rightarrow> Err (PvRead e))"

fun render_files ::
  "provision_env \<Rightarrow> fs \<Rightarrow> path \<Rightarrow> string \<Rightarrow> json omap \<Rightarrow> path list \<Rightarrow> ((path \<times> string) list, provision_error) result" where
  "render_files E fs tdir slug params [] = Ok []"
| "render_files E fs tdir slug params (rel # rels) =
     rbind (render_file E fs tdir slug params rel) (\<lambda>f.
     rbind (render_files E fs tdir slug params rels) (\<lambda>fs'. Ok (f # fs')))"

text \<open>The second phase: a write that fails leaves what it left there.\<close>

fun write_files :: "provision_env \<Rightarrow> path \<Rightarrow> (path \<times> string) list \<Rightarrow> (fs, unit, provision_error) stm" where
  "write_files E pkg [] fs = (Ok (), fs)"
| "write_files E pkg ((rel, body) # rest) fs =
     (case pe_write E fs (pkg @ rel) of
        Some (e, left) \<Rightarrow> (Err (PvWrite e), fs(pkg @ rel := left))
      | None \<Rightarrow> write_files E pkg rest (fs(pkg @ rel := Content body)))"

definition refs_of :: "path \<times> string \<Rightarrow> string list" where
  "refs_of f =
     (if ends_with (str_join ''/'' (fst f)) ''.vjs''
      then (case parse (snd f) of Ok prog \<Rightarrow> map snd (pg_secret_refs prog) | _ \<Rightarrow> []) else [])"

definition secret_status :: "provision_env \<Rightarrow> fs \<Rightarrow> string \<Rightarrow> json" where
  "secret_status E fs r =
     VObject (om_of_list [(''ref'', VString r),
       (''status'', VString (case store_get (pe_host E) fs (default_store (h_env (pe_host E))) r of
          Ok _ \<Rightarrow> ''ok'' | _ \<Rightarrow> ''missing''))])"

definition provision_report ::
  "provision_env \<Rightarrow> fs \<Rightarrow> string \<Rightarrow> string \<Rightarrow> (path \<times> string) list \<Rightarrow> spec list \<Rightarrow> json" where
  "provision_report E fs template slug rendered specs =
     VObject (om_of_list
       [(''ok'', VBool True), (''tenant'', VString slug), (''template'', VString template),
        (''created'', VArray (map (\<lambda>f. VString (''packages/'' @ slug @ ''/'' @ str_join ''/'' (fst f))) rendered)),
        (''started'', VArray (map VString (filter
            (\<lambda>n. starts_with n (''flow:'' @ slug @ '':'') \<or> starts_with n (''connector:'' @ slug @ '':''))
            (map sp_name specs)))),
        (''secret_refs'', VArray (map (secret_status E fs) (rev (remdups (rev (concat (map refs_of rendered)))))))])"

definition plan ::
  "provision_env \<Rightarrow> fs \<Rightarrow> path \<Rightarrow> tree_node list option \<Rightarrow> bool \<Rightarrow> string \<Rightarrow> string \<Rightarrow> json omap \<Rightarrow> bool \<Rightarrow>
     ((path \<times> string) list, provision_error) result" where
  "plan E fs dir tree exists template slug params force =
     (if \<not> valid_template_name template then Err PvTemplateName
      else if \<not> valid_slug slug then Err PvSlug
      else rbind (check_params params) (\<lambda>_.
        case tree of
          None \<Rightarrow> Err (PvUnknownTemplate template)
        | Some nodes \<Rightarrow>
            if exists \<and> \<not> force then Err (PvExists slug)
            else (let rels = concat (map (template_files []) nodes) in
                  if rels = [] then Err (PvEmpty template)
                  else render_files E fs (dir @ [''templates'', template]) slug params rels)))"

definition provision ::
  "provision_env \<Rightarrow> path \<Rightarrow> tree_node list option \<Rightarrow> bool \<Rightarrow> string \<Rightarrow> string \<Rightarrow> json omap \<Rightarrow> bool \<Rightarrow>
     (fs \<times> registry, json, provision_error) stm" where
  "provision E dir tree exists template slug params force = (\<lambda>(fs, R).
     (case plan E fs dir tree exists template slug params force of
        Err e \<Rightarrow> (Err e, (fs, R))
      | Panic \<Rightarrow> (Panic, (fs, R))
      | Ok rendered \<Rightarrow>
          (case write_files E (dir @ [''packages'', slug]) rendered fs of
             (Err e, fs1) \<Rightarrow> (Err e, (fs1, R))
           | (Panic, fs1) \<Rightarrow> (Panic, (fs1, R))
           | (Ok _, fs1) \<Rightarrow>
               (case scan_all (pe_listing E fs1) (pe_mtime E fs1) (fs_text fs1) dir of
                  Ok specs \<Rightarrow>
                    (Ok (provision_report E fs1 template slug rendered specs),
                     (fs1, snd (reload (pe_spawn E) specs R)))
                | Err e \<Rightarrow> (Err e, (fs1, R))
                | Panic \<Rightarrow> (Panic, (fs1, R))))))"

section \<open>Facts\<close>

text \<open>
  The characters that delimit the tokens of a program or separate its statements: quotes,
  backslashes, newlines, brackets, everything but what a parameter may contain and the braces of a
  placeholder.
\<close>

definition delimiter :: "char \<Rightarrow> bool" where
  "delimiter c \<longleftrightarrow> \<not> valid_param_char c \<and> c \<noteq> CHR ''{'' \<and> c \<noteq> CHR ''}''"

lemma filter_str_join: "filter P (str_join sep xs) = str_join (filter P sep) (map (filter P) xs)"
  by (induction sep xs rule: str_join.induct) auto

lemma filter_str_replace:
  assumes "filter P from = []" and "filter P to = []"
  shows "filter P (str_replace s from to) = filter P s"
proof -
  have "filter P (str_replace s from to) = str_join [] (map (filter P) (str_split s from))"
    by (simp add: str_replace_def filter_str_join assms(2))
  also have "\<dots> = filter P (str_join from (str_split s from))"
    by (simp add: filter_str_join assms(1))
  finally show ?thesis by (simp add: join_split)
qed

lemma placeholder_char_valid: "placeholder_char c \<Longrightarrow> valid_param_char c"
  by (auto simp: placeholder_char_def valid_param_char_def is_ascii_alphanumeric_def is_ascii_alphabetic_def)

lemma no_delimiter: "list_all valid_param_char s \<Longrightarrow> filter delimiter s = []"
  by (auto simp: filter_empty_conv delimiter_def list_all_iff)

lemma placeholder_no_delimiter: "list_all placeholder_char k \<Longrightarrow> filter delimiter (placeholder k) = []"
  using no_delimiter [of k] placeholder_char_valid
  by (auto simp: placeholder_def delimiter_def list_all_iff valid_param_char_def)

lemma slug_no_delimiter: "valid_slug s \<Longrightarrow> filter delimiter s = []"
  by (rule no_delimiter) (auto simp: valid_slug_def list_all_iff intro!: placeholder_char_valid simp: placeholder_char_def)

lemma fill_params_delimiters:
  "check_params ps = Ok () \<Longrightarrow> fill_params ps s = Ok out \<Longrightarrow> filter delimiter out = filter delimiter s"
proof (induction ps arbitrary: s)
  case (Cons p ps)
  obtain k v where p: "p = (k, v)" by (cases p)
  from Cons.prems p obtain x where x: "as_str v = Some x" "valid_param_value x" "list_all placeholder_char k"
    and rest: "check_params ps = Ok ()" "fill_params ps (str_replace s (placeholder k) x) = Ok out"
    by (auto split: if_splits option.splits)
  have "filter delimiter (str_replace s (placeholder k) x) = filter delimiter s"
    by (intro filter_str_replace placeholder_no_delimiter no_delimiter) (use x in \<open>auto simp: valid_param_value_def\<close>)
  then show ?case using Cons.IH [OF rest] by simp
qed simp

lemma write_files_outside:
  assumes "write_files E pkg files fs = (r, fs')" and "\<And>rel. p \<noteq> pkg @ rel"
  shows "fs' p = fs p"
  using assms(1)
proof (induction files arbitrary: fs)
  case (Cons f files)
  then show ?case
    using assms(2) Cons.IH [of "fs(pkg @ fst f := Content (snd f))"]
    by (cases f) (auto split: option.splits)
qed simp

section \<open>Properties\<close>


definition sample_template :: string where
  "sample_template = ''URL = '' @ [CHR 0x22] @ ''${url}/${tenant_slug}'' @ [CHR 0x22]"

definition sample_params :: "json omap" where
  "sample_params = [(''url'', VString ''https://crm.example/api'')]"


text \<open>
  Provisioning writes only its own package: whatever happens, every file outside
  \<open>packages/<slug>\<close> is as it was; and a file changes at all only if the slug is valid, every file
  of the template rendered and passed its check, and the package is new or the overwrite was asked
  for.
\<close>

theorem provision_writes_its_package:
  assumes "provision E dir tree exists template slug params force (fs, R) = (r, (fs', R'))"
  shows "(\<forall>p. take (length dir + 2) p \<noteq> dir @ [''packages'', slug] \<longrightarrow> fs' p = fs p) \<and>
    ((fs', R') \<noteq> (fs, R) \<longrightarrow> valid_slug slug \<and> (exists \<longrightarrow> force) \<and>
       (\<exists>rendered. plan E fs dir tree exists template slug params force = Ok rendered))"
proof (cases "plan E fs dir tree exists template slug params force")
  case (Ok rendered)
  obtain q fs1 where w: "write_files E (dir @ [''packages'', slug]) rendered fs = (q, fs1)" by fastforce
  have "fs' = fs1"
    using assms Ok w by (cases q) (auto simp: provision_def split: result.splits)
  moreover have "valid_slug slug" and "exists \<longrightarrow> force"
    using Ok by (auto simp: plan_def Let_def result_simps split: if_splits option.splits)
  moreover have "fs1 p = fs p" if "take (length dir + 2) p \<noteq> dir @ [''packages'', slug]" for p
    by (rule write_files_outside [OF w]) (use that in auto)
  ultimately show ?thesis using Ok by blast
qed (use assms in \<open>auto simp: provision_def\<close>)

definition sample_provision :: provision_env where
  "sample_provision =
     \<lparr>pe_host = sample_host, pe_listing = (\<lambda>_ _. None), pe_mtime = (\<lambda>_ _. 1), pe_parse_json = (\<lambda>_. None),
      pe_spawn = (\<lambda>_. None), pe_write = (\<lambda>_ _. None)\<rparr>"

definition sample_store :: fs where
  "sample_store = (\<lambda>p.
     if p = [''templates'', ''crm'', ''connectors'', ''in.vjs''] then Content sample_template
     else if p = [''flows'', ''a.vjs''] then Content ''X = 1'' else Missing)"

theorem provision_writes_its_package_witness:
  "let r = provision sample_provision [] (Some [TDir ''connectors'' [TFile ''in.vjs'']]) False ''crm'' ''acme''
         sample_params False (sample_store, no_units) in
   fst (snd r) [''packages'', ''acme'', ''connectors'', ''in.vjs''] \<noteq> Missing \<and>
   fst (snd r) [''flows'', ''a.vjs''] = Content ''X = 1''"
proof -
  define r where "r = provision sample_provision [] (Some [TDir ''connectors'' [TFile ''in.vjs'']]) False ''crm''
    ''acme'' sample_params False (sample_store, no_units)"
  have "provision sample_provision [] (Some [TDir ''connectors'' [TFile ''in.vjs'']]) False ''crm''
    ''acme'' sample_params False (sample_store, no_units) = (fst r, (fst (snd r), snd (snd r)))"
    by (simp add: r_def)
  from provision_writes_its_package [OF this]
  have "fst (snd r) [''flows'', ''a.vjs''] = sample_store [''flows'', ''a.vjs'']" by simp
  moreover have "sample_store [''flows'', ''a.vjs''] = Content ''X = 1''" by code_simp
  moreover have "fst (snd r) [''packages'', ''acme'', ''connectors'', ''in.vjs''] \<noteq> Missing"
    unfolding r_def by code_simp
  ultimately show ?thesis by (simp add: r_def [symmetric] Let_def)
qed

end
