(* ===== verification/Sinks.thy ===== *)
theory Sinks
  imports Flow
begin

text \<open>
  Sinks: units that take messages from the bus and hand each to something outside. \<open>run_sink\<close> of
  \<open>core/src/connectors.rs\<close> and the sink loops of the stand-alone connectors have one shape, a pull
  round whose messages go to a handler one by one; the loop is written once here, over any state,
  with the contract under which no message is acknowledged before it is safe. The sink of the
  runtime itself is the first that meets the contract.
\<close>

section \<open>The loop\<close>

text \<open>
  \<open>alive\<close> sees the number of messages of the round that are left, zero at the head of the loop.
  The answer \<open>True\<close> means stopped: the message in hand and the rest stay unacknowledged.
\<close>

fun sink_messages :: "(nat \<Rightarrow> 's \<Rightarrow> bool) \<Rightarrow> (message \<Rightarrow> ('s, unit, string) stm) \<Rightarrow> message list \<Rightarrow> ('s, bool, string) stm" where
  "sink_messages alive handle [] = mret False"
| "sink_messages alive handle (m # ms) =
     (\<lambda>s. if alive (length (m # ms)) s then mbind (handle m) (\<lambda>_. sink_messages alive handle ms) s
           else (Ok True, s))"

definition sink_round ::
  "(nat \<Rightarrow> 's \<Rightarrow> bool) \<Rightarrow> ('s, unit, string) stm \<Rightarrow> (string option \<Rightarrow> 's \<Rightarrow> 's) \<Rightarrow> (message \<Rightarrow> ('s, unit, string) stm) \<Rightarrow>
     raw_message list \<Rightarrow> ('s, bool \<times> raw_message list, string) stm" where
  "sink_round alive request set_fault handle inbox =
     mbind request (\<lambda>_.
       (case round_messages 0 inbox of (ms, rest, fault) \<Rightarrow>
          mbind (mupd (set_fault fault)) (\<lambda>_.
          mbind (sink_messages alive handle ms) (\<lambda>stopped. mret (stopped, rest)))))"

text \<open>The rounds over what arrives before each of them, still running when that is used up.\<close>

fun sink_rounds ::
  "(nat \<Rightarrow> 's \<Rightarrow> bool) \<Rightarrow> ('s, unit, string) stm \<Rightarrow> (string option \<Rightarrow> 's \<Rightarrow> 's) \<Rightarrow> (message \<Rightarrow> ('s, unit, string) stm) \<Rightarrow>
     raw_message list list \<Rightarrow> raw_message list \<Rightarrow> ('s, bool, string) stm" where
  "sink_rounds alive request set_fault handle [] inbox = mret False"
| "sink_rounds alive request set_fault handle (new # later) inbox =
     (\<lambda>s. if alive 0 s then
             mbind (sink_round alive request set_fault handle (inbox @ new))
               (\<lambda>(stopped, rest). if stopped then mret True
                  else sink_rounds alive request set_fault handle later rest) s
           else (Ok True, s))"

section \<open>The contract\<close>

text \<open>
  \<open>safe m k s\<close> says that by the time the bus had seen \<open>k\<close> calls the message was where it had to go.
  Whatever a handler does stays done, and the acknowledgements it sends are of its own message
  and come after the message is safe.
\<close>

locale sink_contract =
  fixes hist :: "'s \<Rightarrow> call list"
    and request :: "('s, unit, string) stm"
    and set_fault :: "string option \<Rightarrow> 's \<Rightarrow> 's"
    and handle :: "message \<Rightarrow> ('s, unit, string) stm"
    and safe :: "message \<Rightarrow> nat \<Rightarrow> 's \<Rightarrow> bool"
  assumes request_quiet: "\<exists>t. hist (snd (request s)) = hist s @ t \<and> list_all no_ack t"
    and request_safe: "safe m k s \<Longrightarrow> safe m k (snd (request s))"
    and fault_quiet: "hist (set_fault f s) = hist s"
    and fault_safe: "safe m k s \<Longrightarrow> safe m k (set_fault f s)"
    and handle_acks:
      "\<exists>t. hist (snd (handle m s)) = hist s @ t \<and>
         every_ack (\<lambda>h q. ms_reply m = Some q \<and> safe m (length h) (snd (handle m s))) (hist s) t"
    and handle_safe: "safe m k s \<Longrightarrow> safe m k (snd (handle m' s))"
begin

definition sound :: "message set \<Rightarrow> 's \<Rightarrow> 's \<Rightarrow> bool" where
  "sound M s s' \<longleftrightarrow>
     (\<forall>m i. safe m i s \<longrightarrow> safe m i s') \<and>
     (\<exists>t. hist s' = hist s @ t \<and>
        every_ack (\<lambda>h q. \<exists>m \<in> M. ms_reply m = Some q \<and> safe m (length h) s') (hist s) t)"

lemma sound_refl: "sound M s s"
  by (simp add: sound_def)

lemma sound_trans:
  assumes "sound M s s'" and "sound M s' s''"
  shows "sound M s s''"
proof -
  from assms obtain t u where
    t: "hist s' = hist s @ t" "every_ack (\<lambda>h q. \<exists>m \<in> M. ms_reply m = Some q \<and> safe m (length h) s') (hist s) t" and
    u: "hist s'' = hist s' @ u" "every_ack (\<lambda>h q. \<exists>m \<in> M. ms_reply m = Some q \<and> safe m (length h) s'') (hist s') u"
    and keep: "\<And>m i. safe m i s' \<Longrightarrow> safe m i s''" and keep0: "\<And>m i. safe m i s \<Longrightarrow> safe m i s'"
    by (auto simp: sound_def)
  have "every_ack (\<lambda>h q. \<exists>m \<in> M. ms_reply m = Some q \<and> safe m (length h) s'') (hist s) t"
    by (rule every_ack_mono [OF t(2)]) (use keep in blast)
  then show ?thesis
    unfolding sound_def using t u keep keep0 by (auto intro!: exI [of _ "t @ u"])
qed

lemma sound_mono: "sound M s s' \<Longrightarrow> M \<subseteq> N \<Longrightarrow> sound N s s'"
  unfolding sound_def by (blast intro: every_ack_mono)

lemma sound_request: "sound M s (snd (request s))"
proof -
  obtain t where "hist (snd (request s)) = hist s @ t" "list_all no_ack t" using request_quiet by blast
  then show ?thesis unfolding sound_def using request_safe every_ack_none by blast
qed

lemma sound_handle: "m \<in> M \<Longrightarrow> sound M s (snd (handle m s))"
proof -
  assume m: "m \<in> M"
  obtain t where "hist (snd (handle m s)) = hist s @ t"
    and "every_ack (\<lambda>h q. ms_reply m = Some q \<and> safe m (length h) (snd (handle m s))) (hist s) t"
    using handle_acks by blast
  then show ?thesis unfolding sound_def using handle_safe m by (auto intro: every_ack_mono)
qed

lemma sound_messages:
  "sink_messages alive handle ms s = (r, s') \<Longrightarrow> set ms \<subseteq> M \<Longrightarrow> sound M s s'"
proof (induction ms arbitrary: s)
  case Nil
  then show ?case by (simp add: mret_def sound_refl)
next
  case (Cons m ms)
  obtain q s1 where h: "handle m s = (q, s1)" by fastforce
  have s1: "sound M s s1" using sound_handle [of m M s] h Cons.prems(2) by simp
  show ?case
  proof (cases "alive (length (m # ms)) s \<and> (\<exists>u. q = Ok u)")
    case True
    then have "sink_messages alive handle ms s1 = (r, s')"
      using Cons.prems(1) h by (auto simp: mbind_def)
    then show ?thesis using Cons sound_trans [OF s1] by simp
  next
    case False
    then show ?thesis
      using Cons.prems(1) h s1 sound_refl by (cases q) (auto simp: mbind_def split: if_splits)
  qed
qed

lemma sound_round:
  assumes "sink_round alive request set_fault handle inbox s = (r, s')"
  shows "sound (messages inbox) s s'"
    and "r = Ok (stopped, rest) \<Longrightarrow> set rest \<subseteq> set inbox"
proof -
  obtain q s1 where rq: "request s = (q, s1)" by fastforce
  obtain ms rest' f where rm: "round_messages 0 inbox = (ms, rest', f)" by (metis surj_pair)
  note from_inbox = round_messages_from [OF rm]
  obtain p s2 where sm: "sink_messages alive handle ms (set_fault f s1) = (p, s2)" by fastforce
  have s1: "sound (messages inbox) s s1" using sound_request [of "messages inbox" s] rq by simp
  have "sound (messages inbox) s1 (set_fault f s1)"
    unfolding sound_def using fault_quiet fault_safe by auto
  moreover have "sound (messages inbox) (set_fault f s1) s2"
    using sound_messages [OF sm] from_inbox by simp
  ultimately have s2: "sound (messages inbox) s s2" using s1 sound_trans by meson
  have "s' = (if \<exists>u. q = Ok u then s2 else s1) \<and> (r = Ok (stopped, rest) \<longrightarrow> rest = rest')"
    using assms rq rm sm by (cases q; cases p) (auto simp: sink_round_def mbind_def mupd_def mret_def)
  then show "sound (messages inbox) s s'" and "r = Ok (stopped, rest) \<Longrightarrow> set rest \<subseteq> set inbox"
    using s1 s2 from_inbox by auto
qed

lemma sound_rounds:
  assumes "sink_rounds alive request set_fault handle arrivals inbox s = (r, s')"
    and "messages inbox \<subseteq> M" and "\<forall>new \<in> set arrivals. messages new \<subseteq> M"
  shows "sound M s s'"
  using assms
proof (induction arrivals arbitrary: inbox s)
  case Nil
  then show ?case by (simp add: mret_def sound_refl)
next
  case (Cons new later)
  show ?case
  proof (cases "alive 0 s")
    case False
    then show ?thesis using Cons.prems(1) by (simp add: sound_refl)
  next
    case True
    obtain q s1 where rd: "sink_round alive request set_fault handle (inbox @ new) s = (q, s1)" by fastforce
    have sub: "messages (inbox @ new) \<subseteq> M" using Cons.prems(2,3) by (auto simp: messages_def)
    have s1: "sound M s s1" using sound_mono [OF sound_round(1) [OF rd] sub] .
    show ?thesis
    proof (cases "\<exists>rest. q = Ok (False, rest)")
      case True
      then obtain rest where q: "q = Ok (False, rest)" by blast
      have "sink_rounds alive request set_fault handle later rest s1 = (r, s')"
        using Cons.prems(1) \<open>alive 0 s\<close> rd q by (simp add: mbind_def)
      moreover have "messages rest \<subseteq> M"
        using sound_round(2) [OF rd q] sub messages_mono by blast
      ultimately show ?thesis using Cons.IH Cons.prems(3) sound_trans [OF s1] by simp
    next
      case False
      then have "s' = s1"
        using Cons.prems(1) \<open>alive 0 s\<close> rd
        by (cases q) (auto simp: mbind_def mret_def split: if_splits prod.splits)
      then show ?thesis using s1 by simp
    qed
  qed
qed

lemma acks_are_safe:
  "\<exists>t. hist (snd (sink_rounds alive request set_fault handle arrivals [] s)) = hist s @ t \<and>
     every_ack (\<lambda>h q. \<exists>m \<in> (\<Union>new \<in> set arrivals. messages new). ms_reply m = Some q \<and>
       safe m (length h) (snd (sink_rounds alive request set_fault handle arrivals [] s))) (hist s) t"
proof -
  obtain r s' where r: "sink_rounds alive request set_fault handle arrivals [] s = (r, s')" by fastforce
  have "sound (\<Union>new \<in> set arrivals. messages new) s s'"
    by (rule sound_rounds [OF r]) (auto simp: messages_def)
  then show ?thesis using r by (auto simp: sound_def)
qed

end

section \<open>The sink of the runtime\<close>

text \<open>
  \<open>run_sink\<close>: the handler is the driver's (an HTTP request, a child process), so what it answers
  is any function of what happened before. Its calls are kept with the number of calls the bus
  had seen and whether they succeeded.
\<close>

record sink_env =
  sv_nats :: nats
  sv_codec :: codec
  sv_environ :: environ
  sv_name :: string
  sv_subject :: string
  sv_now :: "call list \<Rightarrow> nat"
  sv_elapsed :: "call list \<Rightarrow> f64"
  sv_handler :: "call list \<Rightarrow> (nat \<times> string \<times> bool) list \<Rightarrow> string \<Rightarrow> (string option, string) result"

record sink_state =
  sk_dlq :: dlq
  sk_fault :: "string option"
  sk_units :: units
  sk_traces :: traces
  sk_handled :: "(nat \<times> string \<times> bool) list"

abbreviation sk_history :: "sink_state \<Rightarrow> call list" where
  "sk_history s \<equiv> dq_history (sk_dlq s)"

definition on_sink_bus :: "'a bm \<Rightarrow> sink_state \<Rightarrow> sink_state" where
  "on_sink_bus m s = s\<lparr>sk_dlq := (sk_dlq s)\<lparr>dq_history := snd (m (sk_history s))\<rparr>\<rparr>"

definition trace_preview :: "string \<Rightarrow> string" where
  "trace_preview data = concat (take 160 (str_chars (from_utf8_lossy data)))"

definition sink_trace ::
  "sink_env \<Rightarrow> bool \<Rightarrow> string option \<Rightarrow> string \<Rightarrow> string option \<Rightarrow> sink_state \<Rightarrow> sink_state" where
  "sink_trace E ok error preview resp s =
     s\<lparr>sk_traces := record_trace_full (sv_now E (sk_history s)) (sv_name E) (sv_subject E) ok error [] preview
        None resp (sk_traces s)\<rparr>"

text \<open>A failed message: from the fifth delivery on it is parked, then acknowledged; before, it is given back.\<close>

definition sink_failed :: "sink_env \<Rightarrow> message \<Rightarrow> string \<Rightarrow> (sink_state, unit, string) stm" where
  "sink_failed E m e s =
     (let delivered = delivered_count m; preview = trace_preview (ms_data m) in
      if max_deliveries \<le> delivered then
        (case to_dlq (sv_nats E) (sv_codec E) (sv_environ E) (sv_name E) (sv_subject E) delivered e (ms_data m) []
                (sv_now E (sk_history s)) (sk_dlq s) of
           (Ok _, d) \<Rightarrow>
             (Ok (), on_sink_bus (ack (sv_nats E) m)
               (sink_trace E False
                 (Some (e @ dash @ ''dead-lettered after '' @ int_str delivered @ '' deliveries'')) preview None
                 (s\<lparr>sk_dlq := d, sk_units := inc_dead_letter (sv_name E) (sk_units s)\<rparr>)))
         | (Err de, d) \<Rightarrow>
             (Ok (), on_sink_bus (nak (sv_nats E) m)
               (sink_trace E False (Some (e @ dash @ ''DLQ publish failed: '' @ de)) preview None (s\<lparr>sk_dlq := d\<rparr>)))
         | (Panic, d) \<Rightarrow> (Panic, s\<lparr>sk_dlq := d\<rparr>))
      else (Ok (), on_sink_bus (nak (sv_nats E) m) (sink_trace E False (Some e) preview None s)))"

definition sink_message :: "sink_env \<Rightarrow> message \<Rightarrow> (sink_state, unit, string) stm" where
  "sink_message E m s =
     (let h = sk_history s; r = sv_handler E h (sk_handled s) (ms_data m);
          s1 = s\<lparr>sk_handled := sk_handled s @ [(length h, ms_data m, \<exists>x. r = Ok x)]\<rparr> in
      case r of
        Ok resp \<Rightarrow>
          (Ok (), on_sink_bus (ack (sv_nats E) m)
            (sink_trace E True None (trace_preview (ms_data m)) resp
              (s1\<lparr>sk_units := observe (sv_name E) True 0 (sv_elapsed E h) (sk_units s)\<rparr>)))
      | Err e \<Rightarrow> sink_failed E m e (s1\<lparr>sk_units := observe (sv_name E) False 0 (sv_elapsed E h) (sk_units s)\<rparr>)
      | Panic \<Rightarrow> (Panic, s1))"

definition sink_request :: "sink_env \<Rightarrow> (sink_state, unit, string) stm" where
  "sink_request E s =
     (case on_bus (round_request (sv_nats E) (sk_fault s)) (sk_dlq s) of
        (r, d) \<Rightarrow> (r, s\<lparr>sk_dlq := d, sk_fault := None\<rparr>))"

definition set_sink_fault :: "string option \<Rightarrow> sink_state \<Rightarrow> sink_state" where
  "set_sink_fault f s = s\<lparr>sk_fault := f\<rparr>"

definition run_sink ::
  "sink_env \<Rightarrow> (nat \<Rightarrow> sink_state \<Rightarrow> bool) \<Rightarrow> raw_message list list \<Rightarrow> (sink_state, bool, string) stm" where
  "run_sink E alive arrivals =
     sink_rounds alive (sink_request E) set_sink_fault (sink_message E) arrivals []"

text \<open>
  A message is safe once the handler has taken it, or its dead letter is an accepted call.
\<close>

definition sink_safe :: "sink_env \<Rightarrow> message \<Rightarrow> nat \<Rightarrow> sink_state \<Rightarrow> bool" where
  "sink_safe E m k s \<longleftrightarrow>
     (\<exists>p \<le> k. (p, ms_data m, True) \<in> set (sk_handled s)) \<or>
     (\<exists>err now. accepted (sv_nats E) (take k (sk_history s))
        (CStore (dlq_subject (sv_name E))
           (cd_print (sv_codec E)
              (envelope (sv_name E) (sv_subject E) (delivered_count m) err (ms_data m) [] now))))"

lemma sink_safe_mono:
  assumes "sink_safe E m k s" and "sk_history s' = sk_history s @ t" and "set (sk_handled s) \<subseteq> set (sk_handled s')"
  shows "sink_safe E m k s'"
proof -
  have "accepted N (take k (sk_history s)) c \<Longrightarrow> accepted N (take k (sk_history s')) c" for N c
    using assms(2) accepted_append by simp
  then show ?thesis using assms(1,3) unfolding sink_safe_def by blast
qed

lemma sink_trace_simps [simp]:
  "sk_dlq (sink_trace E ok e p r s) = sk_dlq s" "sk_handled (sink_trace E ok e p r s) = sk_handled s"
  by (simp_all add: sink_trace_def)

lemma on_sink_bus_simps [simp]:
  "sk_history (on_sink_bus m s) = snd (m (sk_history s))" "sk_handled (on_sink_bus m s) = sk_handled s"
  by (simp_all add: on_sink_bus_def)

definition sink_step :: "sink_env \<Rightarrow> message \<Rightarrow> sink_state \<Rightarrow> sink_state \<Rightarrow> bool" where
  "sink_step E m s s' \<longleftrightarrow>
     set (sk_handled s) \<subseteq> set (sk_handled s') \<and>
     (\<exists>t. sk_history s' = sk_history s @ t \<and>
        every_ack (\<lambda>h q. ms_reply m = Some q \<and> sink_safe E m (length h) s') (sk_history s) t)"

lemma sink_failed_step: "sink_step E m s (snd (sink_failed E m e s))"
proof (cases "max_deliveries \<le> delivered_count m")
  case False
  then show ?thesis
    by (auto simp: sink_failed_def sink_step_def nak_history split: option.split)
next
  case True
  define c where "c = CStore (dlq_subject (sv_name E)) (cd_print (sv_codec E)
    (envelope (sv_name E) (sv_subject E) (delivered_count m) e (ms_data m) [] (sv_now E (sk_history s))))"
  obtain q d where d: "to_dlq (sv_nats E) (sv_codec E) (sv_environ E) (sv_name E) (sv_subject E)
      (delivered_count m) e (ms_data m) [] (sv_now E (sk_history s)) (sk_dlq s) = (q, d)"
    by (metis surj_pair)
  obtain t where t: "dq_history d = sk_history s @ c # t" "list_all no_ack t"
    using to_dlq_history(1) [OF d] unfolding c_def by blast
  have ok: "nt_answer (sv_nats E) (sk_history s) c = None" if "q = Ok u" for u
    using to_dlq_history(2) [OF d that] unfolding c_def .
  have "accepted (sv_nats E) (take (length (sk_history s @ c # t)) (sk_history s @ c # t @ u)) c"
    if "nt_answer (sv_nats E) (sk_history s) c = None" for u
    using that unfolding accepted_def by force
  then have safe: "sink_safe E m (length (dq_history d)) s'" 
    if "q = Ok ()" "sk_history s' = dq_history d @ u" for s' u
    using ok [OF that(1)] that(2) t(1) unfolding sink_safe_def c_def by auto
  have none: "every_ack P (sk_history s) (c # t)" for P
    by (rule every_ack_none) (use t(2) in \<open>simp add: c_def\<close>)
  show ?thesis
    using True d t(1) none safe
    by (cases q; cases "ms_reply m")
      (auto simp: sink_failed_def sink_step_def ack_history nak_history)
qed

lemma sink_message_step: "sink_step E m s (snd (sink_message E m s))"
proof -
  define h where "h = sk_history s"
  define r where "r = sv_handler E h (sk_handled s) (ms_data m)"
  define s1 where "s1 = s\<lparr>sk_handled := sk_handled s @ [(length h, ms_data m, \<exists>x. r = Ok x)]\<rparr>"
  show ?thesis
  proof (cases r)
    case (Ok resp)
    then show ?thesis
      by (auto simp: sink_message_def sink_step_def sink_safe_def ack_history Let_def h_def r_def split: option.split)
  next
    case (Err e)
    have "sink_step E m s1' (snd (sink_failed E m e s1'))" for s1' by (rule sink_failed_step)
    from this [of "s1\<lparr>sk_units := observe (sv_name E) False 0 (sv_elapsed E h) (sk_units s)\<rparr>"]
    show ?thesis
      using Err by (auto simp: sink_message_def sink_step_def Let_def h_def r_def s1_def)
  next
    case Panic
    then show ?thesis
      by (auto simp: sink_message_def sink_step_def Let_def h_def r_def)
  qed
qed

lemma sink_request_history:
  "\<exists>t. sk_history (snd (sink_request E s)) = sk_history s @ t \<and> list_all no_ack t"
  "sk_handled (snd (sink_request E s)) = sk_handled s"
proof -
  show "\<exists>t. sk_history (snd (sink_request E s)) = sk_history s @ t \<and> list_all no_ack t"
    using keepsD [OF round_request_no_ack [of "sv_nats E" "sk_fault s"], of "sk_history s"]
    by (auto simp: sink_request_def on_bus_def extends_def split: prod.split)
  show "sk_handled (snd (sink_request E s)) = sk_handled s"
    by (simp add: sink_request_def split: prod.split)
qed

interpretation core_sink: sink_contract sk_history "sink_request E" set_sink_fault "sink_message E" "sink_safe E" for E
proof unfold_locales
  fix s m f k m'
  show "\<exists>t. sk_history (snd (sink_request E s)) = sk_history s @ t \<and> list_all no_ack t"
    by (rule sink_request_history)
  show "sk_history (set_sink_fault f s) = sk_history s" by (simp add: set_sink_fault_def)
  show "sink_safe E m k (set_sink_fault f s)" if "sink_safe E m k s"
    using that by (simp add: sink_safe_def set_sink_fault_def)
  show "sink_safe E m k (snd (sink_request E s))" if "sink_safe E m k s"
  proof -
    obtain t where "sk_history (snd (sink_request E s)) = sk_history s @ t" using sink_request_history by blast
    then show ?thesis by (rule sink_safe_mono [OF that]) (simp add: sink_request_history)
  qed
  show "\<exists>t. sk_history (snd (sink_message E m s)) = sk_history s @ t \<and>
      every_ack (\<lambda>h q. ms_reply m = Some q \<and> sink_safe E m (length h) (snd (sink_message E m s))) (sk_history s) t"
    using sink_message_step by (simp add: sink_step_def)
  show "sink_safe E m k (snd (sink_message E m' s))" if "sink_safe E m k s"
  proof -
    obtain t where "sk_history (snd (sink_message E m' s)) = sk_history s @ t"
      and "set (sk_handled s) \<subseteq> set (sk_handled (snd (sink_message E m' s)))"
      using sink_message_step [of E m' s] by (auto simp: sink_step_def)
    then show ?thesis by (rule sink_safe_mono [OF that])
  qed
qed

text \<open>
  A sink of the runtime (Slack, HTTP, a child process) delivers at least once: every
  acknowledgement it sends to the bus is of a message that arrived, and comes after the handler
  took the message with success or its dead letter was stored.
\<close>

theorem sink_acks_what_is_delivered:
  "\<exists>t. sk_history (snd (run_sink E alive arrivals s)) = sk_history s @ t \<and>
     every_ack (\<lambda>h q. \<exists>m \<in> (\<Union>new \<in> set arrivals. messages new). ms_reply m = Some q \<and>
       sink_safe E m (length h) (snd (run_sink E alive arrivals s))) (sk_history s) t"
  unfolding run_sink_def by (rule core_sink.acks_are_safe)

end
