(* ===== verification/Bridges.thy ===== *)
theory Bridges
  imports Sinks Versions "HOL-Library.AList"
begin

text \<open>
  The stand-alone connectors of IBM MQ (\<open>connectors/mq\<close>) and AMQP (\<open>connectors/amqp\<close>): each owns
  both sides, the broker and the bus, and the order between them is what makes it lossless. The
  client libraries of the brokers are outside the repository: what they answer is any function of
  the calls so far. Every broker call is logged with the number of calls the bus had seen and
  whether it succeeded.
\<close>

section \<open>The source loop\<close>

text \<open>
  Take a message from the broker, publish it on the bus, then settle it with the broker: \<open>release\<close>
  when the bus confirmed it, \<open>give_back\<close> when not.
\<close>

definition source_turn ::
  "('s, ('m \<times> string) option, string) stm \<Rightarrow> (string \<Rightarrow> ('s, unit, string) stm) \<Rightarrow> ('m \<Rightarrow> ('s, unit, string) stm) \<Rightarrow>
     ('m \<Rightarrow> ('s, unit, string) stm) \<Rightarrow> ('s, unit, string) stm" where
  "source_turn receive publish release give_back =
     mbind receive (\<lambda>got.
       case got of
         None \<Rightarrow> mret ()
       | Some (m, body) \<Rightarrow>
           (\<lambda>s. case publish body s of
                  (Ok _, s1) \<Rightarrow> release m s1
                | (Err _, s1) \<Rightarrow> give_back m s1
                | (Panic, s1) \<Rightarrow> (Panic, s1)))"

text \<open>At most \<open>n\<close> turns; the answer says whether the loop was told to stop.\<close>

fun source_turns :: "('s \<Rightarrow> bool) \<Rightarrow> ('s, unit, string) stm \<Rightarrow> nat \<Rightarrow> ('s, bool, string) stm" where
  "source_turns alive turn 0 = mret False"
| "source_turns alive turn (Suc n) =
     (\<lambda>s. if alive s then mbind turn (\<lambda>_. source_turns alive turn n) s else (Ok True, s))"

text \<open>
  The contract of a source: \<open>holding\<close> is what the broker has handed out and not settled, \<open>released\<close>
  what it has let go for good, each body with the number of calls the bus had seen.
\<close>

locale source_contract =
  fixes hist :: "'s \<Rightarrow> call list"
    and holding :: "'s \<Rightarrow> string list"
    and released :: "'s \<Rightarrow> (nat \<times> string) set"
    and in_hand :: "'m \<Rightarrow> 's \<Rightarrow> bool"
    and N :: nats
    and subject :: string
    and receive :: "('s, ('m \<times> string) option, string) stm"
    and publish :: "string \<Rightarrow> ('s, unit, string) stm"
    and release :: "'m \<Rightarrow> ('s, unit, string) stm"
    and give_back :: "'m \<Rightarrow> ('s, unit, string) stm"
  assumes receive_law: "receive s = (g, s') \<Longrightarrow> holding s = [] \<Longrightarrow>
      hist s' = hist s \<and> released s' = released s \<and>
      (case g of Ok (Some (m, b)) \<Rightarrow> holding s' = [b] \<and> in_hand m s' | Ok None \<Rightarrow> holding s' = [] | _ \<Rightarrow> True)"
    and publish_law: "publish b s = (r, s') \<Longrightarrow>
      hist s' = hist s @ [CStore subject b] \<and> released s' = released s \<and> holding s' = holding s \<and>
      (r = Ok () \<longrightarrow> nt_answer N (hist s) (CStore subject b) = None) \<and> (in_hand m s \<longrightarrow> in_hand m s')"
    and release_law: "release m s = (r, s') \<Longrightarrow> in_hand m s \<Longrightarrow> length (holding s) = 1 \<Longrightarrow>
      hist s' = hist s \<and> released s' \<subseteq> released s \<union> {(length (hist s), b) |b. b \<in> set (holding s)} \<and>
      (r = Ok () \<longrightarrow> holding s' = [])"
    and give_back_law: "give_back m s = (r, s') \<Longrightarrow> in_hand m s \<Longrightarrow> length (holding s) = 1 \<Longrightarrow>
      hist s' = hist s \<and> released s' = released s \<and> (r = Ok () \<longrightarrow> holding s' = [])"
begin

definition published :: "'s \<Rightarrow> bool" where
  "published s \<longleftrightarrow> (\<forall>(k, b) \<in> released s. accepted N (take k (hist s)) (CStore subject b))"

lemma published_mono:
  assumes "published s" and "hist s' = hist s @ t" and "released s' = released s"
  shows "published s'"
proof -
  have "accepted N (take k (hist s')) c" if "accepted N (take k (hist s)) c" for k c
    using that accepted_append assms(2) by simp
  then show ?thesis using assms(1,3) unfolding published_def by fastforce
qed

lemma turn_published:
  assumes "source_turn receive publish release give_back s = (r, s')" and pub: "published s" and "holding s = []"
  shows "published s' \<and> (r = Ok () \<longrightarrow> holding s' = [])"
proof -
  obtain q s1 where g: "receive s = (q, s1)" by fastforce
  note l1 = receive_law [OF g assms(3)]
  have p1: "published s1" using published_mono [OF pub, of s1 "[]"] l1 by simp
  show ?thesis
  proof (cases "\<exists>m b. q = Ok (Some (m, b))")
    case False
    then show ?thesis
      using assms(1) g p1 l1
      by (cases q) (auto simp: source_turn_def mbind_def mret_def split: option.splits)
  next
    case True
    then obtain m b where q: "q = Ok (Some (m, b))" by blast
    obtain p s2 where pb: "publish b s1 = (p, s2)" by fastforce
    note l2 = publish_law [OF pb]
    have p2: "published s2" using published_mono [OF p1] l2 by blast
    have hold: "holding s2 = [b]" "in_hand m s2" using l1 l2 q by simp_all
    show ?thesis
    proof (cases p)
      case (Ok u)
      then have st: "release m s2 = (r, s')"
        using assms(1) g q pb by (simp add: source_turn_def mbind_def)
      note l3 = release_law [OF st hold(2)]
      have "accepted N (hist s2) (CStore subject b)"
        using l2 Ok unfolding accepted_def by auto
      then have "published s'"
        using p2 l3 hold unfolding published_def by fastforce
      then show ?thesis using l3 hold by simp
    next
      case (Err e)
      then have "give_back m s2 = (r, s')"
        using assms(1) g q pb by (simp add: source_turn_def mbind_def)
      from give_back_law [OF this hold(2)] show ?thesis
        using published_mono [OF p2, of s' "[]"] hold by simp
    next
      case Panic
      then show ?thesis using assms(1) g q pb p2 by (auto simp: source_turn_def mbind_def)
    qed
  qed
qed

lemma turns_published:
  assumes "source_turns alive (source_turn receive publish release give_back) n s = (r, s')"
    and "published s" and "holding s = []"
  shows "published s'"
  using assms
proof (induction n arbitrary: s)
  case 0
  then show ?case by (simp add: mret_def)
next
  case (Suc n)
  obtain q s1 where t: "source_turn receive publish release give_back s = (q, s1)" by fastforce
  note p1 = turn_published [OF t Suc.prems(2,3)]
  show ?case
  proof (cases "alive s \<and> q = Ok ()")
    case True
    then show ?thesis using Suc t p1 by (simp add: mbind_def)
  next
    case False
    then show ?thesis
      using Suc.prems(1,2) t p1 by (cases q) (auto simp: mbind_def split: if_splits)
  qed
qed

end

section \<open>IBM MQ\<close>

record mq_message =
  mq_body :: string
  mq_correlid :: string

record mq_error =
  me_op :: string
  me_comp_code :: int
  me_reason :: int

definition mq_error_text :: "mq_error \<Rightarrow> string" where
  "mq_error_text e =
     ''MQ '' @ me_op e @ '' failed: CompCode='' @ int_str (me_comp_code e) @ '' Reason='' @ int_str (me_reason e)"

datatype mq_call = MGet "mq_message option" | MPut mq_message | MCommit | MBack

type_synonym mq_log = "(nat \<times> mq_call \<times> bool) list"

text \<open>
  What \<open>MQGET\<close> leaves behind: the completion and reason codes, the length it reports, the read
  buffer and the correlation identifier. The other calls leave the two codes.
\<close>

record mqi_get =
  mi_cc :: int
  mi_rc :: int
  mi_len :: "32 word"
  mi_buffer :: string
  mi_correlid :: string

record mq_env =
  mx_nats :: nats
  mx_codec :: codec
  mx_get :: "call list \<Rightarrow> mq_log \<Rightarrow> mqi_get"
  mx_call :: "call list \<Rightarrow> mq_log \<Rightarrow> mq_call \<Rightarrow> int \<times> int"

record mq_state =
  mb_history :: "call list"
  mb_fault :: "string option"
  mb_log :: mq_log
  mb_fails :: nat
  mb_pauses :: "nat list"

definition mqcc_failed :: int where "mqcc_failed = 2"

definition mqrc_no_msg_available :: int where "mqrc_no_msg_available = 2033"

definition read_buf_len :: nat where "read_buf_len = 4 * 1024 * 1024"

text \<open>\<open>get_syncpoint\<close>: the length is converted to \<open>usize\<close>, sign-extended, and cut to the buffer.\<close>

definition mq_read :: "mqi_get \<Rightarrow> (mq_message option, mq_error) result" where
  "mq_read a =
     (if mi_cc a = mqcc_failed then
        if mi_rc a = mqrc_no_msg_available then Ok None
        else Err \<lparr>me_op = ''MQGET'', me_comp_code = mi_cc a, me_reason = mi_rc a\<rparr>
      else Ok (Some \<lparr>mq_body = take (min (unat (word_of_int (sint (mi_len a)) :: 64 word)) read_buf_len) (mi_buffer a),
                    mq_correlid = mi_correlid a\<rparr>))"

definition log_mq :: "mq_call \<Rightarrow> bool \<Rightarrow> mq_state \<Rightarrow> mq_state" where
  "log_mq c ok s = s\<lparr>mb_log := mb_log s @ [(length (mb_history s), c, ok)]\<rparr>"

definition get_syncpoint :: "mq_env \<Rightarrow> (mq_state, mq_message option, mq_error) stm" where
  "get_syncpoint X s =
     (case mq_read (mx_get X (mb_history s) (mb_log s)) of
        Ok got \<Rightarrow> (Ok got, log_mq (MGet got) True s)
      | Err e \<Rightarrow> (Err e, log_mq (MGet None) False s)
      | Panic \<Rightarrow> (Panic, s))"

definition mq_do :: "mq_env \<Rightarrow> string \<Rightarrow> mq_call \<Rightarrow> (mq_state, unit, mq_error) stm" where
  "mq_do X op_name c s =
     (case mx_call X (mb_history s) (mb_log s) c of
        (cc, rc) \<Rightarrow>
          if cc = mqcc_failed then (Err \<lparr>me_op = op_name, me_comp_code = cc, me_reason = rc\<rparr>, log_mq c False s)
          else (Ok (), log_mq c True s))"

definition put_syncpoint :: "mq_env \<Rightarrow> mq_message \<Rightarrow> (mq_state, unit, mq_error) stm" where
  "put_syncpoint X m = mq_do X ''MQPUT'' (MPut m)"

definition mq_commit :: "mq_env \<Rightarrow> (mq_state, unit, mq_error) stm" where
  "mq_commit X = mq_do X ''MQCMIT'' MCommit"

definition mq_backout :: "mq_env \<Rightarrow> (mq_state, unit, mq_error) stm" where
  "mq_backout X = mq_do X ''MQBACK'' MBack"

definition map_error :: "('e \<Rightarrow> 'f) \<Rightarrow> ('s, 'a, 'e) stm \<Rightarrow> ('s, 'a, 'f) stm" where
  "map_error f m s =
     (case m s of (Ok x, s') \<Rightarrow> (Ok x, s') | (Err e, s') \<Rightarrow> (Err (f e), s') | (Panic, s') \<Rightarrow> (Panic, s'))"

text \<open>The source: the pauses are those asked for after a publish the bus did not confirm.\<close>

definition mq_receive :: "mq_env \<Rightarrow> (mq_state, (unit \<times> string) option, string) stm" where
  "mq_receive X =
     mbind (map_error (\<lambda>e. ''get: '' @ mq_error_text e) (get_syncpoint X))
       (\<lambda>got. mret (map_option (\<lambda>m. ((), mq_body m)) got))"

definition mq_publish :: "mq_env \<Rightarrow> string \<Rightarrow> string \<Rightarrow> (mq_state, unit, string) stm" where
  "mq_publish X subject body s =
     (case do_call (mx_nats X) (CStore subject body) (mb_history s) of (r, h) \<Rightarrow> (r, s\<lparr>mb_history := h\<rparr>))"

definition mq_release :: "mq_env \<Rightarrow> unit \<Rightarrow> (mq_state, unit, string) stm" where
  "mq_release X _ =
     mbind (map_error (\<lambda>e. ''commit after publish: '' @ mq_error_text e) (mq_commit X))
       (\<lambda>_. mupd (mb_fails_update (\<lambda>_. 0)))"

definition backoff_ms :: "nat \<Rightarrow> nat" where
  "backoff_ms fails = min (50 * 2 ^ min fails 7) 5000"

definition mq_give_back :: "mq_env \<Rightarrow> unit \<Rightarrow> (mq_state, unit, string) stm" where
  "mq_give_back X _ =
     mbind (map_error (\<lambda>e. ''backout: '' @ mq_error_text e) (mq_backout X))
       (\<lambda>_. mupd (\<lambda>s. let fails = min (mb_fails s + 1) (2 ^ 32 - 1) in
          s\<lparr>mb_fails := fails, mb_pauses := mb_pauses s @ [backoff_ms fails]\<rparr>))"

definition mq_source :: "mq_env \<Rightarrow> string \<Rightarrow> (mq_state \<Rightarrow> bool) \<Rightarrow> nat \<Rightarrow> (mq_state, bool, string) stm" where
  "mq_source X subject alive =
     source_turns alive (source_turn (mq_receive X) (mq_publish X subject) (mq_release X) (mq_give_back X))"

text \<open>The sink: put and commit, then acknowledge; the key for the receiver's own deduplication.\<close>

definition dedup_key :: "codec \<Rightarrow> string \<Rightarrow> string \<Rightarrow> string option" where
  "dedup_key C body field =
     (case cd_parse C body of
        Some (VObject m) \<Rightarrow>
          (case om_get m field of
             Some (VString k) \<Rightarrow> Some k
           | Some v \<Rightarrow> Some (cd_print C v)
           | None \<Rightarrow> None)
      | _ \<Rightarrow> None)"

definition be_bytes8 :: "64 word \<Rightarrow> string" where
  "be_bytes8 h = map (\<lambda>i. char_of (unat (drop_bit (8 * i) h) mod 256)) [7, 6, 5, 4, 3, 2, 1, 0]"

definition correlid_from_key :: "string \<Rightarrow> string" where
  "correlid_from_key key =
     concat (map (\<lambda>seed. be_bytes8 (fnv1a seed key)) [0xcbf29ce484222325, 0x100000001b3, 0x9e3779b97f4a7c15])"

definition mq_put_and_commit :: "mq_env \<Rightarrow> mq_message \<Rightarrow> mq_state \<Rightarrow> bool \<times> mq_state" where
  "mq_put_and_commit X out s =
     (case put_syncpoint X out s of
        (Ok _, s1) \<Rightarrow>
          (case mq_commit X s1 of
             (Ok _, s2) \<Rightarrow> (True, s2)
           | (_, s2) \<Rightarrow> (False, snd (mq_backout X s2)))
      | (_, s1) \<Rightarrow> (False, snd (mq_backout X s1)))"

definition mq_deliver :: "mq_env \<Rightarrow> string option \<Rightarrow> message \<Rightarrow> (mq_state, unit, string) stm" where
  "mq_deliver X dedup_field m s =
     (let key = (case dedup_field of Some f \<Rightarrow> dedup_key (mx_codec X) (ms_data m) f | None \<Rightarrow> None);
          correlid = (case key of Some k \<Rightarrow> correlid_from_key k | None \<Rightarrow> replicate 24 CHR 0x00) in
      case mq_put_and_commit X \<lparr>mq_body = ms_data m, mq_correlid = correlid\<rparr> s of
        (True, s1) \<Rightarrow> (Ok (), s1\<lparr>mb_history := snd (ack (mx_nats X) m (mb_history s1))\<rparr>)
      | (False, s1) \<Rightarrow> (Ok (), s1))"

definition mq_request :: "mq_env \<Rightarrow> (mq_state, unit, string) stm" where
  "mq_request X s =
     (case round_request (mx_nats X) (mb_fault s) (mb_history s) of
        (r, h) \<Rightarrow> (r, s\<lparr>mb_history := h, mb_fault := None\<rparr>))"

definition set_mq_fault :: "string option \<Rightarrow> mq_state \<Rightarrow> mq_state" where
  "set_mq_fault f s = s\<lparr>mb_fault := f\<rparr>"

definition mq_sink ::
  "mq_env \<Rightarrow> string option \<Rightarrow> (nat \<Rightarrow> mq_state \<Rightarrow> bool) \<Rightarrow> raw_message list list \<Rightarrow> (mq_state, bool, string) stm" where
  "mq_sink X dedup_field alive arrivals =
     sink_rounds alive (mq_request X) set_mq_fault (mq_deliver X dedup_field) arrivals []"

subsection \<open>What the queue manager has let go\<close>

text \<open>
  The unit of work, read off the log: a message got is held until a commit, which removes it from
  the queue, or a backout, which returns it. A commit that reports an error may have happened.
\<close>

fun mq_track_step :: "string list \<times> (nat \<times> string) set \<Rightarrow> nat \<times> mq_call \<times> bool \<Rightarrow> string list \<times> (nat \<times> string) set" where
  "mq_track_step (held, gone) (k, MGet (Some m), ok) = (held @ [mq_body m], gone)"
| "mq_track_step (held, gone) (k, MCommit, ok) = ((if ok then [] else held), gone \<union> Pair k ` set held)"
| "mq_track_step (held, gone) (k, MBack, ok) = ((if ok then [] else held), gone)"
| "mq_track_step (held, gone) (k, c, ok) = (held, gone)"

definition mq_track :: "mq_log \<Rightarrow> string list \<times> (nat \<times> string) set" where
  "mq_track l = foldl mq_track_step ([], {}) l"

lemma mq_track_Nil: "mq_track [] = ([], {})"
  by (simp add: mq_track_def)

lemma mq_track_snoc [simp]: "mq_track (l @ [x]) = mq_track_step (mq_track l) x"
  by (simp add: mq_track_def)

definition mq_holding :: "mq_state \<Rightarrow> string list" where
  "mq_holding s = fst (mq_track (mb_log s))"

definition mq_released :: "mq_state \<Rightarrow> (nat \<times> string) set" where
  "mq_released s = snd (mq_track (mb_log s))"

lemma log_mq_simps [simp]:
  "mb_history (log_mq c ok s) = mb_history s" "mb_fault (log_mq c ok s) = mb_fault s"
  "mb_log (log_mq c ok s) = mb_log s @ [(length (mb_history s), c, ok)]"
  by (simp_all add: log_mq_def)

lemma mq_do_cases:
  assumes "mq_do X op_name c s = (r, s')"
  obtains ok where "s' = log_mq c ok s" "ok \<longleftrightarrow> r = Ok ()" "r \<noteq> Panic"
  by (rule that [of "r = Ok ()"])
    (use assms in \<open>auto simp: mq_do_def split: prod.splits if_splits\<close>)

lemma track_unfold:
  obtains held gone where "mq_track (mb_log s) = (held, gone)" "mq_holding s = held" "mq_released s = gone"
  by (cases "mq_track (mb_log s)") (simp add: mq_holding_def mq_released_def)

lemma mq_read_no_panic: "mq_read a \<noteq> Panic"
  by (simp add: mq_read_def)

interpretation mq_bridge: source_contract mb_history mq_holding mq_released "\<lambda>_ _. True" "mx_nats X" subject
  "mq_receive X" "mq_publish X subject" "mq_release X" "mq_give_back X" for X subject
proof unfold_locales
  fix s s' :: mq_state
  fix g assume g: "mq_receive X s = (g, s')" and h: "mq_holding s = []"
  obtain gone where tr: "mq_track (mb_log s) = ([], gone)"
    using h by (cases "mq_track (mb_log s)") (simp add: mq_holding_def)
  show "mb_history s' = mb_history s \<and> mq_released s' = mq_released s \<and>
      (case g of Ok (Some (m, b)) \<Rightarrow> mq_holding s' = [b] \<and> True | Ok None \<Rightarrow> mq_holding s' = [] | _ \<Rightarrow> True)"
  proof (cases "mq_read (mx_get X (mb_history s) (mb_log s))")
    case (Ok got)
    then show ?thesis
      using g tr by (cases got)
        (auto simp: mq_receive_def get_syncpoint_def map_error_def mbind_def mret_def mq_holding_def mq_released_def)
  qed (use g tr mq_read_no_panic in
        \<open>auto simp: mq_receive_def get_syncpoint_def map_error_def mbind_def mq_holding_def mq_released_def\<close>)
next
  fix s s' :: mq_state
  fix b r assume "mq_publish X subject b s = (r, s')"
  then show "mb_history s' = mb_history s @ [CStore subject b] \<and> mq_released s' = mq_released s \<and>
      mq_holding s' = mq_holding s \<and> (r = Ok () \<longrightarrow> nt_answer (mx_nats X) (mb_history s) (CStore subject b) = None) \<and> (True \<longrightarrow> True)"
    by (auto simp: mq_publish_def do_call_def mq_holding_def mq_released_def split: option.splits)
next
  fix s s' :: mq_state
  fix m r assume "mq_release X m s = (r, s')"
  moreover obtain q s1 where q: "mq_commit X s = (q, s1)" by fastforce
  moreover obtain ok where "s1 = log_mq MCommit ok s" "ok \<longleftrightarrow> q = Ok ()"
    using q unfolding mq_commit_def by (rule mq_do_cases)
  moreover obtain held gone where "mq_track (mb_log s) = (held, gone)" by fastforce
  ultimately show "mb_history s' = mb_history s \<and>
      mq_released s' \<subseteq> mq_released s \<union> {(length (mb_history s), b) |b. b \<in> set (mq_holding s)} \<and>
      (r = Ok () \<longrightarrow> mq_holding s' = [])"
    by (cases q) (auto simp: mq_release_def map_error_def mbind_def mupd_def mq_holding_def mq_released_def)
next
  fix s s' :: mq_state
  fix m r assume "mq_give_back X m s = (r, s')"
  moreover obtain q s1 where q: "mq_backout X s = (q, s1)" by fastforce
  moreover obtain ok where "s1 = log_mq MBack ok s" "ok \<longleftrightarrow> q = Ok ()"
    using q unfolding mq_backout_def by (rule mq_do_cases)
  moreover obtain held gone where "mq_track (mb_log s) = (held, gone)" by fastforce
  ultimately show "mb_history s' = mb_history s \<and> mq_released s' = mq_released s \<and>
      (r = Ok () \<longrightarrow> mq_holding s' = [])"
    by (cases q) (auto simp: mq_give_back_def map_error_def mbind_def mupd_def mq_holding_def mq_released_def Let_def)
qed

definition mq_safe :: "message \<Rightarrow> nat \<Rightarrow> mq_state \<Rightarrow> bool" where
  "mq_safe m k s \<longleftrightarrow>
     (\<exists>a b p out. mb_log s = a @ (p, MPut out, True) # (p, MCommit, True) # b \<and> p \<le> k \<and> mq_body out = ms_data m)"

lemma mq_safe_mono: "mq_safe m k s \<Longrightarrow> mb_log s' = mb_log s @ t \<Longrightarrow> mq_safe m k s'"
  unfolding mq_safe_def by (metis append.assoc append_Cons)

lemma mq_put_and_commit_log:
  assumes "mq_put_and_commit X out s = (done, s')"
  shows "mb_history s' = mb_history s" and "\<exists>t. mb_log s' = mb_log s @ t"
    and "done \<Longrightarrow> mb_log s' = mb_log s @ [(length (mb_history s), MPut out, True), (length (mb_history s), MCommit, True)]"
proof -
  obtain q s1 where q: "put_syncpoint X out s = (q, s1)" by fastforce
  then obtain ok where s1: "s1 = log_mq (MPut out) ok s" "ok \<longleftrightarrow> q = Ok ()" "q \<noteq> Panic"
    unfolding put_syncpoint_def by (rule mq_do_cases)
  obtain p s2 where p: "mq_commit X s1 = (p, s2)" by fastforce
  then obtain ok2 where s2: "s2 = log_mq MCommit ok2 s1" "ok2 \<longleftrightarrow> p = Ok ()" "p \<noteq> Panic"
    unfolding mq_commit_def by (rule mq_do_cases)
  have back_out: "\<exists>b. snd (mq_backout X z) = log_mq MBack b z" for z
    unfolding mq_backout_def mq_do_def by (auto split: prod.split)
  obtain b1 b2 where "snd (mq_backout X s1) = log_mq MBack b1 s1" "snd (mq_backout X s2) = log_mq MBack b2 s2"
    using back_out by meson
  then have "(done, s') =
      (if q = Ok () then if p = Ok () then (True, s2) else (False, log_mq MBack b2 s2) else (False, log_mq MBack b1 s1))"
    using assms q p by (cases q; cases p) (simp_all add: mq_put_and_commit_def)
  then show "mb_history s' = mb_history s" and "\<exists>t. mb_log s' = mb_log s @ t"
    and "done \<Longrightarrow> mb_log s' = mb_log s @ [(length (mb_history s), MPut out, True), (length (mb_history s), MCommit, True)]"
    using s1(1,2) s2(1,2) by (simp_all split: if_splits)
qed

lemma round_request_history: "\<exists>t. snd (round_request N fault h) = h @ t \<and> list_all no_ack t"
  using keepsD [OF round_request_no_ack [of N fault], of h] by (auto simp: extends_def)

lemma mq_deliver_history:
  "\<exists>t. mb_history (snd (mq_deliver X df m s)) = mb_history s @ t \<and>
     every_ack (\<lambda>h q. ms_reply m = Some q \<and> mq_safe m (length h) (snd (mq_deliver X df m s))) (mb_history s) t"
  "\<exists>t. mb_log (snd (mq_deliver X df m s)) = mb_log s @ t"
proof -
  define out where "out = \<lparr>mq_body = ms_data m, mq_correlid =
    (case (case df of Some f \<Rightarrow> dedup_key (mx_codec X) (ms_data m) f | None \<Rightarrow> None) of
       Some k \<Rightarrow> correlid_from_key k | None \<Rightarrow> replicate 24 CHR 0x00)\<rparr>"
  obtain ok s1 where p: "mq_put_and_commit X out s = (ok, s1)" by fastforce
  note l = mq_put_and_commit_log [OF p]
  have d: "snd (mq_deliver X df m s) =
      (if ok then s1\<lparr>mb_history := snd (ack (mx_nats X) m (mb_history s1))\<rparr> else s1)"
    using p by (simp add: mq_deliver_def Let_def out_def)
  have "mq_safe m (length (mb_history s)) (s1\<lparr>mb_history := h\<rparr>)" if ok for h
    unfolding mq_safe_def using l(3) [OF that] by (fastforce simp: out_def)
  then show "\<exists>t. mb_history (snd (mq_deliver X df m s)) = mb_history s @ t \<and>
     every_ack (\<lambda>h q. ms_reply m = Some q \<and> mq_safe m (length h) (snd (mq_deliver X df m s))) (mb_history s) t"
    using l(1) d by (auto simp: ack_history split: option.split)
  show "\<exists>t. mb_log (snd (mq_deliver X df m s)) = mb_log s @ t"
    using l(2) d by auto
qed

interpretation mq_out: sink_contract mb_history "mq_request X" set_mq_fault "mq_deliver X df" mq_safe for X df
proof unfold_locales
  fix s m f k m'
  show "\<exists>t. mb_history (snd (mq_request X s)) = mb_history s @ t \<and> list_all no_ack t"
    using round_request_history by (simp add: mq_request_def split: prod.split) (metis snd_conv)
  show "mq_safe m k (snd (mq_request X s))" if "mq_safe m k s"
    using that by (simp add: mq_safe_def mq_request_def split: prod.split)
  show "mb_history (set_mq_fault f s) = mb_history s" by (simp add: set_mq_fault_def)
  show "mq_safe m k (set_mq_fault f s)" if "mq_safe m k s"
    using that by (simp add: mq_safe_def set_mq_fault_def)
  show "\<exists>t. mb_history (snd (mq_deliver X df m s)) = mb_history s @ t \<and>
     every_ack (\<lambda>h q. ms_reply m = Some q \<and> mq_safe m (length h) (snd (mq_deliver X df m s))) (mb_history s) t"
    by (rule mq_deliver_history)
  show "mq_safe m k (snd (mq_deliver X df m' s))" if "mq_safe m k s"
    using mq_safe_mono [OF that] mq_deliver_history(2) by blast
qed

subsection \<open>Configuration\<close>

text \<open>An environment variable that is set to nothing counts as absent.\<close>

definition env_set :: "environ \<Rightarrow> string \<Rightarrow> string option" where
  "env_set env k = (case env k of Some v \<Rightarrow> if v = [] then None else Some v | None \<Rightarrow> None)"

definition env_set_or :: "environ \<Rightarrow> string \<Rightarrow> string \<Rightarrow> string" where
  "env_set_or env k d = (case env_set env k of Some v \<Rightarrow> v | None \<Rightarrow> d)"

definition env_first :: "environ \<Rightarrow> string \<Rightarrow> string \<Rightarrow> string option" where
  "env_first env k k' = (case env_set env k of Some v \<Rightarrow> Some v | None \<Rightarrow> env_set env k')"

definition env_secs :: "environ \<Rightarrow> string \<Rightarrow> int \<Rightarrow> int" where
  "env_secs env k d =
     (case env_set env k of Some v \<Rightarrow> (case parse_u64 v of Some n \<Rightarrow> n | None \<Rightarrow> d) | None \<Rightarrow> d)"

definition env_flag :: "environ \<Rightarrow> string \<Rightarrow> bool" where
  "env_flag env k \<longleftrightarrow> env_set env k = Some ''1'' \<or> env_set env k = Some ''true''"

record mq_config =
  mc_mode :: string
  mc_qmgr :: string
  mc_queue :: string
  mc_nats_url :: string
  mc_subject :: string
  mc_durable :: string
  mc_wait :: int
  mc_dedup_field :: "string option"
  mc_competing :: bool

definition load_config :: "environ \<Rightarrow> (mq_config, string) result" where
  "load_config env =
     (case env_set env ''VEJAS_MQ_MODE'' of
        None \<Rightarrow> Err ''VEJAS_MQ_MODE must be source or sink''
      | Some mode \<Rightarrow>
          if mode \<noteq> ''source'' \<and> mode \<noteq> ''sink'' then
            Err (''VEJAS_MQ_MODE='' @ mode @ dash @ ''must be source or sink'')
          else
            (case env_set env ''VEJAS_MQ_QUEUE'' of
               None \<Rightarrow> Err ''VEJAS_MQ_QUEUE required''
             | Some queue \<Rightarrow>
                 (case env_first env ''VEJAS_MQ_SUBJECT'' ''VEJAS_SUBJECT'' of
                    None \<Rightarrow> Err ''VEJAS_MQ_SUBJECT required (the bus subject to publish to / consume)''
                  | Some subject \<Rightarrow>
                      Ok \<lparr>mc_mode = mode, mc_qmgr = env_set_or env ''VEJAS_MQ_QMGR'' [], mc_queue = queue,
                          mc_nats_url = env_set_or env ''NATS_URL'' ''127.0.0.1:4222'', mc_subject = subject,
                          mc_durable = env_set_or env ''VEJAS_MQ_DURABLE'' ''vejas_mq'',
                          mc_wait = env_secs env ''VEJAS_MQ_WAIT_SECS'' 3,
                          mc_dedup_field = env_set env ''VEJAS_MQ_DEDUP_FIELD'',
                          mc_competing = env_flag env ''VEJAS_MQ_COMPETING''\<rparr>)))"

definition source_key :: "string \<Rightarrow> string \<Rightarrow> string" where
  "source_key prefix queue =
     prefix @ concat (map (\<lambda>c. if list_all is_ascii_alphanumeric c then c else ''_'') (str_chars queue))"

section \<open>AMQP\<close>

datatype amqp_confirm = CfAck nat | CfNack nat

datatype amqp_call =
    ARecv "(nat \<times> string) option"
  | AAck nat string
  | ANack nat string
  | APublish string string
  | AConfirm "amqp_confirm option"

type_synonym amqp_log = "(nat \<times> amqp_call \<times> bool) list"

text \<open>What the consumer's channel answers within the wait, and what it answers on an ack, a nack or a publish.\<close>

datatype amqp_delivery = Delivery nat string | Notice | NoDelivery

record amqp_env =
  ax_nats :: nats
  ax_recv :: "call list \<Rightarrow> amqp_log \<Rightarrow> amqp_delivery"
  ax_call :: "call list \<Rightarrow> amqp_log \<Rightarrow> amqp_call \<Rightarrow> string option"
  ax_confirm :: "call list \<Rightarrow> amqp_log \<Rightarrow> amqp_confirm option"

record amqp_state =
  ab_history :: "call list"
  ab_fault :: "string option"
  ab_pending :: "(nat \<times> string) list"
  ab_log :: amqp_log

definition log_amqp :: "amqp_call \<Rightarrow> bool \<Rightarrow> amqp_state \<Rightarrow> amqp_state" where
  "log_amqp c ok s = s\<lparr>ab_log := ab_log s @ [(length (ab_history s), c, ok)]\<rparr>"

definition amqp_do :: "amqp_env \<Rightarrow> amqp_call \<Rightarrow> (amqp_state, unit, string) stm" where
  "amqp_do X c s =
     (case ax_call X (ab_history s) (ab_log s) c of
        None \<Rightarrow> (Ok (), log_amqp c True s)
      | Some e \<Rightarrow> (Err e, log_amqp c False s))"

text \<open>\<open>AmqpConsumer\<close>: deliveries wait under their tag until they are acked or given back.\<close>

definition amqp_recv :: "amqp_env \<Rightarrow> (amqp_state, (nat \<times> string) option, string) stm" where
  "amqp_recv X s =
     (case ax_recv X (ab_history s) (ab_log s) of
        Delivery tag body \<Rightarrow>
          (Ok (Some (tag, body)),
           log_amqp (ARecv (Some (tag, body))) True (s\<lparr>ab_pending := AList.update tag body (ab_pending s)\<rparr>))
      | _ \<Rightarrow> (Ok None, log_amqp (ARecv None) True s))"

definition amqp_settle :: "amqp_env \<Rightarrow> (nat \<Rightarrow> string \<Rightarrow> amqp_call) \<Rightarrow> nat \<Rightarrow> (amqp_state, unit, string) stm" where
  "amqp_settle X call tag s =
     (case map_of (ab_pending s) tag of
        Some body \<Rightarrow> amqp_do X (call tag body) (s\<lparr>ab_pending := AList.delete tag (ab_pending s)\<rparr>)
      | None \<Rightarrow> (Ok (), s))"

definition amqp_ack :: "amqp_env \<Rightarrow> nat \<Rightarrow> (amqp_state, unit, string) stm" where
  "amqp_ack X = amqp_settle X AAck"

definition amqp_nack :: "amqp_env \<Rightarrow> nat \<Rightarrow> (amqp_state, unit, string) stm" where
  "amqp_nack X = amqp_settle X ANack"

definition amqp_publish :: "amqp_env \<Rightarrow> string \<Rightarrow> string \<Rightarrow> (amqp_state, unit, string) stm" where
  "amqp_publish X subject body s =
     (case do_call (ax_nats X) (CStore subject body) (ab_history s) of (r, h) \<Rightarrow> (r, s\<lparr>ab_history := h\<rparr>))"

definition amqp_source :: "amqp_env \<Rightarrow> string \<Rightarrow> (amqp_state \<Rightarrow> bool) \<Rightarrow> nat \<Rightarrow> (amqp_state, bool, string) stm" where
  "amqp_source X subject alive =
     source_turns alive (source_turn (amqp_recv X) (amqp_publish X subject) (amqp_ack X) (amqp_nack X))"

text \<open>\<open>AmqpPublisher\<close>: publish one message, then read one confirm from the channel, whosever it is.\<close>

definition publish_confirmed :: "amqp_env \<Rightarrow> string \<Rightarrow> string \<Rightarrow> (amqp_state, bool, string) stm" where
  "publish_confirmed X routing_key body =
     mbind (amqp_do X (APublish body routing_key)) (\<lambda>_ s.
       (let c = ax_confirm X (ab_history s) (ab_log s); s1 = log_amqp (AConfirm c) True s in
        case c of
          Some (CfAck _) \<Rightarrow> (Ok True, s1)
        | Some (CfNack _) \<Rightarrow> (Ok False, s1)
        | None \<Rightarrow> (Err ''no publisher confirm within 30s'', s1)))"

definition amqp_deliver :: "amqp_env \<Rightarrow> string \<Rightarrow> message \<Rightarrow> (amqp_state, unit, string) stm" where
  "amqp_deliver X routing_key m s =
     (case publish_confirmed X routing_key (ms_data m) s of
        (Ok True, s1) \<Rightarrow> (Ok (), s1\<lparr>ab_history := snd (ack (ax_nats X) m (ab_history s1))\<rparr>)
      | (_, s1) \<Rightarrow> (Ok (), s1))"

definition amqp_request :: "amqp_env \<Rightarrow> (amqp_state, unit, string) stm" where
  "amqp_request X s =
     (case round_request (ax_nats X) (ab_fault s) (ab_history s) of
        (r, h) \<Rightarrow> (r, s\<lparr>ab_history := h, ab_fault := None\<rparr>))"

definition set_amqp_fault :: "string option \<Rightarrow> amqp_state \<Rightarrow> amqp_state" where
  "set_amqp_fault f s = s\<lparr>ab_fault := f\<rparr>"

definition amqp_sink ::
  "amqp_env \<Rightarrow> string \<Rightarrow> (nat \<Rightarrow> amqp_state \<Rightarrow> bool) \<Rightarrow> raw_message list list \<Rightarrow> (amqp_state, bool, string) stm" where
  "amqp_sink X routing_key alive arrivals =
     sink_rounds alive (amqp_request X) set_amqp_fault (amqp_deliver X routing_key) arrivals []"

text \<open>The URL of a TLS broker: user, password, host, port and virtual host, each with its default.\<close>

definition amqps_url :: "string \<Rightarrow> (string \<times> string \<times> string \<times> int \<times> string, string) result" where
  "amqps_url url =
     (let rest = trim_start_matches url ''amqps://'';
          (userinfo, hostpart) = (case split_once rest CHR ''@'' of Some p \<Rightarrow> p | None \<Rightarrow> ([], rest));
          (user, pass) = (case split_once userinfo CHR '':'' of
             Some p \<Rightarrow> p
           | None \<Rightarrow> if userinfo \<noteq> [] then (userinfo, []) else (''guest'', ''guest''));
          (hostport, vhost) = (case split_once hostpart CHR ''/'' of
             Some (hp, v) \<Rightarrow> if v \<noteq> [] then (hp, v) else (hp, ''/'')
           | None \<Rightarrow> (hostpart, ''/''))
      in case split_once hostport CHR '':'' of
           Some (h, p) \<Rightarrow>
             (case parse_u64 p of
                Some n \<Rightarrow> if n < 2 ^ 16 then Ok (user, pass, h, n, vhost) else Err ''bad port in URL''
              | None \<Rightarrow> Err ''bad port in URL'')
         | None \<Rightarrow> Ok (user, pass, hostport, 5671, vhost))"

definition amqp_holding :: "amqp_state \<Rightarrow> string list" where
  "amqp_holding s = map snd (ab_pending s)"

text \<open>What the broker let go: a delivery whose ack was sent, whatever the call reported.\<close>

fun amqp_gone :: "nat \<times> amqp_call \<times> bool \<Rightarrow> (nat \<times> string) set" where
  "amqp_gone (k, AAck tag b, ok) = {(k, b)}"
| "amqp_gone _ = {}"

definition amqp_released :: "amqp_state \<Rightarrow> (nat \<times> string) set" where
  "amqp_released s = (\<Union>x \<in> set (ab_log s). amqp_gone x)"

definition amqp_in_hand :: "nat \<Rightarrow> amqp_state \<Rightarrow> bool" where
  "amqp_in_hand tag s \<longleftrightarrow> map_of (ab_pending s) tag \<noteq> None"

lemma log_amqp_simps [simp]:
  "ab_history (log_amqp c ok s) = ab_history s" "ab_pending (log_amqp c ok s) = ab_pending s"
  "ab_log (log_amqp c ok s) = ab_log s @ [(length (ab_history s), c, ok)]"
  by (simp_all add: log_amqp_def)

lemma amqp_do_log: "\<exists>ok. snd (amqp_do X c s) = log_amqp c ok s \<and> (fst (amqp_do X c s) = Ok () \<longrightarrow> ok)"
  by (auto simp: amqp_do_def split: option.split)

lemma amqp_settle_one:
  assumes "amqp_settle X call tag s = (r, s')" and "amqp_in_hand tag s" and "length (amqp_holding s) = 1"
  obtains ok body where "ab_pending s = [(tag, body)]" "ab_pending s' = []" "ab_history s' = ab_history s"
    "ab_log s' = ab_log s @ [(length (ab_history s), call tag body, ok)]"
proof -
  obtain body where p: "ab_pending s = [(tag, body)]"
    using assms(2,3) by (auto simp: amqp_in_hand_def amqp_holding_def length_Suc_conv split: if_splits)
  then have "amqp_do X (call tag body) (s\<lparr>ab_pending := []\<rparr>) = (r, s')"
    using assms(1) by (simp add: amqp_settle_def)
  then show thesis
    using p that amqp_do_log [of X "call tag body" "s\<lparr>ab_pending := []\<rparr>"] by auto
qed

interpretation amqp_bridge: source_contract ab_history amqp_holding amqp_released amqp_in_hand "ax_nats X" subject
  "amqp_recv X" "amqp_publish X subject" "amqp_ack X" "amqp_nack X" for X subject
proof unfold_locales
  fix s s' :: amqp_state
  fix g assume "amqp_recv X s = (g, s')" and "amqp_holding s = []"
  then show "ab_history s' = ab_history s \<and> amqp_released s' = amqp_released s \<and>
      (case g of Ok (Some (m, b)) \<Rightarrow> amqp_holding s' = [b] \<and> amqp_in_hand m s' | Ok None \<Rightarrow> amqp_holding s' = []
       | _ \<Rightarrow> True)"
    by (auto simp: amqp_recv_def amqp_holding_def amqp_released_def amqp_in_hand_def split: amqp_delivery.splits)
next
  fix s s' :: amqp_state
  fix b r m assume "amqp_publish X subject b s = (r, s')"
  then show "ab_history s' = ab_history s @ [CStore subject b] \<and> amqp_released s' = amqp_released s \<and>
      amqp_holding s' = amqp_holding s \<and>
      (r = Ok () \<longrightarrow> nt_answer (ax_nats X) (ab_history s) (CStore subject b) = None) \<and>
      (amqp_in_hand m s \<longrightarrow> amqp_in_hand m s')"
    by (auto simp: amqp_publish_def do_call_def amqp_holding_def amqp_released_def amqp_in_hand_def
        split: option.splits)
next
  fix s s' :: amqp_state
  fix m r assume a: "amqp_ack X m s = (r, s')" "amqp_in_hand m s" "length (amqp_holding s) = 1"
  obtain ok body where o: "ab_pending s = [(m, body)]" "ab_pending s' = []" "ab_history s' = ab_history s"
      "ab_log s' = ab_log s @ [(length (ab_history s), AAck m body, ok)]"
    using a unfolding amqp_ack_def by (rule amqp_settle_one)
  then show "ab_history s' = ab_history s \<and>
      amqp_released s' \<subseteq> amqp_released s \<union> {(length (ab_history s), b) |b. b \<in> set (amqp_holding s)} \<and>
      (r = Ok () \<longrightarrow> amqp_holding s' = [])"
    by (auto simp: amqp_released_def amqp_holding_def)
next
  fix s s' :: amqp_state
  fix m r assume a: "amqp_nack X m s = (r, s')" "amqp_in_hand m s" "length (amqp_holding s) = 1"
  obtain ok body where o: "ab_pending s = [(m, body)]" "ab_pending s' = []" "ab_history s' = ab_history s"
      "ab_log s' = ab_log s @ [(length (ab_history s), ANack m body, ok)]"
    using a unfolding amqp_nack_def by (rule amqp_settle_one)
  then show "ab_history s' = ab_history s \<and> amqp_released s' = amqp_released s \<and> (r = Ok () \<longrightarrow> amqp_holding s' = [])"
    by (auto simp: amqp_released_def amqp_holding_def)
qed

definition amqp_safe :: "string \<Rightarrow> message \<Rightarrow> nat \<Rightarrow> amqp_state \<Rightarrow> bool" where
  "amqp_safe routing_key m k s \<longleftrightarrow>
     (\<exists>a b p tag. ab_log s = a @ (p, APublish (ms_data m) routing_key, True) #
        (p, AConfirm (Some (CfAck tag)), True) # b \<and> p \<le> k)"

lemma amqp_deliver_history:
  "\<exists>t. ab_history (snd (amqp_deliver X rk m s)) = ab_history s @ t \<and>
     every_ack (\<lambda>h q. ms_reply m = Some q \<and> amqp_safe rk m (length h) (snd (amqp_deliver X rk m s))) (ab_history s) t"
  "\<exists>t. ab_log (snd (amqp_deliver X rk m s)) = ab_log s @ t"
proof -
  define c where "c = APublish (ms_data m) rk"
  define s1 where "s1 = log_amqp c True s"
  define f where "f = ax_confirm X (ab_history s) (ab_log s1)"
  define s2 where "s2 = log_amqp (AConfirm f) True s1"
  have d: "snd (amqp_deliver X rk m s) =
      (if ax_call X (ab_history s) (ab_log s) c \<noteq> None then log_amqp c False s
       else if \<exists>tag. f = Some (CfAck tag) then s2\<lparr>ab_history := snd (ack (ax_nats X) m (ab_history s2))\<rparr> else s2)"
    by (auto simp: amqp_deliver_def publish_confirmed_def amqp_do_def mbind_def Let_def c_def s1_def s2_def f_def
        split: option.split amqp_confirm.split)
  have "amqp_safe rk m (length (ab_history s)) (s2\<lparr>ab_history := h\<rparr>)" if "f = Some (CfAck tag)" for h tag
    unfolding amqp_safe_def using that by (fastforce simp: s2_def s1_def c_def)
  then show "\<exists>t. ab_history (snd (amqp_deliver X rk m s)) = ab_history s @ t \<and>
     every_ack (\<lambda>h q. ms_reply m = Some q \<and> amqp_safe rk m (length h) (snd (amqp_deliver X rk m s))) (ab_history s) t"
    unfolding d by (auto simp: ack_history s2_def s1_def split: option.split)
  show "\<exists>t. ab_log (snd (amqp_deliver X rk m s)) = ab_log s @ t"
    unfolding d by (simp add: s2_def s1_def)
qed

interpretation amqp_out: sink_contract ab_history "amqp_request X" set_amqp_fault "amqp_deliver X rk" "amqp_safe rk" for X rk
proof unfold_locales
  fix s m f k m'
  show "\<exists>t. ab_history (snd (amqp_request X s)) = ab_history s @ t \<and> list_all no_ack t"
    using round_request_history by (simp add: amqp_request_def split: prod.split) (metis snd_conv)
  show "amqp_safe rk m k (snd (amqp_request X s))" if "amqp_safe rk m k s"
    using that by (simp add: amqp_safe_def amqp_request_def split: prod.split)
  show "ab_history (set_amqp_fault f s) = ab_history s" by (simp add: set_amqp_fault_def)
  show "amqp_safe rk m k (set_amqp_fault f s)" if "amqp_safe rk m k s"
    using that by (simp add: amqp_safe_def set_amqp_fault_def)
  show "\<exists>t. ab_history (snd (amqp_deliver X rk m s)) = ab_history s @ t \<and>
     every_ack (\<lambda>h q. ms_reply m = Some q \<and> amqp_safe rk m (length h) (snd (amqp_deliver X rk m s))) (ab_history s) t"
    by (rule amqp_deliver_history)
  show "amqp_safe rk m k (snd (amqp_deliver X rk m' s))" if "amqp_safe rk m k s"
    using that amqp_deliver_history(2) [of X rk m' s] unfolding amqp_safe_def
    by (metis append.assoc append_Cons)
qed

section \<open>Properties\<close>

definition mq_start :: "call list \<Rightarrow> mq_state" where
  "mq_start h = \<lparr>mb_history = h, mb_fault = None, mb_log = [], mb_fails = 0, mb_pauses = []\<rparr>"

definition amqp_start :: "call list \<Rightarrow> amqp_state" where
  "amqp_start h = \<lparr>ab_history = h, ab_fault = None, ab_pending = [], ab_log = []\<rparr>"

text \<open>
  (C11) The sources of the MQ and AMQP connectors lose nothing: in a run of any length, whatever the
  queue manager, the broker and the bus answer, a message is removed from its queue (committed, or
  acked) only after the bus has stored it.
\<close>

theorem sources_release_what_is_stored:
  "(let s = snd (mq_source X subject alive n (mq_start h)) in
      mq_released s \<subseteq> {(k, body). accepted (mx_nats X) (take k (mb_history s)) (CStore subject body)}) \<and>
   (let s = snd (amqp_source Y subject up n (amqp_start h)) in
      amqp_released s \<subseteq> {(k, body). accepted (ax_nats Y) (take k (ab_history s)) (CStore subject body)})"
proof -
  have "mq_bridge.published X subject (mq_start h)" "mq_holding (mq_start h) = []"
    by (simp_all add: mq_bridge.published_def mq_released_def mq_holding_def mq_start_def mq_track_Nil)
  from mq_bridge.turns_published [OF prod.collapse [symmetric] this]
  have mq: "mq_bridge.published X subject (snd (mq_source X subject alive n (mq_start h)))"
    by (simp add: mq_source_def)
  have "amqp_bridge.published Y subject (amqp_start h)" "amqp_holding (amqp_start h) = []"
    by (simp_all add: amqp_bridge.published_def amqp_released_def amqp_holding_def amqp_start_def)
  from amqp_bridge.turns_published [OF prod.collapse [symmetric] this]
  have "amqp_bridge.published Y subject (snd (amqp_source Y subject up n (amqp_start h)))"
    by (simp add: amqp_source_def)
  with mq show ?thesis
    by (auto simp: mq_bridge.published_def amqp_bridge.published_def Let_def)
qed


text \<open>
  A message longer than the read buffer: \<open>MQGET\<close> ends with a warning and leaves the message on the
  queue (reason 2080), and the code takes the first four megabytes for the message.
\<close>

lemma truncated_get_is_taken_whole:
  "mq_read \<lparr>mi_cc = 1, mi_rc = 2080, mi_len = len, mi_buffer = buf, mi_correlid = c\<rparr> =
     Ok (Some \<lparr>mq_body = take (min (unat (word_of_int (sint len) :: 64 word)) read_buf_len) buf, mq_correlid = c\<rparr>)"
  by (simp add: mq_read_def mqcc_failed_def)

text \<open>
  A confirm that comes after its thirty seconds answers for the next message: here the broker
  confirms the first publish late, and the second message is acknowledged on the bus by it.
\<close>

definition late_broker :: amqp_env where
  "late_broker =
     \<lparr>ax_nats = \<lparr>nt_answer = (\<lambda>_ _. None), nt_up = (\<lambda>_. True), nt_epoch = (\<lambda>_. 0), nt_limit = (\<lambda>_. 1000),
        nt_state = (\<lambda>_. Ok (0, 0, 0)), nt_message = (\<lambda>_ _. Err ''none''), nt_purged = (\<lambda>_. 0)\<rparr>,
      ax_recv = (\<lambda>_ _. NoDelivery), ax_call = (\<lambda>_ _ _. None),
      ax_confirm = (\<lambda>_ l. if length l = 1 then None else Some (CfAck 1))\<rparr>"

definition bus_message :: "string \<Rightarrow> string \<Rightarrow> message" where
  "bus_message r d = \<lparr>ms_subject = ''vx.out'', ms_data = d, ms_reply = Some r\<rparr>"

lemma late_confirm_acks_the_next_message:
  "ab_history (snd (mbind (amqp_deliver late_broker ''q'' (bus_message ''r1'' ''first''))
     (\<lambda>_. amqp_deliver late_broker ''q'' (bus_message ''r2'' ''second'')) (amqp_start []))) = [CAck ''r2'']"
  by (simp add: mbind_def amqp_deliver_def publish_confirmed_def amqp_do_def late_broker_def amqp_start_def
      log_amqp_def bus_message_def ack_def do_call_def)

text \<open>
  A consumer whose channel is closed answers like one with nothing to deliver, so the source runs
  on without an error that would restart it.
\<close>

lemma closed_channel_is_idle:
  assumes "\<And>h l. ax_recv X h l = Notice"
  shows "fst (amqp_source X subject (\<lambda>_. True) n s) = Ok False"
  unfolding amqp_source_def
  by (induction n arbitrary: s)
    (simp_all add: source_turn_def mbind_def amqp_recv_def assms mret_def)

end
