(* ===== verification/Http_In.thy ===== *)
theory Http_In
  imports Sinks
begin

text \<open>
  The configuration of connectors and the webhook driver \<open>http-in\<close>, from
  \<open>core/src/connectors.rs\<close>: requests are read from a socket that stays open, and a POST of JSON
  under \<open>/ingest/\<close> is published on the subject its path names. The port is not authenticated, so
  what can reach the bus through it matters.
\<close>

section \<open>Configuration\<close>

type_synonym config = "json omap"

definition cfg_str :: "config \<Rightarrow> string \<Rightarrow> string option" where
  "cfg_str c k = (case om_get c k of Some v \<Rightarrow> as_str v | None \<Rightarrow> None)"

definition cfg_str_or :: "config \<Rightarrow> string \<Rightarrow> string \<Rightarrow> string" where
  "cfg_str_or c k d = (case cfg_str c k of Some s \<Rightarrow> s | None \<Rightarrow> d)"

definition cfg_u64_or :: "config \<Rightarrow> string \<Rightarrow> int \<Rightarrow> int" where
  "cfg_u64_or c k d =
     (case om_get c k of Some v \<Rightarrow> (case as_u64 v of Some n \<Rightarrow> n | None \<Rightarrow> d) | None \<Rightarrow> d)"

definition cfg_object :: "config \<Rightarrow> string \<Rightarrow> json omap" where
  "cfg_object c k = (case om_get c k of Some (VObject m) \<Rightarrow> m | _ \<Rightarrow> [])"

definition cfg_headers :: "config \<Rightarrow> (string \<times> string) list" where
  "cfg_headers c =
     List.map_filter (\<lambda>(k, v). map_option (Pair k) (as_str v)) (cfg_object c ''HEADERS'')"

definition cfg_env_vars :: "codec \<Rightarrow> config \<Rightarrow> (string \<times> string) list" where
  "cfg_env_vars C c =
     map (\<lambda>(k, v). (k, case v of VString s \<Rightarrow> s | _ \<Rightarrow> cd_print C v)) (cfg_object c ''ENV'')"

definition ctx_subject :: "string \<Rightarrow> string \<Rightarrow> string" where
  "ctx_subject subj_root raw =
     (if starts_with raw (subj_root @ ''.'') then raw else subj_root @ ''.'' @ raw)"

definition cfg_strings :: "config \<Rightarrow> string \<Rightarrow> string list" where
  "cfg_strings c k = (case om_get c k of Some (VArray a) \<Rightarrow> List.map_filter as_str a | _ \<Rightarrow> [])"

text \<open>The catalog of drivers.\<close>

definition driver_kind :: "string \<Rightarrow> string option" where
  "driver_kind name =
     map_of [(''http-in'', ''source:webhook''), (''timer'', ''source:interval''), (''http-poll'', ''source:poll''),
        (''oauth-poll'', ''source:poll''), (''slack-out'', ''sink''), (''http-out'', ''sink''),
        (''exec-source'', ''source:exec''), (''exec-sink'', ''sink:exec''), (''exec-stream-source'', ''source:stream''),
        (''exec-rpc'', ''rpc:exec''), (''mqtt-in'', ''source:mqtt''), (''mqtt-out'', ''sink:mqtt'')] name"

text \<open>A child process inherits the environment but for the credentials of the runtime.\<close>

definition is_runtime_credential :: "string \<Rightarrow> bool" where
  "is_runtime_credential name \<longleftrightarrow>
     name = ''VEJAS_TOKEN'' \<or> name = ''VEJAS_APPROVAL_TOKEN'' \<or> name = ''VAULT_TOKEN'' \<or>
     starts_with name ''VEJAS_SECRET_''"

definition child_environment :: "(string \<times> string) list \<Rightarrow> (string \<times> string) list" where
  "child_environment env = filter (\<lambda>(k, _). \<not> (valid_utf8 k \<and> is_runtime_credential k)) env"

section \<open>Slots\<close>

definition try_take :: "nat \<Rightarrow> nat \<Rightarrow> nat option" where
  "try_take open_slots limit = (if open_slots < limit then Some (open_slots + 1) else None)"

definition drop_slot :: "64 word \<Rightarrow> 64 word" where
  "drop_slot n = n - 1"

section \<open>One request\<close>

definition crlf :: string where "crlf = [CHR 0x0D, CHR 0x0A]"

text \<open>\<open>str::lines\<close>: a carriage return before the newline goes, and so does an empty last line.\<close>

definition strip_cr :: "string \<Rightarrow> string" where
  "strip_cr l = (if ends_with l [CHR 0x0D] then butlast l else l)"

definition str_lines :: "string \<Rightarrow> string list" where
  "str_lines s =
     (let ls = str_split s [CHR 0x0A]; ls' = (if last ls = [] then butlast ls else ls) in
      map strip_cr (butlast ls') @ (if ls' = [] then [] else [if last ls = [] then strip_cr (last ls') else last ls']))"

fun header_length :: "string list \<Rightarrow> int" where
  "header_length [] = 0"
| "header_length (l # ls) =
     (case strip_prefix ''content-length:'' (map to_ascii_lowercase l) of
        Some v \<Rightarrow> (case parse_u64 (trim v) of Some n \<Rightarrow> n | None \<Rightarrow> 0)
      | None \<Rightarrow> header_length ls)"

definition content_length :: "string \<Rightarrow> int" where
  "content_length head = header_length (str_lines head)"

datatype sock_read = Bytes string | Closed | Failed

text \<open>
  Reading one request: \<open>late\<close> says that the deadline has passed when the loop asks. The sum of
  header and body length wraps at 64 bits. It returns the buffer, the end of the headers, whether
  the connection is over, and the reads that are left.
\<close>

definition header_end :: "string \<Rightarrow> nat option" where
  "header_end buf = map_option (\<lambda>i. i + 4) (str_find buf (crlf @ crlf))"

definition request_complete :: "string \<Rightarrow> nat option \<Rightarrow> bool" where
  "request_complete buf he =
     (case he of
        Some h \<Rightarrow> (int h + content_length (from_utf8_lossy (take h buf))) mod 2 ^ 64 \<le> int (length buf)
      | None \<Rightarrow> False)"

fun read_request ::
  "(bool \<times> sock_read) list \<Rightarrow> string \<Rightarrow> nat option \<Rightarrow> string \<times> nat option \<times> bool \<times> (bool \<times> sock_read) list" where
  "read_request [] buf he = (buf, he, True, [])"
| "read_request ((late, r) # rs) buf he =
     (if late then (buf, he, True, rs)
      else
        (case r of
           Closed \<Rightarrow> (buf, he, True, rs)
         | Failed \<Rightarrow> (buf, he, True, rs)
         | Bytes b \<Rightarrow>
             if b = [] then (buf, he, True, rs)
             else
               (let buf' = buf @ b; he' = (case he of Some h \<Rightarrow> Some h | None \<Rightarrow> header_end buf') in
                if request_complete buf' he' \<or> 1048576 < length buf' then (buf', he', False, rs)
                else read_request rs buf' he')))"

record in_env =
  hi_nats :: nats
  hi_codec :: codec
  hi_now :: "call list \<Rightarrow> nat"
  hi_name :: string
  hi_root :: string
  hi_allow :: "string list"
  hi_debug :: "string \<Rightarrow> string"

record in_state =
  hs_history :: "call list"
  hs_traces :: traces
  hs_written :: "string list"

definition suffix_allowed :: "string \<Rightarrow> string list \<Rightarrow> bool" where
  "suffix_allowed suffix allow \<longleftrightarrow> list_ex (\<lambda>e. suffix = e \<or> starts_with suffix (e @ ''.'')) allow"

definition trace_pub :: "in_env \<Rightarrow> string \<Rightarrow> string \<Rightarrow> in_state \<Rightarrow> in_state" where
  "trace_pub E subject bytes s =
     s\<lparr>hs_traces := record_trace_full (hi_now E (hs_history s)) (hi_name E) subject True None [subject]
        (trace_preview bytes) None None (hs_traces s)\<rparr>"

definition trace_fail :: "in_env \<Rightarrow> string \<Rightarrow> string \<Rightarrow> in_state \<Rightarrow> in_state" where
  "trace_fail E subject err s =
     s\<lparr>hs_traces := record_trace_full (hi_now E (hs_history s)) (hi_name E) subject False (Some err) [] []
        None None (hs_traces s)\<rparr>"

definition dq :: string where "dq = [CHR 0x22]"

definition error_json :: "string \<Rightarrow> string" where
  "error_json msg = ''{'' @ dq @ ''error'' @ dq @ '':'' @ dq @ msg @ dq @ ''}''"

definition publish_in :: "in_env \<Rightarrow> string \<Rightarrow> string \<Rightarrow> in_state \<Rightarrow> (string \<times> string) \<times> in_state" where
  "publish_in E suffix body s =
     (let subject = hi_root E @ ''.'' @ suffix in
      case do_call (hi_nats E) (CStore subject body) (hs_history s) of
        (Ok _, h) \<Rightarrow>
          ((''202 Accepted'', ''{'' @ dq @ ''published'' @ dq @ '':'' @ dq @ subject @ dq @ ''}''),
           trace_pub E subject body (s\<lparr>hs_history := h\<rparr>))
      | (Err e, h) \<Rightarrow>
          ((''502 Bad Gateway'', error_json e), trace_fail E subject (''publish: '' @ e) (s\<lparr>hs_history := h\<rparr>))
      | (Panic, h) \<Rightarrow> (([], []), s\<lparr>hs_history := h\<rparr>))"

definition request_line :: "string \<Rightarrow> string \<times> string" where
  "request_line buf =
     (let parts = str_split (hd (str_split (from_utf8_lossy buf) crlf)) '' '' in
      (hd parts, if 1 < length parts then parts ! 1 else []))"

definition ingest_suffix :: "string \<Rightarrow> string" where
  "ingest_suffix path =
     trim_end_matches (trim_start_matches (trim_start_matches path ''/ingest/'') ''/'') ''/''"

definition answer_in :: "in_env \<Rightarrow> string \<Rightarrow> nat \<Rightarrow> in_state \<Rightarrow> (string \<times> string) \<times> in_state" where
  "answer_in E buf he s =
     (case request_line buf of (req_method, req_path) \<Rightarrow>
        let body = drop he buf; suffix = ingest_suffix req_path in
        if req_method = ''GET'' \<and> req_path = ''/healthz'' then
          ((''200 OK'', ''{'' @ dq @ ''ok'' @ dq @ '':true}''), s)
        else if req_method \<noteq> ''POST'' \<or> \<not> starts_with req_path ''/ingest/'' then
          ((''404 Not Found'', error_json ''POST /ingest/<subject-suffix>''), s)
        else if suffix = [] then ((''400 Bad Request'', error_json ''missing subject suffix''), s)
        else if \<not> valid_subject suffix then ((''400 Bad Request'', error_json ''invalid subject suffix''), s)
        else if cd_parse (hi_codec E) body = None then ((''400 Bad Request'', error_json ''body must be JSON''), s)
        else if hi_allow E \<noteq> [] \<and> \<not> suffix_allowed suffix (hi_allow E) then
          ((''403 Forbidden'',
            ''{'' @ dq @ ''error'' @ dq @ '':'' @ dq @ ''subject '' @ hi_debug E suffix @ '' not permitted by ALLOW'' @
            dq @ ''}''), s)
        else publish_in E suffix body s)"

definition response_text :: "string \<times> string \<Rightarrow> string" where
  "response_text cj =
     (case cj of (code, body) \<Rightarrow>
        ''HTTP/1.1 '' @ code @ crlf @ ''Content-Type: application/json'' @ crlf @ ''Content-Length: '' @
        nat_str (length body) @ crlf @ ''Connection: keep-alive'' @ crlf @ crlf @ body)"

section \<open>A connection\<close>

lemma read_request_le: "read_request rs buf he = (buf', he', eof, rest) \<Longrightarrow> length rest \<le> length rs"
proof (induction rs arbitrary: buf he)
  case (Cons r rs)
  obtain late x where r: "r = (late, x)" by (cases r)
  show ?case
  proof (cases x)
    case (Bytes b)
    then show ?thesis
      using Cons.prems r Cons.IH [THEN le_SucI] by (auto simp: Let_def split: if_splits)
  qed (use Cons.prems r in \<open>auto split: if_splits\<close>)
qed simp

lemma read_request_shorter:
  assumes "read_request rs buf None = (buf', Some h, eof, rest)"
  shows "length rest < length rs"
proof (cases rs)
  case Nil
  then show ?thesis using assms by simp
next
  case (Cons r rs')
  obtain late x where r: "r = (late, x)" by (cases r)
  show ?thesis
  proof (cases x)
    case (Bytes b)
    then show ?thesis
      using assms r Cons read_request_le by (force simp: Let_def split: if_splits)
  qed (use assms r Cons in \<open>auto split: if_splits\<close>)
qed

function handle_http_in :: "in_env \<Rightarrow> (bool \<times> sock_read) list \<Rightarrow> in_state \<Rightarrow> in_state" where
  "handle_http_in E rs s =
     (case read_request rs [] None of
        (buf, None, eof, rest) \<Rightarrow> s
      | (buf, Some he, eof, rest) \<Rightarrow>
          (case answer_in E buf he s of (cj, s1) \<Rightarrow>
             (let s2 = s1\<lparr>hs_written := hs_written s1 @ [response_text cj]\<rparr> in
              if eof then s2 else handle_http_in E rest s2)))"
  by pat_completeness auto
termination
  by (relation "measure (\<lambda>(E, rs, s). length rs)") (auto dest: read_request_shorter [OF HOL.sym])

declare handle_http_in.simps [simp del]

section \<open>Properties\<close>

text \<open>What may be published through the port.\<close>

definition admissible :: "in_env \<Rightarrow> call \<Rightarrow> bool" where
  "admissible E c \<longleftrightarrow>
     (\<exists>suffix body. c = CStore (hi_root E @ ''.'' @ suffix) body \<and> valid_subject suffix \<and>
        cd_parse (hi_codec E) body \<noteq> None \<and> (hi_allow E = [] \<or> suffix_allowed suffix (hi_allow E)))"

lemma publish_in_history:
  "hs_history (snd (publish_in E suffix body s)) = hs_history s @ [CStore (hi_root E @ ''.'' @ suffix) body]"
  by (auto simp: publish_in_def do_call_def trace_pub_def trace_fail_def Let_def split: option.split)

lemma answer_in_history:
  "\<exists>t. hs_history (snd (answer_in E buf he s)) = hs_history s @ t \<and> list_all (admissible E) t"
proof -
  obtain req_method req_path where rl: "request_line buf = (req_method, req_path)" by fastforce
  define suffix where "suffix = ingest_suffix req_path"
  have ok: "list_all (admissible E) [CStore (hi_root E @ ''.'' @ suffix) (drop he buf)]"
    if "valid_subject suffix" "cd_parse (hi_codec E) (drop he buf) \<noteq> None"
      "hi_allow E = [] \<or> suffix_allowed suffix (hi_allow E)"
    using that unfolding admissible_def by auto
  show ?thesis
    unfolding answer_in_def rl prod.case Let_def suffix_def [symmetric]
    using ok publish_in_history [of E suffix "drop he buf" s] by auto
qed

text \<open>
  (C18) The unauthenticated webhook port reaches only the subjects it is meant to: whatever bytes a
  client sends, each publish is under the root on a valid subject, permitted by \<open>ALLOW\<close> when that
  is set, and carries JSON.
\<close>

theorem webhook_publishes_what_is_allowed:
  "\<exists>t. hs_history (handle_http_in E rs s) = hs_history s @ t \<and> list_all (admissible E) t"
proof (induction E rs s rule: handle_http_in.induct)
  case (1 E rs s)
  obtain buf he eof rest where rd: "read_request rs [] None = (buf, he, eof, rest)" by (metis surj_pair)
  show ?case
  proof (cases he)
    case None
    then show ?thesis using rd by (subst handle_http_in.simps) simp
  next
    case (Some h)
    obtain cj s1 where an: "answer_in E buf h s = (cj, s1)" by fastforce
    obtain t where t: "hs_history s1 = hs_history s @ t" "list_all (admissible E) t"
      using answer_in_history [of E buf h s] an by auto
    define s2 where "s2 = s1\<lparr>hs_written := hs_written s1 @ [response_text cj]\<rparr>"
    have step: "handle_http_in E rs s = (if eof then s2 else handle_http_in E rest s2)"
      using rd Some an by (subst handle_http_in.simps) (simp add: s2_def)
    show ?thesis
    proof (cases eof)
      case True
      then show ?thesis using step t by (auto simp: s2_def)
    next
      case False
      obtain u where "hs_history (handle_http_in E rest s2) = hs_history s2 @ u" "list_all (admissible E) u"
        using "1.IH" [OF rd [symmetric] refl Some refl an [symmetric] s2_def False] by blast
      then show ?thesis using step False t by (auto simp: s2_def intro!: exI [of _ "t @ u"])
    qed
  qed
qed

text \<open>
  Everything after the headers is taken for the body, also what belongs to the next request: of two
  requests that arrive together the first is refused and the second is lost.
\<close>

definition one_post :: string where
  "one_post = ''POST /ingest/a HTTP/1.1'' @ crlf @ ''Content-Length: 1'' @ crlf @ crlf @ ''1''"

definition demo_in :: in_env where
  "demo_in =
     \<lparr>hi_nats = \<lparr>nt_answer = (\<lambda>_ _. None), nt_up = (\<lambda>_. True), nt_epoch = (\<lambda>_. 0), nt_limit = (\<lambda>_. 1000),
        nt_state = (\<lambda>_. Ok (0, 0, 0)), nt_message = (\<lambda>_ _. Err ''none''), nt_purged = (\<lambda>_. 0)\<rparr>,
      hi_codec = \<lparr>cd_print = (\<lambda>_. ''1''), cd_parse = (\<lambda>s. if s = ''1'' then Some (VNumber (PosInt 1)) else None)\<rparr>,
      hi_now = (\<lambda>_. 0), hi_name = ''connector:in'', hi_root = ''vx'', hi_allow = [], hi_debug = id\<rparr>"

definition demo_in_state :: in_state where
  "demo_in_state = \<lparr>hs_history = [], hs_traces = \<lparr>tr_seq = 0, tr_rings = []\<rparr>, hs_written = []\<rparr>"

lemma requests_apart_are_published:
  "hs_history (handle_http_in demo_in [(False, Bytes one_post), (False, Bytes one_post)] demo_in_state) =
     [CStore ''vx.a'' ''1'', CStore ''vx.a'' ''1'']"
  by code_simp

lemma requests_together_are_lost:
  "hs_history (handle_http_in demo_in [(False, Bytes (one_post @ one_post))] demo_in_state) = []"
  by code_simp

end
