(* ===== verification/Calendar.thy ===== *)
theory Calendar
  imports Rust_Str
begin

text \<open>
  The date of a second, from \<open>iso8601_utc\<close> of \<open>core/src/connectors.rs\<close>: days are turned into a
  civil date by arithmetic on eras of 400 years that start in March. The reference is the
  calendar itself, counted forward one day at a time from the first of January 1970.
\<close>

section \<open>The code\<close>

definition year_of_era :: "int \<Rightarrow> int" where
  "year_of_era doe = (doe - doe div 1460 + doe div 36524 - doe div 146096) div 365"

definition month_day :: "int \<Rightarrow> int \<times> int" where
  "month_day doy =
     (let mp = (5 * doy + 2) div 153; d = doy - (153 * mp + 2) div 5 + 1;
          mo = (if mp < 10 then mp + 3 else mp - 9) in (mo, d))"

definition civil :: "int \<Rightarrow> int \<times> int \<times> int" where
  "civil days =
     (let z = days + 719468; era = z div 146097; doe = z mod 146097;
          yoe = year_of_era doe;
          doy = doe - (365 * yoe + yoe div 4 - yoe div 100);
          (mo, d) = month_day doy;
          y = yoe + era * 400 + (if mo \<le> 2 then 1 else 0)
      in (y, mo, d))"

definition pad :: "nat \<Rightarrow> int \<Rightarrow> string" where
  "pad w n = (let s = int_str n in replicate (w - length s) CHR ''0'' @ s)"

definition iso8601_utc :: "nat \<Rightarrow> string" where
  "iso8601_utc secs =
     (let rem = int (secs mod 86400);
          (y, mo, d) = civil (int (secs div 86400))
      in pad 4 y @ ''-'' @ pad 2 mo @ ''-'' @ pad 2 d @ ''T'' @
         pad 2 (rem div 3600) @ '':'' @ pad 2 (rem mod 3600 div 60) @ '':'' @ pad 2 (rem mod 60) @ ''Z'')"

section \<open>The calendar\<close>

definition leap :: "int \<Rightarrow> bool" where
  "leap y \<longleftrightarrow> 4 dvd y \<and> (\<not> 100 dvd y \<or> 400 dvd y)"

definition month_length :: "int \<Rightarrow> int \<Rightarrow> int" where
  "month_length y m = (if m = 2 then if leap y then 29 else 28 else if m \<in> {4, 6, 9, 11} then 30 else 31)"

fun next_day :: "int \<times> int \<times> int \<Rightarrow> int \<times> int \<times> int" where
  "next_day (y, m, d) =
     (if d < month_length y m then (y, m, d + 1) else if m < 12 then (y, m + 1, 1) else (y + 1, 1, 1))"

section \<open>Years of an era\<close>

definition year_start :: "int \<Rightarrow> int" where
  "year_start y = 365 * y + y div 4 - y div 100"

definition year_days :: "int \<Rightarrow> int" where
  "year_days y = (if leap (y + 1) then 366 else 365)"

definition shrunk :: "int \<Rightarrow> int" where
  "shrunk d = d - d div 1460 + d div 36524 - d div 146096"

lemma shrunk_step: "shrunk d \<le> shrunk (d + 1)"
proof -
  have c: "(d + 1) div 36524 = d div 36524 \<or> (d + 1) div 36524 = d div 36524 + 1" by linarith
  have "d div 36524 - d div 36524 div 4 \<le> (d + 1) div 36524 - (d + 1) div 36524 div 4"
    using c by (elim disjE) linarith+
  moreover have "e div 146096 = e div 36524 div 4" for e :: int
    by (simp add: zdiv_zmult2_eq [symmetric])
  moreover have "(d + 1) div 1460 \<le> d div 1460 + 1" by simp
  ultimately show ?thesis unfolding shrunk_def by simp
qed

lemma shrunk_mono: "d \<le> e \<Longrightarrow> shrunk d \<le> shrunk e"
proof (induction e rule: int_ge_induct)
  case (step e)
  then show ?case using shrunk_step [of e] by simp
qed simp

lemma year_table:
  "\<forall>y \<in> set [0..399]. year_start y + year_days y = (if y = 399 then 146097 else year_start (y + 1)) \<and>
     y * 365 \<le> shrunk (year_start y) \<and> shrunk (year_start y + year_days y - 1) < (y + 1) * 365"
  by code_simp

lemma year_of_era_shrunk: "year_of_era doe = shrunk doe div 365"
  by (simp add: year_of_era_def shrunk_def)

lemma year_bounds:
  assumes "0 \<le> y" and "y < 400"
  shows "year_start y + year_days y = (if y = 399 then 146097 else year_start (y + 1))"
    and "y * 365 \<le> shrunk (year_start y)" and "shrunk (year_start y + year_days y - 1) < (y + 1) * 365"
proof -
  have "y \<in> set [0..399]" using assms by simp
  with year_table show "year_start y + year_days y = (if y = 399 then 146097 else year_start (y + 1))"
    and "y * 365 \<le> shrunk (year_start y)" and "shrunk (year_start y + year_days y - 1) < (y + 1) * 365"
    by blast+
qed

lemma year_of_era_is:
  assumes y: "0 \<le> y" "y < 400" and doe: "year_start y \<le> doe" "doe < year_start y + year_days y"
  shows "year_of_era doe = y"
proof -
  have "y * 365 \<le> shrunk doe" using year_bounds(2) [OF y] shrunk_mono [OF doe(1)] by simp
  moreover have "shrunk doe < (y + 1) * 365"
    using year_bounds(3) [OF y] shrunk_mono [of doe "year_start y + year_days y - 1"] doe(2) by simp
  ultimately show ?thesis unfolding year_of_era_shrunk by simp
qed

lemma era_year:
  assumes "0 \<le> doe" and "doe < 146097"
  obtains y where "0 \<le> y" "y < 400" "year_start y \<le> doe" "doe < year_start y + year_days y"
proof -
  have "\<exists>y. 0 \<le> y \<and> y < 400 \<and> year_start y \<le> doe \<and> doe < year_start y + year_days y"
    if "doe < (if n < 400 then year_start (int n) else 146097)" "n \<le> 400" for n
    using that
  proof (induction n)
    case 0
    then show ?case using assms(1) by (simp add: year_start_def)
  next
    case (Suc n)
    have "0 \<le> int n" "int n < 400" using Suc.prems(2) by auto
    note b = year_bounds(1) [OF this]
    show ?case
    proof (cases "doe < year_start (int n)")
      case True
      then show ?thesis using Suc by simp
    next
      case False
      have "doe < year_start (int n) + year_days (int n)"
        using Suc.prems b by (auto simp: algebra_simps split: if_splits)
      then show ?thesis using False Suc.prems(2) by (intro exI [of _ "int n"]) auto
    qed
  qed
  from this [of 400] assms(2) that show thesis by auto
qed

section \<open>Months\<close>

lemma month_table:
  "\<forall>doy \<in> set [0..365].
     (case month_day doy of (m, d) \<Rightarrow>
        1 \<le> m \<and> m \<le> 12 \<and> (doy = 364 \<longrightarrow> m = 2 \<and> d = 28) \<and> (doy = 365 \<longrightarrow> m = 2 \<and> d = 29) \<and>
        (doy < 364 \<longrightarrow> m = 2 \<longrightarrow> d < 28) \<and>
        (doy < 365 \<longrightarrow> month_day (doy + 1) =
          (if m = 2 \<or> d < month_length 0 m then (m, d + 1) else (if m < 12 then m + 1 else 1, 1))))"
  by code_simp

definition era_date :: "int \<Rightarrow> int \<Rightarrow> int \<Rightarrow> int \<times> int \<times> int" where
  "era_date era y doy = (case month_day doy of (m, d) \<Rightarrow> (y + era * 400 + (if m \<le> 2 then 1 else 0), m, d))"

lemma leap_era: "leap (y + era * 400) \<longleftrightarrow> leap y"
proof -
  have "4 dvd era * 400" "100 dvd era * 400" "400 dvd era * (400 :: int)" by (rule dvd_mult, simp)+
  then show ?thesis unfolding leap_def by (simp only: dvd_add_left_iff)
qed

lemma month_step:
  assumes "0 \<le> doy" and "doy \<le> 365" and "month_day doy = (m, d)"
  shows "1 \<le> m" "m \<le> 12" "doy = 364 \<Longrightarrow> m = 2 \<and> d = 28" "doy = 365 \<Longrightarrow> m = 2 \<and> d = 29"
    "doy < 364 \<Longrightarrow> m = 2 \<Longrightarrow> d < 28"
    "doy < 365 \<Longrightarrow> month_day (doy + 1) =
       (if m = 2 \<or> d < month_length 0 m then (m, d + 1) else (if m < 12 then m + 1 else 1, 1))"
proof -
  have "doy \<in> set [0..365]" using assms by simp
  from bspec [OF month_table this, unfolded assms(3) prod.case]
  show "1 \<le> m" "m \<le> 12" "doy = 364 \<Longrightarrow> m = 2 \<and> d = 28" "doy = 365 \<Longrightarrow> m = 2 \<and> d = 29"
    "doy < 364 \<Longrightarrow> m = 2 \<Longrightarrow> d < 28"
    "doy < 365 \<Longrightarrow> month_day (doy + 1) =
       (if m = 2 \<or> d < month_length 0 m then (m, d + 1) else (if m < 12 then m + 1 else 1, 1))"
    by blast+
qed

lemma month_length_other: "m \<noteq> 2 \<Longrightarrow> month_length y m = month_length 0 m"
  by (simp add: month_length_def)

lemma month_length_feb: "month_length y 2 = (if leap y then 29 else 28)"
  by (simp add: month_length_def)

lemma era_date_step:
  assumes y: "0 \<le> y" and doy: "0 \<le> doy" "doy + 1 < year_days y"
  shows "next_day (era_date era y doy) = era_date era y (doy + 1)"
proof -
  obtain m d where md: "month_day doy = (m, d)" by (cases "month_day doy")
  have "doy < 365" using doy by (auto simp: year_days_def split: if_splits)
  note t = month_step [OF doy(1) _ md] and nx = month_step(6) [OF doy(1) _ md this]
  define Y where "Y = y + era * 400 + (if m \<le> 2 then 1 else 0)"
  show ?thesis
  proof (cases "m = 2")
    case True
    have "d < month_length Y 2"
    proof (cases "doy = 364")
      case True
      then have "leap (y + 1)" using doy(2) by (auto simp: year_days_def split: if_splits)
      then show ?thesis
        using t(3) True leap_era [of "y + 1" era] \<open>m = 2\<close> by (simp add: Y_def month_length_feb algebra_simps)
    next
      case False
      then show ?thesis using t(5) \<open>doy < 365\<close> True by (simp add: month_length_feb)
    qed
    then show ?thesis using True md nx \<open>doy < 365\<close> by (simp add: era_date_def Y_def)
  next
    case False
    have "next_day (era_date era y doy) =
        (if d < month_length 0 m then (Y, m, d + 1) else if m < 12 then (Y, m + 1, 1) else (Y + 1, 1, 1))"
      using md month_length_other [OF False, of Y] by (simp add: era_date_def Y_def)
    moreover have "era_date era y (doy + 1) =
        (if d < month_length 0 m then (Y, m, d + 1) else if m < 12 then (Y, m + 1, 1) else (Y + 1, 1, 1))"
    proof (cases "d < month_length 0 m")
      case True
      then show ?thesis using nx \<open>doy < 365\<close> by (simp add: era_date_def Y_def)
    next
      case long: False
      have "m = 1 \<or> 3 \<le> m \<and> m < 12 \<or> m = 12" using t(1,2) False \<open>doy < 365\<close> by auto
      then show ?thesis using nx long \<open>doy < 365\<close> by (elim disjE) (simp_all add: era_date_def Y_def)
    qed
    ultimately show ?thesis by simp
  qed
qed

lemma era_date_wrap:
  assumes y: "0 \<le> y" and doy: "0 \<le> doy" "doy + 1 = year_days y"
  shows "next_day (era_date era y doy) = (y + 1 + era * 400, 3, 1)"
proof -
  obtain m d where md: "month_day doy = (m, d)" by (cases "month_day doy")
  have le: "doy \<le> 365" using doy by (auto simp: year_days_def split: if_splits)
  note t = month_step [OF doy(1) le md]
  have "m = 2" and "d = month_length (y + 1 + era * 400) 2"
    using doy(2) t(3,4) leap_era [of "y + 1" era]
    by (auto simp: year_days_def month_length_feb split: if_splits)
  then show ?thesis using md by (simp add: era_date_def algebra_simps)
qed

lemma civil_era_date:
  assumes y: "0 \<le> y" "y < 400" and doy: "0 \<le> doy" "doy < year_days y"
    and days: "days + 719468 = era * 146097 + (year_start y + doy)"
  shows "civil days = era_date era y doy"
proof -
  have le: "year_start y + year_days y \<le> 146097"
    using year_bounds(1) [OF y] y by (cases "y = 399") (auto simp: year_start_def)
  have "0 \<le> year_start y" using y by (simp add: year_start_def)
  then have "0 \<le> year_start y + doy" "year_start y + doy < 146097" using doy le by linarith+
  then have "(days + 719468) div 146097 = era" "(days + 719468) mod 146097 = year_start y + doy"
    unfolding days by simp_all
  moreover have "year_of_era (year_start y + doy) = y"
    using year_of_era_is [OF y] doy by simp
  ultimately show ?thesis
    by (simp add: civil_def era_date_def year_start_def Let_def split: prod.split)
qed

lemma era_date_first: "era_date era y 0 = (y + era * 400, 3, 1)"
  by (simp add: era_date_def month_day_def)

lemma civil_step: "civil (days + 1) = next_day (civil days)"
proof -
  define era doe where "era = (days + 719468) div 146097" and "doe = (days + 719468) mod 146097"
  have z: "days + 719468 = era * 146097 + doe" by (simp add: era_def doe_def)
  obtain y where y: "0 \<le> y" "y < 400" and doe: "year_start y \<le> doe" "doe < year_start y + year_days y"
    using era_year [of doe] by (auto simp: doe_def)
  define doy where "doy = doe - year_start y"
  have doy: "0 \<le> doy" "doy < year_days y" using doe by (simp_all add: doy_def)
  have now: "civil days = era_date era y doy"
    using civil_era_date [OF y doy] z by (simp add: doy_def)
  show ?thesis
  proof (cases "doy + 1 < year_days y")
    case True
    have "civil (days + 1) = era_date era y (doy + 1)"
      using civil_era_date [OF y _ True] doy(1) z by (simp add: doy_def)
    then show ?thesis using now era_date_step [OF y(1) doy(1) True] by simp
  next
    case False
    then have last_day: "doy + 1 = year_days y" using doy(2) by simp
    have "civil (days + 1) = (y + 1 + era * 400, 3, 1)"
    proof (cases "y = 399")
      case True
      have "civil (days + 1) = era_date (era + 1) 0 0"
        by (rule civil_era_date)
          (use z last_day year_bounds(1) [OF y] True in \<open>auto simp: doy_def year_start_def year_days_def\<close>)
      then show ?thesis using True by (simp add: era_date_first)
    next
      case False
      have "civil (days + 1) = era_date era (y + 1) 0"
        by (rule civil_era_date)
          (use z last_day year_bounds(1) [OF y] False y in \<open>auto simp: doy_def year_days_def\<close>)
      then show ?thesis by (simp add: era_date_first)
    qed
    then show ?thesis using now era_date_wrap [OF y(1) doy(1) last_day] by simp
  qed
qed

text \<open>
  (C40) The date that a timestamp prints is the calendar's: the day number is turned into the date
  that counting forward from 1970-01-01 one day at a time reaches, through every month length and
  leap year, and the time of day is the rest of the seconds.
\<close>

theorem iso8601_is_the_calendar:
  "iso8601_utc secs =
     (case (next_day ^^ (secs div 86400)) (1970, 1, 1) of (y, m, d) \<Rightarrow>
        pad 4 y @ ''-'' @ pad 2 m @ ''-'' @ pad 2 d @ ''T'' @
        pad 2 (int (secs mod 86400 div 3600)) @ '':'' @ pad 2 (int (secs mod 3600 div 60)) @ '':'' @
        pad 2 (int (secs mod 60)) @ ''Z'')"
proof -
  have "civil (int n) = (next_day ^^ n) (1970, 1, 1)" for n
  proof (induction n)
    case 0
    have "civil 0 = (1970, 1, 1)" by code_simp
    then show ?case by simp
  next
    case (Suc n)
    then show ?case using civil_step [of "int n"] by (simp add: algebra_simps)
  qed
  moreover have "secs mod 86400 mod 3600 = secs mod 3600" "secs mod 86400 mod 60 = secs mod 60"
    by (simp_all add: mod_mod_cancel)
  moreover have "int (secs mod 86400) div 3600 = int (secs mod 86400 div 3600)"
    "int (secs mod 86400) mod 3600 div 60 = int (secs mod 86400 mod 3600 div 60)"
    "int (secs mod 86400) mod 60 = int (secs mod 86400 mod 60)"
    by (simp_all only: of_nat_div of_nat_mod of_nat_numeral)
  ultimately show ?thesis
    by (simp only: iso8601_utc_def Let_def)
qed

end
