(* ===== verification/Polling.thy ===== *)
theory Polling
  imports Http_In Calendar
begin

text \<open>
  The polling driver \<open>oauth-poll\<close> of \<open>core/src/connectors.rs\<close>: a token of the client-credentials grant
  kept until shortly before it expires, pages followed by their next link, lists whose items are
  completed by a request each, and one event per page. HTTP answers are any function of the
  requests made so far.
\<close>

section \<open>URLs\<close>

definition unreserved :: "char \<Rightarrow> bool" where
  "unreserved b \<longleftrightarrow> is_ascii_alphanumeric b \<or> b \<in> set ''-_.~''"

definition hex_digit :: "nat \<Rightarrow> char" where
  "hex_digit d = (if d < 10 then char_of (48 + d) else char_of (55 + d))"

definition urlencode :: "string \<Rightarrow> string" where
  "urlencode s =
     concat (map (\<lambda>b. if unreserved b then [b]
       else [CHR ''%'', hex_digit (of_char b div 16), hex_digit (of_char b mod 16)]) s)"

definition join_url :: "string \<Rightarrow> string \<Rightarrow> string" where
  "join_url base endpoint =
     (if starts_with endpoint ''http://'' \<or> starts_with endpoint ''https://'' then endpoint
      else trim_end_matches base ''/'' @ ''/'' @ trim_start_matches endpoint ''/'')"

definition next_url :: "string \<Rightarrow> json \<Rightarrow> string \<Rightarrow> string option" where
  "next_url base body field =
     (case value_get body field of
        Some (VString s) \<Rightarrow> if s = [] then None else Some (join_url base s)
      | _ \<Rightarrow> None)"

definition fill_template :: "string \<Rightarrow> string \<Rightarrow> string \<Rightarrow> string" where
  "fill_template template key value = str_replace template (''{'' @ key @ ''}'') value"

section \<open>Tokens\<close>

type_synonym web_request = "string \<times> string \<times> (string \<times> string) list \<times> string option"

record poll_env =
  pv_web :: "web_request list \<Rightarrow> web_request \<Rightarrow> (nat \<times> string, string) result"
  pv_clock :: "web_request list \<Rightarrow> nat"
  pv_alive :: "web_request list \<Rightarrow> bool"
  pv_codec :: codec
  pv_json_error :: "string \<Rightarrow> string"
  pv_nats :: nats
  pv_now :: "call list \<Rightarrow> nat"
  pv_name :: string
  pv_subject :: string
  pv_token_url :: string
  pv_client_id :: string
  pv_client_secret :: string
  pv_scope :: string
  pv_base :: string
  pv_next_field :: string

record poll_state =
  po_requests :: "web_request list"
  po_cached :: "(string \<times> nat) option"
  po_history :: "call list"
  po_traces :: traces

definition web_do :: "poll_env \<Rightarrow> web_request \<Rightarrow> (poll_state, nat \<times> string, string) stm" where
  "web_do P rq s = (pv_web P (po_requests s) rq, s\<lparr>po_requests := po_requests s @ [rq]\<rparr>)"

definition token_form :: "poll_env \<Rightarrow> string" where
  "token_form P =
     ''grant_type=client_credentials&client_id='' @ urlencode (pv_client_id P) @
     ''&client_secret='' @ urlencode (pv_client_secret P) @
     (if pv_scope P = [] then [] else ''&scope='' @ urlencode (pv_scope P))"

definition ok_code :: "nat \<Rightarrow> bool" where
  "ok_code code \<longleftrightarrow> 200 \<le> code \<and> code < 300"

text \<open>The lifetime is cut by a minute, not below thirty seconds.\<close>

definition token_ttl :: "json \<Rightarrow> nat" where
  "token_ttl v = max 30 (nat (case as_u64 (value_index v ''expires_in'') of Some n \<Rightarrow> n | None \<Rightarrow> 300) - 60)"

definition oauth_token :: "poll_env \<Rightarrow> (poll_state, string \<times> nat, string) stm" where
  "oauth_token P =
     mbind (web_do P (''POST'', pv_token_url P, [(''Content-Type'', ''application/x-www-form-urlencoded'')],
         Some (token_form P))) (\<lambda>(code, body).
       if \<not> ok_code code then
         mfail (''token endpoint HTTP '' @ nat_str code @ '': '' @ trim (from_utf8_lossy (take 300 body)))
       else
         (case cd_parse (pv_codec P) body of
            None \<Rightarrow> mfail (''token endpoint: bad JSON: '' @ pv_json_error P body)
          | Some v \<Rightarrow>
              (case as_str (value_index v ''access_token'') of
                 None \<Rightarrow> mfail ''token endpoint: no access_token in response''
               | Some tok \<Rightarrow> mret (tok, token_ttl v))))"

text \<open>A deadline beyond the range of the clock panics.\<close>

definition bearer :: "poll_env \<Rightarrow> (poll_state, string, string) stm" where
  "bearer P s =
     (case po_cached s of
        Some (t, deadline) \<Rightarrow>
          if pv_clock P (po_requests s) < deadline then (Ok t, s)
          else mbind (oauth_token P) (\<lambda>(t, ttl) s1.
            let deadline = pv_clock P (po_requests s1) + ttl in
            if 2 ^ 63 \<le> deadline then (Panic, s1) else (Ok t, s1\<lparr>po_cached := Some (t, deadline)\<rparr>)) s
      | None \<Rightarrow>
          mbind (oauth_token P) (\<lambda>(t, ttl) s1.
            let deadline = pv_clock P (po_requests s1) + ttl in
            if 2 ^ 63 \<le> deadline then (Panic, s1) else (Ok t, s1\<lparr>po_cached := Some (t, deadline)\<rparr>)) s)"

definition bearer_get :: "poll_env \<Rightarrow> string \<Rightarrow> (poll_state, nat \<times> string, string) stm" where
  "bearer_get P url =
     mbind (bearer P) (\<lambda>tok. web_do P (''GET'', url, [(''Authorization'', ''Bearer '' @ tok)], None))"

definition authed_get :: "poll_env \<Rightarrow> string \<Rightarrow> (poll_state, nat \<times> string, string) stm" where
  "authed_get P url =
     mbind (bearer_get P url) (\<lambda>(code, body).
       if code = 401 then mbind (mupd (po_cached_update (\<lambda>_. None))) (\<lambda>_. bearer_get P url)
       else mret (code, body))"

section \<open>Pages\<close>

definition page_envelope :: "poll_env \<Rightarrow> json \<Rightarrow> string \<Rightarrow> call list \<Rightarrow> json" where
  "page_envelope P parsed logical h =
     VObject (om_of_list [(''endpoint'', VString logical), (''fetched_at'', VString (iso8601_utc (pv_now P h))),
       (''body'', parsed)])"

definition poll_trace :: "poll_env \<Rightarrow> bool \<Rightarrow> string option \<Rightarrow> string list \<Rightarrow> string \<Rightarrow> poll_state \<Rightarrow> poll_state" where
  "poll_trace P ok error subjects preview s =
     s\<lparr>po_traces := record_trace_full (pv_now P (po_history s)) (pv_name P) (pv_subject P) ok error subjects preview
        None None (po_traces s)\<rparr>"

definition publish_page :: "poll_env \<Rightarrow> json \<Rightarrow> string \<Rightarrow> (poll_state, unit, string) stm" where
  "publish_page P parsed logical s =
     (let bytes = cd_print (pv_codec P) (page_envelope P parsed logical (po_history s)) in
      case do_call (pv_nats P) (CStore (pv_subject P) bytes) (po_history s) of
        (Ok _, h) \<Rightarrow> (Ok (), poll_trace P True None [pv_subject P] (trace_preview bytes) (s\<lparr>po_history := h\<rparr>))
      | (Err e, h) \<Rightarrow> (Err (''publish: '' @ e), s\<lparr>po_history := h\<rparr>)
      | (Panic, h) \<Rightarrow> (Panic, s\<lparr>po_history := h\<rparr>))"

definition poll_fail :: "poll_env \<Rightarrow> string \<Rightarrow> poll_state \<Rightarrow> poll_state" where
  "poll_fail P msg = poll_trace P False (Some msg) [] []"

text \<open>
  The pages of one list: \<open>enrich\<close> works on a parsed page before it is published, and may see a stop.
  The answer \<open>True\<close> ends the run.
\<close>

fun pages ::
  "poll_env \<Rightarrow> string \<Rightarrow> (json \<Rightarrow> (poll_state, bool \<times> json, string) stm) \<Rightarrow> nat \<Rightarrow> string \<Rightarrow> (poll_state, bool, string) stm" where
  "pages P logical enrich 0 url = mret False"
| "pages P logical enrich (Suc n) url = (\<lambda>s.
     if \<not> pv_alive P (po_requests s) then (Ok True, s)
     else
       (case authed_get P url s of
          (Ok (code, body), s1) \<Rightarrow>
            if ok_code code then
              (case cd_parse (pv_codec P) body of
                 None \<Rightarrow> (Ok False, s1)
               | Some page \<Rightarrow>
                   mbind (enrich page) (\<lambda>(stopped, parsed).
                     if stopped then mret True
                     else mbind (publish_page P parsed logical) (\<lambda>_.
                       case next_url (pv_base P) parsed (pv_next_field P) of
                         Some url' \<Rightarrow> pages P logical enrich n url'
                       | None \<Rightarrow> mret False)) s1)
            else (Ok False, poll_fail P (logical @ '': HTTP '' @ nat_str code @ '': '' @
              trim (from_utf8_lossy (take 200 body))) s1)
        | (Err e, s1) \<Rightarrow> (Ok False, poll_fail P (logical @ '': '' @ e) s1)
        | (Panic, s1) \<Rightarrow> (Panic, s1)))"

definition endpoint_pages :: "poll_env \<Rightarrow> nat \<Rightarrow> string \<Rightarrow> (poll_state, bool, string) stm" where
  "endpoint_pages P max_pages ep =
     pages P ep (\<lambda>page. mret (False, page)) max_pages (join_url (pv_base P) ep)"

record expand =
  ex_name :: string
  ex_list :: string
  ex_detail :: string
  ex_key :: string
  ex_as :: string
  ex_list_field :: string

definition entry_field :: "json \<Rightarrow> string \<Rightarrow> string option" where
  "entry_field e k = (case value_get e k of Some v \<Rightarrow> as_str v | None \<Rightarrow> None)"

fun parse_expand_list :: "json list \<Rightarrow> (expand list, string) result" where
  "parse_expand_list [] = Ok []"
| "parse_expand_list (e # es) =
     (case (entry_field e ''name'', entry_field e ''list'', entry_field e ''detail'', entry_field e ''key'', entry_field e ''as'') of
        (Some n, Some l, Some d, Some k, Some a) \<Rightarrow>
          rbind (parse_expand_list es) (\<lambda>xs.
            Ok (\<lparr>ex_name = n, ex_list = l, ex_detail = d, ex_key = k, ex_as = a,
              ex_list_field = (case entry_field e ''list_field'' of Some f \<Rightarrow> f | None \<Rightarrow> ''value'')\<rparr> # xs))
      | _ \<Rightarrow> Err ''every EXPAND entry needs name, list, detail, key and as'')"

definition parse_expands :: "config \<Rightarrow> (expand list, string) result" where
  "parse_expands cfg =
     (case om_get cfg ''EXPAND'' of
        None \<Rightarrow> Ok []
      | Some (VArray entries) \<Rightarrow> parse_expand_list entries
      | Some _ \<Rightarrow> Err ''EXPAND must be a list of {name, list, detail, key, as} docs'')"

text \<open>An item that is a bare identifier becomes an object; a detail that fails is null.\<close>

definition expand_item :: "poll_env \<Rightarrow> expand \<Rightarrow> json \<Rightarrow> (poll_state, json, string) stm" where
  "expand_item P x item s =
     (let item1 = (case item of VString i \<Rightarrow> VObject [(ex_key x, VString i)] | _ \<Rightarrow> item) in
      case entry_field item1 (ex_key x) of
        None \<Rightarrow> (Ok item1, s)
      | Some i \<Rightarrow>
          (case authed_get P (join_url (pv_base P) (fill_template (ex_detail x) (ex_key x) i)) s of
             (Panic, s1) \<Rightarrow> (Panic, s1)
           | (r, s1) \<Rightarrow>
               (let detail = (case r of
                    Ok (code, body) \<Rightarrow>
                      if ok_code code then (case cd_parse (pv_codec P) body of Some v \<Rightarrow> v | None \<Rightarrow> VNull) else VNull
                  | _ \<Rightarrow> VNull)
                in (Ok (case item1 of VObject m \<Rightarrow> VObject (om_insert (ex_as x) detail m) | _ \<Rightarrow> item1), s1))))"

fun expand_items :: "poll_env \<Rightarrow> expand \<Rightarrow> json list \<Rightarrow> (poll_state, bool \<times> json list, string) stm" where
  "expand_items P x [] = mret (False, [])"
| "expand_items P x (item # items) = (\<lambda>s.
     if \<not> pv_alive P (po_requests s) then (Ok (True, item # items), s)
     else mbind (expand_item P x item) (\<lambda>item'.
       mbind (expand_items P x items) (\<lambda>(stopped, rest). mret (stopped, item' # rest))) s)"

definition expand_page :: "poll_env \<Rightarrow> expand \<Rightarrow> json \<Rightarrow> (poll_state, bool \<times> json, string) stm" where
  "expand_page P x page =
     (case page of
        VObject m \<Rightarrow>
          (case om_get m (ex_list_field x) of
             Some (VArray items) \<Rightarrow>
               mbind (expand_items P x items) (\<lambda>(stopped, items').
                 mret (stopped, VObject (om_insert (ex_list_field x) (VArray items') m)))
           | _ \<Rightarrow> mret (False, page))
      | _ \<Rightarrow> mret (False, page))"

definition expand_pages :: "poll_env \<Rightarrow> nat \<Rightarrow> expand \<Rightarrow> (poll_state, bool, string) stm" where
  "expand_pages P max_pages x =
     pages P (ex_name x) (expand_page P x) max_pages (join_url (pv_base P) (ex_list x))"

section \<open>A tick\<close>

fun until_stopped :: "('a \<Rightarrow> ('s, bool, string) stm) \<Rightarrow> 'a list \<Rightarrow> ('s, bool, string) stm" where
  "until_stopped f [] = mret False"
| "until_stopped f (x # xs) = mbind (f x) (\<lambda>stopped. if stopped then mret True else until_stopped f xs)"

definition poll_tick :: "poll_env \<Rightarrow> nat \<Rightarrow> string list \<Rightarrow> expand list \<Rightarrow> (poll_state, bool, string) stm" where
  "poll_tick P max_pages endpoints expands s =
     (case bearer P s of
        (Err e, s1) \<Rightarrow> (Err e, poll_fail P e s1)
      | (Panic, s1) \<Rightarrow> (Panic, s1)
      | (Ok _, s1) \<Rightarrow>
          mbind (until_stopped (endpoint_pages P max_pages) endpoints) (\<lambda>stopped.
            if stopped then mret True else until_stopped (expand_pages P max_pages) expands) s1)"

text \<open>A timer event carries its time.\<close>

definition stamp_ts :: "json \<Rightarrow> nat \<Rightarrow> json" where
  "stamp_ts payload secs =
     (case payload of
        VObject m \<Rightarrow>
          if om_get m ''ts'' = None then VObject (om_insert ''ts'' (VString (iso8601_utc secs)) m) else payload
      | _ \<Rightarrow> payload)"

section \<open>Facts\<close>

text \<open>How many requests and publishes a step makes at most.\<close>

definition asks :: "nat \<Rightarrow> nat \<Rightarrow> (poll_state, 'a, string) stm \<Rightarrow> bool" where
  "asks n k m \<longleftrightarrow>
     (\<forall>s. length (po_requests (snd (m s))) \<le> length (po_requests s) + n \<and>
          length (po_history (snd (m s))) \<le> length (po_history s) + k)"

lemma asks_bind:
  assumes "asks n k m" and "\<And>x. asks n' k' (f x)"
  shows "asks (n + n') (k + k') (mbind m f)"
  unfolding asks_def
proof
  fix s
  obtain r s1 where m: "m s = (r, s1)" by fastforce
  show "length (po_requests (snd (mbind m f s))) \<le> length (po_requests s) + (n + n') \<and>
      length (po_history (snd (mbind m f s))) \<le> length (po_history s) + (k + k')"
  proof (cases r)
    case (Ok x)
    have "length (po_requests s1) \<le> length (po_requests s) + n" "length (po_history s1) \<le> length (po_history s) + k"
      using assms(1) m unfolding asks_def by (metis snd_conv)+
    moreover have "length (po_requests (snd (f x s1))) \<le> length (po_requests s1) + n'"
      "length (po_history (snd (f x s1))) \<le> length (po_history s1) + k'"
      using assms(2) unfolding asks_def by blast+
    ultimately show ?thesis using m Ok by (simp add: mbind_def)
  qed (use assms(1) m in \<open>auto simp: asks_def mbind_def intro: le_trans dest!: spec [of _ s]\<close>)
qed

lemma asks_weaken: "asks n k m \<Longrightarrow> n \<le> n' \<Longrightarrow> k \<le> k' \<Longrightarrow> asks n' k' m"
  unfolding asks_def by (meson add_left_mono le_trans)

lemma asks_mret [simp]: "asks n k (mret x)"
  by (simp add: asks_def mret_def)

lemma asks_mfail [simp]: "asks n k (mfail e)"
  by (simp add: asks_def mfail_def)

lemma asks_web: "asks 1 0 (web_do P rq)"
  by (simp add: asks_def web_do_def)

lemma asks_token: "asks 1 0 (oauth_token P)"
proof -
  have "asks (1 + 0) (0 + 0) (oauth_token P)"
    unfolding oauth_token_def
    by (intro asks_bind asks_web) (auto split: option.split)
  then show ?thesis by simp
qed

lemma asks_bearer: "asks 1 0 (bearer P)"
proof -
  have "asks (1 + 0) (0 + 0) (mbind (oauth_token P) (\<lambda>(t, ttl) s1.
      let deadline = pv_clock P (po_requests s1) + ttl in
      if 2 ^ 63 \<le> deadline then (Panic, s1) else (Ok t, s1\<lparr>po_cached := Some (t, deadline)\<rparr>)))"
    by (intro asks_bind asks_token) (auto simp: asks_def Let_def)
  then show ?thesis
    unfolding asks_def bearer_def by (simp split: option.split prod.split)
qed

lemma asks_bearer_get: "asks 2 0 (bearer_get P url)"
proof -
  have "asks (1 + 1) (0 + 0) (bearer_get P url)"
    unfolding bearer_get_def by (intro asks_bind asks_bearer asks_web)
  then show ?thesis by (rule asks_weaken) simp_all
qed

lemma asks_authed_get: "asks 4 0 (authed_get P url)"
proof -
  have "asks (0 + 2) (0 + 0) (mbind (mupd (po_cached_update (\<lambda>_. None))) (\<lambda>_. bearer_get P url))"
    by (intro asks_bind asks_bearer_get) (simp add: asks_def mupd_def)
  then have again: "asks 2 0 (mbind (mupd (po_cached_update (\<lambda>_. None))) (\<lambda>_. bearer_get P url))"
    by (rule asks_weaken) simp_all
  have "asks (2 + 2) (0 + 0) (authed_get P url)"
    unfolding authed_get_def by (intro asks_bind asks_bearer_get) (use again in \<open>auto split: prod.split\<close>)
  then show ?thesis by simp
qed

lemma asks_publish: "asks 0 1 (publish_page P parsed logical)"
  by (auto simp: asks_def publish_page_def poll_trace_def Let_def do_call_def split: option.split)

lemma asks_pages:
  assumes enrich: "\<And>page. asks c 0 (enrich page)"
  shows "asks (n * (4 + c)) n (pages P logical enrich n url)"
proof (induction n arbitrary: url)
  case (Suc n)
  define rest where "rest page = mbind (enrich page) (\<lambda>(stopped, parsed).
      if stopped then mret True
      else mbind (publish_page P parsed logical) (\<lambda>_.
        case next_url (pv_base P) parsed (pv_next_field P) of
          Some url' \<Rightarrow> pages P logical enrich n url'
        | None \<Rightarrow> mret False))" for page
  have "asks (c + (0 + n * (4 + c))) (0 + (1 + n)) (rest page)" for page
    unfolding rest_def
    by (intro asks_bind enrich) (auto intro!: asks_bind [THEN asks_weaken] asks_publish Suc.IH split: option.split)
  then have r: "asks (c + n * (4 + c)) (1 + n) (rest page)" for page by simp
  show ?case
    unfolding asks_def
  proof
    fix s
    obtain q s1 where g: "authed_get P url s = (q, s1)" by fastforce
    have s1: "length (po_requests s1) \<le> length (po_requests s) + 4" "length (po_history s1) \<le> length (po_history s)"
      using asks_authed_get [of P url] g unfolding asks_def by (metis snd_conv add.right_neutral)+
    have "length (po_requests (snd (rest page s1))) \<le> length (po_requests s) + (4 + c + n * (4 + c)) \<and>
        length (po_history (snd (rest page s1))) \<le> Suc (length (po_history s) + n)" for page
    proof -
      have "length (po_requests (snd (rest page s1))) \<le> length (po_requests s1) + (c + n * (4 + c)) \<and>
          length (po_history (snd (rest page s1))) \<le> length (po_history s1) + (1 + n)"
        using r [of page] unfolding asks_def by blast
      then show ?thesis using s1 by linarith
    qed
    with s1 show "length (po_requests (snd (pages P logical enrich (Suc n) url s))) \<le> length (po_requests s) + Suc n * (4 + c) \<and>
        length (po_history (snd (pages P logical enrich (Suc n) url s))) \<le> length (po_history s) + Suc n"
      using g
      by (cases q) (auto simp: rest_def [symmetric] poll_fail_def poll_trace_def split: option.split)
  qed
qed simp

section \<open>Properties\<close>

text \<open>
  (C29) A server cannot keep the poller busy: in one tick an endpoint costs at most four requests
  and one publish for each of the \<open>MAX_PAGES\<close> pages, whatever next links the pages carry and
  however often the token is refused.
\<close>

theorem polling_is_bounded:
  "length (po_requests (snd (endpoint_pages P max_pages ep s))) \<le> length (po_requests s) + 4 * max_pages \<and>
   length (po_history (snd (endpoint_pages P max_pages ep s))) \<le> length (po_history s) + max_pages"
proof -
  have "asks (max_pages * (4 + 0)) max_pages (endpoint_pages P max_pages ep)"
    unfolding endpoint_pages_def by (rule asks_pages) simp
  then show ?thesis by (simp add: asks_def mult.commute)
qed

text \<open>A form value is read back as it was: the reference decoder.\<close>

definition hex_value :: "char \<Rightarrow> nat" where
  "hex_value c = (let n = of_char c in if n < 65 then n - 48 else n - 55)"

fun percent_decode :: "string \<Rightarrow> string" where
  "percent_decode [] = []"
| "percent_decode (c # s) =
     (if c = CHR ''%'' then
        (case s of h # l # rest \<Rightarrow> char_of (16 * hex_value h + hex_value l) # percent_decode rest | _ \<Rightarrow> c # percent_decode s)
      else c # percent_decode s)"

lemma hex_value_digit: "d < 16 \<Longrightarrow> hex_value (hex_digit d) = d"
  by (auto simp: hex_value_def hex_digit_def Let_def)

lemma unreserved_hex_digit: "d < 16 \<Longrightarrow> unreserved (hex_digit d)"
proof -
  have "list_all (\<lambda>d. unreserved (hex_digit d)) [0..<16]" by code_simp
  then show "d < 16 \<Longrightarrow> unreserved (hex_digit d)" by (simp add: list_all_iff)
qed

lemma unreserved_not_percent: "unreserved c \<Longrightarrow> c \<noteq> CHR ''%''"
  by (auto simp: unreserved_def is_ascii_alphanumeric_def is_ascii_alphabetic_def is_ascii_digit_def
      is_ascii_uppercase_def is_ascii_lowercase_def byte_in_def byte_def)

text \<open>
  Percent-encoding loses nothing: whatever bytes a credential has, decoding the encoded form
  value gives them back, and the encoded text has only unreserved characters and percent signs, so
  it cannot end a field of the form early.
\<close>

theorem urlencode_roundtrip:
  "percent_decode (urlencode s) = s \<and> set (urlencode s) \<subseteq> {c. unreserved c \<or> c = CHR ''%''}"
proof
  have half: "of_char b div 16 < (16 :: nat)" for b :: char using nat_of_char_less_256 [of b] by linarith
  have enc: "char_of (16 * hex_value (hex_digit (of_char b div 16)) + hex_value (hex_digit (of_char b mod 16))) = b" for b
    by (simp add: hex_value_digit half)
  show "percent_decode (urlencode s) = s"
    by (induction s) (auto simp: urlencode_def enc unreserved_not_percent)
  have "unreserved (hex_digit d)" if "d < 16" for d using that by (rule unreserved_hex_digit)
  then show "set (urlencode s) \<subseteq> {c. unreserved c \<or> c = CHR ''%''}"
    using half by (auto simp: urlencode_def)
qed

end
