(* ===== verification/Salesforce.thy ===== *)
theory Salesforce
  imports Polling
begin

text \<open>
  The Salesforce connector, \<open>connectors/salesforce/src/main.rs\<close>: CSV, one request through curl,
  the bulk query whose rows are written to standard output, and the bulk ingest of rows read from
  standard input. What the process does to the outside, requests, lines on standard output and
  lines on standard error, is one log in the order of the code; curl answers from the log so far.
  The loops that wait for a job and that follow result pages have no bound in the code, so they
  take fuel and running out of it is the error \<open>OutOfFuel\<close>.
\<close>

section \<open>CSV\<close>

definition quote :: char where "quote = CHR 0x22"

definition lf :: char where "lf = CHR 0x0A"

definition cr :: char where "cr = CHR 0x0D"

fun csv_loop :: "string \<Rightarrow> bool \<Rightarrow> string \<Rightarrow> string list \<Rightarrow> string list list \<Rightarrow> string list list" where
  "csv_loop [] in_quotes field rec records =
     (if field \<noteq> [] \<or> rec \<noteq> [] then records @ [rec @ [field]] else records)"
| "csv_loop (c # cs) in_quotes field rec records =
     (if in_quotes then
        (if c = quote then
           (case cs of
              d # ds \<Rightarrow>
                if d = quote then csv_loop ds True (field @ [quote]) rec records
                else csv_loop cs False field rec records
            | [] \<Rightarrow> csv_loop cs False field rec records)
         else csv_loop cs True (field @ [c]) rec records)
      else if c = quote then csv_loop cs True field rec records
      else if c = CHR '','' then csv_loop cs False [] (rec @ [field]) records
      else if c = lf then csv_loop cs False [] [] (records @ [rec @ [field]])
      else if c = cr then csv_loop cs False field rec records
      else csv_loop cs False (field @ [c]) rec records)"

definition parse_csv :: "string \<Rightarrow> string list list" where
  "parse_csv data = csv_loop data False [] [] []"

definition cell_text :: "codec \<Rightarrow> json \<Rightarrow> string" where
  "cell_text C v = (case v of VString s \<Rightarrow> s | VNull \<Rightarrow> [] | other \<Rightarrow> cd_print C other)"

definition needs_quotes :: "string \<Rightarrow> bool" where
  "needs_quotes s \<longleftrightarrow> CHR '','' \<in> set s \<or> quote \<in> set s \<or> lf \<in> set s \<or> cr \<in> set s"

definition csv_cell :: "codec \<Rightarrow> json \<Rightarrow> string" where
  "csv_cell C v =
     (let s = cell_text C v in
      if needs_quotes s then [quote] @ str_replace s [quote] [quote, quote] @ [quote] else s)"

fun csv_columns :: "json omap list \<Rightarrow> string list \<Rightarrow> string list" where
  "csv_columns [] cols = cols"
| "csv_columns (r # rs) cols = csv_columns rs (fold (\<lambda>k cs. if k \<in> set cs then cs else cs @ [k]) (map fst r) cols)"

definition row_cells :: "json omap \<Rightarrow> string list \<Rightarrow> json list" where
  "row_cells r cols = map (\<lambda>c. case om_get r c of Some v \<Rightarrow> v | None \<Rightarrow> VNull) cols"

definition csv_line :: "codec \<Rightarrow> json list \<Rightarrow> string" where
  "csv_line C cells = str_join '','' (map (csv_cell C) cells) @ [lf]"

definition rows_to_csv :: "codec \<Rightarrow> json omap list \<Rightarrow> string list \<times> string" where
  "rows_to_csv C rows =
     (let cols = csv_columns rows [] in
      (cols, csv_line C (map VString cols) @ concat (map (\<lambda>r. csv_line C (row_cells r cols)) rows)))"

section \<open>CSV: facts\<close>

lemma needs_quotes_Cons:
  "needs_quotes (c # s) \<longleftrightarrow> c = CHR '','' \<or> c = quote \<or> c = lf \<or> c = cr \<or> needs_quotes s"
  by (auto simp: needs_quotes_def)

lemma csv_plain:
  "\<not> needs_quotes s \<Longrightarrow> csv_loop (s @ rest) False field rec records = csv_loop rest False (field @ s) rec records"
  by (induction s arbitrary: field) (simp_all add: needs_quotes_Cons)

lemma csv_quoted:
  assumes "rest = [] \<or> hd rest \<noteq> quote"
  shows "csv_loop (concat (map (\<lambda>x. if x = quote then [quote, quote] else [x]) s) @ quote # rest) True field rec records =
     csv_loop rest False (field @ s) rec records"
proof (induction s arbitrary: field)
  case Nil
  then show ?case using assms by (cases rest) auto
qed simp

lemma csv_cell_read:
  assumes "rest = [] \<or> hd rest \<noteq> quote"
  shows "csv_loop (csv_cell C v @ rest) False [] rec records = csv_loop rest False (cell_text C v) rec records"
proof (cases "needs_quotes (cell_text C v)")
  case True
  then show ?thesis
    using csv_quoted [OF assms, of "cell_text C v" "[]" rec records] by (simp add: csv_cell_def replace_char)
next
  case False
  then show ?thesis by (simp add: csv_cell_def csv_plain)
qed

lemma separators: "quote \<noteq> CHR '',''" "quote \<noteq> lf" "CHR '','' \<noteq> lf" "CHR '','' \<noteq> quote" "lf \<noteq> quote" "lf \<noteq> CHR '',''"
  by (simp_all add: quote_def lf_def)

lemma csv_line_read:
  "cells \<noteq> [] \<Longrightarrow>
   csv_loop (str_join '','' (map (csv_cell C) cells) @ lf # rest) False [] rec records =
   csv_loop rest False [] [] (records @ [rec @ map (cell_text C) cells])"
proof (induction cells arbitrary: rec)
  case (Cons v vs)
  show ?case
  proof (cases "vs = []")
    case True
    then show ?thesis by (simp add: csv_cell_read separators)
  next
    case False
    then show ?thesis by (simp add: str_join_Cons csv_cell_read separators Cons.IH)
  qed
qed simp

lemma csv_lines_read:
  assumes "\<And>cells. cells \<in> set ls \<Longrightarrow> cells \<noteq> []"
  shows "csv_loop (concat (map (csv_line C) ls)) False [] [] records = records @ map (map (cell_text C)) ls"
  using assms by (induction ls arbitrary: records) (simp_all add: csv_line_def csv_line_read)

text \<open>
  (C34) What is uploaded reads back as it was: parsing the CSV document built from rows gives the
  columns and then, row by row, the text of the value each row has for each column, whatever
  commas, quotes and line breaks the values and the column names contain.
\<close>

theorem csv_roundtrip:
  assumes "rows_to_csv C rows = (cols, csv)" and "cols \<noteq> []"
  shows "parse_csv csv = cols # map (\<lambda>r. map (cell_text C) (row_cells r cols)) rows"
proof -
  have csv: "csv = concat (map (csv_line C) (map VString cols # map (\<lambda>r. row_cells r cols) rows))"
    using assms(1) by (auto simp: rows_to_csv_def Let_def comp_def)
  have "parse_csv csv = map (map (cell_text C)) (map VString cols # map (\<lambda>r. row_cells r cols) rows)"
    unfolding parse_csv_def csv using assms(2) by (subst csv_lines_read) (auto simp: row_cells_def)
  then show ?thesis by (simp add: cell_text_def comp_def)
qed

section \<open>One request through curl\<close>

type_synonym reply = "nat \<times> (string \<times> string) list \<times> string"

datatype sf_error = Said string | OutOfFuel

text \<open>How far one run of curl came: the configuration file is written, then curl is started,
  given its input and waited for.\<close>

datatype curl_run =
    OpenFailed string
  | WriteFailed string
  | SpawnFailed string
  | StdinFailed string
  | WaitFailed string
  | Exited bool string string

datatype sf_event =
    Exchange string string "(string \<times> string) list" "string option" "(reply, sf_error) result"
  | Out json
  | Status json

record sf_env =
  sf_var :: "string \<Rightarrow> string option"
  sf_codec :: codec
  sf_json_error :: "string \<Rightarrow> string"
  sf_curl :: "sf_event list \<Rightarrow> string \<Rightarrow> string option \<Rightarrow> curl_run"
  sf_temp :: "64 word \<Rightarrow> string"

record sf_state =
  sf_log :: "sf_event list"
  sf_tag :: "64 word"
  sf_files :: "(string \<times> string) list"

definition q :: "string \<Rightarrow> string" where
  "q v = [quote] @ str_replace (str_replace v [CHR 0x5C] [CHR 0x5C, CHR 0x5C]) [quote] [CHR 0x5C, quote] @ [quote]"

definition enc :: "string \<Rightarrow> string" where
  "enc s =
     concat (map (\<lambda>b. if unreserved b then [b]
       else [CHR ''%'', hex_digit (of_char b div 16), hex_digit (of_char b mod 16)]) s)"

definition curl_config :: "string \<Rightarrow> string \<Rightarrow> (string \<times> string) list \<Rightarrow> string option \<Rightarrow> string" where
  "curl_config meth url headers body =
     ''silent'' @ [lf] @ ''show-error'' @ [lf] @ ''include'' @ [lf] @
     ''request = '' @ q meth @ [lf] @ ''url = '' @ q url @ [lf] @
     concat (map (\<lambda>(k, v). ''header = '' @ q (k @ '': '' @ v) @ [lf]) headers) @
     (if body = None then [] else ''data-binary = @-'' @ [lf])"

definition parse_u16 :: "string \<Rightarrow> nat option" where
  "parse_u16 s = (case parse_u64 s of Some n \<Rightarrow> if n < 2 ^ 16 then Some (nat n) else None | None \<Rightarrow> None)"

definition status_code :: "string \<Rightarrow> nat option" where
  "status_code line =
     (case split_whitespace line of _ # c # _ \<Rightarrow> parse_u16 c | _ \<Rightarrow> None)"

definition header_field :: "string \<Rightarrow> (string \<times> string) option" where
  "header_field l = map_option (\<lambda>(k, v). (trim k, trim v)) (split_once l (CHR '':''))"

definition first_line :: "string \<Rightarrow> string" where
  "first_line head = (case str_lines head of l # _ \<Rightarrow> l | [] \<Rightarrow> [])"

function parse_response :: "string \<Rightarrow> (reply, sf_error) result" where
  "parse_response rest =
     (case str_find rest (crlf @ crlf) of
        None \<Rightarrow> Err (Said ''no header/body separator'')
      | Some sep \<Rightarrow>
          (let head = take sep rest; after = drop (sep + 4) rest in
           case status_code (first_line head) of
             None \<Rightarrow> Err (Said (''bad status line: '' @ first_line head))
           | Some code \<Rightarrow>
               if code = 100 then parse_response after
               else Ok (code, List.map_filter header_field (drop 1 (str_lines head)), after)))"
  by pat_completeness auto
termination
  by (relation "measure length") (auto dest!: str_find_bound simp: crlf_def)

declare parse_response.simps [simp del]

definition curl_answer :: "curl_run \<Rightarrow> (reply, sf_error) result" where
  "curl_answer r =
     (case r of
        OpenFailed e \<Rightarrow> Err (Said e)
      | WriteFailed e \<Rightarrow> Err (Said e)
      | SpawnFailed e \<Rightarrow> Err (Said e)
      | StdinFailed e \<Rightarrow> Err (Said e)
      | WaitFailed e \<Rightarrow> Err (Said e)
      | Exited True out err \<Rightarrow> parse_response (from_utf8_lossy out)
      | Exited False out err \<Rightarrow> Err (Said (''curl: '' @ trim (from_utf8_lossy err))))"

text \<open>
  The configuration file is left behind by every early return between its creation and the
  removal after curl has been waited for.
\<close>

definition leftover :: "string \<Rightarrow> string \<Rightarrow> curl_run \<Rightarrow> (string \<times> string) list" where
  "leftover path cfg r = (case r of OpenFailed _ \<Rightarrow> [] | Exited _ _ _ \<Rightarrow> [] | _ \<Rightarrow> [(path, cfg)])"

definition http :: "sf_env \<Rightarrow> string \<Rightarrow> string \<Rightarrow> (string \<times> string) list \<Rightarrow> string option \<Rightarrow> (sf_state, reply, sf_error) stm" where
  "http E meth url headers body s =
     (let cfg = curl_config meth url headers body;
          r = sf_curl E (sf_log s) cfg body
      in (curl_answer r,
          s\<lparr>sf_log := sf_log s @ [Exchange meth url headers body (curl_answer r)],
            sf_tag := sf_tag s + 1,
            sf_files := sf_files s @ leftover (sf_temp E (sf_tag s)) cfg r\<rparr>))"

definition header :: "(string \<times> string) list \<Rightarrow> string \<Rightarrow> string option" where
  "header headers name =
     map_option snd (find (\<lambda>(k, _). map to_ascii_lowercase k = map to_ascii_lowercase name) headers)"

definition emit_out :: "json \<Rightarrow> (sf_state, unit, sf_error) stm" where
  "emit_out v = mupd (\<lambda>s. s\<lparr>sf_log := sf_log s @ [Out v]\<rparr>)"

definition say_status :: "json \<Rightarrow> (sf_state, unit, sf_error) stm" where
  "say_status v = mupd (\<lambda>s. s\<lparr>sf_log := sf_log s @ [Status v]\<rparr>)"

section \<open>Sessions\<close>

record session =
  ses_token :: string
  ses_instance :: string

definition env_or :: "sf_env \<Rightarrow> string \<Rightarrow> string \<Rightarrow> string" where
  "env_or E k d = (case sf_var E k of Some v \<Rightarrow> v | None \<Rightarrow> d)"

definition env_filled :: "sf_env \<Rightarrow> string \<Rightarrow> string option" where
  "env_filled E k = (case sf_var E k of Some v \<Rightarrow> if v = [] then None else Some v | None \<Rightarrow> None)"

definition failed_with :: "string \<Rightarrow> nat \<Rightarrow> string \<Rightarrow> (sf_state, 'a, sf_error) stm" where
  "failed_with what code body = mfail (Said (what @ '' ('' @ nat_str code @ ''): '' @ trim body))"

definition read_json :: "sf_env \<Rightarrow> string \<Rightarrow> (sf_state, json, sf_error) stm" where
  "read_json E t =
     (case cd_parse (sf_codec E) (trim t) of Some v \<Rightarrow> mret v | None \<Rightarrow> mfail (Said (sf_json_error E (trim t))))"

definition want_str :: "json \<Rightarrow> string \<Rightarrow> string \<Rightarrow> (sf_state, string, sf_error) stm" where
  "want_str v k msg = (case as_str (value_index v k) of Some t \<Rightarrow> mret t | None \<Rightarrow> mfail (Said msg))"

definition oauth_form :: "sf_env \<Rightarrow> string" where
  "oauth_form E =
     (let grant = env_or E ''SF_GRANT_TYPE'' ''password'' in
      ''grant_type='' @ enc grant @
      ''&client_id='' @ enc (env_or E ''SF_CLIENT_ID'' []) @
      ''&client_secret='' @ enc (env_or E ''SF_CLIENT_SECRET'' []) @
      (if grant = ''password'' then
         ''&username='' @ enc (env_or E ''SF_USERNAME'' []) @ ''&password='' @ enc (env_or E ''SF_PASSWORD'' [])
       else []))"

definition oauth :: "sf_env \<Rightarrow> (sf_state, session, sf_error) stm" where
  "oauth E =
     mbind (http E ''POST'' (env_or E ''SF_LOGIN_URL'' ''https://login.salesforce.com'' @ ''/services/oauth2/token'')
         [(''Content-Type'', ''application/x-www-form-urlencoded'')] (Some (oauth_form E))) (\<lambda>(code, _, body).
       if code \<noteq> 200 then failed_with ''oauth failed'' code body
       else mbind (read_json E body) (\<lambda>v.
         mbind (want_str v ''access_token'' ''no access_token in token response'') (\<lambda>token.
         mbind (want_str v ''instance_url'' ''no instance_url in token response'') (\<lambda>inst.
           mret \<lparr>ses_token = token, ses_instance = inst\<rparr>))))"

definition get_session :: "sf_env \<Rightarrow> (sf_state, session, sf_error) stm" where
  "get_session E =
     (case (env_filled E ''SF_ACCESS_TOKEN'', env_filled E ''SF_INSTANCE_URL'') of
        (Some token, Some inst) \<Rightarrow> mret \<lparr>ses_token = token, ses_instance = inst\<rparr>
      | _ \<Rightarrow> oauth E)"

definition auth :: "session \<Rightarrow> (string \<times> string) list" where
  "auth S = [(''Authorization'', ''Bearer '' @ ses_token S)]"

definition json_headers :: "session \<Rightarrow> (string \<times> string) list" where
  "json_headers S = auth S @ [(''Content-Type'', ''application/json'')]"

section \<open>Waiting for a job\<close>

fun await_job :: "sf_env \<Rightarrow> session \<Rightarrow> string \<Rightarrow> string \<Rightarrow> string \<Rightarrow> nat \<Rightarrow> (sf_state, json, sf_error) stm" where
  "await_job E S url failed job 0 = mfail OutOfFuel"
| "await_job E S url failed job (Suc n) =
     mbind (http E ''GET'' url (auth S) None) (\<lambda>(code, _, resp).
       if code \<noteq> 200 then failed_with failed code resp
       else mbind (read_json E resp) (\<lambda>v.
         let st = (case as_str (value_index v ''state'') of Some t \<Rightarrow> t | None \<Rightarrow> []) in
         if st = ''JobComplete'' then mret v
         else if st = ''Failed'' \<or> st = ''Aborted'' then
           mfail (Said (job @ '' '' @ cd_print (sf_codec E) (value_index v ''state'') @ '': '' @
             cd_print (sf_codec E) (value_index v ''errorMessage'')))
         else mbind (say_status (VObject (om_of_list [(''stage'', VString ''poll''), (''state'', VString st)]))) (\<lambda>_.
           await_job E S url failed job n)))"

section \<open>Export\<close>

definition query_url :: "session \<Rightarrow> string \<Rightarrow> string" where
  "query_url S ver = ses_instance S @ ''/services/data/'' @ ver @ ''/jobs/query''"

definition create_job :: "sf_env \<Rightarrow> session \<Rightarrow> string \<Rightarrow> string \<Rightarrow> string \<Rightarrow> (sf_state, string, sf_error) stm" where
  "create_job E S ver query operation =
     mbind (http E ''POST'' (query_url S ver) (json_headers S)
         (Some (cd_print (sf_codec E)
           (VObject (om_of_list [(''operation'', VString operation), (''query'', VString query)]))))) (\<lambda>(code, _, resp).
       if code \<noteq> 200 then failed_with ''create job failed'' code resp
       else mbind (read_json E resp) (\<lambda>v. want_str v ''id'' ''no job id''))"

definition poll_job :: "sf_env \<Rightarrow> session \<Rightarrow> string \<Rightarrow> string \<Rightarrow> nat \<Rightarrow> (sf_state, unit, sf_error) stm" where
  "poll_job E S ver i n =
     mbind (await_job E S (query_url S ver @ ''/'' @ i) ''poll failed'' ''job'' n) (\<lambda>_. mret ())"

definition row_object :: "string list \<Rightarrow> string list \<Rightarrow> json" where
  "row_object head r =
     VObject (om_of_list (map (\<lambda>(i, col). (col, VString (if i < length r then r ! i else []))) (enumerate 0 head)))"

definition page_rows :: "string \<Rightarrow> json list" where
  "page_rows body = (case parse_csv body of [] \<Rightarrow> [] | head # data \<Rightarrow> map (row_object head) data)"

definition row_line :: "json \<Rightarrow> json" where
  "row_line v = VObject (om_of_list [(''stream'', VBool True), (''source'', VString ''salesforce''), (''row'', v)])"

fun emit_rows :: "json list \<Rightarrow> (sf_state, unit, sf_error) stm" where
  "emit_rows [] = mret ()"
| "emit_rows (v # vs) = mbind (emit_out (row_line v)) (\<lambda>_. emit_rows vs)"

definition next_locator :: "(string \<times> string) list \<Rightarrow> string option" where
  "next_locator hs =
     (case header hs ''Sforce-Locator'' of Some l \<Rightarrow> if l \<noteq> [] \<and> l \<noteq> ''null'' then Some l else None | None \<Rightarrow> None)"

definition results_url :: "session \<Rightarrow> string \<Rightarrow> string \<Rightarrow> nat \<Rightarrow> string option \<Rightarrow> string" where
  "results_url S ver i max_records locator =
     query_url S ver @ ''/'' @ i @ ''/results?maxRecords='' @ nat_str max_records @
     (case locator of Some l \<Rightarrow> ''&locator='' @ enc l | None \<Rightarrow> [])"

fun result_pages :: "sf_env \<Rightarrow> session \<Rightarrow> string \<Rightarrow> string \<Rightarrow> nat \<Rightarrow> nat \<Rightarrow> string option \<Rightarrow> nat \<Rightarrow> (sf_state, nat, sf_error) stm" where
  "result_pages E S ver i max_records 0 locator streamed = mfail OutOfFuel"
| "result_pages E S ver i max_records (Suc n) locator streamed =
     mbind (http E ''GET'' (results_url S ver i max_records locator) (auth S) None) (\<lambda>(code, hs, body).
       if code \<noteq> 200 then failed_with ''results failed'' code body
       else mbind (emit_rows (page_rows body)) (\<lambda>_.
         case next_locator hs of
           Some l \<Rightarrow> result_pages E S ver i max_records n (Some l) (streamed + length (page_rows body))
         | None \<Rightarrow> mret (streamed + length (page_rows body))))"

definition stream_results :: "sf_env \<Rightarrow> session \<Rightarrow> string \<Rightarrow> string \<Rightarrow> nat \<Rightarrow> nat \<Rightarrow> (sf_state, nat, sf_error) stm" where
  "stream_results E S ver i max_records n = result_pages E S ver i max_records n None 0"

definition export_once :: "sf_env \<Rightarrow> nat \<Rightarrow> string \<Rightarrow> string \<Rightarrow> string \<Rightarrow> nat \<Rightarrow> (sf_state, nat, sf_error) stm" where
  "export_once E n ver query operation max_records =
     mbind (get_session E) (\<lambda>S.
     mbind (say_status (VObject (om_of_list [(''stage'', VString ''auth''), (''instance'', VString (ses_instance S))]))) (\<lambda>_.
     mbind (create_job E S ver query operation) (\<lambda>i.
     mbind (say_status (VObject (om_of_list [(''stage'', VString ''job''), (''id'', VString i)]))) (\<lambda>_.
     mbind (poll_job E S ver i n) (\<lambda>_.
     mbind (stream_results E S ver i max_records n) (\<lambda>rows.
     mbind (say_status (VObject (om_of_list [(''stage'', VString ''done''), (''rows'', num_json rows), (''job'', VString i)]))) (\<lambda>_.
       mret rows)))))))"

section \<open>Ingest\<close>

definition ingest_url :: "session \<Rightarrow> string \<Rightarrow> string" where
  "ingest_url S ver = ses_instance S @ ''/services/data/'' @ ver @ ''/jobs/ingest''"

definition poll_ingest :: "sf_env \<Rightarrow> session \<Rightarrow> string \<Rightarrow> string \<Rightarrow> nat \<Rightarrow> (sf_state, json, sf_error) stm" where
  "poll_ingest E S ver i n = await_job E S (ingest_url S ver @ ''/'' @ i) ''poll ingest failed'' ''ingest job'' n"

definition ingest_request :: "string \<Rightarrow> string \<Rightarrow> string \<Rightarrow> json" where
  "ingest_request object operation external_id =
     VObject (om_of_list ([(''object'', VString object), (''operation'', VString operation),
       (''contentType'', VString ''CSV''), (''lineEnding'', VString ''LF'')] @
       (if operation = ''upsert'' \<and> external_id \<noteq> [] then [(''externalIdFieldName'', VString external_id)] else [])))"

text \<open>The sample of failed rows; any failure to get it is no sample.\<close>

definition fetch_failed :: "sf_env \<Rightarrow> session \<Rightarrow> string \<Rightarrow> string \<Rightarrow> (sf_state, json option, sf_error) stm" where
  "fetch_failed E S ver i s =
     (case http E ''GET'' (ingest_url S ver @ ''/'' @ i @ ''/failedResults'') (auth S) None s of
        (Ok (code, _, body), s1) \<Rightarrow>
          (Ok (if code \<noteq> 200 then None
               else (case parse_csv body of
                       [] \<Rightarrow> None
                     | head # data \<Rightarrow>
                         Some (VObject (om_of_list [(''returned'', num_json (length (take 20 data))),
                           (''total'', num_json (length data)),
                           (''rows'', VArray (map (row_object head) (take 20 data)))])))), s1)
      | (Err _, s1) \<Rightarrow> (Ok None, s1)
      | (Panic, s1) \<Rightarrow> (Panic, s1))"

definition count_of :: "json \<Rightarrow> string \<Rightarrow> nat" where
  "count_of v k = (case as_u64 (value_index v k) of Some n \<Rightarrow> nat n | None \<Rightarrow> 0)"

definition ingest_report :: "string \<Rightarrow> string \<Rightarrow> string \<Rightarrow> nat \<Rightarrow> json \<Rightarrow> json option \<Rightarrow> json" where
  "ingest_report i object operation records final failures =
     (let processed = count_of final ''numberRecordsProcessed''; failed = count_of final ''numberRecordsFailed'' in
      VObject (om_of_list ([(''ok'', VBool (failed = 0)), (''job'', VString i), (''object'', VString object),
        (''operation'', VString operation), (''records'', num_json records), (''processed'', num_json processed),
        (''failed'', num_json failed), (''succeeded'', num_json (processed - failed))] @
        (case failures of Some errs \<Rightarrow> [(''failures'', errs)] | None \<Rightarrow> []))))"

definition ingest_finish :: "sf_env \<Rightarrow> nat \<Rightarrow> session \<Rightarrow> string \<Rightarrow> string \<Rightarrow> string \<Rightarrow> nat \<Rightarrow> string \<Rightarrow> (sf_state, json, sf_error) stm" where
  "ingest_finish E n S ver object operation records i =
     mbind (poll_ingest E S ver i n) (\<lambda>final.
       mbind (if 0 < count_of final ''numberRecordsFailed'' then fetch_failed E S ver i else mret None) (\<lambda>failures.
         mret (ingest_report i object operation records final failures)))"

definition ingest_close :: "sf_env \<Rightarrow> session \<Rightarrow> string \<Rightarrow> string \<Rightarrow> (sf_state, unit, sf_error) stm" where
  "ingest_close E S ver i =
     mbind (http E ''PATCH'' (ingest_url S ver @ ''/'' @ i) (json_headers S)
         (Some (cd_print (sf_codec E) (VObject [(''state'', VString ''UploadComplete'')])))) (\<lambda>(code, _, resp).
       if code \<noteq> 200 then failed_with ''close failed'' code resp else mret ())"

definition ingest_upload :: "sf_env \<Rightarrow> session \<Rightarrow> string \<Rightarrow> json omap list \<Rightarrow> string \<Rightarrow> (sf_state, unit, sf_error) stm" where
  "ingest_upload E S ver rows i =
     mbind (http E ''PUT'' (ingest_url S ver @ ''/'' @ i @ ''/batches'') (auth S @ [(''Content-Type'', ''text/csv'')])
         (Some (snd (rows_to_csv (sf_codec E) rows)))) (\<lambda>(code, _, resp).
       if code \<noteq> 201 then failed_with ''upload failed'' code resp else mret ())"

definition ingest_create :: "sf_env \<Rightarrow> session \<Rightarrow> string \<Rightarrow> string \<Rightarrow> string \<Rightarrow> string \<Rightarrow> (sf_state, string, sf_error) stm" where
  "ingest_create E S ver object operation external_id =
     mbind (http E ''POST'' (ingest_url S ver) (json_headers S)
         (Some (cd_print (sf_codec E) (ingest_request object operation external_id)))) (\<lambda>(code, _, resp).
       if code \<noteq> 200 then failed_with ''create ingest failed'' code resp
       else mbind (read_json E resp) (\<lambda>job. mbind (want_str job ''id'' ''no ingest job id'') (\<lambda>i.
         mbind (say_status (VObject (om_of_list [(''stage'', VString ''ingest_job''), (''id'', VString i),
           (''object'', VString object), (''operation'', VString operation)]))) (\<lambda>_. mret i))))"

definition ingest :: "sf_env \<Rightarrow> nat \<Rightarrow> session \<Rightarrow> string \<Rightarrow> string \<Rightarrow> string \<Rightarrow> string \<Rightarrow> json omap list \<Rightarrow> (sf_state, json, sf_error) stm" where
  "ingest E n S ver object operation external_id rows =
     mbind (ingest_create E S ver object operation external_id) (\<lambda>i.
       mbind (ingest_upload E S ver rows i) (\<lambda>_.
         mbind (ingest_close E S ver i) (\<lambda>_.
           ingest_finish E n S ver object operation (length rows) i)))"

text \<open>The rows of the input: a document, or one document a line; wrappers are taken off.\<close>

definition unwrap_row :: "json \<Rightarrow> json omap option" where
  "unwrap_row v =
     (case v of
        VObject m \<Rightarrow>
          Some (if length m = 1 then
                  (case om_get m ''row'' of
                     Some (VObject inner) \<Rightarrow> inner
                   | _ \<Rightarrow> (case om_get m ''fields'' of Some (VObject inner) \<Rightarrow> inner | _ \<Rightarrow> m))
                else m)
      | _ \<Rightarrow> None)"

definition document_rows :: "json \<Rightarrow> json omap list" where
  "document_rows v =
     (case v of
        VArray arr \<Rightarrow> List.map_filter unwrap_row arr
      | VObject m \<Rightarrow>
          (case (case om_get m ''rows'' of Some x \<Rightarrow> Some x | None \<Rightarrow> om_get m ''accounts'') of
             Some (VArray arr) \<Rightarrow> List.map_filter unwrap_row arr
           | _ \<Rightarrow> List.map_filter unwrap_row [v])
      | _ \<Rightarrow> [])"

definition line_rows :: "sf_env \<Rightarrow> string \<Rightarrow> json omap list" where
  "line_rows E l =
     (if trim l = [] then []
      else (case cd_parse (sf_codec E) (trim l) of
              Some (VArray arr) \<Rightarrow> List.map_filter unwrap_row arr
            | Some v \<Rightarrow> List.map_filter unwrap_row [v]
            | None \<Rightarrow> []))"

definition input_rows :: "sf_env \<Rightarrow> string \<Rightarrow> json omap list" where
  "input_rows E input =
     (case cd_parse (sf_codec E) (trim input) of
        Some v \<Rightarrow> document_rows v
      | None \<Rightarrow> concat (map (line_rows E) (str_lines input)))"

definition error_text :: "sf_error \<Rightarrow> string" where
  "error_text e = (case e of Said t \<Rightarrow> t | OutOfFuel \<Rightarrow> [])"

definition refusal :: "bool \<Rightarrow> string \<Rightarrow> json" where
  "refusal fatal e =
     VObject (om_of_list ([(''ok'', VBool False)] @ (if fatal then [(''fatal'', VBool True)] else []) @
       [(''error'', VString e)]))"

text \<open>\<open>run_ingest\<close> ends with the exit code of the process; \<open>input\<close> is what can be read.\<close>

definition run_ingest :: "sf_env \<Rightarrow> nat \<Rightarrow> string \<Rightarrow> string option \<Rightarrow> (sf_state, nat, sf_error) stm" where
  "run_ingest E n ver input s =
     (case get_session E s of
        (Panic, s1) \<Rightarrow> (Panic, s1)
      | (Err e, s1) \<Rightarrow> mbind (say_status (refusal True (error_text e))) (\<lambda>_. mret 1) s1
      | (Ok S, s1) \<Rightarrow>
          (case input of
             None \<Rightarrow> mbind (say_status (refusal False ''read stdin failed'')) (\<lambda>_. mret 1) s1
           | Some t \<Rightarrow>
               if input_rows E t = [] then
                 mbind (say_status (VObject (om_of_list [(''ok'', VBool True), (''note'', VString ''no rows to ingest'')]))) (\<lambda>_.
                 mbind (emit_out (VObject (om_of_list [(''ok'', VBool True), (''processed'', num_json 0), (''created'', num_json 0)]))) (\<lambda>_.
                   mret 0)) s1
               else
                 (case ingest E n S ver (env_or E ''SF_OBJECT'' ''Account'') (env_or E ''SF_OPERATION'' ''insert'')
                         (env_or E ''SF_EXTERNAL_ID'' []) (input_rows E t) s1 of
                    (Ok res, s2) \<Rightarrow> mbind (say_status res) (\<lambda>_. mbind (emit_out res) (\<lambda>_. mret 0)) s2
                  | (Err OutOfFuel, s2) \<Rightarrow> (Err OutOfFuel, s2)
                  | (Err (Said e), s2) \<Rightarrow>
                      mbind (say_status (refusal False e)) (\<lambda>_. mbind (emit_out (refusal False e)) (\<lambda>_. mret 1)) s2
                  | (Panic, s2) \<Rightarrow> (Panic, s2))))"

text \<open>
  The export mode of \<open>main\<close>: one export, or one every interval for as long as the process lives
  (\<open>rounds\<close> bounds how many are looked at). It ends with the exit code of the process.
\<close>

fun export_loop ::
  "sf_env \<Rightarrow> nat \<Rightarrow> string \<Rightarrow> string \<Rightarrow> string \<Rightarrow> nat \<Rightarrow> int \<Rightarrow> nat \<Rightarrow> (sf_state, nat, sf_error) stm" where
  "export_loop E n ver query operation max_records interval 0 = mfail OutOfFuel"
| "export_loop E n ver query operation max_records interval (Suc rounds) = (\<lambda>s.
     case export_once E n ver query operation max_records s of
       (Ok _, s1) \<Rightarrow>
         if interval = 0 then (Ok 0, s1)
         else export_loop E n ver query operation max_records interval rounds s1
     | (Err OutOfFuel, s1) \<Rightarrow> (Err OutOfFuel, s1)
     | (Err (Said e), s1) \<Rightarrow>
         mbind (say_status (refusal False e)) (\<lambda>_.
           if interval = 0 then mret 1
           else export_loop E n ver query operation max_records interval rounds) s1
     | (Panic, s1) \<Rightarrow> (Panic, s1))"

definition env_u64 :: "sf_env \<Rightarrow> string \<Rightarrow> int \<Rightarrow> int" where
  "env_u64 E k d = (case sf_var E k of Some v \<Rightarrow> (case parse_u64 v of Some n \<Rightarrow> n | None \<Rightarrow> d) | None \<Rightarrow> d)"

definition run_export :: "sf_env \<Rightarrow> nat \<Rightarrow> string \<Rightarrow> nat \<Rightarrow> (sf_state, nat, sf_error) stm" where
  "run_export E n ver rounds =
     (case env_filled E ''SF_QUERY'' of
        None \<Rightarrow> mbind (say_status (refusal True ''SF_QUERY required'')) (\<lambda>_. mret 1)
      | Some query \<Rightarrow>
          export_loop E n ver query (env_or E ''SF_QUERY_OPERATION'' ''query'')
            (nat (env_u64 E ''SF_MAX_RECORDS'' 10000)) (env_u64 E ''SF_INTERVAL_SECS'' 0) rounds)"

definition sf_main :: "sf_env \<Rightarrow> nat \<Rightarrow> string option \<Rightarrow> string option \<Rightarrow> nat \<Rightarrow> (sf_state, nat, sf_error) stm" where
  "sf_main E n argument input rounds =
     (let ver = env_or E ''SF_API_VERSION'' ''v60.0'';
          run_mode = (case argument of Some a \<Rightarrow> a | None \<Rightarrow> env_or E ''SF_MODE'' [])
      in if run_mode = ''ingest'' then run_ingest E n ver input else run_export E n ver rounds)"

section \<open>What is logged\<close>

definition appended :: "(sf_event \<Rightarrow> bool) \<Rightarrow> sf_error ending \<Rightarrow> sf_state \<Rightarrow> sf_state \<Rightarrow> bool" where
  "appended P k s s' \<longleftrightarrow> (\<exists>new. sf_log s' = sf_log s @ new \<and> list_all P new)"

interpretation logged: frame "appended P" "\<lambda>_. False" for P
proof unfold_locales
  show "appended P k s s" for k s unfolding appended_def by (rule exI [of _ "[]"]) simp
  show "appended P EndOk s t \<Longrightarrow> appended P k t u \<Longrightarrow> appended P k s u" for s t u k
    unfolding appended_def by (auto simp: list_all_append)
qed

lemma http_logs: "sf_log (snd (http E m u h b s)) = sf_log s @ [Exchange m u h b (fst (http E m u h b s))]"
  by (simp add: http_def Let_def)

lemma http_appended [intro]: "(\<And>r. P (Exchange m u h b r)) \<Longrightarrow> keeps (appended P) (http E m u h b)"
  by (rule keepsI) (auto simp: appended_def http_logs)

lemma status_appended [intro]: "(\<And>v. P (Status v)) \<Longrightarrow> keeps (appended P) (say_status v)"
  by (rule keepsI) (auto simp: appended_def say_status_def)

lemma failed_with_appended [intro]: "keeps (appended P) (failed_with w c t)"
  unfolding failed_with_def by (rule logged.mfail_keeps) simp

lemma read_json_appended [intro]: "keeps (appended P) (read_json E t)"
  unfolding read_json_def by (auto split: option.split)

lemma want_str_appended [intro]: "keeps (appended P) (want_str v k m)"
  unfolding want_str_def by (auto split: option.split)

lemma cases_appended:
  "(\<And>a b c. keeps R (f a b c)) \<Longrightarrow> keeps R (case x of (a, b, c) \<Rightarrow> f a b c)"
  "(c \<Longrightarrow> keeps R m) \<Longrightarrow> (\<not> c \<Longrightarrow> keeps R m') \<Longrightarrow> keeps R (if c then m else m')"
  by (auto split: prod.split)

lemmas log_steps = logged.mbind_keeps logged.mret_keeps logged.mfail_keeps http_appended status_appended
  failed_with_appended read_json_appended want_str_appended cases_appended

lemma await_job_appended:
  assumes "\<And>r. P (Exchange ''GET'' url (auth S) None r)" and "\<And>v. P (Status v)"
  shows "keeps (appended P) (await_job E S url failed job n)"
proof (induction n)
  case (Suc n)
  show ?case
    unfolding await_job.simps Let_def by (intro log_steps assms Suc.IH) simp
qed (simp only: await_job.simps, intro log_steps, simp)

lemma fetch_failed_appended:
  assumes "\<And>u r. P (Exchange ''GET'' u (auth S) None r)"
  shows "keeps (appended P) (fetch_failed E S ver i)"
proof (rule keepsI)
  fix s
  have "sf_log (snd (fetch_failed E S ver i s)) =
      sf_log (snd (http E ''GET'' (ingest_url S ver @ ''/'' @ i @ ''/failedResults'') (auth S) None s))"
    by (auto simp: fetch_failed_def split: result.split prod.split)
  then show "appended P (end_of (fst (fetch_failed E S ver i s))) s (snd (fetch_failed E S ver i s))"
    using assms by (simp add: appended_def http_logs)
qed

definition closes :: "sf_event \<Rightarrow> bool" where
  "closes e = (case e of Exchange m _ _ _ _ \<Rightarrow> m = ''PATCH'' | _ \<Rightarrow> False)"

lemma closes_simps [simp]:
  "closes (Exchange m u h b r) \<longleftrightarrow> m = ''PATCH''" "\<not> closes (Out v)" "\<not> closes (Status v)"
  by (simp_all add: closes_def)

lemma ingest_create_open: "keeps (appended (Not \<circ> closes)) (ingest_create E S ver object operation external_id)"
  unfolding ingest_create_def by (intro log_steps) simp_all

lemma ingest_finish_open: "keeps (appended (Not \<circ> closes)) (ingest_finish E n S ver object operation records i)"
  unfolding ingest_finish_def poll_ingest_def
  by (intro log_steps await_job_appended fetch_failed_appended) simp_all

lemma ingest_upload_logs:
  assumes "ingest_upload E S ver rows i s = (r, s')"
  obtains a where "sf_log s' = sf_log s @ [Exchange ''PUT'' (ingest_url S ver @ ''/'' @ i @ ''/batches'')
      (auth S @ [(''Content-Type'', ''text/csv'')]) (Some (snd (rows_to_csv (sf_codec E) rows))) a]"
    and "\<And>u. r = Ok u \<Longrightarrow> \<exists>hs t. a = Ok (201, hs, t)"
  using assms unfolding ingest_upload_def
  by (elim mbind_cases)
    (auto simp: http_def Let_def failed_with_def split: if_splits prod.splits)

lemma ingest_close_logs:
  assumes "ingest_close E S ver i s = (r, s')"
  obtains h b a where "sf_log s' = sf_log s @ [Exchange ''PATCH'' (ingest_url S ver @ ''/'' @ i) h b a]"
  using assms unfolding ingest_close_def
  by (elim mbind_cases) (auto simp: http_def Let_def failed_with_def split: if_splits prod.splits)

lemma only_one:
  assumes "us @ v # ws = xs @ x # ys" and "list_all (Not \<circ> P) us" "list_all (Not \<circ> P) ws" and "P x"
  shows "us = xs \<and> v = x"
proof -
  have "x \<notin> set us" "x \<notin> set ws" using assms(2-4) by (auto simp: list_all_iff)
  then show ?thesis using assms(1) by (auto simp: append_eq_append_conv2 append_eq_Cons_conv Cons_eq_append_conv)
qed

text \<open>
  Nothing half-sent is processed: whenever the connector tells Salesforce to process an ingest
  job, the CSV of all its rows has been uploaded to that job and the upload was answered with 201.
\<close>

theorem ingest_closes_what_was_accepted:
  assumes run: "ingest E n S ver object operation external_id rows s = (r, s')"
    and patch: "sf_log s' = sf_log s @ pre @ Exchange ''PATCH'' url hs body a # post"
  shows "\<exists>h hs' t. Exchange ''PUT'' (url @ ''/batches'') h (Some (snd (rows_to_csv (sf_codec E) rows))) (Ok (201, hs', t)) \<in> set pre"
proof -
  have no: False if "sf_log s' = sf_log s @ l" "list_all (Not \<circ> closes) l" for l
    using that patch by (auto simp: list_all_iff)
  have quiet: "\<exists>l. sf_log s2 = sf_log s1 @ l \<and> list_all (Not \<circ> closes) l"
    if "keeps (appended (Not \<circ> closes)) m" "m s1 = (q, s2)" for m :: "(sf_state, 'b, sf_error) stm" and s1 s2 q
    using keepsE [OF that] by (simp add: appended_def)
  note run [unfolded ingest_def]
  then show ?thesis
  proof (cases rule: mbind_cases)
    case (Ok i s1)
    obtain l1 where l1: "sf_log s1 = sf_log s @ l1" "list_all (Not \<circ> closes) l1"
      using quiet [OF ingest_create_open Ok(1)] by blast
    from Ok(2) show ?thesis
    proof (cases rule: mbind_cases)
      case (Ok u s2)
      obtain a' where put: "sf_log s2 = sf_log s1 @ [Exchange ''PUT'' (ingest_url S ver @ ''/'' @ i @ ''/batches'')
          (auth S @ [(''Content-Type'', ''text/csv'')]) (Some (snd (rows_to_csv (sf_codec E) rows))) a']"
        and "\<exists>hs t. a' = Ok (201, hs, t)"
        using ingest_upload_logs [OF Ok(1)] by metis
      then obtain hs' t where a': "a' = Ok (201, hs', t)" by blast
      let ?l2 = "l1 @ [Exchange ''PUT'' (ingest_url S ver @ ''/'' @ i @ ''/batches'')
          (auth S @ [(''Content-Type'', ''text/csv'')]) (Some (snd (rows_to_csv (sf_codec E) rows))) (Ok (201, hs', t))]"
      obtain e l3 where l3: "sf_log s' = sf_log s2 @ e # l3" "list_all (Not \<circ> closes) l3"
          "\<exists>h b a. e = Exchange ''PATCH'' (ingest_url S ver @ ''/'' @ i) h b a"
        using Ok(2)
      proof (cases rule: mbind_cases)
        case (Ok w s3)
        then show ?thesis using that quiet [OF ingest_finish_open Ok(2)] by (elim ingest_close_logs) fastforce
      qed (use that in \<open>elim ingest_close_logs, fastforce\<close>)+
      have "?l2 @ e # l3 = pre @ Exchange ''PATCH'' url hs body a # post" using l1 put a' l3 patch by simp
      then have "?l2 = pre \<and> e = Exchange ''PATCH'' url hs body a"
        by (rule only_one [where P = closes]) (use l1 l3 in simp_all)
      moreover from this obtain h b c where "e = Exchange ''PATCH'' (ingest_url S ver @ ''/'' @ i) h b c"
        using l3(3) by blast
      ultimately have "url = ingest_url S ver @ ''/'' @ i" and "pre = ?l2" by auto
      then show ?thesis
        by (intro exI [of _ "auth S @ [(''Content-Type'', ''text/csv'')]"] exI [of _ hs'] exI [of _ t]) simp
    qed (use no l1 in \<open>elim ingest_upload_logs, simp\<close>)+
  qed (use quiet [OF ingest_create_open] no in blast)+
qed

section \<open>Streaming\<close>

definition outs :: "sf_event list \<Rightarrow> json list" where
  "outs l = List.map_filter (\<lambda>e. case e of Out v \<Rightarrow> Some v | _ \<Rightarrow> None) l"

lemma outs_simps [simp]:
  "outs [] = []" "outs (l @ l') = outs l @ outs l'" "outs (Out v # l) = v # outs l" "outs (Status v # l) = outs l"
  "outs (Exchange m u h b r # l) = outs l"
  by (auto simp: outs_def List.map_filter_def)

lemma outs_emit_rows:
  "emit_rows vs s = (Ok (), snd (emit_rows vs s)) \<and>
   outs (sf_log (snd (emit_rows vs s))) = outs (sf_log s) @ map row_line vs"
  by (induction vs arbitrary: s) (simp_all add: emit_out_def mbind_def)

text \<open>
  What a server holds for a query job: asked for the page of a locator it answers 200 with the page
  and, in the header, the locator of the next one, and the last page carries none.
\<close>

definition answers :: "sf_env \<Rightarrow> session \<Rightarrow> string \<Rightarrow> reply \<Rightarrow> bool" where
  "answers E S url a \<longleftrightarrow> (\<forall>l. curl_answer (sf_curl E l (curl_config ''GET'' url (auth S) None) None) = Ok a)"

fun serves :: "sf_env \<Rightarrow> session \<Rightarrow> (string option \<Rightarrow> string) \<Rightarrow> string option \<Rightarrow> string list \<Rightarrow> bool" where
  "serves E S url loc [] = False"
| "serves E S url loc (b # bs) =
     (\<exists>hs. answers E S (url loc) (200, hs, b) \<and>
        (case next_locator hs of None \<Rightarrow> bs = [] | Some l \<Rightarrow> serves E S url (Some l) bs))"

lemma answers_http:
  "answers E S url a \<Longrightarrow> \<exists>s'. http E ''GET'' url (auth S) None s = (Ok a, s') \<and> outs (sf_log s') = outs (sf_log s)"
  by (simp add: answers_def http_def Let_def)

lemma result_pages_streams:
  assumes "serves E S (results_url S ver i m) loc bodies" and "length bodies \<le> n"
  shows "\<exists>s'. result_pages E S ver i m n loc k s = (Ok (k + length (concat (map page_rows bodies))), s') \<and>
     outs (sf_log s') = outs (sf_log s) @ map row_line (concat (map page_rows bodies))"
  using assms
proof (induction bodies arbitrary: loc n k s)
  case (Cons b bs)
  obtain n' where n: "n = Suc n'" "length bs \<le> n'" using Cons.prems(2) by (cases n) auto
  obtain hs where hs: "answers E S (results_url S ver i m loc) (200, hs, b)"
    "case next_locator hs of None \<Rightarrow> bs = [] | Some l \<Rightarrow> serves E S (results_url S ver i m) (Some l) bs"
    using Cons.prems(1) by auto
  obtain s1 where s1: "http E ''GET'' (results_url S ver i m loc) (auth S) None s = (Ok (200, hs, b), s1)"
    "outs (sf_log s1) = outs (sf_log s)" using answers_http [OF hs(1)] by blast
  obtain s2 where s2: "emit_rows (page_rows b) s1 = (Ok (), s2)"
    "outs (sf_log s2) = outs (sf_log s) @ map row_line (page_rows b)"
    using outs_emit_rows [of "page_rows b" s1] s1 by metis
  show ?case
  proof (cases "next_locator hs")
    case None
    then have "bs = []" using hs(2) by simp
    then show ?thesis using None n s1 s2 by (simp add: mbind_def)
  next
    case (Some l)
    then obtain s3 where "result_pages E S ver i m n' (Some l) (k + length (page_rows b)) s2 =
        (Ok (k + length (page_rows b) + length (concat (map page_rows bs))), s3)"
      "outs (sf_log s3) = outs (sf_log s2) @ map row_line (concat (map page_rows bs))"
      using Cons.IH [OF _ n(2), of "Some l" "k + length (page_rows b)" s2] hs(2) by auto
    then show ?thesis using Some n s1 s2 by (simp add: mbind_def)
  qed
qed simp

text \<open>
  (C10) An export loses nothing and ends: when the server holds the result pages of a completed job,
  streaming returns the number of their rows and has written exactly these rows, in order, one
  line each, however many pages there are.
\<close>

theorem stream_results_writes_every_row:
  assumes "serves E S (results_url S ver i max_records) None bodies" and "length bodies \<le> n"
  shows "\<exists>s'. stream_results E S ver i max_records n s = (Ok (length (concat (map page_rows bodies))), s') \<and>
     outs (sf_log s') = outs (sf_log s) @ map row_line (concat (map page_rows bodies))"
  using result_pages_streams [OF assms, of 0 s] by (simp add: stream_results_def)

section \<open>Witnesses\<close>

definition demo_codec :: codec where
  "demo_codec = \<lparr>cd_print = \<lambda>_. ''1'',
     cd_parse = \<lambda>t. if t = ''job'' then Some (VObject [(''id'', VString ''7'')])
       else Some (VObject [(''state'', VString ''JobComplete'')])\<rparr>"

definition demo_row :: "json omap" where
  "demo_row = [(''Name'', VString [CHR ''a'', CHR '','', quote, lf]), (''Size'', VNumber (PosInt 1))]"

lemma csv_roundtrip_witness:
  "parse_csv (snd (rows_to_csv demo_codec [demo_row])) = [[''Name'', ''Size''], [[CHR ''a'', CHR '','', quote, lf], ''1'']]"
proof -
  have "rows_to_csv demo_codec [demo_row] = ([''Name'', ''Size''], snd (rows_to_csv demo_codec [demo_row]))"
    by code_simp
  from csv_roundtrip [OF this] show ?thesis
    by (simp add: row_cells_def demo_row_def cell_text_def demo_codec_def)
qed

definition reply_text :: "string \<Rightarrow> string \<Rightarrow> string" where
  "reply_text head body = ''HTTP/1.1 '' @ head @ crlf @ crlf @ body"

definition demo_curl :: "string \<Rightarrow> string" where
  "demo_curl cfg =
     (if str_contains cfg ''PUT'' then reply_text ''201 Created'' []
      else if str_contains cfg ''POST'' then reply_text ''200 OK'' ''job''
      else if str_contains cfg ''locator'' then reply_text ''200 OK'' (''Id'' @ [lf] @ ''c'' @ [lf])
      else if str_contains cfg ''results'' then
        reply_text (''200 OK'' @ crlf @ ''Sforce-Locator: x'') (''Id'' @ [lf] @ ''a'' @ [lf] @ ''b'' @ [lf])
      else reply_text ''200 OK'' ''done'')"

definition demo_sf :: sf_env where
  "demo_sf = \<lparr>sf_var = \<lambda>_. None, sf_codec = demo_codec, sf_json_error = \<lambda>_. [],
     sf_curl = \<lambda>l cfg body. Exited True (demo_curl cfg) [], sf_temp = \<lambda>_. ''vsf''\<rparr>"

definition demo_session :: session where
  "demo_session = \<lparr>ses_token = ''t'', ses_instance = ''i''\<rparr>"

definition sf_start :: sf_state where
  "sf_start = \<lparr>sf_log = [], sf_tag = 0, sf_files = []\<rparr>"

lemma demo_pages:
  "curl_answer (Exited True (demo_curl (curl_config ''GET'' (results_url demo_session ''v'' ''7'' 2 None) (auth demo_session) None)) []) =
     Ok (200, [(''Sforce-Locator'', ''x'')], ''Id'' @ [lf] @ ''a'' @ [lf] @ ''b'' @ [lf])"
  "curl_answer (Exited True (demo_curl (curl_config ''GET'' (results_url demo_session ''v'' ''7'' 2 (Some ''x'')) (auth demo_session) None)) []) =
     Ok (200, [], ''Id'' @ [lf] @ ''c'' @ [lf])"
  by code_simp+

lemma stream_results_writes_every_row_witness:
  "\<exists>s'. stream_results demo_sf demo_session ''v'' ''7'' 2 2 sf_start = (Ok 3, s') \<and>
     outs (sf_log s') = map (\<lambda>x. row_line (VObject [(''Id'', VString x)])) [''a'', ''b'', ''c'']"
proof -
  let ?bodies = "[''Id'' @ [lf] @ ''a'' @ [lf] @ ''b'' @ [lf], ''Id'' @ [lf] @ ''c'' @ [lf]]"
  have loc: "next_locator [(''Sforce-Locator'', ''x'')] = Some ''x''" "next_locator [] = None" by code_simp+
  have "serves demo_sf demo_session (results_url demo_session ''v'' ''7'' 2) None ?bodies"
    using demo_pages loc
    by (simp add: answers_def demo_sf_def)
  moreover have "concat (map page_rows ?bodies) = map (\<lambda>x. VObject [(''Id'', VString x)]) [''a'', ''b'', ''c'']"
    by code_simp
  ultimately show ?thesis
    using stream_results_writes_every_row [of demo_sf demo_session "''v''" "''7''" 2 ?bodies 2 sf_start]
    by (simp add: sf_start_def numeral_3_eq_3)
qed

lemma ingest_closes_what_was_accepted_witness:
  "\<exists>h hs' t. Exchange ''PUT'' ''i/services/data/v/jobs/ingest/7/batches'' h
     (Some (snd (rows_to_csv demo_codec [demo_row]))) (Ok (201, hs', t))
   \<in> set (take 3 (sf_log (snd (ingest demo_sf 1 demo_session ''v'' ''Account'' ''insert'' [] [demo_row] sf_start))))"
proof -
  let ?run = "ingest demo_sf 1 demo_session ''v'' ''Account'' ''insert'' [] [demo_row] sf_start"
  let ?l = "sf_log (snd ?run)"
  have "(\<lambda>e. case e of Exchange m u _ _ _ \<Rightarrow> (m, u) | _ \<Rightarrow> ([], [])) (?l ! 3) =
      (''PATCH'', ''i/services/data/v/jobs/ingest/7'') \<and> length ?l = 5" by code_simp
  then obtain hs body a where l: "length ?l = 5"
      "?l ! 3 = Exchange ''PATCH'' ''i/services/data/v/jobs/ingest/7'' hs body a"
    by (cases "?l ! 3") auto
  have "?l = take 3 ?l @ ?l ! 3 # drop 4 ?l" using l(1) id_take_nth_drop [of 3 ?l] by simp
  then have "sf_log (snd ?run) = sf_log sf_start @ take 3 ?l @
      Exchange ''PATCH'' ''i/services/data/v/jobs/ingest/7'' hs body a # drop 4 ?l"
    using l(2) by (simp add: sf_start_def)
  from ingest_closes_what_was_accepted [OF surjective_pairing this] show ?thesis
    by (simp add: demo_sf_def)
qed

text \<open>
  The configuration file carries the bearer token; when curl cannot be started it is not removed.
\<close>

lemma failed_start_leaves_the_token:
  assumes "sf_curl E (sf_log s) (curl_config m u (auth S) b) b = SpawnFailed e"
  shows "sf_files (snd (http E m u (auth S) b s)) =
     sf_files s @ [(sf_temp E (sf_tag s), curl_config m u (auth S) b)]"
  using assms by (simp add: http_def Let_def leftover_def)

text \<open>Only the code 100 is skipped: any other informational answer is taken for the response.\<close>

lemma early_hints_is_taken_for_the_answer:
  "parse_response (''HTTP/1.1 103 Early Hints'' @ crlf @ crlf @ reply_text ''200 OK'' ''x'') =
     Ok (103, [], reply_text ''200 OK'' ''x'')"
  by code_simp

end
