(* ===== verification/Detect.thy ===== *)
theory Detect
  imports Sinks
begin

text \<open>
  Detect units, \<open>supervise_detect\<close> of \<open>core/src/main.rs\<close>, and the snapshots of
  \<open>core/src/connectors.rs\<close>. A detect unit feeds the messages of its subjects to the embedded
  Varpulis engine, publishes what the engine emits before it acknowledges, and keeps the state of
  the engine in an object store with the stream sequence it stands for. The engine is not part of
  the repository: it is a record of functions over a type of program states. The reader thread and
  its channel are the messages that arrive before each turn.
\<close>

section \<open>Subjects\<close>

fun tokens_match :: "string list \<Rightarrow> string list \<Rightarrow> bool" where
  "tokens_match [] [] = True"
| "tokens_match (a # p) (b # s) = (a = ''>'' \<or> (a = ''*'' \<or> a = b) \<and> tokens_match p s)"
| "tokens_match _ _ = False"

definition subject_matches :: "string \<Rightarrow> string \<Rightarrow> bool" where
  "subject_matches pattern subject = tokens_match (str_split pattern ''.'') (str_split subject ''.'')"

section \<open>The engine\<close>

record emit =
  em_topic :: "string option"
  em_stream :: string
  em_payload :: string

datatype fed = Emits "emit list" | BadEvent string | EngineError string

record binding =
  bi_connector :: string
  bi_topic :: "string option"
  bi_event_type :: string

record 'p detector =
  en_compile :: "string \<Rightarrow> ('p, string) result"
  en_sources :: "'p \<Rightarrow> binding list"
  en_snapshot :: "'p \<Rightarrow> (string, string) result"
  en_restore :: "'p \<Rightarrow> string \<Rightarrow> ('p, string) result"
  en_set_idle_grace :: "'p \<Rightarrow> nat option \<Rightarrow> 'p"
  en_feed_json :: "'p \<Rightarrow> string \<Rightarrow> string \<Rightarrow> fed \<times> 'p"
  en_tick :: "'p \<Rightarrow> (emit list, string) result \<times> 'p"

text \<open>
  \<open>dv_put\<close> and \<open>dv_get\<close> are the errors of the object store, \<open>dv_store\<close> says whether the unit has
  one, \<open>dv_clock\<close> is the monotonic clock in seconds.
\<close>

record 'p detect_env =
  dv_engine :: "'p detector"
  dv_nats :: nats
  dv_codec :: codec
  dv_json_error :: "string \<Rightarrow> string"
  dv_environ :: environ
  dv_now :: "call list \<Rightarrow> nat"
  dv_clock :: "call list \<Rightarrow> nat"
  dv_elapsed :: "call list \<Rightarrow> timer \<Rightarrow> f64"
  dv_stop :: "call list \<Rightarrow> nat \<Rightarrow> bool"
  dv_put :: "call list \<Rightarrow> string option"
  dv_get :: "string option"
  dv_root :: string
  dv_name :: string
  dv_every_secs :: nat
  dv_every_acks :: nat
  dv_idle_grace :: "nat option"
  dv_store :: bool
  dv_version :: string
  dv_sources :: "(string \<times> string) list"

record 'p detect_state =
  de_program :: 'p
  de_fed :: "(message \<times> fed) list"
  de_outbox :: batch
  de_dlq :: dlq
  de_units :: units
  de_traces :: traces
  de_last_error :: "string option"
  de_retrying :: "int set"
  de_acked_max :: int
  de_acks :: nat
  de_last_snapshot :: nat
  de_objects :: "string \<Rightarrow> string option"

abbreviation de_history :: "'p detect_state \<Rightarrow> call list" where
  "de_history s \<equiv> dq_history (de_dlq s)"

definition stem_of :: "string \<Rightarrow> string" where
  "stem_of name = (case rsplit_once name (CHR '':'') of Some (_, b) \<Rightarrow> b | None \<Rightarrow> name)"

definition emit_subject :: "'p detect_env \<Rightarrow> emit \<Rightarrow> string" where
  "emit_subject E e =
     (case em_topic e of
        Some t \<Rightarrow> t
      | None \<Rightarrow> dv_root E @ ''.detect.'' @ stem_of (dv_name E) @ ''.'' @ em_stream e)"

section \<open>Snapshots\<close>

record snapshot =
  sn_version :: string
  sn_seq :: int
  sn_taken_at :: nat
  sn_state :: string

definition snapshot_header :: "snapshot \<Rightarrow> json" where
  "snapshot_header x =
     VObject (om_of_list [(''version'', VString (sn_version x)), (''seq'', VNumber (PosInt (sn_seq x))),
       (''taken_at'', num_json (sn_taken_at x)), (''bytes'', num_json (length (sn_state x)))])"

definition snapshot_bytes :: "codec \<Rightarrow> snapshot \<Rightarrow> string" where
  "snapshot_bytes C x = cd_print C (snapshot_header x) @ [CHR 0x0A] @ sn_state x"

definition snapshot_put :: "'p detect_env \<Rightarrow> string \<Rightarrow> snapshot \<Rightarrow> ('p detect_state, unit, string) stm" where
  "snapshot_put E unit x s =
     (case dv_put E (de_history s) of
        None \<Rightarrow> (Ok (), s\<lparr>de_objects := (de_objects s)(unit := Some (snapshot_bytes (dv_codec E) x))\<rparr>)
      | Some e \<Rightarrow> (Err (''snapshot put: '' @ e), s))"

definition field_u64 :: "json \<Rightarrow> string \<Rightarrow> int" where
  "field_u64 v k = (case as_u64 (value_index v k) of Some n \<Rightarrow> n | None \<Rightarrow> 0)"

definition snapshot_read :: "codec \<Rightarrow> (string \<Rightarrow> string) \<Rightarrow> string \<Rightarrow> (snapshot, string) result" where
  "snapshot_read C json_error bytes =
     (case split_once bytes (CHR 0x0A) of
        None \<Rightarrow> Err ''snapshot without a header''
      | Some (head, state) \<Rightarrow>
          (case cd_parse C head of
             None \<Rightarrow> Err (''snapshot header: '' @ json_error head)
           | Some v \<Rightarrow>
               Ok \<lparr>sn_version = (case as_str (value_index v ''version'') of Some t \<Rightarrow> t | None \<Rightarrow> []),
                   sn_seq = field_u64 v ''seq'', sn_taken_at = nat (field_u64 v ''taken_at''), sn_state = state\<rparr>))"

definition snapshot_get :: "'p detect_env \<Rightarrow> string \<Rightarrow> (string \<Rightarrow> string option) \<Rightarrow> (snapshot option, string) result" where
  "snapshot_get E unit objects =
     (case dv_get E of
        Some e \<Rightarrow> Err (''snapshot get: '' @ e)
      | None \<Rightarrow>
          (case objects unit of
             None \<Rightarrow> Ok None
           | Some bytes \<Rightarrow> rbind (snapshot_read (dv_codec E) (dv_json_error E) bytes) (\<lambda>x. Ok (Some x))))"

definition snapshot_unit :: "'p detect_env \<Rightarrow> string \<Rightarrow> int \<Rightarrow> ('p detect_state, unit, string) stm" where
  "snapshot_unit E version seq s =
     (case en_snapshot (dv_engine E) (de_program s) of
        Ok state \<Rightarrow>
          mbind (snapshot_put E (dv_name E)
              \<lparr>sn_version = version, sn_seq = seq, sn_taken_at = dv_now E (de_history s), sn_state = state\<rparr>) (\<lambda>_.
            mupd (de_units_update (observe_snapshot (dv_name E) (nat seq) (length state)
              (dv_elapsed E (de_history s) TRun)))) s
      | Err e \<Rightarrow> (Err e, s)
      | Panic \<Rightarrow> (Panic, s))"

definition program_is_stateful :: "'p detect_env \<Rightarrow> 'p \<Rightarrow> bool" where
  "program_is_stateful E p =
     (case en_snapshot (dv_engine E) p of
        Ok bytes \<Rightarrow>
          (case cd_parse (dv_codec E) bytes of
             Some v \<Rightarrow>
               list_ex (\<lambda>k. case value_get v k of Some (VObject m) \<Rightarrow> m \<noteq> [] | _ \<Rightarrow> False)
                 [''sase_states'', ''window_states'', ''join_states'']
           | None \<Rightarrow> True)
      | _ \<Rightarrow> True)"

section \<open>One message\<close>

text \<open>
  The emits of an event are held one by one; a refused one does not stop the others, and the event
  counts as published only if none was refused.
\<close>

fun hold_all :: "'p detect_env \<Rightarrow> call list \<Rightarrow> emit list \<Rightarrow> batch \<Rightarrow> bool \<times> batch" where
  "hold_all E h [] held = (True, held)"
| "hold_all E h (e # es) held =
     (case batch_publish (dv_nats E) h (emit_subject E e) (em_payload e) held of
        Ok held' \<Rightarrow> hold_all E h es held'
      | _ \<Rightarrow> (False, snd (hold_all E h es held)))"

definition message_seq :: "message \<Rightarrow> int" where
  "message_seq m = (case delivery_of m of Some d \<Rightarrow> dl_stream_seq d | None \<Rightarrow> 0)"

text \<open>Parking: stored, then acknowledged; a failed store naks and the sequence stays open.\<close>

definition detect_park :: "'p detect_env \<Rightarrow> message \<Rightarrow> string \<Rightarrow> 'p detect_state \<Rightarrow> 'p detect_state" where
  "detect_park E m err s =
     (case to_dlq (dv_nats E) (dv_codec E) (dv_environ E) (dv_name E) (ms_subject m) (delivered_count m)
             err (ms_data m) (dv_version E) (dv_now E (de_history s)) (de_dlq s) of
        (Ok _, d) \<Rightarrow>
          s\<lparr>de_dlq := snd (on_bus (ack (dv_nats E) m) d), de_units := inc_dead_letter (dv_name E) (de_units s),
            de_retrying := de_retrying s - {message_seq m}\<rparr>
      | (_, d) \<Rightarrow>
          s\<lparr>de_dlq := snd (on_bus (nak (dv_nats E) m) d), de_retrying := insert (message_seq m) (de_retrying s)\<rparr>)"

definition detect_trace :: "'p detect_env \<Rightarrow> message \<Rightarrow> string option \<Rightarrow> string list \<Rightarrow> 'p detect_state \<Rightarrow> 'p detect_state" where
  "detect_trace E m error subjects s =
     s\<lparr>de_traces := record_trace (dv_now E (de_history s)) (dv_name E) (ms_subject m) (error = None) error subjects
        (trace_preview (ms_data m)) None (de_traces s)\<rparr>"

definition detect_observe :: "'p detect_env \<Rightarrow> bool \<Rightarrow> nat \<Rightarrow> f64 \<Rightarrow> 'p detect_state \<Rightarrow> 'p detect_state" where
  "detect_observe E ok n secs s = s\<lparr>de_units := observe (dv_name E) ok n secs (de_units s)\<rparr>"

text \<open>What one message adds to the messages that wait for the barrier.\<close>

definition detect_event :: "'p detect_env \<Rightarrow> message \<Rightarrow> string \<Rightarrow> 'p detect_state \<Rightarrow> message list \<times> 'p detect_state" where
  "detect_event E m event_type s =
     (case en_feed_json (dv_engine E) (de_program s) event_type (ms_data m) of (r, p) \<Rightarrow>
        (let s1 = s\<lparr>de_program := p, de_fed := de_fed s @ [(m, r)]\<rparr>; secs = dv_elapsed E (de_history s) TRun in
         case r of
           BadEvent e \<Rightarrow> ([], detect_park E m (''bad payload: '' @ e) (detect_observe E False 0 f_zero s1))
         | Emits es \<Rightarrow>
             (case hold_all E (de_history s) es (de_outbox s) of (ok, held) \<Rightarrow>
                (if ok then [m] else [],
                 detect_trace E m (if ok then None else Some ''publish failed (will redeliver)'') (map (emit_subject E) es)
                   (detect_observe E ok (length es) secs (s1\<lparr>de_outbox := held\<rparr>))))
         | EngineError e \<Rightarrow>
             (let s2 = detect_observe E False 0 secs s1;
                  s3 = (if max_deliveries \<le> delivered_count m then detect_park E m e s2
                        else s2\<lparr>de_retrying := insert (message_seq m) (de_retrying s2)\<rparr>)
              in ([], (detect_trace E m (Some e) [] s3)\<lparr>de_last_error := Some e\<rparr>))))"

definition detect_message :: "'p detect_env \<Rightarrow> message \<Rightarrow> ('p detect_state, message list, string) stm" where
  "detect_message E m s =
     (case find (\<lambda>(topic, _). subject_matches topic (ms_subject m)) (dv_sources E) of
        None \<Rightarrow>
          (Err (''received '' @ ms_subject m @ '' which no `.from()` subject matches: consumer `'' @
             durable_name (dv_name E) @ ''` is not the one this unit created''), s)
      | Some (_, event_type) \<Rightarrow> (case detect_event E m event_type s of (a, s') \<Rightarrow> (Ok a, s')))"

text \<open>The messages of a batch; \<open>None\<close> is a stop seen on taking one.\<close>

fun detect_messages :: "'p detect_env \<Rightarrow> message list \<Rightarrow> ('p detect_state, message list option, string) stm" where
  "detect_messages E [] = mret (Some [])"
| "detect_messages E (m # ms) =
     (\<lambda>s. if dv_stop E (de_history s) (length (m # ms)) then (Ok None, s)
           else mbind (detect_message E m) (\<lambda>a.
             mbind (detect_messages E ms) (\<lambda>r. mret (map_option (\<lambda>b. a @ b) r))) s)"

section \<open>Turns\<close>

text \<open>The barrier, then the acknowledgements and the bookkeeping of the snapshots.\<close>

definition on_detect_bus :: "'a bm \<Rightarrow> 'p detect_state \<Rightarrow> ('a, string) result \<times> 'p detect_state" where
  "on_detect_bus m s = (case on_bus m (de_dlq s) of (r, d) \<Rightarrow> (r, s\<lparr>de_dlq := d\<rparr>))"

definition detect_settle :: "'p detect_env \<Rightarrow> message list \<Rightarrow> 'p detect_state \<Rightarrow> 'p detect_state" where
  "detect_settle E to_ack s =
     (case on_detect_bus (confirm (dv_nats E) (de_outbox s)) s of
        (Ok _, s1) \<Rightarrow>
          (let s2 = snd (on_detect_bus (ack_all (dv_nats E) to_ack) (s1\<lparr>de_outbox := []\<rparr>)) in
           s2\<lparr>de_retrying := de_retrying s2 - message_seq ` set to_ack,
              de_acked_max := fold max (map message_seq to_ack) (de_acked_max s2),
              de_acks := de_acks s2 + length to_ack\<rparr>)
      | (_, s1) \<Rightarrow> s1\<lparr>de_outbox := []\<rparr>)"

definition try_snapshot :: "'p detect_env \<Rightarrow> 'p detect_state \<Rightarrow> 'p detect_state" where
  "try_snapshot E s =
     (case snapshot_unit E (dv_version E) (de_acked_max s) s of
        (Ok _, s1) \<Rightarrow> s1\<lparr>de_acks := 0, de_last_snapshot := dv_clock E (de_history s1)\<rparr>
      | (_, s1) \<Rightarrow> s1)"

definition snapshot_due :: "'p detect_env \<Rightarrow> 'p detect_state \<Rightarrow> bool" where
  "snapshot_due E s \<longleftrightarrow>
     dv_store E \<and> 0 < de_acks s \<and> de_retrying s = {} \<and>
     (dv_every_acks E \<le> de_acks s \<or> dv_every_secs E \<le> dv_clock E (de_history s) - de_last_snapshot s)"

definition detect_batch :: "'p detect_env \<Rightarrow> message list \<Rightarrow> ('p detect_state, bool, string) stm" where
  "detect_batch E ms =
     mbind (detect_messages E ms) (\<lambda>r.
       case r of
         None \<Rightarrow> mret True
       | Some to_ack \<Rightarrow>
           mbind (mupd (detect_settle E to_ack)) (\<lambda>_.
           mbind (mupd (\<lambda>s. s\<lparr>de_units := observe_round (dv_name E) f_zero (dv_elapsed E (de_history s) TProcess)
             (dv_elapsed E (de_history s) TBarrier) (de_units s)\<rparr>)) (\<lambda>_.
           mbind (mupd (\<lambda>s. if snapshot_due E s then try_snapshot E s else s)) (\<lambda>_. mret False))))"

text \<open>Nothing arrived: what time has closed is published, with nothing to acknowledge.\<close>

fun publish_tick :: "'p detect_env \<Rightarrow> emit list \<Rightarrow> 'p detect_state \<Rightarrow> 'p detect_state" where
  "publish_tick E [] s = s"
| "publish_tick E (e # es) s =
     publish_tick E es (snd (on_detect_bus (do_call (dv_nats E) (CSend (emit_subject E e) (em_payload e))) s))"

definition detect_idle :: "'p detect_env \<Rightarrow> 'p detect_state \<Rightarrow> 'p detect_state" where
  "detect_idle E s =
     (if dv_idle_grace E = None then s
      else (case en_tick (dv_engine E) (de_program s) of (r, p) \<Rightarrow>
        (let s1 = s\<lparr>de_program := p\<rparr> in
         case r of
           Ok es \<Rightarrow>
             if es = [] then s1
             else (publish_tick E es s1)\<lparr>de_units := observe_tick_emits (dv_name E) (length es) (de_units s1)\<rparr>
         | _ \<Rightarrow> s1)))"

text \<open>A clean stop takes a last snapshot.\<close>

definition detect_stop :: "'p detect_env \<Rightarrow> 'p detect_state \<Rightarrow> 'p detect_state" where
  "detect_stop E s =
     (if dv_store E \<and> 0 < de_acks s \<and> de_retrying s = {}
      then snd (snapshot_unit E (dv_version E) (de_acked_max s) s) else s)"

text \<open>
  The loop of an attempt over what the reader sends before each turn; \<open>gone\<close> says that the reader
  has ended. At most 256 messages are a batch, the rest waits in the channel. \<open>True\<close> is a stop.
\<close>

fun detect_turns :: "'p detect_env \<Rightarrow> (message list \<times> bool) list \<Rightarrow> message list \<Rightarrow> ('p detect_state, bool, string) stm" where
  "detect_turns E [] channel = mret False"
| "detect_turns E ((new, gone) # later) channel = (\<lambda>s.
     if dv_stop E (de_history s) 0 then (Ok True, detect_stop E s)
     else if channel @ new = [] then
       (if gone then (Err ''the consumer reader stopped'', s)
        else detect_turns E later [] (detect_idle E s))
     else mbind (detect_batch E (take 256 (channel @ new))) (\<lambda>stopped.
       if stopped then mret True else detect_turns E later (drop 256 (channel @ new))) s)"

section \<open>Start\<close>

text \<open>The subjects of a program: each binding names one, and there is at least one.\<close>

fun source_subjects :: "string \<Rightarrow> binding list \<Rightarrow> ((string \<times> string) list, string) result" where
  "source_subjects subj_root [] = Ok []"
| "source_subjects subj_root (b # bs) =
     (case bi_topic b of
        None \<Rightarrow>
          Err (''`.from('' @ bi_connector b @ '', ...)` names no topic: a detect unit consumes a bus subject, write `.from('' @
            bi_connector b @ '', topic: '' @ [CHR 0x22] @ subj_root @ ''.some.subject'' @ [CHR 0x22] @ '')`'')
      | Some t \<Rightarrow> rbind (source_subjects subj_root bs) (\<lambda>xs. Ok ((t, bi_event_type b) # xs)))"

record 'p started =
  sd_program :: 'p
  sd_version :: string
  sd_sources :: "(string \<times> string) list"
  sd_store :: bool
  sd_resume :: "int option"

text \<open>The state of the unit's own program is restored; that of another version is ignored.\<close>

definition resume_from ::
  "'p detect_env \<Rightarrow> string \<Rightarrow> (string \<Rightarrow> string option) \<Rightarrow> 'p \<Rightarrow> ('p \<times> int option, string) result" where
  "resume_from E version objects p =
     rbind (snapshot_get E (dv_name E) objects) (\<lambda>found.
       case found of
         Some x \<Rightarrow>
           if sn_version x = version then
             rbind (map_err (\<lambda>e. ''restore snapshot: '' @ e) (en_restore (dv_engine E) p (sn_state x))) (\<lambda>p'.
               Ok (p', Some (sn_seq x + 1)))
           else Ok (p, None)
       | None \<Rightarrow> Ok (p, None))"

text \<open>\<open>available\<close> says whether the object store could be opened.\<close>

definition detect_start ::
  "'p detect_env \<Rightarrow> bool \<Rightarrow> (string \<Rightarrow> string option) \<Rightarrow> (string, string) result \<Rightarrow> ('p started, string) result" where
  "detect_start E available objects contents =
     rbind contents (\<lambda>src.
     rbind (en_compile (dv_engine E) src) (\<lambda>p.
     rbind (source_subjects (dv_root E) (en_sources (dv_engine E) p)) (\<lambda>sources.
       if sources = [] then
         Err (''no `.from(<connector>, topic: '' @ [CHR 0x22] @ ''...'' @ [CHR 0x22] @ '')` declaration: nothing to consume'')
       else
         (let store = (program_is_stateful E p \<and> available); version = hash_content src in
          rbind (if store then resume_from E version objects p else Ok (p, None)) (\<lambda>(p', resume).
            Ok \<lparr>sd_program = en_set_idle_grace (dv_engine E) p' (dv_idle_grace E), sd_version = version,
                sd_sources = sources, sd_store = store, sd_resume = resume\<rparr>)))))"

text \<open>
  The first snapshot of a unit that resumes nothing: it stands for the position of the consumer.
\<close>

definition first_snapshot :: "'p detect_env \<Rightarrow> 'p started \<Rightarrow> int option \<Rightarrow> 'p detect_state \<Rightarrow> 'p detect_state" where
  "first_snapshot E x position s =
     (if sd_store x \<and> sd_resume x = None
      then snd (snapshot_unit E (sd_version x) (case position of Some f \<Rightarrow> f | None \<Rightarrow> 0) s) else s)"

section \<open>Facts\<close>

text \<open>
  A message is safe to acknowledge once its dead letter is stored, or the engine took it and every
  event it emitted is confirmed.
\<close>

definition detect_safe :: "'p detect_env \<Rightarrow> (message \<times> fed) list \<Rightarrow> call list \<Rightarrow> message \<Rightarrow> bool" where
  "detect_safe E taken h m \<longleftrightarrow>
     (\<exists>err now. accepted (dv_nats E) h
        (CStore (dlq_subject (dv_name E))
           (cd_print (dv_codec E)
              (envelope (dv_name E) (ms_subject m) (delivered_count m) err (ms_data m) (dv_version E) now)))) \<or>
     (\<exists>es. (m, Emits es) \<in> set taken \<and>
        (\<forall>e \<in> set es. confirmed (dv_nats E) h (emit_subject E e, em_payload e)))"

lemma detect_safe_mono: "detect_safe E taken h m \<Longrightarrow> detect_safe E (taken @ u) (h @ t) m"
  unfolding detect_safe_def set_append by (meson UnI1 accepted_append confirmed_append)

definition dsound :: "'p detect_env \<Rightarrow> message set \<Rightarrow> string ending \<Rightarrow> 'p detect_state \<Rightarrow> 'p detect_state \<Rightarrow> bool" where
  "dsound E M k s s' \<longleftrightarrow>
     (\<exists>t. de_history s' = de_history s @ t \<and>
        every_ack (\<lambda>h q. \<exists>m \<in> M. ms_reply m = Some q \<and> detect_safe E (de_fed s') h m) (de_history s) t) \<and>
     (\<exists>u. de_fed s' = de_fed s @ u)"

lemma dsoundI:
  assumes "de_history s' = de_history s @ t" and "list_all no_ack t" and "de_fed s' = de_fed s @ u"
  shows "dsound E M k s s'"
  unfolding dsound_def using assms every_ack_none by blast

lemma dsound_same: "de_dlq s' = de_dlq s \<Longrightarrow> de_fed s' = de_fed s \<Longrightarrow> dsound E M k s s'"
  by (rule dsoundI [of _ _ "[]" "[]"]) simp_all

lemma dsound_trans:
  assumes "dsound E M j s s'" and "dsound E M k s' s''"
  shows "dsound E M l s s''"
proof -
  let ?P = "\<lambda>x h q. \<exists>m \<in> M. ms_reply m = Some q \<and> detect_safe E (de_fed x) h m"
  obtain t u where t: "de_history s' = de_history s @ t" "every_ack (?P s') (de_history s) t" "de_fed s' = de_fed s @ u"
    using assms(1) by (auto simp: dsound_def)
  obtain t' u' where t': "de_history s'' = de_history s' @ t'" "every_ack (?P s'') (de_history s') t'"
      "de_fed s'' = de_fed s' @ u'"
    using assms(2) by (auto simp: dsound_def)
  have "every_ack (?P s'') (de_history s) t"
    using t(2) by (rule every_ack_mono) (use detect_safe_mono [of E _ _ _ u' "[]"] t'(3) in auto)
  then have "every_ack (?P s'') (de_history s) (t @ t')" using t'(2) t(1) by simp
  then show ?thesis
    unfolding dsound_def using t t' by (intro conjI exI [of _ "t @ t'"] exI [of _ "u @ u'"]) simp_all
qed

interpretation detect: frame "dsound E M" "\<lambda>_. False" for E M
proof unfold_locales
  show "dsound E M k s s" for k s by (rule dsound_same) simp_all
  show "dsound E M EndOk s t \<Longrightarrow> dsound E M k t u \<Longrightarrow> dsound E M k s u" for s t u k by (rule dsound_trans)
qed

lemma dsound_mono: "dsound E M k s s' \<Longrightarrow> M \<subseteq> N \<Longrightarrow> dsound E N k s s'"
  unfolding dsound_def by (blast intro: every_ack_mono)

lemma on_detect_bus_run:
  "on_detect_bus m s = (fst (m (de_history s)), s\<lparr>de_dlq := (de_dlq s)\<lparr>dq_history := snd (m (de_history s))\<rparr>\<rparr>)"
  by (simp add: on_detect_bus_def on_bus_def split: prod.split)

lemma on_bus_history [simp]: "dq_history (snd (on_bus m d)) = snd (m (dq_history d))"
  by (simp add: on_bus_def split: prod.split)

lemma detect_park_keeps [simp]:
  "de_fed (detect_park E m err s) = de_fed s" "de_outbox (detect_park E m err s) = de_outbox s"
  by (simp_all add: detect_park_def split: prod.split result.split)

lemma detect_park_sound: "m \<in> M \<Longrightarrow> dsound E M k s (detect_park E m err s)"
proof -
  assume m: "m \<in> M"
  define c where "c = CStore (dlq_subject (dv_name E)) (cd_print (dv_codec E) (envelope (dv_name E) (ms_subject m)
    (delivered_count m) err (ms_data m) (dv_version E) (dv_now E (de_history s))))"
  obtain q d where d: "to_dlq (dv_nats E) (dv_codec E) (dv_environ E) (dv_name E) (ms_subject m)
      (delivered_count m) err (ms_data m) (dv_version E) (dv_now E (de_history s)) (de_dlq s) = (q, d)"
    by (metis surj_pair)
  obtain t where t: "dq_history d = de_history s @ c # t" "list_all no_ack t"
    using to_dlq_history(1) [OF d] unfolding c_def by blast
  have none: "every_ack P (de_history s) (c # t)" for P
    by (rule every_ack_none) (use t(2) in \<open>simp add: c_def\<close>)
  show ?thesis
  proof (cases q)
    case (Ok u)
    have "nt_answer (dv_nats E) (de_history s) c = None"
      using to_dlq_history(2) [OF d Ok] unfolding c_def .
    then have "accepted (dv_nats E) (dq_history d) c" unfolding accepted_def using t(1) by blast
    then have safe: "detect_safe E fed (dq_history d) m" for fed unfolding detect_safe_def c_def by blast
    have "de_history (detect_park E m err s) =
        de_history s @ (c # t) @ (case ms_reply m of None \<Rightarrow> [] | Some r \<Rightarrow> [CAck r])"
      using d Ok t(1) by (simp add: detect_park_def ack_history)
    then show ?thesis
      unfolding dsound_def using none safe t(1) m by (cases "ms_reply m") auto
  next
    case (Err e)
    then have "de_history (detect_park E m err s) =
        de_history s @ (c # t) @ (case ms_reply m of None \<Rightarrow> [] | Some r \<Rightarrow> [CNak r])"
      using d t(1) by (simp add: detect_park_def nak_history)
    then show ?thesis by (rule dsoundI) (use t(2) in \<open>auto simp: c_def split: option.split\<close>)
  next
    case Panic
    then have "de_history (detect_park E m err s) =
        de_history s @ (c # t) @ (case ms_reply m of None \<Rightarrow> [] | Some r \<Rightarrow> [CNak r])"
      using d t(1) by (simp add: detect_park_def nak_history)
    then show ?thesis by (rule dsoundI) (use t(2) in \<open>auto simp: c_def split: option.split\<close>)
  qed
qed

lemma hold_all_holds:
  "hold_all E h es held = (ok, held') \<Longrightarrow>
     set held \<subseteq> set held' \<and> (ok \<longrightarrow> (\<forall>e \<in> set es. (emit_subject E e, em_payload e) \<in> set held'))"
proof (induction es arbitrary: held ok)
  case (Cons e es)
  show ?case
  proof (cases "batch_publish (dv_nats E) h (emit_subject E e) (em_payload e) held")
    case (Ok held1)
    then have "held1 = held @ [(emit_subject E e, em_payload e)]" by (auto simp: batch_publish_def split: if_splits)
    then show ?thesis using Cons Ok by fastforce
  qed (use Cons in \<open>fastforce simp: prod_eq_iff\<close>)+
qed simp

text \<open>A message that waits for the barrier: the engine took it and its events are held.\<close>

definition waiting :: "'p detect_env \<Rightarrow> 'p detect_state \<Rightarrow> message \<Rightarrow> bool" where
  "waiting E s m \<longleftrightarrow>
     (\<exists>es. (m, Emits es) \<in> set (de_fed s) \<and> (\<forall>e \<in> set es. (emit_subject E e, em_payload e) \<in> set (de_outbox s)))"

definition keeps_waiting :: "'p detect_state \<Rightarrow> 'p detect_state \<Rightarrow> bool" where
  "keeps_waiting s s' \<longleftrightarrow> set (de_fed s) \<subseteq> set (de_fed s') \<and> set (de_outbox s) \<subseteq> set (de_outbox s')"

lemma waiting_kept: "waiting E s m \<Longrightarrow> keeps_waiting s s' \<Longrightarrow> waiting E s' m"
  unfolding waiting_def keeps_waiting_def by blast

lemma note_simps [simp]:
  "de_dlq (detect_trace E m e subs s) = de_dlq s" "de_fed (detect_trace E m e subs s) = de_fed s"
  "de_outbox (detect_trace E m e subs s) = de_outbox s"
  "de_dlq (detect_observe E ok n secs s) = de_dlq s" "de_fed (detect_observe E ok n secs s) = de_fed s"
  "de_outbox (detect_observe E ok n secs s) = de_outbox s"
  by (simp_all add: detect_trace_def detect_observe_def)

lemma parked_later:
  assumes "m \<in> M" and "de_dlq s1 = de_dlq s" and "de_fed s1 = de_fed s @ u"
    and "de_dlq s2 = de_dlq (detect_park E m err s1)" and "de_fed s2 = de_fed s1"
  shows "dsound E M k s s2"
proof -
  have "dsound E M k s s1" by (rule dsoundI [of _ _ "[]"]) (use assms in simp_all)
  moreover have "dsound E M k s1 (detect_park E m err s1)" by (rule detect_park_sound) (rule assms)
  moreover have "dsound E M k (detect_park E m err s1) s2" by (rule dsound_same) (use assms in simp_all)
  ultimately show ?thesis by (blast intro: dsound_trans)
qed

lemma detect_event_sound:
  assumes "m \<in> M" and "detect_event E m ty s = (a, s')"
  shows "dsound E M k s s'" and "keeps_waiting s s'" and "a = [] \<or> a = [m] \<and> waiting E s' m"
proof -
  obtain r p where r: "en_feed_json (dv_engine E) (de_program s) ty (ms_data m) = (r, p)" by fastforce
  define s1 where "s1 = s\<lparr>de_program := p, de_fed := de_fed s @ [(m, r)]\<rparr>"
  have s1: "de_dlq s1 = de_dlq s" "de_fed s1 = de_fed s @ [(m, r)]" "de_outbox s1 = de_outbox s"
    by (simp_all add: s1_def)
  have "dsound E M k s s' \<and> keeps_waiting s s' \<and> (a = [] \<or> a = [m] \<and> waiting E s' m)"
  proof (cases r)
    case (BadEvent e)
    then have "a = []" "s' = detect_park E m (''bad payload: '' @ e) (detect_observe E False 0 f_zero s1)"
      using assms(2) r by (simp_all add: detect_event_def s1_def)
    then show ?thesis
      using parked_later [OF assms(1), of "detect_observe E False 0 f_zero s1" s "[(m, r)]" s' E "''bad payload: '' @ e"]
        s1 by (auto simp: keeps_waiting_def)
  next
    case (Emits es)
    obtain ok held where h: "hold_all E (de_history s) es (de_outbox s) = (ok, held)" by fastforce
    have s': "de_dlq s' = de_dlq s" "de_fed s' = de_fed s @ [(m, r)]" "de_outbox s' = held" "a = (if ok then [m] else [])"
      using assms(2) r Emits h by (auto simp: detect_event_def Let_def)
    have "dsound E M k s s'" by (rule dsoundI [of _ _ "[]"]) (use s' in simp_all)
    then show ?thesis using s' hold_all_holds [OF h] Emits by (auto simp: keeps_waiting_def waiting_def)
  next
    case (EngineError e)
    define s2 where "s2 = detect_observe E False 0 (dv_elapsed E (de_history s) TRun) s1"
    have s2: "de_dlq s2 = de_dlq s" "de_fed s2 = de_fed s @ [(m, r)]" "de_outbox s2 = de_outbox s"
      by (simp_all add: s2_def s1)
    have a: "a = []" and s': "s' = (detect_trace E m (Some e) [] (if max_deliveries \<le> delivered_count m then detect_park E m e s2
        else s2\<lparr>de_retrying := insert (message_seq m) (de_retrying s2)\<rparr>))\<lparr>de_last_error := Some e\<rparr>"
      using assms(2) r EngineError by (auto simp: detect_event_def Let_def s1_def s2_def)
    show ?thesis
    proof (cases "max_deliveries \<le> delivered_count m")
      case True
      then have "dsound E M k s s'" using parked_later [OF assms(1) s2(1,2), of s' E e k] s' by simp
      then show ?thesis using a s' s2 True by (auto simp: keeps_waiting_def)
    next
      case False
      then have "dsound E M k s s'" by (intro dsoundI [of _ _ "[]" "[(m, r)]"]) (simp_all add: s' s2)
      then show ?thesis using a s' s2 False by (auto simp: keeps_waiting_def)
    qed
  qed
  then show "dsound E M k s s'" and "keeps_waiting s s'" and "a = [] \<or> a = [m] \<and> waiting E s' m" by blast+
qed

lemma detect_messages_sound:
  assumes "set ms \<subseteq> M" and "detect_messages E ms s = (r, s')"
  shows "dsound E M k s s' \<and> keeps_waiting s s' \<and>
     (\<forall>to_ack. r = Ok (Some to_ack) \<longrightarrow> (\<forall>m \<in> set to_ack. m \<in> M \<and> waiting E s' m))"
  using assms
proof (induction ms arbitrary: s r s')
  case Nil
  then show ?case by (auto simp: keeps_waiting_def intro: dsound_same)
next
  case (Cons m ms)
  show ?case
  proof (cases "dv_stop E (de_history s) (length (m # ms)) \<or>
      find (\<lambda>(topic, _). subject_matches topic (ms_subject m)) (dv_sources E) = None")
    case True
    then have "s' = s \<and> (\<forall>to_ack. r \<noteq> Ok (Some to_ack))"
      using Cons.prems(2) by (auto simp: detect_message_def mbind_def split: if_splits)
    then show ?thesis by (auto simp: keeps_waiting_def intro: dsound_same)
  next
    case False
    then obtain x ty where f: "find (\<lambda>(topic, _). subject_matches topic (ms_subject m)) (dv_sources E) = Some (x, ty)"
      by auto
    obtain a s1 where a: "detect_event E m ty s = (a, s1)" by fastforce
    obtain q s2 where q: "detect_messages E ms s1 = (q, s2)" by fastforce
    have run: "s' = s2 \<and> (\<forall>to_ack. r = Ok (Some to_ack) \<longrightarrow> (\<exists>b. q = Ok (Some b) \<and> to_ack = a @ b))"
      using Cons.prems(2) False f a q by (cases q) (auto simp: detect_message_def mbind_def)
    have m: "m \<in> M" and ms: "set ms \<subseteq> M" using Cons.prems(1) by auto
    note one = detect_event_sound [OF m a]
    have rest: "dsound E M k s1 s2" "keeps_waiting s1 s2"
      "\<forall>to_ack. q = Ok (Some to_ack) \<longrightarrow> (\<forall>m \<in> set to_ack. m \<in> M \<and> waiting E s2 m)"
      using Cons.IH [OF ms q] by blast+
    have "dsound E M k s s'" using run one(1) rest(1) by (blast intro: dsound_trans)
    moreover have "keeps_waiting s s'" using run one(2) rest(2) by (auto simp: keeps_waiting_def)
    moreover have "\<forall>m \<in> set a. m \<in> M \<and> waiting E s2 m" using one(3) m rest(2) by (auto intro: waiting_kept)
    ultimately show ?thesis using run rest(3) by auto
  qed
qed

lemma detect_settle_sound:
  assumes "\<forall>m \<in> set to_ack. m \<in> M \<and> waiting E s m"
  shows "dsound E M k s (detect_settle E to_ack s)"
proof -
  obtain q h1 where q: "confirm (dv_nats E) (de_outbox s) (de_history s) = (q, h1)" by fastforce
  from keepsE [OF confirm_no_ack q] obtain t where t: "h1 = de_history s @ t" "list_all no_ack t"
    by (auto simp: extends_def)
  show ?thesis
  proof (cases q)
    case (Ok u)
    then have c: "confirm (dv_nats E) (de_outbox s) (de_history s) = (Ok (), h1)" using q by simp
    let ?P = "\<lambda>h q. \<exists>m \<in> M. ms_reply m = Some q \<and> detect_safe E (de_fed s) h m"
    have safe: "detect_safe E (de_fed s) h1 m" if "m \<in> set to_ack" for m
      using assms that confirm_Ok [OF c] unfolding detect_safe_def waiting_def by blast
    obtain x h2 where a: "ack_all (dv_nats E) to_ack h1 = (x, h2)" by fastforce
    from ack_all_history [OF this] obtain u where u: "h2 = h1 @ u"
      "\<forall>c \<in> set u. \<exists>m \<in> set to_ack. \<exists>q. ms_reply m = Some q \<and> c = CAck q" by blast
    have "every_ack ?P h1 u"
    proof (rule every_ackI)
      show "\<exists>q. c = CAck q \<and> ?P h1 q" if "c \<in> set u" for c using that u(2) safe assms by blast
      show "?P (h1 @ a) q" if "?P h1 q" for a q using that detect_safe_mono [of E _ _ _ "[]" a] by auto
    qed
    then have "every_ack ?P (de_history s) (t @ u)" using t every_ack_none by auto
    moreover have "de_history (detect_settle E to_ack s) = de_history s @ t @ u"
        "de_fed (detect_settle E to_ack s) = de_fed s"
      using q Ok a t u by (simp_all add: detect_settle_def on_detect_bus_run Let_def)
    ultimately show ?thesis unfolding dsound_def by auto
  qed (rule dsoundI [of _ _ t "[]"], use q t in \<open>simp_all add: detect_settle_def on_detect_bus_run\<close>)+
qed

lemma snapshot_unit_keeps:
  "de_dlq (snd (snapshot_unit E v seq s)) = de_dlq s" "de_fed (snd (snapshot_unit E v seq s)) = de_fed s"
  by (auto simp: snapshot_unit_def snapshot_put_def mbind_def split: result.split option.split)

lemma try_snapshot_keeps: "de_dlq (try_snapshot E s) = de_dlq s" "de_fed (try_snapshot E s) = de_fed s"
  using snapshot_unit_keeps [of E "dv_version E" "de_acked_max s" s]
  by (auto simp: try_snapshot_def split: prod.split result.split)

lemma publish_tick_history:
  "\<exists>t. de_history (publish_tick E es s) = de_history s @ t \<and> list_all no_ack t \<and> de_fed (publish_tick E es s) = de_fed s"
proof (induction es arbitrary: s)
  case (Cons e es)
  let ?c = "CSend (emit_subject E e) (em_payload e)"
  let ?s = "snd (on_detect_bus (do_call (dv_nats E) ?c) s)"
  obtain t where "de_history (publish_tick E es ?s) = de_history ?s @ t" "list_all no_ack t"
      "de_fed (publish_tick E es ?s) = de_fed ?s"
    using Cons.IH by blast
  moreover have "de_history ?s = de_history s @ [?c]" "de_fed ?s = de_fed s"
    by (simp_all add: on_detect_bus_run do_call_def split: option.split)
  ultimately show ?case by (intro exI [of _ "?c # t"]) simp
qed simp

lemma detect_idle_sound: "dsound E M k s (detect_idle E s)"
proof -
  obtain r p where r: "en_tick (dv_engine E) (de_program s) = (r, p)" by fastforce
  show ?thesis
  proof (cases "dv_idle_grace E = None \<or> (\<forall>es. r = Ok es \<longrightarrow> es = [])")
    case True
    then show ?thesis by (intro dsound_same) (auto simp: detect_idle_def r Let_def split: result.split)
  next
    case False
    then obtain es where es: "r = Ok es" "es \<noteq> []" "dv_idle_grace E \<noteq> None" by blast
    obtain t where "de_history (publish_tick E es (s\<lparr>de_program := p\<rparr>)) = de_history s @ t" "list_all no_ack t"
        "de_fed (publish_tick E es (s\<lparr>de_program := p\<rparr>)) = de_fed s"
      using publish_tick_history [of E es "s\<lparr>de_program := p\<rparr>"] by auto
    then show ?thesis using es r by (intro dsoundI [of _ _ t "[]"]) (auto simp: detect_idle_def)
  qed
qed

lemma detect_batch_sound:
  assumes "set ms \<subseteq> M"
  shows "keeps (dsound E M) (detect_batch E ms)"
proof (rule keepsI)
  fix s
  obtain r s1 where r: "detect_messages E ms s = (r, s1)" by fastforce
  note one = detect_messages_sound [OF assms r]
  show "dsound E M (end_of (fst (detect_batch E ms s))) s (snd (detect_batch E ms s))"
  proof (cases "\<exists>to_ack. r = Ok (Some to_ack)")
    case True
    then obtain to_ack where to_ack: "r = Ok (Some to_ack)" by blast
    let ?s2 = "detect_settle E to_ack s1"
    have "dsound E M k s ?s2" for k
      using one to_ack detect_settle_sound [of to_ack M E s1 k] by (blast intro: dsound_trans)
    moreover have "dsound E M k ?s2 (snd (detect_batch E ms s))" for k
      using r to_ack by (intro dsound_same) (simp_all add: detect_batch_def mbind_def try_snapshot_keeps)
    ultimately show ?thesis by (blast intro: dsound_trans)
  next
    case False
    then have "snd (detect_batch E ms s) = s1"
      using r by (cases r) (auto simp: detect_batch_def mbind_def split: option.split)
    then show ?thesis using one by simp
  qed
qed

lemma detect_turns_sound:
  "set channel \<union> (\<Union>x \<in> set turns. set (fst x)) \<subseteq> M \<Longrightarrow> keeps (dsound E M) (detect_turns E turns channel)"
proof (induction turns arbitrary: channel)
  case Nil
  show ?case unfolding detect_turns.simps by (rule detect.mret_keeps)
next
  case (Cons x later)
  obtain new gone where x: "x = (new, gone)" by fastforce
  have "set (take 256 (channel @ new)) \<subseteq> set (channel @ new)" "set (drop 256 (channel @ new)) \<subseteq> set (channel @ new)"
    by (rule set_take_subset, rule set_drop_subset)
  then have sub: "set (take 256 (channel @ new)) \<subseteq> M" "set (drop 256 (channel @ new)) \<subseteq> M"
    using Cons.prems x by auto
  have idle: "keeps (dsound E M) (detect_turns E later [])" and
    rest: "keeps (dsound E M) (detect_turns E later (drop 256 (channel @ new)))"
    using Cons.IH Cons.prems sub by auto
  have "keeps (dsound E M) (mbind (detect_batch E (take 256 (channel @ new))) (\<lambda>stopped.
       if stopped then mret True else detect_turns E later (drop 256 (channel @ new))))"
    using detect_batch_sound [OF sub(1)] rest by (intro detect.mbind_keeps) auto
  moreover have "dsound E M (end_of (fst (detect_turns E later [] (detect_idle E s)))) s
      (snd (detect_turns E later [] (detect_idle E s)))" for s
    using keepsD [OF idle] detect_idle_sound by (blast intro: dsound_trans)
  moreover have "dsound E M k s (detect_stop E s)" for s k
    by (rule dsound_same) (simp_all add: detect_stop_def snapshot_unit_keeps)
  ultimately show ?case
    unfolding x by (intro keepsI) (auto dest: keepsD intro: dsound_same)
qed


section \<open>Resuming\<close>

lemma split_once_first: "c \<notin> set a \<Longrightarrow> split_once (a @ c # b) c = Some (a, b)"
proof -
  assume "c \<notin> set a"
  then have "str_find (a @ c # b) [c] = Some (length a)"
    by (induction a) (auto simp: starts_with_def)
  then show ?thesis by (simp add: split_once_def)
qed

lemma header_fields:
  "as_str (value_index (snapshot_header x) ''version'') = Some (sn_version x)"
  "field_u64 (snapshot_header x) ''seq'' = sn_seq x" "field_u64 (snapshot_header x) ''taken_at'' = int (sn_taken_at x)"
  by (simp_all add: snapshot_header_def value_index_def field_u64_def om_get_insert num_json_def)

lemma snapshot_read_back:
  assumes "codec_law C (snapshot_header x)" and "CHR 0x0A \<notin> set (cd_print C (snapshot_header x))"
  shows "snapshot_read C je (snapshot_bytes C x) = Ok x"
  using assms by (simp add: snapshot_read_def snapshot_bytes_def split_once_first codec_law_def header_fields)

text \<open>
  (C35) A snapshot is resumed where it was taken: after a snapshot for a stream sequence is stored,
  the next attempt of the same program starts from the state the engine saved and consumes from the
  sequence after it, and another version of the program starts afresh. The bytes of the engine may
  be anything; of the JSON printer it needs that the header it prints is one line and reads back.
\<close>

theorem snapshot_is_resumed:
  assumes "dv_put E (de_history s) = None" and "dv_get E = None"
    and "en_snapshot (dv_engine E) (de_program s) = Ok state"
    and "en_restore (dv_engine E) p state = Ok p'"
    and "codec_law (dv_codec E) (snapshot_header
      \<lparr>sn_version = version, sn_seq = seq, sn_taken_at = dv_now E (de_history s), sn_state = state\<rparr>)"
    and "CHR 0x0A \<notin> set (cd_print (dv_codec E) (snapshot_header
      \<lparr>sn_version = version, sn_seq = seq, sn_taken_at = dv_now E (de_history s), sn_state = state\<rparr>))"
  shows "resume_from E version (de_objects (snd (snapshot_unit E version seq s))) p = Ok (p', Some (seq + 1)) \<and>
     (version' \<noteq> version \<longrightarrow> resume_from E version' (de_objects (snd (snapshot_unit E version seq s))) p = Ok (p, None))"
proof -
  let ?x = "\<lparr>sn_version = version, sn_seq = seq, sn_taken_at = dv_now E (de_history s), sn_state = state\<rparr>"
  have "de_objects (snd (snapshot_unit E version seq s)) (dv_name E) = Some (snapshot_bytes (dv_codec E) ?x)"
    using assms(1,3) by (simp add: snapshot_unit_def snapshot_put_def mbind_def)
  then have "snapshot_get E (dv_name E) (de_objects (snd (snapshot_unit E version seq s))) = Ok (Some ?x)"
    using assms(2) snapshot_read_back [OF assms(5,6)] by (simp add: snapshot_get_def)
  then show ?thesis using assms(4) by (simp add: resume_from_def)
qed

section \<open>A concrete unit\<close>

definition demo_detector :: "string detector" where
  "demo_detector = \<lparr>en_compile = Ok, en_sources = \<lambda>_. [], en_snapshot = Ok, en_restore = \<lambda>_ b. Ok b,
     en_set_idle_grace = \<lambda>p _. p,
     en_feed_json = \<lambda>p ty d. (Emits [\<lparr>em_topic = None, em_stream = ''hit'', em_payload = d\<rparr>], p @ d),
     en_tick = \<lambda>p. (Ok [], p)\<rparr>"

definition seq_codec :: codec where
  "seq_codec = \<lparr>cd_print = \<lambda>v. int_str (field_u64 v ''seq''),
     cd_parse = \<lambda>t. map_option (\<lambda>n. VObject [(''seq'', VNumber (PosInt n))]) (parse_u64 t)\<rparr>"

definition plain_codec :: "json \<Rightarrow> codec" where
  "plain_codec v = \<lparr>cd_print = \<lambda>_. ''{}'', cd_parse = \<lambda>_. Some v\<rparr>"

definition demo_detect :: "codec \<Rightarrow> (call list \<Rightarrow> call \<Rightarrow> string option) \<Rightarrow> nat \<Rightarrow> string detect_env" where
  "demo_detect C answer limit =
     \<lparr>dv_engine = demo_detector,
      dv_nats = \<lparr>nt_answer = answer, nt_up = \<lambda>_. True, nt_epoch = \<lambda>_. 0, nt_limit = \<lambda>_. limit,
        nt_state = \<lambda>_. Err [], nt_message = \<lambda>_ _. Err [], nt_purged = \<lambda>_. 0\<rparr>,
      dv_codec = C, dv_json_error = \<lambda>_. [], dv_environ = \<lambda>_. None, dv_now = \<lambda>_. 5, dv_clock = \<lambda>_. 9,
      dv_elapsed = \<lambda>_ _. f_zero, dv_stop = \<lambda>_ _. False, dv_put = \<lambda>_. None, dv_get = None, dv_root = ''vx'',
      dv_name = ''detect:d'', dv_every_secs = 5, dv_every_acks = 1, dv_idle_grace = None, dv_store = True,
      dv_version = [], dv_sources = [(''vx.a'', ''A'')]\<rparr>"

definition demo_detect_state :: "string detect_state" where
  "demo_detect_state = \<lparr>de_program = [], de_fed = [], de_outbox = [], de_dlq = \<lparr>dq_history = [], dq_pending = []\<rparr>,
     de_units = \<lambda>_. None, de_traces = no_traces, de_last_error = None, de_retrying = {}, de_acked_max = 0, de_acks = 0,
     de_last_snapshot = 9, de_objects = \<lambda>_. None\<rparr>"

definition delivered_at :: "string \<Rightarrow> string \<Rightarrow> message" where
  "delivered_at seq d = \<lparr>ms_subject = ''vx.a'', ms_data = d, ms_reply = Some (''$JS.ACK.S.c.1.'' @ seq @ ''.1.0.0'')\<rparr>"

lemma snapshot_is_resumed_witness:
  "let v = snapshot_header \<lparr>sn_version = ''v1'', sn_seq = 7, sn_taken_at = 5, sn_state = []\<rparr>;
       E = demo_detect (plain_codec v) (\<lambda>_ _. None) 99;
       objects = de_objects (snd (snapshot_unit E ''v1'' 7 demo_detect_state))
   in resume_from E ''v1'' objects ''x'' = Ok ([], Some 8) \<and> resume_from E ''v2'' objects ''x'' = Ok (''x'', None)"
  using snapshot_is_resumed [of "demo_detect (plain_codec (snapshot_header
      \<lparr>sn_version = ''v1'', sn_seq = 7, sn_taken_at = 5, sn_state = []\<rparr>)) (\<lambda>_ _. None) 99"
      demo_detect_state "[]" "''x''" "[]" "''v1''" 7 "''v2''"]
  by (simp add: demo_detect_def demo_detect_state_def demo_detector_def plain_codec_def codec_law_def)

text \<open>
  Two ways a snapshot stands for a message that is still to be redelivered, against the comment on
  the bookkeeping: only messages the engine or the dead-letter queue refused are kept in
  \<open>retrying\<close>. When the barrier of a batch fails, or a publish is refused, the message is neither
  acknowledged nor remembered; the next batch that succeeds takes a snapshot past it, and a
  restart consumes from after it. Its events are never published.
\<close>

lemma demo_facts:
  "message_seq (delivered_at ''1'' d) = 1" "message_seq (delivered_at ''2'' d) = 2"
  "subject_matches ''vx.a'' ''vx.a''" "stem_of ''detect:d'' = ''d''"
  "bad_subject ''vx.detect.d.hit'' = False"
  by code_simp+

lemma demo_resume: "resume_from (demo_detect seq_codec a n) [] (\<lambda>u. if u = ''detect:d'' then Some (''2'' @ [CHR 0x0A] @ st) else None) [] =
    Ok (st, Some 3)"
proof -
  have "split_once (''2'' @ CHR 0x0A # st) (CHR 0x0A) = Some (''2'', st)" by (rule split_once_first) simp
  moreover have "parse_u64 ''2'' = Some 2" by code_simp
  ultimately show ?thesis
    by (simp add: resume_from_def snapshot_get_def snapshot_read_def demo_detect_def demo_detector_def seq_codec_def
        field_u64_def value_index_def)
qed

lemma demo_sel:
  "dv_engine (demo_detect C a n) = demo_detector" "dv_codec (demo_detect C a n) = C" 
  "dv_stop (demo_detect C a n) h k = False" "dv_put (demo_detect C a n) h = None" 
  "dv_root (demo_detect C a n) = ''vx''" "dv_name (demo_detect C a n) = ''detect:d''"
  "dv_every_acks (demo_detect C a n) = 1" "dv_store (demo_detect C a n) = True" "dv_version (demo_detect C a n) = []"
  "dv_sources (demo_detect C a n) = [(''vx.a'', ''A'')]"
  "nt_answer (dv_nats (demo_detect C a n)) = a" "nt_up (dv_nats (demo_detect C a n)) h = True"
  "nt_epoch (dv_nats (demo_detect C a n)) h = 0" "nt_limit (dv_nats (demo_detect C a n)) h = n"
  by (simp_all add: demo_detect_def)

lemma demo_message:
  "ms_data (delivered_at q d) = d" "ms_subject (delivered_at q d) = ''vx.a''"
  "ms_reply (delivered_at q d) = Some (''$JS.ACK.S.c.1.'' @ q @ ''.1.0.0'')"
  by (simp_all add: delivered_at_def)

lemma demo_emit: "emit_subject (demo_detect C a n) \<lparr>em_topic = None, em_stream = ''hit'', em_payload = d\<rparr> = ''vx.detect.d.hit''"
  by (simp add: emit_subject_def demo_sel demo_facts)

lemma demo_event:
  assumes "detect_event (demo_detect C a n) (delivered_at q d) ty s = (r, s')"
  shows "r = (if n < length d then [] else [delivered_at q d])" "de_program s' = de_program s @ d"
    "de_outbox s' = de_outbox s @ (if n < length d then [] else [(''vx.detect.d.hit'', d)])" "de_dlq s' = de_dlq s"
    "de_retrying s' = de_retrying s" "de_acked_max s' = de_acked_max s" "de_acks s' = de_acks s"
    "de_objects s' = de_objects s"
  using assms
  by (auto simp: detect_event_def demo_detector_def demo_sel demo_message demo_emit batch_publish_def demo_facts(5) Let_def
      detect_trace_def detect_observe_def split: if_splits)

lemma demo_take: "detect_message (demo_detect C a n) (delivered_at q d) s =
    (case detect_event (demo_detect C a n) (delivered_at q d) ''A'' s of (r, s') \<Rightarrow> (Ok r, s'))"
  by (simp add: detect_message_def demo_sel demo_message demo_facts(3))

text \<open>A batch of the unit that ends with an acknowledgement and a snapshot.\<close>

lemma demo_settled:
  assumes "detect_messages (demo_detect seq_codec a n) ms s = (Ok (Some [delivered_at ''2'' ''two'']), s1)"
    and "de_outbox s1 = [(''vx.detect.d.hit'', ''two'')]" and "de_retrying s1 = {}" "de_acked_max s1 = 0"
    and "a (de_history s1) (CSend ''vx.detect.d.hit'' ''two'') = None"
    and "a (de_history s1 @ [CSend ''vx.detect.d.hit'' ''two'']) CEcho = None"
  obtains s' where "detect_batch (demo_detect seq_codec a n) ms s = (Ok False, s')"
    "de_history s' = de_history s1 @ [CSend ''vx.detect.d.hit'' ''two'', CEcho, CAck ''$JS.ACK.S.c.1.2.1.0.0'']"
    "de_objects s' = (de_objects s1)(''detect:d'' := Some (''2'' @ [CHR 0x0A] @ de_program s1))"
proof -
  define E where "E = demo_detect seq_codec a n"
  define s2 where "s2 = detect_settle E [delivered_at ''2'' ''two''] s1"
  have s2: "de_history s2 = de_history s1 @ [CSend ''vx.detect.d.hit'' ''two'', CEcho, CAck ''$JS.ACK.S.c.1.2.1.0.0'']"
    "de_objects s2 = de_objects s1" "de_program s2 = de_program s1" "de_retrying s2 = {}" "de_acked_max s2 = 2" "0 < de_acks s2"
    using assms unfolding s2_def E_def
    by (simp_all add: detect_settle_def on_detect_bus_run confirm_def demo_sel mbind_def do_call_def barrier_since_def
        ack_def demo_message demo_facts Let_def split: option.split)
  have sel: "dv_put E h = None" "dv_name E = ''detect:d''" "dv_version E = []" "dv_codec E = seq_codec" "dv_store E"
    "dv_every_acks E = 1" "en_snapshot (dv_engine E) p = Ok p" for h p
    by (simp_all add: E_def demo_sel demo_detector_def)
  have two: "cd_print seq_codec (snapshot_header \<lparr>sn_version = [], sn_seq = 2, sn_taken_at = t, sn_state = x\<rparr>) = ''2''" for t x
  proof -
    have "int_str 2 = ''2''" by code_simp
    then show ?thesis by (simp add: seq_codec_def header_fields)
  qed
  define s3 where "s3 = s2\<lparr>de_units := observe_round (dv_name E) f_zero (dv_elapsed E (de_history s2) TProcess)
     (dv_elapsed E (de_history s2) TBarrier) (de_units s2)\<rparr>"
  have s3: "de_dlq s3 = de_dlq s2" "de_objects s3 = de_objects s1" "de_program s3 = de_program s1" "de_retrying s3 = {}"
    "de_acked_max s3 = 2" "0 < de_acks s3"
    by (simp_all add: s3_def s2)
  have "snapshot_due E s3" using s3 by (simp add: snapshot_due_def sel)
  then have "detect_batch E ms s = (Ok False, try_snapshot E s3)"
    using assms(1) unfolding E_def [symmetric] by (simp add: detect_batch_def mbind_def s2_def [symmetric] s3_def [symmetric])
  moreover have "de_objects (try_snapshot E s3) = (de_objects s1)(''detect:d'' := Some (''2'' @ [CHR 0x0A] @ de_program s1))"
    by (simp add: try_snapshot_def snapshot_unit_def snapshot_put_def mbind_def sel snapshot_bytes_def two s3)
  ultimately show ?thesis using that s2(1) s3(1) try_snapshot_keeps(1) [of E s3] by (simp add: E_def)
qed

lemma failed_barrier_is_snapshotted_over:
  defines "E \<equiv> demo_detect seq_codec (\<lambda>h c. if c = CSend ''vx.detect.d.hit'' ''one'' then Some ''lost'' else None) 99"
  shows "let s = snd (detect_turns E [([delivered_at ''1'' ''one''], False), ([delivered_at ''2'' ''two''], False)] []
         demo_detect_state)
     in resume_from E [] (de_objects s) [] = Ok (''onetwo'', Some 3) \<and>
        de_history s = [CSend ''vx.detect.d.hit'' ''one'', CSend ''vx.detect.d.hit'' ''two'', CEcho, CAck ''$JS.ACK.S.c.1.2.1.0.0'']"
proof -
  let ?m1 = "delivered_at ''1'' ''one''" and ?m2 = "delivered_at ''2'' ''two''"
  have stop: "dv_stop E h k = False" for h k by (simp add: E_def demo_sel)
  have tk: "detect_message E (delivered_at x d) s =
      (case detect_event E (delivered_at x d) ''A'' s of (r, s') \<Rightarrow> (Ok r, s'))" for x d s
    unfolding E_def by (rule demo_take)
  obtain r s1 where r: "detect_event E ?m1 ''A'' demo_detect_state = (r, s1)" by fastforce
  note f1 = demo_event [OF r [unfolded E_def]]
  define s2 where "s2 = snd (detect_batch E [?m1] demo_detect_state)"
  have "detect_messages E [?m1] demo_detect_state = (Ok (Some [?m1]), s1)"
    using r f1(1) by (simp add: stop mbind_def tk)
  moreover have "fst (confirm (dv_nats E) (de_outbox s1) (de_history s1)) = Err ''lost''"
      "snd (confirm (dv_nats E) (de_outbox s1) (de_history s1)) = [CSend ''vx.detect.d.hit'' ''one'']"
    using f1 by (simp_all add: E_def confirm_def demo_sel mbind_def do_call_def demo_detect_state_def)
  ultimately have b1: "detect_batch E [?m1] demo_detect_state = (Ok False, s2)" "de_program s2 = ''one''" "de_outbox s2 = []"
      "de_history s2 = [CSend ''vx.detect.d.hit'' ''one'']" "de_retrying s2 = {}" "de_acked_max s2 = 0" "de_objects s2 = (\<lambda>_. None)"
    using f1 unfolding s2_def
    by (simp_all add: detect_batch_def mbind_def detect_settle_def on_detect_bus_run snapshot_due_def demo_detect_state_def)
  obtain r2 s3 where r2: "detect_event E ?m2 ''A'' s2 = (r2, s3)" by fastforce
  note f2 = demo_event [OF r2 [unfolded E_def]]
  have "detect_messages E [?m2] s2 = (Ok (Some [?m2]), s3)"
    using r2 f2(1) by (simp add: stop mbind_def tk)
  then obtain s4 where s4: "detect_batch E [?m2] s2 = (Ok False, s4)"
      "de_history s4 = de_history s3 @ [CSend ''vx.detect.d.hit'' ''two'', CEcho, CAck ''$JS.ACK.S.c.1.2.1.0.0'']"
      "de_objects s4 = (de_objects s3)(''detect:d'' := Some (''2'' @ [CHR 0x0A] @ de_program s3))"
    unfolding E_def by (rule demo_settled) (use f2 b1 in simp_all)
  have run: "detect_turns E [([?m1], False), ([?m2], False)] [] demo_detect_state = (Ok False, s4)"
    by (simp add: stop mbind_def b1(1) s4(1))
  have objs: "de_objects s4 = (\<lambda>u. if u = ''detect:d'' then Some (''2'' @ [CHR 0x0A] @ ''onetwo'') else None)"
    using s4(3) f2 b1 by (auto simp: fun_eq_iff)
  have "resume_from E [] (de_objects s4) [] = Ok (''onetwo'', Some 3)"
    unfolding objs E_def by (rule demo_resume)
  then show ?thesis using run s4(2) f2 b1 by simp
qed

lemma refused_publish_is_snapshotted_over:
  defines "E \<equiv> demo_detect seq_codec (\<lambda>_ _. None) 3"
  shows "let s = snd (detect_turns E [([delivered_at ''1'' ''long'', delivered_at ''2'' ''two''], False)] [] demo_detect_state)
     in resume_from E [] (de_objects s) [] = Ok (''longtwo'', Some 3) \<and>
        de_history s = [CSend ''vx.detect.d.hit'' ''two'', CEcho, CAck ''$JS.ACK.S.c.1.2.1.0.0'']"
proof -
  let ?m1 = "delivered_at ''1'' ''long''" and ?m2 = "delivered_at ''2'' ''two''"
  have stop: "dv_stop E h k = False" for h k by (simp add: E_def demo_sel)
  have tk: "detect_message E (delivered_at x d) s =
      (case detect_event E (delivered_at x d) ''A'' s of (r, s') \<Rightarrow> (Ok r, s'))" for x d s
    unfolding E_def by (rule demo_take)
  obtain r s1 where r: "detect_event E ?m1 ''A'' demo_detect_state = (r, s1)" by fastforce
  note f1 = demo_event [OF r [unfolded E_def]]
  obtain r2 s2 where r2: "detect_event E ?m2 ''A'' s1 = (r2, s2)" by fastforce
  note f2 = demo_event [OF r2 [unfolded E_def]]
  have "detect_messages E [?m1, ?m2] demo_detect_state = (Ok (Some [?m2]), s2)"
    using r f1(1) r2 f2(1) by (simp add: stop mbind_def tk)
  then obtain s4 where s4: "detect_batch E [?m1, ?m2] demo_detect_state = (Ok False, s4)"
      "de_history s4 = de_history s2 @ [CSend ''vx.detect.d.hit'' ''two'', CEcho, CAck ''$JS.ACK.S.c.1.2.1.0.0'']"
      "de_objects s4 = (de_objects s2)(''detect:d'' := Some (''2'' @ [CHR 0x0A] @ de_program s2))"
    unfolding E_def by (rule demo_settled) (use f1 f2 in \<open>simp_all add: demo_detect_state_def\<close>)
  have run: "detect_turns E [([?m1, ?m2], False)] [] demo_detect_state = (Ok False, s4)"
    by (simp add: stop mbind_def s4(1))
  have objs: "de_objects s4 = (\<lambda>u. if u = ''detect:d'' then Some (''2'' @ [CHR 0x0A] @ ''longtwo'') else None)"
    using s4(3) f1 f2 by (auto simp: fun_eq_iff demo_detect_state_def)
  have "resume_from E [] (de_objects s4) [] = Ok (''longtwo'', Some 3)"
    unfolding objs E_def by (rule demo_resume)
  then show ?thesis using run s4(2) f1 f2 by (simp add: demo_detect_state_def)
qed

end
