(* ===== verification/Control.thy ===== *)
theory Control
  imports Units Http_In Calendar
begin

text \<open>
  The control channel, \<open>core/src/control.rs\<close>: the closed list of commands an operator sends over
  the bus, the periodic status, the audit of every command; with the views it answers from
  (\<open>topology_json\<close>, \<open>secrets_json\<close>), the probe of a connector and the start and supervision of
  connectors, of \<open>core/src/main.rs\<close>. Secrets, files and the probes of the drivers are arguments.
\<close>

section \<open>Connectors\<close>

definition humanize :: "string \<Rightarrow> string" where
  "humanize e =
     (if str_contains e ''HTTP 401'' \<or> str_contains e ''HTTP 403'' then
        ''authentication refused (invalid or expired secret?)'' @ dash @ e
      else if str_contains e ''not set'' \<or> str_contains e ''not found (set env'' \<or>
          str_contains e ''secret'' \<and> str_contains e ''not found'' then ''missing secret'' @ dash @ e
      else if starts_with e ''http:'' \<or> str_contains e ''Connection refused'' \<or> str_contains e ''Could not resolve'' \<or>
          str_contains e ''timed out'' then ''unreachable (network, URL, proxy?)'' @ dash @ e
      else e)"

text \<open>The configuration of a connector: the upper-case variables its manifest leaves.\<close>

definition config_key :: "string \<Rightarrow> bool" where
  "config_key k \<longleftrightarrow>
     k \<noteq> ''event'' \<and> list_all (\<lambda>c. is_ascii_uppercase c \<or> c = CHR ''_'' \<or> is_ascii_digit c) k \<and>
     list_ex is_ascii_uppercase k"

definition config_of :: "json omap \<Rightarrow> config" where
  "config_of vs = om_of_list (filter (\<lambda>(k, _). config_key k) vs)"

text \<open>
  What the channel runs in: \<open>ct_get\<close> reads a secret, \<open>ct_probe\<close> is the probe of a driver on a
  configuration, \<open>ct_debug\<close> Rust's debug format.
\<close>

record ctl_env =
  ct_get :: secret_get
  ct_backend :: string
  ct_root :: path
  ct_read :: "path \<Rightarrow> (string, string) result"
  ct_canon :: "path \<Rightarrow> path option"
  ct_listing :: listing
  ct_mtime :: "path \<Rightarrow> nat"
  ct_spawn :: "spec \<Rightarrow> string option"
  ct_world :: world
  ct_codec :: codec
  ct_perr :: "perr \<Rightarrow> string"
  ct_run_error :: "rerr \<Rightarrow> string"
  ct_debug :: "string \<Rightarrow> string"
  ct_now :: nat
  ct_version :: string
  ct_bundle :: "string option"
  ct_tenant :: string
  ct_probe :: "string \<Rightarrow> config \<Rightarrow> (string, string) result"

definition ct_text :: "ctl_env \<Rightarrow> path \<Rightarrow> string option" where
  "ct_text C p = (case ct_read C p of Ok s \<Rightarrow> Some s | _ \<Rightarrow> None)"

definition manifest ::
  "ctl_env \<Rightarrow> path \<Rightarrow> string \<Rightarrow> string \<Rightarrow> (string \<Rightarrow> string) \<Rightarrow> (string \<times> string \<times> config, string) result" where
  "manifest C p pkg no_driver on_error =
     rbind (ct_read C p) (\<lambda>src.
     rbind (map_err (ct_perr C) (parse src)) (\<lambda>prog.
       case pg_driver prog of
         None \<Rightarrow> Err no_driver
       | Some name \<Rightarrow>
           (case driver_kind name of
              None \<Rightarrow> Err (''unknown driver '' @ ct_debug C name)
            | Some kd \<Rightarrow>
                rbind (map_err (on_error \<circ> ct_run_error C)
                    (fst (run (ct_world C) prog (VObject []) (with_secrets (ct_root C) pkg (ct_get C))))) (\<lambda>c.
                  Ok (name, kd, config_of (vars c))))))"

definition probe_connector :: "ctl_env \<Rightarrow> string \<Rightarrow> (json, string) result" where
  "probe_connector C file_name =
     (let verdict =
        (case guard_path (ct_canon C) (ct_root C) file_name of
           None \<Rightarrow> Err ''path not allowed''
         | Some p \<Rightarrow>
             rbind (manifest C p (pkg_of_path p) ''not a connector manifest (no `driver`)'' humanize) (\<lambda>(name, _, cfg).
               ct_probe C name cfg))
      in case verdict of
           Ok detail \<Rightarrow> Ok (VObject (om_of_list [(''ok'', VBool True), (''detail'', VString detail)]))
         | Err detail \<Rightarrow> Ok (VObject (om_of_list [(''ok'', VBool False), (''detail'', VString detail)]))
         | Panic \<Rightarrow> Panic)"

text \<open>
  The attempts of a connector: each gives the outcome of the driver and whether a stop is seen
  after it. A driver that returns without a stop has lost its lease and starts again at once.
  The second component is the delays, in milliseconds.
\<close>

fun supervise_connector :: "string \<Rightarrow> ((unit, string) result \<times> bool) list \<Rightarrow> proc_state \<Rightarrow> nat \<Rightarrow> proc_state \<times> nat list" where
  "supervise_connector msg [] st delay = (st, [])"
| "supervise_connector msg ((r, stopped) # rs) st delay =
     (case contained msg r of
        Err e \<Rightarrow>
          (let st1 = st\<lparr>ps_status := ''restarting'', ps_restarts := ps_restarts st + 1, ps_last_error := Some e\<rparr> in
           if stopped then (st1\<lparr>ps_status := ''stopped''\<rparr>, [])
           else (case supervise_connector msg rs st1 (min (delay * 2) 30000) of (st', slept) \<Rightarrow> (st', delay # slept)))
      | _ \<Rightarrow>
          if stopped then (st\<lparr>ps_status := ''stopped''\<rparr>, [])
          else (case supervise_connector msg rs st 1000 of (st', slept) \<Rightarrow> (st', 300 # slept)))"

section \<open>Views\<close>

definition has_vjs_ext :: "string \<Rightarrow> bool" where
  "has_vjs_ext name \<longleftrightarrow> (case rsplit_once name CHR ''.'' of Some (a, ext) \<Rightarrow> a \<noteq> [] \<and> ext = ''vjs'' | None \<Rightarrow> False)"

definition connectors_in :: "listing \<Rightarrow> path \<Rightarrow> string \<Rightarrow> (path \<times> string) list" where
  "connectors_in L dir pkg =
     (case L dir of None \<Rightarrow> [] | Some names \<Rightarrow> map (\<lambda>n. (dir @ [n], pkg)) (filter has_vjs_ext names))"

definition connector_files :: "listing \<Rightarrow> path \<Rightarrow> (path \<times> string) list" where
  "connector_files L dir =
     sort (connectors_in L (dir @ [''connectors'']) ''default'' @
       concat (map (\<lambda>pkg. connectors_in L (dir @ [''packages'', pkg, ''connectors'']) (from_utf8_lossy pkg))
         (case L (dir @ [''packages'']) of Some pkgs \<Rightarrow> pkgs | None \<Rightarrow> [])))"

definition push_ref :: "string \<Rightarrow> string \<Rightarrow> string list omap \<Rightarrow> string list omap" where
  "push_ref f r m = om_insert r ((case om_get m r of Some fs \<Rightarrow> fs | None \<Rightarrow> []) @ [f]) m"

fun inventory_of :: "(path \<Rightarrow> string option) \<Rightarrow> (path \<times> string) list \<Rightarrow> string list omap \<Rightarrow> (string list omap, 'e) result" where
  "inventory_of rd [] m = Ok m"
| "inventory_of rd ((p, pkg) # files) m =
     (case rd p of
        None \<Rightarrow> inventory_of rd files m
      | Some src \<Rightarrow>
          (case parse src of
             Panic \<Rightarrow> Panic
           | Err _ \<Rightarrow> inventory_of rd files m
           | Ok prog \<Rightarrow> inventory_of rd files (fold (push_ref (display_path p)) (map snd (pg_secret_refs prog)) m)))"

definition secrets_inventory :: "ctl_env \<Rightarrow> (string list omap, 'e) result" where
  "secrets_inventory C =
     rbind (inventory_of (ct_text C) (vjs_files (ct_listing C) (ct_root C)) []) (\<lambda>m.
       inventory_of (ct_text C) (connector_files (ct_listing C) (ct_root C)) m)"

definition secret_entry :: "ctl_env \<Rightarrow> string set \<Rightarrow> string \<times> string list \<Rightarrow> json" where
  "secret_entry C rot = (\<lambda>(r, used_by).
     VObject (om_of_list [(''ref'', VString r), (''used_by'', VArray (map VString used_by)),
       (''status'', VString (case ct_get C r of Ok _ \<Rightarrow> ''ok'' | _ \<Rightarrow> ''missing'')),
       (''rotation_requested'', VBool (r \<in> rot))]))"

definition secrets_json :: "ctl_env \<Rightarrow> string set \<Rightarrow> (string, 'e) result" where
  "secrets_json C rot =
     rbind (secrets_inventory C) (\<lambda>m.
       Ok (cd_print (ct_codec C) (VObject (om_of_list [(''backend'', VString (ct_backend C)),
         (''writable'', VBool (ct_backend C \<noteq> ''env'')), (''secrets'', VArray (map (secret_entry C rot) m))]))))"

definition opt_json :: "('a \<Rightarrow> json) \<Rightarrow> 'a option \<Rightarrow> json" where
  "opt_json f x = (case x of Some v \<Rightarrow> f v | None \<Rightarrow> VNull)"

definition unit_entry :: "handle \<Rightarrow> json" where
  "unit_entry h =
     VObject (om_of_list
       [(''name'', VString (sp_name (hd_spec h))), (''file'', VString (display_path (sp_path (hd_spec h)))),
        (''pkg'', VString (sp_pkg (hd_spec h))),
        (''lang'', VString (if sp_kind (hd_spec h) = KDetect then ''vpl'' else ''vjs'')),
        (''status'', VString (ps_status (hd_state h))), (''restarts'', num_json (ps_restarts (hd_state h))),
        (''started_at'', opt_json num_json (ps_started_at (hd_state h))),
        (''last_error'', opt_json VString (ps_last_error (hd_state h)))])"

definition registered :: "registry \<Rightarrow> handle list" where
  "registered R = map (\<lambda>(_, i). rg_threads R ! i) (rg_current R)"

definition topology_json :: "registry \<Rightarrow> json" where
  "topology_json R =
     (let pool = (\<lambda>k. VArray (map unit_entry (filter (\<lambda>h. sp_kind (hd_spec h) = k) (registered R)))) in
      VObject (om_of_list [(''flows'', pool KFlow), (''connectors'', pool KConnector), (''detects'', pool KDetect)]))"

definition status_unit :: "json \<Rightarrow> json" where
  "status_unit u =
     VObject (om_of_list
       [(''name'', value_index u ''name''), (''status'', value_index u ''status''), (''restarts'', value_index u ''restarts''),
        (''last_error'', opt_json (\<lambda>e. VString (concat (take 200 (str_chars e)))) (as_str (value_index u ''last_error'')))])"

definition status_payload :: "ctl_env \<Rightarrow> string \<Rightarrow> registry \<Rightarrow> json omap" where
  "status_payload C tenant R =
     (let topo = topology_json R;
          units = concat (map (\<lambda>pool. case as_array (value_index topo pool) of Some a \<Rightarrow> map status_unit a | None \<Rightarrow> [])
            [''flows'', ''connectors''])
      in om_of_list [(''ts'', VString (iso8601_utc (ct_now C))), (''tenant'', VString tenant),
           (''bundle'', opt_json VString (ct_bundle C)), (''runtime_version'', VString (ct_version C)),
           (''units'', VArray units), (''pending_proposals'', num_json 0)])"

section \<open>Commands\<close>

record ctl_state =
  cs_registry :: registry
  cs_rotations :: "string set"
  cs_traces :: traces

type_synonym 'a ctl_m = "(ctl_state, 'a, string) stm"

definition ctl_done :: "string \<Rightarrow> json \<Rightarrow> string \<Rightarrow> (json \<times> string) ctl_m" where
  "ctl_done i result summary =
     mret (VObject (om_of_list [(''id'', VString i), (''ok'', VBool True), (''result'', result)]), summary)"

definition ctl_fail :: "string \<Rightarrow> string \<Rightarrow> (json \<times> string) ctl_m" where
  "ctl_fail i err =
     mret (VObject (om_of_list [(''id'', VString i), (''ok'', VBool False), (''error'', VString err)]),
       concat (take 120 (str_chars err)))"

definition req_str :: "json \<Rightarrow> string \<Rightarrow> string" where
  "req_str req k = (case as_str (value_index req k) of Some s \<Rightarrow> s | None \<Rightarrow> [])"

definition reread :: "ctl_env \<Rightarrow> json \<Rightarrow> string \<Rightarrow> json" where
  "reread C d t = (case cd_parse (ct_codec C) t of Some v \<Rightarrow> v | None \<Rightarrow> d)"

definition cmd_ping :: "ctl_env \<Rightarrow> string \<Rightarrow> (json \<times> string) ctl_m" where
  "cmd_ping C i =
     ctl_done i (VObject (om_of_list [(''pong'', VBool True), (''ts'', VString (iso8601_utc (ct_now C))),
       (''runtime_version'', VString (ct_version C)), (''bundle'', opt_json VString (ct_bundle C))])) ''pong''"

definition cmd_status :: "ctl_env \<Rightarrow> string \<Rightarrow> (json \<times> string) ctl_m" where
  "cmd_status C i =
     mbind mget (\<lambda>s.
     mbind (mlift (secrets_json C (cs_rotations s))) (\<lambda>t.
       let payload = om_insert ''secrets'' (value_index (reread C VNull t) ''secrets'')
             (status_payload C (ct_tenant C) (cs_registry s));
           n = (case om_get payload ''units'' of Some (VArray a) \<Rightarrow> length a | _ \<Rightarrow> 0)
       in ctl_done i (VObject payload) (nat_str n @ '' units'')))"

definition truncate_events :: "nat \<Rightarrow> json \<Rightarrow> json" where
  "truncate_events n v =
     (case v of
        VObject m \<Rightarrow> (case om_get m ''events'' of Some (VArray a) \<Rightarrow> VObject (om_insert ''events'' (VArray (take n a)) m) | _ \<Rightarrow> v)
      | _ \<Rightarrow> v)"

definition cmd_events :: "ctl_env \<Rightarrow> string \<Rightarrow> json \<Rightarrow> (json \<times> string) ctl_m" where
  "cmd_events C i args =
     mbind mget (\<lambda>s.
       let n = (case as_u64 (value_index args ''n'') of Some k \<Rightarrow> nat k | None \<Rightarrow> 20);
           v = truncate_events n (reread C (VObject [(''events'', VArray [])])
             (events_json (ct_codec C) (as_str (value_index args ''unit'')) (cs_traces s)));
           k = (case as_array (value_index v ''events'') of Some a \<Rightarrow> length a | None \<Rightarrow> 0)
       in ctl_done i v (nat_str k @ '' events''))"

definition cmd_probe :: "ctl_env \<Rightarrow> string \<Rightarrow> json \<Rightarrow> (json \<times> string) ctl_m" where
  "cmd_probe C i args =
     (case as_str (value_index args ''file'') of
        None \<Rightarrow> ctl_fail i ''probe: file required''
      | Some f \<Rightarrow>
          mbind (mlift (probe_connector C f)) (\<lambda>verdict.
            ctl_done i verdict (f @ '' '' @ (if as_bool (value_index verdict ''ok'') = Some True then ''ok'' else ''failed''))))"

definition wanted :: "ctl_env \<Rightarrow> spec list ctl_m" where
  "wanted C = mlift (scan_all (ct_listing C) (ct_mtime C) (ct_text C) (ct_root C))"

definition cmd_reload :: "ctl_env \<Rightarrow> string \<Rightarrow> (json \<times> string) ctl_m" where
  "cmd_reload C i =
     mbind (wanted C) (\<lambda>specs s.
       case reload (ct_spawn C) specs (cs_registry s) of ((n, started, stopped), R) \<Rightarrow>
         ctl_done i (VObject (om_of_list [(''total'', num_json n), (''started'', num_json started), (''stopped'', num_json stopped)]))
           (nat_str n @ '' units, '' @ nat_str started @ '' started, '' @ nat_str stopped @ '' stopped'')
           (s\<lparr>cs_registry := R\<rparr>))"

definition cmd_restart :: "ctl_env \<Rightarrow> string \<Rightarrow> json \<Rightarrow> (json \<times> string) ctl_m" where
  "cmd_restart C i args =
     (case as_str (value_index args ''unit'') of
        None \<Rightarrow> ctl_fail i ''restart: unit required''
      | Some u \<Rightarrow>
          mbind (wanted C) (\<lambda>specs s.
            case restart_unit (ct_spawn C) specs u (cs_registry s) of (ok, R) \<Rightarrow>
              (if ok then ctl_done i (VObject [(''ok'', VBool True)]) (''restarted '' @ u)
               else ctl_fail i (''unknown unit '' @ ct_debug C u)) (s\<lparr>cs_registry := R\<rparr>)))"

definition cmd_rotate :: "string \<Rightarrow> json \<Rightarrow> (json \<times> string) ctl_m" where
  "cmd_rotate i args =
     (case as_str (value_index args ''ref'') of
        None \<Rightarrow> ctl_fail i ''rotate_requested: ref required''
      | Some r \<Rightarrow>
          mbind (mupd (\<lambda>s. s\<lparr>cs_rotations := insert r (cs_rotations s)\<rparr>)) (\<lambda>_.
            ctl_done i (VObject [(''ok'', VBool True)]) (''rotation flagged for '' @ r)))"

definition dispatch :: "ctl_env \<Rightarrow> json \<Rightarrow> (json \<times> string) ctl_m" where
  "dispatch C req =
     (let i = req_str req ''id''; cmd = req_str req ''cmd''; args = value_index req ''args'' in
      if cmd = ''ping'' then cmd_ping C i
      else if cmd = ''status'' then cmd_status C i
      else if cmd = ''events'' then cmd_events C i args
      else if cmd = ''probe'' then cmd_probe C i args
      else if cmd = ''reload'' then cmd_reload C i
      else if cmd = ''restart'' then cmd_restart C i args
      else if cmd = ''rotate_requested'' then cmd_rotate i args
      else ctl_fail i (''unknown command '' @ ct_debug C cmd @ '' (closed allowlist, see CONTROL.md)''))"

text \<open>
  One command of the loop: dispatched, traced, audited on the bus, then answered. The answers of
  the publishes are ignored, so they are listed: subject and payload, \<open>None\<close> for the reply.
\<close>

definition audit_entry :: "ctl_env \<Rightarrow> json \<Rightarrow> bool \<Rightarrow> string \<Rightarrow> json" where
  "audit_entry C req ok summary =
     VObject (om_of_list [(''ts'', VString (iso8601_utc (ct_now C))), (''id'', VString (req_str req ''id'')),
       (''cmd'', VString (case as_str (value_index req ''cmd'') of Some c \<Rightarrow> c | None \<Rightarrow> ''?'')), (''ok'', VBool ok),
       (''summary'', VString summary)])"

definition reply_ok :: "json \<Rightarrow> bool" where
  "reply_ok reply = (as_bool (value_index reply ''ok'') = Some True)"

definition serve_command ::
  "ctl_env \<Rightarrow> string \<Rightarrow> string \<Rightarrow> (ctl_state, (string option \<times> string) list, string) stm" where
  "serve_command C ctl_subject data =
     (let req = reread C VNull data in
      mbind (dispatch C req) (\<lambda>(reply, summary).
        let ok = reply_ok reply;
            cmd = (case as_str (value_index req ''cmd'') of Some c \<Rightarrow> c | None \<Rightarrow> ''?'');
            err = (if ok then None
                   else Some (case as_str (value_index reply ''error'') of Some e \<Rightarrow> e | None \<Rightarrow> ''error''))
        in mbind (mupd (\<lambda>s. s\<lparr>cs_traces := record_trace_full (ct_now C) ''control'' (ctl_subject @ ''.cmd'') ok err []
               (cmd @ '' '' @ summary) None None (cs_traces s)\<rparr>)) (\<lambda>_.
             mret [(Some (ctl_subject @ ''.audit''), cd_print (ct_codec C) (audit_entry C req ok summary)),
                   (None, cd_print (ct_codec C) reply)])))"

section \<open>Properties\<close>

lemma secret_entry_cong:
  assumes "\<And>r. (\<exists>v. ct_get C r = Ok v) = (\<exists>v. get r = Ok v)"
  shows "secret_entry (C\<lparr>ct_get := get\<rparr>) rot = secret_entry C rot"
proof -
  have "(case get r of Ok _ \<Rightarrow> ''ok'' | _ \<Rightarrow> ''missing'') = (case ct_get C r of Ok _ \<Rightarrow> ''ok'' | _ \<Rightarrow> ''missing'')" for r
    using assms [of r] by (auto split: result.split)
  then show ?thesis by (simp add: secret_entry_def)
qed

lemma ct_text_get [simp]: "ct_text (C\<lparr>ct_get := get\<rparr>) = ct_text C"
  by (simp add: fun_eq_iff ct_text_def)

lemma no_secret_read [simp]:
  "wanted (C\<lparr>ct_get := get\<rparr>) = wanted C"
  "secrets_inventory (C\<lparr>ct_get := get\<rparr>) = secrets_inventory C" "reread (C\<lparr>ct_get := get\<rparr>) = reread C"
  "status_payload (C\<lparr>ct_get := get\<rparr>) = status_payload C" "audit_entry (C\<lparr>ct_get := get\<rparr>) = audit_entry C"
  "cmd_ping (C\<lparr>ct_get := get\<rparr>) = cmd_ping C" "cmd_events (C\<lparr>ct_get := get\<rparr>) = cmd_events C"
  by (auto simp: fun_eq_iff wanted_def secrets_inventory_def reread_def status_payload_def audit_entry_def
      cmd_ping_def cmd_events_def)

lemma dispatch_cong:
  assumes "req_str req ''cmd'' \<noteq> ''probe''" and "\<And>r. (\<exists>v. ct_get C r = Ok v) = (\<exists>v. get r = Ok v)"
  shows "dispatch (C\<lparr>ct_get := get\<rparr>) req = dispatch C req"
proof -
  have "secrets_json (C\<lparr>ct_get := get\<rparr>) rot = (secrets_json C rot :: (string, string) result)" for rot
    using secret_entry_cong [OF assms(2)] by (simp add: secrets_json_def)
  then have "cmd_status (C\<lparr>ct_get := get\<rparr>) = cmd_status C" by (simp add: fun_eq_iff cmd_status_def)
  moreover have "cmd_reload (C\<lparr>ct_get := get\<rparr>) = cmd_reload C" "cmd_restart (C\<lparr>ct_get := get\<rparr>) = cmd_restart C"
    by (simp_all add: fun_eq_iff cmd_reload_def cmd_restart_def split: option.split cong: if_cong)
  ultimately show ?thesis using assms(1) by (simp add: dispatch_def Let_def)
qed

text \<open>
  (C8) No secret value leaves over the control channel: what a command answers, audits and traces,
  and what it does, is the same for any two stores that know the same references, whatever values
  they hold. The probe is the exception: it runs the driver on the resolved configuration.
\<close>

theorem control_reveals_no_secret:
  assumes "req_str (reread C VNull data) ''cmd'' \<noteq> ''probe''"
    and "\<And>r. (\<exists>v. ct_get C r = Ok v) = (\<exists>v. get r = Ok v)"
  shows "serve_command (C\<lparr>ct_get := get\<rparr>) subject data s = serve_command C subject data s"
  using dispatch_cong [OF assms] by (simp add: serve_command_def Let_def)

definition allowlist :: "string list" where
  "allowlist = [''ping'', ''status'', ''events'', ''probe'', ''reload'', ''restart'', ''rotate_requested'']"

lemma ctl_answer [simp]:
  "ctl_done i r m s = (Ok (VObject (om_of_list [(''id'', VString i), (''ok'', VBool True), (''result'', r)]), m), s)"
  "ctl_fail i e s = (Ok (VObject (om_of_list [(''id'', VString i), (''ok'', VBool False), (''error'', VString e)]),
     concat (take 120 (str_chars e))), s)"
  by (simp_all add: ctl_done_def ctl_fail_def)

lemma read_only_commands:
  "snd (cmd_ping C i s) = s" "snd (cmd_status C i s) = s" "snd (cmd_events C i a s) = s" "snd (cmd_probe C i a s) = s"
  by (auto simp: cmd_ping_def cmd_status_def cmd_events_def cmd_probe_def mbind_def Let_def split: result.split option.split)

lemma cmd_reload_frame:
  "cs_rotations (snd (cmd_reload C i s)) = cs_rotations s" "cs_traces (snd (cmd_reload C i s)) = cs_traces s"
  "reaches (cs_registry s) \<Longrightarrow> reaches (cs_registry (snd (cmd_reload C i s)))"
  by (auto simp: cmd_reload_def wanted_def mbind_def split: result.split prod.split dest: reaches.reload)
    (metis reaches.reload snd_conv)

lemma cmd_restart_frame:
  "cs_rotations (snd (cmd_restart C i a s)) = cs_rotations s" "cs_traces (snd (cmd_restart C i a s)) = cs_traces s"
  "reaches (cs_registry s) \<Longrightarrow> reaches (cs_registry (snd (cmd_restart C i a s)))"
  by (auto simp: cmd_restart_def wanted_def mbind_def split: result.split prod.split option.split)
    (metis reaches.restart snd_conv)+

lemma cmd_rotate_frame:
  "cs_registry (snd (cmd_rotate i a s)) = cs_registry s" "cs_traces (snd (cmd_rotate i a s)) = cs_traces s"
  by (auto simp: cmd_rotate_def mbind_def split: option.split)

lemma dispatch_known:
  "req_str req ''cmd'' = ''ping'' \<Longrightarrow> dispatch C req = cmd_ping C (req_str req ''id'')"
  "req_str req ''cmd'' = ''status'' \<Longrightarrow> dispatch C req = cmd_status C (req_str req ''id'')"
  "req_str req ''cmd'' = ''events'' \<Longrightarrow> dispatch C req = cmd_events C (req_str req ''id'') (value_index req ''args'')"
  "req_str req ''cmd'' = ''probe'' \<Longrightarrow> dispatch C req = cmd_probe C (req_str req ''id'') (value_index req ''args'')"
  "req_str req ''cmd'' = ''reload'' \<Longrightarrow> dispatch C req = cmd_reload C (req_str req ''id'')"
  "req_str req ''cmd'' = ''restart'' \<Longrightarrow> dispatch C req = cmd_restart C (req_str req ''id'') (value_index req ''args'')"
  "req_str req ''cmd'' = ''rotate_requested'' \<Longrightarrow> dispatch C req = cmd_rotate (req_str req ''id'') (value_index req ''args'')"
  by (simp_all add: dispatch_def Let_def)

lemma one_of_seven:
  assumes "x \<in> set [a, b, c, d, e, f, g]"
  obtains "x = a \<or> x = b \<or> x = c \<or> x = d" | "x = e" | "x = f" | "x = g"
  using assms by auto

lemma dispatch_unknown:
  assumes "req_str req ''cmd'' \<notin> set allowlist"
  shows "\<exists>reply m. dispatch C req s = (Ok (reply, m), s) \<and> \<not> reply_ok reply"
  using assms by (simp add: allowlist_def dispatch_def Let_def reply_ok_def value_index_def om_get_insert)

text \<open>
  The channel is closed: a command outside the list is answered with an error and changes
  nothing; only \<open>reload\<close> and \<open>restart\<close> touch the units, and only through the operations that keep
  one supervisor a unit; only \<open>rotate_requested\<close> touches the rotation flags.
\<close>

theorem control_is_closed:
  assumes "req_str req ''cmd'' = cmd" and "dispatch C req s = (r, s')"
  shows "(cmd \<notin> set allowlist \<longrightarrow> s' = s \<and> (\<exists>reply m. r = Ok (reply, m) \<and> \<not> reply_ok reply)) \<and>
     (cmd \<noteq> ''reload'' \<and> cmd \<noteq> ''restart'' \<longrightarrow> cs_registry s' = cs_registry s) \<and>
     (cmd \<noteq> ''rotate_requested'' \<longrightarrow> cs_rotations s' = cs_rotations s) \<and>
     (reaches (cs_registry s) \<longrightarrow> reaches (cs_registry s'))"
proof -
  have s': "s' = snd (dispatch C req s)" "r = fst (dispatch C req s)" using assms(2) by simp_all
  show ?thesis
  proof (cases "cmd \<in> set allowlist")
    case True
    from this [unfolded allowlist_def] show ?thesis
    proof (cases rule: one_of_seven)
      case 1
      then have "s' = s" unfolding s' using dispatch_known(1-4) read_only_commands assms(1) by metis
      then show ?thesis using True by simp
    next
      case 2
      then have "s' = snd (cmd_reload C (req_str req ''id'') s)" using s'(1) dispatch_known(5) assms(1) by simp
      then show ?thesis using True 2 by (simp add: cmd_reload_frame)
    next
      case 3
      then have "s' = snd (cmd_restart C (req_str req ''id'') (value_index req ''args'') s)"
        using s'(1) dispatch_known(6) assms(1) by simp
      then show ?thesis
        using True 3 by (simp add: cmd_restart_frame)
    next
      case 4
      then have "s' = snd (cmd_rotate (req_str req ''id'') (value_index req ''args'') s)"
        using s'(1) dispatch_known(7) assms(1) by simp
      then show ?thesis
        using True 4 by (simp add: cmd_rotate_frame)
    qed
  next
    case False
    then obtain reply m where "dispatch C req s = (Ok (reply, m), s)" "\<not> reply_ok reply"
      using dispatch_unknown assms(1) by blast
    then show ?thesis using s' by simp
  qed
qed

section \<open>Witnesses\<close>

definition demo_ctl :: ctl_env where
  "demo_ctl =
     \<lparr>ct_get = \<lambda>_. Ok ''s3cret'', ct_backend = ''file'', ct_root = [''p''], ct_read = \<lambda>_. Err ''none'', ct_canon = \<lambda>_. None,
      ct_listing = \<lambda>_. None, ct_mtime = \<lambda>_. 0, ct_spawn = \<lambda>_. None,
      ct_world = \<lparr>w_to_json = \<lambda>_. [], w_read = \<lambda>_. None, w_upper = id, w_lower = id\<rparr>,
      ct_codec = \<lparr>cd_print = \<lambda>_. [], cd_parse = \<lambda>t. Some (VObject [(''cmd'', VString t)])\<rparr>,
      ct_perr = \<lambda>_. [], ct_run_error = \<lambda>_. [], ct_debug = id, ct_now = 0, ct_version = ''1'', ct_bundle = None,
      ct_tenant = ''t'', ct_probe = \<lambda>_ _. Err []\<rparr>"

definition demo_ctl_state :: ctl_state where
  "demo_ctl_state = \<lparr>cs_registry = no_units, cs_rotations = {}, cs_traces = no_traces\<rparr>"

theorem control_reveals_no_secret_witness:
  "serve_command (demo_ctl\<lparr>ct_get := \<lambda>_. Ok ''other''\<rparr>) ''vxc.t'' ''status'' demo_ctl_state =
   serve_command demo_ctl ''vxc.t'' ''status'' demo_ctl_state"
proof (rule control_reveals_no_secret)
  show "req_str (reread demo_ctl VNull ''status'') ''cmd'' \<noteq> ''probe''"
    by (simp add: demo_ctl_def reread_def req_str_def value_index_def)
qed (simp add: demo_ctl_def)

theorem control_is_closed_witness:
  "snd (dispatch demo_ctl (VObject [(''cmd'', VString ''set_secret'')]) demo_ctl_state) = demo_ctl_state"
  using control_is_closed [OF _ surjective_pairing, of "VObject [(''cmd'', VString ''set_secret'')]" "''set_secret''" demo_ctl demo_ctl_state]
  by (simp add: req_str_def value_index_def allowlist_def)

text \<open>
  The status lists flows and connectors only: a detect unit is in the topology but in no status.
\<close>

lemma detects_are_not_in_the_status:
  assumes "\<And>h. h \<in> set (registered R) \<Longrightarrow> sp_kind (hd_spec h) = KDetect"
  shows "om_get (status_payload C tenant R) ''units'' = Some (VArray [])"
proof -
  have none: "filter (\<lambda>h. sp_kind (hd_spec h) = k) (registered R) = []" if "k \<noteq> KDetect" for k
    using assms that by (auto simp: filter_empty_conv)
  show ?thesis
    by (simp add: status_payload_def topology_json_def Let_def value_index_def om_get_insert none)
qed

end
