(* ===== verification/Drivers.thy ===== *)
theory Drivers
  imports Polling Control
begin

text \<open>
  The small drivers of \<open>core/src/connectors.rs\<close>: \<open>timer\<close>, \<open>http-poll\<close> and \<open>exec-source\<close>, which share a
  loop that wakes four times a second, and the sinks \<open>slack-out\<close>, \<open>http-out\<close> and \<open>exec-sink\<close>, which
  give \<open>run_sink\<close> a handler. What the network and a child process answer is any function of what was
  done before.
\<close>

section \<open>HTTP\<close>

type_synonym web_answer = "(nat \<times> string, string) result"

definition http_ok :: "web_answer \<Rightarrow> (string, string) result" where
  "http_ok r =
     rbind r (\<lambda>(code, body).
       if ok_code code then Ok body
       else Err (''HTTP '' @ nat_str code @ '': '' @ trim (from_utf8_lossy (take 300 body))))"

definition http_get :: "(web_request \<Rightarrow> web_answer) \<Rightarrow> string \<Rightarrow> (string \<times> string) list \<Rightarrow> (string, string) result" where
  "http_get web url headers = http_ok (web (''GET'', url, headers, None))"

definition http_post ::
  "(web_request \<Rightarrow> web_answer) \<Rightarrow> string \<Rightarrow> (string \<times> string) list \<Rightarrow> string \<Rightarrow> (string, string) result" where
  "http_post web url headers body = http_ok (web (''POST'', url, headers, Some body))"

definition summarize :: "string \<Rightarrow> string option" where
  "summarize bytes =
     (let s = trim (from_utf8_lossy bytes) in if s = [] then None else Some (concat (take 200 (str_chars s))))"

definition with_content_type :: "(string \<times> string) list \<Rightarrow> (string \<times> string) list" where
  "with_content_type headers =
     (if list_ex (\<lambda>(k, _). map to_ascii_lowercase k = ''content-type'') headers then headers
      else headers @ [(''Content-Type'', ''application/json'')])"

section \<open>Child processes\<close>

text \<open>
  A child that has run: its exit code, none when a signal ended it, and what it wrote. The command
  line goes through the shell, the environment is the parent's less the credentials of the runtime,
  plus the variables of the manifest.
\<close>

record child_exit =
  ce_code :: "int option"
  ce_stdout :: string
  ce_stderr :: string

definition exit_success :: "child_exit \<Rightarrow> bool" where
  "exit_success x \<longleftrightarrow> ce_code x = Some 0"

record child_spec =
  cs_command :: string
  cs_env :: "(string \<times> string) list"
  cs_stdin :: string

definition shell_child :: "(string \<times> string) list \<Rightarrow> string \<Rightarrow> (string \<times> string) list \<Rightarrow> string \<Rightarrow> child_spec" where
  "shell_child parent cmd env input =
     \<lparr>cs_command = cmd, cs_env = child_environment parent @ env, cs_stdin = input\<rparr>"

definition exit_code_text :: "int option \<Rightarrow> string" where
  "exit_code_text c = (case c of Some n \<Rightarrow> ''Some('' @ int_str n @ '')'' | None \<Rightarrow> ''None'')"

section \<open>Sources on a clock\<close>

datatype act = AWeb web_request | ARun child_spec

record source_env =
  so_nats :: nats
  so_codec :: codec
  so_name :: string
  so_root :: string
  so_config :: config
  so_parent :: "(string \<times> string) list"
  so_connect :: "(unit, string) result"
  so_now :: "call list \<Rightarrow> nat"
  so_web :: "act list \<Rightarrow> web_request \<Rightarrow> web_answer"
  so_child :: "act list \<Rightarrow> child_spec \<Rightarrow> (child_exit, string) result"

record source_state =
  sc_acts :: "act list"
  sc_history :: "call list"
  sc_traces :: traces

definition source_trace :: "source_env \<Rightarrow> string \<Rightarrow> bool \<Rightarrow> string option \<Rightarrow> string list \<Rightarrow> string \<Rightarrow> source_state \<Rightarrow> source_state" where
  "source_trace E subject ok error subjects preview s =
     s\<lparr>sc_traces := record_trace_full (so_now E (sc_history s)) (so_name E) subject ok error subjects preview None None
        (sc_traces s)\<rparr>"

definition traced_pub :: "source_env \<Rightarrow> string \<Rightarrow> string \<Rightarrow> source_state \<Rightarrow> source_state" where
  "traced_pub E subject bytes = source_trace E subject True None [subject] (Sinks.trace_preview bytes)"

definition traced_fail :: "source_env \<Rightarrow> string \<Rightarrow> string \<Rightarrow> source_state \<Rightarrow> source_state" where
  "traced_fail E subject e = source_trace E subject False (Some e) [] []"

definition store :: "source_env \<Rightarrow> string \<Rightarrow> string \<Rightarrow> (source_state, unit, string) stm" where
  "store E subject bytes s =
     (case do_call (so_nats E) (CStore subject bytes) (sc_history s) of (r, h) \<Rightarrow> (r, s\<lparr>sc_history := h\<rparr>))"

text \<open>A publish whose failure is not looked at.\<close>

definition store_anyway :: "source_env \<Rightarrow> string \<Rightarrow> string \<Rightarrow> source_state \<Rightarrow> source_state" where
  "store_anyway E subject bytes s = traced_pub E subject bytes (snd (store E subject bytes s))"

text \<open>
  The loop the three share, for at most \<open>n\<close> turns of a quarter second; times are milliseconds in 64
  bits. It answers \<open>True\<close> when it was told to stop.
\<close>

fun tick_loop :: "('s \<Rightarrow> bool) \<Rightarrow> ('s, unit, string) stm \<Rightarrow> nat \<Rightarrow> nat \<Rightarrow> nat \<Rightarrow> ('s, bool, string) stm" where
  "tick_loop alive body limit 0 waited = mret False"
| "tick_loop alive body limit (Suc n) waited = (\<lambda>s.
     if \<not> alive s then (Ok True, s)
     else if limit \<le> (waited + 250) mod 2 ^ 64 then mbind body (\<lambda>_. tick_loop alive body limit n 0) s
     else tick_loop alive body limit n ((waited + 250) mod 2 ^ 64) s)"

definition interval_ms :: "config \<Rightarrow> int \<Rightarrow> nat" where
  "interval_ms c d = nat ((max (cfg_u64_or c ''INTERVAL_SECS'' d) 1 * 1000) mod 2 ^ 64)"

definition required :: "config \<Rightarrow> string \<Rightarrow> ('s, string, string) stm" where
  "required c k = (case cfg_str c k of Some v \<Rightarrow> mret v | None \<Rightarrow> mfail (k @ '' required''))"

definition timer_tick :: "source_env \<Rightarrow> string \<Rightarrow> json \<Rightarrow> (source_state, unit, string) stm" where
  "timer_tick E subject payload s =
     (let bytes = cd_print (so_codec E) (stamp_ts payload (so_now E (sc_history s))) in
      case store E subject bytes s of
        (Ok _, s1) \<Rightarrow> (Ok (), traced_pub E subject bytes s1)
      | (Err e, s1) \<Rightarrow> (Err (''publish: '' @ e), s1)
      | (Panic, s1) \<Rightarrow> (Panic, s1))"

definition timer_run :: "source_env \<Rightarrow> (source_state \<Rightarrow> bool) \<Rightarrow> nat \<Rightarrow> (source_state, bool, string) stm" where
  "timer_run E alive n =
     mbind (required (so_config E) ''SUBJECT'') (\<lambda>raw.
     mbind (mlift (so_connect E)) (\<lambda>_.
       tick_loop alive
         (timer_tick E (ctx_subject (so_root E) raw)
            (case om_get (so_config E) ''PAYLOAD'' of Some v \<Rightarrow> v | None \<Rightarrow> VObject []))
         (interval_ms (so_config E) 60) n 0))"

definition poll_bytes :: "source_env \<Rightarrow> bool \<Rightarrow> string \<Rightarrow> string \<Rightarrow> json \<Rightarrow> call list \<Rightarrow> string" where
  "poll_bytes E wrap url raw parsed h =
     (if wrap then cd_print (so_codec E) (VObject (om_of_list [(''endpoint'', VString url),
        (''fetched_at'', VString (iso8601_utc (so_now E h))), (''body'', parsed)]))
      else raw)"

definition http_poll_tick :: "source_env \<Rightarrow> string \<Rightarrow> string \<Rightarrow> bool \<Rightarrow> (source_state, unit, string) stm" where
  "http_poll_tick E url subject wrap s =
     (let headers = cfg_headers (so_config E); s1 = s\<lparr>sc_acts := sc_acts s @ [AWeb (''GET'', url, headers, None)]\<rparr> in
      case http_get (so_web E (sc_acts s)) url headers of
        Ok raw \<Rightarrow>
          (Ok (), case cd_parse (so_codec E) raw of
             Some parsed \<Rightarrow> store_anyway E subject (poll_bytes E wrap url raw parsed (sc_history s1)) s1
           | None \<Rightarrow> s1)
      | Err e \<Rightarrow> (Ok (), traced_fail E subject e s1)
      | Panic \<Rightarrow> (Panic, s1))"

definition cfg_bool :: "config \<Rightarrow> string \<Rightarrow> bool" where
  "cfg_bool c k = (case om_get c k of Some (VBool b) \<Rightarrow> b | _ \<Rightarrow> False)"

definition http_poll_run :: "source_env \<Rightarrow> (source_state \<Rightarrow> bool) \<Rightarrow> nat \<Rightarrow> (source_state, bool, string) stm" where
  "http_poll_run E alive n =
     mbind (required (so_config E) ''URL'') (\<lambda>url.
     mbind (required (so_config E) ''SUBJECT'') (\<lambda>raw.
     mbind (mlift (so_connect E)) (\<lambda>_.
       let limit = interval_ms (so_config E) 60 in
       tick_loop alive (http_poll_tick E url (ctx_subject (so_root E) raw) (cfg_bool (so_config E) ''ENVELOPE''))
         limit n limit)))"

text \<open>The lines a child prints, cut at newlines; those that are JSON are published.\<close>

definition publish_line :: "source_env \<Rightarrow> string \<Rightarrow> string \<Rightarrow> source_state \<Rightarrow> source_state" where
  "publish_line E subject l s =
     (if strip_cr l = [] then s
      else if cd_parse (so_codec E) (strip_cr l) \<noteq> None then store_anyway E subject (strip_cr l) s
      else s)"

definition exec_source_tick :: "source_env \<Rightarrow> string \<Rightarrow> string \<Rightarrow> (source_state, unit, string) stm" where
  "exec_source_tick E cmd subject s =
     (let spec = shell_child (so_parent E) cmd [] []; s1 = s\<lparr>sc_acts := sc_acts s @ [ARun spec]\<rparr> in
      case so_child E (sc_acts s) spec of
        Ok x \<Rightarrow>
          (let err = trim (from_utf8_lossy (ce_stderr x));
               s2 = (if exit_success x then s1 else traced_fail E subject (''exec: '' @ err) s1)
           in (Ok (), fold (publish_line E subject) (str_split (ce_stdout x) [CHR 0x0A]) s2))
      | Err e \<Rightarrow> (Err e, s1)
      | Panic \<Rightarrow> (Panic, s1))"

definition exec_source_run :: "source_env \<Rightarrow> (source_state \<Rightarrow> bool) \<Rightarrow> nat \<Rightarrow> (source_state, bool, string) stm" where
  "exec_source_run E alive n =
     mbind (required (so_config E) ''CMD'') (\<lambda>cmd.
     mbind (required (so_config E) ''SUBJECT'') (\<lambda>raw.
     mbind (mlift (so_connect E)) (\<lambda>_.
       let limit = interval_ms (so_config E) 10 in
       tick_loop alive (exec_source_tick E cmd (ctx_subject (so_root E) raw)) limit n limit)))"

section \<open>Handlers of sinks\<close>

type_synonym handled = "(nat \<times> string \<times> bool) list"
type_synonym handler = "call list \<Rightarrow> handled \<Rightarrow> string \<Rightarrow> (string option, string) result"

definition slack_text :: "codec \<Rightarrow> string \<Rightarrow> string" where
  "slack_text C data =
     (case cd_parse C data of
        Some v \<Rightarrow> (case as_str (value_index v ''text'') of Some t \<Rightarrow> t | None \<Rightarrow> from_utf8_lossy data)
      | None \<Rightarrow> from_utf8_lossy data)"

definition slack_handler :: "(call list \<Rightarrow> handled \<Rightarrow> web_request \<Rightarrow> web_answer) \<Rightarrow> codec \<Rightarrow> string \<Rightarrow> handler" where
  "slack_handler web C webhook h past data =
     (if webhook = [] then Ok (Some (''DRY-RUN: '' @ concat (take 160 (str_chars (slack_text C data)))))
      else rbind (http_post (web h past) webhook [(''Content-Type'', ''application/json'')]
             (cd_print C (VObject [(''text'', VString (slack_text C data))]))) (\<lambda>b. Ok (summarize b)))"

definition http_out_handler ::
  "(call list \<Rightarrow> handled \<Rightarrow> web_request \<Rightarrow> web_answer) \<Rightarrow> string \<Rightarrow> (string \<times> string) list \<Rightarrow> handler" where
  "http_out_handler web url headers h past data =
     rbind (http_post (web h past) url headers data) (\<lambda>b. Ok (summarize b))"

definition exec_sink_handler ::
  "(call list \<Rightarrow> handled \<Rightarrow> child_spec \<Rightarrow> (child_exit, string) result) \<Rightarrow> (string \<times> string) list \<Rightarrow> string \<Rightarrow> string \<Rightarrow>
     (string \<times> string) list \<Rightarrow> handler" where
  "exec_sink_handler spawn parent name cmd env h past data =
     rbind (spawn h past (shell_child parent cmd env data)) (\<lambda>x.
       if exit_success x then Ok (summarize (ce_stdout x))
       else Err (name @ '': exit '' @ exit_code_text (ce_code x) @ '': '' @ trim (from_utf8_lossy (ce_stderr x))))"

definition sink_with :: "sink_env \<Rightarrow> string \<Rightarrow> handler \<Rightarrow> sink_env" where
  "sink_with E subject f = E\<lparr>sv_subject := subject, sv_handler := f\<rparr>"

definition slack_out_run ::
  "sink_env \<Rightarrow> string \<Rightarrow> config \<Rightarrow> (call list \<Rightarrow> handled \<Rightarrow> web_request \<Rightarrow> web_answer) \<Rightarrow>
     (nat \<Rightarrow> sink_state \<Rightarrow> bool) \<Rightarrow> raw_message list list \<Rightarrow> (sink_state, bool, string) stm" where
  "slack_out_run E subj_root c web alive arrivals =
     (let webhook = (case cfg_str c ''WEBHOOK_URL'' of Some u \<Rightarrow> u
          | None \<Rightarrow> (case sv_environ E ''SLACK_WEBHOOK_URL'' of Some u \<Rightarrow> u | None \<Rightarrow> []))
      in run_sink (sink_with E (ctx_subject subj_root (cfg_str_or c ''SUBJECT'' ''slack.out''))
           (slack_handler web (sv_codec E) webhook)) alive arrivals)"

definition http_out_run ::
  "sink_env \<Rightarrow> string \<Rightarrow> config \<Rightarrow> (call list \<Rightarrow> handled \<Rightarrow> web_request \<Rightarrow> web_answer) \<Rightarrow>
     (nat \<Rightarrow> sink_state \<Rightarrow> bool) \<Rightarrow> raw_message list list \<Rightarrow> (sink_state, bool, string) stm" where
  "http_out_run E subj_root c web alive arrivals =
     mbind (required c ''SUBJECT'') (\<lambda>raw.
     mbind (required c ''URL'') (\<lambda>url.
       run_sink (sink_with E (ctx_subject subj_root raw) (http_out_handler web url (with_content_type (cfg_headers c))))
         alive arrivals))"

definition exec_sink_run ::
  "sink_env \<Rightarrow> string \<Rightarrow> config \<Rightarrow> (string \<times> string) list \<Rightarrow>
     (call list \<Rightarrow> handled \<Rightarrow> child_spec \<Rightarrow> (child_exit, string) result) \<Rightarrow>
     (nat \<Rightarrow> sink_state \<Rightarrow> bool) \<Rightarrow> raw_message list list \<Rightarrow> (sink_state, bool, string) stm" where
  "exec_sink_run E subj_root c parent spawn alive arrivals =
     mbind (required c ''CMD'') (\<lambda>cmd.
     mbind (required c ''SUBJECT'') (\<lambda>raw.
       run_sink (sink_with E (ctx_subject subj_root raw)
         (exec_sink_handler spawn parent (sv_name E) cmd (cfg_env_vars (sv_codec E) c))) alive arrivals))"

section \<open>Probes\<close>

definition http_poll_probe :: "config \<Rightarrow> (web_request \<Rightarrow> web_answer) \<Rightarrow> (string, string) result" where
  "http_poll_probe c web =
     (case cfg_str c ''URL'' of
        None \<Rightarrow> Err ''URL required''
      | Some url \<Rightarrow>
          (case http_get web url (cfg_headers c) of
             Ok body \<Rightarrow> Ok (''GET OK ('' @ nat_str (length body) @ '' bytes)'')
           | Err e \<Rightarrow> Err (humanize e)
           | Panic \<Rightarrow> Panic))"

definition mid_dot :: string where "mid_dot = [CHR 0x20, CHR 0xC2, CHR 0xB7, CHR 0x20]"

definition http_out_verdict :: "string \<Rightarrow> web_answer \<Rightarrow> (string, string) result" where
  "http_out_verdict url r =
     (case r of
        Ok (code, resp) \<Rightarrow>
          if ok_code code then
            Ok (''POST OK'' @ mid_dot @ ''answered: '' @ (case summarize resp of Some t \<Rightarrow> t | None \<Rightarrow> ''(empty)''))
          else if code = 401 \<or> code = 403 then Err (humanize (''HTTP 401: authentication rejected by '' @ url))
          else Ok (''reachable and authenticated'' @ mid_dot @ ''but TEST_BODY was refused (HTTP '' @ nat_str code @ '': '' @
            (case summarize resp of Some t \<Rightarrow> t | None \<Rightarrow> []) @ '')'')
      | Err e \<Rightarrow> Err (humanize e)
      | Panic \<Rightarrow> Panic)"

definition no_test_body :: string where
  "no_test_body =
     ''no TEST_BODY in the manifest: add a harmless payload the target accepts (e.g. an empty batch) to enable this probe''"

definition http_out_probe :: "codec \<Rightarrow> config \<Rightarrow> (web_request \<Rightarrow> web_answer) \<Rightarrow> (string, string) result" where
  "http_out_probe C c web =
     (case cfg_str c ''URL'' of
        None \<Rightarrow> Err ''URL required''
      | Some url \<Rightarrow>
          (case om_get c ''TEST_BODY'' of
             None \<Rightarrow> Err no_test_body
           | Some body \<Rightarrow>
               http_out_verdict url (web (''POST'', url, with_content_type (cfg_headers c), Some (cd_print C body)))))"

section \<open>The pace\<close>

lemma tick_loop_runs:
  assumes body: "\<And>s. fst (body s) = Ok ()" and limit: "limit = 250 * m" and small: "limit + 250 < 2 ^ 64"
    and w: "w = 250 * v" "v < m"
  shows "snd (tick_loop (\<lambda>_. True) body limit n w s) = ((\<lambda>s. snd (body s)) ^^ ((v + n) div m)) s"
  using w
proof (induction n arbitrary: w v s)
  case 0
  then show ?case by simp
next
  case (Suc n)
  have wrap: "(w + 250) mod 2 ^ 64 = 250 * Suc v"
    using Suc.prems limit small by (simp add: algebra_simps)
  show ?case
  proof (cases "m \<le> Suc v")
    case True
    then have m: "m = Suc v" using Suc.prems by simp
    obtain t where t: "body s = (Ok (), t)" using body [of s] by (metis prod.collapse)
    have "snd (tick_loop (\<lambda>_. True) body limit n 0 t) = ((\<lambda>s. snd (body s)) ^^ (n div m)) t"
      using Suc.IH [of 0 0 t] m by simp
    moreover have "(v + Suc n) div m = Suc (n div m)" using m div_add_self1 [of "Suc v" n] by simp
    moreover have "((\<lambda>s. snd (body s)) ^^ k) t = ((\<lambda>s. snd (body s)) ^^ Suc k) s" for k
      using t by (simp add: funpow_Suc_right del: funpow.simps)
    moreover have "limit \<le> (w + 250) mod 2 ^ 64" using wrap limit m by simp
    ultimately show ?thesis using t by (simp add: mbind_def)
  next
    case False
    then have "\<not> limit \<le> (w + 250) mod 2 ^ 64" using wrap limit by simp
    then show ?thesis using Suc.IH [of "250 * Suc v" "Suc v" s] False wrap by simp
  qed
qed

lemma funpow_count:
  assumes "\<And>s. f (g s) = Suc (f s)"
  shows "f ((g ^^ k) s) = f s + k"
  by (induction k) (simp_all add: assms)

definition is_store :: "call \<Rightarrow> bool" where
  "is_store c \<longleftrightarrow> (\<exists>subject bytes. c = CStore subject bytes)"

definition stores :: "source_state \<Rightarrow> nat" where
  "stores s = length (filter is_store (sc_history s))"

lemma stores_trace [simp]: "stores (source_trace E subject ok e subjects p s) = stores s"
  by (simp add: stores_def source_trace_def)

lemma timer_tick_stores:
  assumes "\<And>h c. nt_answer (so_nats E) h c = None"
  shows "fst (timer_tick E subject payload s) = Ok ()" and "stores (snd (timer_tick E subject payload s)) = Suc (stores s)"
proof -
  have "stores (s\<lparr>sc_history := sc_history s @ [CStore subject b]\<rparr>) = Suc (stores s)" for b
    by (simp add: stores_def is_store_def)
  then show "fst (timer_tick E subject payload s) = Ok ()" and "stores (snd (timer_tick E subject payload s)) = Suc (stores s)"
    by (simp_all add: timer_tick_def store_def do_call_def assms Let_def traced_pub_def)
qed

text \<open>
  A timer keeps its pace: with an interval of \<open>i\<close> seconds (one at least), after \<open>n\<close> quarter seconds
  it has published exactly \<open>n div 4 i\<close> events when the bus takes them, whatever the interval up to
  the range of the 64-bit clock.
\<close>

theorem timer_keeps_its_pace:
  assumes "cfg_str (so_config E) ''SUBJECT'' = Some raw" and "so_connect E = Ok ()"
    and "\<And>h c. nt_answer (so_nats E) h c = None"
    and "max (cfg_u64_or (so_config E) ''INTERVAL_SECS'' 60) 1 = int i" and "i * 1000 + 250 < 2 ^ 64"
  shows "stores (snd (timer_run E (\<lambda>_. True) n s)) = stores s + n div (4 * i)"
proof -
  define payload where "payload = (case om_get (so_config E) ''PAYLOAD'' of Some v \<Rightarrow> v | None \<Rightarrow> VObject [])"
  have i: "0 < i" using assms(4) by linarith
  have limit: "interval_ms (so_config E) 60 = 250 * (4 * i)"
    using assms(4,5) by (simp add: interval_ms_def)
  let ?tick = "timer_tick E (ctx_subject (so_root E) raw) payload"
  have "snd (timer_run E (\<lambda>_. True) n s) = ((\<lambda>s. snd (?tick s)) ^^ ((0 + n) div (4 * i))) s"
    using tick_loop_runs [of ?tick "interval_ms (so_config E) 60" "4 * i" 0 0 n s] i limit assms(5)
      timer_tick_stores(1) [OF assms(3)]
    by (simp add: timer_run_def required_def assms(1,2) payload_def mbind_def)
  then show ?thesis
    using funpow_count [of stores "\<lambda>s. snd (?tick s)"] timer_tick_stores(2) [OF assms(3)] by simp
qed

definition clock_env :: source_env where
  "clock_env = \<lparr>so_nats = \<lparr>nt_answer = \<lambda>_ _. None, nt_up = \<lambda>_. True, nt_epoch = \<lambda>_. 0, nt_limit = \<lambda>_. 0,
       nt_state = \<lambda>_. Err [], nt_message = \<lambda>_ _. Err [], nt_purged = \<lambda>_. 0\<rparr>,
     so_codec = \<lparr>cd_print = \<lambda>_. ''{}'', cd_parse = \<lambda>_. Some VNull\<rparr>, so_name = ''t'', so_root = ''vx'',
     so_config = om_of_list [(''SUBJECT'', VString ''tick''), (''INTERVAL_SECS'', VNumber (PosInt 2))], so_parent = [],
     so_connect = Ok (), so_now = \<lambda>_. 0, so_web = \<lambda>_ _. Ok (200, ''{}''), so_child = \<lambda>_ _. Err []\<rparr>"

definition source_start :: source_state where
  "source_start = \<lparr>sc_acts = [], sc_history = [], sc_traces = no_traces\<rparr>"

lemma timer_keeps_its_pace_witness:
  "stores (snd (timer_run clock_env (\<lambda>_. True) 20 source_start)) = 2"
proof -
  have "cfg_str (so_config clock_env) ''SUBJECT'' = Some ''tick''" by code_simp
  moreover have "so_connect clock_env = Ok ()" by (simp add: clock_env_def)
  moreover have "max (cfg_u64_or (so_config clock_env) ''INTERVAL_SECS'' 60) 1 = int 2" by code_simp
  ultimately have "stores (snd (timer_run clock_env (\<lambda>_. True) 20 source_start)) = stores source_start + 20 div (4 * 2)"
    using timer_keeps_its_pace [of clock_env "''tick''" 2 20 source_start] by (simp add: clock_env_def)
  then show ?thesis by (simp add: stores_def source_start_def)
qed

section \<open>What a sink acknowledges\<close>

text \<open>An invariant of the rounds of a sink.\<close>

lemma sink_messages_invariant:
  assumes "\<And>m s. Inv s \<Longrightarrow> Inv (snd (handle m s))" and "Inv s"
  shows "Inv (snd (sink_messages alive handle ms s))"
  using assms(2)
proof (induction ms arbitrary: s)
  case (Cons m ms)
  obtain r t where h: "handle m s = (r, t)" by fastforce
  then have "Inv t" using assms(1) [of s m] Cons.prems by simp
  then show ?case using Cons h by (cases r) (auto simp: mbind_def)
qed simp

lemma sink_rounds_invariant:
  assumes handle: "\<And>m s. Inv s \<Longrightarrow> Inv (snd (handle m s))" and request: "\<And>s. Inv s \<Longrightarrow> Inv (snd (request s))"
    and fault: "\<And>f s. Inv s \<Longrightarrow> Inv (set_fault f s)" and start: "Inv s"
  shows "Inv (snd (sink_rounds alive request set_fault handle arrivals inbox s))"
  using start
proof (induction arrivals arbitrary: inbox s)
  case (Cons new later)
  have one: "Inv (snd (sink_round alive request set_fault handle box s))" if "Inv s" for box s
  proof -
    obtain r t where rq: "request s = (r, t)" by fastforce
    obtain ms rest f where rm: "round_messages 0 box = (ms, rest, f)" by (metis surj_pair)
    have t: "Inv t" using request [OF that] rq by simp
    obtain q u where sm: "sink_messages alive handle ms (set_fault f t) = (q, u)" by fastforce
    have "Inv u" using sink_messages_invariant [of Inv handle, OF handle fault [OF t]] sm by (metis snd_conv)
    then show ?thesis using rq rm t sm by (cases r; cases q) (auto simp: sink_round_def mbind_def)
  qed
  obtain r t where rd: "sink_round alive request set_fault handle (inbox @ new) s = (r, t)" by fastforce
  then have "Inv t" using one [OF Cons.prems, of "inbox @ new"] by simp
  then show ?case using Cons rd by (cases r) (auto simp: mbind_def split: prod.splits)
qed simp

definition handler_took :: "sink_env \<Rightarrow> sink_state \<Rightarrow> bool" where
  "handler_took E s \<longleftrightarrow>
     (\<forall>p d. (p, d, True) \<in> set (sk_handled s) \<longrightarrow> (\<exists>h past x. length h = p \<and> sv_handler E h past d = Ok x))"

lemma sink_failed_handled: "sk_handled (snd (sink_failed E m e s)) = sk_handled s"
  by (auto simp: sink_failed_def Let_def split: prod.split result.split)

lemma run_sink_took: "handler_took E s \<Longrightarrow> handler_took E (snd (run_sink E alive arrivals s))"
  unfolding run_sink_def
proof (rule sink_rounds_invariant)
  fix m s assume "handler_took E s"
  then show "handler_took E (snd (sink_message E m s))"
    by (auto simp: handler_took_def sink_message_def sink_failed_handled Let_def split: result.split)
qed (simp_all add: handler_took_def set_sink_fault_def sink_request_history)

definition posted :: "(call list \<Rightarrow> handled \<Rightarrow> web_request \<Rightarrow> web_answer) \<Rightarrow> config \<Rightarrow> string \<Rightarrow> nat \<Rightarrow> bool" where
  "posted web c data k \<longleftrightarrow>
     (\<exists>url h past code body. cfg_str c ''URL'' = Some url \<and> length h \<le> k \<and> ok_code code \<and>
        web h past (''POST'', url, with_content_type (cfg_headers c), Some data) = Ok (code, body))"

definition dead_lettered :: "sink_env \<Rightarrow> string \<Rightarrow> message \<Rightarrow> call list \<Rightarrow> bool" where
  "dead_lettered E subject m h \<longleftrightarrow>
     (\<exists>err now. accepted (sv_nats E) h (CStore (dlq_subject (sv_name E))
        (cd_print (sv_codec E) (envelope (sv_name E) subject (delivered_count m) err (ms_data m) [] now))))"

lemma http_out_posted:
  "http_out_handler web url headers h past data = Ok x \<Longrightarrow>
     \<exists>code body. ok_code code \<and> web h past (''POST'', url, headers, Some data) = Ok (code, body)"
  by (auto simp: http_out_handler_def http_post_def http_ok_def result_simps split: if_splits)

text \<open>
  (C15) The HTTP sink acknowledges what the other side took: started fresh, each acknowledgement it sends
  to the bus is of a message that arrived, and by then either the URL of the manifest had answered
  a POST of exactly its bytes with a status from 200 to 299, or its dead letter was stored.
\<close>

theorem http_out_acks_what_was_accepted:
  "\<exists>t. sk_history (snd (http_out_run E subj_root c web alive arrivals (s\<lparr>sk_handled := []\<rparr>))) = sk_history s @ t \<and>
     every_ack (\<lambda>h q. \<exists>m \<in> (\<Union>new \<in> set arrivals. messages new). ms_reply m = Some q \<and>
       (posted web c (ms_data m) (length h) \<or> (\<exists>subject. dead_lettered E subject m h))) (sk_history s) t"
proof (cases "cfg_str c ''SUBJECT'' = None \<or> cfg_str c ''URL'' = None")
  case True
  then show ?thesis
    by (cases "cfg_str c ''SUBJECT''") (auto simp: http_out_run_def required_def mbind_def)
next
  case False
  then obtain raw url where c: "cfg_str c ''SUBJECT'' = Some raw" "cfg_str c ''URL'' = Some url" by auto
  define E' where "E' = sink_with E (ctx_subject subj_root raw) (http_out_handler web url (with_content_type (cfg_headers c)))"
  define s' where "s' = snd (run_sink E' alive arrivals (s\<lparr>sk_handled := []\<rparr>))"
  have run: "snd (http_out_run E subj_root c web alive arrivals (s\<lparr>sk_handled := []\<rparr>)) = s'"
    by (simp add: http_out_run_def required_def c E'_def s'_def)
  obtain t where t: "sk_history s' = sk_history s @ t" and
    acks: "every_ack (\<lambda>h q. \<exists>m \<in> (\<Union>new \<in> set arrivals. messages new). ms_reply m = Some q \<and>
       sink_safe E' m (length h) s') (sk_history s) t"
    using core_sink.acks_are_safe [where E = E' and alive = alive and arrivals = arrivals and s = "s\<lparr>sk_handled := []\<rparr>"] unfolding s'_def run_sink_def by auto
  have took: "handler_took E' s'"
    unfolding s'_def by (rule run_sink_took) (simp add: handler_took_def)
  have safe: "posted web c (ms_data m) (length h) \<or> dead_lettered E (ctx_subject subj_root raw) m h"
    if "sink_safe E' m (length h) s'" and "take (length h) (sk_history s') = h" for m h
  proof -
    have "(\<exists>p \<le> length h. (p, ms_data m, True) \<in> set (sk_handled s')) \<or> dead_lettered E (ctx_subject subj_root raw) m h"
      using that(1) unfolding sink_safe_def that(2) by (simp add: dead_lettered_def E'_def sink_with_def)
    then consider p where "p \<le> length h" "(p, ms_data m, True) \<in> set (sk_handled s')"
      | "dead_lettered E (ctx_subject subj_root raw) m h"
      by blast
    then show ?thesis
    proof cases
      case 1
      then obtain h' past x where "length h' = p" "sv_handler E' h' past (ms_data m) = Ok x"
        using took unfolding handler_took_def by blast
      then show ?thesis
        using 1(1) http_out_posted [of web url _ h' past "ms_data m" x] c
        unfolding posted_def E'_def sink_with_def by fastforce
    qed simp
  qed
  have "every_ack (\<lambda>h q. \<exists>m \<in> (\<Union>new \<in> set arrivals. messages new). ms_reply m = Some q \<and>
       (posted web c (ms_data m) (length h) \<or> (\<exists>subject. dead_lettered E subject m h))) (sk_history s) t"
    unfolding every_ack_def
  proof (intro allI impI)
    fix a r b assume ab: "t = a @ CAck r # b"
    then obtain m where "m \<in> (\<Union>new \<in> set arrivals. messages new)" "ms_reply m = Some r"
      and "sink_safe E' m (length (sk_history s @ a)) s'"
      using acks unfolding every_ack_def by blast
    moreover have "take (length (sk_history s @ a)) (sk_history s') = sk_history s @ a" using t ab by simp
    ultimately show "\<exists>m \<in> (\<Union>new \<in> set arrivals. messages new). ms_reply m = Some r \<and>
        (posted web c (ms_data m) (length (sk_history s @ a)) \<or> (\<exists>subject. dead_lettered E subject m (sk_history s @ a)))"
      using safe by blast
  qed
  then show ?thesis using t run by auto
qed

section \<open>Defects\<close>

text \<open>A poll whose publish fails is traced like one that went through, and its event is gone.\<close>

lemma refused_poll_is_traced_as_done:
  assumes "\<And>h c. nt_answer (so_nats E) h c = Some e"
    and "http_get (so_web E (sc_acts s)) url (cfg_headers (so_config E)) = Ok raw" and "cd_parse (so_codec E) raw = Some v"
  shows "fst (http_poll_tick E url subject False s) = Ok () \<and>
    sc_traces (snd (http_poll_tick E url subject False s)) =
      record_trace_full (so_now E (sc_history s @ [CStore subject raw])) (so_name E) subject True None [subject]
        (Sinks.trace_preview raw) None None (sc_traces s)"
  using assms
  by (simp add: http_poll_tick_def store_anyway_def store_def traced_pub_def source_trace_def do_call_def poll_bytes_def Let_def)

end
