(* ===== verification/Exec_Stream.thy ===== *)
theory Exec_Stream
  imports Drivers
begin

text \<open>
  The driver \<open>exec-stream-source\<close> of \<open>core/src/connectors.rs\<close>: a child process that streams lines, each
  published as it comes, restarted when it ends, and the offset of the last published record kept in
  a bucket so that the next child starts after it.
\<close>

section \<open>The model\<close>

text \<open>
  What the driver does, oldest first: a child started with its environment, a line published and
  whether the bus took it, an offset put and whether the bucket took it, a child killed.
\<close>

datatype stream_act =
    SSpawn "(string \<times> string) list"
  | SPublish string bool
  | SCommit string bool
  | SKill

record stream_env =
  se_codec :: codec
  se_name :: string
  se_root :: string
  se_config :: config
  se_connect :: "(unit, string) result"
  se_parent :: "(string \<times> string) list"
  se_bucket :: bool
  se_publish :: "stream_act list \<Rightarrow> string \<Rightarrow> (unit, string) result"
  se_readable :: "stream_act list \<Rightarrow> bool"
  se_writable :: "stream_act list \<Rightarrow> bool"
  se_now :: "stream_act list \<Rightarrow> nat"

record stream_state =
  st_acts :: "stream_act list"
  st_offset :: "string option"
  st_pending :: "string option"
  st_committed :: "string option"
  st_traces :: traces

text \<open>The bucket is opened only when the manifest names a key.\<close>

definition offset_key :: "stream_env \<Rightarrow> string option" where
  "offset_key E = (if se_bucket E then cfg_str (se_config E) ''OFFSET_KV'' else None)"

definition offset_field :: "stream_env \<Rightarrow> string" where
  "offset_field E = cfg_str_or (se_config E) ''OFFSET_FIELD'' ''offset''"

definition offset_get :: "stream_env \<Rightarrow> stream_state \<Rightarrow> string option" where
  "offset_get E s =
     (if se_readable E (st_acts s) then
        (case st_offset s of
           Some b \<Rightarrow> if trim (from_utf8_lossy b) = [] then None else Some (trim (from_utf8_lossy b))
         | None \<Rightarrow> None)
      else None)"

definition offset_put :: "stream_env \<Rightarrow> string \<Rightarrow> stream_state \<Rightarrow> stream_state" where
  "offset_put E v s =
     (let ok = se_writable E (st_acts s)
      in s\<lparr>st_acts := st_acts s @ [SCommit v ok], st_offset := (if ok then Some v else st_offset s)\<rparr>)"

text \<open>Committing: the offset reached in memory, if it is new, goes to the bucket.\<close>

definition commit_pending :: "stream_env \<Rightarrow> stream_state \<Rightarrow> stream_state" where
  "commit_pending E s =
     (case (offset_key E, st_pending s) of
        (Some _, Some v) \<Rightarrow> if st_pending s \<noteq> st_committed s then (offset_put E v s)\<lparr>st_committed := Some v\<rparr> else s
      | _ \<Rightarrow> s)"

definition flush_pending :: "stream_env \<Rightarrow> stream_state \<Rightarrow> stream_state" where
  "flush_pending E s =
     (case (offset_key E, st_pending s) of
        (Some _, Some v) \<Rightarrow> if st_pending s \<noteq> st_committed s then offset_put E v s else s
      | _ \<Rightarrow> s)"

text \<open>The offset after a record: one more, in 64 bits.\<close>

definition wrap_i64 :: "int \<Rightarrow> int" where
  "wrap_i64 n = (n + 2 ^ 63) mod 2 ^ 64 - 2 ^ 63"

definition next_offset :: "stream_env \<Rightarrow> json \<Rightarrow> string option" where
  "next_offset E rec =
     (case value_get rec (offset_field E) of
        Some (VNumber n) \<Rightarrow> map_option (\<lambda>i. int_str (wrap_i64 (i + 1))) (number_as_i64 n)
      | _ \<Rightarrow> None)"

definition stream_trace :: "stream_env \<Rightarrow> string \<Rightarrow> bool \<Rightarrow> string option \<Rightarrow> string list \<Rightarrow> string \<Rightarrow> stream_state \<Rightarrow> stream_state" where
  "stream_trace E subject ok error subjects preview s =
     s\<lparr>st_traces := record_trace_full (se_now E (st_acts s)) (se_name E) subject ok error subjects preview None None
        (st_traces s)\<rparr>"

definition stream_line :: "stream_env \<Rightarrow> string \<Rightarrow> string \<Rightarrow> stream_state \<Rightarrow> stream_state" where
  "stream_line E subject raw s =
     (let l = trim raw in
      if l = [] then s
      else
        (case cd_parse (se_codec E) l of
           None \<Rightarrow> s
         | Some rec \<Rightarrow>
             (case se_publish E (st_acts s) l of
                Ok _ \<Rightarrow>
                  (let s1 = stream_trace E subject True None [subject] (Sinks.trace_preview l)
                        (s\<lparr>st_acts := st_acts s @ [SPublish l True]\<rparr>)
                   in if offset_key E \<noteq> None then
                        (case next_offset E rec of Some v \<Rightarrow> s1\<lparr>st_pending := Some v\<rparr> | None \<Rightarrow> s1)
                      else s1)
              | Err e \<Rightarrow>
                  stream_trace E subject False (Some (''publish: '' @ e)) [] [] (s\<lparr>st_acts := st_acts s @ [SPublish l False]\<rparr>)
              | Panic \<Rightarrow> s)))"

text \<open>
  One turn of the loop over a child: whether the unit is still wanted, whether the commit interval
  has passed, and what the reader has, a line, nothing yet, or the end of the output.
\<close>

datatype received = Line string | Idle | Drained

record turn =
  tu_alive :: bool
  tu_due :: bool
  tu_received :: received

text \<open>
  The loop: it answers whether the unit was told to stop, or nothing when the turns are used up and
  the child still runs.
\<close>

fun stream_loop :: "stream_env \<Rightarrow> string \<Rightarrow> turn list \<Rightarrow> stream_state \<Rightarrow> bool option \<times> stream_state" where
  "stream_loop E subject [] s = (None, s)"
| "stream_loop E subject (t # ts) s =
     (if \<not> tu_alive t then (Some True, s\<lparr>st_acts := st_acts s @ [SKill]\<rparr>)
      else
        (let s1 = (if tu_due t then commit_pending E s else s) in
         case tu_received t of
           Line l \<Rightarrow> stream_loop E subject ts (stream_line E subject l s1)
         | Idle \<Rightarrow> stream_loop E subject ts s1
         | Drained \<Rightarrow> (Some False, s1)))"

definition start_env :: "stream_env \<Rightarrow> stream_state \<Rightarrow> (string \<times> string) list" where
  "start_env E s =
     child_environment (se_parent E) @ cfg_env_vars (se_codec E) (se_config E) @
     (case offset_key E of
        Some _ \<Rightarrow>
          [(''OFFSET'', case offset_get E s of Some v \<Rightarrow> v | None \<Rightarrow> cfg_str_or (se_config E) ''OFFSET_START'' ''end'')]
      | None \<Rightarrow> [])"

text \<open>One child from its start to the flush after its output ended.\<close>

definition stream_child :: "stream_env \<Rightarrow> string \<Rightarrow> turn list \<Rightarrow> stream_state \<Rightarrow> bool option \<times> stream_state" where
  "stream_child E subject ts s =
     (case stream_loop E subject ts
         (s\<lparr>st_acts := st_acts s @ [SSpawn (start_env E s)], st_pending := None, st_committed := None\<rparr>) of
        (None, s1) \<Rightarrow> (None, s1)
      | (Some stopped, s1) \<Rightarrow> (Some stopped, flush_pending E s1))"

text \<open>
  The children one after the other; each comes with the error of its start, or its turns and whether
  the unit is still wanted after it.
\<close>

fun stream_children ::
  "stream_env \<Rightarrow> string \<Rightarrow> ((turn list \<times> bool, string) result) list \<Rightarrow> (stream_state, bool, string) stm" where
  "stream_children E subject [] s = (Ok False, s)"
| "stream_children E subject (Ok (ts, needed) # rs) s =
     (case stream_child E subject ts s of
        (None, s1) \<Rightarrow> (Ok False, s1)
      | (Some stopped, s1) \<Rightarrow> if stopped \<or> \<not> needed then (Ok True, s1) else stream_children E subject rs s1)"
| "stream_children E subject (Err e # rs) s = (Err e, s)"
| "stream_children E subject (Panic # rs) s = (Panic, s)"

definition exec_stream_run ::
  "stream_env \<Rightarrow> ((turn list \<times> bool, string) result) list \<Rightarrow> (stream_state, bool, string) stm" where
  "exec_stream_run E rs =
     mbind (required (se_config E) ''CMD'') (\<lambda>_.
     mbind (required (se_config E) ''SUBJECT'') (\<lambda>raw.
     mbind (mlift (se_connect E)) (\<lambda>_. stream_children E (ctx_subject (se_root E) raw) rs)))"

section \<open>An offset follows its record\<close>

text \<open>The offset \<open>v\<close> is the one after a record that is on the bus by the end of \<open>h\<close>.\<close>

definition reached :: "stream_env \<Rightarrow> stream_act list \<Rightarrow> string \<Rightarrow> bool" where
  "reached E h v \<longleftrightarrow>
     (\<exists>l rec. SPublish l True \<in> set h \<and> cd_parse (se_codec E) l = Some rec \<and> next_offset E rec = Some v)"

definition commits_reached :: "stream_env \<Rightarrow> stream_act list \<Rightarrow> bool" where
  "commits_reached E h \<longleftrightarrow> (\<forall>a v ok b. h = a @ SCommit v ok # b \<longrightarrow> reached E a v)"

lemma reached_append: "reached E h v \<Longrightarrow> reached E (h @ t) v"
  by (auto simp: reached_def)

lemma commits_snoc:
  "commits_reached E (h @ [c]) \<longleftrightarrow> commits_reached E h \<and> (\<forall>v ok. c = SCommit v ok \<longrightarrow> reached E h v)"
proof
  assume c: "commits_reached E (h @ [c])"
  have "reached E a v" if "h = a @ SCommit v ok # b" for a v ok b
    using c that unfolding commits_reached_def by (metis append.assoc append_Cons)
  moreover have "reached E h v" if "c = SCommit v ok" for v ok
    using c that unfolding commits_reached_def by blast
  ultimately show "commits_reached E h \<and> (\<forall>v ok. c = SCommit v ok \<longrightarrow> reached E h v)"
    unfolding commits_reached_def by blast
next
  assume r: "commits_reached E h \<and> (\<forall>v ok. c = SCommit v ok \<longrightarrow> reached E h v)"
  show "commits_reached E (h @ [c])"
    unfolding commits_reached_def
  proof (intro allI impI)
    fix a v ok b assume "h @ [c] = a @ SCommit v ok # b"
    then show "reached E a v"
      using r unfolding commits_reached_def by (cases b rule: rev_cases) auto
  qed
qed

definition stream_inv :: "stream_env \<Rightarrow> stream_state \<Rightarrow> bool" where
  "stream_inv E s \<longleftrightarrow>
     commits_reached E (st_acts s) \<and> (\<forall>v. st_pending s = Some v \<longrightarrow> reached E (st_acts s) v)"

lemma commit_pending_inv: "stream_inv E s \<Longrightarrow> stream_inv E (commit_pending E s)"
  by (auto simp: commit_pending_def offset_put_def stream_inv_def commits_snoc Let_def
      intro: reached_append split: option.split)

lemma flush_pending_inv: "stream_inv E s \<Longrightarrow> stream_inv E (flush_pending E s)"
  by (auto simp: flush_pending_def offset_put_def stream_inv_def commits_snoc Let_def
      intro: reached_append split: option.split)

lemma stream_line_inv: "stream_inv E s \<Longrightarrow> stream_inv E (stream_line E subject raw s)"
  by (auto simp: stream_line_def stream_trace_def stream_inv_def commits_snoc Let_def reached_append
      split: option.split result.split) (auto simp: reached_def)

lemma stream_act_inv:
  "stream_inv E s \<Longrightarrow> stream_inv E (s\<lparr>st_acts := st_acts s @ [SKill]\<rparr>)"
  by (auto simp: stream_inv_def commits_snoc intro: reached_append)

lemma stream_loop_inv: "stream_inv E s \<Longrightarrow> stream_inv E (snd (stream_loop E subject ts s))"
proof (induction ts arbitrary: s)
  case (Cons t ts)
  then show ?case
    by (simp add: Let_def stream_line_inv stream_act_inv commit_pending_inv split: received.split)
qed simp

lemma stream_child_inv: "stream_inv E s \<Longrightarrow> stream_inv E (snd (stream_child E subject ts s))"
proof -
  assume "stream_inv E s"
  then have "stream_inv E (s\<lparr>st_acts := st_acts s @ [SSpawn (start_env E s)], st_pending := None, st_committed := None\<rparr>)"
    by (simp add: stream_inv_def commits_snoc)
  from stream_loop_inv [OF this, of subject ts] show ?thesis
    by (auto simp: stream_child_def intro: flush_pending_inv split: prod.split option.split)
qed

lemma stream_children_inv: "stream_inv E s \<Longrightarrow> stream_inv E (snd (stream_children E subject rs s))"
proof (induction E subject rs s rule: stream_children.induct)
  case (2 E subject ts needed rs s)
  then show ?case using stream_child_inv [OF "2.prems", of subject ts]
    by (auto split: prod.split option.split)
qed auto

text \<open>
  (C12) Publish before commit: whenever the driver puts an offset in its bucket, a record of which
  that is the next offset is already on the bus, accepted, over any number of children, stops and
  failures of the bus or the bucket.
\<close>

theorem offset_follows_a_published_record:
  "commits_reached E (st_acts (snd (exec_stream_run E rs
     \<lparr>st_acts = [], st_offset = off, st_pending = None, st_committed = None, st_traces = tr\<rparr>)))"
proof -
  have inv: "stream_inv E \<lparr>st_acts = [], st_offset = off, st_pending = None, st_committed = None, st_traces = tr\<rparr>"
    by (simp add: stream_inv_def commits_reached_def)
  show ?thesis
    using stream_children_inv [OF inv] inv
    by (cases "se_connect E"; cases "cfg_str (se_config E) ''CMD''"; cases "cfg_str (se_config E) ''SUBJECT''")
       (auto simp: exec_stream_run_def required_def mbind_def stream_inv_def)
qed

section \<open>Resuming\<close>

text \<open>
  When the output of a child ends and the bucket takes the put, what is kept is the offset reached:
  the next child starts after the last record that carried one.
\<close>

lemma drained_child_is_resumed:
  assumes "stream_loop E subject ts s = (Some stopped, s1)" and "offset_key E = Some k" and "st_pending s1 = Some v"
    and "\<And>h. se_writable E h" and "\<And>h. se_readable E h" and "trim (from_utf8_lossy v) = v" and "v \<noteq> []"
    and "st_committed s1 \<noteq> Some v"
  shows "offset_get E (flush_pending E s1) = Some v"
  using assms by (simp add: flush_pending_def offset_put_def offset_get_def Let_def)

section \<open>Defects\<close>

text \<open>
  A record the bus refuses is passed over: the next one that is taken moves the offset past it, so a
  restart does not bring it back.
\<close>

definition digit_codec :: codec where
  "digit_codec = \<lparr>cd_print = \<lambda>_. [],
     cd_parse = \<lambda>s. case parse_digits s of Some n \<Rightarrow> Some (VObject [(''offset'', VNumber (PosInt n))]) | None \<Rightarrow> None\<rparr>"

definition flaky :: stream_env where
  "flaky = \<lparr>se_codec = digit_codec, se_name = ''k'', se_root = ''vx'', se_config = om_of_list [(''CMD'', VString ''c''),
       (''OFFSET_KV'', VString ''k''), (''SUBJECT'', VString ''in'')], se_connect = Ok (), se_parent = [], se_bucket = True,
     se_publish = \<lambda>h l. if l = ''7'' then Err ''down'' else Ok (), se_readable = \<lambda>_. True, se_writable = \<lambda>_. True, se_now = \<lambda>_. 0\<rparr>"

lemma refused_record_is_committed_over:
  "(let line = \<lambda>l. \<lparr>tu_alive = True, tu_due = False, tu_received = l\<rparr>;
        s = snd (exec_stream_run flaky [Ok ([line (Line ''7''), line (Line ''8''), line Drained], False)]
          \<lparr>st_acts = [], st_offset = None, st_pending = None, st_committed = None, st_traces = no_traces\<rparr>)
    in (drop 1 (st_acts s), st_offset s)) =
   ([SPublish ''7'' False, SPublish ''8'' True, SCommit ''9'' True], Some ''9'')"
  by code_simp

end
