(* ===== verification/Mqtt_Bridge.thy ===== *)
theory Mqtt_Bridge
  imports Drivers Bridges Mqtt
begin

text \<open>
  The drivers \<open>mqtt-in\<close> and \<open>mqtt-out\<close> of \<open>core/src/connectors.rs\<close> over the MQTT client: a message from
  the broker is stored on the bus before it is acknowledged, and a message from the bus counts as
  delivered when the broker has acknowledged it. Each connection attempt brings the bytes the broker
  will send; what is acknowledged to the broker is kept with the number of calls the bus had seen.
\<close>

section \<open>Sessions\<close>

record mqtt_env =
  mv_nats :: nats
  mv_name :: string
  mv_root :: string
  mv_config :: config
  mv_connect :: "(unit, string) result"
  mv_now :: "call list \<Rightarrow> nat"
  mv_clock :: "client \<Rightarrow> nat"
  mv_open :: "nat \<Rightarrow> (event list, string) result"

text \<open>The settings of a manifest: the quality of service is 0 or 1, the keepalive is cut to 16 bits.\<close>

definition mqtt_qos :: "config \<Rightarrow> u8" where
  "mqtt_qos c = word_of_int (min (cfg_u64_or c ''QOS'' 1) 1)"

definition mqtt_keepalive :: "config \<Rightarrow> u16" where
  "mqtt_keepalive c = word_of_int (cfg_u64_or c ''KEEPALIVE_SECS'' 30)"

definition mqtt_client_id :: "string \<Rightarrow> config \<Rightarrow> string" where
  "mqtt_client_id name c =
     (case cfg_str c ''CLIENT_ID'' of
        Some i \<Rightarrow> i
      | None \<Rightarrow> ''vejas-'' @ map (\<lambda>b. if b = CHR '':'' \<or> b = CHR ''.'' then CHR ''-'' else b) name)"

definition mqtt_session :: "mqtt_env \<Rightarrow> nat \<Rightarrow> bool \<Rightarrow> (client, string) result" where
  "mqtt_session E try_no clean_session =
     rbind (mv_open E try_no) (\<lambda>inbound.
       let c = new_client inbound (mqtt_keepalive (mv_config E)) 0;
           conn = connect (mv_clock E c) (mqtt_client_id (mv_name E) (mv_config E)) clean_session
                    (cfg_str (mv_config E) ''USERNAME'') (cfg_str (mv_config E) ''PASSWORD'')
       in case conn c of (Ok _, c') \<Rightarrow> Ok c' | (Err e, _) \<Rightarrow> Err e | (Panic, _) \<Rightarrow> Panic)"

section \<open>From the broker to the bus\<close>

record mqtt_state =
  ml_client :: client
  ml_history :: "call list"
  ml_acked :: "(nat \<times> string \<times> u16) list"
  ml_traces :: traces

definition on_client :: "'a io \<Rightarrow> (mqtt_state, 'a, string) stm" where
  "on_client m s = (case m (ml_client s) of (r, c) \<Rightarrow> (r, s\<lparr>ml_client := c\<rparr>))"

definition mqtt_trace :: "mqtt_env \<Rightarrow> string \<Rightarrow> bool \<Rightarrow> string option \<Rightarrow> string list \<Rightarrow> string \<Rightarrow> mqtt_state \<Rightarrow> mqtt_state" where
  "mqtt_trace E subject ok error subjects preview s =
     s\<lparr>ml_traces := record_trace_full (mv_now E (ml_history s)) (mv_name E) subject ok error subjects preview None None
        (ml_traces s)\<rparr>"

definition mqtt_ack :: "mqtt_env \<Rightarrow> string \<Rightarrow> u16 \<Rightarrow> (mqtt_state, unit, string) stm" where
  "mqtt_ack E body p s =
     (case on_client (puback (mv_clock E (ml_client s)) p) s of
        (Ok _, s1) \<Rightarrow> (Ok (), s1\<lparr>ml_acked := ml_acked s1 @ [(length (ml_history s1), body, p)]\<rparr>)
      | (r, s1) \<Rightarrow> (r, s1))"

definition mqtt_received :: "mqtt_env \<Rightarrow> string \<Rightarrow> string \<Rightarrow> u8 \<Rightarrow> u16 \<Rightarrow> (mqtt_state, unit, string) stm" where
  "mqtt_received E subject body qos p s =
     (case do_call (mv_nats E) (CStore subject body) (ml_history s) of
        (Ok _, h) \<Rightarrow>
          (let s1 = mqtt_trace E subject True None [subject] (Sinks.trace_preview body) (s\<lparr>ml_history := h\<rparr>)
           in if 0 < qos then mqtt_ack E body p s1 else (Ok (), s1))
      | (Err e, h) \<Rightarrow> (Err (''bus publish: '' @ e), s\<lparr>ml_history := h\<rparr>)
      | (Panic, h) \<Rightarrow> (Panic, s\<lparr>ml_history := h\<rparr>))"

definition mqtt_in_turn :: "mqtt_env \<Rightarrow> string \<Rightarrow> (mqtt_state, unit, string) stm" where
  "mqtt_in_turn E subject =
     mbind (on_client read_packet) (\<lambda>got.
       case got of
         Some (Publish topic payload qos p) \<Rightarrow> mqtt_received E subject (map char_of_u8 payload) qos p
       | Some _ \<Rightarrow> mret ()
       | None \<Rightarrow> (\<lambda>s. on_client (keepalive_tick (mv_clock E (ml_client s))) s))"

text \<open>
  One attempt, for at most \<open>n\<close> packets: connect, subscribe, receive until told to stop; the answer
  \<open>False\<close> means that it is still receiving.
\<close>

definition mqtt_in_attempt ::
  "mqtt_env \<Rightarrow> string \<Rightarrow> string \<Rightarrow> (mqtt_state \<Rightarrow> bool) \<Rightarrow> nat \<Rightarrow> nat \<Rightarrow> (mqtt_state, bool, string) stm" where
  "mqtt_in_attempt E topic subject alive n try_no =
     mbind (mlift (mqtt_session E try_no False)) (\<lambda>c.
     mbind (mupd (ml_client_update (\<lambda>_. c))) (\<lambda>_.
     mbind (on_client (subscribe (mv_clock E c) topic (mqtt_qos (mv_config E)))) (\<lambda>_.
     mbind (source_turns alive (mqtt_in_turn E subject) n) (\<lambda>stopped.
       if stopped then mbind (\<lambda>s. on_client (disconnect (mv_clock E (ml_client s))) s) (\<lambda>_. mret True)
       else mret False))))"

text \<open>The attempts, for at most \<open>k\<close> of them; a failed one is traced and the next begins.\<close>

fun mqtt_in_attempts ::
  "mqtt_env \<Rightarrow> string \<Rightarrow> string \<Rightarrow> (mqtt_state \<Rightarrow> bool) \<Rightarrow> nat \<Rightarrow> nat \<Rightarrow> nat \<Rightarrow> (mqtt_state, bool, string) stm" where
  "mqtt_in_attempts E topic subject alive n 0 try_no s = (Ok False, s)"
| "mqtt_in_attempts E topic subject alive n (Suc k) try_no s =
     (if \<not> alive s then (Ok True, s)
      else
        (case mqtt_in_attempt E topic subject alive n try_no s of
           (Ok stopped, s1) \<Rightarrow> (Ok stopped, s1)
         | (Err e, s1) \<Rightarrow>
             mqtt_in_attempts E topic subject alive n k (Suc try_no) (mqtt_trace E subject False (Some e) [] [] s1)
         | (Panic, s1) \<Rightarrow> (Panic, s1)))"

definition mqtt_in_run :: "mqtt_env \<Rightarrow> (mqtt_state \<Rightarrow> bool) \<Rightarrow> nat \<Rightarrow> nat \<Rightarrow> (mqtt_state, bool, string) stm" where
  "mqtt_in_run E alive n k =
     mbind (required (mv_config E) ''BROKER'') (\<lambda>_.
     mbind (required (mv_config E) ''TOPIC'') (\<lambda>topic.
     mbind (required (mv_config E) ''SUBJECT'') (\<lambda>raw.
     mbind (mlift (mv_connect E)) (\<lambda>_.
       mqtt_in_attempts E topic (ctx_subject (mv_root E) raw) alive n k 0))))"

section \<open>From the bus to the broker\<close>

lemma read_packet_Some: "read_packet c = (Ok (Some p), c') \<Longrightarrow> length (c_in c') < length (c_in c)"
proof -
  assume r: "read_packet c = (Ok (Some p), c')"
  then obtain b es where c: "c_in c = Byte b # es"
    by (auto simp: read_packet_def split: list.splits event.splits)
  let ?c = "c\<lparr>c_in := es\<rparr>"
  from r c have "mbind read_remaining_len (\<lambda>remaining.
      mbind (read_exact remaining) (\<lambda>body. mret (Some (parse_packet b body)))) ?c = (Ok (Some p), c')"
    by (simp add: read_packet_def)
  then obtain n c1 body where "read_remaining_len ?c = (Ok n, c1)" "read_exact n c1 = (Ok body, c')"
    by (auto elim!: mbind_cases)
  then have "length (c_in c') \<le> length es"
    using read_len_shrinks read_exact_shrinks unfolding read_remaining_len_def by fastforce
  then show ?thesis using c by simp
qed

text \<open>Waiting for the acknowledgement of one packet; other packets are passed over.\<close>

function await_puback :: "u16 \<Rightarrow> unit io" where
  "await_puback expected c =
     (case read_packet c of
        (Ok (Some p), c') \<Rightarrow> if p = PubAck expected then (Ok (), c') else await_puback expected c'
      | (Ok None, c') \<Rightarrow> (Err ''timed out waiting for PUBACK'', c')
      | (Err e, c') \<Rightarrow> (Err e, c')
      | (Panic, c') \<Rightarrow> (Panic, c'))"
  by pat_completeness auto
termination by (relation "measure (\<lambda>(p, c). length (c_in c))") (auto dest: read_packet_Some [OF sym])

declare await_puback.simps [simp del]

text \<open>The handler: the session it keeps and the number of attempts made. A failed publish drops the session.\<close>

definition mqtt_deliver :: "mqtt_env \<Rightarrow> string \<Rightarrow> string \<Rightarrow> unit io" where
  "mqtt_deliver E topic data c =
     mbind (publish (mv_clock E c) topic (map u8_of_char data) (mqtt_qos (mv_config E))) (\<lambda>p.
       case p of Some expected \<Rightarrow> await_puback expected | None \<Rightarrow> mret ()) c"

definition mqtt_out_handler :: "mqtt_env \<Rightarrow> string \<Rightarrow> string \<Rightarrow> (client option \<times> nat, string option, string) stm" where
  "mqtt_out_handler E topic data slot =
     (case (case slot of
              (Some c, k) \<Rightarrow> (Ok c, k)
            | (None, k) \<Rightarrow> (mqtt_session E k True, Suc k)) of
        (Ok c, k) \<Rightarrow>
          (case mqtt_deliver E topic data c of
             (Ok _, c') \<Rightarrow> (Ok None, (Some c', k))
           | (Err e, _) \<Rightarrow> (Err e, (None, k))
           | (Panic, c') \<Rightarrow> (Panic, (Some c', k)))
      | (Err e, k) \<Rightarrow> (Err e, (None, k))
      | (Panic, k) \<Rightarrow> (Panic, (None, k)))"

section \<open>What is acknowledged to the broker\<close>

definition acks_stored :: "mqtt_env \<Rightarrow> string \<Rightarrow> mqtt_state \<Rightarrow> bool" where
  "acks_stored E subject s \<longleftrightarrow>
     (\<forall>(k, body, p) \<in> set (ml_acked s). accepted (mv_nats E) (take k (ml_history s)) (CStore subject body))"

definition keeps_acks :: "mqtt_env \<Rightarrow> string \<Rightarrow> (mqtt_state, 'a, string) stm \<Rightarrow> bool" where
  "keeps_acks E subject m \<longleftrightarrow> (\<forall>s. acks_stored E subject s \<longrightarrow> acks_stored E subject (snd (m s)))"

lemma keeps_acks_mret: "keeps_acks E subject (mret a)"
  and keeps_acks_mlift: "keeps_acks E subject (mlift r)"
  by (simp_all add: keeps_acks_def)

lemma keeps_acks_mbind:
  assumes "keeps_acks E subject m" and "\<And>a. keeps_acks E subject (f a)"
  shows "keeps_acks E subject (mbind m f)"
  unfolding keeps_acks_def
proof (intro allI impI)
  fix s assume "acks_stored E subject s"
  then have "acks_stored E subject (snd (m s))" using assms(1) by (simp add: keeps_acks_def)
  then show "acks_stored E subject (snd (mbind m f s))"
    using assms(2) unfolding keeps_acks_def by (cases "m s"; cases "fst (m s)") (auto simp: mbind_def)
qed

lemma keeps_acks_client: "keeps_acks E subject (on_client m)"
  by (simp add: keeps_acks_def on_client_def acks_stored_def split: prod.split)

lemma keeps_acks_upd: "keeps_acks E subject (mupd (ml_client_update f))"
  by (simp add: keeps_acks_def acks_stored_def)

lemma acks_stored_snoc:
  assumes "acks_stored E subject s"
  shows "acks_stored E subject (s\<lparr>ml_history := ml_history s @ t, ml_traces := tr\<rparr>)"
  using assms accepted_append [of "mv_nats E"] unfolding acks_stored_def by fastforce

lemma mqtt_ack_stored:
  assumes "acks_stored E subject s" and "accepted (mv_nats E) (ml_history s) (CStore subject body)"
  shows "acks_stored E subject (snd (mqtt_ack E body p s))"
  using assms
  by (auto simp: mqtt_ack_def on_client_def acks_stored_def split: prod.split result.split)

lemma keeps_acks_received: "keeps_acks E subject (mqtt_received E subject body qos p)"
  unfolding keeps_acks_def
proof (intro allI impI)
  fix s assume s: "acks_stored E subject s"
  let ?c = "CStore subject body"
  have grown: "acks_stored E subject (s\<lparr>ml_history := ml_history s @ [?c]\<rparr>)"
    using acks_stored_snoc [OF s, where t = "[?c]" and tr = "ml_traces s"] by simp
  show "acks_stored E subject (snd (mqtt_received E subject body qos p s))"
  proof (cases "nt_answer (mv_nats E) (ml_history s) ?c")
    case None
    define s1 where "s1 = mqtt_trace E subject True None [subject] (Sinks.trace_preview body) (s\<lparr>ml_history := ml_history s @ [?c]\<rparr>)"
    have "acks_stored E subject s1"
      using grown by (simp add: s1_def mqtt_trace_def acks_stored_def)
    moreover have "accepted (mv_nats E) (ml_history s1) ?c"
      using None by (auto simp: s1_def mqtt_trace_def accepted_def)
    ultimately show ?thesis
      using None mqtt_ack_stored by (simp add: mqtt_received_def do_call_def s1_def Let_def)
  qed (simp add: mqtt_received_def do_call_def grown)
qed

lemma keeps_acks_turn: "keeps_acks E subject (mqtt_in_turn E subject)"
  unfolding mqtt_in_turn_def
proof (rule keeps_acks_mbind [OF keeps_acks_client])
  fix got
  have "keeps_acks E subject (\<lambda>s. on_client (keepalive_tick (mv_clock E (ml_client s))) s)"
    using keeps_acks_client unfolding keeps_acks_def by blast
  then show "keeps_acks E subject (case got of
      Some (Publish topic payload qos p) \<Rightarrow> mqtt_received E subject (map char_of_u8 payload) qos p
    | Some _ \<Rightarrow> mret () | None \<Rightarrow> (\<lambda>s. on_client (keepalive_tick (mv_clock E (ml_client s))) s))"
    using keeps_acks_received [of E subject] by (simp add: keeps_acks_def split: option.split packet.split)
qed

lemma keeps_acks_turns: "keeps_acks E subject (source_turns alive (mqtt_in_turn E subject) n)"
proof (induction n)
  case (Suc n)
  have "keeps_acks E subject (mbind (mqtt_in_turn E subject) (\<lambda>_. source_turns alive (mqtt_in_turn E subject) n))"
    by (rule keeps_acks_mbind [OF keeps_acks_turn Suc])
  then show ?case by (simp add: keeps_acks_def)
qed (simp add: keeps_acks_def)

lemma keeps_acks_attempt: "keeps_acks E subject (mqtt_in_attempt E topic subject alive n try_no)"
proof -
  have "keeps_acks E subject (\<lambda>s. on_client (disconnect (mv_clock E (ml_client s))) s)"
    using keeps_acks_client unfolding keeps_acks_def by blast
  then show ?thesis
    unfolding mqtt_in_attempt_def
    by (intro keeps_acks_mbind keeps_acks_mlift keeps_acks_upd keeps_acks_client keeps_acks_turns)
       (simp add: keeps_acks_mbind keeps_acks_mret del: mret_run)
qed

lemma acks_stored_trace: "acks_stored E subject (mqtt_trace E subj ok e subs pv s) = acks_stored E subject s"
  by (simp add: mqtt_trace_def acks_stored_def)

lemma keeps_acks_attempts: "keeps_acks E subject (mqtt_in_attempts E topic subject alive n k try_no)"
proof (induction k arbitrary: try_no)
  case (Suc k)
  then show ?case
    using keeps_acks_attempt [of E subject topic alive n try_no] unfolding keeps_acks_def
    by (auto split: prod.split result.split simp: acks_stored_trace)
qed (simp add: keeps_acks_def)

text \<open>
  (C13) Publish before acknowledge, for MQTT: over any number of connections, whatever the broker sends and
  whenever the bus fails, each PUBACK the source sends is for a message whose bytes the bus had
  accepted before.
\<close>

theorem mqtt_in_acks_what_is_stored:
  "acks_stored E (ctx_subject (mv_root E) (cfg_str_or (mv_config E) ''SUBJECT'' []))
     (snd (mqtt_in_run E alive n k \<lparr>ml_client = c, ml_history = h, ml_acked = [], ml_traces = tr\<rparr>))"
proof -
  let ?s = "\<lparr>ml_client = c, ml_history = h, ml_acked = [], ml_traces = tr\<rparr>"
  let ?subject = "ctx_subject (mv_root E) (cfg_str_or (mv_config E) ''SUBJECT'' [])"
  have "keeps_acks E ?subject (mqtt_in_run E alive n k)"
    using keeps_acks_attempts [of E ?subject] unfolding mqtt_in_run_def required_def keeps_acks_def
    by (cases "mv_connect E") (auto simp: mbind_def cfg_str_or_def split: option.split)
  moreover have "acks_stored E ?subject ?s" by (simp add: acks_stored_def)
  ultimately show ?thesis by (simp add: keeps_acks_def)
qed

section \<open>What is acknowledged to the bus\<close>

text \<open>Waiting succeeds only when the acknowledgement of that packet is read.\<close>

lemma await_puback_read:
  assumes "await_puback expected c = (Ok (), c')"
  shows "\<exists>c1. read_packet c1 = (Ok (Some (PubAck expected)), c')"
  using assms
proof (induction expected c rule: await_puback.induct)
  case (1 expected c)
  obtain r c1 where r: "read_packet c = (r, c1)" by fastforce
  from "1.prems" r show ?case
    using "1.IH" [OF r [symmetric]]
    by (subst (asm) await_puback.simps) (auto split: result.splits option.splits if_splits)
qed

lemma mqtt_out_delivered:
  assumes "mqtt_out_handler E topic data slot = (Ok x, slot')" and "mqtt_qos (mv_config E) = 1"
  shows "\<exists>p c1 c2. read_packet c1 = (Ok (Some (PubAck p)), c2) \<and> fst slot' = Some c2"
proof -
  obtain c k c' where d: "mqtt_deliver E topic data c = (Ok (), c')" "slot' = (Some c', k)"
    using assms(1) by (auto simp: mqtt_out_handler_def split: prod.splits result.splits option.splits)
  then obtain p c1 where "await_puback p c1 = (Ok (), c')"
    using assms(2) unfolding mqtt_deliver_def publish_def
    by (auto simp: pid_def mbind_def split: prod.splits result.splits)
  then show ?thesis using await_puback_read d(2) by force
qed

section \<open>Defects\<close>

text \<open>
  A broker may send the messages a session has queued before it answers the subscription. The client
  takes the first of them for a wrong answer and gives up the connection, and the next one meets the
  same message: the source makes no progress.
\<close>

definition queued_broker :: mqtt_env where
  "queued_broker = \<lparr>mv_nats = so_nats clock_env, mv_name = ''m'', mv_root = ''vx'', mv_config = om_of_list
       [(''BROKER'', VString ''b''), (''SUBJECT'', VString ''in''), (''TOPIC'', VString ''t'')],
     mv_connect = Ok (), mv_now = \<lambda>_. 0, mv_clock = \<lambda>_. 0,
     mv_open = \<lambda>_. Ok (map Byte ([0x20, 2, 1, 0] @ frame 3 2 (publish_body ''t'' [120] (Some 7)) @ [0x90, 3, 0, 1, 1]))\<rparr>"

lemma queued_message_fails_the_subscription:
  "(let s = snd (mqtt_in_run queued_broker (\<lambda>_. True) 5 3
       \<lparr>ml_client = new_client [] 30 0, ml_history = [], ml_acked = [], ml_traces = no_traces\<rparr>)
    in (ml_history s, ml_acked s, length (the (om_get (tr_rings (ml_traces s)) ''m'')))) = ([], [], 3)"
  by code_simp

end
