(* ===== verification/Texts.thy ===== *)
theory Texts
  imports Http_In
begin

text \<open>
  The fixed texts of the program: the language reference and the prompts of \<open>core/src/main.rs\<close>, the
  descriptions of the drivers of \<open>core/src/connectors.rs\<close> and the table of the built-in tools.
\<close>

definition squote :: string where "squote = [CHR 0x27]"
definition em_dash :: string where "em_dash = [CHR 0xE2, CHR 0x80, CHR 0x94]"
definition ellipsis :: string where "ellipsis = [CHR 0xE2, CHR 0x80, CHR 0xA6]"
definition arrow :: string where "arrow = [CHR 0xE2, CHR 0x86, CHR 0x92]"
definition newline :: string where "newline = [CHR 0x0A]"

section \<open>Drivers\<close>

definition driver_about :: "string \<Rightarrow> string option" where
  "driver_about =
     map_of
      [(''http-in'',
        (''HTTP webhook: POST /ingest/<suffix> publishes the JSON body on vx.<suffix>. Config: PORT, '' @
        ''MAX_CONNECTIONS (default 512, past it a 503), ALLOW (optional list of permitted subject '' @
        ''suffixes/prefixes '' @ em_dash @
        '' this port is unauthenticated, so restrict it to your ingest subjects; without ALLOW any vx.* subject '' @
        ''is reachable).'')),
       (''timer'',
        (''Emits PAYLOAD on SUBJECT every INTERVAL_SECS; an object payload gains a ts field (ISO 8601 UTC) when '' @
        ''absent. Config: SUBJECT, INTERVAL_SECS, PAYLOAD.'')),
       (''http-poll'',
        (''GETs a URL every INTERVAL_SECS and publishes the JSON body. Config: URL, SUBJECT, INTERVAL_SECS, '' @
        ''HEADERS (optional doc, e.g. {'' @ dq @ ''Authorization'' @ dq @ '': '' @ ellipsis @
        ''}), ENVELOPE (optional bool: when true, publish {endpoint, fetched_at, body} like oauth-poll so a '' @
        ''stateless flow gets a collected_at '' @ em_dash @ '' the language has no clock).'')),
       (''oauth-poll'',
        (''OAuth2 client-credentials REST poller: takes a token from TOKEN_URL, GETs each of ENDPOINTS with the '' @
        ''Bearer (pagination via NEXT_LINK_FIELD, default '' @ dq @ ''@odata.nextLink'' @ dq @
        '', capped by MAX_PAGES), publishes one {endpoint, fetched_at, body} message per page on SUBJECT every '' @
        ''INTERVAL_SECS. EXPAND = [{name, list, detail, key, as, list_field?}] does a client-side $expand: each '' @
        ''item of the list response'' @ squote @ ''s array (list_field, default '' @ dq @ ''value'' @ dq @
        ''; use '' @ dq @ ''resources'' @ dq @ ''/'' @ dq @ ''data'' @ dq @
        '' for other APIs; a bare-string item becomes {key: id}) is enriched with its per-item detail call ({key} '' @
        ''substituted in the detail path) and the page ships as ONE envelope under endpoint=name '' @ em_dash @
        '' sized for list APIs without a server-side expand (sequential detail calls, keep pages small). Config: '' @
        ''TOKEN_URL, CLIENT_ID, CLIENT_SECRET (use secret()), SCOPE (optional '' @ em_dash @
        '' omitted when empty, e.g. CrowdStrike), BASE_URL, ENDPOINTS and/or EXPAND, SUBJECT, INTERVAL_SECS, '' @
        ''MAX_PAGES.'')),
       (''slack-out'',
        (''Consumes vx.slack.out and posts {text} to a Slack webhook (DRY-RUN if unset). Config: SUBJECT, '' @
        ''WEBHOOK_URL.'')),
       (''http-out'',
        (''Consumes a subject and POSTs each message body to a URL. Config: SUBJECT, URL, HEADERS (optional doc '' @
        em_dash @ '' put credentials there via secret(), e.g. {'' @ dq @ ''Authorization'' @ dq @ '': '' @
        ellipsis @ ''}), TEST_BODY (optional harmless payload enabling the test probe).'')),
       (''exec-source'',
        (''Runs CMD every INTERVAL_SECS; each JSON line it prints on stdout is published to SUBJECT. Any language, '' @
        ''no NATS client. Config: CMD, SUBJECT, INTERVAL_SECS.'')),
       (''exec-sink'',
        (''Consumes SUBJECT; pipes each message body to CMD'' @ squote @
        ''s stdin. Any language, no NATS client. ENV = {'' @ dq @ ''KEY'' @ dq @ '': secret('' @
        [CHR 0x22, CHR 0xE2, CHR 0x80, CHR 0xA6, CHR 0x22] @
        '')} is handed to the child environment (secrets never touch argv). Config: CMD, SUBJECT, ENV (optional).'')),
       (''exec-stream-source'',
        (''Runs CMD as a long-running process and publishes each JSON line it streams on stdout to SUBJECT '' @
        em_dash @
        '' line by line, with back-pressure (a bounded internal buffer; when the bus is slow the child'' @
        squote @ ''s stdout blocks, so a burst can'' @ squote @
        ''t overrun memory). For push sources like SAP IDoc inbound, Salesforce Bulk 2.0, and Kafka (wrap kcat). '' @
        ''ENV = {'' @ dq @ ''KEY'' @ dq @ '': secret('' @ [CHR 0x22, CHR 0xE2, CHR 0x80, CHR 0xA6, CHR 0x22] @
        '')} is handed to the child'' @ squote @
        ''s environment (secrets never touch argv). On child exit it restarts after RESTART_SECS. Optional offset '' @
        ''RESUME (Kafka etc.): set OFFSET_KV to a key and the driver hands the child the last committed offset as '' @
        ''$OFFSET at (re)start and commits each record'' @ squote @ ''s OFFSET_FIELD (default '' @ dq @
        ''offset'' @ dq @ '') after publishing it '' @ em_dash @
        '' publish-before-commit, at-least-once, resume in OUR JetStream KV; OFFSET_START (default '' @ dq @
        ''end'' @ dq @
        '') is used on the first run. Config: CMD, SUBJECT, ENV (optional), RESTART_SECS (optional, default 2), '' @
        ''OFFSET_KV/OFFSET_FIELD/OFFSET_START (optional).'')),
       (''exec-rpc'',
        (''Runs CMD as a long-running request/reply process (one JSON request per line on stdin -> one JSON reply '' @
        ''per line on stdout) and serves it over NATS request/reply on REQUEST_SUBJECT '' @ em_dash @
        '' so MCP tools (and flows) can drive an interactive connector like SAP (sap_list / sap_describe / '' @
        ''sap_call). Keep REQUEST_SUBJECT OUTSIDE the vx.* JetStream subjects (e.g. '' @ dq @ ''vxrpc.sap'' @
        dq @ ''). ENV = {'' @ dq @ ''KEY'' @ dq @ '': secret('' @
        [CHR 0x22, CHR 0xE2, CHR 0x80, CHR 0xA6, CHR 0x22] @
        '')} is handed to the child environment (secrets never touch argv). One SAP logon is held open and '' @
        ''requests are serialized. Config: CMD, REQUEST_SUBJECT, ENV (optional).'')),
       (''mqtt-in'',
        (''Subscribes to an MQTT topic and publishes each message to SUBJECT (hand-rolled sync client, 3.1.1, QoS '' @
        ''0/1). At-least-once maps onto QoS 1 with no KV: the PUBACK to the broker is sent only AFTER the bus '' @
        ''publish is confirmed, so the broker retransmits anything not yet acked '' @ em_dash @
        '' CLEAN_SESSION=false keeps the subscription across reconnects. Singleton (structural in 3.1.1). Config: '' @
        ''BROKER (host:port), TOPIC, SUBJECT, QOS (0/1, default 1), CLIENT_ID (default vejas-<name>), '' @
        ''USERNAME/PASSWORD (secret()), KEEPALIVE_SECS (default 30), TLS (bool, default false '' @ arrow @
        '' rustls). QoS2/MQTT5 '' @ arrow @ '' mosquitto exec-bridge.'')),
       (''mqtt-out'',
        (''Consumes SUBJECT and PUBLISHes each message to an MQTT topic (hand-rolled sync client, 3.1.1, QoS 0/1). '' @
        ''QoS 1: PUBLISH '' @ arrow @ '' await the broker'' @ squote @ ''s PUBACK '' @ arrow @
        '' THEN ack the bus message (side-effect-before-ack); a crash between them redelivers '' @ arrow @
        '' duplicate PUBLISH (standard at-least-once). Competing-safe (durable pull). Config: BROKER, TOPIC, '' @
        ''SUBJECT, QOS (default 1), CLIENT_ID, USERNAME/PASSWORD (secret()), KEEPALIVE_SECS. TLS + QoS2/MQTT5 '' @
        arrow @ '' mosquitto exec-bridge.''))]"

definition driver_names :: "string list" where
  "driver_names =
     [''http-in'', ''timer'', ''http-poll'', ''oauth-poll'', ''slack-out'', ''http-out'',
      ''exec-source'', ''exec-sink'', ''exec-stream-source'', ''exec-rpc'', ''mqtt-in'', ''mqtt-out'']"

text \<open>\<open>catalog\<close>: name, kind and description of every driver.\<close>

definition catalog :: "(string \<times> string \<times> string) list" where
  "catalog =
     List.map_filter (\<lambda>n. case (driver_kind n, driver_about n) of
        (Some k, Some a) \<Rightarrow> Some (n, k, a) | _ \<Rightarrow> None) driver_names"

section \<open>Language and prompts\<close>

definition language_vjs :: string where
  "language_vjs = str_join newline
     [''VejasScript in 20 lines:'',
      ''  # comment'',
      (''  source '' @ dq @ ''vx.domain.name'' @ dq @ ''            <- the flow'' @ squote @
      ''s input subject, REQUIRED, line 1''),
      (''  SEVERITY_CODES = {'' @ dq @ ''critique'' @ dq @ '': '' @ dq @ ''P1'' @ dq @ '', '' @ dq @ ''haute'' @
      dq @ '': '' @ dq @ ''P2'' @ dq @
      ''}   <- UPPERCASE literal dicts are transcoding tables the business expert edits''),
      (''  ALERT_LEVELS = ['' @ dq @ ''P1'' @ dq @ '', '' @ dq @ ''P2'' @ dq @
      '']        <- UPPERCASE literal lists/scalars are editable constants''),
      (''  x = priority                       <- the incoming event'' @ squote @
      ''s top-level fields are variables; `event` is the whole document''),
      (''  code = SEVERITY_CODES[priority] ?? '' @ dq @ ''P3'' @ dq),
      (''  email = lower(requester?.email)    <- builtins: upper lower trim len str num split join replace round '' @
      ''abs; ?. is null-safe''),
      ''  ids = orders[].id                  <- array projection'',
      ''  big = orders[total > 100]          <- array filtering'',
      ''  out = out + [{sku: l.sku}]         <- array concatenation builds lists inside a for'',
      (''  fact = {source: '' @ dq @ ''graph'' @ dq @
      '', in: 2}    <- doc keys and .field names may be ANY word, keywords included''),
      (''  invoke format_alert(sev: code)     <- compose a service from services/<name>.vjs; its outputs MERGE '' @
      ''into this pipeline''),
      ''  d = invoke format_alert(sev: code) <- or capture its whole pipeline as a document'',
      (''  invoke pkg:svc(k: v)               <- cross-package composition (the target package must list svc in '' @
      ''its EXPORTS)''),
      (''  key = secret('' @ dq @ ''slack/webhook'' @ dq @
      '')      <- credentials resolve from the Vault at run time; NEVER a literal''),
      ''  if code in ALERT_LEVELS:'',
      (''      emit '' @ dq @ ''vx.slack.out'' @ dq @ '', {text: f'' @ dq @ ''[{code}] {subject}'' @ dq @ ''}''),
      ''  end                                <- every if/for closes with `end`'',
      [],
      ''Exposing a flow (instead of, or besides, `source`):'',
      (''  tool '' @ dq @ ''what calling this flow does'' @ dq @ '' <- exposes the flow as an MCP tool''),
      (''  api '' @ dq @ ''POST /orders'' @ dq @
      ''                 <- expose the flow as a SYNCHRONOUS HTTP endpoint under /api (POST /api/orders)''),
      (''  api '' @ dq @ ''GET /orders/{id}'' @ dq @
      ''             <- a REST resource = several flows, ONE per verb; {path params} become event variables (here '' @
      ''`id`)''),
      (''  API_REQUEST = {customer: '' @ dq @ ''string'' @ dq @ '', total: '' @ dq @ ''number'' @ dq @
      ''}   <- optional: typed request schema for the generated OpenAPI''),
      (''  API_RESPONSE = {id: '' @ dq @ ''string'' @ dq @ '', status: '' @ dq @ ''string'' @ dq @
      ''}       <- optional: typed 200 response schema''),
      (''  respond 201, {id: id, status: '' @ dq @ ''created'' @ dq @
      ''}   <- the SYNCHRONOUS HTTP response (status code + JSON body); `emit` still fires bus side-effects''),
      [],
      ''Rules:'',
      (''- Known sinks: vx.slack.out (payload {text: '' @ dq @ ''...'' @ dq @ ''}). All subjects start with '' @
      dq @ ''vx.'' @ dq @ ''.''),
      ''- Put every business-meaningful value (thresholds, tables, queue names) in UPPERCASE literals.'',
      (''- A flow file'' @ squote @
      ''s first line is `# flow: <snake_case_name>`; it lives under flows/ (or packages/<pkg>/flows/).''),
      (''- Its sample input lives at flows/fixtures/<flow>.json (or packages/<pkg>/fixtures/) '' @ em_dash @
      '' one JSON event.''),
      (''- A flow is triggered by ONE of: `source '' @ dq @ ''vx'' @ [CHR 0xE2, CHR 0x80, CHR 0xA6, CHR 0x22] @
      ''` (bus), `tool '' @ [CHR 0x22, CHR 0xE2, CHR 0x80, CHR 0xA6, CHR 0x22] @ ''` (MCP), or `api '' @ dq @
      ''VERB /path'' @ dq @ ''` (HTTP). An `api` flow answers with `respond <status>, {body}`; the request'' @
      squote @
      ''s JSON body, {path params} and `query` are all in the event. The whole API is described at GET '' @
      ''/api/openapi.json.''),
      (''- An `emit` subject must be a valid subject: no whitespace, no control character. A subject built from an '' @
      ''event field is checked when the flow runs, and a value that breaks the rule fails the run, so the message '' @
      ''reaches the DLQ after its deliveries. Map such a field through a table rather than trusting it.''),
      (''- `secret()` never yields the value where a run is SHOWN instead of performed (preview, vejas_run_flow, '' @
      ''flow-as-tool, shadow-replay, time-travel, canary, golden capture): it stays fail-closed and evaluates to '' @
      ''the placeholder `<secret:path/key>`, so a branch comparing with a secret takes the not-equal path there.''),
      (''- A connector manifest'' @ squote @ ''s first line is `# connector: <name>`, then `driver '' @ dq @
      ''<name>'' @ dq @
      ''` (catalog: vejas_drivers) and UPPERCASE literal config; any credential uses secret('' @ dq @
      ''path/key'' @ dq @ ''), never a literal.'')]"

definition contract_vjs :: string where
  "contract_vjs = str_join newline
     [(''You write ONE VejasScript file for the Vejas integration platform. Reply with ONLY the file content (no '' @
      ''markdown fences, no commentary).''),
      [],
      ''{language}'',
      [],
      ''Task rules:'',
      ''- First line must be: # flow: <snake_case_name>'',
      ''- Existing flows (do not reuse names): {existing}'',
      [],
      ''Task: {task}'']"

definition contract_connector :: string where
  "contract_connector = str_join newline
     [(''You write ONE Vejas connector manifest (.vjs). Reply with ONLY the file content (no markdown fences, no '' @
      ''commentary).''),
      [],
      ''A connector manifest binds a driver to config. Structure:'',
      ''  # connector: <snake_case_name>       <- REQUIRED first line'',
      (''  driver '' @ dq @ ''<driver-name>'' @ dq @
      ''               <- REQUIRED, exactly one of the catalog below''),
      ''  UPPERCASE_KEY = <literal>            <- config values (strings, numbers, {docs})'',
      (''  SOME_SECRET = secret('' @ dq @ ''path/key'' @ dq @
      '')     <- credentials: NEVER a literal, ALWAYS secret('' @ dq @ ''...'' @ dq @ '')''),
      [],
      ''Available drivers (pick ONE; its description lists the config keys it needs):'',
      ''{drivers}'',
      [],
      ''Rules:'',
      (''- Every bus subject starts with '' @ dq @ ''vx.'' @ dq @
      ''. A sink reads a SUBJECT; a source publishes to a SUBJECT.''),
      (''- Any credential (token, password, a webhook URL that is secret) MUST use secret('' @ dq @
      ''path/key'' @ dq @ ''), never a literal.''),
      (''- If no built-in driver fits, use `exec-source` (CMD prints one JSON object per line on stdout, any '' @
      ''language) or `exec-sink` (CMD reads a JSON body on stdin). Keep CMD to a single shell command.''),
      ''- First line MUST be: # connector: <snake_case_name>'',
      ''- Existing connectors (do not reuse names): {existing}'',
      [],
      ''Task: {task}'']"

definition no_agent_cli :: string where
  "no_agent_cli =
     (''this deployment has no agent CLI (VEJAS_AGENT_CMD): write the file yourself '' @ em_dash @
     '' vejas_language gives the syntax, vejas_write_flow deploys it'')"

section \<open>Tools\<close>

definition tool_json :: "string \<Rightarrow> string \<Rightarrow> json omap \<Rightarrow> string list \<Rightarrow> json" where
  "tool_json name about props req =
     VObject (om_of_list [(''name'', VString name), (''description'', VString about),
       (''inputSchema'', VObject (om_of_list [(''type'', VString ''object''), (''properties'', VObject props),
          (''required'', VArray (map VString req))]))])"

text \<open>Name, description, properties and required properties of a tool.\<close>

definition builtin_specs :: "(string \<times> string \<times> json omap \<times> string list) list" where
  "builtin_specs =
     [(''vejas_topology'',
       ''List running flows and connectors with their status.'',
       [], []),
      (''vejas_graph'',
       ''The pipeline graph: sources, flows, composed services, destinations, connectors.'',
       [], []),
      (''vejas_surface'',
       ''The business surface of every flow: mappings, transcoding tables, constants.'',
       [], []),
      (''vejas_language'',
       (''The VejasScript reference: grammar, builtins, and the rules for flow files and connector manifests. '' @
        ''Read this before writing any .vjs.''),
       [], []),
      (''vejas_vpl_check'',
       (''Check a detect unit (a VPL program under detects/, run by the embedded Varpulis engine '' @ em_dash @
        '' ADR-0031): the engine'' @ squote @
        ''s own verdict, the same refusal a running unit would give. Returns {ok} or {ok:false, error}.''),
       om_of_list [(''file'', VObject (om_of_list [(''type'', VString ''string''), (''description'', VString ''path of the .vpl file'')]))], [''file'']),
      (''vejas_read'',
       ''Read a script file (.vjs) or fixture (.json).'',
       om_of_list [(''path'', VObject (om_of_list [(''type'', VString ''string'')]))], [''path'']),
      (''vejas_write_flow'',
       (''Create or overwrite a .vjs script (parse-validated, hot-reloaded) or a .json fixture. path under '' @
        ''flows/, connectors/, or packages/<pkg>/flows|services|fixtures.''),
       om_of_list [(''path'', VObject (om_of_list [(''type'', VString ''string'')])),
          (''content'', VObject (om_of_list [(''type'', VString ''string'')]))], [''path'', ''content'']),
      (''vejas_set_literal'',
       ''Rewrite one literal of the business surface in place (constant, or a table/mapping entry via key).'',
       om_of_list [(''file'', VObject (om_of_list [(''type'', VString ''string'')])),
          (''name'', VObject (om_of_list [(''type'', VString ''string'')])),
          (''key'', VObject (om_of_list [(''type'', VString ''string''), (''description'', VString (''entry key, or '' @ squote @ ''-'' @ squote @ '' for a whole constant''))])),
          (''value'', VObject [])], [''file'', ''name'', ''value'']),
      (''vejas_rollback_literal'',
       (''Roll a business-surface literal back to the value it held before its most recent promote (from the '' @
        ''VEJAS_AUDIT trail). Rollback is itself an audited promote to the recorded previous value '' @
        em_dash @
        '' forward-only, hot-reloaded, previewable first with vejas_replay_literal. Returns {restored, was, '' @
        ''rolled_back_promote_ts}.''),
       om_of_list [(''file'', VObject (om_of_list [(''type'', VString ''string'')])),
          (''name'', VObject (om_of_list [(''type'', VString ''string'')])),
          (''key'', VObject (om_of_list [(''type'', VString ''string''), (''description'', VString (''entry key, or '' @ squote @ ''-'' @ squote @ '' for a whole constant''))]))], [''file'', ''name'']),
      (''vejas_time_travel'',
       (''Time-travel (ADR-0021): replay a window of REAL persisted traffic through a whole CANDIDATE version of '' @
        ''a flow and diff its emissions against the current effective version, joined by stream sequence. '' @
        ''Read-only, the bus untouched, a candidate'' @ squote @
        ''s emits never reach a real subject. Use to preview an arbitrary rewrite (not just one literal) before '' @
        ''promoting it. Returns {events, changed, results:[{seq, before, after, changed}]}.''),
       om_of_list [(''file'', VObject (om_of_list [(''type'', VString ''string'')])),
          (''candidate'', VObject (om_of_list [(''type'', VString ''string''), (''description'', VString ''the whole candidate VejasScript source'')])),
          (''n'', VObject (om_of_list [(''type'', VString ''integer''), (''description'', VString ''how many recent events to replay (default 20)'')]))], [''file'', ''candidate'']),
      (''vejas_canary_start'',
       (''Start a canary (ADR-0021): shadow-follow a flow'' @ squote @
        ''s LIVE traffic and diff a candidate version against the current effective version as events arrive, '' @
        ''accumulating a diff. Read-only (shadow '' @ em_dash @
        '' no real emit). Refuses if a canary is already running for the flow. Auto-stops if the live version '' @
        ''changes under it (reason in status).''),
       om_of_list [(''file'', VObject (om_of_list [(''type'', VString ''string'')])),
          (''candidate'', VObject (om_of_list [(''type'', VString ''string''), (''description'', VString ''the whole candidate VejasScript source'')]))], [''file'', ''candidate'']),
      (''vejas_canary_status'',
       (''Read a canary'' @ squote @
        ''s accumulating diff: {running, events, changed, stop_reason, results:[{seq, before, after, changed}]}.''),
       om_of_list [(''file'', VObject (om_of_list [(''type'', VString ''string'')]))], [''file'']),
      (''vejas_canary_stop'',
       ''Stop a running canary for a flow (its shadow consumer exits; the last diff stays readable).'',
       om_of_list [(''file'', VObject (om_of_list [(''type'', VString ''string'')]))], [''file'']),
      (''vejas_propose'',
       (''Submit a governed change PROPOSAL for a human to approve in the panel (ADR-0024) '' @ em_dash @
        '' you can propose but never approve. kind='' @ squote @ ''set_literal'' @ squote @
        '' (payload {file, name, key, value}) or kind='' @ squote @ ''version'' @ squote @
        '' (payload {file, candidate: whole source}). Attach `evidence` you gathered (vejas_time_travel results, '' @
        ''vejas_canary stats) '' @ em_dash @ '' the panel shows it next to Approve, and flags '' @ squote @
        ''no evidence'' @ squote @
        '' loudly. The proposal is pinned to the current baseline and auto-expires if a deploy/promote moves it. '' @
        ''Returns the stored proposal (id, status:pending).''),
       om_of_list [(''kind'', VObject (om_of_list [(''type'', VString ''string'')])),
          (''payload'', VObject (om_of_list [(''type'', VString ''object'')])),
          (''evidence'', VObject (om_of_list [(''type'', VString ''object'')]))], [''kind'', ''payload'']),
      (''vejas_proposals'',
       (''List the proposal queue with status (pending/approved/rejected/expired) and evidence. Read-only. '' @
        ''Approve/reject are human panel actions, not tools.''),
       [], []),
      (''vejas_replay_literal'',
       (''Shadow-replay a proposed literal change against REAL persisted traffic: hydrate the flow'' @ squote @
        ''s recent events from JetStream (read-only, the bus untouched '' @ em_dash @
        '' falls back to the in-memory trace ring when the stream is empty or the flow has no bus source), rerun '' @
        ''them against the current AND the patched script, and return the before/after emit diff (with `source`: '' @
        ''jetstream|trace-ring). Nothing is written '' @ em_dash @ '' promote with vejas_set_literal.''),
       om_of_list [(''file'', VObject (om_of_list [(''type'', VString ''string'')])),
          (''name'', VObject (om_of_list [(''type'', VString ''string'')])),
          (''key'', VObject (om_of_list [(''type'', VString ''string''), (''description'', VString (''entry key, or '' @ squote @ ''-'' @ squote @ '' for a whole constant''))])),
          (''value'', VObject []),
          (''n'', VObject (om_of_list [(''type'', VString ''integer''), (''description'', VString ''how many recent events to replay (default 20)'')]))], [''file'', ''name'', ''value'']),
      (''vejas_preview'',
       ''Run a flow on its fixture and return the emitted messages plus the final pipeline.'',
       om_of_list [(''file'', VObject (om_of_list [(''type'', VString ''string'')]))], [''file'']),
      (''vejas_run_flow'',
       ''Run any flow on a supplied input event and return its emits (does not touch the bus).'',
       om_of_list [(''file'', VObject (om_of_list [(''type'', VString ''string'')])),
          (''input'', VObject (om_of_list [(''type'', VString ''object'')]))], [''file'', ''input'']),
      (''vejas_events'',
       (''The most recent events processed by the flows '' @ em_dash @
        '' subject, ok/error, emitted subjects, payload preview '' @ em_dash @
        '' newest first. Optional filter: flow (e.g. '' @ dq @ ''flow:stripe_alerts'' @ dq @ '').''),
       om_of_list [(''flow'', VObject (om_of_list [(''type'', VString ''string'')]))], []),
      (''vejas_reload'',
       ''Rescan flows and packages; start new, stop removed, restart changed.'',
       [], []),
      (''vejas_drivers'',
       ''List the available connector drivers (name, kind, description) for writing connector manifests.'',
       [], []),
      (''vejas_secrets'',
       (''The secret references declared by flows and connectors, who uses each, and whether it RESOLVES against '' @
        ''the store '' @ em_dash @ '' references and statuses only, never values.''),
       [], []),
      (''vejas_set_secret'',
       (''Write one secret value into the store (rotation included) and restart the units that reference it. '' @
        ''WRITE-ONLY: no surface ever returns the value.''),
       om_of_list [(''ref'', VObject (om_of_list [(''type'', VString ''string''), (''description'', VString (''the secret('' @ dq @ ''path/key'' @ dq @ '') reference''))])),
          (''value'', VObject (om_of_list [(''type'', VString ''string'')]))], [''ref'', ''value'']),
      (''vejas_test_connector'',
       (''Synchronously test one connector instance: evaluate its manifest with the real secrets, reach the '' @
        ''remote side with the driver'' @ squote @
        ''s probe, touch nothing. Returns {ok, detail} in plain words.''),
       om_of_list [(''file'', VObject (om_of_list [(''type'', VString ''string'')]))], [''file'']),
      (''vejas_provision'',
       (''Instantiate a tenant package from a template (templates/<name>/, ${param} substitution, every file '' @
        ''parse-checked, hot-started). Returns created files, started units and the secret references left to '' @
        ''write. Refuses an existing package unless force (which overwrites template-rendered files).''),
       om_of_list [(''template'', VObject (om_of_list [(''type'', VString ''string'')])),
          (''tenant_slug'', VObject (om_of_list [(''type'', VString ''string'')])),
          (''params'', VObject (om_of_list [(''type'', VString ''object'')])),
          (''force'', VObject (om_of_list [(''type'', VString ''boolean'')]))], [''template'', ''tenant_slug'']),
      (''sap_list'',
       (''List SAP function modules (BAPIs/RFCs) on the live system whose name matches a pattern (SAP wildcards, '' @
        ''e.g. '' @ dq @ ''BAPI_USER*'' @ dq @ ''). Needs an exec-rpc SAP connector running (driver '' @ dq @
        ''exec-rpc'' @ dq @ '').''),
       om_of_list [(''pattern'', VObject (om_of_list [(''type'', VString ''string'')]))], []),
      (''sap_describe'',
       (''Describe a SAP function module'' @ squote @ ''s interface: every parameter'' @ squote @
        ''s name, direction (import/export/changing/tables), type and length. Read this before sap_call.''),
       om_of_list [(''func'', VObject (om_of_list [(''type'', VString ''string'')]))], [''func'']),
      (''sap_call'',
       (''Call a SAP function module (BAPI/RFC) on the live system and return its outputs. `import` values may be '' @
        ''scalars, structures (a JSON object) or tables (an array of row objects); every EXPORT/CHANGING scalar & '' @
        ''structure and every TABLES parameter comes back auto-marshalled from metadata. `max_rows` caps table '' @
        ''output. E.g. func='' @ dq @ ''RFC_READ_TABLE'' @ dq @ '', import={'' @ dq @ ''QUERY_TABLE'' @ dq @
        '':'' @ dq @ ''T000'' @ dq @ ''}.''),
       om_of_list [(''func'', VObject (om_of_list [(''type'', VString ''string'')])),
          (''import'', VObject (om_of_list [(''type'', VString ''object'')])),
          (''max_rows'', VObject (om_of_list [(''type'', VString ''integer'')]))], [''func'']),
      (''sap_send_idoc'',
       (''Send an IDoc INTO SAP via transactional RFC (exactly-once). `control` is the EDI_DC40 control record '' @
        ''(e.g. {TABNAM:'' @ dq @ ''EDI_DC40'' @ dq @ '', IDOCTYP:'' @ dq @ ''MATMAS05'' @ dq @ '', MESTYP:'' @
        dq @ ''MATMAS'' @ dq @ '', SNDPRN, SNDPRT:'' @ dq @ ''LS'' @ dq @ '', RCVPRN, RCVPRT:'' @ dq @ ''LS'' @
        dq @ '', DIRECT:'' @ dq @ ''2'' @ dq @
        ''}); `data` is the array of EDI_DD40 segments ({SEGNAM, SDATA}). Pass a stable `tid` (24 chars) derived '' @
        ''from an idempotency key for dedup across retries; omit for a fresh one. Returns the transaction id.''),
       om_of_list [(''control'', VObject (om_of_list [(''type'', VString ''object'')])),
          (''data'', VObject (om_of_list [(''type'', VString ''array'')])),
          (''tid'', VObject (om_of_list [(''type'', VString ''string'')]))], [''control'', ''data'']),
      (''vejas_dlq'',
       (''List dead letters '' @ em_dash @
        '' poison messages parked in the DLQ (ADR-0015) instead of dropped: unit, original subject, attempts, '' @
        ''last error, payload, each with a `seq` for replay/purge. Newest first.''),
       om_of_list [(''limit'', VObject (om_of_list [(''type'', VString ''integer'')]))], []),
      (''vejas_dlq_replay'',
       (''Replay dead letters '' @ em_dash @
        '' re-inject each to its ORIGINAL subject so the (now corrected) flow reprocesses it, then remove it from '' @
        ''the DLQ. Target one by `seq`, a whole `unit`, or all (omit both). Do this AFTER fixing the cause '' @
        ''(vejas_set_literal, previewed with vejas_replay_literal). Refused in governed mode: a human replays '' @
        ''them in the panel, after approving the fix.''),
       om_of_list [(''seq'', VObject (om_of_list [(''type'', VString ''integer'')])),
          (''unit'', VObject (om_of_list [(''type'', VString ''string'')]))], []),
      (''vejas_dlq_purge'',
       (''Discard dead letters without replaying '' @ em_dash @
        '' by `seq`, by `unit`, or all (omit both). Refused in governed mode: a human discards them in the panel.''),
       om_of_list [(''seq'', VObject (om_of_list [(''type'', VString ''integer'')])),
          (''unit'', VObject (om_of_list [(''type'', VString ''string'')]))], [])]"

definition agent_specs :: "(string \<times> string \<times> json omap \<times> string list) list" where
  "agent_specs =
     [(''vejas_new_flow'',
       ''Ask the agent to write a new VejasScript flow from a natural-language request; it lands running.'',
       om_of_list [(''prompt'', VObject (om_of_list [(''type'', VString ''string'')]))], [''prompt'']),
      (''vejas_new_connector'',
       (''Ask the agent to write a new connector manifest from a natural-language request (picks a driver, writes '' @
        ''config, uses secret() for credentials); it lands running.''),
       om_of_list [(''prompt'', VObject (om_of_list [(''type'', VString ''string'')]))], [''prompt''])]"

definition tools_of :: "(string \<times> string \<times> json omap \<times> string list) list \<Rightarrow> json list" where
  "tools_of = map (\<lambda>(name, about, props, req). tool_json name about props req)"

end
