(* ===== verification/Views.thy ===== *)
theory Views
  imports Texts Control
begin

text \<open>
  The views of a project that the panel and the agents read, from \<open>core/src/main.rs\<close>: the business
  surface, the graph, the rules and the preview of a flow, the flows that are tools; the runs that
  only show what a flow would emit; golden tests from real events; and the generation of flows and
  connectors by an agent process. The environment is that of the control channel, read for one call.
\<close>

section \<open>Programs of the project\<close>

text \<open>The loop the views share: a file that cannot be read or parsed is skipped.\<close>

fun programs :: "(path \<Rightarrow> string option) \<Rightarrow> (path \<times> string) list \<Rightarrow> ((path \<times> string \<times> program) list, 'e) result" where
  "programs rd [] = Ok []"
| "programs rd ((p, pkg) # rest) =
     (case rd p of
        None \<Rightarrow> programs rd rest
      | Some src \<Rightarrow>
          (case parse src of
             Panic \<Rightarrow> Panic
           | Err _ \<Rightarrow> programs rd rest
           | Ok prog \<Rightarrow> rbind (programs rd rest) (\<lambda>ps. Ok ((p, pkg, prog) # ps))))"

definition flow_programs :: "ctl_env \<Rightarrow> ((path \<times> string \<times> program) list, 'e) result" where
  "flow_programs C = programs (ct_text C) (vjs_files (ct_listing C) (ct_root C))"

definition is_service :: "path \<Rightarrow> bool" where
  "is_service p \<longleftrightarrow> 2 \<le> length p \<and> p ! (length p - 2) = ''services''"

definition local_name :: "path \<Rightarrow> string \<Rightarrow> string" where
  "local_name p pkg = (if pkg = ''default'' then file_stem p else pkg @ '':'' @ file_stem p)"

section \<open>The business surface\<close>

definition is_object :: "json \<Rightarrow> bool" where
  "is_object v \<longleftrightarrow> as_object v \<noteq> None"

definition vjs_kind_of :: "string \<Rightarrow> json \<Rightarrow> string" where
  "vjs_kind_of name v =
     (if starts_with name ''MAPPING'' \<and> is_object v then ''mapping''
      else if is_object v then ''table'' else ''constant'')"

definition literal_fields :: "surface_entry \<Rightarrow> (string \<times> json) list" where
  "literal_fields e =
     [(''name'', VString (se_name e)), (''kind'', VString (vjs_kind_of (se_name e) (se_value e))),
      (''value'', se_value e), (''list'', VBool (as_array (se_value e) \<noteq> None))]"

definition no_literal :: "(string \<times> json) list" where
  "no_literal = [(''name'', VString []), (''kind'', VString ''none''), (''value'', VNull)]"

definition file_fields :: "path \<Rightarrow> string \<Rightarrow> (string \<times> json) list" where
  "file_fields p pkg =
     [(''file'', VString (display_path p)), (''lang'', VString ''vjs''), (''pkg'', VString pkg),
      (''service'', VBool (is_service p))]"

text \<open>The cards of a program, one a literal; a program without any gets a card all the same.\<close>

definition program_cards :: "json list \<Rightarrow> path \<times> string \<times> program \<Rightarrow> json list" where
  "program_cards entries = (\<lambda>(p, pkg, prog).
     (let es = entries @ map (\<lambda>e. VObject (om_of_list (file_fields p pkg @ literal_fields e))) (pg_surface prog) in
      if list_all (\<lambda>v. as_str (value_index v ''file'') \<noteq> Some (display_path p)) es
      then es @ [VObject (om_of_list (file_fields p pkg @ no_literal))] else es))"

definition connector_fields :: "path \<Rightarrow> string \<Rightarrow> string \<Rightarrow> (string \<times> json) list" where
  "connector_fields p pkg driver =
     [(''file'', VString (display_path p)), (''lang'', VString ''vjs''), (''pkg'', VString pkg), (''service'', VBool False),
      (''connector'', VBool True), (''driver'', VString driver),
      (''driver_kind'', VString (case driver_kind driver of Some k \<Rightarrow> k | None \<Rightarrow> ''unknown''))]"

definition connector_cards :: "path \<times> string \<times> program \<Rightarrow> json list" where
  "connector_cards = (\<lambda>(p, pkg, prog).
     case pg_driver prog of
       None \<Rightarrow> []
     | Some driver \<Rightarrow>
         (if pg_surface prog = [] then [VObject (om_of_list (connector_fields p pkg driver @ no_literal))]
          else map (\<lambda>e. VObject (om_of_list (connector_fields p pkg driver @ literal_fields e))) (pg_surface prog)))"

definition surface_json :: "ctl_env \<Rightarrow> (json, 'e) result" where
  "surface_json C =
     rbind (flow_programs C) (\<lambda>flows.
     rbind (programs (ct_text C) (connector_files (ct_listing C) (ct_root C))) (\<lambda>conns.
       Ok (VArray (foldl program_cards [] flows @ concat (map connector_cards conns)))))"

section \<open>The graph\<close>

definition graph_connector :: "path \<times> string \<times> program \<Rightarrow> json option" where
  "graph_connector = (\<lambda>(p, pkg, prog).
     case pg_driver prog of
       None \<Rightarrow> None
     | Some driver \<Rightarrow>
         (let cfg = om_of_list (map (\<lambda>e. (se_name e, se_value e)) (pg_surface prog));
              kd = (case driver_kind driver of Some k \<Rightarrow> k | None \<Rightarrow> ''unknown'');
              subject = (case om_get cfg ''SUBJECT'' of Some v \<Rightarrow> as_str v | None \<Rightarrow> None);
              ports = (if starts_with kd ''source'' then
                         [(''subjects_out'', VArray [VString (case subject of Some s \<Rightarrow> s | None \<Rightarrow> ''vx.*'')])]
                       else case subject of Some s \<Rightarrow> [(''subjects_in'', VArray [VString s])] | None \<Rightarrow> []);
              refs = (if pg_secret_refs prog = [] then []
                      else [(''secret_refs'', VArray (map (\<lambda>(n, r). VObject (om_of_list [(''var'', VString n), (''ref'', VString r)]))
                         (pg_secret_refs prog)))])
          in Some (VObject (om_of_list ([(''name'', VString (file_stem p)), (''driver'', VString driver), (''kind'', VString kd)]
               @ ports @ refs)))))"

text \<open>The manifests in the order the directories list them.\<close>

definition connector_graph :: "ctl_env \<Rightarrow> (json list, 'e) result" where
  "connector_graph C =
     (let L = ct_listing C; dir = ct_root C in
      rbind (programs (ct_text C) (connectors_in L (dir @ [''connectors'']) ''default'' @
          concat (map (\<lambda>pkg. connectors_in L (dir @ [''packages'', pkg, ''connectors'']) pkg)
            (case L (dir @ [''packages'']) of Some pkgs \<Rightarrow> pkgs | None \<Rightarrow> []))))
        (\<lambda>ps. Ok (List.map_filter graph_connector ps)))"

definition graph_entry :: "path \<times> string \<times> program \<Rightarrow> json" where
  "graph_entry = (\<lambda>(p, pkg, prog).
     VObject (om_of_list
       [(''file'', VString (display_path p)), (''name'', VString (local_name p pkg)),
        (''sources'', VArray (case pg_source prog of Some s \<Rightarrow> [VString s] | None \<Rightarrow> [])),
        (''emits'', VArray (map VString (pg_emit_subjects prog))), (''invokes'', VArray (map VString (pg_invokes prog))),
        (''lang'', VString ''vjs''), (''pkg'', VString pkg)]))"

definition graph_json :: "ctl_env \<Rightarrow> (json, 'e) result" where
  "graph_json C =
     rbind (connector_graph C) (\<lambda>conns.
     rbind (flow_programs C) (\<lambda>ps.
       Ok (VObject (om_of_list
         [(''flows'', VArray (map graph_entry (filter (\<lambda>(p, _). \<not> is_service p) ps))),
          (''services'', VArray (map graph_entry (filter (\<lambda>(p, _). is_service p) ps))),
          (''connectors'', VArray conns)]))))"

section \<open>One flow\<close>

definition guarded_source :: "ctl_env \<Rightarrow> string \<Rightarrow> (path \<times> string, string) result" where
  "guarded_source C rel =
     (case guard_path (ct_canon C) (ct_root C) rel of
        None \<Rightarrow> Err ''path not allowed''
      | Some p \<Rightarrow> rbind (ct_read C p) (\<lambda>src. Ok (p, src)))"

definition parsed :: "ctl_env \<Rightarrow> string \<Rightarrow> (program, string) result" where
  "parsed C src = map_err (ct_perr C) (parse src)"

definition rules_json :: "ctl_env \<Rightarrow> string \<Rightarrow> (string, string) result" where
  "rules_json C rel =
     rbind (guarded_source C rel) (\<lambda>(p, src).
     rbind (parsed C src) (\<lambda>prog.
       Ok (cd_print (ct_codec C) (VObject (om_of_list [(''file'', VString rel),
         (''rules'', VArray (flow_rules (cd_print (ct_codec C)) prog src (pg_surface prog)))])))))"

text \<open>A run that is shown, not performed: with the store that holds no secret value.\<close>

definition show_run :: "ctl_env \<Rightarrow> path \<Rightarrow> program \<Rightarrow> json \<Rightarrow> (ctx, string) result" where
  "show_run C p prog ev =
     map_err (ct_run_error C)
       (fst (run (ct_world C) prog ev (with_secrets (ct_root C) (pkg_of_path p) (redacted (ct_get C)))))"

text \<open>\<open>here\<close> tells whether a file is there, \<open>fixture_error\<close> is the error of parsing one.\<close>

definition preview_json :: "ctl_env \<Rightarrow> (path \<Rightarrow> bool) \<Rightarrow> (string \<Rightarrow> string) \<Rightarrow> string \<Rightarrow> (string, string) result" where
  "preview_json C here fixture_error rel =
     rbind (guarded_source C rel) (\<lambda>(p, src).
     rbind (parsed C src) (\<lambda>prog.
       let fx = fixture_path_for p in
       if \<not> here fx then
         Ok (cd_print (ct_codec C) (VObject (om_of_list [(''fixture'', VNull), (''entries'', VObject []),
           (''emits'', VArray []), (''error'', VNull)])))
       else
         rbind (ct_read C fx) (\<lambda>body.
         case cd_parse (ct_codec C) body of
           None \<Rightarrow> Err (''fixture: '' @ fixture_error body)
         | Some event \<Rightarrow>
             (let answer = (\<lambda>shown error pipeline.
                    Ok (cd_print (ct_codec C) (VObject (om_of_list
                      [(''fixture'', VString (display_path fx)), (''input'', event), (''entries'', VObject []),
                       (''emits'', shown), (''pipeline'', pipeline), (''error'', error),
                       (''invokes'', VArray (map VString (pg_invokes prog)))]))))
              in case show_run C p prog event of
                   Ok c \<Rightarrow> answer (emits_json (emits c)) VNull (VObject (om_remove ''event'' (vars c)))
                 | Err e \<Rightarrow> answer (VArray []) (VString e) VNull
                 | Panic \<Rightarrow> Panic))))"

definition run_flow_on_input :: "ctl_env \<Rightarrow> string \<Rightarrow> json \<Rightarrow> (json, string) result" where
  "run_flow_on_input C rel input =
     rbind (guarded_source C rel) (\<lambda>(p, src).
     rbind (parsed C src) (\<lambda>prog.
     rbind (show_run C p prog input) (\<lambda>c. Ok (emits_json (emits c)))))"

text \<open>The flows that declare a tool: name of the tool, file, description.\<close>

definition tool_of :: "path \<times> string \<times> program \<Rightarrow> (string \<times> string \<times> string) option" where
  "tool_of = (\<lambda>(p, pkg, prog).
     map_option (\<lambda>desc.
       ((if pkg = ''default'' then ''flow_'' @ file_stem p else ''flow_'' @ pkg @ ''_'' @ file_stem p), display_path p, desc))
       (pg_tool prog))"

definition tool_flows :: "ctl_env \<Rightarrow> ((string \<times> string \<times> string) list, 'e) result" where
  "tool_flows C = rbind (flow_programs C) (\<lambda>ps. Ok (List.map_filter tool_of ps))"

definition qparam :: "string \<Rightarrow> string \<Rightarrow> string option" where
  "qparam url key =
     (case split_once url CHR ''?'' of
        None \<Rightarrow> None
      | Some (_, q) \<Rightarrow>
          map_option (\<lambda>(_, v). str_replace (str_replace v ''%2F'' ''/'') ''%2f'' ''/'')
            (List.find (\<lambda>(k, _). k = key) (List.map_filter (\<lambda>pair. split_once pair CHR ''='') (str_split q ''&''))))"

section \<open>Golden tests\<close>

text \<open>
  The event of an entry of the trace ring becomes a case with what the flow emits on it now.
  \<open>mkdir\<close> and \<open>write_err\<close> are the errors of the file system, with what a failed write leaves.
\<close>

definition traced_event :: "traces \<Rightarrow> string \<Rightarrow> nat \<Rightarrow> json option" where
  "traced_event T unit sq =
     (case List.find (\<lambda>e. as_u64 (value_index e ''seq'') = Some (int sq)) (ring_of T unit) of
        None \<Rightarrow> None
      | Some e \<Rightarrow> (case value_get e ''event'' of Some ev \<Rightarrow> (if ev = VNull then None else Some ev) | None \<Rightarrow> None))"

definition relative_to :: "path \<Rightarrow> path \<Rightarrow> path" where
  "relative_to dir p = (if take (length dir) p = dir then drop (length dir) p else p)"

definition golden_case :: "ctl_env \<Rightarrow> traces \<Rightarrow> string \<Rightarrow> nat \<Rightarrow> (path \<times> json \<times> json \<times> json, string) result" where
  "golden_case C T unit sq =
     (case traced_event T unit sq of
        None \<Rightarrow> Err ''no stored event for that flow/seq (ring rotated, or a non-JSON event)''
      | Some event \<Rightarrow>
          (case List.find (\<lambda>p. flow_proc_name p = unit) (map fst (vjs_files (ct_listing C) (ct_root C))) of
             None \<Rightarrow> Err ''flow not found for that unit''
           | Some p \<Rightarrow>
               (let rel = display_path (relative_to (ct_root C) p) in
                rbind (run_flow_on_input C rel event) (\<lambda>expected. Ok (p, VString rel, event, expected)))))"

definition golden_name :: "path \<Rightarrow> nat \<Rightarrow> string" where
  "golden_name p sq = ''curated_'' @ file_stem p @ ''_'' @ nat_str sq @ ''.json''"

definition golden_from_event ::
  "ctl_env \<Rightarrow> (json \<Rightarrow> string) \<Rightarrow> string option \<Rightarrow> (path \<Rightarrow> (string \<times> fentry) option) \<Rightarrow> traces \<Rightarrow> string \<Rightarrow> nat \<Rightarrow>
     (fs, json, string) stm" where
  "golden_from_event C pretty mkdir write_err T unit sq fs =
     (case golden_case C T unit sq of
        Err e \<Rightarrow> (Err e, fs)
      | Panic \<Rightarrow> (Panic, fs)
      | Ok (p, rel, event, expected) \<Rightarrow>
          (case mkdir of
             Some e \<Rightarrow> (Err e, fs)
           | None \<Rightarrow>
               (let target = ct_root C @ [''tests'', ''vjs'', golden_name p sq];
                    body = pretty (VObject (om_of_list [(''flow'', rel), (''input'', event), (''expect_emits'', expected)]))
                in case write_err target of
                     Some (e, left) \<Rightarrow> (Err e, fs(target := left))
                   | None \<Rightarrow>
                       (Ok (VObject (om_of_list [(''ok'', VBool True), (''case'', VString (golden_name p sq)), (''flow'', rel),
                          (''expect_emits'', num_json (case expected of VArray es \<Rightarrow> length es | _ \<Rightarrow> 0))])),
                        fs(target := Content body)))))"

end
