(* ===== verification/Agent.thy ===== *)
theory Agent
  imports Views Drivers
begin

text \<open>
  Flows and connectors written by an agent process, from \<open>core/src/main.rs\<close>: the prompt, the answer
  stripped of its fences, the checks on it, the name and a free file for it.
\<close>

section \<open>The agent process\<close>

text \<open>
  \<open>ag_run\<close> is the process: program, environment and prompt to how it ended, or the error of starting
  it. \<open>ag_write\<close> gives the error of a write, with what it leaves in the file.
\<close>

record agent_env =
  ag_env :: env
  ag_parent :: "(string \<times> string) list"
  ag_here :: "path \<Rightarrow> bool"
  ag_run :: "string \<Rightarrow> (string \<times> string) list \<Rightarrow> string \<Rightarrow> (child_exit, string) result"
  ag_write :: "path \<Rightarrow> (string \<times> fentry) option"

definition agent_command :: "agent_env \<Rightarrow> string" where
  "agent_command A = env_or (ag_env A) ''VEJAS_AGENT_CMD'' ''claude''"

definition agent_available :: "agent_env \<Rightarrow> bool" where
  "agent_available A =
     (if str_contains (agent_command A) ''/'' then ag_here A (path_of (agent_command A))
      else list_ex (\<lambda>dir. dir \<noteq> [] \<and> ag_here A (path_of dir @ [agent_command A]))
        (str_split (env_or (ag_env A) ''PATH'' []) '':''))"

definition fence :: string where "fence = [CHR 0x60, CHR 0x60, CHR 0x60]"

definition strip_fences :: "string \<Rightarrow> string" where
  "strip_fences code =
     (if starts_with code fence
      then trim (trim_end_matches (dropWhile (\<lambda>c. c = CHR 0x0A) (dropWhile (\<lambda>c. c \<noteq> CHR 0x0A) code)) fence)
      else code)"

definition ask_agent :: "agent_env \<Rightarrow> string \<Rightarrow> (string, string) result" where
  "ask_agent A prompt =
     rbind (map_err (\<lambda>e. ''agent spawn: '' @ e) (ag_run A (agent_command A) (child_environment (ag_parent A)) prompt)) (\<lambda>x.
       if \<not> exit_success x then Err (''agent: '' @ from_utf8_lossy (ce_stderr x))
       else Ok (strip_fences (trim (from_utf8_lossy (ce_stdout x))) @ [CHR 0x0A]))"

section \<open>Names and files\<close>

definition head_line :: "string \<Rightarrow> string" where
  "head_line code = (case str_lines code of l # _ \<Rightarrow> l | [] \<Rightarrow> [])"

definition plain_name :: "string \<Rightarrow> bool" where
  "plain_name s \<longleftrightarrow> s \<noteq> [] \<and> list_all (\<lambda>c. is_ascii_alphanumeric c \<or> c = CHR ''_'') s"

definition first_line_name :: "nat \<Rightarrow> string \<Rightarrow> string \<Rightarrow> string \<Rightarrow> string" where
  "first_line_name now code prefix fallback =
     (let made = fallback @ ''_'' @ nat_str (now mod 100000) in
      case strip_prefix prefix (head_line code) of
        None \<Rightarrow> made
      | Some s \<Rightarrow> if plain_name (trim s) then trim s else made)"

definition numbered :: "string \<Rightarrow> nat \<Rightarrow> string" where
  "numbered name n = name @ ''_'' @ nat_str n @ ''.vjs''"

lemma numbered_inj: "inj (numbered name)"
proof (rule injI)
  fix a b
  assume "numbered name a = numbered name b"
  then have "nat_str a = nat_str b" by (simp add: numbered_def)
  then show "a = b" by (metis digits_val_nat_str of_nat_eq_iff)
qed

lemma numbered_finite: "finite {k. n \<le> k \<and> numbered name k \<in> set names}"
  by (rule finite_subset [OF _ finite_vimageI [OF finite_set numbered_inj]]) auto

text \<open>The loop of \<open>unique_target\<close> over the names that are there.\<close>

function unique_from :: "string list \<Rightarrow> string \<Rightarrow> nat \<Rightarrow> string" where
  "unique_from names name n =
     (if numbered name n \<in> set names then unique_from names name (n + 1) else numbered name n)"
  by pat_completeness auto

termination
proof (relation "measure (\<lambda>(names, name, n). card {k. n \<le> k \<and> numbered name k \<in> set names})")
  fix names name n
  assume "numbered name n \<in> set names"
  then have "n \<in> {k. n \<le> k \<and> numbered name k \<in> set names}" by simp
  moreover have "n \<notin> {k. n + 1 \<le> k \<and> numbered name k \<in> set names}" by simp
  moreover have "{k. n + 1 \<le> k \<and> numbered name k \<in> set names} \<subseteq> {k. n \<le> k \<and> numbered name k \<in> set names}" by auto
  ultimately have "{k. n + 1 \<le> k \<and> numbered name k \<in> set names} \<subset> {k. n \<le> k \<and> numbered name k \<in> set names}"
    by (metis psubsetI)
  from psubset_card_mono [OF numbered_finite this]
  show "((names, name, n + 1), names, name, n) \<in> measure (\<lambda>(names, name, n). card {k. n \<le> k \<and> numbered name k \<in> set names})"
    by simp
qed simp

declare unique_from.simps [simp del]

definition unique_target :: "string list \<Rightarrow> string \<Rightarrow> string" where
  "unique_target names name = (if name @ ''.vjs'' \<in> set names then unique_from names name 2 else name @ ''.vjs'')"

text \<open>The names of a directory that are there; a name listed may be a link to nothing.\<close>

definition names_in :: "ctl_env \<Rightarrow> fs \<Rightarrow> path \<Rightarrow> string list" where
  "names_in C fs dir =
     filter (\<lambda>n. fs (dir @ [n]) \<noteq> Missing) (case ct_listing C dir of Some names \<Rightarrow> names | None \<Rightarrow> [])"

definition write_new :: "agent_env \<Rightarrow> ctl_env \<Rightarrow> path \<Rightarrow> string \<Rightarrow> string \<Rightarrow> (fs, path, string) stm" where
  "write_new A C dir name code fs =
     (let target = dir @ [unique_target (names_in C fs dir) name] in
      case ag_write A target of
        Some (e, left) \<Rightarrow> (Err e, fs(target := left))
      | None \<Rightarrow> (Ok target, fs(target := Content code)))"

section \<open>Generation\<close>

definition flow_prompt :: "spec list \<Rightarrow> string \<Rightarrow> string" where
  "flow_prompt specs prompt =
     str_replace (str_replace (str_replace contract_vjs ''{language}'' language_vjs)
       ''{existing}'' (str_join '', '' (map sp_name specs))) ''{task}'' prompt"

definition agent_flow :: "agent_env \<Rightarrow> ctl_env \<Rightarrow> string \<Rightarrow> (string, string) result" where
  "agent_flow A C prompt =
     (if \<not> agent_available A then Err no_agent_cli
      else
        rbind (scan_all (ct_listing C) (ct_mtime C) (ct_text C) (ct_root C)) (\<lambda>specs.
        rbind (ask_agent A (flow_prompt specs prompt)) (\<lambda>code.
        rbind (parsed C code) (\<lambda>prog.
          if pg_source prog = None then Err ''generated flow has no `source` declaration'' else Ok code))))"

definition generate_flow :: "agent_env \<Rightarrow> ctl_env \<Rightarrow> string \<Rightarrow> (fs, string, string) stm" where
  "generate_flow A C prompt =
     mbind (mlift (agent_flow A C prompt)) (\<lambda>code.
       let name = first_line_name (ct_now C) code ''# flow:'' ''flow'' in
       mbind (write_new A C (ct_root C @ [''flows'']) name code) (\<lambda>target.
         mret (cd_print (ct_codec C) (VObject (om_of_list [(''ok'', VBool True), (''file'', VString (display_path target)),
           (''flow'', VString name), (''lang'', VString ''vjs'')])))))"

definition connector_prompt :: "json list \<Rightarrow> string \<Rightarrow> string" where
  "connector_prompt conns prompt =
     str_replace (str_replace (str_replace contract_connector ''{drivers}''
         (str_join newline (map (\<lambda>(n, k, a). ''- '' @ n @ '' ('' @ k @ ''): '' @ a) catalog)))
       ''{existing}'' (str_join '', '' (List.map_filter (\<lambda>c. as_str (value_index c ''name'')) conns))) ''{task}'' prompt"

definition agent_connector :: "agent_env \<Rightarrow> ctl_env \<Rightarrow> string \<Rightarrow> (string \<times> string, string) result" where
  "agent_connector A C prompt =
     (if \<not> agent_available A then Err no_agent_cli
      else
        rbind (connector_graph C) (\<lambda>conns.
        rbind (ask_agent A (connector_prompt conns prompt)) (\<lambda>code.
        rbind (parsed C code) (\<lambda>prog.
          case pg_driver prog of
            None \<Rightarrow> Err ''generated connector has no `driver` declaration''
          | Some driver \<Rightarrow>
              if driver_kind driver = None then Err (''generated connector uses unknown driver '' @ ct_debug C driver)
              else Ok (code, driver)))))"

definition generate_connector :: "agent_env \<Rightarrow> ctl_env \<Rightarrow> string \<Rightarrow> (fs, string, string) stm" where
  "generate_connector A C prompt =
     mbind (mlift (agent_connector A C prompt)) (\<lambda>(code, driver).
       let name = first_line_name (ct_now C) code ''# connector:'' ''connector'' in
       mbind (write_new A C (ct_root C @ [''connectors'']) name code) (\<lambda>target.
         mret (cd_print (ct_codec C) (VObject (om_of_list [(''ok'', VBool True), (''file'', VString (display_path target)),
           (''connector'', VString name), (''driver'', VString driver)])))))"

section \<open>Facts\<close>

lemma unique_from_new: "unique_from names name n \<notin> set names"
  by (induction names name n rule: unique_from.induct) (subst unique_from.simps, simp)

lemma unique_target_new: "unique_target names name \<notin> set names"
  by (simp add: unique_target_def unique_from_new)

text \<open>A listing that shows every entry that is there.\<close>

definition lists_all :: "ctl_env \<Rightarrow> fs \<Rightarrow> path \<Rightarrow> bool" where
  "lists_all C fs dir \<longleftrightarrow>
     (\<forall>n. fs (dir @ [n]) \<noteq> Missing \<longrightarrow> n \<in> set (case ct_listing C dir of Some names \<Rightarrow> names | None \<Rightarrow> []))"

lemma write_new_is_new:
  assumes "lists_all C fs dir" and "write_new A C dir name code fs = (Ok target, fs')"
  shows "fs target = Missing \<and> fs' = fs(target := Content code)"
proof -
  from assms(2) have t: "target = dir @ [unique_target (names_in C fs dir) name]" and "fs' = fs(target := Content code)"
    by (auto simp: write_new_def Let_def split: option.splits)
  moreover have "fs target = Missing"
    using unique_target_new [of "names_in C fs dir" name] assms(1)
    by (auto simp: t names_in_def lists_all_def)
  ultimately show ?thesis by simp
qed

text \<open>
  A generated flow lands in a file that was not there before, next to everything that was, and it
  parses and has a source.
\<close>

theorem generated_flow_is_new:
  assumes "lists_all C fs (ct_root C @ [''flows''])" and "generate_flow A C prompt fs = (Ok out, fs')"
  shows "\<exists>target code prog. fs target = Missing \<and> fs' = fs(target := Content code) \<and> parse code = Ok prog \<and>
    pg_source prog \<noteq> None"
proof -
  from assms(2) obtain code target where a: "agent_flow A C prompt = Ok code"
    and w: "write_new A C (ct_root C @ [''flows'']) (first_line_name (ct_now C) code ''# flow:'' ''flow'') code fs = (Ok target, fs')"
    by (auto simp: generate_flow_def mbind_def Let_def split: result.splits prod.splits)
  from a obtain prog where "parse code = Ok prog" "pg_source prog \<noteq> None"
    by (auto simp: agent_flow_def parsed_def result_simps split: if_splits)
  with write_new_is_new [OF assms(1) w] show ?thesis by blast
qed

end
