(* ===== verification/Sap.thy ===== *)
theory Sap
  imports Dlq "HOL-Library.Multiset"
begin

text \<open>
  The SAP connector, \<open>connectors/sap-rfc/src/main.rs\<close>: strings in UTF-16, errors as JSON, setting
  and reading parameters, the operations of the request/reply protocol, IDocs sent in a
  transaction, the main loop with its reconnect, and the server side. The RFC library is not in the
  repository: each of its functions is a call in a log, oldest first, and what it answers is any
  function of the calls made so far.
\<close>

section \<open>UTF-16\<close>

type_synonym units = "16 word list"

definition units_of_cp :: "int \<Rightarrow> units" where
  "units_of_cp p =
     (if p < 65536 then [word_of_int p]
      else [word_of_int (55296 + (p - 65536) div 1024), word_of_int (56320 + (p - 65536) mod 1024)])"

definition encode_utf16 :: "string \<Rightarrow> units" where
  "encode_utf16 s = concat (map (\<lambda>c. units_of_cp (code_point c)) (str_chars s))"

definition byte_char :: "int \<Rightarrow> char" where
  "byte_char n = char_of (nat n)"

definition utf8_of_cp :: "int \<Rightarrow> string" where
  "utf8_of_cp p =
     (if p < 128 then [byte_char p]
      else if p < 2048 then [byte_char (192 + p div 64), byte_char (128 + p mod 64)]
      else if p < 65536 then [byte_char (224 + p div 4096), byte_char (128 + p div 64 mod 64), byte_char (128 + p mod 64)]
      else [byte_char (240 + p div 262144), byte_char (128 + p div 4096 mod 64), byte_char (128 + p div 64 mod 64),
            byte_char (128 + p mod 64)])"

text \<open>\<open>String::from_utf16_lossy\<close>: a surrogate without its partner is the replacement character.\<close>

fun decode_utf16 :: "units \<Rightarrow> string" where
  "decode_utf16 [] = []"
| "decode_utf16 (u # us) =
     (if 55296 \<le> uint u \<and> uint u < 56320 then
        (case us of
           v # vs \<Rightarrow>
             if 56320 \<le> uint v \<and> uint v < 57344 then
               utf8_of_cp (65536 + (uint u - 55296) * 1024 + (uint v - 56320)) @ decode_utf16 vs
             else replacement @ decode_utf16 us
         | [] \<Rightarrow> replacement)
      else if 56320 \<le> uint u \<and> uint u < 57344 then replacement @ decode_utf16 us
      else utf8_of_cp (uint u) @ decode_utf16 us)"

definition to_uc :: "string \<Rightarrow> units" where
  "to_uc s = encode_utf16 s @ [0]"

definition from_uc :: "units \<Rightarrow> string" where
  "from_uc buf = trim_end (decode_utf16 (takeWhile (\<lambda>u. u \<noteq> 0) buf))"

section \<open>The library\<close>

type_synonym rfc_handle = nat

record rfc_error =
  er_code :: int
  er_group :: int
  er_key :: units
  er_message :: units
  er_class :: units
  er_type :: units
  er_number :: units
  er_vs :: "units list"

record rfc_param =
  pa_name :: units
  pa_type :: nat
  pa_direction :: nat
  pa_length :: nat
  pa_decimals :: nat
  pa_optional :: bool
  pa_text :: units

datatype rfc_call =
    ROpen "(units \<times> units) list"
  | RClose rfc_handle
  | RPing rfc_handle
  | RFuncDesc rfc_handle units
  | RCreateFunc rfc_handle
  | RDestroyFunc rfc_handle
  | RSetString rfc_handle units units nat
  | RGetTable rfc_handle units
  | RGetStructure rfc_handle units
  | RAppendRow rfc_handle
  | RInvoke rfc_handle rfc_handle
  | RNewTid rfc_handle
  | RCreateTrans rfc_handle units
  | RInvokeTrans rfc_handle rfc_handle
  | RSubmit rfc_handle
  | RConfirm rfc_handle
  | RDestroyTrans rfc_handle
  | RParamCount rfc_handle
  | RParamDesc rfc_handle nat
  | RProbe rfc_handle units
  | RGetString rfc_handle units nat
  | RRowCount rfc_handle
  | RMoveTo rfc_handle nat
  | RCurrentRow rfc_handle
  | RDescribeType rfc_handle
  | RFieldCount rfc_handle
  | RFieldDesc rfc_handle nat
  | RDescribeFunction rfc_handle
  | RFunctionName rfc_handle
  | RInstall rfc_handle
  | RRegister "(units \<times> units) list"
  | RListen rfc_handle

text \<open>
  What a call answers: nothing but a return code (the one its error carries), a handle (a null one is the error), a number,
  text, or the description of a parameter. Probing a string gives the length it needs whatever the
  return code.
\<close>

record sdk =
  sd_rc :: "rfc_call list \<Rightarrow> rfc_call \<Rightarrow> rfc_error option"
  sd_handle :: "rfc_call list \<Rightarrow> rfc_call \<Rightarrow> rfc_error + rfc_handle"
  sd_num :: "rfc_call list \<Rightarrow> rfc_call \<Rightarrow> rfc_error + nat"
  sd_probe :: "rfc_call list \<Rightarrow> rfc_call \<Rightarrow> nat \<times> rfc_error option"
  sd_units :: "rfc_call list \<Rightarrow> rfc_call \<Rightarrow> rfc_error + units"
  sd_param :: "rfc_call list \<Rightarrow> rfc_call \<Rightarrow> rfc_error + rfc_param"

type_synonym 'a rfc = "(rfc_call list, 'a, json) stm"

definition i64_json :: "int \<Rightarrow> json" where
  "i64_json n = VNumber (number_from_i64 n)"

definition error_value :: "string \<Rightarrow> rfc_error \<Rightarrow> json" where
  "error_value stage e =
     VObject (om_of_list ([(''ok'', VBool False), (''stage'', VString stage), (''code'', i64_json (er_code e)),
       (''group'', i64_json (er_group e)), (''key'', VString (from_uc (er_key e))),
       (''message'', VString (from_uc (er_message e)))] @
       (if from_uc (er_class e) = [] then []
        else [(''abap_msg'', VObject (om_of_list ([(''class'', VString (from_uc (er_class e))),
          (''type'', VString (from_uc (er_type e))), (''number'', VString (from_uc (er_number e)))] @
          zip [''v1'', ''v2'', ''v3'', ''v4''] (map (\<lambda>u. VString (from_uc u)) (er_vs e)))))])))"

definition asked :: "(rfc_call list \<Rightarrow> rfc_call \<Rightarrow> rfc_error + 'a) \<Rightarrow> rfc_call \<Rightarrow> string \<Rightarrow> 'a rfc" where
  "asked ans c stage h = (case ans h c of Inl e \<Rightarrow> Err (error_value stage e) | Inr a \<Rightarrow> Ok a, h @ [c])"

definition ask_rc :: "sdk \<Rightarrow> rfc_call \<Rightarrow> string \<Rightarrow> unit rfc" where
  "ask_rc S = asked (\<lambda>h c. case sd_rc S h c of None \<Rightarrow> Inr () | Some e \<Rightarrow> Inl e)"

text \<open>A call whose return code is not looked at.\<close>

definition tell :: "rfc_call \<Rightarrow> unit rfc" where
  "tell c h = (Ok (), h @ [c])"

section \<open>Reading\<close>

definition buffer_too_small :: int where "buffer_too_small = 23"

definition get_string :: "sdk \<Rightarrow> rfc_handle \<Rightarrow> string \<Rightarrow> string rfc" where
  "get_string S c field =
     (\<lambda>h. let probe = RProbe c (to_uc field); stage = ''get_string:'' @ field in
      case sd_probe S h probe of (needed, failed) \<Rightarrow>
        if (case failed of Some e \<Rightarrow> er_code e \<noteq> buffer_too_small | None \<Rightarrow> False)
        then (Err (error_value stage (the failed)), h @ [probe])
        else mbind (asked (sd_units S) (RGetString c (to_uc field) (needed + 2)) stage)
               (\<lambda>u. mret (from_uc (take (needed + 2) u))) (h @ [probe]))"

fun field_list :: "sdk \<Rightarrow> rfc_handle \<Rightarrow> nat list \<Rightarrow> string list rfc" where
  "field_list S td [] = mret []"
| "field_list S td (i # is) =
     mbind (asked (sd_units S) (RFieldDesc td i) ''get_field_desc'') (\<lambda>u.
     mbind (field_list S td is) (\<lambda>rest. mret (from_uc u # rest)))"

definition field_names :: "sdk \<Rightarrow> rfc_handle \<Rightarrow> string list rfc" where
  "field_names S c =
     mbind (asked (sd_handle S) (RDescribeType c) ''describe_type'') (\<lambda>td.
     mbind (asked (sd_num S) (RFieldCount td) ''get_field_count'') (\<lambda>n. field_list S td [0..<n]))"

text \<open>A field that cannot be read as a string is null.\<close>

definition string_or_null :: "sdk \<Rightarrow> rfc_handle \<Rightarrow> string \<Rightarrow> json rfc" where
  "string_or_null S c f h =
     (case get_string S c f h of (Ok s, h') \<Rightarrow> (Ok (VString s), h') | (Err _, h') \<Rightarrow> (Ok VNull, h') | (Panic, h') \<Rightarrow> (Panic, h'))"

fun read_columns :: "sdk \<Rightarrow> rfc_handle \<Rightarrow> string list \<Rightarrow> json omap \<Rightarrow> json rfc" where
  "read_columns S c [] m = mret (VObject m)"
| "read_columns S c (f # fs) m = mbind (string_or_null S c f) (\<lambda>v. read_columns S c fs (om_insert f v m))"

definition read_structure :: "sdk \<Rightarrow> rfc_handle \<Rightarrow> json rfc" where
  "read_structure S c = mbind (field_names S c) (\<lambda>cols. read_columns S c cols [])"

definition marshal_structure :: "sdk \<Rightarrow> rfc_handle \<Rightarrow> string \<Rightarrow> json rfc" where
  "marshal_structure S c name =
     mbind (asked (sd_handle S) (RGetStructure c (to_uc name)) (''get_structure:'' @ name)) (read_structure S)"

text \<open>The rows of a table, up to the limit; a row that is not there ends the reading.\<close>

fun read_rows :: "sdk \<Rightarrow> rfc_handle \<Rightarrow> string \<Rightarrow> string list \<Rightarrow> nat list \<Rightarrow> json list rfc" where
  "read_rows S t name cols [] = mret []"
| "read_rows S t name cols (r # rs) =
     mbind (ask_rc S (RMoveTo t r) (''move_to:'' @ name)) (\<lambda>_ h.
       case sd_handle S h (RCurrentRow t) of
         Inr row \<Rightarrow>
           mbind (read_columns S row cols []) (\<lambda>v.
           mbind (read_rows S t name cols rs) (\<lambda>vs. mret (v # vs))) (h @ [RCurrentRow t])
       | _ \<Rightarrow> (Ok [], h @ [RCurrentRow t]))"

definition first_row :: "sdk \<Rightarrow> rfc_handle \<Rightarrow> string \<Rightarrow> rfc_handle rfc" where
  "first_row S t name =
     mbind (ask_rc S (RMoveTo t 0) (''move_to:'' @ name)) (\<lambda>_ h.
       (case sd_handle S h (RCurrentRow t) of
          Inr row \<Rightarrow> Ok row
        | _ \<Rightarrow> Err (VObject (om_of_list [(''ok'', VBool False), (''stage'', VString (''get_current_row:'' @ name))])),
        h @ [RCurrentRow t]))"

definition marshal_table :: "sdk \<Rightarrow> rfc_handle \<Rightarrow> string \<Rightarrow> nat \<Rightarrow> json rfc" where
  "marshal_table S c name max_rows =
     mbind (asked (sd_handle S) (RGetTable c (to_uc name)) (''get_table:'' @ name)) (\<lambda>t.
     mbind (asked (sd_num S) (RRowCount t) (''get_row_count:'' @ name)) (\<lambda>n.
       if n = 0 then mret (VArray [])
       else
         mbind (first_row S t name) (\<lambda>row.
         mbind (field_names S row) (\<lambda>cols.
         mbind (read_rows S t name cols [0..<min n max_rows]) (\<lambda>rows.
           mret (VObject (om_of_list [(''rows'', VArray rows), (''total'', num_json n),
             (''returned'', num_json (min n max_rows))])))))))"

section \<open>Setting\<close>

definition set_scalar :: "sdk \<Rightarrow> rfc_handle \<Rightarrow> string \<Rightarrow> string \<Rightarrow> unit rfc" where
  "set_scalar S c name val =
     ask_rc S (RSetString c (to_uc name) (to_uc val) (length (to_uc val) - 1)) (''set_string:'' @ name)"

fun set_field :: "sdk \<Rightarrow> codec \<Rightarrow> rfc_handle \<Rightarrow> string \<Rightarrow> json \<Rightarrow> unit rfc"
  and set_rows :: "sdk \<Rightarrow> codec \<Rightarrow> rfc_handle \<Rightarrow> string \<Rightarrow> json list \<Rightarrow> unit rfc"
  and set_fields :: "sdk \<Rightarrow> codec \<Rightarrow> rfc_handle \<Rightarrow> (string \<times> json) list \<Rightarrow> unit rfc"
where
  "set_field S C c name (VArray rows) =
     mbind (asked (sd_handle S) (RGetTable c (to_uc name)) (''get_table:'' @ name)) (\<lambda>t. set_rows S C t name rows)"
| "set_field S C c name (VObject m) =
     mbind (asked (sd_handle S) (RGetStructure c (to_uc name)) (''get_structure:'' @ name)) (\<lambda>st. set_fields S C st m)"
| "set_field S C c name (VString s) = set_scalar S c name s"
| "set_field S C c name VNull = set_scalar S c name (cd_print C VNull)"
| "set_field S C c name (VBool b) = set_scalar S c name (cd_print C (VBool b))"
| "set_field S C c name (VNumber n) = set_scalar S c name (cd_print C (VNumber n))"
| "set_rows S C t name [] = mret ()"
| "set_rows S C t name (VObject m # rows) =
     mbind (asked (sd_handle S) (RAppendRow t) (''append_row:'' @ name)) (\<lambda>rh.
     mbind (set_fields S C rh m) (\<lambda>_. set_rows S C t name rows))"
| "set_rows S C t name (_ # rows) = set_rows S C t name rows"
| "set_fields S C c [] = mret ()"
| "set_fields S C c ((k, v) # m) = mbind (set_field S C c k v) (\<lambda>_. set_fields S C c m)"

section \<open>Operations\<close>

definition rfc_import :: nat where "rfc_import = 1"
definition rfc_export :: nat where "rfc_export = 2"
definition rfc_changing :: nat where "rfc_changing = 3"
definition rfc_tables :: nat where "rfc_tables = 7"
definition rfctype_structure :: nat where "rfctype_structure = 17"

definition dir_name :: "nat \<Rightarrow> string" where
  "dir_name d =
     (if d = rfc_import then ''import'' else if d = rfc_export then ''export'' else if d = rfc_changing then ''changing''
      else if d = rfc_tables then ''tables'' else ''?'')"

definition type_name :: "nat \<Rightarrow> string" where
  "type_name t =
     (case map_of [(0, ''CHAR''), (1, ''DATE''), (2, ''BCD''), (3, ''TIME''), (4, ''BYTE''), (5, ''TABLE''), (6, ''NUM''),
         (7, ''FLOAT''), (8, ''INT''), (9, ''INT2''), (10, ''INT1''), (17, ''STRUCTURE''), (23, ''DECF16''), (24, ''DECF34''),
         (29, ''STRING''), (30, ''XSTRING''), (31, ''INT8''), (32, ''UTCLONG'')] t of
        Some n \<Rightarrow> n
      | None \<Rightarrow> ''TYPE'' @ nat_str t)"

definition op_ping :: "sdk \<Rightarrow> rfc_handle \<Rightarrow> json rfc" where
  "op_ping S conn = mbind (ask_rc S (RPing conn) ''ping'') (\<lambda>_. mret (VObject [(''ok'', VBool True)]))"

fun param_list :: "sdk \<Rightarrow> rfc_handle \<Rightarrow> nat list \<Rightarrow> rfc_param list rfc" where
  "param_list S d [] = mret []"
| "param_list S d (i # is) =
     mbind (asked (sd_param S) (RParamDesc d i) ''get_param_desc'') (\<lambda>p.
     mbind (param_list S d is) (\<lambda>ps. mret (p # ps)))"

definition parameters :: "sdk \<Rightarrow> rfc_handle \<Rightarrow> rfc_param list rfc" where
  "parameters S d = mbind (asked (sd_num S) (RParamCount d) ''get_param_count'') (\<lambda>n. param_list S d [0..<n])"

definition func_desc :: "sdk \<Rightarrow> rfc_handle \<Rightarrow> string \<Rightarrow> rfc_handle rfc" where
  "func_desc S conn func = asked (sd_handle S) (RFuncDesc conn (to_uc func)) ''get_func_desc''"

definition missing_func :: json where
  "missing_func =
     VObject (om_of_list [(''ok'', VBool False), (''error'', VString (''missing '' @ [CHR 0x27] @ ''func'' @ [CHR 0x27]))])"

definition req_text :: "json \<Rightarrow> string \<Rightarrow> string option" where
  "req_text req k = (case value_get req k of Some v \<Rightarrow> as_str v | None \<Rightarrow> None)"

definition param_value :: "rfc_param \<Rightarrow> json" where
  "param_value p =
     VObject (om_of_list [(''name'', VString (from_uc (pa_name p))), (''direction'', VString (dir_name (pa_direction p))),
       (''type'', VString (type_name (pa_type p))), (''length'', num_json (pa_length p)), (''decimals'', num_json (pa_decimals p)),
       (''optional'', VBool (pa_optional p)), (''text'', VString (from_uc (pa_text p)))])"

definition op_describe :: "sdk \<Rightarrow> rfc_handle \<Rightarrow> json \<Rightarrow> json rfc" where
  "op_describe S conn req =
     (case req_text req ''func'' of
        None \<Rightarrow> mfail missing_func
      | Some func \<Rightarrow>
          mbind (func_desc S conn func) (\<lambda>d. mbind (parameters S d) (\<lambda>ps.
            mret (VObject (om_of_list [(''ok'', VBool True), (''func'', VString func),
              (''parameters'', VArray (map param_value ps))])))))"

text \<open>Whatever way the work on a container ends, the container is destroyed after it.\<close>

definition with_func :: "rfc_handle \<Rightarrow> 'a rfc \<Rightarrow> 'a rfc" where
  "with_func f m h = (case m h of (r, h') \<Rightarrow> (r, h' @ [RDestroyFunc f]))"

definition with_trans :: "rfc_handle \<Rightarrow> 'a rfc \<Rightarrow> 'a rfc" where
  "with_trans t m h = (case m h of (r, h') \<Rightarrow> (r, h' @ [RDestroyTrans t]))"

definition read_output :: "sdk \<Rightarrow> rfc_handle \<Rightarrow> rfc_param \<Rightarrow> json rfc" where
  "read_output S f p =
     (if pa_type p = rfctype_structure then
        (\<lambda>h. case marshal_structure S f (from_uc (pa_name p)) h of
               (Ok v, h') \<Rightarrow> (Ok v, h') | (Err _, h') \<Rightarrow> (Ok VNull, h') | (Panic, h') \<Rightarrow> (Panic, h'))
      else string_or_null S f (from_uc (pa_name p)))"

fun marshal_outputs :: "sdk \<Rightarrow> rfc_handle \<Rightarrow> nat \<Rightarrow> rfc_param list \<Rightarrow> json omap \<Rightarrow> json omap \<Rightarrow> (json omap \<times> json omap) rfc" where
  "marshal_outputs S f max_rows [] exports tables = mret (exports, tables)"
| "marshal_outputs S f max_rows (p # ps) exports tables =
     (if pa_direction p = rfc_tables then
        mbind (marshal_table S f (from_uc (pa_name p)) max_rows) (\<lambda>v.
          marshal_outputs S f max_rows ps exports (om_insert (from_uc (pa_name p)) v tables))
      else if pa_direction p = rfc_export \<or> pa_direction p = rfc_changing then
        mbind (read_output S f p) (\<lambda>v. marshal_outputs S f max_rows ps (om_insert (from_uc (pa_name p)) v exports) tables)
      else marshal_outputs S f max_rows ps exports tables)"

definition call_body :: "sdk \<Rightarrow> codec \<Rightarrow> rfc_handle \<Rightarrow> rfc_handle \<Rightarrow> rfc_handle \<Rightarrow> string \<Rightarrow> json \<Rightarrow> json rfc" where
  "call_body S C conn d f func req =
     mbind (case value_get req ''import'' of Some (VObject m) \<Rightarrow> set_fields S C f m | _ \<Rightarrow> mret ()) (\<lambda>_.
     mbind (ask_rc S (RInvoke conn f) ''invoke'') (\<lambda>_.
     mbind (parameters S d) (\<lambda>ps.
     mbind (marshal_outputs S f (case value_get req ''max_rows'' of
         Some v \<Rightarrow> (case as_u64 v of Some n \<Rightarrow> nat n | None \<Rightarrow> 1000) | None \<Rightarrow> 1000) ps [] []) (\<lambda>(exports, tables).
       mret (VObject (om_of_list [(''ok'', VBool True), (''func'', VString func), (''export'', VObject exports),
         (''tables'', VObject tables)]))))))"

definition op_call :: "sdk \<Rightarrow> codec \<Rightarrow> rfc_handle \<Rightarrow> json \<Rightarrow> json rfc" where
  "op_call S C conn req =
     (case req_text req ''func'' of
        None \<Rightarrow> mfail missing_func
      | Some func \<Rightarrow>
          mbind (func_desc S conn func) (\<lambda>d.
          mbind (asked (sd_handle S) (RCreateFunc d) ''create_func'') (\<lambda>f.
            with_func f (call_body S C conn d f func req))))"

text \<open>
  The transaction identifier: 24 characters of the caller's, each cut to 16 bits, or one the
  library makes; the rest of its 25 units is zero.
\<close>

definition given_tid :: "string \<Rightarrow> units" where
  "given_tid t = take 25 (map (\<lambda>c. word_of_int (code_point c)) (take 24 (str_chars t)) @ replicate 25 0)"

definition choose_tid :: "sdk \<Rightarrow> rfc_handle \<Rightarrow> json \<Rightarrow> units rfc" where
  "choose_tid S conn req =
     (case req_text req ''tid'' of
        Some t \<Rightarrow> mret (given_tid t)
      | None \<Rightarrow> mbind (asked (sd_units S) (RNewTid conn) ''get_transaction_id'') (\<lambda>u. mret (take 25 (u @ replicate 25 0))))"

definition idoc_function :: string where "idoc_function = ''IDOC_INBOUND_ASYNCHRONOUS''"

definition set_idoc :: "sdk \<Rightarrow> codec \<Rightarrow> rfc_handle \<Rightarrow> json \<Rightarrow> unit rfc" where
  "set_idoc S C f req =
     mbind (case value_get req ''control'' of
              Some ctrl \<Rightarrow> set_field S C f ''IDOC_CONTROL_REC_40'' (VArray [ctrl]) | None \<Rightarrow> mret ()) (\<lambda>_.
       case value_get req ''data'' of Some d \<Rightarrow> set_field S C f ''IDOC_DATA_REC_40'' d | None \<Rightarrow> mret ())"

definition transact :: "sdk \<Rightarrow> rfc_handle \<Rightarrow> rfc_handle \<Rightarrow> units \<Rightarrow> json rfc" where
  "transact S th f tid =
     mbind (ask_rc S (RInvokeTrans th f) ''invoke_in_transaction'') (\<lambda>_.
     mbind (ask_rc S (RSubmit th) ''submit_transaction'') (\<lambda>_.
     mbind (ask_rc S (RConfirm th) ''confirm_transaction'') (\<lambda>_.
       mret (VObject (om_of_list [(''ok'', VBool True), (''func'', VString idoc_function), (''tid'', VString (from_uc tid))])))))"

definition op_send_idoc :: "sdk \<Rightarrow> codec \<Rightarrow> rfc_handle \<Rightarrow> json \<Rightarrow> json rfc" where
  "op_send_idoc S C conn req =
     mbind (func_desc S conn idoc_function) (\<lambda>d.
     mbind (asked (sd_handle S) (RCreateFunc d) ''create_func'') (\<lambda>f.
       with_func f (
         mbind (set_idoc S C f req) (\<lambda>_.
         mbind (choose_tid S conn req) (\<lambda>tid.
         mbind (asked (sd_handle S) (RCreateTrans conn tid) ''create_transaction'') (\<lambda>th.
           with_trans th (transact S th f tid)))))))"

definition surface_functions :: "json \<Rightarrow> json" where
  "surface_functions res =
     (case res of
        VObject m \<Rightarrow>
          (case om_get m ''tables'' of
             Some (VObject t) \<Rightarrow> (case om_get t ''FUNCTIONS'' of Some fs \<Rightarrow> VObject (om_insert ''functions'' fs m) | None \<Rightarrow> res)
           | _ \<Rightarrow> res)
      | _ \<Rightarrow> res)"

definition search_request :: "json \<Rightarrow> json" where
  "search_request req =
     VObject (om_of_list [(''func'', VString ''RFC_FUNCTION_SEARCH''),
       (''import'', VObject [(''FUNCNAME'', VString (case req_text req ''pattern'' of Some p \<Rightarrow> p | None \<Rightarrow> ''*''))]),
       (''max_rows'', case value_get req ''max_rows'' of Some v \<Rightarrow> v | None \<Rightarrow> num_json 200)])"

definition op_list :: "sdk \<Rightarrow> codec \<Rightarrow> rfc_handle \<Rightarrow> json \<Rightarrow> json rfc" where
  "op_list S C conn req h =
     (case op_call S C conn (search_request req) h of
        (Ok v, h') \<Rightarrow> (Ok (surface_functions v), h')
      | (Err v, h') \<Rightarrow> (Err (surface_functions v), h')
      | (Panic, h') \<Rightarrow> (Panic, h'))"

section \<open>The request loop\<close>

text \<open>An operation answers a value whether it succeeded or not.\<close>

definition answered :: "json rfc \<Rightarrow> rfc_call list \<Rightarrow> json \<times> rfc_call list" where
  "answered m h = (case m h of (Ok v, h') \<Rightarrow> (v, h') | (Err v, h') \<Rightarrow> (v, h') | (Panic, h') \<Rightarrow> (VNull, h'))"

definition dispatch_op :: "sdk \<Rightarrow> codec \<Rightarrow> rfc_handle \<Rightarrow> string \<Rightarrow> json \<Rightarrow> json rfc" where
  "dispatch_op S C conn opn req =
     (if opn = ''ping'' then op_ping S conn
      else if opn = ''describe'' then op_describe S conn req
      else if opn = ''list'' then op_list S C conn req
      else if opn = ''call'' then op_call S C conn req
      else if opn = ''send_idoc'' then op_send_idoc S C conn req
      else mfail (VObject (om_of_list [(''ok'', VBool False), (''error'', VString (''unknown op: '' @ opn))])))"

definition lost_codes :: "int list" where "lost_codes = [1, 6, 13]"

definition connection_lost :: "json \<Rightarrow> bool" where
  "connection_lost out \<longleftrightarrow>
     value_get out ''ok'' = Some (VBool False) \<and>
     (case value_get out ''code'' of
        Some (VNumber n) \<Rightarrow> (case number_as_i64 n of Some c \<Rightarrow> c \<in> set lost_codes | None \<Rightarrow> False)
      | _ \<Rightarrow> False)"

record sap_env =
  sp_sdk :: sdk
  sp_codec :: codec
  sp_json_error :: "string \<Rightarrow> string"
  sp_var :: "string \<Rightarrow> string option"
  sp_idle :: "rfc_call list \<Rightarrow> bool"
  sp_stdout :: "rfc_call list \<Rightarrow> bool"
  sp_calls :: "rfc_call list \<Rightarrow> rfc_handle list"

definition var_or :: "sap_env \<Rightarrow> string \<Rightarrow> string \<Rightarrow> string" where
  "var_or E k d = (case sp_var E k of Some v \<Rightarrow> v | None \<Rightarrow> d)"

definition open_connection :: "sap_env \<Rightarrow> rfc_handle rfc" where
  "open_connection E =
     asked (sd_handle (sp_sdk E)) (ROpen (map (\<lambda>(k, v). (to_uc k, to_uc v))
       [(''ashost'', var_or E ''SAP_ASHOST'' ''localhost''), (''sysnr'', var_or E ''SAP_SYSNR'' ''00''),
        (''client'', var_or E ''SAP_CLIENT'' ''001''), (''user'', var_or E ''SAP_USER'' []),
        (''passwd'', var_or E ''SAP_PASSWD'' []), (''lang'', var_or E ''SAP_LANG'' ''EN'')])) ''open''"

definition reopen :: "sap_env \<Rightarrow> rfc_handle \<Rightarrow> rfc_handle rfc" where
  "reopen E old = mbind (tell (RClose old)) (\<lambda>_. open_connection E)"

definition connection_alive :: "sap_env \<Rightarrow> rfc_handle \<Rightarrow> rfc_call list \<Rightarrow> bool \<times> rfc_call list" where
  "connection_alive E conn h = (sd_rc (sp_sdk E) h (RPing conn) = None, h @ [RPing conn])"

definition with_id :: "json \<Rightarrow> json \<Rightarrow> json" where
  "with_id req out =
     (case (value_get req ''id'', out) of
        (Some i, VObject m) \<Rightarrow> VObject (om_insert ''id'' i m)
      | _ \<Rightarrow> out)"

record sap_state =
  ss_log :: "rfc_call list"
  ss_replies :: "json list"
  ss_conn :: rfc_handle
  ss_status :: "json list"

text \<open>A call that finds the conversation gone is replayed once on a new connection.\<close>

definition run_op :: "sap_env \<Rightarrow> string \<Rightarrow> json \<Rightarrow> rfc_handle \<Rightarrow> rfc_call list \<Rightarrow> json \<times> rfc_handle \<times> rfc_call list" where
  "run_op E opn req conn h =
     (case answered (dispatch_op (sp_sdk E) (sp_codec E) conn opn req) h of (out, h1) \<Rightarrow>
        if connection_lost out then
          (case reopen E conn h1 of
             (Ok c, h2) \<Rightarrow> (case answered (dispatch_op (sp_sdk E) (sp_codec E) c opn req) h2 of (out', h3) \<Rightarrow> (out', c, h3))
           | (Err je, h2) \<Rightarrow> (je, conn, h2)
           | (Panic, h2) \<Rightarrow> (VNull, conn, h2))
        else (out, conn, h1))"

definition say :: "json \<Rightarrow> sap_state \<Rightarrow> sap_state" where
  "say v s = s\<lparr>ss_replies := ss_replies s @ [v]\<rparr>"

text \<open>The connection a request runs on: the one at hand, or a new one if it idled and is gone.\<close>

definition ready_connection :: "sap_env \<Rightarrow> rfc_handle \<Rightarrow> rfc_handle rfc" where
  "ready_connection E conn h =
     (if sp_idle E h then
        (case connection_alive E conn h of (alive, h1) \<Rightarrow> if alive then (Ok conn, h1) else reopen E conn h1)
      else (Ok conn, h))"

definition serve_request :: "sap_env \<Rightarrow> json \<Rightarrow> sap_state \<Rightarrow> sap_state" where
  "serve_request E req s =
     (let opn = (case req_text req ''op'' of Some t \<Rightarrow> t | None \<Rightarrow> []) in
      if sp_var E ''SAP_RFC_TEST_HOOKS'' = Some ''1'' \<and> opn = ''_drop'' then
        say (VObject (om_of_list [(''ok'', VBool True), (''dropped'', VBool True)])) (s\<lparr>ss_log := ss_log s @ [RClose (ss_conn s)]\<rparr>)
      else
        (case ready_connection E (ss_conn s) (ss_log s) of
           (Ok conn, h1) \<Rightarrow>
             (case run_op E opn req conn h1 of (out, conn', h2) \<Rightarrow>
                say (with_id req out) (s\<lparr>ss_log := h2, ss_conn := conn'\<rparr>))
         | (Err je, h1) \<Rightarrow> say (with_id req je) (s\<lparr>ss_log := h1\<rparr>)
         | (Panic, h1) \<Rightarrow> s\<lparr>ss_log := h1\<rparr>))"

definition serve_line :: "sap_env \<Rightarrow> string \<Rightarrow> sap_state \<Rightarrow> sap_state" where
  "serve_line E l s =
     (if trim l = [] then s
      else (case cd_parse (sp_codec E) (trim l) of
              None \<Rightarrow> say (VObject (om_of_list [(''ok'', VBool False),
                (''error'', VString (''bad json: '' @ sp_json_error E (trim l)))])) s
            | Some req \<Rightarrow> serve_request E req s))"

text \<open>The client mode of \<open>main\<close>, over the lines of the input; its value is the exit code.\<close>

definition run_client :: "sap_env \<Rightarrow> string list \<Rightarrow> rfc_call list \<Rightarrow> nat \<times> sap_state" where
  "run_client E ls h =
     (case open_connection E h of
        (Ok conn, h1) \<Rightarrow>
          (let s = fold (serve_line E) ls (say (VObject (om_of_list [(''ok'', VBool True), (''ready'', VBool True),
                 (''connector'', VString ''sap-rfc'')])) \<lparr>ss_log = h1, ss_replies = [], ss_conn = conn, ss_status = []\<rparr>)
           in (0, s\<lparr>ss_log := ss_log s @ [RClose (ss_conn s)]\<rparr>))
      | (Err je, h1) \<Rightarrow> (1, say je \<lparr>ss_log = h1, ss_replies = [], ss_conn = 0, ss_status = []\<rparr>)
      | (Panic, h1) \<Rightarrow> (101, \<lparr>ss_log = h1, ss_replies = [], ss_conn = 0, ss_status = []\<rparr>))"

section \<open>Server mode\<close>

fun marshal_inputs :: "sdk \<Rightarrow> rfc_handle \<Rightarrow> rfc_param list \<Rightarrow> json omap \<Rightarrow> json omap \<Rightarrow> (json omap \<times> json omap) rfc" where
  "marshal_inputs S f [] imports tables = mret (imports, tables)"
| "marshal_inputs S f (p # ps) imports tables = (\<lambda>h.
     if pa_direction p = rfc_tables then
       (case marshal_table S f (from_uc (pa_name p)) (2 ^ 64 - 1) h of
          (Ok v, h') \<Rightarrow> marshal_inputs S f ps imports (om_insert (from_uc (pa_name p)) v tables) h'
        | (_, h') \<Rightarrow> marshal_inputs S f ps imports tables h')
     else if pa_direction p = rfc_import \<or> pa_direction p = rfc_changing then
       mbind (read_output S f p) (\<lambda>v. marshal_inputs S f ps (om_insert (from_uc (pa_name p)) v imports) tables) h
     else marshal_inputs S f ps imports tables h)"

definition call_inputs :: "sdk \<Rightarrow> rfc_handle \<Rightarrow> rfc_handle \<Rightarrow> (json omap \<times> json omap) rfc" where
  "call_inputs S f d h =
     (case parameters S d h of
        (Ok ps, h') \<Rightarrow> marshal_inputs S f ps [] [] h'
      | (_, h') \<Rightarrow> (Ok ([], []), h'))"

definition served_name :: "sdk \<Rightarrow> rfc_handle option \<Rightarrow> rfc_call list \<Rightarrow> string \<times> rfc_call list" where
  "served_name S fd h =
     (case fd of
        None \<Rightarrow> (''?'', h)
      | Some d \<Rightarrow> (case sd_units S h (RFunctionName d) of Inr u \<Rightarrow> from_uc u | _ \<Rightarrow> ''?'', h @ [RFunctionName d]))"

text \<open>
  The function SAP calls. The line it writes is lost when standard output fails; the answer to SAP
  is the return code, 0 for success.
\<close>

definition on_server_call :: "sap_env \<Rightarrow> rfc_handle \<Rightarrow> sap_state \<Rightarrow> int \<times> sap_state" where
  "on_server_call E f s =
     (let S = sp_sdk E;
          fd = (case sd_handle S (ss_log s) (RDescribeFunction f) of Inr d \<Rightarrow> Some d | _ \<Rightarrow> None) in
      case served_name S fd (ss_log s @ [RDescribeFunction f]) of (name, h) \<Rightarrow>
        (case (case fd of Some d \<Rightarrow> call_inputs S f d h | None \<Rightarrow> (Ok ([], []), h)) of (r, h') \<Rightarrow>
           (let line = VObject (om_of_list [(''stream'', VBool True), (''kind'', VString ''call''), (''func'', VString name),
                  (''import'', VObject (case r of Ok (i, _) \<Rightarrow> i | _ \<Rightarrow> [])),
                  (''tables'', VObject (case r of Ok (_, t) \<Rightarrow> t | _ \<Rightarrow> []))]);
                s1 = s\<lparr>ss_log := h'\<rparr>
            in (0, if sp_stdout E h' then say line s1 else s1))))"

definition complain :: "json \<Rightarrow> sap_state \<Rightarrow> sap_state" where
  "complain v s = s\<lparr>ss_status := ss_status s @ [v]\<rparr>"

definition metadata_error :: "string \<Rightarrow> json \<Rightarrow> json" where
  "metadata_error fname je =
     VObject (om_of_list [(''ok'', VBool False), (''stage'', VString (''metadata:'' @ fname)), (''detail'', je)])"

definition install_function :: "sap_env \<Rightarrow> rfc_handle \<Rightarrow> string \<Rightarrow> sap_state \<Rightarrow> sap_state" where
  "install_function E client fname s =
     (case func_desc (sp_sdk E) client fname (ss_log s) of
        (Ok d, h) \<Rightarrow>
          (case ask_rc (sp_sdk E) (RInstall d) (''install:'' @ fname) h of
             (Err je, h') \<Rightarrow> complain je (s\<lparr>ss_log := h'\<rparr>)
           | (_, h') \<Rightarrow> s\<lparr>ss_log := h'\<rparr>)
      | (Err je, h) \<Rightarrow> complain (metadata_error fname je) (s\<lparr>ss_log := h\<rparr>)
      | (Panic, h) \<Rightarrow> s\<lparr>ss_log := h\<rparr>)"

text \<open>
  One wait for calls: the calls that arrive are run one after the other, then the return code says
  how the wait ended. Closed (6) and communication failure (1) end the process; a wait without a
  call (14) is no error.
\<close>

definition listen_and_dispatch :: "sap_env \<Rightarrow> rfc_handle \<Rightarrow> sap_state \<Rightarrow> rfc_error option \<times> sap_state" where
  "listen_and_dispatch E server s =
     (let h = ss_log s; s1 = s\<lparr>ss_log := h @ [RListen server]\<rparr>
      in (sd_rc (sp_sdk E) h (RListen server), fold (\<lambda>f s. snd (on_server_call E f s)) (sp_calls E h) s1))"

fun listen_loop :: "sap_env \<Rightarrow> nat \<Rightarrow> rfc_handle \<Rightarrow> sap_state \<Rightarrow> nat option \<times> sap_state" where
  "listen_loop E 0 server s = (None, s)"
| "listen_loop E (Suc n) server s =
     (case listen_and_dispatch E server s of
        (None, s1) \<Rightarrow> listen_loop E n server s1
      | (Some e, s1) \<Rightarrow>
          if er_code e = 14 then listen_loop E n server s1
          else if er_code e \<in> {6, 1} then (Some 1, complain (error_value ''listen'' e) s1)
          else listen_loop E n server (complain (error_value ''dispatch'' e) s1))"

definition server_ready :: "sap_env \<Rightarrow> json" where
  "server_ready E =
     VObject (om_of_list [(''ok'', VBool True), (''ready'', VBool True), (''mode'', VString ''idoc-server''),
       (''program_id'', VString (var_or E ''SAP_PROGRAM_ID'' ''VEJAS_IDOC'')),
       (''gwhost'', VString (var_or E ''SAP_GWHOST'' (var_or E ''SAP_ASHOST'' ''localhost''))),
       (''gwserv'', VString (var_or E ''SAP_GWSERV'' ''sapgw00'')), (''connector'', VString ''sap-rfc'')])"

definition register_server :: "sap_env \<Rightarrow> rfc_handle rfc" where
  "register_server E =
     asked (sd_handle (sp_sdk E)) (RRegister (map (\<lambda>(k, v). (to_uc k, to_uc v))
       [(''program_id'', var_or E ''SAP_PROGRAM_ID'' ''VEJAS_IDOC''),
        (''gwhost'', var_or E ''SAP_GWHOST'' (var_or E ''SAP_ASHOST'' ''localhost'')),
        (''gwserv'', var_or E ''SAP_GWSERV'' ''sapgw00'')])) ''register_server''"

text \<open>The server mode of \<open>main\<close>, for at most \<open>n\<close> waits; its value is the exit code if it ended.\<close>

definition run_server :: "sap_env \<Rightarrow> nat \<Rightarrow> rfc_call list \<Rightarrow> nat option \<times> sap_state" where
  "run_server E n h =
     (let s0 = \<lparr>ss_log = h, ss_replies = [], ss_conn = 0, ss_status = []\<rparr> in
      case open_connection E h of
        (Ok client, h1) \<Rightarrow>
          (let s1 = fold (install_function E client) [idoc_function, ''STFC_CONNECTION''] (s0\<lparr>ss_log := h1, ss_conn := client\<rparr>) in
           case register_server E (ss_log s1) of
             (Ok server, h2) \<Rightarrow> listen_loop E n server (complain (server_ready E) (s1\<lparr>ss_log := h2\<rparr>))
           | (Err je, h2) \<Rightarrow> (Some 1, complain je (s1\<lparr>ss_log := h2\<rparr>))
           | (Panic, h2) \<Rightarrow> (Some 101, s1\<lparr>ss_log := h2\<rparr>))
      | (Err je, h1) \<Rightarrow> (Some 1, complain je (s0\<lparr>ss_log := h1\<rparr>))
      | (Panic, h1) \<Rightarrow> (Some 101, s0\<lparr>ss_log := h1\<rparr>))"

text \<open>\<open>main\<close>: loading the library, then the mode of the first argument or of \<open>SAP_MODE\<close>.\<close>

definition sap_main :: "sap_env \<Rightarrow> string option \<Rightarrow> string option \<Rightarrow> string list \<Rightarrow> nat \<Rightarrow> nat option \<times> sap_state" where
  "sap_main E load_error mode_arg ls n =
     (case load_error of
        Some e \<Rightarrow>
          (Some 1, say (VObject (om_of_list [(''ok'', VBool False), (''fatal'', VBool True), (''error'', VString e)]))
             \<lparr>ss_log = [], ss_replies = [], ss_conn = 0, ss_status = []\<rparr>)
      | None \<Rightarrow>
          (let mode = (case mode_arg of Some a \<Rightarrow> a | None \<Rightarrow> var_or E ''SAP_MODE'' [])
           in if mode = ''idoc-server'' \<or> mode = ''serve'' then run_server E n []
              else (case run_client E ls [] of (code, s) \<Rightarrow> (Some code, s))))"


section \<open>What the operations call\<close>

text \<open>
  A log that grows by calls of which each satisfies \<open>P\<close> after the calls before it; an operation
  whose log grows so, that does not panic, and whose errors are JSON objects.
\<close>

inductive grows :: "(rfc_call list \<Rightarrow> rfc_call \<Rightarrow> bool) \<Rightarrow> rfc_call list \<Rightarrow> rfc_call list \<Rightarrow> bool" for P h where
  grows_refl [intro, simp]: "grows P h h"
| grows_snoc [intro]: "grows P h g \<Longrightarrow> P g c \<Longrightarrow> grows P h (g @ [c])"

lemma grows_trans: "grows P g k \<Longrightarrow> grows P h g \<Longrightarrow> grows P h k"
  by (induction rule: grows.induct) auto

lemma grows_mono: "grows P h g \<Longrightarrow> (\<And>k c. P k c \<Longrightarrow> Q k c) \<Longrightarrow> grows Q h g"
  by (induction rule: grows.induct) auto

lemma grows_one [intro]: "P h c \<Longrightarrow> grows P h (h @ [c])"
  by (rule grows_snoc) auto

lemma grows_after: "grows P (h @ [c]) g \<Longrightarrow> P h c \<Longrightarrow> grows P h g"
  by (rule grows_trans) auto

lemma grows_prefix: "grows P h g \<Longrightarrow> \<exists>es. g = h @ es"
  by (induction rule: grows.induct) auto

lemma grows_at:
  assumes "grows P h g" and "g = pre @ c # post" and "length h \<le> length pre"
  shows "P pre c"
  using assms
proof (induction arbitrary: post rule: grows.induct)
  case (grows_snoc g d)
  then show ?case by (cases post rule: rev_cases) auto
qed auto

definition is_object :: "json \<Rightarrow> bool" where
  "is_object v \<longleftrightarrow> (\<exists>m. v = VObject m)"

definition calls :: "(rfc_call list \<Rightarrow> rfc_call \<Rightarrow> bool) \<Rightarrow> ('a \<Rightarrow> bool) \<Rightarrow> 'a rfc \<Rightarrow> bool" where
  "calls P Q m \<longleftrightarrow>
     (\<forall>h. grows P h (snd (m h)) \<and>
        (case fst (m h) of Ok a \<Rightarrow> Q a | Err e \<Rightarrow> is_object e | Panic \<Rightarrow> False))"

lemma callsI:
  assumes "\<And>h. grows P h (snd (m h)) \<and> (case fst (m h) of Ok a \<Rightarrow> Q a | Err e \<Rightarrow> is_object e | Panic \<Rightarrow> False)"
  shows "calls P Q m"
  using assms by (simp add: calls_def)

lemma callsE:
  assumes "calls P Q m"
  obtains a g where "m h = (Ok a, g)" "Q a" "grows P h g"
    | e g where "m h = (Err e, g)" "is_object e" "grows P h g"
  using assms [unfolded calls_def, rule_format, of h]
  by (cases "m h"; cases "fst (m h)") auto

lemma calls_grows: "calls P Q m \<Longrightarrow> grows P h (snd (m h))"
  by (simp add: calls_def)

lemma calls_mono:
  assumes "calls P Q m" and "\<And>g c. P g c \<Longrightarrow> P' g c" and "\<And>a. Q a \<Longrightarrow> Q' a"
  shows "calls P' Q' m"
proof (rule callsI)
  fix h show "grows P' h (snd (m h)) \<and> (case fst (m h) of Ok a \<Rightarrow> Q' a | Err e \<Rightarrow> is_object e | Panic \<Rightarrow> False)"
    using assms by (cases rule: callsE [OF assms(1), of h]) (auto intro: grows_mono)
qed

lemma calls_mret: "Q a \<Longrightarrow> calls P Q (mret a)"
  and calls_mfail: "is_object e \<Longrightarrow> calls P Q (mfail e)"
  and calls_Pair: "Q a \<Longrightarrow> calls P Q (Pair (Ok a))"
  by (simp_all add: calls_def)

lemma calls_mbind_value:
  assumes m: "calls P Q m" and f: "\<And>a. Q a \<Longrightarrow> calls P Q' (f a)"
  shows "calls P Q' (mbind m f)"
proof (rule callsI)
  fix h
  show "grows P h (snd (mbind m f h)) \<and>
      (case fst (mbind m f h) of Ok a \<Rightarrow> Q' a | Err e \<Rightarrow> is_object e | Panic \<Rightarrow> False)"
  proof (cases rule: callsE [OF m, of h])
    case (1 a g)
    then show ?thesis using f [of a, unfolded calls_def, rule_format, of g]
      by (auto simp: mbind_def intro: grows_trans)
  qed (simp add: mbind_def)
qed

lemmas calls_mbind = calls_mbind_value [where Q = "\<lambda>_. True", simplified]

lemma is_object_VObject [simp, intro]: "is_object (VObject m)"
  by (simp add: is_object_def)

lemma error_value_object [simp]: "is_object (error_value stage e)"
  by (simp add: error_value_def)

lemma calls_asked: "(\<And>h. P h c) \<Longrightarrow> calls P (\<lambda>_. True) (asked ans c stage)"
  by (auto simp: calls_def asked_def split: sum.splits)

lemma calls_ask_rc: "(\<And>h. P h c) \<Longrightarrow> calls P (\<lambda>_. True) (ask_rc S c stage)"
  unfolding ask_rc_def by (rule calls_asked)

text \<open>The calls that neither make nor release anything and do not belong to the ending of a transaction.\<close>

fun neutral :: "rfc_call \<Rightarrow> bool" where
  "neutral (ROpen _) = False"
| "neutral (RClose _) = False"
| "neutral (RCreateFunc _) = False"
| "neutral (RDestroyFunc _) = False"
| "neutral (RCreateTrans _ _) = False"
| "neutral (RDestroyTrans _) = False"
| "neutral (RSubmit _) = False"
| "neutral (RConfirm _) = False"
| "neutral _ = True"

abbreviation quiet :: "('a \<Rightarrow> bool) \<Rightarrow> 'a rfc \<Rightarrow> bool" where
  "quiet \<equiv> calls (\<lambda>_. neutral)"

lemmas quiet_rules = calls_mret calls_Pair calls_mfail calls_mbind calls_asked calls_ask_rc

lemma grows_neutral_append: "grows P h g \<Longrightarrow> P g c \<Longrightarrow> P (g @ [c]) d \<Longrightarrow> grows P h (g @ [c, d])"
  using grows_snoc [OF grows_snoc, of P h g c d] by simp

lemma quiet_get_string: "quiet (\<lambda>_. True) (get_string S c f)"
proof (rule callsI)
  fix h
  show "grows (\<lambda>_. neutral) h (snd (get_string S c f h)) \<and>
      (case fst (get_string S c f h) of Ok a \<Rightarrow> True | Err e \<Rightarrow> is_object e | Panic \<Rightarrow> False)"
    by (auto simp: get_string_def Let_def mbind_def asked_def intro!: grows_neutral_append
        split: prod.splits sum.splits option.splits)
qed

lemma quiet_string_or_null: "quiet (\<lambda>_. True) (string_or_null S c f)"
proof (rule callsI)
  fix h
  show "grows (\<lambda>_. neutral) h (snd (string_or_null S c f h)) \<and>
      (case fst (string_or_null S c f h) of Ok a \<Rightarrow> True | Err e \<Rightarrow> is_object e | Panic \<Rightarrow> False)"
    by (cases rule: callsE [OF quiet_get_string, of S c f h]) (auto simp: string_or_null_def)
qed

lemma quiet_field_list: "quiet (\<lambda>_. True) (field_list S td is)"
  by (induction "is") (auto intro!: quiet_rules)

lemma quiet_field_names: "quiet (\<lambda>_. True) (field_names S c)"
  by (auto simp: field_names_def intro!: quiet_rules quiet_field_list)

lemma quiet_read_columns: "quiet (\<lambda>_. True) (read_columns S c fs m)"
  by (induction fs arbitrary: m) (auto intro!: quiet_rules quiet_string_or_null)

lemma quiet_marshal_structure: "quiet (\<lambda>_. True) (marshal_structure S c name)"
  by (auto simp: marshal_structure_def read_structure_def intro!: quiet_rules quiet_field_names quiet_read_columns)

lemma quiet_row:
  assumes "\<And>row. quiet Q (f row)" and "case g0 of Ok a \<Rightarrow> Q a | Err e \<Rightarrow> is_object e | Panic \<Rightarrow> False"
  shows "quiet Q (\<lambda>h. case sd_handle S h (RCurrentRow t) of
      Inr row \<Rightarrow> f row (h @ [RCurrentRow t]) | Inl e \<Rightarrow> (g0, h @ [RCurrentRow t]))"
proof (rule callsI, goal_cases)
  case (1 h)
  show ?case
  proof (cases "sd_handle S h (RCurrentRow t)")
    case (Inr row)
    then show ?thesis
      by (cases rule: callsE [OF assms(1), of row "h @ [RCurrentRow t]"])
         (simp_all add: grows_after)
  qed (use assms(2) in auto)
qed

lemma quiet_read_rows: "quiet (\<lambda>_. True) (read_rows S t name cols rs)"
  by (induction rs) (auto intro!: quiet_rules quiet_row quiet_read_columns)

lemma quiet_first_row: "quiet (\<lambda>_. True) (first_row S t name)"
  unfolding first_row_def
proof (rule calls_mbind)
  show "quiet (\<lambda>_. True) (ask_rc S (RMoveTo t 0) (''move_to:'' @ name))" by (auto intro: quiet_rules)
qed (auto simp: calls_def split: sum.splits)

lemma quiet_marshal_table: "quiet (\<lambda>_. True) (marshal_table S c name n)"
  by (auto simp: marshal_table_def intro!: quiet_rules quiet_first_row quiet_field_names quiet_read_rows)

lemma quiet_set_scalar: "quiet (\<lambda>_. True) (set_scalar S c name val)"
  by (auto simp: set_scalar_def intro!: quiet_rules)

lemma quiet_set_field:
  "quiet (\<lambda>_. True) (set_field S C c name v)"
  "quiet (\<lambda>_. True) (set_rows S C c name rows)"
  "quiet (\<lambda>_. True) (set_fields S C c m)"
  by (induction S C c name v and S C c name rows and S C c m rule: set_field_set_rows_set_fields.induct)
     (auto intro!: quiet_rules quiet_set_scalar)

lemma quiet_param_list: "quiet (\<lambda>_. True) (param_list S d is)"
  by (induction "is") (auto intro!: quiet_rules)

lemma quiet_parameters: "quiet (\<lambda>_. True) (parameters S d)"
  by (auto simp: parameters_def intro!: quiet_rules quiet_param_list)

lemma quiet_read_output: "quiet (\<lambda>_. True) (read_output S f p)"
proof (rule callsI)
  fix h
  show "grows (\<lambda>_. neutral) h (snd (read_output S f p h)) \<and>
      (case fst (read_output S f p h) of Ok a \<Rightarrow> True | Err e \<Rightarrow> is_object e | Panic \<Rightarrow> False)"
    using quiet_string_or_null [of S f "from_uc (pa_name p)", unfolded calls_def, rule_format, of h]
    by (cases rule: callsE [OF quiet_marshal_structure, of S f "from_uc (pa_name p)" h]) (auto simp: read_output_def)
qed

lemma quiet_marshal_outputs: "quiet (\<lambda>_. True) (marshal_outputs S f n ps ex ta)"
  by (induction ps arbitrary: ex ta) (auto intro!: quiet_rules quiet_marshal_table quiet_read_output)

lemma quiet_call_body: "quiet is_object (call_body S C conn d f func req)"
  unfolding call_body_def
  by (auto intro!: quiet_rules quiet_set_field quiet_parameters quiet_marshal_outputs split: option.split json.split prod.split)

lemma quiet_set_idoc: "quiet (\<lambda>_. True) (set_idoc S C f req)"
  unfolding set_idoc_def by (auto intro!: quiet_rules quiet_set_field split: option.split)

lemma quiet_op_ping: "quiet is_object (op_ping S conn)"
  by (auto simp: op_ping_def intro!: quiet_rules)

lemma quiet_op_describe: "quiet is_object (op_describe S conn req)"
  by (auto simp: op_describe_def func_desc_def missing_func_def intro!: quiet_rules quiet_parameters split: option.split)

lemma quiet_choose_tid: "quiet (\<lambda>_. True) (choose_tid S conn req)"
  by (auto simp: choose_tid_def intro!: quiet_rules split: option.split)

section \<open>What is held\<close>

datatype resource = HConn rfc_handle | HFunc rfc_handle | HTrans rfc_handle

fun hold_call :: "sdk \<Rightarrow> rfc_call list \<Rightarrow> rfc_call \<Rightarrow> resource multiset \<Rightarrow> resource multiset" where
  "hold_call S g (ROpen ps) M = (case sd_handle S g (ROpen ps) of Inr c \<Rightarrow> add_mset (HConn c) M | Inl _ \<Rightarrow> M)"
| "hold_call S g (RClose c) M = M - {#HConn c#}"
| "hold_call S g (RCreateFunc d) M = (case sd_handle S g (RCreateFunc d) of Inr f \<Rightarrow> add_mset (HFunc f) M | Inl _ \<Rightarrow> M)"
| "hold_call S g (RDestroyFunc f) M = M - {#HFunc f#}"
| "hold_call S g (RCreateTrans c u) M =
     (case sd_handle S g (RCreateTrans c u) of Inr t \<Rightarrow> add_mset (HTrans t) M | Inl _ \<Rightarrow> M)"
| "hold_call S g (RDestroyTrans t) M = M - {#HTrans t#}"
| "hold_call S g _ M = M"

fun held_after :: "sdk \<Rightarrow> rfc_call list \<Rightarrow> resource multiset \<Rightarrow> rfc_call list \<Rightarrow> resource multiset" where
  "held_after S g M [] = M"
| "held_after S g M (c # cs) = held_after S (g @ [c]) (hold_call S g c M) cs"

text \<open>What a log leaves open: connections, function containers, transactions.\<close>

definition held :: "sdk \<Rightarrow> rfc_call list \<Rightarrow> resource multiset" where
  "held S h = held_after S [] {#} h"

lemma held_Nil [simp]: "held S [] = {#}"
  by (simp add: held_def)

lemma held_after_snoc: "held_after S g M (h @ [c]) = hold_call S (g @ h) c (held_after S g M h)"
  by (induction h arbitrary: g M) auto

lemma held_snoc [simp]: "held S (h @ [c]) = hold_call S h c (held S h)"
  by (simp add: held_def held_after_snoc)

lemma hold_neutral: "neutral c \<Longrightarrow> hold_call S g c M = M"
  by (cases c) auto

definition balanced :: "sdk \<Rightarrow> 'a rfc \<Rightarrow> bool" where
  "balanced S m \<longleftrightarrow> (\<forall>h. held S (snd (m h)) = held S h)"

lemma grows_neutral_held: "grows (\<lambda>_. neutral) h g \<Longrightarrow> held S g = held S h"
  by (induction rule: grows.induct) (auto simp: hold_neutral)

lemma quiet_balanced: "quiet Q m \<Longrightarrow> balanced S m"
  by (simp add: balanced_def calls_grows grows_neutral_held)

lemma balanced_mbind: "balanced S m \<Longrightarrow> (\<And>a. balanced S (f a)) \<Longrightarrow> balanced S (mbind m f)"
  by (auto simp: balanced_def mbind_def split: prod.splits result.splits) (metis snd_conv)+

lemma balanced_func:
  assumes "\<And>f. balanced S (m f)"
  shows "balanced S (mbind (asked (sd_handle S) (RCreateFunc d) stage) (\<lambda>f. with_func f (m f)))"
  using assms by (auto simp: balanced_def mbind_def asked_def with_func_def split: sum.splits prod.splits)
    (metis add_mset_remove_trivial held_snoc hold_call.simps(3) snd_conv sum.simps(6))

lemma balanced_trans:
  assumes "\<And>t. balanced S (m t)"
  shows "balanced S (mbind (asked (sd_handle S) (RCreateTrans c u) stage) (\<lambda>t. with_trans t (m t)))"
  using assms by (auto simp: balanced_def mbind_def asked_def with_trans_def split: sum.splits prod.splits)
    (metis add_mset_remove_trivial held_snoc hold_call.simps(5) snd_conv sum.simps(6))

lemma balanced_asked: "(\<And>g M. hold_call S g c M = M) \<Longrightarrow> balanced S (asked ans c stage)"
  by (simp add: balanced_def asked_def)

lemma balanced_ask_rc: "(\<And>g M. hold_call S g c M = M) \<Longrightarrow> balanced S (ask_rc S c stage)"
  unfolding ask_rc_def by (rule balanced_asked)

lemma balanced_mret: "balanced S (mret a)"
  and balanced_mfail: "balanced S (mfail e)"
  by (simp_all add: balanced_def)

lemma balanced_op_call: "balanced S (op_call S C conn req)"
proof (cases "req_text req ''func''")
  case (Some func)
  then show ?thesis unfolding op_call_def func_desc_def
    by (simp only: option.case) (intro balanced_mbind balanced_asked balanced_func quiet_balanced [OF quiet_call_body], simp)
qed (simp add: op_call_def balanced_mfail [simplified])

lemma balanced_transact: "balanced S (transact S t f tid)"
  unfolding transact_def by (intro balanced_mbind balanced_ask_rc balanced_mret) auto

lemma balanced_op_send_idoc: "balanced S (op_send_idoc S C conn req)"
  unfolding op_send_idoc_def func_desc_def
  by (rule balanced_func balanced_trans balanced_mbind balanced_transact
      quiet_balanced [OF quiet_set_idoc] quiet_balanced [OF quiet_choose_tid] balanced_asked | simp)+

section \<open>The operations together\<close>

lemma calls_with_func: "calls P Q m \<Longrightarrow> (\<And>g. P g (RDestroyFunc f)) \<Longrightarrow> calls P Q (with_func f m)"
  by (auto simp: calls_def with_func_def split: prod.splits) (metis fst_conv snd_conv grows_snoc)+

lemma calls_with_trans: "calls P Q m \<Longrightarrow> (\<And>g. P g (RDestroyTrans t)) \<Longrightarrow> calls P Q (with_trans t m)"
  by (auto simp: calls_def with_trans_def split: prod.splits) (metis fst_conv snd_conv grows_snoc)+

text \<open>
  The rule of a transaction: it carries the caller's identifier when there is one, and is confirmed
  only right after SAP has accepted it.
\<close>

definition tid_rule :: "sdk \<Rightarrow> json \<Rightarrow> rfc_call list \<Rightarrow> rfc_call \<Rightarrow> bool" where
  "tid_rule S req g c \<longleftrightarrow>
     (case c of
        RCreateTrans _ u \<Rightarrow> (\<forall>t. req_text req ''tid'' = Some t \<longrightarrow> u = given_tid t)
      | RConfirm th \<Rightarrow> (\<exists>g'. g = g' @ [RSubmit th] \<and> sd_rc S g' (RSubmit th) = None)
      | _ \<Rightarrow> True)"

lemma neutral_tid_rule: "neutral c \<Longrightarrow> tid_rule S req g c"
  by (cases c) (auto simp: tid_rule_def)

lemma quiet_tid_rule: "quiet Q m \<Longrightarrow> calls (tid_rule S req) Q m"
  by (erule calls_mono) (auto simp: neutral_tid_rule)

lemma transact_tid_rule: "calls (tid_rule S req) is_object (transact S th f tid)"
proof (rule callsI)
  fix h
  have "grows (tid_rule S req) h (h @ [RInvokeTrans th f])"
    by (rule grows_one) (simp add: tid_rule_def)
  moreover from this have "grows (tid_rule S req) h ((h @ [RInvokeTrans th f]) @ [RSubmit th])"
    by (rule grows_snoc) (simp add: tid_rule_def)
  moreover from this have "sd_rc S (h @ [RInvokeTrans th f]) (RSubmit th) = None \<Longrightarrow>
      grows (tid_rule S req) h (((h @ [RInvokeTrans th f]) @ [RSubmit th]) @ [RConfirm th])"
    by (rule grows_snoc) (simp add: tid_rule_def)
  ultimately show "grows (tid_rule S req) h (snd (transact S th f tid h)) \<and>
      (case fst (transact S th f tid h) of Ok a \<Rightarrow> is_object a | Err e \<Rightarrow> is_object e | Panic \<Rightarrow> False)"
    by (auto simp: transact_def mbind_def ask_rc_def asked_def split: sum.splits option.splits)
qed

lemma choose_tid_given: "req_text req ''tid'' = Some t \<Longrightarrow> choose_tid S conn req = mret (given_tid t)"
  by (simp add: choose_tid_def)

lemma quiet_choose_tid_value: "quiet (\<lambda>u. \<forall>t. req_text req ''tid'' = Some t \<longrightarrow> u = given_tid t) (choose_tid S conn req)"
  by (cases "req_text req ''tid''")
     (auto simp: choose_tid_def intro!: calls_mret calls_Pair calls_mbind calls_asked)

lemma op_send_idoc_tid_rule: "calls (tid_rule S req) is_object (op_send_idoc S C conn req)"
  unfolding op_send_idoc_def func_desc_def
  by (rule calls_mbind_value [OF quiet_tid_rule [OF quiet_choose_tid_value]] calls_mbind calls_with_func calls_with_trans
      transact_tid_rule calls_asked quiet_tid_rule [OF quiet_set_idoc] | simp add: tid_rule_def)+

lemma op_call_tid_rule: "calls (tid_rule S req') is_object (op_call S C conn req)"
proof (cases "req_text req ''func''")
  case (Some func)
  then show ?thesis unfolding op_call_def func_desc_def option.case
    by (simp only: option.case)
       (rule calls_mbind calls_with_func calls_asked quiet_tid_rule [OF quiet_call_body] | simp add: tid_rule_def)+
qed (simp add: op_call_def calls_def missing_func_def)

lemma surface_functions_object: "is_object v \<Longrightarrow> is_object (surface_functions v)"
  by (auto simp: surface_functions_def is_object_def split: option.splits json.splits)

lemma op_list_tid_rule: "calls (tid_rule S req') is_object (op_list S C conn req)"
proof (rule callsI)
  fix h
  show "grows (tid_rule S req') h (snd (op_list S C conn req h)) \<and>
      (case fst (op_list S C conn req h) of Ok a \<Rightarrow> is_object a | Err e \<Rightarrow> is_object e | Panic \<Rightarrow> False)"
    by (cases rule: callsE [OF op_call_tid_rule [of S req' C conn "search_request req"], of h])
       (auto simp: op_list_def surface_functions_object)
qed

lemma balanced_op_list: "balanced S (op_list S C conn req)"
  using balanced_op_call [of S C conn "search_request req"]
  by (auto simp: balanced_def op_list_def split: prod.splits result.splits) (metis snd_conv)+

lemma dispatch_op_tid_rule: "calls (tid_rule S req) is_object (dispatch_op S C conn opn req)"
  by (simp add: dispatch_op_def op_call_tid_rule op_list_tid_rule op_send_idoc_tid_rule
      quiet_tid_rule [OF quiet_op_ping] quiet_tid_rule [OF quiet_op_describe] calls_mfail del: mfail_run)

lemma balanced_dispatch_op: "balanced S (dispatch_op S C conn opn req)"
  by (simp add: dispatch_op_def balanced_op_call balanced_op_list balanced_op_send_idoc
      quiet_balanced [OF quiet_op_ping] quiet_balanced [OF quiet_op_describe] balanced_mfail del: mfail_run)

lemma open_connection_calls:
  "(\<And>g ps. P g (ROpen ps)) \<Longrightarrow> calls P (\<lambda>_. True) (open_connection E)"
  unfolding open_connection_def by (rule calls_asked)

lemma calls_tell: "(\<And>g. P g c) \<Longrightarrow> calls P (\<lambda>_. True) (tell c)"
  by (auto simp: calls_def tell_def)

lemma reopen_calls:
  assumes "\<And>g c. P g (RClose c)" and "\<And>g ps. P g (ROpen ps)"
  shows "calls P (\<lambda>_. True) (reopen E old)"
  unfolding reopen_def
  by (rule calls_mbind calls_tell open_connection_calls assms)+

lemma ready_connection_calls:
  assumes "\<And>g c. P g (RClose c)" and "\<And>g ps. P g (ROpen ps)" and "\<And>g c. P g (RPing c)"
  shows "calls P (\<lambda>_. True) (ready_connection E conn)"
proof (rule callsI)
  fix h
  show "grows P h (snd (ready_connection E conn h)) \<and>
      (case fst (ready_connection E conn h) of Ok a \<Rightarrow> True | Err e \<Rightarrow> is_object e | Panic \<Rightarrow> False)"
    by (cases rule: callsE [OF reopen_calls [OF assms(1,2)], of E conn "h @ [RPing conn]"])
       (use assms(3) in \<open>auto simp: ready_connection_def connection_alive_def intro: grows_after\<close>)
qed

lemma answered_calls:
  assumes "calls P is_object m"
  shows "is_object (fst (answered m h)) \<and> grows P h (snd (answered m h))"
  by (cases rule: callsE [OF assms, of h]) (auto simp: answered_def)

lemma answered_log: "snd (answered m h) = snd (m h)"
  by (auto simp: answered_def split: prod.splits result.splits)

lemma run_op_rule:
  assumes "run_op E opn req conn h = (out, conn', h')"
  shows "is_object out" and "grows (tid_rule (sp_sdk E) req) h h'"
proof -
  let ?d = "\<lambda>c. dispatch_op (sp_sdk E) (sp_codec E) c opn req"
  let ?P = "tid_rule (sp_sdk E) req"
  obtain o1 h1 where a: "answered (?d conn) h = (o1, h1)" by fastforce
  then have 1: "is_object o1" "grows ?P h h1"
    using answered_calls [OF dispatch_op_tid_rule [of "sp_sdk E" req "sp_codec E" conn opn], of h] by auto
  have "calls ?P (\<lambda>_. True) (reopen E conn)"
    by (rule reopen_calls) (simp_all add: tid_rule_def)
  then have "is_object out \<and> grows ?P h h'"
  proof (cases rule: callsE [of _ _ _ h1])
    case (1 c h2)
    then show ?thesis
      using assms a \<open>grows ?P h h1\<close> \<open>is_object o1\<close>
        answered_calls [OF dispatch_op_tid_rule [of "sp_sdk E" req "sp_codec E" c opn], of h2]
      by (auto simp: run_op_def split: if_splits prod.splits dest: grows_trans)
  next
    case (2 e h2)
    then show ?thesis
      using assms a \<open>grows ?P h h1\<close> \<open>is_object o1\<close>
      by (auto simp: run_op_def split: if_splits dest: grows_trans)
  qed
  then show "is_object out" and "grows ?P h h'" by auto
qed

lemma serve_request_rule: "grows (tid_rule (sp_sdk E) req) (ss_log s) (ss_log (serve_request E req s))"
proof -
  have "calls (tid_rule (sp_sdk E) req) (\<lambda>_. True) (ready_connection E (ss_conn s))"
    by (rule ready_connection_calls) (simp_all add: tid_rule_def)
  then show ?thesis
    by (cases rule: callsE [of _ _ _ "ss_log s"])
       (auto simp: serve_request_def Let_def say_def tid_rule_def split: prod.splits
          intro: grows_trans dest: run_op_rule(2))
qed

section \<open>Nothing is left open\<close>

lemma asked_open_held:
  assumes "asked (sd_handle S) (ROpen ps) stage h = (r, h')"
  shows "held S h' = (case r of Ok c \<Rightarrow> add_mset (HConn c) (held S h) | _ \<Rightarrow> held S h)"
  using assms by (auto simp: asked_def split: sum.splits)

lemma open_connection_held:
  "open_connection E h = (r, h') \<Longrightarrow>
     held (sp_sdk E) h' = (case r of Ok c \<Rightarrow> add_mset (HConn c) (held (sp_sdk E) h) | _ \<Rightarrow> held (sp_sdk E) h)"
  unfolding open_connection_def by (rule asked_open_held)

lemma reopen_held:
  assumes "held (sp_sdk E) h \<subseteq># {#HConn old#}" and "reopen E old h = (r, h')"
  shows "held (sp_sdk E) h' = (case r of Ok c \<Rightarrow> {#HConn c#} | _ \<Rightarrow> {#})"
proof -
  have "open_connection E (h @ [RClose old]) = (r, h')"
    using assms(2) by (simp add: reopen_def tell_def mbind_def)
  then show ?thesis
    using assms(1) by (auto simp: Diff_eq_empty_iff_mset [THEN iffD2] dest!: open_connection_held split: result.splits)
qed

lemma answered_held: "held S (snd (answered (dispatch_op S C conn opn req) h)) = held S h"
  using balanced_dispatch_op [of S C conn opn req] by (simp add: answered_log balanced_def)

lemma run_op_held:
  assumes "held (sp_sdk E) h \<subseteq># {#HConn conn#}" and "run_op E opn req conn h = (out, conn', h')"
  shows "held (sp_sdk E) h' \<subseteq># {#HConn conn'#}"
proof -
  let ?d = "\<lambda>c. dispatch_op (sp_sdk E) (sp_codec E) c opn req"
  obtain o1 h1 where a: "answered (?d conn) h = (o1, h1)" by fastforce
  then have h1: "held (sp_sdk E) h1 \<subseteq># {#HConn conn#}"
    using assms(1) answered_held [of "sp_sdk E" "sp_codec E" conn opn req h] by simp
  obtain r h2 where r: "reopen E conn h1 = (r, h2)" by fastforce
  show ?thesis
  proof (cases r)
    case (Ok c)
    then show ?thesis
      using assms(2) a h1 r reopen_held [OF h1 r] answered_held [of "sp_sdk E" "sp_codec E" c opn req h2]
      by (auto simp: run_op_def split: if_splits prod.splits)
  qed (use assms(2) a h1 r reopen_held [OF h1 r] in \<open>auto simp: run_op_def split: if_splits\<close>)
qed

definition tidy :: "sap_env \<Rightarrow> sap_state \<Rightarrow> bool" where
  "tidy E s \<longleftrightarrow> held (sp_sdk E) (ss_log s) \<subseteq># {#HConn (ss_conn s)#}"

lemma ready_connection_held:
  assumes "held (sp_sdk E) h \<subseteq># {#HConn conn#}" and "ready_connection E conn h = (r, h')"
  shows "held (sp_sdk E) h' \<subseteq># {#HConn (case r of Ok c \<Rightarrow> c | _ \<Rightarrow> conn)#}"
proof -
  have "held (sp_sdk E) (h @ [RPing conn]) \<subseteq># {#HConn conn#}" using assms(1) by simp
  then show ?thesis
    using assms reopen_held [of E "h @ [RPing conn]" conn r h']
    by (auto simp: ready_connection_def connection_alive_def split: if_splits result.splits)
qed

lemma serve_request_tidy: "tidy E s \<Longrightarrow> tidy E (serve_request E req s)"
proof -
  assume s: "tidy E s"
  obtain r h1 where r: "ready_connection E (ss_conn s) (ss_log s) = (r, h1)" by fastforce
  with s have h1: "held (sp_sdk E) h1 \<subseteq># {#HConn (case r of Ok c \<Rightarrow> c | _ \<Rightarrow> ss_conn s)#}"
    by (auto simp: tidy_def dest: ready_connection_held)
  show ?thesis
    using s r h1 run_op_held
    by (auto simp: serve_request_def Let_def say_def tidy_def Diff_eq_empty_iff_mset [THEN iffD2] split: prod.splits result.splits)
qed

lemma serve_line_tidy: "tidy E s \<Longrightarrow> tidy E (serve_line E l s)"
  by (simp add: serve_line_def serve_request_tidy split: option.split) (simp add: tidy_def say_def)

lemma serve_lines_tidy: "tidy E s \<Longrightarrow> tidy E (fold (serve_line E) ls s)"
  by (induction ls arbitrary: s) (auto simp: serve_line_tidy)


section \<open>One reply per line\<close>

definition hooked :: "sap_env \<Rightarrow> json \<Rightarrow> bool" where
  "hooked E req \<longleftrightarrow> sp_var E ''SAP_RFC_TEST_HOOKS'' = Some ''1'' \<and> req_text req ''op'' = Some ''_drop''"

text \<open>A reply to a line: an object that carries the identifier of the request.\<close>

definition answers :: "sap_env \<Rightarrow> string \<Rightarrow> json \<Rightarrow> bool" where
  "answers E l r \<longleftrightarrow>
     is_object r \<and>
     (case cd_parse (sp_codec E) (trim l) of
        Some req \<Rightarrow>
          (case value_get req ''id'' of Some i \<Rightarrow> hooked E req \<or> value_get r ''id'' = Some i | None \<Rightarrow> True)
      | None \<Rightarrow> True)"

lemma with_id_object: "is_object out \<Longrightarrow> is_object (with_id req out)"
  by (auto simp: with_id_def is_object_def split: option.splits)

lemma with_id_get: "is_object out \<Longrightarrow> value_get req ''id'' = Some i \<Longrightarrow> value_get (with_id req out) ''id'' = Some i"
  by (auto simp: with_id_def is_object_def om_simps)

lemma serve_request_replies:
  "\<exists>r. ss_replies (serve_request E req s) = ss_replies s @ [r] \<and> is_object r \<and>
     (\<forall>i. value_get req ''id'' = Some i \<longrightarrow> hooked E req \<or> value_get r ''id'' = Some i)"
proof (cases "hooked E req")
  case False
  have "calls (\<lambda>_ _. True) (\<lambda>_. True) (ready_connection E (ss_conn s))"
    by (rule ready_connection_calls) simp_all
  then show ?thesis
  proof (cases rule: callsE [of _ _ _ "ss_log s"])
    case (1 c h1)
    obtain out c' h2 where run: "run_op E (case req_text req ''op'' of Some t \<Rightarrow> t | None \<Rightarrow> []) req c h1 = (out, c', h2)"
      by (metis prod_cases3)
    have "ss_replies (serve_request E req s) = ss_replies s @ [with_id req out]"
      using False 1 run by (auto simp: serve_request_def hooked_def say_def split: option.splits)
    then show ?thesis using run_op_rule(1) [OF run] by (auto intro: with_id_object with_id_get)
  next
    case (2 e h1)
    then have "ss_replies (serve_request E req s) = ss_replies s @ [with_id req e]"
      using False by (auto simp: serve_request_def hooked_def say_def split: option.splits)
    then show ?thesis using 2 by (auto intro: with_id_object with_id_get)
  qed
qed (auto simp: serve_request_def hooked_def say_def)

lemma serve_line_replies:
  assumes "trim l \<noteq> []"
  shows "\<exists>r. ss_replies (serve_line E l s) = ss_replies s @ [r] \<and> answers E l r"
  using assms serve_request_replies [of E _ s]
  by (fastforce simp: serve_line_def answers_def say_def split: option.splits)

lemma serve_lines_replies:
  "\<exists>rs. ss_replies (fold (serve_line E) ls s) = ss_replies s @ rs \<and>
     list_all2 (answers E) (filter (\<lambda>l. trim l \<noteq> []) ls) rs"
proof (induction ls arbitrary: s)
  case (Cons l ls)
  show ?case
  proof (cases "trim l = []")
    case True
    then show ?thesis using Cons.IH [of s] by (simp add: serve_line_def)
  next
    case False
    with Cons.IH [of "serve_line E l s"] serve_line_replies [of l E s] show ?thesis by fastforce
  qed
qed simp


section \<open>Transactions\<close>

text \<open>
  (C16) An IDoc is sent under the caller's identifier and confirmed only when SAP has it: of the
  calls one request makes, the replay on a new connection and any second transaction included,
  each transaction is created with the identifier the request names, and each confirmation comes
  right after a submit of the same transaction that SAP accepted.
\<close>

theorem sap_idoc_keeps_its_tid:
  assumes "ss_log (serve_request E req s) = pre @ c # post" and "length (ss_log s) \<le> length pre"
  shows "(\<forall>conn u t. c = RCreateTrans conn u \<longrightarrow> req_text req ''tid'' = Some t \<longrightarrow> u = given_tid t) \<and>
    (\<forall>th. c = RConfirm th \<longrightarrow> (\<exists>g. pre = g @ [RSubmit th] \<and> sd_rc (sp_sdk E) g (RSubmit th) = None))"
proof -
  have "tid_rule (sp_sdk E) req pre c"
    by (rule grows_at [OF serve_request_rule assms])
  then show ?thesis by (auto simp: tid_rule_def)
qed

definition gone :: rfc_error where
  "gone = \<lparr>er_code = 1, er_group = 0, er_key = [], er_message = [], er_class = [], er_type = [], er_number = [], er_vs = []\<rparr>"

text \<open>A library whose first submit loses the conversation, after SAP may have stored the IDoc.\<close>

definition lossy_sdk :: sdk where
  "lossy_sdk = \<lparr>
     sd_rc = (\<lambda>h c. if (case c of RSubmit _ \<Rightarrow> True | RInvoke _ _ \<Rightarrow> True | _ \<Rightarrow> False) \<and>
        list_all (\<lambda>d. case d of RSubmit _ \<Rightarrow> False | RInvoke _ _ \<Rightarrow> False | _ \<Rightarrow> True) h then Some gone else None),
     sd_handle = (\<lambda>h c. Inr (length h)), sd_num = (\<lambda>h c. Inr 0), sd_probe = (\<lambda>h c. (0, None)),
     sd_units = (\<lambda>h c. Inr [word_of_nat (length h)]), sd_param = (\<lambda>h c. Inl gone)\<rparr>"

definition lossy :: sap_env where
  "lossy = \<lparr>sp_sdk = lossy_sdk, sp_codec = \<lparr>cd_print = \<lambda>_. [], cd_parse = \<lambda>_. None\<rparr>, sp_json_error = \<lambda>_. [],
     sp_var = \<lambda>_. None, sp_idle = \<lambda>_. False, sp_stdout = \<lambda>_. True, sp_calls = \<lambda>_. []\<rparr>"

definition sap_start :: sap_state where
  "sap_start = \<lparr>ss_log = [], ss_replies = [], ss_conn = 9, ss_status = []\<rparr>"

definition idoc_request :: "string option \<Rightarrow> json" where
  "idoc_request tid =
     VObject (om_of_list ((''op'', VString ''send_idoc'') # (case tid of Some t \<Rightarrow> [(''tid'', VString t)] | None \<Rightarrow> [])))"

lemma sap_idoc_keeps_its_tid_witness:
  "\<exists>pre post. ss_log (serve_request lossy (idoc_request (Some ''a'')) sap_start) = pre @ RConfirm 11 # post \<and>
     (\<exists>g. pre = g @ [RSubmit 11] \<and> sd_rc lossy_sdk g (RSubmit 11) = None)"
proof -
  define log where "log = ss_log (serve_request lossy (idoc_request (Some ''a'')) sap_start)"
  have l: "log = take 14 log @ RConfirm 11 # drop 15 log"
    unfolding log_def by code_simp
  moreover have "length (ss_log sap_start) \<le> length (take 14 log)"
    unfolding log_def by code_simp
  ultimately show ?thesis
    using sap_idoc_keeps_its_tid [of lossy "idoc_request (Some ''a'')" sap_start "take 14 log" "RConfirm 11" "drop 15 log"]
    unfolding log_def by (auto simp: lossy_def)
qed

section \<open>Defects\<close>

text \<open>
  An IDoc without an identifier whose submit loses the conversation is replayed under a fresh one,
  so SAP cannot tell the second from the first.
\<close>

lemma replayed_idoc_gets_a_new_tid:
  "concat (map (\<lambda>c. case c of RCreateTrans _ u \<Rightarrow> [take 1 u] | _ \<Rightarrow> [])
     (ss_log (serve_request lossy (idoc_request None) sap_start))) = [[2], [12]]"
  by code_simp

text \<open>Any call is replayed too: a function module SAP may have run is invoked once more.\<close>

lemma replayed_call_is_invoked_twice:
  "concat (map (\<lambda>c. case c of RInvoke conn _ \<Rightarrow> [conn] | _ \<Rightarrow> [])
     (ss_log (serve_request lossy (VObject [(''func'', VString ''F''), (''op'', VString ''call'')]) sap_start))) = [9, 5]"
  by code_simp

text \<open>A call SAP makes is acknowledged whether or not its line could be written.\<close>

lemma server_acknowledges_what_it_lost:
  assumes "\<And>h. \<not> sp_stdout E h"
  shows "fst (on_server_call E f s) = 0 \<and> ss_replies (snd (on_server_call E f s)) = ss_replies s"
  using assms by (simp add: on_server_call_def Let_def split: prod.split)

lemma server_streams_one_line:
  assumes "\<And>h. sp_stdout E h"
  shows "length (ss_replies (snd (on_server_call E f s))) = Suc (length (ss_replies s))"
  using assms by (simp add: on_server_call_def Let_def say_def split: prod.split)

lemma server_streams_every_call:
  assumes "\<And>h. sp_stdout E h"
  shows "length (ss_replies (snd (listen_and_dispatch E server s))) = length (ss_replies s) + length (sp_calls E (ss_log s))"
proof -
  have "length (ss_replies (fold (\<lambda>f s. snd (on_server_call E f s)) fs t)) = length (ss_replies t) + length fs" for fs t
    by (induction fs arbitrary: t) (simp_all add: server_streams_one_line [OF assms])
  then show ?thesis by (simp add: listen_and_dispatch_def Let_def)
qed

text \<open>A table without rows is an array, a table with rows an object that holds one.\<close>

lemma empty_table_is_an_array:
  assumes "marshal_table S c name n h = (Ok v, h')"
  shows "v = VArray [] \<or> (\<exists>rows total returned. v = VObject (om_of_list [(''rows'', VArray rows), (''total'', total), (''returned'', returned)]))"
  using assms by (auto simp: marshal_table_def mbind_def split: prod.splits result.splits if_splits)

text \<open>When a new connection cannot be opened, the closed handle stays and is closed again.\<close>

definition dead :: sap_env where
  "dead = lossy\<lparr>sp_sdk := lossy_sdk\<lparr>sd_rc := \<lambda>_ _. Some gone, sd_handle := \<lambda>_ _. Inl gone\<rparr>\<rparr>"

lemma failed_reopen_closes_again:
  "(let req = VObject [(''op'', VString ''ping'')]; s = serve_request dead req (serve_request dead req sap_start)
    in concat (map (\<lambda>c. case c of RClose conn \<Rightarrow> [conn] | _ \<Rightarrow> []) (ss_log s))) = [9, 9]"
  by code_simp

end
