(* ===== verification/Exec_Rpc.thy ===== *)
theory Exec_Rpc
  imports Drivers Sap
begin

text \<open>
  The driver \<open>exec-rpc\<close> of \<open>core/src/connectors.rs\<close>, which serves requests of the bus with a child process
  that reads one line and writes one line, the request side of the SAP tools (\<open>sap_rpc_request\<close> of
  \<open>core/src/main.rs\<close>), and the driver put together with the SAP connector it was made for.
\<close>

section \<open>A child on pipes\<close>

text \<open>
  A process that answers lines: what a line makes of its state and which lines it writes, and
  whether it has ended.
\<close>

record 'c process =
  pc_step :: "'c \<Rightarrow> string \<Rightarrow> 'c \<times> string list"
  pc_over :: "'c \<Rightarrow> int option option"

fun feed :: "'c process \<Rightarrow> 'c \<Rightarrow> string list \<Rightarrow> 'c \<times> string list" where
  "feed P c [] = (c, [])"
| "feed P c (l # ls) =
     (if pc_over P c \<noteq> None then (c, [])
      else (case pc_step P c l of (c1, out) \<Rightarrow> (case feed P c1 ls of (c2, rest) \<Rightarrow> (c2, out @ rest))))"

text \<open>
  The driver: the child, the lines it wrote that nobody has read, the answers sent, in order. A read
  with no line to come ends at the end of the output or waits for ever.
\<close>

record rpc_env =
  rp_name :: string
  rp_root :: string
  rp_config :: config
  rp_connect :: "(unit, string) result"
  rp_subscribe :: "(unit, string) result"
  rp_now :: "nat \<Rightarrow> nat"

record 'c rpc_state =
  rc_child :: 'c
  rc_unread :: "string list"
  rc_answers :: "(message \<times> string) list"
  rc_traces :: traces

datatype rpc_end = Serving | Waiting | Stopped | Failing string

definition bad_utf8 :: string where "bad_utf8 = ''stream did not contain valid UTF-8''"

definition rpc_answer :: "rpc_env \<Rightarrow> string \<Rightarrow> message \<Rightarrow> string \<Rightarrow> 'c rpc_state \<Rightarrow> 'c rpc_state" where
  "rpc_answer E subject m l s =
     s\<lparr>rc_answers := rc_answers s @ [(m, trim l)],
       rc_traces := record_trace_full (rp_now E (length (rc_answers s))) (rp_name E) subject True None [subject]
         (Sinks.trace_preview (trim l)) None None (rc_traces s)\<rparr>"

definition rpc_request :: "rpc_env \<Rightarrow> 'c process \<Rightarrow> string \<Rightarrow> message \<Rightarrow> 'c rpc_state \<Rightarrow> rpc_end \<times> 'c rpc_state" where
  "rpc_request E P subject m s =
     (if pc_over P (rc_child s) \<noteq> None then (Failing ''child stdin closed'', s)
      else
        (case feed P (rc_child s) (str_split (ms_data m) [CHR 0x0A]) of (c, out) \<Rightarrow>
           (case rc_unread s @ out of
              [] \<Rightarrow>
                (if pc_over P c \<noteq> None then Failing ''child stdout closed'' else Waiting, s\<lparr>rc_child := c\<rparr>)
            | l # rest \<Rightarrow>
                (let s1 = s\<lparr>rc_child := c, rc_unread := rest\<rparr> in
                 if valid_utf8 l then (Serving, rpc_answer E subject m l s1) else (Failing bad_utf8, s1)))))"

text \<open>The loop: each turn it is told to stop, gets a request, or sees none in time.\<close>

datatype rpc_event = Stop | Request message | NoRequest

fun rpc_loop :: "rpc_env \<Rightarrow> 'c process \<Rightarrow> string \<Rightarrow> rpc_event list \<Rightarrow> 'c rpc_state \<Rightarrow> rpc_end \<times> 'c rpc_state" where
  "rpc_loop E P subject [] s = (Serving, s)"
| "rpc_loop E P subject (Stop # es) s = (Stopped, s)"
| "rpc_loop E P subject (Request m # es) s =
     (case rpc_request E P subject m s of
        (Serving, s1) \<Rightarrow> rpc_loop E P subject es s1
      | (r, s1) \<Rightarrow> (r, s1))"
| "rpc_loop E P subject (NoRequest # es) s =
     (case pc_over P (rc_child s) of
        Some code \<Rightarrow> (Failing (''child exited: '' @ exit_code_text code), s)
      | None \<Rightarrow> rpc_loop E P subject es s)"

text \<open>
  The start: the child, with what it wrote at once, and its first line, which is dropped; when the
  output has ended there is none.
\<close>

definition rpc_start :: "'c process \<Rightarrow> 'c \<times> string list \<Rightarrow> rpc_end \<times> 'c rpc_state" where
  "rpc_start P started =
     (case started of (c, out) \<Rightarrow>
        (case out of
           l # rest \<Rightarrow> (if valid_utf8 l then Serving else Failing bad_utf8, \<lparr>rc_child = c, rc_unread = rest, rc_answers = [], rc_traces = no_traces\<rparr>)
         | [] \<Rightarrow> (if pc_over P c = None then Waiting else Serving, \<lparr>rc_child = c, rc_unread = [], rc_answers = [], rc_traces = no_traces\<rparr>)))"

definition exec_rpc_run ::
  "rpc_env \<Rightarrow> 'c process \<Rightarrow> ('c \<times> string list, string) result \<Rightarrow> rpc_event list \<Rightarrow> rpc_end \<times> 'c rpc_state option" where
  "exec_rpc_run E P spawned es =
     (case (cfg_str (rp_config E) ''CMD'', cfg_str (rp_config E) ''REQUEST_SUBJECT'') of
        (None, _) \<Rightarrow> (Failing ''CMD required'', None)
      | (_, None) \<Rightarrow> (Failing ''REQUEST_SUBJECT required'', None)
      | (Some _, Some subject) \<Rightarrow>
          if starts_with subject (rp_root E @ ''.'') then
            (Failing (''REQUEST_SUBJECT must not be under '' @ rp_root E @ ''.* (JetStream-captured); use e.g. vxrpc.sap''), None)
          else
            (case (rp_connect E, spawned) of
               (Err e, _) \<Rightarrow> (Failing e, None)
             | (Ok _, Err e) \<Rightarrow> (Failing e, None)
             | (Ok _, Ok started) \<Rightarrow>
                 (case rpc_start P started of
                    (Serving, s) \<Rightarrow>
                      (case rp_subscribe E of
                         Ok _ \<Rightarrow> (case rpc_loop E P subject es s of (r, s1) \<Rightarrow> (r, Some s1))
                       | Err e \<Rightarrow> (Failing e, Some s)
                       | Panic \<Rightarrow> (Failing [], Some s))
                  | (r, s) \<Rightarrow> (r, Some s))
             | _ \<Rightarrow> (Failing [], None)))"

text \<open>The probe: the same child, one ping. Its verdict needs the answer to say it is fine.\<close>

definition ping_line :: string where
  "ping_line = ''{'' @ dq @ ''op'' @ dq @ '':'' @ dq @ ''ping'' @ dq @ ''}''"

definition rpc_probe_verdict :: "codec \<Rightarrow> (string \<Rightarrow> string) \<Rightarrow> string \<Rightarrow> (string, string) result" where
  "rpc_probe_verdict C json_error l =
     (case cd_parse C (trim l) of
        None \<Rightarrow> Err (json_error (trim l))
      | Some v \<Rightarrow>
          if value_get v ''ok'' = Some (VBool True) then Ok (''ping ok'' @ dash @ trim l)
          else Err (''ping failed: '' @ trim l))"

definition exec_rpc_probe ::
  "codec \<Rightarrow> (string \<Rightarrow> string) \<Rightarrow> config \<Rightarrow> 'c process \<Rightarrow> ('c \<times> string list, string) result \<Rightarrow> (string, string) result option" where
  "exec_rpc_probe C json_error c P spawned =
     (case cfg_str c ''CMD'' of
        None \<Rightarrow> Some (Err ''CMD required'')
      | Some _ \<Rightarrow>
          (case spawned of
             Ok started \<Rightarrow>
               (case rpc_start P started of
                  (Serving, s) \<Rightarrow>
                    if pc_over P (rc_child s) \<noteq> None then Some (Err ''Broken pipe (os error 32)'')
                    else
                      (case feed P (rc_child s) [ping_line] of (c1, out) \<Rightarrow>
                         (case rc_unread s @ out of
                            l # _ \<Rightarrow> Some (if valid_utf8 l then rpc_probe_verdict C json_error l else Err bad_utf8)
                          | [] \<Rightarrow> if pc_over P c1 = None then None else Some (rpc_probe_verdict C json_error [])))
                | (Failing e, s) \<Rightarrow> Some (Err e)
                | _ \<Rightarrow> None)
           | Err e \<Rightarrow> Some (Err e)
           | Panic \<Rightarrow> Some Panic))"

section \<open>The request side\<close>

definition manifest_paths_in :: "listing \<Rightarrow> path \<Rightarrow> path list" where
  "manifest_paths_in L dir =
     (case L dir of
        None \<Rightarrow> []
      | Some names \<Rightarrow> map (\<lambda>n. dir @ [n]) (filter (\<lambda>n. has_vjs_ext n \<and> \<not> starts_with n ''_'') names))"

definition connector_manifest_paths :: "listing \<Rightarrow> path \<Rightarrow> path list" where
  "connector_manifest_paths L dir =
     manifest_paths_in L (dir @ [''connectors'']) @
     (case L (dir @ [''packages'']) of
        None \<Rightarrow> []
      | Some pkgs \<Rightarrow> concat (map (\<lambda>p. manifest_paths_in L (dir @ [''packages'', p, ''connectors''])) pkgs))"

definition text_var :: "json omap \<Rightarrow> string \<Rightarrow> string option" where
  "text_var vs k = (case om_get vs k of Some (VString t) \<Rightarrow> Some t | _ \<Rightarrow> None)"

fun rpc_subject :: "ctl_env \<Rightarrow> path list \<Rightarrow> (string option, string) result" where
  "rpc_subject C [] = Ok None"
| "rpc_subject C (p # ps) =
     (case ct_read C p of
        Ok src \<Rightarrow>
          (case parse src of
             Ok prog \<Rightarrow>
               if pg_driver prog \<noteq> Some ''exec-rpc'' then rpc_subject C ps
               else
                 rbind (map_err (humanize \<circ> ct_run_error C)
                     (fst (run (ct_world C) prog (VObject []) (with_secrets (ct_root C) (pkg_of_path p) (ct_get C))))) (\<lambda>c.
                   case text_var (vars c) ''REQUEST_SUBJECT'' of
                     Some t \<Rightarrow> Ok (Some t)
                   | None \<Rightarrow> rpc_subject C ps)
           | Err _ \<Rightarrow> rpc_subject C ps
           | Panic \<Rightarrow> Panic)
      | _ \<Rightarrow> rpc_subject C ps)"

definition no_rpc_connector :: string where
  "no_rpc_connector =
     ''no exec-rpc SAP connector found'' @ dash @ ''add a manifest with driver '' @ dq @ ''exec-rpc'' @ dq @
     '' and REQUEST_SUBJECT (see docs/examples/sap_rpc.vjs.example)''"

definition sap_rpc_request ::
  "ctl_env \<Rightarrow> (string \<Rightarrow> string) \<Rightarrow> (unit, string) result \<Rightarrow> (string \<Rightarrow> string \<Rightarrow> (string, string) result) \<Rightarrow> json \<Rightarrow> (json, string) result" where
  "sap_rpc_request C json_error connection ask op =
     rbind (rpc_subject C (connector_manifest_paths (ct_listing C) (ct_root C))) (\<lambda>found.
       case found of
         None \<Rightarrow> Err no_rpc_connector
       | Some subject \<Rightarrow>
           rbind connection (\<lambda>_.
           rbind (map_err (\<lambda>e. ''SAP connector did not answer on '' @ subject @ '': '' @ e) (ask subject (cd_print (ct_codec C) op))) (\<lambda>data.
             case cd_parse (ct_codec C) data of Some v \<Rightarrow> Ok v | None \<Rightarrow> Err (json_error data))))"

section \<open>A server of lines\<close>

text \<open>
  What the driver relies on: the child does not end, and a line that is not blank gets exactly one
  line, which answers it, as long as the child prints whole lines (\<open>clean\<close>). Then every request that is
  one such line gets the answer to itself.
\<close>

locale line_server =
  fixes P :: "'c process" and ans :: "string \<Rightarrow> string \<Rightarrow> bool" and clean :: bool
  assumes lives: "pc_over P c = None"
    and one_line: "clean \<Longrightarrow> trim l \<noteq> [] \<Longrightarrow> \<exists>r. snd (pc_step P c l) = [r] \<and> valid_utf8 r \<and> trim r = r \<and> ans l r"
begin

definition one_request :: "message \<Rightarrow> bool" where
  "one_request m \<longleftrightarrow> str_split (ms_data m) [CHR 0x0A] = [ms_data m] \<and> trim (ms_data m) \<noteq> []"

lemma request_answered:
  assumes "clean" and "one_request m" and "rc_unread s = []"
  obtains r s1 where "rpc_request E P subject m s = (Serving, s1)" "rc_unread s1 = []"
    "rc_answers s1 = rc_answers s @ [(m, r)]" "ans (ms_data m) r"
proof -
  obtain r where r: "snd (pc_step P (rc_child s) (ms_data m)) = [r]" "valid_utf8 r" "trim r = r" "ans (ms_data m) r"
    using one_line [OF assms(1)] assms(2) one_request_def by blast
  obtain c where c: "pc_step P (rc_child s) (ms_data m) = (c, [r])"
    using r(1) by (metis prod.collapse)
  have "feed P (rc_child s) [ms_data m] = (c, [r])" using c lives by simp
  then show thesis
    using that [of "rpc_answer E subject m r (s\<lparr>rc_child := c, rc_unread := []\<rparr>)" r] assms r lives
    by (simp add: rpc_request_def one_request_def rpc_answer_def Let_def)
qed

lemma requests_answered:
  assumes "clean" and "\<forall>m \<in> set ms. one_request m" and "rc_unread s = []"
  shows "\<exists>rs. fst (rpc_loop E P subject (map Request ms) s) = Serving \<and>
    rc_answers (snd (rpc_loop E P subject (map Request ms) s)) = rc_answers s @ zip ms rs \<and>
    list_all2 (\<lambda>m r. ans (ms_data m) r) ms rs"
  using assms
proof (induction ms arbitrary: s)
  case (Cons m ms)
  then have "one_request m" by simp
  then obtain r s1 where s1: "rpc_request E P subject m s = (Serving, s1)" "rc_unread s1 = []"
    "rc_answers s1 = rc_answers s @ [(m, r)]" "ans (ms_data m) r"
    using request_answered [of m s E subject] Cons.prems(1,3) by blast
  obtain rs where "fst (rpc_loop E P subject (map Request ms) s1) = Serving"
    "rc_answers (snd (rpc_loop E P subject (map Request ms) s1)) = rc_answers s1 @ zip ms rs"
    "list_all2 (\<lambda>m r. ans (ms_data m) r) ms rs"
    using Cons.IH [of s1] Cons.prems(1,2) s1(2) by auto
  then show ?case using s1 by (intro exI [of _ "r # rs"]) simp
qed auto

end

section \<open>The driver and the SAP connector\<close>

text \<open>
  The client mode of the SAP connector as a child: a line is served, and what it replies is printed,
  a line each.
\<close>

definition sap_process :: "sap_env \<Rightarrow> sap_state process" where
  "sap_process E =
     \<lparr>pc_step = \<lambda>s l. let s' = serve_line E l s
        in (s', map (cd_print (sp_codec E)) (drop (length (ss_replies s)) (ss_replies s'))),
      pc_over = \<lambda>_. None\<rparr>"

definition sap_answer :: "sap_env \<Rightarrow> string \<Rightarrow> string \<Rightarrow> bool" where
  "sap_answer E l t \<longleftrightarrow> (\<exists>r. t = cd_print (sp_codec E) r \<and> answers E l r)"

text \<open>A codec that prints a value on one line, with nothing around it.\<close>

definition prints_lines :: "codec \<Rightarrow> bool" where
  "prints_lines C \<longleftrightarrow> (\<forall>v. valid_utf8 (cd_print C v) \<and> trim (cd_print C v) = cd_print C v)"

interpretation sap_rpc: line_server "sap_process E" "sap_answer E" "prints_lines (sp_codec E)" for E
proof unfold_locales
  fix c l
  show "pc_over (sap_process E) c = None" by (simp add: sap_process_def)
  assume C: "prints_lines (sp_codec E)" and "trim l \<noteq> []"
  then obtain r where "ss_replies (serve_line E l c) = ss_replies c @ [r]" "answers E l r"
    using serve_line_replies by blast
  then show "\<exists>r. snd (pc_step (sap_process E) c l) = [r] \<and> valid_utf8 r \<and> trim r = r \<and> sap_answer E l r"
    using C by (auto simp: sap_process_def Let_def prints_lines_def sap_answer_def)
qed

definition one_line_request :: "message \<Rightarrow> bool" where
  "one_line_request m \<longleftrightarrow> str_split (ms_data m) [CHR 0x0A] = [ms_data m] \<and> trim (ms_data m) \<noteq> []"

lemma one_line_request: "sap_rpc.one_request = one_line_request"
  by (simp add: fun_eq_iff one_line_request_def sap_rpc.one_request_def)


definition rpc_demo :: rpc_env where
  "rpc_demo = \<lparr>rp_name = ''sap'', rp_root = ''vx'', rp_config = [], rp_connect = Ok (), rp_subscribe = Ok (), rp_now = \<lambda>_. 0\<rparr>"

text \<open>A connector over a library that accepts everything; a number is a ping with that identifier.\<close>

definition id_codec :: codec where
  "id_codec = \<lparr>cd_print = \<lambda>v. case value_get v ''id'' of Some (VNumber (PosInt n)) \<Rightarrow> int_str (n mod 10) | _ \<Rightarrow> ''x'',
     cd_parse = \<lambda>s. case parse_digits s of
       Some n \<Rightarrow> Some (VObject [(''id'', VNumber (PosInt n)), (''op'', VString ''ping'')]) | None \<Rightarrow> None\<rparr>"

definition sap_demo :: sap_env where
  "sap_demo = lossy\<lparr>sp_codec := id_codec\<rparr>"

definition request_of :: "string \<Rightarrow> message" where
  "request_of t = \<lparr>ms_subject = ''vxrpc.sap'', ms_data = t, ms_reply = Some t\<rparr>"


section \<open>Defects\<close>

text \<open>
  A request with a newline in it is two lines to the child, whose second reply goes to the next
  caller, and so on for every caller after it.
\<close>

lemma newline_shifts_the_replies:
  "(let s = snd (rpc_start (sap_process sap_demo) (sap_start, [''ready'']));
        lf = CHR 0x0A; ms = [request_of [CHR ''1'', lf, CHR ''2''], request_of ''3'', request_of ''4'']
    in map snd (rc_answers (snd (rpc_loop rpc_demo (sap_process sap_demo) ''vxrpc.sap'' (map Request ms) s)))) =
   [''1'', ''2'', ''3'']"
  by code_simp

text \<open>A blank request has no reply, so the driver waits for one and serves nobody else.\<close>

lemma blank_request_blocks_the_driver:
  "fst (rpc_loop rpc_demo (sap_process sap_demo) ''vxrpc.sap'' [Request (request_of '' ''), Request (request_of ''3'')]
     (snd (rpc_start (sap_process sap_demo) (sap_start, [''ready''])))) = Waiting"
  by code_simp

end
