(* ===== verification/Mcp.thy ===== *)
theory Mcp
  imports Agent Exec_Rpc Provision
begin

text \<open>
  The tool server for agents, \<open>mcp_tools\<close>, \<open>mcp_call\<close> and \<open>mcp_dispatch\<close> of \<open>core/src/main.rs\<close>: every
  tool over one state of the whole runtime, in which the components of the other theories run on
  their own part. The environment is what one call meets: the listings and times of files a call
  reads are those of its only scan.
\<close>

section \<open>The runtime\<close>

text \<open>
  \<open>me_ctl\<close> carries the texts of errors, the probes of the drivers and the listing; its files,
  secrets, root and clock come from the other fields. \<open>me_tree\<close> and \<open>me_exists\<close> are the tree of a
  template and whether a package is there, \<open>me_hydrate\<close> the persisted traffic of a subject,
  \<open>me_recent\<close> the audit records of a unit, \<open>me_ask\<close> a request over the bus after those already
  sent, \<open>me_check\<close> the error of the detection engine on a program.
\<close>

record 's mcp_env =
  me_gov :: "'s genv"
  me_host :: host
  me_ctl :: ctl_env
  me_nats :: nats
  me_agent :: agent_env
  me_gerr :: "gerr \<Rightarrow> string"
  me_provision_error :: "provision_error \<Rightarrow> string"
  me_json_error :: "string \<Rightarrow> string"
  me_tree :: "string \<Rightarrow> tree_node list option"
  me_exists :: "string \<Rightarrow> bool"
  me_write :: "fs \<Rightarrow> path \<Rightarrow> (string \<times> fentry) option"
  me_hydrate :: "string \<Rightarrow> nat \<Rightarrow> (row list, string) result"
  me_recent :: "string \<Rightarrow> (json list, string) result"
  me_connection :: "(unit, string) result"
  me_ask :: "(string \<times> string) list \<Rightarrow> string \<Rightarrow> string \<Rightarrow> (string, string) result"
  me_check :: "string \<Rightarrow> string option"

text \<open>
  The state: files, governance, canaries and the threads that follow them, the calls on the bus, the
  units, the rotation requests, the traces, the requests sent to connectors and the metrics.
\<close>

record 's runtime =
  rt_fs :: fs
  rt_gov :: "'s gov"
  rt_canaries :: "canary omap"
  rt_tasks :: "canary_task list"
  rt_history :: "call list"
  rt_registry :: registry
  rt_rotations :: "string set"
  rt_traces :: traces
  rt_asked :: "(string \<times> string) list"
  rt_units :: Metrics.units

type_synonym ('s, 'a) rm = "('s runtime, 'a, string) stm"

definition env_of :: "'s mcp_env \<Rightarrow> env" where
  "env_of M = h_env (me_host M)"

definition gov_of :: "'s mcp_env \<Rightarrow> 's genv" where
  "gov_of M = (me_gov M)\<lparr>ge_env := env_of M\<rparr>"

definition printed :: "'s mcp_env \<Rightarrow> json \<Rightarrow> string" where
  "printed M = cd_print (ge_codec (me_gov M))"

definition read_text :: "fs \<Rightarrow> path \<Rightarrow> (string, string) result" where
  "read_text fs p =
     (case fs p of Content t \<Rightarrow> Ok t | Missing \<Rightarrow> Err ''No such file or directory (os error 2)'' | Unreadable e \<Rightarrow> Err e)"

definition world_of :: "'s mcp_env \<Rightarrow> 's runtime \<Rightarrow> world" where
  "world_of M s = (ct_world (me_ctl M))\<lparr>w_read := fs_text (rt_fs s)\<rparr>"

definition ctl_of :: "'s mcp_env \<Rightarrow> 's runtime \<Rightarrow> ctl_env" where
  "ctl_of M s = (me_ctl M)
     \<lparr>ct_get := store_get (me_host M) (rt_fs s) (default_store (env_of M)), ct_backend := kind (default_store (env_of M)),
      ct_root := ge_root (me_gov M), ct_read := read_text (rt_fs s), ct_canon := ge_canon (me_gov M),
      ct_world := world_of M s, ct_codec := ge_codec (me_gov M), ct_now := ge_now (me_gov M)\<rparr>"

definition shadow_of :: "'s mcp_env \<Rightarrow> 's runtime \<Rightarrow> shadow_env" where
  "shadow_of M s =
     \<lparr>sh_world = world_of M s, sh_host = me_host M, sh_fs = rt_fs s, sh_run_error = ct_run_error (me_ctl M)\<rparr>"

definition provision_of :: "'s mcp_env \<Rightarrow> provision_env" where
  "provision_of M =
     \<lparr>pe_host = me_host M, pe_listing = (\<lambda>_. ct_listing (me_ctl M)), pe_mtime = (\<lambda>_. ct_mtime (me_ctl M)),
      pe_parse_json = cd_parse (ge_codec (me_gov M)), pe_spawn = ct_spawn (me_ctl M), pe_write = me_write M\<rparr>"

text \<open>The parts of the state a component works on. What governance writes is written in the files.\<close>

definition fs_after :: "fs \<Rightarrow> (path \<Rightarrow> string option) \<Rightarrow> fs" where
  "fs_after fs files p =
     (if files p = fs_text fs p then fs p else (case files p of Some t \<Rightarrow> Content t | None \<Rightarrow> Missing))"

definition on_project :: "'s mcp_env \<Rightarrow> ('s, 'a) gm \<Rightarrow> ('s, 'a) rm" where
  "on_project M m s =
     (case m ((rt_gov s)\<lparr>g_files := fs_text (rt_fs s)\<rparr>) of
        (r, g) \<Rightarrow> (map_err (me_gerr M) r, s\<lparr>rt_gov := g, rt_fs := fs_after (rt_fs s) (g_files g)\<rparr>))"

definition on_canaries :: "'s mcp_env \<Rightarrow> ('s, 'a) cm \<Rightarrow> ('s, 'a) rm" where
  "on_canaries M m s =
     (case m ((rt_gov s)\<lparr>g_files := fs_text (rt_fs s)\<rparr>, rt_canaries s) of
        (r, (g, cs)) \<Rightarrow>
          (map_err (me_gerr M) r, s\<lparr>rt_gov := g, rt_fs := fs_after (rt_fs s) (g_files g), rt_canaries := cs\<rparr>))"

definition on_calls :: "'a bm \<Rightarrow> ('s, 'a) rm" where
  "on_calls m s = (case m (rt_history s) of (r, h) \<Rightarrow> (r, s\<lparr>rt_history := h\<rparr>))"

definition on_files :: "(fs, 'a, string) stm \<Rightarrow> ('s, 'a) rm" where
  "on_files m s = (case m (rt_fs s) of (r, f) \<Rightarrow> (r, s\<lparr>rt_fs := f\<rparr>))"

definition reload_m :: "'s mcp_env \<Rightarrow> ('s, nat \<times> nat \<times> nat) rm" where
  "reload_m M s =
     (case scan_all (ct_listing (me_ctl M)) (ct_mtime (me_ctl M)) (fs_text (rt_fs s)) (ge_root (me_gov M)) of
        Ok specs \<Rightarrow> (case reload (ct_spawn (me_ctl M)) specs (rt_registry s) of (n, R) \<Rightarrow> (Ok n, s\<lparr>rt_registry := R\<rparr>))
      | Err e \<Rightarrow> (Err e, s)
      | Panic \<Rightarrow> (Panic, s))"

section \<open>Arguments\<close>

definition need_arg :: "json \<Rightarrow> string \<Rightarrow> ('s, string) rm" where
  "need_arg args k = (case as_str (value_index args k) of Some v \<Rightarrow> mret v | None \<Rightarrow> mfail (k @ '' required''))"

definition nat_arg :: "json \<Rightarrow> string \<Rightarrow> nat \<Rightarrow> nat" where
  "nat_arg args k d = (case as_u64 (value_index args k) of Some n \<Rightarrow> nat n | None \<Rightarrow> d)"

definition seq_arg :: "json \<Rightarrow> nat option" where
  "seq_arg args = map_option nat (as_u64 (value_index args ''seq''))"

definition viewed :: "'s mcp_env \<Rightarrow> (ctl_env \<Rightarrow> 's runtime \<Rightarrow> (string, string) result) \<Rightarrow> ('s, string) rm" where
  "viewed M f = mbind mget (\<lambda>s. mlift (f (ctl_of M s) s))"

definition json_text :: "'s mcp_env \<Rightarrow> (json, string) result \<Rightarrow> (string, string) result" where
  "json_text M r = rbind r (\<lambda>v. Ok (printed M v))"

section \<open>Tools that read\<close>

definition tool_read :: "'s mcp_env \<Rightarrow> json \<Rightarrow> ('s, string) rm" where
  "tool_read M args =
     mbind (need_arg args ''path'') (\<lambda>rel. viewed M (\<lambda>C s. rbind (guarded_source C rel) (\<lambda>(_, src). Ok src)))"

text \<open>The engine's verdict on a detect unit. The path is not guarded.\<close>

definition joined :: "path \<Rightarrow> string \<Rightarrow> path" where
  "joined dir rel = (if starts_with rel ''/'' then comps rel else dir @ comps rel)"

definition vpl_source :: "'s mcp_env \<Rightarrow> string \<Rightarrow> 's runtime \<Rightarrow> (string, string) result" where
  "vpl_source M rel s =
     (case read_text (rt_fs s) (joined (ge_root (me_gov M)) rel) of
        Ok t \<Rightarrow> Ok t
      | _ \<Rightarrow> read_text (rt_fs s) (comps rel))"

definition tool_vpl_check :: "'s mcp_env \<Rightarrow> json \<Rightarrow> ('s, string) rm" where
  "tool_vpl_check M args =
     mbind (need_arg args ''file'') (\<lambda>rel. viewed M (\<lambda>C s.
       rbind (vpl_source M rel s) (\<lambda>src.
         Ok (printed M (VObject (om_of_list
           (case me_check M src of
              None \<Rightarrow> [(''ok'', VBool True), (''file'', VString rel)]
            | Some e \<Rightarrow> [(''ok'', VBool False), (''file'', VString rel), (''error'', VString e)])))))))"

definition tool_preview :: "'s mcp_env \<Rightarrow> json \<Rightarrow> ('s, string) rm" where
  "tool_preview M args =
     mbind (need_arg args ''file'') (\<lambda>rel. viewed M (\<lambda>C s.
       preview_json C (\<lambda>p. rt_fs s p \<noteq> Missing) (me_json_error M) rel))"

definition emits_text :: "'s mcp_env \<Rightarrow> (json, string) result \<Rightarrow> (string, string) result" where
  "emits_text M r = rbind r (\<lambda>es. Ok (printed M (VObject [(''emits'', es)])))"

definition tool_run_flow :: "'s mcp_env \<Rightarrow> json \<Rightarrow> ('s, string) rm" where
  "tool_run_flow M args =
     mbind (need_arg args ''file'') (\<lambda>rel. viewed M (\<lambda>C s.
       emits_text M (run_flow_on_input C rel (value_index args ''input''))))"

definition tool_drivers :: "'s mcp_env \<Rightarrow> ('s, string) rm" where
  "tool_drivers M =
     mret (printed M (VArray (map (\<lambda>(n, k, a).
       VObject (om_of_list [(''driver'', VString n), (''kind'', VString k), (''about'', VString a)])) catalog)))"

definition tool_test_connector :: "'s mcp_env \<Rightarrow> json \<Rightarrow> ('s, string) rm" where
  "tool_test_connector M args =
     mbind (need_arg args ''file'') (\<lambda>rel. viewed M (\<lambda>C s. json_text M (probe_connector C rel)))"

section \<open>Tools that try a change\<close>

definition replay_m :: "'s mcp_env \<Rightarrow> string \<Rightarrow> string \<Rightarrow> string \<Rightarrow> json \<Rightarrow> nat \<Rightarrow> ('s, string) rm" where
  "replay_m M rel name key v n =
     mbind mget (\<lambda>s.
     mbind (on_project M (replay_literal (gov_of M) (shadow_of M s) (rt_traces s)
         (\<lambda>subj. case me_hydrate M subj n of Ok rows \<Rightarrow> Some rows | _ \<Rightarrow> None) rel name key v n)) (\<lambda>out. mret (printed M out)))"

definition time_travel_m :: "'s mcp_env \<Rightarrow> string \<Rightarrow> string \<Rightarrow> nat \<Rightarrow> ('s, string) rm" where
  "time_travel_m M rel candidate n =
     mbind mget (\<lambda>s.
     mbind (on_project M (time_travel (gov_of M) (shadow_of M s) (\<lambda>subj. me_hydrate M subj n) rel candidate))
       (\<lambda>out. mret (printed M out)))"

definition canary_start_m :: "'s mcp_env \<Rightarrow> string \<Rightarrow> string \<Rightarrow> ('s, string) rm" where
  "canary_start_m M rel candidate =
     mbind (on_canaries M (canary_start (gov_of M) rel candidate)) (\<lambda>(k, v).
     mbind (mupd (\<lambda>s. s\<lparr>rt_tasks := rt_tasks s @ [k]\<rparr>)) (\<lambda>_. mret (printed M v)))"

definition canary_read_m :: "'s mcp_env \<Rightarrow> string \<Rightarrow> ('s, string) rm" where
  "canary_read_m M rel = mbind (on_canaries M (canary_read (gov_of M) rel)) (\<lambda>v. mret (printed M v))"

definition canary_stop_m :: "'s mcp_env \<Rightarrow> string \<Rightarrow> ('s, string) rm" where
  "canary_stop_m M rel = mbind (on_canaries M (canary_stop (gov_of M) rel)) (\<lambda>v. mret (printed M v))"

definition tool_replay_literal :: "'s mcp_env \<Rightarrow> json \<Rightarrow> ('s, string) rm" where
  "tool_replay_literal M args =
     mbind (need_arg args ''file'') (\<lambda>rel.
     mbind (need_arg args ''name'') (\<lambda>name.
       replay_m M rel name (str_field args ''key'' ''-'') (value_index args ''value'') (nat_arg args ''n'' 20)))"

definition tool_time_travel :: "'s mcp_env \<Rightarrow> json \<Rightarrow> ('s, string) rm" where
  "tool_time_travel M args =
     mbind (need_arg args ''file'') (\<lambda>rel.
     mbind (need_arg args ''candidate'') (\<lambda>candidate. time_travel_m M rel candidate (nat_arg args ''n'' 20)))"

definition tool_canary_start :: "'s mcp_env \<Rightarrow> json \<Rightarrow> ('s, string) rm" where
  "tool_canary_start M args =
     mbind (need_arg args ''file'') (\<lambda>rel.
     mbind (need_arg args ''candidate'') (\<lambda>candidate. canary_start_m M rel candidate))"

definition tool_canary_status :: "'s mcp_env \<Rightarrow> json \<Rightarrow> ('s, string) rm" where
  "tool_canary_status M args = mbind (need_arg args ''file'') (\<lambda>rel. canary_read_m M rel)"

definition tool_canary_stop :: "'s mcp_env \<Rightarrow> json \<Rightarrow> ('s, string) rm" where
  "tool_canary_stop M args = mbind (need_arg args ''file'') (\<lambda>rel. canary_stop_m M rel)"

definition tool_propose :: "'s mcp_env \<Rightarrow> json \<Rightarrow> ('s, string) rm" where
  "tool_propose M args =
     mbind (need_arg args ''kind'') (\<lambda>k.
     mbind (on_project M (submit_proposal (gov_of M) k (value_index args ''payload'') ''mcp'' (value_index args ''evidence'')))
       (\<lambda>v. mret (printed M v)))"

definition tool_proposals :: "'s mcp_env \<Rightarrow> ('s, string) rm" where
  "tool_proposals M =
     mbind (on_project M (reconcile_and_list (gov_of M))) (\<lambda>ps.
       mret (printed M (VObject [(''proposals'', VArray ps)])))"

section \<open>Tools that change the project\<close>

definition both_gates :: "'s mcp_env \<Rightarrow> ('s, 'a) rm \<Rightarrow> ('s, 'a) rm" where
  "both_gates M k =
     mbind (mlift (approval_gate (env_of M))) (\<lambda>_. mbind (mlift (cluster_write_guard (env_of M))) (\<lambda>_. k))"

definition check_content :: "'s mcp_env \<Rightarrow> string \<Rightarrow> string \<Rightarrow> ('s, unit) rm" where
  "check_content M rel content =
     (if ends_with rel ''.vjs'' then on_project M (mbind (parse_g content) (\<lambda>_. mret ()))
      else if ends_with rel ''.json'' then
        (case cd_parse (ge_codec (me_gov M)) content of
           Some _ \<Rightarrow> mret ()
         | None \<Rightarrow> mfail (''fixture must be valid JSON: '' @ me_json_error M content))
      else mfail ''only .vjs or .json files'')"

definition tool_write_flow :: "'s mcp_env \<Rightarrow> json \<Rightarrow> ('s, string) rm" where
  "tool_write_flow M args =
     both_gates M (
     mbind (need_arg args ''path'') (\<lambda>rel.
     mbind (need_arg args ''content'') (\<lambda>content.
     mbind (on_project M (guard (gov_of M) rel)) (\<lambda>p.
     mbind (check_content M rel content) (\<lambda>_.
     mbind (on_project M (write_file (gov_of M) p content)) (\<lambda>_.
     mbind (reload_m M) (\<lambda>(_, started, stopped).
       mret (printed M (VObject (om_of_list [(''ok'', VBool True), (''started'', num_json started), (''stopped'', num_json stopped)]))))))))))"

definition set_literal_here :: "'s genv \<Rightarrow> string \<Rightarrow> string \<Rightarrow> string \<Rightarrow> json \<Rightarrow> string \<Rightarrow> ('s, unit) gm" where
  "set_literal_here E rel name key v actor =
     mbind (guard E rel) (\<lambda>p.
     mbind (read_file p) (\<lambda>src.
     mbind (literal_before src name key) (\<lambda>before.
     mbind (edit E src name key v) (\<lambda>new_src.
     mbind (write_file E p new_src) (\<lambda>_. record_promote E rel name key before v actor)))))"

definition tool_set_literal :: "'s mcp_env \<Rightarrow> json \<Rightarrow> ('s, string) rm" where
  "tool_set_literal M args =
     mbind (mlift (approval_gate (env_of M))) (\<lambda>_.
     mbind (need_arg args ''file'') (\<lambda>rel.
     mbind (need_arg args ''name'') (\<lambda>name.
       let key = str_field args ''key'' ''-''; v = value_index args ''value'' in
       if clustered (env_of M) then
         mbind (on_project M (promote_version (gov_of M) rel name key v ''mcp'')) (\<lambda>out. mret (printed M out))
       else
         mbind (on_project M (set_literal_here (gov_of M) rel name key v ''mcp'')) (\<lambda>_.
         mbind (reload_m M) (\<lambda>_. mret (printed M ok_json))))))"

definition rollback_m :: "'s mcp_env \<Rightarrow> string \<Rightarrow> string \<Rightarrow> string \<Rightarrow> string \<Rightarrow> ('s, string) rm" where
  "rollback_m M rel name key actor =
     mbind (on_project M (rollback_literal (gov_of M) (me_recent M) rel name key actor)) (\<lambda>out.
     mbind (reload_m M) (\<lambda>_. mret (printed M out)))"

definition tool_rollback_literal :: "'s mcp_env \<Rightarrow> json \<Rightarrow> ('s, string) rm" where
  "tool_rollback_literal M args =
     both_gates M (
     mbind (need_arg args ''file'') (\<lambda>rel.
     mbind (need_arg args ''name'') (\<lambda>name.
       rollback_m M rel name (str_field args ''key'' ''-'') ''rollback:mcp'')))"

definition new_m :: "'s mcp_env \<Rightarrow> (agent_env \<Rightarrow> ctl_env \<Rightarrow> string \<Rightarrow> (fs, string, string) stm) \<Rightarrow> string \<Rightarrow> ('s, string) rm" where
  "new_m M generate prompt =
     mbind mget (\<lambda>s.
     mbind (on_files (generate (me_agent M) (ctl_of M s) prompt)) (\<lambda>out.
     mbind (reload_m M) (\<lambda>_. mret out)))"

definition tool_new :: "'s mcp_env \<Rightarrow> (agent_env \<Rightarrow> ctl_env \<Rightarrow> string \<Rightarrow> (fs, string, string) stm) \<Rightarrow> json \<Rightarrow> ('s, string) rm" where
  "tool_new M generate args = both_gates M (mbind (need_arg args ''prompt'') (\<lambda>prompt. new_m M generate prompt))"

definition reload_text :: "'s mcp_env \<Rightarrow> nat \<times> nat \<times> nat \<Rightarrow> string" where
  "reload_text M = (\<lambda>(n, started, stopped).
     printed M (VObject (om_of_list [(''total'', num_json n), (''started'', num_json started), (''stopped'', num_json stopped)])))"

definition tool_reload :: "'s mcp_env \<Rightarrow> ('s, string) rm" where
  "tool_reload M = mbind (reload_m M) (\<lambda>n. mret (reload_text M n))"

definition local_store :: string where
  "local_store = ''clustered: a local-file secret store would be written on one instance only'' @ dash @
     ''use a shared Vault backend, see ADR-0020''"

definition set_secret_m :: "'s mcp_env \<Rightarrow> string \<Rightarrow> string \<Rightarrow> ('s, string list) rm" where
  "set_secret_m M r v s =
     (case set_secret (me_host M) (printed M) (ct_spawn (me_ctl M)) (ct_listing (me_ctl M)) (ct_mtime (me_ctl M))
             (ge_root (me_gov M)) r v (rt_fs s, rt_rotations s, rt_registry s) of
        (out, (f, rot, R)) \<Rightarrow> (out, s\<lparr>rt_fs := f, rt_rotations := rot, rt_registry := R\<rparr>))"

definition secret_report :: "'s mcp_env \<Rightarrow> string \<Rightarrow> string list \<Rightarrow> string" where
  "secret_report M r restarted =
     printed M (VObject (om_of_list [(''ok'', VBool True), (''ref'', VString r), (''restarted'', VArray (map VString restarted))]))"

definition tool_set_secret :: "'s mcp_env \<Rightarrow> json \<Rightarrow> ('s, string) rm" where
  "tool_set_secret M args =
     mbind (mlift (approval_gate (env_of M))) (\<lambda>_.
       if clustered (env_of M) \<and> kind (default_store (env_of M)) \<noteq> ''vault'' then mfail local_store
       else
         mbind (need_arg args ''ref'') (\<lambda>r.
         mbind (need_arg args ''value'') (\<lambda>v.
           if v = [] then mfail ''empty value''
           else mbind (set_secret_m M r v) (\<lambda>restarted. mret (secret_report M r restarted)))))"

definition provision_m :: "'s mcp_env \<Rightarrow> string \<Rightarrow> string \<Rightarrow> json omap \<Rightarrow> bool \<Rightarrow> ('s, json) rm" where
  "provision_m M template slug params force s =
     (case provision (provision_of M) (ge_root (me_gov M)) (me_tree M template) (me_exists M slug) template slug params force
             (rt_fs s, rt_registry s) of
        (out, (f, R)) \<Rightarrow> (map_err (me_provision_error M) out, s\<lparr>rt_fs := f, rt_registry := R\<rparr>))"

definition tool_provision :: "'s mcp_env \<Rightarrow> json \<Rightarrow> ('s, string) rm" where
  "tool_provision M args =
     both_gates M (
     mbind (need_arg args ''template'') (\<lambda>template.
     mbind (need_arg args ''tenant_slug'') (\<lambda>slug.
     mbind (provision_m M template slug (case as_object (value_index args ''params'') of Some m \<Rightarrow> m | None \<Rightarrow> [])
         (as_bool (value_index args ''force'') = Some True))
       (\<lambda>out. mret (printed M out)))))"

definition dlq_m ::
  "'s mcp_env \<Rightarrow> (nats \<Rightarrow> codec \<Rightarrow> nat option \<Rightarrow> string option \<Rightarrow> string \<Rightarrow> nat \<Rightarrow> json bm) \<Rightarrow> json \<Rightarrow> string \<Rightarrow> ('s, string) rm" where
  "dlq_m M f args actor =
     mbind (on_calls (f (me_nats M) (ge_codec (me_gov M)) (seq_arg args) (as_str (value_index args ''unit'')) actor (ge_now (me_gov M))))
       (\<lambda>v. mret (printed M v))"

definition tool_dlq_act ::
  "'s mcp_env \<Rightarrow> (nats \<Rightarrow> codec \<Rightarrow> nat option \<Rightarrow> string option \<Rightarrow> string \<Rightarrow> nat \<Rightarrow> json bm) \<Rightarrow> json \<Rightarrow> ('s, string) rm" where
  "tool_dlq_act M f args = mbind (mlift (dlq_agent_gate (env_of M))) (\<lambda>_. dlq_m M f args ''mcp'')"

definition dlq_list_m :: "'s mcp_env \<Rightarrow> nat \<Rightarrow> ('s, string) rm" where
  "dlq_list_m M limit =
     mbind (on_calls (dlq_list (me_nats M) (ge_codec (me_gov M)) limit)) (\<lambda>letters.
       mret (printed M (VObject [(''dead_letters'', VArray letters)])))"

section \<open>SAP\<close>

text \<open>A request that reaches the bus is recorded, whatever comes back.\<close>

definition sap_m :: "'s mcp_env \<Rightarrow> json \<Rightarrow> ('s, string) rm" where
  "sap_m M op s =
     (let C = ctl_of M s;
          sent = (case (rpc_subject C (connector_manifest_paths (ct_listing C) (ct_root C)), me_connection M) of
                    (Ok (Some subject), Ok _) \<Rightarrow> [(subject, printed M op)]
                  | _ \<Rightarrow> [])
      in (json_text M (sap_rpc_request C (me_json_error M) (me_connection M) (me_ask M (rt_asked s)) op),
          s\<lparr>rt_asked := rt_asked s @ sent\<rparr>))"

definition given :: "json \<Rightarrow> string \<Rightarrow> (string \<times> json) list" where
  "given args k = (case value_get args k of Some v \<Rightarrow> [(k, v)] | None \<Rightarrow> [])"

definition tool_sap_list :: "'s mcp_env \<Rightarrow> json \<Rightarrow> ('s, string) rm" where
  "tool_sap_list M args =
     sap_m M (VObject (om_of_list [(''op'', VString ''list''), (''pattern'', VString (str_field args ''pattern'' ''*''))]))"

definition tool_sap_describe :: "'s mcp_env \<Rightarrow> json \<Rightarrow> ('s, string) rm" where
  "tool_sap_describe M args =
     mbind (need_arg args ''func'') (\<lambda>f. sap_m M (VObject (om_of_list [(''op'', VString ''describe''), (''func'', VString f)])))"

definition tool_sap_call :: "'s mcp_env \<Rightarrow> json \<Rightarrow> ('s, string) rm" where
  "tool_sap_call M args =
     mbind (need_arg args ''func'') (\<lambda>f.
       sap_m M (VObject (om_of_list ([(''op'', VString ''call''), (''func'', VString f)] @ given args ''import'' @ given args ''max_rows''))))"

definition tool_sap_send_idoc :: "'s mcp_env \<Rightarrow> json \<Rightarrow> ('s, string) rm" where
  "tool_sap_send_idoc M args =
     sap_m M (VObject (om_of_list ([(''op'', VString ''send_idoc''),
       (''control'', (case value_get args ''control'' of Some v \<Rightarrow> v | None \<Rightarrow> VObject [])),
       (''data'', (case value_get args ''data'' of Some v \<Rightarrow> v | None \<Rightarrow> VArray []))] @ given args ''tid'')))"

section \<open>Dispatch\<close>

definition tool_table :: "'s mcp_env \<Rightarrow> json \<Rightarrow> (string \<times> ('s, string) rm) list" where
  "tool_table M args =
     [(''vejas_topology'', mbind mget (\<lambda>s. mret (printed M (topology_json (rt_registry s))))),
      (''vejas_graph'', viewed M (\<lambda>C s. json_text M (graph_json C))),
      (''vejas_surface'', viewed M (\<lambda>C s. json_text M (surface_json C))),
      (''vejas_read'', tool_read M args),
      (''vejas_language'', mret language_vjs),
      (''vejas_vpl_check'', tool_vpl_check M args),
      (''vejas_events'', mbind mget (\<lambda>s. mret (events_json (ge_codec (me_gov M)) (as_str (value_index args ''flow'')) (rt_traces s)))),
      (''vejas_write_flow'', tool_write_flow M args),
      (''vejas_set_literal'', tool_set_literal M args),
      (''vejas_rollback_literal'', tool_rollback_literal M args),
      (''vejas_replay_literal'', tool_replay_literal M args),
      (''vejas_time_travel'', tool_time_travel M args),
      (''vejas_canary_start'', tool_canary_start M args),
      (''vejas_canary_status'', tool_canary_status M args),
      (''vejas_canary_stop'', tool_canary_stop M args),
      (''vejas_propose'', tool_propose M args),
      (''vejas_proposals'', tool_proposals M),
      (''vejas_preview'', tool_preview M args),
      (''vejas_run_flow'', tool_run_flow M args),
      (''vejas_new_flow'', tool_new M generate_flow args),
      (''vejas_new_connector'', tool_new M generate_connector args),
      (''vejas_reload'', tool_reload M),
      (''vejas_drivers'', tool_drivers M),
      (''vejas_secrets'', viewed M (\<lambda>C s. secrets_json C (rt_rotations s))),
      (''vejas_set_secret'', tool_set_secret M args),
      (''vejas_test_connector'', tool_test_connector M args),
      (''vejas_provision'', tool_provision M args),
      (''sap_list'', tool_sap_list M args),
      (''sap_describe'', tool_sap_describe M args),
      (''sap_call'', tool_sap_call M args),
      (''sap_send_idoc'', tool_sap_send_idoc M args),
      (''vejas_dlq'', dlq_list_m M (nat_arg args ''limit'' 100)),
      (''vejas_dlq_replay'', tool_dlq_act M dlq_replay args),
      (''vejas_dlq_purge'', tool_dlq_act M dlq_purge args)]"

text \<open>A name that is no built-in tool may be a flow that declares itself one.\<close>

definition call_flow :: "'s mcp_env \<Rightarrow> string \<Rightarrow> json \<Rightarrow> ('s, string) rm" where
  "call_flow M name args =
     viewed M (\<lambda>C s.
       rbind (tool_flows C) (\<lambda>tools.
         case List.find (\<lambda>(n, _). n = name) tools of
           Some (_, rel, _) \<Rightarrow> emits_text M (run_flow_on_input C rel args)
         | None \<Rightarrow> Err (''unknown tool '' @ ct_debug C name)))"

definition mcp_call :: "'s mcp_env \<Rightarrow> string \<Rightarrow> json \<Rightarrow> ('s, json) rm" where
  "mcp_call M name args =
     mbind (case map_of (tool_table M args) name of Some m \<Rightarrow> m | None \<Rightarrow> call_flow M name args) (\<lambda>t.
       mret (VObject [(''content'', VArray [VObject (om_of_list [(''type'', VString ''text''), (''text'', VString t)])])]))"

definition mcp_tools :: "'s mcp_env \<Rightarrow> ('s, json) rm" where
  "mcp_tools M =
     mbind mget (\<lambda>s.
     mbind (mlift (tool_flows (ctl_of M s))) (\<lambda>flows.
       mret (VArray (tools_of builtin_specs @ (if agent_available (me_agent M) then tools_of agent_specs else []) @
         map (\<lambda>(name, _, desc). VObject (om_of_list [(''name'', VString name), (''description'', VString desc),
           (''inputSchema'', VObject (om_of_list [(''type'', VString ''object''), (''description'', VString ''the input event for this flow'')]))]))
           flows))))"

definition rpc_reply :: "json \<Rightarrow> string \<Rightarrow> json \<Rightarrow> json" where
  "rpc_reply req k v = VObject (om_of_list [(''jsonrpc'', VString ''2.0''), (''id'', value_index req ''id''), (k, v)])"

text \<open>The error of a call is its answer; what the call changed stays.\<close>

definition call_reply :: "('s, json) rm \<Rightarrow> ('s, json) rm" where
  "call_reply m s =
     (case m s of
        (Err e, s1) \<Rightarrow>
          (Ok (VObject (om_of_list [(''content'', VArray [VObject (om_of_list [(''type'', VString ''text''), (''text'', VString (''error: '' @ e))])]),
             (''isError'', VBool True)])), s1)
      | (r, s1) \<Rightarrow> (r, s1))"

definition mcp_dispatch :: "'s mcp_env \<Rightarrow> json \<Rightarrow> ('s, json option) rm" where
  "mcp_dispatch M req =
     (let meth = str_field req ''method'' [];
          answer = (\<lambda>m. mbind m (\<lambda>v. mret (Some (rpc_reply req ''result'' v)))) in
      if meth = ''initialize'' then
        answer (mret (VObject (om_of_list [(''protocolVersion'', VString ''2024-11-05''),
          (''capabilities'', VObject [(''tools'', VObject [(''listChanged'', VBool True)])]),
          (''serverInfo'', VObject (om_of_list [(''name'', VString ''vejas''), (''version'', VString (ct_version (me_ctl M)))]))])))
      else if meth = ''notifications/initialized'' \<or> meth = ''notifications/cancelled'' then mret None
      else if meth = ''ping'' then answer (mret (VObject []))
      else if meth = ''tools/list'' then answer (mbind (mcp_tools M) (\<lambda>v. mret (VObject [(''tools'', v)])))
      else if meth = ''tools/call'' then
        (let params = value_index req ''params'' in
         answer (call_reply (mcp_call M (str_field params ''name'' [])
           (case value_get params ''arguments'' of Some a \<Rightarrow> a | None \<Rightarrow> VObject []))))
      else mret (Some (rpc_reply req ''error''
        (VObject (om_of_list [(''code'', VNumber (NegInt (- 32601))), (''message'', VString (''method not found: '' @ meth))])))))"

text \<open>\<open>POST /mcp\<close>: one request or a batch of them; \<open>None\<close> when there is nothing to answer.\<close>

fun mcp_batch :: "'s mcp_env \<Rightarrow> json list \<Rightarrow> ('s, json list) rm" where
  "mcp_batch M [] = mret []"
| "mcp_batch M (r # rs) =
     mbind (mcp_dispatch M r) (\<lambda>a. mbind (mcp_batch M rs) (\<lambda>as. mret (case a of Some v \<Rightarrow> v # as | None \<Rightarrow> as)))"

definition mcp_body :: "'s mcp_env \<Rightarrow> json \<Rightarrow> ('s, json option) rm" where
  "mcp_body M body =
     (case as_array body of
        Some rs \<Rightarrow> mbind (mcp_batch M rs) (\<lambda>as. mret (if as = [] then None else Some (VArray as)))
      | None \<Rightarrow> mcp_dispatch M body)"

end
