(* ===== verification/Mcp_Props.thy ===== *)
theory Mcp_Props
  imports Mcp
begin

text \<open>
  What an agent can and cannot do through its tools: in governed mode it changes nothing but by
  proposal, whatever it sends; the tools that are listed are the tools that are served.
\<close>

section \<open>Stored proposals and overlays\<close>

text \<open>
  Through the view of the bucket (\<open>kv_laws\<close>): a proposal is decided when its status says so. The
  bucket answers every write, and a document that is read back has the status it was printed with.
\<close>

definition stored :: "codec \<Rightarrow> ('s \<Rightarrow> string \<Rightarrow> (string \<times> nat) option) \<Rightarrow> 's \<Rightarrow> string \<Rightarrow> json option" where
  "stored C view b i = (case view b i of Some (t, _) \<Rightarrow> cd_parse C t | None \<Rightarrow> None)"

definition decided :: "json \<Rightarrow> bool" where
  "decided p \<longleftrightarrow> as_str (value_index p ''status'') \<in> {Some ''approved'', Some ''rejected''}"

definition no_decision :: "codec \<Rightarrow> ('s \<Rightarrow> string \<Rightarrow> (string \<times> nat) option) \<Rightarrow> 's \<Rightarrow> 's \<Rightarrow> bool" where
  "no_decision C view a b \<longleftrightarrow> (\<forall>i p. stored C view b i = Some p \<and> decided p \<longrightarrow> stored C view a i = Some p)"

definition only_evicted :: "('s \<Rightarrow> string \<Rightarrow> (string \<times> nat) option) \<Rightarrow> 's \<Rightarrow> 's \<Rightarrow> bool" where
  "only_evicted view a b \<longleftrightarrow> (\<forall>k x. view b k = Some x \<longrightarrow> view a k = Some x)"

definition kv_answers :: "'s kv \<Rightarrow> bool" where
  "kv_answers K \<longleftrightarrow> (\<forall>k v s. fst (kv_put K k v s) \<noteq> Panic) \<and> (\<forall>k s. fst (kv_delete K k s) \<noteq> Panic)"

definition status_read_back :: "codec \<Rightarrow> bool" where
  "status_read_back C \<longleftrightarrow>
     (\<forall>v w. cd_parse C (cd_print C v) = Some w \<longrightarrow> as_str (value_index w ''status'') = as_str (value_index v ''status''))"

lemma no_decision_refl [simp]: "no_decision C view a a" "only_evicted view a a"
  by (simp_all add: no_decision_def only_evicted_def)

lemma no_decision_trans:
  "no_decision C view a b \<Longrightarrow> no_decision C view b c \<Longrightarrow> no_decision C view a c"
  "only_evicted view a b \<Longrightarrow> only_evicted view b c \<Longrightarrow> only_evicted view a c"
  by (auto simp: no_decision_def only_evicted_def)

lemma kv_put_err: "kv_laws K view seq \<Longrightarrow> kv_put K k v s = (Err e, s') \<Longrightarrow> lost_write view seq k v s s'"
  unfolding kv_laws_def by metis

lemma delete_only_evicts:
  assumes "kv_laws K view seq" and "kv_answers K"
  shows "only_evicted view b (snd (kv_delete K k b))"
proof -
  obtain r b' where d: "kv_delete K k b = (r, b')" by fastforce
  with assms(2) have "r \<noteq> Panic" by (metis fst_conv kv_answers_def)
  then have "view b' = view b \<or> view b' = (view b)(k := None)"
  proof (cases r)
    case (Ok u)
    with d kv_delete_law [OF assms(1), of k b b'] show ?thesis by simp
  next
    case (Err e)
    with d kv_delete_err [OF assms(1), of k b e b'] show ?thesis by simp
  qed simp
  with d show ?thesis by (auto simp: only_evicted_def split: if_splits)
qed

lemma put_no_decision:
  assumes "kv_laws K view seq" and "kv_answers K" and "\<And>p. cd_parse C t = Some p \<Longrightarrow> \<not> decided p"
  shows "no_decision C view b (snd (kv_put K i t b))"
proof -
  obtain r b' where d: "kv_put K i t b = (r, b')" by fastforce
  with assms(2) have "r \<noteq> Panic" by (metis fst_conv kv_answers_def)
  then have "view b' = view b \<or> (\<exists>q. view b' = (view b)(i \<mapsto> (t, q)))"
  proof (cases r)
    case (Ok q)
    with d kv_put_law [OF assms(1), of i t b q b'] show ?thesis by (auto simp: written_def)
  next
    case (Err e)
    with d kv_put_err [OF assms(1), of i t b e b'] show ?thesis by (auto simp: written_def lost_write_def)
  qed simp
  with d assms(3) show ?thesis by (auto simp: no_decision_def stored_def split: if_splits)
qed

lemma undecided_text:
  "status_read_back C \<Longrightarrow> \<not> decided v \<Longrightarrow> cd_parse C (cd_print C v) = Some p \<Longrightarrow> \<not> decided p"
  by (auto simp: status_read_back_def decided_def)

lemma undecided_records:
  "\<not> decided (proposal_record i k payload author baseline evidence ts)" "\<not> decided (with_status p ''expired'' who ts)"
proof -
  show "\<not> decided (proposal_record i k payload author baseline evidence ts)"
    by (simp add: decided_def proposal_record_def value_index_def om_get_insert)
  show "\<not> decided (with_status p ''expired'' who ts)"
    by (cases p) (auto simp: decided_def with_status_def value_index_def Let_def om_get_insert split: option.split)
qed

section \<open>What governance leaves\<close>

definition gov_frame :: "codec \<Rightarrow> ('s \<Rightarrow> string \<Rightarrow> (string \<times> nat) option) \<Rightarrow> gerr ending \<Rightarrow> 's gov \<Rightarrow> 's gov \<Rightarrow> bool" where
  "gov_frame C view k g g' \<longleftrightarrow>
     g_files g' = g_files g \<and> only_evicted view (g_versions g) (g_versions g') \<and> no_decision C view (g_props g) (g_props g')"

interpretation gf: frame "gov_frame C view" "\<lambda>_. False" for C view
  by unfold_locales (auto simp: gov_frame_def intro: no_decision_trans)

lemma gov_frame_trans: "gov_frame C view k a b \<Longrightarrow> gov_frame C view k' b c \<Longrightarrow> gov_frame C view k'' a c"
  by (auto simp: gov_frame_def intro: no_decision_trans)

lemma untouched_gov: "keeps untouched m \<Longrightarrow> keeps (gov_frame C view) m"
  by (auto simp: keeps_def untouched_def gov_frame_def)

lemmas gov_pure = pure_steps [THEN untouched_gov]

lemma gov_records [intro]:
  "keeps (gov_frame C view) (audit E unit rec)" "keeps (gov_frame C view) (emit_proposal_event E t p)"
  "keeps (gov_frame C view) (mupd (\<lambda>g. g\<lparr>g_seq := n\<rparr>))"
  by (auto simp: keeps_def gov_frame_def audit_def emit_proposal_event_def)

lemma resolve_g_frame:
  assumes "kv_laws (ge_kv E) view seq" and "kv_answers (ge_kv E)"
  shows "keeps (gov_frame C view) (resolve_g E a unit src)"
  using delete_only_evicts [OF assms]
  by (auto simp: keeps_def gov_frame_def resolve_g_def resolve_source_def Let_def split: option.split)

lemma hash_frame:
  assumes "kv_laws (ge_kv E) view seq" and "kv_answers (ge_kv E)"
  shows "keeps (gov_frame C view) (effective_source_hash E rel)"
  unfolding effective_source_hash_def by (intro gf.mbind_keeps gov_pure resolve_g_frame [OF assms] gf.mret_keeps)

lemma on_props_put:
  fixes E :: "'s genv"
  assumes "kv_laws (ge_kv E) view seq" and "kv_answers (ge_kv E)" and "status_read_back (ge_codec E)" and "\<not> decided v"
  shows "keeps (gov_frame (ge_codec E) view) (on_props (mbind (kv_put (ge_kv E) i (cd_print (ge_codec E) v)) (\<lambda>_. mret v)))"
proof (rule keepsI)
  fix g :: "'s gov"
  have "no_decision (ge_codec E) view (g_props g) (snd (kv_put (ge_kv E) i (cd_print (ge_codec E) v) (g_props g)))"
    by (rule put_no_decision [OF assms(1,2)]) (rule undecided_text [OF assms(3,4)])
  then show "gov_frame (ge_codec E) view
    (end_of (fst (on_props (mbind (kv_put (ge_kv E) i (cd_print (ge_codec E) v)) (\<lambda>_. mret v)) g))) g
    (snd (on_props (mbind (kv_put (ge_kv E) i (cd_print (ge_codec E) v)) (\<lambda>_. mret v)) g))"
    by (auto simp: gov_frame_def on_props_def mbind_def split: prod.split result.split)
qed

lemma set_expired_frame:
  fixes E :: "'s genv"
  assumes "kv_laws (ge_kv E) view seq" and "kv_answers (ge_kv E)" and "status_read_back (ge_codec E)"
  shows "keeps (gov_frame (ge_codec E) view) (on_props (set_status (ge_kv E) (ge_codec E) i ''expired'' who ts))"
proof (rule keepsI)
  fix g
  show "gov_frame (ge_codec E) view (end_of (fst (on_props (set_status (ge_kv E) (ge_codec E) i ''expired'' who ts) g))) g
    (snd (on_props (set_status (ge_kv E) (ge_codec E) i ''expired'' who ts) g))"
  proof (cases "get_proposal (ge_kv E) (ge_codec E) i (g_props g)")
    case None
    then show ?thesis by (simp add: on_props_def set_status_def gov_frame_def)
  next
    case (Some p)
    let ?v = "with_status p ''expired'' who ts"
    have "on_props (set_status (ge_kv E) (ge_codec E) i ''expired'' who ts) g =
      on_props (mbind (kv_put (ge_kv E) i (cd_print (ge_codec E) ?v)) (\<lambda>_. mret ?v)) g"
      using Some by (simp add: on_props_def set_status_def Let_def)
    with keepsD [OF on_props_put [OF assms undecided_records(2) [of p who ts], of i], of g] show ?thesis by simp
  qed
qed

lemma submit_frame:
  assumes "kv_laws (ge_kv E) view seq" and "kv_answers (ge_kv E)" and "status_read_back (ge_codec E)"
  shows "keeps (gov_frame (ge_codec E) view) (submit_proposal E k payload author evidence)"
  unfolding submit_proposal_def submit_def Let_def
  by (intro gf.mbind_keeps gov_pure hash_frame [OF assms(1,2)] gf.mget_keeps)
     (auto simp: new_id_def intro!: gf.mbind_keeps gov_records gf.mret_keeps on_props_put [OF assms undecided_records(1)])

lemma reconcile_one_frame:
  assumes "kv_laws (ge_kv E) view seq" and "kv_answers (ge_kv E)" and "status_read_back (ge_codec E)"
  shows "keeps (gov_frame (ge_codec E) view) (reconcile_one E p)"
proof (rule keepsI)
  fix g
  have refl: "gov_frame (ge_codec E) view k x x" for k x by (simp add: gov_frame_def)
  have end_any: "gov_frame (ge_codec E) view k x y \<Longrightarrow> gov_frame (ge_codec E) view k' x y" for k k' x y
    by (simp add: gov_frame_def)
  have h: "gov_frame (ge_codec E) view EndOk g g1" if "effective_source_hash E rel g = (r, g1)" for rel r g1
    using keepsE [OF hash_frame [OF assms(1,2)] that] by (rule end_any)
  have s: "gov_frame (ge_codec E) view EndOk g1 g2"
    if "on_props (set_status (ge_kv E) (ge_codec E) i ''expired'' None (ge_now E)) g1 = (r, g2)" for i g1 g2 r
    using keepsE [OF set_expired_frame [OF assms] that] by (rule end_any)
  have a: "gov_frame (ge_codec E) view EndOk g2 (snd (mbind (audit E u rec) (\<lambda>_. mbind (emit_proposal_event E t q) (\<lambda>_. mret q)) g2))"
    for u rec t q g2
  proof -
    have "keeps (gov_frame (ge_codec E) view) (mbind (audit E u rec) (\<lambda>_. mbind (emit_proposal_event E t q) (\<lambda>_. mret q)))"
      by (intro gf.mbind_keeps gov_records gf.mret_keeps)
    from keepsD [OF this] show ?thesis by (rule end_any)
  qed
  show "gov_frame (ge_codec E) view (end_of (fst (reconcile_one E p g))) g (snd (reconcile_one E p g))"
    by (rule end_any [of EndOk])
       (auto simp: reconcile_one_def Let_def refl split: option.split prod.split result.split
         dest!: h s intro: gov_frame_trans gov_frame_trans [OF _ gov_frame_trans [OF _ a]])
qed

lemma reconcile_frame:
  assumes "kv_laws (ge_kv E) view seq" and "kv_answers (ge_kv E)" and "status_read_back (ge_codec E)"
  shows "keeps (gov_frame (ge_codec E) view) (reconcile_and_list E)"
proof -
  have "keeps (gov_frame (ge_codec E) view) (reconcile_all E ps out)" for ps out
    by (induction ps arbitrary: out) (auto intro!: gf.mbind_keeps gf.mret_keeps reconcile_one_frame [OF assms])
  then show ?thesis
    unfolding reconcile_and_list_def by (intro gf.mbind_keeps gov_pure gf.mget_keeps)
qed

lemma time_travel_frame:
  assumes "kv_laws (ge_kv E) view seq" and "kv_answers (ge_kv E)"
  shows "keeps (gov_frame C view) (time_travel E S hydrate rel src)"
  unfolding time_travel_def
  by (intro gf.mbind_keeps resolve_g_frame [OF assms] gov_pure)
     (auto simp: keeps_def gov_frame_def split: prod.split)

section \<open>Canaries\<close>

definition canary_frame ::
  "codec \<Rightarrow> ('s \<Rightarrow> string \<Rightarrow> (string \<times> nat) option) \<Rightarrow> gerr ending \<Rightarrow> 's gov \<times> canary omap \<Rightarrow> 's gov \<times> canary omap \<Rightarrow> bool" where
  "canary_frame C view k s s' \<longleftrightarrow> gov_frame C view k (fst s) (fst s')"

interpretation cf: frame "canary_frame C view" "\<lambda>_. False" for C view
  by unfold_locales (auto simp: canary_frame_def intro: gf.stay gf.step)

lemma on_gov_frame: "keeps (gov_frame C view) m \<Longrightarrow> keeps (canary_frame C view) (on_gov m)"
  by (auto simp: keeps_def canary_frame_def on_gov_def split: prod.split) (metis fst_conv snd_conv)

lemma canary_ops_frame:
  assumes "kv_laws (ge_kv E) view seq" and "kv_answers (ge_kv E)"
  shows "keeps (canary_frame C view) (canary_start E rel src)" "keeps (canary_frame C view) (canary_read E rel)"
    "keeps (canary_frame C view) (canary_stop E rel)"
proof -
  have "keeps (canary_frame C view) (canary_register E u h)" for u h
    by (simp add: keeps_def canary_frame_def gov_frame_def canary_register_def)
  then show "keeps (canary_frame C view) (canary_start E rel src)"
    unfolding canary_start_def
    by (intro cf.mbind_keeps on_gov_frame gov_pure resolve_g_frame [OF assms] cf.mret_keeps)
  show "keeps (canary_frame C view) (canary_read E rel)"
    unfolding canary_read_def by (intro cf.mbind_keeps on_gov_frame gov_pure cf.mget_keeps cf.mret_keeps)
  have "keeps (canary_frame C view) (mupd (\<lambda>s. (fst s, f (snd s))))" for f
    by (simp add: keeps_def canary_frame_def gov_frame_def)
  then show "keeps (canary_frame C view) (canary_stop E rel)"
    unfolding canary_stop_def by (intro cf.mbind_keeps on_gov_frame gov_pure cf.mget_keeps cf.mret_keeps)
qed

section \<open>What a call leaves of the runtime\<close>

text \<open>
  A relation that does not ask how a call ended. What it holds of every tool it holds of the whole
  tool server.
\<close>

locale loose_frame = frame R "\<lambda>_. False" for R :: "string ending \<Rightarrow> 's runtime \<Rightarrow> 's runtime \<Rightarrow> bool" +
  assumes any_end: "R k s t \<Longrightarrow> R k' s t"
begin

lemma pair_keeps: "keeps R (Pair r)"
  by (auto simp: keeps_def intro: stay)

lemma call_reply_keeps:
  assumes "keeps R m"
  shows "keeps R (call_reply m)"
proof (rule keepsI)
  fix s
  obtain r t where m: "m s = (r, t)" by fastforce
  from keepsE [OF assms m] have "R k s t" for k by (rule any_end)
  then show "R (end_of (fst (call_reply m s))) s (snd (call_reply m s))"
    by (simp add: call_reply_def m split: result.split)
qed

lemma mcp_body_keeps:
  assumes tools: "\<And>name args m. (name, m) \<in> set (tool_table M args) \<Longrightarrow> keeps R m"
    and views: "\<And>f. keeps R (viewed M f)"
  shows "keeps R (mcp_body M body)"
proof -
  have "keeps R (case map_of (tool_table M args) name of Some m \<Rightarrow> m | None \<Rightarrow> call_flow M name args)" for args name
    by (auto simp: call_flow_def intro: views dest!: map_of_SomeD tools split: option.split)
  then have call: "keeps R (mcp_call M name args)" for args name
    unfolding mcp_call_def by (intro mbind_keeps mret_keeps)
  have "keeps R (mcp_tools M)"
    unfolding mcp_tools_def by (intro mbind_keeps mget_keeps mlift_keeps mret_keeps) simp
  then have one: "keeps R (mcp_dispatch M req)" for req
    unfolding mcp_dispatch_def Let_def by (auto intro!: mbind_keeps call_reply_keeps call pair_keeps)
  have "keeps R (mcp_batch M rs)" for rs
    by (induction rs) (auto intro!: mbind_keeps one pair_keeps)
  then show ?thesis
    unfolding mcp_body_def by (auto intro!: mbind_keeps one pair_keeps split: option.split)
qed

end

definition agent_frame :: "codec \<Rightarrow> ('s \<Rightarrow> string \<Rightarrow> (string \<times> nat) option) \<Rightarrow> string ending \<Rightarrow> 's runtime \<Rightarrow> 's runtime \<Rightarrow> bool" where
  "agent_frame C view k s s' \<longleftrightarrow>
     rt_fs s' = rt_fs s \<and> rt_history s' = rt_history s \<and> rt_rotations s' = rt_rotations s \<and> rt_traces s' = rt_traces s \<and>
     only_evicted view (g_versions (rt_gov s)) (g_versions (rt_gov s')) \<and>
     no_decision C view (g_props (rt_gov s)) (g_props (rt_gov s')) \<and>
     (reaches (rt_registry s) \<longrightarrow> reaches (rt_registry s'))"

interpretation af: loose_frame "agent_frame C view" for C view
  by unfold_locales (auto simp: agent_frame_def intro: no_decision_trans)

lemma fs_after_same [simp]: "fs_after fs (fs_text fs) = fs"
  by (simp add: fun_eq_iff fs_after_def)

lemma on_project_frame:
  fixes m :: "('s, 'a) gm"
  assumes "keeps (gov_frame C view) m"
  shows "keeps (agent_frame C view) (on_project M m)"
proof (rule keepsI)
  fix s :: "'s runtime"
  obtain r g where m: "m ((rt_gov s)\<lparr>g_files := fs_text (rt_fs s)\<rparr>) = (r, g)" by fastforce
  from keepsE [OF assms m] show "agent_frame C view (end_of (fst (on_project M m s))) s (snd (on_project M m s))"
    by (simp add: on_project_def m agent_frame_def gov_frame_def)
qed

lemma on_canaries_frame:
  fixes m :: "('s, 'a) cm"
  assumes "keeps (canary_frame C view) m"
  shows "keeps (agent_frame C view) (on_canaries M m)"
proof (rule keepsI)
  fix s :: "'s runtime"
  obtain r g cs where m: "m ((rt_gov s)\<lparr>g_files := fs_text (rt_fs s)\<rparr>, rt_canaries s) = (r, (g, cs))"
    by (metis surj_pair)
  from keepsE [OF assms m] show "agent_frame C view (end_of (fst (on_canaries M m s))) s (snd (on_canaries M m s))"
    by (simp add: on_canaries_def m agent_frame_def gov_frame_def canary_frame_def)
qed

lemma steps_frame:
  "keeps (agent_frame C view) (need_arg args k)" "keeps (agent_frame C view) (viewed M f)"
  "keeps (agent_frame C view) (reload_m M)" "keeps (agent_frame C view) (sap_m M op)"
  "keeps (agent_frame C view) (on_calls (dlq_list N D n))"
  "keeps (agent_frame C view) (mupd (\<lambda>s. s\<lparr>rt_tasks := tasks s\<rparr>))" "keeps (agent_frame C view) (Pair res)"
proof -
  show "keeps (agent_frame C view) (Pair res)" by (simp add: keeps_def agent_frame_def)
  show "keeps (agent_frame C view) (need_arg args k)" by (auto simp: need_arg_def split: option.split)
  show "keeps (agent_frame C view) (viewed M f)" by (auto simp: viewed_def keeps_def mbind_def agent_frame_def)
  show "keeps (agent_frame C view) (reload_m M)"
    by (auto simp: keeps_def agent_frame_def reload_m_def split: result.split prod.split)
      (metis reaches.reload snd_conv)
  show "keeps (agent_frame C view) (sap_m M op)"
    by (simp add: keeps_def agent_frame_def sap_m_def Let_def)
  show "keeps (agent_frame C view) (on_calls (dlq_list N D n))"
    by (auto simp: keeps_def agent_frame_def on_calls_def dlq_list_def split: result.split prod.split)
  show "keeps (agent_frame C view) (mupd (\<lambda>s. s\<lparr>rt_tasks := tasks s\<rparr>))"
    by (simp add: keeps_def agent_frame_def)
qed

lemma gov_of_fields [simp]: "ge_kv (gov_of M) = ge_kv (me_gov M)" "ge_codec (gov_of M) = ge_codec (me_gov M)"
  by (simp_all add: gov_of_def)

text \<open>In governed mode a gate is closed, and what is behind it does not run.\<close>

lemma closed_gates:
  assumes "require_approval (env_of M)"
  shows "keeps (agent_frame C view) (mbind (mlift (approval_gate (env_of M))) f)" "keeps (agent_frame C view) (both_gates M k)"
    "keeps (agent_frame C view) (tool_dlq_act M act args)"
  using assms
  by (auto simp: keeps_def mbind_def approval_gate_def dlq_agent_gate_def both_gates_def tool_dlq_act_def agent_frame_def)

lemma trials_frame:
  assumes "kv_laws (ge_kv (gov_of M)) view seq" and "kv_answers (ge_kv (gov_of M))"
  shows "keeps (agent_frame C view) (replay_m M rel name key v n)" "keeps (agent_frame C view) (time_travel_m M rel cand n)"
    "keeps (agent_frame C view) (canary_start_m M rel cand)" "keeps (agent_frame C view) (canary_read_m M rel)"
    "keeps (agent_frame C view) (canary_stop_m M rel)"
  unfolding replay_m_def time_travel_m_def canary_start_m_def canary_read_m_def canary_stop_m_def
  by (auto intro!: af.mbind_keeps steps_frame af.mget_keeps on_project_frame on_canaries_frame
      untouched_gov [OF replay_literal_untouched] time_travel_frame [OF assms] canary_ops_frame [OF assms] split: prod.split)

text \<open>The tools that are open in every mode.\<close>

lemma open_tools_frame:
  fixes M :: "'s mcp_env"
  assumes "kv_laws (ge_kv (me_gov M)) view seq" and "kv_answers (ge_kv (me_gov M))"
    and "status_read_back (ge_codec (me_gov M))"
  defines "K \<equiv> keeps (agent_frame (ge_codec (me_gov M)) view) :: ('s, string) rm \<Rightarrow> bool"
  shows "K (tool_replay_literal M args)" "K (tool_time_travel M args)" "K (tool_canary_start M args)"
    "K (tool_canary_status M args)" "K (tool_canary_stop M args)" "K (tool_propose M args)" "K (tool_proposals M)"
    "K (tool_read M args)" "K (tool_vpl_check M args)" "K (tool_preview M args)" "K (tool_run_flow M args)"
    "K (tool_drivers M)" "K (tool_test_connector M args)" "K (dlq_list_m M n)" "K (tool_reload M)"
    "K (tool_sap_list M args)" "K (tool_sap_describe M args)" "K (tool_sap_call M args)" "K (tool_sap_send_idoc M args)"
    "K (viewed M h)" "K (mret t)" "K (mbind mget (\<lambda>s. mret (w s)))"
proof -
  note laws = assms(1,2) [folded gov_of_fields] and status = assms(3) [folded gov_of_fields]
  show "K (tool_replay_literal M args)" "K (tool_time_travel M args)" "K (tool_canary_start M args)"
    "K (tool_canary_status M args)" "K (tool_canary_stop M args)"
    unfolding K_def tool_replay_literal_def tool_time_travel_def tool_canary_start_def tool_canary_status_def tool_canary_stop_def
    by (intro af.mbind_keeps steps_frame trials_frame [OF laws])+
  show "K (tool_propose M args)" "K (tool_proposals M)"
    unfolding K_def tool_propose_def tool_proposals_def
    using submit_frame [OF laws status] reconcile_frame [OF laws status]
    by (auto intro!: af.mbind_keeps steps_frame on_project_frame)
  show "K (tool_read M args)" "K (tool_vpl_check M args)" "K (tool_preview M args)" "K (tool_run_flow M args)"
    "K (tool_drivers M)" "K (tool_test_connector M args)" "K (dlq_list_m M n)" "K (tool_reload M)"
    "K (tool_sap_list M args)" "K (tool_sap_describe M args)" "K (tool_sap_call M args)" "K (tool_sap_send_idoc M args)"
    "K (viewed M h)" "K (mret t)" "K (mbind mget (\<lambda>s. mret (w s)))"
    unfolding K_def tool_read_def tool_vpl_check_def tool_preview_def tool_run_flow_def tool_drivers_def tool_test_connector_def
      dlq_list_m_def tool_reload_def tool_sap_list_def tool_sap_describe_def tool_sap_call_def tool_sap_send_idoc_def
    by (auto intro!: af.mbind_keeps steps_frame af.mget_keeps)
qed

lemma tools_frame:
  assumes "require_approval (env_of M)" and "kv_laws (ge_kv (me_gov M)) view seq" and "kv_answers (ge_kv (me_gov M))"
    and "status_read_back (ge_codec (me_gov M))" and "(name, m) \<in> set (tool_table M args)"
  shows "keeps (agent_frame (ge_codec (me_gov M)) view) m"
proof -
  let ?K = "\<lambda>m. keeps (agent_frame (ge_codec (me_gov M)) view) m"
  have shut: "?K (tool_write_flow M args)" "?K (tool_set_literal M args)" "?K (tool_rollback_literal M args)"
    "?K (tool_new M g args)" "?K (tool_set_secret M args)" "?K (tool_provision M args)" "?K (tool_dlq_act M a args)" for g a
    unfolding tool_write_flow_def tool_set_literal_def tool_rollback_literal_def tool_new_def tool_set_secret_def tool_provision_def
    by (rule closed_gates [OF assms(1)])+
  have "list_all (\<lambda>(n, t). ?K t) (tool_table M args)"
    unfolding tool_table_def list.pred_inject prod.case by (intro conjI shut open_tools_frame [OF assms(2-4)]) simp
  with assms(5) show ?thesis by (auto simp: list_all_iff)
qed

lemma mcp_body_frame:
  assumes "require_approval (env_of M)" and "kv_laws (ge_kv (me_gov M)) view seq" and "kv_answers (ge_kv (me_gov M))"
    and "status_read_back (ge_codec (me_gov M))"
  shows "keeps (agent_frame (ge_codec (me_gov M)) view) (mcp_body M body)"
  by (rule af.mcp_body_keeps) (erule tools_frame [OF assms], rule steps_frame)

text \<open>
  In governed mode an agent changes nothing but by proposal. Whatever it sends to the tool
  server, one request or a batch: every file is as it was, secrets in a file included, no message is
  published, acknowledged or deleted, no rotation request is cleared, no overlay appears or changes
  (one that is stale already may be evicted), and no proposal is approved or rejected that was not
  so before. What remains are proposals that wait or expire, reloads of the files as they are,
  canaries, and requests to the SAP connector, which no gate covers.
\<close>

theorem governed_agent_only_proposes:
  assumes "require_approval (env_of M)" and "kv_laws (ge_kv (me_gov M)) view seq" and "kv_answers (ge_kv (me_gov M))"
    and "status_read_back (ge_codec (me_gov M))" and "mcp_body M body s = (r, s')"
  shows "rt_fs s' = rt_fs s \<and> rt_history s' = rt_history s \<and> rt_rotations s' = rt_rotations s \<and>
    only_evicted view (g_versions (rt_gov s)) (g_versions (rt_gov s')) \<and>
    no_decision (ge_codec (me_gov M)) view (g_props (rt_gov s)) (g_props (rt_gov s')) \<and>
    (reaches (rt_registry s) \<longrightarrow> reaches (rt_registry s'))"
  using keepsE [OF mcp_body_frame [OF assms(1-4)] assms(5)] by (simp add: agent_frame_def)

text \<open>An agent that writes a flow itself, with a codec that keeps the status of a document.\<close>

definition status_codec :: codec where
  "status_codec =
     \<lparr>cd_print = (\<lambda>v. case as_str (value_index v ''status'') of Some t \<Rightarrow> CHR ''+'' # t | None \<Rightarrow> ''-''),
      cd_parse = (\<lambda>t. case t of c # cs \<Rightarrow> Some (if c = CHR ''+'' then VObject [(''status'', VString cs)] else VNull) | [] \<Rightarrow> None)\<rparr>"

definition demo_mcp :: "env \<Rightarrow> mem mcp_env" where
  "demo_mcp env =
     \<lparr>me_gov = demo_genv status_codec, me_host = sample_host\<lparr>h_env := env\<rparr>, me_ctl = demo_ctl, me_nats = demo_nats,
      me_agent = \<lparr>ag_env = env, ag_parent = [], ag_here = (\<lambda>_. False), ag_run = (\<lambda>_ _ _. Err []), ag_write = (\<lambda>_. None)\<rparr>,
      me_gerr = (\<lambda>_. []), me_provision_error = (\<lambda>_. []), me_json_error = (\<lambda>_. []), me_tree = (\<lambda>_. None),
      me_exists = (\<lambda>_. False), me_write = (\<lambda>_ _. None), me_hydrate = (\<lambda>_ _. Ok []), me_recent = (\<lambda>_. Ok []),
      me_connection = Err ''offline'', me_ask = (\<lambda>_ _ _. Err []), me_check = Some\<rparr>"

definition demo_runtime :: "mem runtime" where
  "demo_runtime =
     \<lparr>rt_fs = (\<lambda>p. if p = demo_path then Content ''x = 1'' else if p = [''/'', ''etc'', ''passwd''] then Content ''root'' else Missing),
      rt_gov = demo_gov, rt_canaries = [], rt_tasks = [], rt_history = [], rt_registry = no_units, rt_rotations = {},
      rt_traces = no_traces, rt_asked = [], rt_units = Map.empty\<rparr>"

definition tool_call :: "string \<Rightarrow> json omap \<Rightarrow> json" where
  "tool_call name args =
     VObject (om_of_list [(''method'', VString ''tools/call''),
       (''params'', VObject (om_of_list [(''name'', VString name), (''arguments'', VObject args)]))])"

definition demo_write :: json where
  "demo_write = tool_call ''vejas_write_flow'' (om_of_list [(''path'', VString ''flows/a.vjs''), (''content'', VString ''x = 2'')])"

lemma status_codec_back: "status_read_back status_codec"
  by (auto simp: status_read_back_def status_codec_def value_index_def split: option.splits)

lemma mem_bucket_answers: "kv_answers mem_kv"
  by (simp add: kv_answers_def mem_kv_def mem_write_def)

theorem governed_agent_only_proposes_witness:
  "rt_fs (snd (mcp_body (demo_mcp demo_tokens) demo_write demo_runtime)) demo_path = Content ''x = 1'' \<and>
   rt_history (snd (mcp_body (demo_mcp demo_tokens) demo_write demo_runtime)) = []"
  using governed_agent_only_proposes [OF _ _ _ _ surjective_pairing, of "demo_mcp demo_tokens" fst snd demo_write demo_runtime]
    mem_kv_laws mem_bucket_answers status_codec_back demo_credentials(6)
  by (simp add: demo_mcp_def env_of_def demo_genv_def) (simp add: demo_runtime_def)

section \<open>Decisions\<close>

text \<open>In every mode, no tool decides a proposal.\<close>

definition gov_undecided :: "codec \<Rightarrow> ('s \<Rightarrow> string \<Rightarrow> (string \<times> nat) option) \<Rightarrow> gerr ending \<Rightarrow> 's gov \<Rightarrow> 's gov \<Rightarrow> bool" where
  "gov_undecided C view k g g' \<longleftrightarrow> no_decision C view (g_props g) (g_props g')"

definition undecided :: "codec \<Rightarrow> ('s \<Rightarrow> string \<Rightarrow> (string \<times> nat) option) \<Rightarrow> string ending \<Rightarrow> 's runtime \<Rightarrow> 's runtime \<Rightarrow> bool" where
  "undecided C view k s s' \<longleftrightarrow> no_decision C view (g_props (rt_gov s)) (g_props (rt_gov s'))"

interpretation uf: loose_frame "undecided C view" for C view
  by unfold_locales (auto simp: undecided_def intro: no_decision_trans)

lemma agent_undecided: "keeps (agent_frame C view) m \<Longrightarrow> keeps (undecided C view) m"
  by (auto simp: keeps_def agent_frame_def undecided_def)

lemma on_project_undecided:
  fixes m :: "('s, 'a) gm"
  assumes "keeps props_frame m"
  shows "keeps (undecided C view) (on_project M m)"
proof (rule keepsI)
  fix s :: "'s runtime"
  obtain r g where m: "m ((rt_gov s)\<lparr>g_files := fs_text (rt_fs s)\<rparr>) = (r, g)" by fastforce
  from keepsE [OF assms m] show "undecided C view (end_of (fst (on_project M m s))) s (snd (on_project M m s))"
    by (simp add: on_project_def m undecided_def props_frame_def)
qed

lemma steps_undecided:
  "keeps (undecided C view) (on_files m)" "keeps (undecided C view) (on_calls b)" "keeps (undecided C view) (set_secret_m M r v)"
  "keeps (undecided C view) (provision_m M t slug ps force)"
  by (auto simp: keeps_def undecided_def on_files_def on_calls_def set_secret_m_def provision_m_def split: prod.split)

lemmas undecided_steps = steps_undecided uf.mget_keeps uf.mret_keeps uf.pair_keeps
  steps_frame [THEN agent_undecided] on_project_undecided [OF props_kept(1)]
  on_project_undecided [OF props_kept(12)] on_project_undecided [OF promote_version_props]
  on_project_undecided [OF parse_check_props(1)] on_project_undecided [OF rollback_literal_props]
  on_project_undecided [OF record_promote_props]

lemma set_literal_here_props: "keeps props_frame (set_literal_here E rel name key v actor)"
  unfolding set_literal_here_def by (intro pf.mbind_keeps props_kept record_promote_props)

lemma writes_undecided:
  "keeps (undecided C view) (new_m M g prompt)" "keeps (undecided C view) (rollback_m M rel name key actor)"
  "keeps (undecided C view) (dlq_m M act args actor)" "keeps (undecided C view) (check_content M rel content)"
  unfolding new_m_def rollback_m_def dlq_m_def check_content_def
  by (auto intro!: uf.mbind_keeps undecided_steps split: option.split)

lemma gates_undecided:
  assumes "keeps (undecided C view) k"
  shows "keeps (undecided C view) (both_gates M k)"
  unfolding both_gates_def by (intro uf.mbind_keeps uf.mlift_keeps assms) simp_all

lemma tools_undecided:
  assumes "kv_laws (ge_kv (me_gov M)) view seq" and "kv_answers (ge_kv (me_gov M))"
    and "status_read_back (ge_codec (me_gov M))" and "(name, m) \<in> set (tool_table M args)"
  shows "keeps (undecided (ge_codec (me_gov M)) view) m"
proof -
  let ?K = "\<lambda>m. keeps (undecided (ge_codec (me_gov M)) view) m"
  have "?K (tool_write_flow M args)" "?K (tool_rollback_literal M args)" "?K (tool_new M g args)" "?K (tool_provision M args)" for g
    unfolding tool_write_flow_def tool_rollback_literal_def tool_new_def tool_provision_def
    by (auto intro!: gates_undecided uf.mbind_keeps undecided_steps writes_undecided split: prod.split)
  moreover have "?K (tool_set_literal M args)" "?K (tool_set_secret M args)" "?K (tool_dlq_act M a args)" for a
    unfolding tool_set_literal_def tool_set_secret_def tool_dlq_act_def Let_def
    by (auto intro!: uf.mbind_keeps uf.mlift_keeps undecided_steps writes_undecided on_project_undecided [OF set_literal_here_props])
  ultimately have "list_all (\<lambda>(n, t). ?K t) (tool_table M args)"
    unfolding tool_table_def list.pred_inject prod.case
    by (intro conjI open_tools_frame [OF assms(1-3), THEN agent_undecided]) simp_all
  with assms(4) show ?thesis by (auto simp: list_all_iff)
qed

lemma mcp_body_undecided:
  assumes "kv_laws (ge_kv (me_gov M)) view seq" and "kv_answers (ge_kv (me_gov M))"
    and "status_read_back (ge_codec (me_gov M))"
  shows "keeps (undecided (ge_codec (me_gov M)) view) (mcp_body M body)"
  by (rule uf.mcp_body_keeps) (erule tools_undecided [OF assms], rule agent_undecided [OF steps_frame(2)])

section \<open>The list of tools\<close>

definition served :: "string list" where
  "served =
     [''vejas_topology'', ''vejas_graph'', ''vejas_surface'', ''vejas_read'', ''vejas_language'',
      ''vejas_vpl_check'', ''vejas_events'', ''vejas_write_flow'', ''vejas_set_literal'', ''vejas_rollback_literal'',
      ''vejas_replay_literal'', ''vejas_time_travel'', ''vejas_canary_start'', ''vejas_canary_status'', ''vejas_canary_stop'',
      ''vejas_propose'', ''vejas_proposals'', ''vejas_preview'', ''vejas_run_flow'', ''vejas_new_flow'',
      ''vejas_new_connector'', ''vejas_reload'', ''vejas_drivers'', ''vejas_secrets'', ''vejas_set_secret'',
      ''vejas_test_connector'', ''vejas_provision'', ''sap_list'', ''sap_describe'', ''sap_call'',
      ''sap_send_idoc'', ''vejas_dlq'', ''vejas_dlq_replay'', ''vejas_dlq_purge'']"

lemma tool_names: "map fst (tool_table M args) = served"
  by (simp only: tool_table_def served_def list.map fst_conv)

lemma spec_names:
  "map fst (builtin_specs @ agent_specs) =
     [''vejas_topology'', ''vejas_graph'', ''vejas_surface'', ''vejas_language'', ''vejas_vpl_check'',
      ''vejas_read'', ''vejas_write_flow'', ''vejas_set_literal'', ''vejas_rollback_literal'', ''vejas_time_travel'',
      ''vejas_canary_start'', ''vejas_canary_status'', ''vejas_canary_stop'', ''vejas_propose'', ''vejas_proposals'',
      ''vejas_replay_literal'', ''vejas_preview'', ''vejas_run_flow'', ''vejas_events'', ''vejas_reload'',
      ''vejas_drivers'', ''vejas_secrets'', ''vejas_set_secret'', ''vejas_test_connector'', ''vejas_provision'',
      ''sap_list'', ''sap_describe'', ''sap_call'', ''sap_send_idoc'', ''vejas_dlq'',
      ''vejas_dlq_replay'', ''vejas_dlq_purge'', ''vejas_new_flow'', ''vejas_new_connector'']"
  by (simp only: builtin_specs_def agent_specs_def append_Cons append_Nil list.map fst_conv)

text \<open>
  The list and the server agree: the built-in tools that are listed are exactly those that are
  served, under names of their own, with the two of the agent process listed only where there is
  one; and no flow that declares itself a tool is hidden by a built-in one.
\<close>

lemma listed_tools:
  "set (map fst (builtin_specs @ agent_specs)) = set (map fst (tool_table M args)) \<and> distinct (map fst (tool_table M args))"
  unfolding spec_names tool_names by code_simp

lemma flow_tools_are_reached:
  assumes "tool_of f = Some (name, rel, desc)"
  shows "map_of (tool_table M args) name = None"
proof -
  from assms have "starts_with name ''flow_''"
    by (cases f) (auto simp: tool_of_def starts_with_def split: if_splits)
  moreover have "\<forall>n \<in> set (map fst (tool_table M args)). \<not> starts_with n ''flow_''"
    unfolding tool_names by code_simp
  ultimately have "name \<notin> set (map fst (tool_table M args))" by blast
  then show ?thesis by (simp add: map_of_eq_None_iff)
qed

text \<open>
  Two flows of different packages can have one tool name; the call goes to the first, and the other
  cannot be called.
\<close>

lemma flow_tools_collide:
  assumes "pg_tool prog = Some desc" and "pg_tool prog' = Some desc'"
  shows "map_option fst (tool_of ([''packages'', ''a'', ''flows'', ''b_c.vjs''], ''a'', prog)) =
    map_option fst (tool_of ([''packages'', ''a_b'', ''flows'', ''c.vjs''], ''a_b'', prog'))"
proof -
  have "file_stem [''packages'', ''a'', ''flows'', ''b_c.vjs''] = ''b_c''" "file_stem [''packages'', ''a_b'', ''flows'', ''c.vjs''] = ''c''"
    by code_simp+
  then show ?thesis using assms by (simp add: tool_of_def)
qed

text \<open>
  The check of a detect unit reads outside the project: a path that the guard refuses everywhere
  else is read, and what the engine says of its content is answered.
\<close>

lemma vpl_check_reads_any_file:
  "guard_path (ge_canon (me_gov (demo_mcp env))) (ge_root (me_gov (demo_mcp env))) ''/etc/passwd'' = None \<and>
   vpl_source (demo_mcp env) ''/etc/passwd'' demo_runtime = Ok ''root''"
proof
  show "guard_path (ge_canon (me_gov (demo_mcp env))) (ge_root (me_gov (demo_mcp env))) ''/etc/passwd'' = None"
  proof -
    have "guard_path Some [''/'', ''srv''] ''/etc/passwd'' = None" by code_simp
    then show ?thesis by (simp add: demo_mcp_def demo_genv_def)
  qed
  have "joined [''/'', ''srv''] ''/etc/passwd'' = [''/'', ''etc'', ''passwd'']" by code_simp
  then show "vpl_source (demo_mcp env) ''/etc/passwd'' demo_runtime = Ok ''root''"
    by (simp add: vpl_source_def demo_mcp_def demo_genv_def demo_runtime_def read_text_def demo_path_def)
qed

end
