(* ===== verification/Exposition.thy ===== *)
theory Exposition
  imports Metrics Dlq
begin

text \<open>
  What \<open>core/src/metrics.rs\<close> shows of the counters: the Prometheus page, and the spans exported to a
  trace collector, with their identifiers and their bounded queue. The printing of floats is an
  argument, as is the order in which the map of units is walked.
\<close>

section \<open>The page\<close>

definition quote :: string where "quote = [CHR 0x22]"

definition esc :: "string \<Rightarrow> string" where
  "esc s = str_replace (str_replace (str_replace s [CHR 0x5C] [CHR 0x5C, CHR 0x5C]) quote ([CHR 0x5C] @ quote))
     [CHR 0x0A] [CHR 0x5C, CHR ''n'']"

definition heading :: "string \<Rightarrow> string \<Rightarrow> string \<Rightarrow> string" where
  "heading name help type =
     ''# HELP '' @ name @ '' '' @ help @ [CHR 0x0A] @ ''# TYPE '' @ name @ '' '' @ type @ [CHR 0x0A]"

definition label :: "string \<times> string \<Rightarrow> string" where
  "label = (\<lambda>(k, v). k @ ''='' @ quote @ v @ quote)"

definition sample :: "string \<Rightarrow> (string \<times> string) list \<Rightarrow> string \<Rightarrow> string" where
  "sample name labels v = name @ ''{'' @ str_join '','' (map label labels) @ ''} '' @ v @ [CHR 0x0A]"

definition of_unit :: "string \<Rightarrow> string \<times> string" where
  "of_unit unit = (''unit'', esc unit)"

text \<open>The series of one number a unit.\<close>

definition series :: "string \<Rightarrow> string \<Rightarrow> string \<Rightarrow> (unit_metrics \<Rightarrow> string) \<Rightarrow> (string \<times> unit_metrics) list \<Rightarrow> string" where
  "series name help type f us =
     heading name help type @ concat (map (\<lambda>(unit, u). sample name [of_unit unit] (f u)) us)"

definition is_connector :: "string \<times> string \<times> nat \<Rightarrow> bool" where
  "is_connector = (\<lambda>(_, k, _). k = ''connector'')"

definition gauge_part :: "(string \<times> string \<times> nat) list \<Rightarrow> string" where
  "gauge_part gauges =
     heading ''vejas_up'' ''1 while the runtime is serving.'' ''gauge'' @ ''vejas_up 1'' @ [CHR 0x0A] @
     heading ''vejas_units'' ''Supervised units by kind.'' ''gauge'' @
     sample ''vejas_units'' [(''kind'', ''flow'')] (nat_str (length (filter (Not \<circ> is_connector) gauges))) @
     sample ''vejas_units'' [(''kind'', ''connector'')] (nat_str (length (filter is_connector gauges))) @
     heading ''vejas_flow_restarts'' ''Supervisor restarts of a unit since it was (re)loaded.'' ''gauge'' @
     concat (map (\<lambda>(unit, _, restarts). sample ''vejas_flow_restarts'' [of_unit unit] (nat_str restarts)) gauges)"

definition processed_part :: "(string \<times> unit_metrics) list \<Rightarrow> string" where
  "processed_part us =
     heading ''vejas_events_processed_total'' ''Events a unit processed, by result.'' ''counter'' @
     concat (map (\<lambda>(unit, u).
       sample ''vejas_events_processed_total'' [of_unit unit, (''result'', ''ok'')] (nat_str (m_ok u)) @
       sample ''vejas_events_processed_total'' [of_unit unit, (''result'', ''error'')] (nat_str (m_err u))) us)"

definition snapshot_part :: "(f64 \<Rightarrow> string) \<Rightarrow> (string \<times> unit_metrics) list \<Rightarrow> string" where
  "snapshot_part fixed6 us =
     series ''vejas_fetch_rounds_total'' (''Pull rounds a unit'' @ [CHR 0x27] @ ''s consumer loop made.'') ''counter''
       (nat_str \<circ> m_fetch_rounds) us @
     series ''vejas_fetch_messages_total'' ''Messages those pull rounds returned.'' ''counter'' (nat_str \<circ> m_fetch_messages) us @
     series ''vejas_snapshots_total'' ''Snapshots a detect unit took of its engine state.'' ''counter'' (nat_str \<circ> m_snapshots) us @
     series ''vejas_snapshot_seq'' (''Stream sequence the unit'' @ [CHR 0x27] @
       ''s latest snapshot stands for: everything up to it is in the state, everything after it replays on restart.'')
       ''gauge'' (nat_str \<circ> m_snapshot_seq) us @
     series ''vejas_snapshot_bytes'' (''Size of the unit'' @ [CHR 0x27] @ ''s latest snapshot.'') ''gauge'' (nat_str \<circ> m_snapshot_bytes) us @
     series ''vejas_snapshot_seconds_sum'' ''Time spent taking and storing snapshots.'' ''counter'' (fixed6 \<circ> m_snapshot_secs) us @
     series ''vejas_restores_total'' ''Restarts that restored a snapshot and resumed the consumer after it.'' ''counter''
       (nat_str \<circ> m_restores) us @
     series ''vejas_restore_seq'' (''Stream sequence the unit'' @ [CHR 0x27] @ ''s last restore resumed at.'') ''gauge'' (nat_str \<circ> m_restore_seq) us"

definition round_part :: "(f64 \<Rightarrow> string) \<Rightarrow> (string \<times> unit_metrics) list \<Rightarrow> string" where
  "round_part shown us =
     heading ''vejas_round_seconds_sum''
       ''Wall time of the consumer loop by phase: fetch (wait for the first message of a round), process, barrier (flush + acks).''
       ''counter'' @
     concat (map (\<lambda>(unit, u).
       sample ''vejas_round_seconds_sum'' [of_unit unit, (''phase'', ''fetch'')] (shown (m_round_fetch u)) @
       sample ''vejas_round_seconds_sum'' [of_unit unit, (''phase'', ''process'')] (shown (m_round_process u)) @
       sample ''vejas_round_seconds_sum'' [of_unit unit, (''phase'', ''barrier'')] (shown (m_round_barrier u))) us) @
     series ''vejas_emits_published_total'' ''Messages a unit published to the bus.'' ''counter'' (nat_str \<circ> m_emits) us @
     series ''vejas_http_rejected_total'' ''Connections or requests refused past a bound, or for want of a thread.'' ''counter''
       (nat_str \<circ> m_rejected) (filter (\<lambda>(_, u). m_rejected u > 0) us) @
     series ''vejas_dead_letters_total'' ''Messages a unit dead-lettered (ADR-0015).'' ''counter'' (nat_str \<circ> m_dead) us"

text \<open>A histogram: its buckets are stored cumulatively, so each is the count of its bound.\<close>

definition histogram :: "(f64 \<Rightarrow> string) \<Rightarrow> string \<times> unit_metrics \<Rightarrow> string" where
  "histogram shown = (\<lambda>(unit, u).
     concat (map2 (\<lambda>bound n. sample ''vejas_event_duration_seconds_bucket'' [of_unit unit, (''le'', shown bound)] (nat_str n))
       buckets_bounds (m_buckets u)) @
     sample ''vejas_event_duration_seconds_bucket'' [of_unit unit, (''le'', ''+Inf'')] (nat_str (m_count u)) @
     sample ''vejas_event_duration_seconds_sum'' [of_unit unit] (shown (m_sum u)) @
     sample ''vejas_event_duration_seconds_count'' [of_unit unit] (nat_str (m_count u)))"

definition render :: "(f64 \<Rightarrow> string) \<Rightarrow> (f64 \<Rightarrow> string) \<Rightarrow> string list \<Rightarrow> units \<Rightarrow> (string \<times> string \<times> nat) list \<Rightarrow> string" where
  "render shown fixed6 order m gauges =
     (let us = List.map_filter (\<lambda>unit. map_option (Pair unit) (m unit)) order in
      gauge_part gauges @ processed_part us @ snapshot_part fixed6 us @ round_part shown us @
      heading ''vejas_event_duration_seconds'' ''In-process per-event processing time.'' ''histogram'' @
      concat (map (histogram shown) us))"

section \<open>Spans\<close>

record span =
  sn_unit :: string
  sn_subject :: string
  sn_ok :: bool
  sn_error :: "string option"
  sn_start :: nat
  sn_end :: nat
  sn_emits :: nat

text \<open>Identifiers: a counter, mixed with the clock of the call. \<open>clock\<close> is read once an identifier.\<close>

definition hex64 :: "64 word \<Rightarrow> string" where
  "hex64 w = hex 16 (unat w)"

definition trace_mix :: "64 word" where "trace_mix = 0x9E3779B97F4A7C15"
definition span_mix :: "64 word" where "span_mix = 0xD6E8FEB86659FD93"

definition id_hex :: "(64 word \<Rightarrow> nat) \<Rightarrow> nat \<Rightarrow> 64 word \<Rightarrow> string \<times> 64 word" where
  "id_hex clock bytes seq =
     (let n = (of_nat (clock seq) :: 64 word) in
      ((if bytes = 16 then hex64 n @ hex64 (seq * trace_mix) else hex64 ((seq XOR n) * span_mix)), seq + 1))"

definition attribute :: "string \<Rightarrow> string \<Rightarrow> json \<Rightarrow> json" where
  "attribute key k v = VObject (om_of_list [(''key'', VString key), (''value'', VObject [(k, v)])])"

definition span_json :: "(64 word \<Rightarrow> nat) \<Rightarrow> 64 word \<Rightarrow> span \<Rightarrow> json \<times> 64 word" where
  "span_json clock seq s =
     (case id_hex clock 16 seq of (trace, seq1) \<Rightarrow>
      (case id_hex clock 8 seq1 of (spn, seq2) \<Rightarrow>
        (VObject (om_of_list
           [(''traceId'', VString trace), (''spanId'', VString spn), (''name'', VString (sn_unit s)), (''kind'', num_json 5),
            (''startTimeUnixNano'', VString (nat_str (sn_start s))), (''endTimeUnixNano'', VString (nat_str (sn_end s))),
            (''attributes'', VArray ([attribute ''vejas.unit'' ''stringValue'' (VString (sn_unit s)),
               attribute ''messaging.destination.name'' ''stringValue'' (VString (sn_subject s)),
               attribute ''vejas.emits'' ''intValue'' (num_json (sn_emits s))] @
               (case sn_error s of Some e \<Rightarrow> [attribute ''error.message'' ''stringValue'' (VString e)] | None \<Rightarrow> []))),
            (''status'', VObject [(''code'', num_json (if sn_ok s then 1 else 2))])]), seq2)))"

fun spans_json :: "(64 word \<Rightarrow> nat) \<Rightarrow> 64 word \<Rightarrow> span list \<Rightarrow> json list \<times> 64 word" where
  "spans_json clock seq [] = ([], seq)"
| "spans_json clock seq (s # ss) =
     (case span_json clock seq s of (j, seq1) \<Rightarrow>
      (case spans_json clock seq1 ss of (js, seq2) \<Rightarrow> (j # js, seq2)))"

definition otlp_payload :: "(json \<Rightarrow> string) \<Rightarrow> (64 word \<Rightarrow> nat) \<Rightarrow> string \<Rightarrow> span list \<Rightarrow> 64 word \<Rightarrow> string \<times> 64 word" where
  "otlp_payload to_json clock service spans seq =
     (case spans_json clock seq spans of (js, seq') \<Rightarrow>
       (to_json (VObject [(''resourceSpans'', VArray [VObject (om_of_list
          [(''resource'', VObject [(''attributes'', VArray [attribute ''service.name'' ''stringValue'' (VString service)])]),
           (''scopeSpans'', VArray [VObject (om_of_list [(''scope'', VObject [(''name'', VString ''vejas.runtime'')]),
              (''spans'', VArray js)])])])])]), seq'))"

text \<open>
  The queue to the exporter: a full one drops the span, and the exporter takes up to 512 at a time.
  There is none unless an endpoint is set.
\<close>

definition otlp_url :: "environ \<Rightarrow> string option" where
  "otlp_url env = map_option (\<lambda>e. trim_end_matches e ''/'' @ ''/v1/traces'') (env ''OTEL_EXPORTER_OTLP_ENDPOINT'')"

definition queue_span :: "environ \<Rightarrow> span \<Rightarrow> span list \<Rightarrow> span list" where
  "queue_span env s q = (if otlp_url env = None \<or> 4096 \<le> length q then q else q @ [s])"

definition take_batch :: "span list \<Rightarrow> (span list \<times> span list) option" where
  "take_batch q = (if q = [] then None else Some (take 512 q, drop 512 q))"

section \<open>Facts\<close>

definition esc_char :: "char \<Rightarrow> string" where
  "esc_char c = (if c = CHR 0x5C then [CHR 0x5C, CHR 0x5C] else if c = CHR 0x22 then [CHR 0x5C, CHR 0x22]
     else if c = CHR 0x0A then [CHR 0x5C, CHR ''n''] else [c])"

lemma esc_chars: "esc s = concat (map esc_char s)"
proof (induction s)
  case (Cons c s)
  then show ?case by (auto simp: esc_def replace_char quote_def esc_char_def)
qed (simp add: esc_def replace_char quote_def)

text \<open>How a reader of the page takes a label value apart: up to the first quote that is not escaped.\<close>

fun read_label :: "string \<Rightarrow> (string \<times> string) option" where
  "read_label [] = None"
| "read_label (c # s) =
     (if c = CHR 0x22 then Some ([], s)
      else if c = CHR 0x5C then
        (case s of
           d # t \<Rightarrow> map_option (\<lambda>(v, r). ((if d = CHR ''n'' then CHR 0x0A else d) # v, r)) (read_label t)
         | [] \<Rightarrow> None)
      else if c = CHR 0x0A then None
      else map_option (\<lambda>(v, r). (c # v, r)) (read_label s))"

text \<open>
  Whatever a unit is called, its label stays one label on one line, and reads back as its name.
\<close>

theorem label_roundtrip: "read_label (esc s @ quote @ rest) = Some (s, rest)"
  by (induction s) (auto simp: esc_chars esc_char_def quote_def)

lemma esc_one_line: "CHR 0x0A \<notin> set (esc s)"
  by (auto simp: esc_chars esc_char_def split: if_splits)

text \<open>Mixing with an odd factor loses nothing.\<close>

lemma mix_inverse: "trace_mix * 0xF1DE83E19937733D = 1" "span_mix * 0xCFEE444D8B59A89B = 1"
  by (simp_all add: trace_mix_def span_mix_def)

lemma mix_inj:
  assumes "a * m = b * (m :: 64 word)" and "m * i = 1"
  shows "a = b"
proof -
  have "a = a * m * i" using assms(2) by (simp add: mult.assoc)
  also have "\<dots> = b" unfolding assms(1) using assms(2) by (simp add: mult.assoc)
  finally show ?thesis .
qed

lemma hex_digit_inj: "a < 16 \<Longrightarrow> b < 16 \<Longrightarrow> hex_digit a = hex_digit b \<Longrightarrow> a = b"
  unfolding hex_digit_def by (auto split: if_splits dest!: arg_cong [where f = of_char])

lemma hex_inj: "x < 16 ^ n \<Longrightarrow> y < 16 ^ n \<Longrightarrow> hex n x = hex n y \<Longrightarrow> x = y"
proof (induction n arbitrary: x y)
  case (Suc n)
  then have "x div 16 = y div 16" by (intro Suc.IH) (auto simp: less_mult_imp_div_less mult.commute)
  moreover from Suc.prems have "x mod 16 = y mod 16" by (intro hex_digit_inj) auto
  ultimately show ?case by (metis div_mult_mod_eq)
qed simp

lemma hex64_inj: "hex64 a = hex64 b \<Longrightarrow> a = b"
proof -
  have "unat w < 16 ^ 16" for w :: "64 word" using unsigned_less [of w] by simp
  then show "hex64 a = hex64 b \<Longrightarrow> a = b" unfolding hex64_def by (metis hex_inj word_unat_eq_iff)
qed

text \<open>
  No two spans of a process share a trace identifier, whatever the clock says, until the counter
  wraps after $2^{64}$ of them; and two span identifiers of the same nanosecond differ.
\<close>

theorem trace_ids_differ:
  assumes "seq \<noteq> seq'"
  shows "fst (id_hex clock 16 seq) \<noteq> fst (id_hex clock' 16 seq')"
proof
  assume "fst (id_hex clock 16 seq) = fst (id_hex clock' 16 seq')"
  then have "hex64 (seq * trace_mix) = hex64 (seq' * trace_mix)"
    by (simp add: id_hex_def Let_def hex64_def append_eq_append_conv hex_length)
  with assms show False using mix_inj [OF hex64_inj mix_inverse(1)] by blast
qed

end
