(* ===== verification/Routes.thy ===== *)
theory Routes
  imports Mcp_Props Exposition
begin

text \<open>
  The whole of \<open>handle_request\<close> in \<open>core/src/main.rs\<close>: the front of \<open>Api\<close>, then the table of built-in
  routes, over the state of the runtime. What holds of every request, whatever its route, method,
  body and credentials, is stated here.
\<close>

section \<open>Environment\<close>

text \<open>
  \<open>si_panel\<close> is the page of the panel, \<open>si_shown\<close> and \<open>si_fixed\<close> print floats, \<open>si_order\<close> is the order of
  the metrics, \<open>si_pretty\<close> prints a golden case and \<open>si_mkdir\<close> is the error of making its directory.
\<close>

record 's site =
  si_mcp :: "'s mcp_env"
  si_connect :: "call list \<Rightarrow> bool"
  si_elapsed :: f64
  si_panel :: string
  si_shown :: "f64 \<Rightarrow> string"
  si_fixed :: "f64 \<Rightarrow> string"
  si_order :: "string list"
  si_pretty :: "json \<Rightarrow> string"
  si_mkdir :: "string option"
  si_write :: "path \<Rightarrow> (string \<times> fentry) option"

definition api_of :: "'s site \<Rightarrow> 's runtime \<Rightarrow> 's api_env" where
  "api_of S s = (let M = si_mcp S in
     \<lparr>ap_gov = gov_of M, ap_shadow = shadow_of M s, ap_nats = me_nats M, ap_listing = ct_listing (me_ctl M),
      ap_connect = si_connect S, ap_gerr = me_gerr M, ap_elapsed = si_elapsed S\<rparr>)"

definition server_of :: "'s runtime \<Rightarrow> 's server" where
  "server_of s = \<lparr>sv_gov = (rt_gov s)\<lparr>g_files := fs_text (rt_fs s)\<rparr>, sv_history = rt_history s, sv_units = rt_units s\<rparr>"

definition on_server :: "('s, 'a) sm \<Rightarrow> ('s, 'a) rm" where
  "on_server m s =
     (case m (server_of s) of
        (r, v) \<Rightarrow> (r, s\<lparr>rt_gov := sv_gov v, rt_fs := fs_after (rt_fs s) (g_files (sv_gov v)),
          rt_history := sv_history v, rt_units := sv_units v\<rparr>))"

text \<open>The front of a request. An approval that wrote a file reloads the units.\<close>

definition front :: "'s site \<Rightarrow> request \<Rightarrow> ('s, response option) rm" where
  "front S rq =
     mbind mget (\<lambda>s0.
     mbind (on_server (handle_front (api_of S s0) rq)) (\<lambda>r.
     mbind mget (\<lambda>s1.
       if g_reloads (rt_gov s1) \<noteq> g_reloads (rt_gov s0) then mbind (reload_m (si_mcp S)) (\<lambda>_. mret r) else mret r)))"

section \<open>Answers\<close>

text \<open>A text of JSON with status 200, or an error with the status of the route.\<close>

definition answered :: "nat \<Rightarrow> ('s, string) rm \<Rightarrow> ('s, response) rm" where
  "answered code m s =
     (case m s of
        (Ok t, s1) \<Rightarrow> (Ok (200, t, ''application/json''), s1)
      | (Err e, s1) \<Rightarrow> (Ok (text_reply code e), s1)
      | (Panic, s1) \<Rightarrow> (Panic, s1))"

definition step_or :: "nat \<Rightarrow> ('s, 'a) rm \<Rightarrow> ('a \<Rightarrow> ('s, response) rm) \<Rightarrow> ('s, response) rm" where
  "step_or code m k s =
     (case m s of (Ok a, s1) \<Rightarrow> k a s1 | (Err e, s1) \<Rightarrow> (Ok (text_reply code e), s1) | (Panic, s1) \<Rightarrow> (Panic, s1))"

definition behind :: "(unit, string) result \<Rightarrow> ('s, response) rm \<Rightarrow> ('s, response) rm" where
  "behind gate k = (case gate of Err e \<Rightarrow> mret (text_reply 409 e) | _ \<Rightarrow> k)"

definition write_row :: "'s mcp_env \<Rightarrow> ('s, response) rm \<Rightarrow> ('s, response) rm" where
  "write_row M k = behind (approval_gate (env_of M)) (behind (cluster_write_guard (env_of M)) k)"

definition page :: "string \<Rightarrow> string \<Rightarrow> ('s, response) rm" where
  "page t ctype = mret (200, t, ctype)"

definition ok_text :: "'s mcp_env \<Rightarrow> json \<Rightarrow> ('s, response) rm" where
  "ok_text M v = page (printed M v) ''application/json''"

definition body_text :: "request \<Rightarrow> string \<Rightarrow> string option" where
  "body_text rq k = as_str (value_index (rq_body rq) k)"

text \<open>The file a read names in its query.\<close>

definition queried :: "request \<Rightarrow> string \<Rightarrow> (string \<Rightarrow> ('s, response) rm) \<Rightarrow> ('s, response) rm" where
  "queried rq k f = (case qparam (rq_url rq) k of Some v \<Rightarrow> f v | None \<Rightarrow> mret (text_reply 400 ''missing file''))"

section \<open>Routes that read\<close>

definition kind_name :: "unit_kind \<Rightarrow> string" where
  "kind_name k = (case k of KConnector \<Rightarrow> ''connector'' | KFlow \<Rightarrow> ''flow'' | KDetect \<Rightarrow> ''detect'')"

definition row_metrics :: "'s site \<Rightarrow> ('s, response) rm" where
  "row_metrics S = mbind mget (\<lambda>s.
     page (render (si_shown S) (si_fixed S) (si_order S) (rt_units s)
       (map (\<lambda>h. (sp_name (hd_spec h), kind_name (sp_kind (hd_spec h)), ps_restarts (hd_state h))) (registered (rt_registry s))))
       ''text/plain; version=0.0.4'')"

definition row_evictions :: "'s site \<Rightarrow> ('s, response) rm" where
  "row_evictions S = mbind mget (\<lambda>s. ok_text (si_mcp S) (VObject [(''evictions'', VArray (g_evictions (rt_gov s)))]))"

definition row_topology :: "'s site \<Rightarrow> ('s, response) rm" where
  "row_topology S = mbind mget (\<lambda>s. ok_text (si_mcp S) (topology_json (rt_registry s)))"

definition row_events :: "'s site \<Rightarrow> request \<Rightarrow> ('s, response) rm" where
  "row_events S rq = mbind mget (\<lambda>s.
     page (events_json (ge_codec (me_gov (si_mcp S))) (qparam (rq_url rq) ''flow'') (rt_traces s)) ''application/json'')"

definition row_file :: "'s site \<Rightarrow> request \<Rightarrow> ('s, response) rm" where
  "row_file S rq = (let M = si_mcp S in
     case Option.bind (qparam (rq_url rq) ''path'') (guard_path (ge_canon (me_gov M)) (ge_root (me_gov M))) of
       None \<Rightarrow> mret (text_reply 400 ''path not allowed'')
     | Some p \<Rightarrow>
         answered 404 (mbind mget (\<lambda>s. mlift (rbind (read_text (rt_fs s) p) (\<lambda>t.
           Ok (printed M (VObject (om_of_list [(''path'', VString (display_path p)), (''content'', VString t)]))))))))"

definition row_fixture :: "'s site \<Rightarrow> request \<Rightarrow> ('s, response) rm" where
  "row_fixture S rq = (let M = si_mcp S in
     queried rq ''file'' (\<lambda>rel.
       case guard_path (ge_canon (me_gov M)) (ge_root (me_gov M)) rel of
         None \<Rightarrow> mret (text_reply 400 ''path not allowed'')
       | Some p \<Rightarrow>
           mbind mget (\<lambda>s.
             let fx = fixture_path_for p;
                 content = (case read_text (rt_fs s) fx of Ok t \<Rightarrow> t | _ \<Rightarrow> ''{}'')
             in ok_text M (VObject (om_of_list [(''path'', VString (display_path fx)), (''content'', VString content)])))))"

section \<open>Routes that try a change\<close>

definition row_canary_start :: "'s site \<Rightarrow> request \<Rightarrow> ('s, response) rm" where
  "row_canary_start S rq s =
     (case canary_start_m (si_mcp S) (body_str rq ''file'' []) (body_str rq ''candidate'' []) s of
        (Ok t, s1) \<Rightarrow> (Ok (200, t, ''application/json''), s1)
      | (Err e, s1) \<Rightarrow> (Ok (text_reply (if str_contains e ''already running'' then 409 else 422) e), s1)
      | (Panic, s1) \<Rightarrow> (Panic, s1))"

definition row_mcp :: "'s site \<Rightarrow> request \<Rightarrow> ('s, response) rm" where
  "row_mcp S rq =
     mbind (mcp_body (si_mcp S) (rq_body rq)) (\<lambda>out.
       case out of Some v \<Rightarrow> ok_text (si_mcp S) v | None \<Rightarrow> mret (202, [], ''application/json''))"

section \<open>Routes that change the project\<close>

definition row_golden :: "'s site \<Rightarrow> request \<Rightarrow> ('s, response) rm" where
  "row_golden S rq = (let M = si_mcp S in
     write_row M (answered 422 (mbind mget (\<lambda>s.
       mbind (on_files (golden_from_event (ctl_of M s) (si_pretty S) (si_mkdir S) (si_write S) (rt_traces s)
           (body_str rq ''flow'' []) (nat_arg (rq_body rq) ''seq'' (2 ^ 64 - 1))))
         (\<lambda>v. mret (printed M v))))))"

definition row_dlq :: "'s site \<Rightarrow> request \<Rightarrow> (nats \<Rightarrow> codec \<Rightarrow> nat option \<Rightarrow> string option \<Rightarrow> string \<Rightarrow> nat \<Rightarrow> json bm) \<Rightarrow> ('s, response) rm" where
  "row_dlq S rq act =
     (case dlq_http_gate (env_of (si_mcp S)) rq of
        Err (code, e) \<Rightarrow> mret (text_reply code e)
      | _ \<Rightarrow> answered 422 (dlq_m (si_mcp S) act (rq_body rq) (header_actor rq ''panel'')))"

definition row_secrets_set :: "'s site \<Rightarrow> request \<Rightarrow> ('s, response) rm" where
  "row_secrets_set S rq = (let M = si_mcp S in
     behind (approval_gate (env_of M)) (
       if clustered (env_of M) \<and> kind (default_store (env_of M)) \<noteq> ''vault'' then mret (text_reply 409 local_store)
       else
         (case (body_text rq ''ref'', body_text rq ''value'') of
            (Some r, Some v) \<Rightarrow>
              if v = [] then mret (text_reply 400 ''empty value'')
              else answered 422 (mbind (set_secret_m M r v) (\<lambda>restarted. mret (secret_report M r restarted)))
          | _ \<Rightarrow> mret (text_reply 400 ''need ref+value''))))"

definition row_test_connector :: "'s site \<Rightarrow> request \<Rightarrow> ('s, response) rm" where
  "row_test_connector S rq =
     (case body_text rq ''file'' of
        None \<Rightarrow> mret (text_reply 400 ''need file'')
      | Some rel \<Rightarrow> answered 500 (viewed (si_mcp S) (\<lambda>C s. json_text (si_mcp S) (probe_connector C rel))))"

definition row_provision :: "'s site \<Rightarrow> request \<Rightarrow> ('s, response) rm" where
  "row_provision S rq = (let M = si_mcp S in
     write_row M (
       case (body_text rq ''template'', body_text rq ''tenant_slug'') of
         (Some template, Some slug) \<Rightarrow>
           answered 422 (mbind (provision_m M template slug
               (case as_object (value_index (rq_body rq) ''params'') of Some m \<Rightarrow> m | None \<Rightarrow> [])
               (as_bool (value_index (rq_body rq) ''force'') = Some True))
             (\<lambda>out. mret (printed M out)))
       | _ \<Rightarrow> mret (text_reply 400 ''need template+tenant_slug'')))"

definition counts :: "(string \<times> json) list \<Rightarrow> nat \<times> nat \<times> nat \<Rightarrow> json" where
  "counts fs = (\<lambda>(_, started, stopped).
     VObject (om_of_list (fs @ [(''started'', num_json started), (''stopped'', num_json stopped)])))"

definition row_file_set :: "'s site \<Rightarrow> request \<Rightarrow> ('s, response) rm" where
  "row_file_set S rq = (let M = si_mcp S in
     write_row M (
       case (body_text rq ''path'', body_text rq ''content'') of
         (Some rel, Some content) \<Rightarrow>
           step_or 400 (on_project M (guard (gov_of M) rel)) (\<lambda>p.
           step_or 422 (if ends_with rel ''.vjs'' then on_project M (mbind (parse_g content) (\<lambda>_. mret ())) else mret ()) (\<lambda>_.
           step_or 500 (on_project M (write_file (gov_of M) p content)) (\<lambda>_.
           step_or 500 (reload_m M) (\<lambda>n. ok_text M (counts [(''ok'', VBool True)] n)))))
       | _ \<Rightarrow> mret (text_reply 400 ''need path+content'')))"

definition row_fixture_set :: "'s site \<Rightarrow> request \<Rightarrow> ('s, response) rm" where
  "row_fixture_set S rq = (let M = si_mcp S in
     write_row M (
       case (body_text rq ''file'', body_text rq ''content'') of
         (Some rel, Some content) \<Rightarrow>
           step_or 400 (on_project M (guard (gov_of M) rel)) (\<lambda>p.
             if cd_parse (ge_codec (me_gov M)) content = None then mret (text_reply 422 ''fixture must be valid JSON'')
             else step_or 500 (on_project M (write_file (gov_of M) (fixture_path_for p) content)) (\<lambda>_. ok_text M ok_json))
       | _ \<Rightarrow> mret (text_reply 400 ''need file+content'')))"

text \<open>\<open>POST /surface/set\<close>: a version in a cluster, else a write of the file.\<close>

definition row_surface_set :: "'s site \<Rightarrow> request \<Rightarrow> ('s, response) rm" where
  "row_surface_set S rq =
     (let M = si_mcp S; G = gov_of M; rel = body_str rq ''file'' []; name = body_str rq ''name'' [];
          key = body_str rq ''key'' ''-''; v = value_index (rq_body rq) ''value''; actor = header_actor rq ''panel'' in
      behind (approval_gate (env_of M)) (
        if clustered (env_of M) then
          answered 422 (mbind (on_project M (promote_version G rel name key v actor)) (\<lambda>out. mret (printed M out)))
        else
          step_or 400 (on_project M (guard G rel)) (\<lambda>p.
          step_or 500 (on_project M (read_file p)) (\<lambda>src.
          step_or 422 (on_project M (mbind (literal_before src name key) (\<lambda>before.
              mbind (edit G src name key v) (\<lambda>new_src. mret (before, new_src))))) (\<lambda>(before, new_src).
          step_or 500 (on_project M (write_file G p new_src)) (\<lambda>_.
          step_or 500 (on_project M (record_promote G rel name key before v actor)) (\<lambda>_.
          step_or 500 (reload_m M) (\<lambda>_.
            ok_text M (VObject (om_of_list
              [(''ok'', VBool True), (''file'', VString rel), (''name'', VString name), (''key'', VString key)]))))))))))"

definition row_rollback :: "'s site \<Rightarrow> request \<Rightarrow> ('s, response) rm" where
  "row_rollback S rq =
     write_row (si_mcp S) (answered 422 (rollback_m (si_mcp S) (body_str rq ''file'' []) (body_str rq ''name'' [])
       (body_str rq ''key'' ''-'') (''rollback:'' @ header_actor rq ''panel'')))"

definition row_new :: "'s site \<Rightarrow> request \<Rightarrow> (agent_env \<Rightarrow> ctl_env \<Rightarrow> string \<Rightarrow> (fs, string, string) stm) \<Rightarrow> ('s, response) rm" where
  "row_new S rq generate =
     write_row (si_mcp S) (
       if trim (body_str rq ''prompt'' []) = [] then mret (text_reply 400 ''missing prompt'')
       else answered 422 (new_m (si_mcp S) generate (body_str rq ''prompt'' [])))"

section \<open>The table\<close>

definition read_rows :: "'s site \<Rightarrow> request \<Rightarrow> (string \<times> ('s, response) rm) list" where
  "read_rows S rq = (let M = si_mcp S in
     [(''/proposals'', answered 500 (tool_proposals M)),
      (''/'', page (si_panel S) ''text/html; charset=utf-8''),
      (''/panel'', page (si_panel S) ''text/html; charset=utf-8''),
      (''/healthz'', page ''ok'' ''text/plain''),
      (''/evictions'', row_evictions S),
      (''/metrics'', row_metrics S),
      (''/topology'', row_topology S),
      (''/graph'', answered 500 (viewed M (\<lambda>C s. json_text M (graph_json C)))),
      (''/surface'', answered 500 (viewed M (\<lambda>C s. json_text M (surface_json C)))),
      (''/events'', row_events S rq),
      (''/dlq'', answered 500 (dlq_list_m M 200)),
      (''/drivers'', answered 500 (tool_drivers M)),
      (''/secrets'', answered 500 (viewed M (\<lambda>C s. secrets_json C (rt_rotations s)))),
      (''/preview'', queried rq ''file'' (\<lambda>rel. answered 500 (viewed M (\<lambda>C s.
         preview_json C (\<lambda>p. rt_fs s p \<noteq> Missing) (me_json_error M) rel)))),
      (''/rules'', queried rq ''file'' (\<lambda>rel. answered 500 (viewed M (\<lambda>C s. rules_json C rel)))),
      (''/file'', row_file S rq),
      (''/fixture'', row_fixture S rq),
      (''/surface/canary'', queried rq ''file'' (\<lambda>rel. answered 422 (canary_read_m M rel)))])"

definition post_rows :: "'s site \<Rightarrow> request \<Rightarrow> (string \<times> ('s, response) rm) list" where
  "post_rows S rq = (let M = si_mcp S; n = nat_arg (rq_body rq) ''n'' 20; rel = body_str rq ''file'' [] in
     [(''/events/golden'', row_golden S rq),
      (''/dlq/replay'', row_dlq S rq dlq_replay),
      (''/dlq/purge'', row_dlq S rq dlq_purge),
      (''/secrets/set'', row_secrets_set S rq),
      (''/connectors/test'', row_test_connector S rq),
      (''/provision'', row_provision S rq),
      (''/file/set'', row_file_set S rq),
      (''/fixture/set'', row_fixture_set S rq),
      (''/surface/replay'', answered 422 (replay_m M rel (body_str rq ''name'' []) (body_str rq ''key'' ''-'') (value_index (rq_body rq) ''value'') n)),
      (''/surface/timetravel'', answered 422 (time_travel_m M rel (body_str rq ''candidate'' []) n)),
      (''/surface/canary/start'', row_canary_start S rq),
      (''/surface/canary/stop'', answered 422 (canary_stop_m M rel)),
      (''/surface/set'', row_surface_set S rq),
      (''/surface/rollback'', row_rollback S rq),
      (''/flows/new'', row_new S rq generate_flow),
      (''/connectors/new'', row_new S rq generate_connector),
      (''/reload'', answered 500 (tool_reload M)),
      (''/mcp'', row_mcp S rq)])"

definition row_of :: "'s site \<Rightarrow> request \<Rightarrow> ('s, response) rm" where
  "row_of S rq =
     (let rows = (if rq_method rq = ''GET'' then read_rows S rq else if rq_method rq = ''POST'' then post_rows S rq else []) in
      case map_of rows (path_only (rq_url rq)) of Some m \<Rightarrow> m | None \<Rightarrow> mret (text_reply 404 ''not found''))"

definition handle_request :: "'s site \<Rightarrow> request \<Rightarrow> ('s, response) rm" where
  "handle_request S rq = mbind (front S rq) (\<lambda>r. case r of Some x \<Rightarrow> mret x | None \<Rightarrow> row_of S rq)"

section \<open>Frames of a row\<close>

context loose_frame
begin

lemma answered_keeps:
  assumes "keeps R m"
  shows "keeps R (answered code m)"
proof (rule keepsI)
  fix s
  obtain r t where m: "m s = (r, t)" by fastforce
  from keepsE [OF assms m] have "R k s t" for k by (rule any_end)
  then show "R (end_of (fst (answered code m s))) s (snd (answered code m s))"
    by (simp add: answered_def m split: result.split)
qed

lemma step_or_keeps:
  assumes "keeps R m" and "\<And>a. keeps R (k a)"
  shows "keeps R (step_or code m k)"
proof (rule keepsI)
  fix s
  obtain r t where m: "m s = (r, t)" by fastforce
  from keepsE [OF assms(1) m] have t: "R e s t" for e by (rule any_end)
  show "R (end_of (fst (step_or code m k s))) s (snd (step_or code m k s))"
    using t step [OF t keepsD [OF assms(2)]] by (cases r) (simp_all add: step_or_def m)
qed

lemma behind_keeps: "keeps R k \<Longrightarrow> keeps R (behind gate k)"
  by (auto simp: behind_def intro: pair_keeps split: result.split)

lemma write_row_keeps: "keeps R k \<Longrightarrow> keeps R (write_row M k)"
  unfolding write_row_def by (intro behind_keeps)

lemma page_keeps: "keeps R (page t c)" "keeps R (ok_text M v)"
  by (auto simp: page_def ok_text_def intro: pair_keeps)

lemma queried_keeps: "(\<And>v. keeps R (f v)) \<Longrightarrow> keeps R (queried rq k f)"
  by (auto simp: queried_def intro: pair_keeps split: option.split)

lemma closed_rows:
  assumes "require_approval (env_of M)"
  shows "keeps R (behind (approval_gate (env_of M)) k)" "keeps R (write_row M k)"
  using assms by (auto simp: behind_def write_row_def approval_gate_def intro: pair_keeps)

lemma canary_start_keeps:
  assumes "keeps R (canary_start_m (si_mcp S) (body_str rq ''file'' []) (body_str rq ''candidate'' []))"
  shows "keeps R (row_canary_start S rq)"
proof (rule keepsI)
  fix s
  obtain r t where m: "canary_start_m (si_mcp S) (body_str rq ''file'' []) (body_str rq ''candidate'' []) s = (r, t)" by fastforce
  from keepsE [OF assms m] have "R k s t" for k by (rule any_end)
  then show "R (end_of (fst (row_canary_start S rq s))) s (snd (row_canary_start S rq s))"
    by (simp add: row_canary_start_def m split: result.split)
qed

lemmas row_keeps = answered_keeps page_keeps queried_keeps mbind_keeps mget_keeps mret_keeps pair_keeps

lemma view_rows_keep:
  shows "keeps R (row_evictions S)" "keeps R (row_metrics S)" "keeps R (row_topology S)" "keeps R (row_events S rq)"
    "keeps R (row_file S rq)" "keeps R (row_fixture S rq)"
  unfolding row_evictions_def row_metrics_def row_topology_def row_events_def row_file_def row_fixture_def Let_def
  by (auto intro!: row_keeps mlift_keeps split: option.split)

lemma row_of_keeps:
  assumes "rq_method rq = ''GET'' \<Longrightarrow> list_all (\<lambda>(p, m). keeps R m) (read_rows S rq)"
    and "rq_method rq = ''POST'' \<Longrightarrow> list_all (\<lambda>(p, m). keeps R m) (post_rows S rq)"
  shows "keeps R (row_of S rq)"
  unfolding row_of_def Let_def
  using assms by (auto simp: list_all_iff intro!: pair_keeps dest!: map_of_SomeD split: option.split if_splits)

end

section \<open>What a request can change\<close>

text \<open>
  \<open>quiet\<close>: nothing changes but overlays that are stale already and proposals that expire. \<open>site_frame\<close>: the
  same of files, rotations, overlays and proposals, and of the bus when \<open>bus\<close> says so.
\<close>

definition quiet :: "codec \<Rightarrow> ('s \<Rightarrow> string \<Rightarrow> (string \<times> nat) option) \<Rightarrow> string ending \<Rightarrow> 's runtime \<Rightarrow> 's runtime \<Rightarrow> bool" where
  "quiet C view k s s' \<longleftrightarrow>
     rt_fs s' = rt_fs s \<and> rt_history s' = rt_history s \<and> rt_rotations s' = rt_rotations s \<and> rt_traces s' = rt_traces s \<and>
     rt_registry s' = rt_registry s \<and> rt_canaries s' = rt_canaries s \<and> rt_tasks s' = rt_tasks s \<and> rt_asked s' = rt_asked s \<and>
     only_evicted view (g_versions (rt_gov s)) (g_versions (rt_gov s')) \<and>
     no_decision C view (g_props (rt_gov s)) (g_props (rt_gov s'))"

definition site_frame ::
  "codec \<Rightarrow> ('s \<Rightarrow> string \<Rightarrow> (string \<times> nat) option) \<Rightarrow> bool \<Rightarrow> string ending \<Rightarrow> 's runtime \<Rightarrow> 's runtime \<Rightarrow> bool" where
  "site_frame C view bus k s s' \<longleftrightarrow>
     rt_fs s' = rt_fs s \<and> (bus \<longrightarrow> rt_history s' = rt_history s) \<and> rt_rotations s' = rt_rotations s \<and>
     only_evicted view (g_versions (rt_gov s)) (g_versions (rt_gov s')) \<and>
     no_decision C view (g_props (rt_gov s)) (g_props (rt_gov s'))"

interpretation qf: loose_frame "quiet C view" for C view
  by unfold_locales (auto simp: quiet_def intro: no_decision_trans)

interpretation sf: loose_frame "site_frame C view bus" for C view bus
  by unfold_locales (auto simp: site_frame_def intro: no_decision_trans)

lemma agent_site: "keeps (agent_frame C view) m \<Longrightarrow> keeps (site_frame C view bus) m"
  by (auto simp: keeps_def agent_frame_def site_frame_def)

text \<open>The front, when it leaves the state of governance: what is left are the bus and the metrics.\<close>

lemma front_state:
  assumes "\<And>s. keeps (same_of sv_gov) (handle_front (api_of S s) rq)"
  shows "\<exists>r v. handle_front (api_of S s) rq (server_of s) = (r, v) \<and>
    snd (front S rq s) = s\<lparr>rt_gov := (rt_gov s)\<lparr>g_files := fs_text (rt_fs s)\<rparr>, rt_history := sv_history v, rt_units := sv_units v\<rparr>"
proof -
  obtain r v where h: "handle_front (api_of S s) rq (server_of s) = (r, v)" by fastforce
  with keepsE [OF assms h] have "sv_gov v = (rt_gov s)\<lparr>g_files := fs_text (rt_fs s)\<rparr>"
    by (simp add: same_of_def server_of_def)
  then show ?thesis
    by (cases r) (auto simp: front_def on_server_def mbind_def h)
qed

lemma front_site:
  assumes "\<And>s. keeps (same_of sv_gov) (handle_front (api_of S s) rq)"
    and "\<And>s. bus \<Longrightarrow> keeps (same_of sv_history) (handle_front (api_of S s) rq)"
  shows "keeps (site_frame C view bus) (front S rq)"
proof (rule keepsI)
  fix s
  from front_state [OF assms(1), of s] obtain r v where h: "handle_front (api_of S s) rq (server_of s) = (r, v)"
    and f: "snd (front S rq s) = s\<lparr>rt_gov := (rt_gov s)\<lparr>g_files := fs_text (rt_fs s)\<rparr>, rt_history := sv_history v, rt_units := sv_units v\<rparr>"
    by blast
  have "bus \<Longrightarrow> sv_history v = rt_history s" using keepsE [OF assms(2) h] by (simp add: same_of_def server_of_def)
  with f show "site_frame C view bus (end_of (fst (front S rq s))) s (snd (front S rq s))" by (simp add: site_frame_def)
qed

lemma front_quiet:
  assumes "\<And>s. keeps (same_of sv_gov) (handle_front (api_of S s) rq)"
    and "\<And>s. keeps (same_of sv_history) (handle_front (api_of S s) rq)"
  shows "keeps (quiet C view) (front S rq)"
proof (rule keepsI)
  fix s
  from front_state [OF assms(1), of s] obtain r v where h: "handle_front (api_of S s) rq (server_of s) = (r, v)"
    and f: "snd (front S rq s) = s\<lparr>rt_gov := (rt_gov s)\<lparr>g_files := fs_text (rt_fs s)\<rparr>, rt_history := sv_history v, rt_units := sv_units v\<rparr>"
    by blast
  have "sv_history v = rt_history s" using keepsE [OF assms(2) h] by (simp add: same_of_def server_of_def)
  with f show "quiet C view (end_of (fst (front S rq s))) s (snd (front S rq s))" by (simp add: quiet_def)
qed

lemma api_of_env [simp]: "ge_env (ap_gov (api_of S s)) = env_of (si_mcp S)"
  by (simp add: api_of_def gov_of_def Let_def)

lemma front_off_the_api:
  assumes "\<not> approval_authorized (ge_env (ap_gov A)) rq" and "strip_prefix ''/api/'' (path_only (rq_url rq)) = None"
  shows "keeps (same_of f) (handle_front A rq)"
  using assms by (auto simp: handle_front_def Let_def intro!: same.mbind_keeps serve_decision_same [OF assms(1)] split: option.split)

lemma handle_request_keeps:
  assumes "keeps R (front S rq)" and "keeps R (row_of S rq)" and "frame R (\<lambda>_. False)"
  shows "keeps R (handle_request S rq)"
  unfolding handle_request_def
  by (rule frame.mbind_keeps [OF assms(3,1)]) (auto intro: assms(2) frame.mret_keeps [OF assms(3)] split: option.split)

section \<open>Rows\<close>

lemma governed_rows:
  fixes S :: "'s site"
  assumes "require_approval (env_of (si_mcp S))" and "\<not> approval_authorized (env_of (si_mcp S)) rq"
    and "kv_laws (ge_kv (me_gov (si_mcp S))) view seq" and "kv_answers (ge_kv (me_gov (si_mcp S)))"
    and "status_read_back (ge_codec (me_gov (si_mcp S)))"
  shows "keeps (agent_frame (ge_codec (me_gov (si_mcp S))) view) (row_of S rq)"
proof (rule af.row_of_keeps)
  let ?C = "ge_codec (me_gov (si_mcp S))" and ?M = "si_mcp S"
  note tools = open_tools_frame [OF assms(3-5)] and trials = trials_frame [OF assms(3,4) [folded gov_of_fields]]
  show "list_all (\<lambda>(p, m). keeps (agent_frame ?C view) m) (read_rows S rq)"
    unfolding read_rows_def Let_def list.pred_inject prod.case
    by (intro conjI af.answered_keeps af.queried_keeps af.page_keeps af.view_rows_keep tools trials) simp
  have shut: "keeps (agent_frame ?C view) (row_golden S rq)" "keeps (agent_frame ?C view) (row_secrets_set S rq)"
    "keeps (agent_frame ?C view) (row_provision S rq)" "keeps (agent_frame ?C view) (row_file_set S rq)"
    "keeps (agent_frame ?C view) (row_fixture_set S rq)" "keeps (agent_frame ?C view) (row_surface_set S rq)"
    "keeps (agent_frame ?C view) (row_rollback S rq)" "keeps (agent_frame ?C view) (row_new S rq g)" for g
    unfolding row_golden_def row_secrets_set_def row_provision_def row_file_set_def row_fixture_set_def row_surface_set_def
      row_rollback_def row_new_def Let_def
    by (rule af.closed_rows [OF assms(1)])+
  have dlq: "keeps (agent_frame ?C view) (row_dlq S rq a)" for a
    using assms(1,2) by (auto simp: row_dlq_def dlq_http_gate_def intro: af.pair_keeps)
  have others: "keeps (agent_frame ?C view) (row_test_connector S rq)" "keeps (agent_frame ?C view) (row_mcp S rq)"
    unfolding row_test_connector_def row_mcp_def
    by (auto intro!: af.row_keeps steps_frame mcp_body_frame [OF assms(1,3-5)] split: option.split)
  show "list_all (\<lambda>(p, m). keeps (agent_frame ?C view) m) (post_rows S rq)"
    unfolding post_rows_def Let_def list.pred_inject prod.case
    by (intro conjI shut dlq others af.answered_keeps af.canary_start_keeps tools trials) simp
qed

lemma rows_undecided:
  fixes S :: "'s site"
  assumes "kv_laws (ge_kv (me_gov (si_mcp S))) view seq" and "kv_answers (ge_kv (me_gov (si_mcp S)))"
    and "status_read_back (ge_codec (me_gov (si_mcp S)))"
  shows "keeps (undecided (ge_codec (me_gov (si_mcp S))) view) (row_of S rq)"
proof (rule uf.row_of_keeps)
  let ?C = "ge_codec (me_gov (si_mcp S))" and ?M = "si_mcp S"
  note tools = open_tools_frame [OF assms, THEN agent_undecided]
    and trials = trials_frame [OF assms(1,2) [folded gov_of_fields], THEN agent_undecided]
  show "list_all (\<lambda>(p, m). keeps (undecided ?C view) m) (read_rows S rq)"
    unfolding read_rows_def Let_def list.pred_inject prod.case
    by (intro conjI uf.answered_keeps uf.queried_keeps uf.page_keeps uf.view_rows_keep tools trials) simp
  have edits: "keeps (undecided ?C view) (on_project ?M (mbind (literal_before src name key) (\<lambda>b. mbind (edit E src name key v) (\<lambda>n. mret (b, n)))))"
    "keeps (undecided ?C view) (on_project ?M (read_file p))" for src name key v E p
    by (intro on_project_undecided pf.mbind_keeps props_kept pf.mret_keeps)+
  have "keeps (undecided ?C view) (row_golden S rq)" "keeps (undecided ?C view) (row_provision S rq)"
    "keeps (undecided ?C view) (row_rollback S rq)" "keeps (undecided ?C view) (row_new S rq g)" for g
    unfolding row_golden_def row_provision_def row_rollback_def row_new_def Let_def
    by (auto intro!: uf.write_row_keeps uf.row_keeps undecided_steps writes_undecided split: option.split)
  moreover have "keeps (undecided ?C view) (row_secrets_set S rq)"
    unfolding row_secrets_set_def Let_def
    by (auto intro!: uf.behind_keeps uf.row_keeps undecided_steps split: option.split)
  moreover have "keeps (undecided ?C view) (row_file_set S rq)" "keeps (undecided ?C view) (row_fixture_set S rq)"
    unfolding row_file_set_def row_fixture_set_def Let_def
    by (auto intro!: uf.write_row_keeps uf.step_or_keeps uf.row_keeps undecided_steps split: option.split)
  moreover have "keeps (undecided ?C view) (row_surface_set S rq)"
    unfolding row_surface_set_def Let_def
    by (auto intro!: uf.behind_keeps uf.step_or_keeps uf.row_keeps undecided_steps edits split: prod.split)
  moreover have "keeps (undecided ?C view) (row_dlq S rq a)" for a
    by (auto simp: row_dlq_def intro!: uf.row_keeps writes_undecided split: result.split)
  moreover have "keeps (undecided ?C view) (row_test_connector S rq)" "keeps (undecided ?C view) (row_mcp S rq)"
    unfolding row_test_connector_def row_mcp_def
    by (auto intro!: uf.row_keeps undecided_steps mcp_body_undecided [OF assms] split: option.split)
  ultimately show "list_all (\<lambda>(p, m). keeps (undecided ?C view) m) (post_rows S rq)"
    unfolding post_rows_def Let_def list.pred_inject prod.case
    by (intro conjI uf.answered_keeps uf.canary_start_keeps tools trials) simp_all
qed

lemma on_project_quiet:
  fixes m :: "('s, 'a) gm"
  assumes "keeps (gov_frame C view) m"
  shows "keeps (quiet C view) (on_project M m)"
proof (rule keepsI)
  fix s :: "'s runtime"
  obtain r g where m: "m ((rt_gov s)\<lparr>g_files := fs_text (rt_fs s)\<rparr>) = (r, g)" by fastforce
  from keepsE [OF assms m] show "quiet C view (end_of (fst (on_project M m s))) s (snd (on_project M m s))"
    by (simp add: on_project_def m quiet_def gov_frame_def)
qed

lemma canary_read_quiet:
  fixes M :: "'s mcp_env"
  shows "keeps (quiet C view) (canary_read_m M rel)"
proof -
  have same: "snd (canary_read (gov_of M) rel x) = x" for x
    by (auto simp: canary_read_def on_gov_def guard_def mbind_def split: option.split)
  have "keeps (quiet C view) (on_canaries M (canary_read (gov_of M) rel))"
  proof (rule keepsI)
    fix s :: "'s runtime"
    obtain r where "canary_read (gov_of M) rel ((rt_gov s)\<lparr>g_files := fs_text (rt_fs s)\<rparr>, rt_canaries s) =
        (r, ((rt_gov s)\<lparr>g_files := fs_text (rt_fs s)\<rparr>, rt_canaries s))"
      using same by (metis prod.collapse)
    then show "quiet C view (end_of (fst (on_canaries M (canary_read (gov_of M) rel) s))) s
        (snd (on_canaries M (canary_read (gov_of M) rel) s))"
      by (simp add: on_canaries_def quiet_def)
  qed
  then show ?thesis unfolding canary_read_m_def by (intro qf.mbind_keeps qf.mret_keeps)
qed

lemma read_rows_quiet:
  fixes S :: "'s site"
  assumes "kv_laws (ge_kv (me_gov (si_mcp S))) view seq" and "kv_answers (ge_kv (me_gov (si_mcp S)))"
    and "status_read_back (ge_codec (me_gov (si_mcp S)))" and "rq_method rq \<noteq> ''POST''"
  shows "keeps (quiet (ge_codec (me_gov (si_mcp S))) view) (row_of S rq)"
proof (rule qf.row_of_keeps)
  let ?C = "ge_codec (me_gov (si_mcp S))" and ?M = "si_mcp S"
  have "keeps (quiet ?C view) (viewed ?M f)" "keeps (quiet ?C view) (on_calls (dlq_list N D n))" for f N D n
    by (auto simp: viewed_def keeps_def mbind_def quiet_def on_calls_def dlq_list_def split: result.split prod.split)
  moreover from this have "keeps (quiet ?C view) (dlq_list_m ?M n)" for n
    unfolding dlq_list_m_def by (intro qf.mbind_keeps qf.mret_keeps)
  moreover have "keeps (quiet ?C view) (tool_proposals ?M)"
    unfolding tool_proposals_def
    using reconcile_frame [of "gov_of ?M" view seq] assms(1-3)
    by (intro qf.mbind_keeps qf.mret_keeps on_project_quiet) simp
  moreover have "keeps (quiet ?C view) (tool_drivers ?M)" unfolding tool_drivers_def by (rule qf.mret_keeps)
  ultimately show "list_all (\<lambda>(p, m). keeps (quiet ?C view) m) (read_rows S rq)"
    unfolding read_rows_def Let_def list.pred_inject prod.case
    by (intro conjI qf.answered_keeps qf.queried_keeps qf.page_keeps qf.view_rows_keep canary_read_quiet) simp_all
qed (use assms(4) in simp)

section \<open>Properties\<close>



text \<open>
  (C6) Only the human credential decides: in every mode and whatever other token it carries, a request
  without the approval token approves and rejects no proposal, through the panel, its routes or the
  tools of agents.
\<close>

theorem decisions_need_the_approval_token:
  assumes "\<not> approval_authorized (env_of (si_mcp S)) rq"
    and "kv_laws (ge_kv (me_gov (si_mcp S))) view seq" and "kv_answers (ge_kv (me_gov (si_mcp S)))"
    and "status_read_back (ge_codec (me_gov (si_mcp S)))" and "handle_request S rq s = (r, s')"
  shows "no_decision (ge_codec (me_gov (si_mcp S))) view (g_props (rt_gov s)) (g_props (rt_gov s'))"
proof -
  have gov: "keeps (same_of sv_gov) (handle_front (api_of S x) rq)" for x by (rule handle_front_gov) (simp add: assms(1))
  have "keeps (site_frame C view False) (front S rq)" for C by (rule front_site [OF gov]) simp
  then have "keeps (undecided C view) (front S rq)" for C by (simp add: keeps_def site_frame_def undecided_def)
  then have "keeps (undecided (ge_codec (me_gov (si_mcp S))) view) (handle_request S rq)"
    by (rule handle_request_keeps [OF _ rows_undecided [OF assms(2-4)] uf.frame_axioms])
  from keepsE [OF this assms(5)] show ?thesis by (simp add: undecided_def)
qed

section \<open>Witnesses\<close>

definition demo_site :: "mem site" where
  "demo_site =
     \<lparr>si_mcp = demo_mcp demo_tokens, si_connect = (\<lambda>_. True), si_elapsed = f_zero, si_panel = [], si_shown = (\<lambda>_. []),
      si_fixed = (\<lambda>_. []), si_order = [], si_pretty = (\<lambda>_. []), si_mkdir = None, si_write = (\<lambda>_. None)\<rparr>"

lemma demo_site_laws:
  "env_of (si_mcp demo_site) = demo_tokens" "kv_laws (ge_kv (me_gov (si_mcp demo_site))) fst snd"
  "kv_answers (ge_kv (me_gov (si_mcp demo_site)))" "status_read_back (ge_codec (me_gov (si_mcp demo_site)))"
  using mem_kv_laws mem_bucket_answers status_codec_back
  by (simp_all add: demo_site_def demo_mcp_def env_of_def demo_genv_def)



theorem decisions_need_the_approval_token_witness:
  "bearer_authorized demo_agent ''t'' \<and>
   no_decision (ge_codec (me_gov (si_mcp demo_site))) fst (g_props demo_gov)
     (g_props (rt_gov (snd (handle_request demo_site demo_agent demo_runtime))))"
  using decisions_need_the_approval_token [OF _ demo_site_laws(2-4) surjective_pairing, of demo_agent demo_runtime]
  by (simp add: demo_site_laws(1) demo_credentials) (simp add: demo_runtime_def)

end
