(* ===== verification/Cli.thy ===== *)
theory Cli
  imports Views
begin

text \<open>
  The process (\<open>main\<close> and \<open>serve_http\<close> of \<open>core/src/main.rs\<close>): the one-shot commands with the
  runner of golden tests, the refusal to start a governed runtime without an approver, and the
  pools that bound the requests of the panel and the connections of a webhook. A command ends
  with the lines it prints and its exit code; a failed \<open>expect\<close> or \<open>unwrap\<close> is \<open>Panic\<close>. A path of
  the command line is relative to the directory the process was started in, and \<open>ct_read\<close> reads it
  there.
\<close>

type_synonym ending = "(string list \<times> nat, string) result"

section \<open>Golden tests\<close>

definition or_panic :: "('a, 'e) result \<Rightarrow> ('a, string) result" where
  "or_panic r = (case r of Ok x \<Rightarrow> Ok x | _ \<Rightarrow> Panic)"

definition parse_or_panic :: "ctl_env \<Rightarrow> string \<Rightarrow> (json, string) result" where
  "parse_or_panic C text = (case cd_parse (ct_codec C) text of Some v \<Rightarrow> Ok v | None \<Rightarrow> Panic)"

definition json_file :: "ctl_env \<Rightarrow> path \<Rightarrow> (json, string) result" where
  "json_file C p = rbind (or_panic (ct_read C p)) (parse_or_panic C)"

definition golden_input :: "ctl_env \<Rightarrow> json \<Rightarrow> (json, string) result" where
  "golden_input C v =
     (case as_str (value_index v ''input_file'') of
        Some f \<Rightarrow> json_file C (comps f)
      | None \<Rightarrow> Ok (value_index v ''input''))"

definition golden_run :: "ctl_env \<Rightarrow> string \<Rightarrow> json \<Rightarrow> (json, string) result" where
  "golden_run C flow input =
     rbind (ct_read C (comps flow)) (\<lambda>src.
     rbind (parsed C src) (\<lambda>prog.
     rbind (show_run C (comps flow) prog input) (\<lambda>c. Ok (emits_json (emits c)))))"

definition verdict :: "ctl_env \<Rightarrow> json \<Rightarrow> (json, string) result \<Rightarrow> (unit, string) result" where
  "verdict C v r =
     (case (r, as_str (value_index v ''expect_error'')) of
        (Panic, _) \<Rightarrow> Panic
      | (Err e, Some want) \<Rightarrow>
          if str_contains e want then Ok ()
          else Err (''error mismatch: got '' @ ct_debug C e @ '', want substring '' @ ct_debug C want)
      | (Err e, None) \<Rightarrow> Err (''unexpected error: '' @ e)
      | (Ok _, Some want) \<Rightarrow> Err (''expected error '' @ ct_debug C want @ '', flow succeeded'')
      | (Ok got, None) \<Rightarrow>
          (let want = value_index v ''expect_emits'' in
           if got = want then Ok ()
           else Err (''emits mismatch'' @ newline @ ''     got:  '' @ cd_print (ct_codec C) got @ newline @
                     ''     want: '' @ cd_print (ct_codec C) want)))"

text \<open>The verdict on a case; \<open>Panic\<close> ends the whole run of the tests.\<close>

definition golden_verdict :: "ctl_env \<Rightarrow> json \<Rightarrow> (unit, string) result" where
  "golden_verdict C v =
     (case as_str (value_index v ''flow'') of
        None \<Rightarrow> Panic
      | Some flow \<Rightarrow>
          (case golden_input C v of
             Ok input \<Rightarrow> verdict C v (golden_run C flow input)
           | _ \<Rightarrow> Panic))"

fun golden_cases :: "ctl_env \<Rightarrow> path list \<Rightarrow> (string list \<times> nat \<times> nat, string) result" where
  "golden_cases C [] = Ok ([], 0, 0)"
| "golden_cases C (p # ps) =
     (case json_file C p of
        Ok v \<Rightarrow>
          (case golden_verdict C v of
             Panic \<Rightarrow> Panic
           | Ok _ \<Rightarrow> rbind (golden_cases C ps) (\<lambda>(out, pass, fail).
               Ok ((''  '' @ [CHR 0xE2, CHR 0x9C, CHR 0x93] @ '' '' @ file_stem p) # out, pass + 1, fail))
           | Err e \<Rightarrow> rbind (golden_cases C ps) (\<lambda>(out, pass, fail).
               Ok ((''  '' @ [CHR 0xE2, CHR 0x9C, CHR 0x97] @ '' '' @ file_stem p @ '': '' @ e) # out, pass, fail + 1)))
      | _ \<Rightarrow> Panic)"

definition is_json_file :: "string \<Rightarrow> bool" where
  "is_json_file name \<longleftrightarrow>
     (case rsplit_once name CHR ''.'' of Some (a, ext) \<Rightarrow> a \<noteq> [] \<and> ext = ''json'' | None \<Rightarrow> False)"

definition vjs_test :: "ctl_env \<Rightarrow> string \<Rightarrow> ending" where
  "vjs_test C dir =
     (case ct_listing C (comps dir) of
        None \<Rightarrow> Panic
      | Some names \<Rightarrow>
          rbind (golden_cases C (map (\<lambda>n. comps dir @ [n]) (sort (filter is_json_file names)))) (\<lambda>(out, pass, fail).
            Ok (out @ [nat_str pass @ '' passed, '' @ nat_str fail @ '' failed''], if fail > 0 then 1 else 0)))"

section \<open>Commands\<close>

definition verdict_end :: "(unit, string) result \<Rightarrow> ending" where
  "verdict_end r = (case r of Ok _ \<Rightarrow> Ok ([''ok''], 0) | Err e \<Rightarrow> Ok ([e], 1) | Panic \<Rightarrow> Panic)"

definition vjs_check :: "ctl_env \<Rightarrow> string \<Rightarrow> ending" where
  "vjs_check C f = verdict_end (rbind (ct_read C (comps f)) (\<lambda>s. rbind (parsed C s) (\<lambda>_. Ok ())))"

text \<open>\<open>vpl\<close> is the check of the embedded engine.\<close>

definition vpl_check :: "ctl_env \<Rightarrow> (string \<Rightarrow> (unit, string) result) \<Rightarrow> string \<Rightarrow> ending" where
  "vpl_check C vpl f = verdict_end (rbind (ct_read C (comps f)) vpl)"

definition vjs_run :: "ctl_env \<Rightarrow> string \<Rightarrow> string \<Rightarrow> ending" where
  "vjs_run C flow fixture =
     rbind (or_panic (ct_read C (comps flow))) (\<lambda>src.
     rbind (or_panic (parsed C src)) (\<lambda>prog.
     rbind (json_file C (comps fixture)) (\<lambda>event.
       case map_err (ct_run_error C)
              (fst (run (ct_world C) prog event (with_secrets (ct_root C) (pkg_of_path (comps flow)) (ct_get C)))) of
         Ok c \<Rightarrow> Ok (map (\<lambda>(s, p). ''emit '' @ s @ '' '' @ cd_print (ct_codec C) p) (emits c), 0)
       | Err e \<Rightarrow> Ok ([e], 1)
       | Panic \<Rightarrow> Panic)))"

definition secret_key_pattern :: string where
  "secret_key_pattern = ''pass(wd|word)|secret|(^|[_-])token$|api[_-]?key|^auth$|[_-]auth$|^auth[_-]|authorization|webhook_url''"

text \<open>The arguments, the name of the program first; any other line starts a runtime.\<close>

definition command :: "ctl_env \<Rightarrow> (string \<Rightarrow> (unit, string) result) \<Rightarrow> string list \<Rightarrow> ending option" where
  "command C vpl args =
     (let arg = (\<lambda>i. args ! i); n = length args in
      if n = 2 \<and> (arg 1 = ''--version'' \<or> arg 1 = ''-V'') then Some (Ok ([''vejas-runtime '' @ ct_version C], 0))
      else if 2 \<le> n \<and> arg 1 = ''secret-pattern'' then Some (Ok ([secret_key_pattern], 0))
      else if 3 \<le> n \<and> arg 1 = ''vjs-check'' then Some (vjs_check C (arg 2))
      else if 3 \<le> n \<and> arg 1 = ''vpl-check'' then Some (vpl_check C vpl (arg 2))
      else if 4 \<le> n \<and> arg 1 = ''vjs-run'' then Some (vjs_run C (arg 2) (arg 3))
      else if 3 \<le> n \<and> arg 1 = ''vjs-test'' then Some (vjs_test C (arg 2))
      else None)"

text \<open>A governed runtime does not start without the credential of an approver.\<close>

definition start_refused :: "env \<Rightarrow> bool" where
  "start_refused env \<longleftrightarrow> require_approval env \<and> approval_token env = None"

section \<open>Pools\<close>

text \<open>
  What reaches a listener: an arrival, with whether the system gives it a thread, and the end of a
  thread, whose slot drops. A pool logs what became of each arrival.
\<close>

datatype admission = Served | TooMany | NoThread

datatype arrival = Arrives bool | Ends

record pool =
  po_open :: nat
  po_units :: units
  po_log :: "admission list"

fun admit :: "string \<Rightarrow> nat \<Rightarrow> arrival \<Rightarrow> pool \<Rightarrow> pool" where
  "admit u limit (Arrives spawned) s =
     (case try_take (po_open s) limit of
        None \<Rightarrow> s\<lparr>po_units := inc_rejected u (po_units s), po_log := po_log s @ [TooMany]\<rparr>
      | Some n \<Rightarrow>
          if spawned then s\<lparr>po_open := n, po_log := po_log s @ [Served]\<rparr>
          else s\<lparr>po_open := n - 1, po_units := inc_rejected u (po_units s), po_log := po_log s @ [NoThread]\<rparr>)"
| "admit u limit Ends s = s\<lparr>po_open := po_open s - 1\<rparr>"

definition max_inflight :: "env \<Rightarrow> nat" where
  "max_inflight env =
     max 1 (case env ''VEJAS_HTTP_MAX_INFLIGHT'' of
              None \<Rightarrow> 256
            | Some v \<Rightarrow> (case parse_u64 v of Some n \<Rightarrow> nat n | None \<Rightarrow> 256))"

text \<open>
  The loop of the panel: whether the process still runs is asked after a request that found a
  slot, not after one that was refused.
\<close>

fun serve_http :: "nat \<Rightarrow> (arrival \<times> bool) list \<Rightarrow> pool \<Rightarrow> pool" where
  "serve_http limit [] s = s"
| "serve_http limit ((a, running) # rest) s =
     (let s' = admit ''panel'' limit a s in
      if \<not> running \<and> a \<noteq> Ends \<and> po_open s < limit then s' else serve_http limit rest s')"

definition max_connections :: "config \<Rightarrow> nat" where
  "max_connections cfg = nat (max 1 (cfg_u64_or cfg ''MAX_CONNECTIONS'' 512))"

text \<open>The loop of a webhook: whether it is told to stop is asked before each connection.\<close>

fun http_in_accept :: "string \<Rightarrow> nat \<Rightarrow> (arrival \<times> bool) list \<Rightarrow> pool \<Rightarrow> pool" where
  "http_in_accept name limit [] s = s"
| "http_in_accept name limit ((a, alive) # rest) s =
     (if \<not> alive \<and> a \<noteq> Ends then s else http_in_accept name limit rest (admit name limit a s))"

section \<open>What a golden test records is what it checks\<close>

lemma curated_verdict:
  assumes run: "run_flow_on_input C rel event = Ok expected"
    and here: "\<And>p. guard_path (ct_canon C) (ct_root C) rel = Some p \<Longrightarrow>
      ct_read C (comps rel) = ct_read C p \<and> pkg_of_path (comps rel) = pkg_of_path p"
  shows "golden_verdict C (VObject (om_of_list [(''flow'', VString rel), (''input'', event), (''expect_emits'', expected)])) = Ok ()"
proof -
  have "golden_run C rel event = Ok expected"
    using run here by (auto simp: run_flow_on_input_def guarded_source_def golden_run_def show_run_def result_simps
      split: option.splits prod.splits)
  thus ?thesis
    by (simp add: golden_verdict_def golden_input_def verdict_def value_index_def)
qed

text \<open>
  A case curated from an event passes: when \<open>golden_from_event\<close> has written a case, the runner of
  tests, started in the directory of the project and with the files unchanged, finds there a case
  whose verdict is a pass.
\<close>

theorem curated_case_passes:
  assumes "golden_from_event C pretty mkdir write_err T unit sq fs = (Ok answer, fs')"
    and "\<And>v. cd_parse (ct_codec C) (pretty v) = Some v"
    and "\<And>rel p. guard_path (ct_canon C) (ct_root C) rel = Some p \<Longrightarrow>
      ct_read C (comps rel) = ct_read C p \<and> pkg_of_path (comps rel) = pkg_of_path p"
  shows "\<exists>name body v. fs' (ct_root C @ [''tests'', ''vjs'', name]) = Content body \<and>
    parse_or_panic C body = Ok v \<and> golden_verdict C v = Ok ()"
proof -
  obtain p rel event expected where c: "golden_case C T unit sq = Ok (p, VString rel, event, expected)"
    and run: "run_flow_on_input C rel event = Ok expected"
    and w: "fs' (ct_root C @ [''tests'', ''vjs'', golden_name p sq]) =
      Content (pretty (VObject (om_of_list [(''flow'', VString rel), (''input'', event), (''expect_emits'', expected)])))"
    using assms(1)
    by (auto simp: golden_from_event_def golden_case_def Let_def result_simps split: result.splits option.splits)
  let ?v = "VObject (om_of_list [(''flow'', VString rel), (''input'', event), (''expect_emits'', expected)])"
  have "parse_or_panic C (pretty ?v) = Ok ?v"
    by (simp only: parse_or_panic_def assms(2) option.case)
  moreover have "golden_verdict C ?v = Ok ()"
    by (rule curated_verdict [OF run]) (rule assms(3))
  ultimately show ?thesis using w by blast
qed

text \<open>The runner counts each case once, and it exits with 0 exactly when none failed.\<close>

lemma golden_cases_counts:
  "golden_cases C ps = Ok (out, pass, fail) \<Longrightarrow> length out = length ps \<and> pass + fail = length ps"
  by (induction ps arbitrary: out pass fail) (auto simp: result_simps split: result.splits prod.splits)

lemma golden_cases_all_pass:
  "golden_cases C ps = Ok (out, pass, fail) \<Longrightarrow>
     fail = 0 \<longleftrightarrow> (\<forall>p\<in>set ps. \<exists>v. json_file C p = Ok v \<and> golden_verdict C v = Ok ())"
  by (induction ps arbitrary: out pass fail) (auto simp: result_simps split: result.splits prod.splits)

theorem tests_pass_when_every_case_does:
  assumes "vjs_test C dir = Ok (out, code)" and "ct_listing C (comps dir) = Some names"
  shows "code = 0 \<longleftrightarrow> (\<forall>n\<in>set names. is_json_file n \<longrightarrow>
    (\<exists>v. json_file C (comps dir @ [n]) = Ok v \<and> golden_verdict C v = Ok ()))"
  using assms golden_cases_all_pass
  by (fastforce simp: vjs_test_def result_simps split: prod.splits if_splits)

text \<open>
  Two packages with a flow of the same name share the file of their curated cases: the second
  recorded overwrites the first.
\<close>

theorem curated_names_collide:
  "golden_name [''packages'', ''eu'', ''flows'', ''orders.vjs''] 7 = golden_name [''packages'', ''us'', ''flows'', ''orders.vjs''] 7"
  by code_simp

text \<open>
  The package of a flow is read off the whole path, so a project that lives below a directory
  whose name ends in \<open>packages\<close> has no flow of its own: all belong to one package.
\<close>

theorem project_below_packages_is_a_package:
  "pkg_of_path (comps ''/srv/packages/shop/flows/orders.vjs'') = ''shop''"
  by code_simp

section \<open>Starting\<close>

theorem governed_runtime_has_an_approver:
  assumes "\<not> start_refused env" and "require_approval env"
  shows "\<exists>t. env ''VEJAS_APPROVAL_TOKEN'' = Some t \<and> t \<noteq> []"
  using assms by (auto simp: start_refused_def approval_token_def nonempty_var_def split: option.splits if_splits)

text \<open>
  The refusal says that the credential must be distinct from the agent's token; that it is, is not
  checked.
\<close>

theorem shared_credential_starts:
  "\<exists>env. require_approval env \<and> approval_token env = write_token env \<and> approval_token env \<noteq> None \<and> \<not> start_refused env"
  by (rule exI [of _ "[''VEJAS_REQUIRE_APPROVAL'' \<mapsto> ''1'', ''VEJAS_APPROVAL_TOKEN'' \<mapsto> ''t'', ''VEJAS_TOKEN'' \<mapsto> ''t'']"])
    (simp add: require_approval_def start_refused_def approval_token_def write_token_def nonempty_var_def)

section \<open>The bound of a pool\<close>

text \<open>
  Beside the number of open slots, what a pool promises: an arrival that is not served is
  counted as rejected, so that load that is shed can be seen.
\<close>

definition rejected :: "string \<Rightarrow> pool \<Rightarrow> nat" where
  "rejected u s = (case po_units s u of Some x \<Rightarrow> m_rejected x | None \<Rightarrow> 0)"

definition shed :: "pool \<Rightarrow> nat" where
  "shed s = length (filter (\<lambda>a. a \<noteq> Served) (po_log s))"

locale bounded_pool =
  fixes step :: "arrival \<Rightarrow> pool \<Rightarrow> pool" and limit :: nat and u :: string
  assumes open_bound: "po_open s \<le> limit \<Longrightarrow> po_open (step a s) \<le> limit"
    and counted: "rejected u (step a s) + shed s = rejected u s + shed (step a s)"
begin

lemma steps_bound: "po_open s \<le> limit \<Longrightarrow> po_open (fold step as s) \<le> limit"
  by (induction as arbitrary: s) (auto intro: open_bound)

lemma steps_counted: "rejected u (fold step as s) + shed s = rejected u s + shed (fold step as s)"
proof (induction as arbitrary: s)
  case (Cons a as)
  show ?case using Cons.IH [of "step a s"] counted [of a s] by simp
qed simp

end

lemma admit_bound: "po_open s \<le> limit \<Longrightarrow> po_open (admit u limit a s) \<le> limit"
  by (cases a) (auto simp: try_take_def)

lemma admit_counted: "rejected u (admit u limit a s) + shed s = rejected u s + shed (admit u limit a s)"
  by (cases a) (auto simp: try_take_def rejected_def shed_def inc_rejected_def on_unit_def default_unit_def split: option.splits)

interpretation ap: bounded_pool "admit u limit" limit u
  by unfold_locales (rule admit_bound, assumption, rule admit_counted)

lemma serve_http_admits: "\<exists>as. serve_http limit evs s = fold (admit ''panel'' limit) as s"
proof (induction evs arbitrary: s)
  case Nil
  show ?case by (rule exI [of _ "[]"]) simp
next
  case (Cons e evs)
  obtain a running where e: "e = (a, running)" by (cases e)
  obtain as where "serve_http limit evs (admit ''panel'' limit a s) = fold (admit ''panel'' limit) as (admit ''panel'' limit a s)"
    using Cons.IH by blast
  hence "serve_http limit (e # evs) s = fold (admit ''panel'' limit) [a] s \<or>
         serve_http limit (e # evs) s = fold (admit ''panel'' limit) (a # as) s"
    by (simp add: e Let_def)
  thus ?case by blast
qed

lemma http_in_admits: "\<exists>as. http_in_accept name limit evs s = fold (admit name limit) as s"
proof (induction evs arbitrary: s)
  case Nil
  show ?case by (rule exI [of _ "[]"]) simp
next
  case (Cons e evs)
  obtain a alive where e: "e = (a, alive)" by (cases e)
  obtain as where "http_in_accept name limit evs (admit name limit a s) = fold (admit name limit) as (admit name limit a s)"
    using Cons.IH by blast
  hence "http_in_accept name limit (e # evs) s = fold (admit name limit) [] s \<or>
         http_in_accept name limit (e # evs) s = fold (admit name limit) (a # as) s"
    by (simp add: e)
  thus ?case by blast
qed

text \<open>
  Neither listener ever has more threads than its bound, and each counts what it sheds, whatever
  arrives, ends and fails in whatever order.
\<close>

theorem listeners_are_bounded:
  assumes "po_open s = 0" and "shed s = 0" and "rejected ''panel'' s = 0" and "rejected name s = 0"
  shows "po_open (serve_http (max_inflight env) evs s) \<le> max_inflight env"
    and "rejected ''panel'' (serve_http (max_inflight env) evs s) = shed (serve_http (max_inflight env) evs s)"
    and "po_open (http_in_accept name (max_connections cfg) evs s) \<le> max_connections cfg"
    and "rejected name (http_in_accept name (max_connections cfg) evs s) = shed (http_in_accept name (max_connections cfg) evs s)"
proof -
  obtain as where p: "serve_http (max_inflight env) evs s = fold (admit ''panel'' (max_inflight env)) as s"
    using serve_http_admits by blast
  obtain bs where h: "http_in_accept name (max_connections cfg) evs s = fold (admit name (max_connections cfg)) bs s"
    using http_in_admits by blast
  show "po_open (serve_http (max_inflight env) evs s) \<le> max_inflight env"
    unfolding p by (rule ap.steps_bound) (simp add: assms)
  show "rejected ''panel'' (serve_http (max_inflight env) evs s) = shed (serve_http (max_inflight env) evs s)"
    unfolding p using ap.steps_counted [of "''panel''" "max_inflight env" as s] by (simp add: assms)
  show "po_open (http_in_accept name (max_connections cfg) evs s) \<le> max_connections cfg"
    unfolding h by (rule ap.steps_bound) (simp add: assms)
  show "rejected name (http_in_accept name (max_connections cfg) evs s) = shed (http_in_accept name (max_connections cfg) evs s)"
    unfolding h using ap.steps_counted [of name "max_connections cfg" bs s] by (simp add: assms)
qed

end
