(* ===== verification/Oauth.thy ===== *)
theory Oauth
  imports Drivers
begin

text \<open>
  The \<open>oauth-poll\<close> driver as a whole (\<open>OAuthPoll::run\<close> and \<open>OAuthPoll::probe\<close> of
  \<open>core/src/connectors.rs\<close>): its configuration, its loop over the ticks of \<open>Polling\<close>, and the probe
  that tries a manifest. The environment \<open>P\<close> holds what is outside; its fields that come from the
  manifest are filled in here.
\<close>

section \<open>Configuration\<close>

definition oauth_settings :: "poll_env \<Rightarrow> config \<Rightarrow> (poll_env, string) result" where
  "oauth_settings P c =
     (let need = (\<lambda>k. case cfg_str c k of Some v \<Rightarrow> Ok v | None \<Rightarrow> Err (k @ '' required'')) in
      rbind (need ''TOKEN_URL'') (\<lambda>token_url.
      rbind (need ''CLIENT_ID'') (\<lambda>client_id.
      rbind (need ''CLIENT_SECRET'') (\<lambda>client_secret.
      rbind (need ''BASE_URL'') (\<lambda>base.
        Ok (P\<lparr>pv_token_url := token_url, pv_client_id := client_id, pv_client_secret := client_secret,
              pv_scope := cfg_str_or c ''SCOPE'' [], pv_base := base\<rparr>))))))"

definition no_targets :: string where
  "no_targets = ''ENDPOINTS or EXPAND required''"

definition oauth_targets :: "config \<Rightarrow> (string list \<times> expand list, string) result" where
  "oauth_targets c =
     rbind (parse_expands c) (\<lambda>expands.
       if cfg_strings c ''ENDPOINTS'' = [] \<and> expands = [] then Err no_targets
       else Ok (cfg_strings c ''ENDPOINTS'', expands))"

definition oauth_plan :: "poll_env \<Rightarrow> string \<Rightarrow> config \<Rightarrow> (poll_env \<times> string list \<times> expand list, string) result" where
  "oauth_plan P subj_root c =
     rbind (oauth_settings P c) (\<lambda>Q.
     rbind (oauth_targets c) (\<lambda>(endpoints, expands).
       case cfg_str c ''SUBJECT'' of
         None \<Rightarrow> Err ''SUBJECT required''
       | Some raw \<Rightarrow>
           Ok (Q\<lparr>pv_subject := ctx_subject subj_root raw, pv_next_field := cfg_str_or c ''NEXT_LINK_FIELD'' ''@odata.nextLink''\<rparr>,
               endpoints, expands)))"

section \<open>The loop\<close>

text \<open>For at most \<open>n\<close> turns of a quarter second; it answers \<open>True\<close> when it was told to stop.\<close>

fun poll_loop :: "poll_env \<Rightarrow> (poll_state, bool, string) stm \<Rightarrow> nat \<Rightarrow> nat \<Rightarrow> nat \<Rightarrow> (poll_state, bool, string) stm" where
  "poll_loop P tick limit 0 waited = mret False"
| "poll_loop P tick limit (Suc n) waited = (\<lambda>s.
     if \<not> pv_alive P (po_requests s) then (Ok True, s)
     else if limit \<le> (waited + 250) mod 2 ^ 64 then
       mbind tick (\<lambda>stopped. if stopped then mret True else poll_loop P tick limit n 0) s
     else poll_loop P tick limit n ((waited + 250) mod 2 ^ 64) s)"

definition max_pages_of :: "config \<Rightarrow> nat" where
  "max_pages_of c = nat (max 1 (cfg_u64_or c ''MAX_PAGES'' 10))"

definition oauth_poll_run ::
  "poll_env \<Rightarrow> (unit, string) result \<Rightarrow> string \<Rightarrow> config \<Rightarrow> nat \<Rightarrow> (poll_state, bool, string) stm" where
  "oauth_poll_run P connect subj_root c n =
     mbind (mlift (oauth_plan P subj_root c)) (\<lambda>(Q, endpoints, expands).
     mbind (mlift connect) (\<lambda>_.
       let limit = interval_ms c 300 in
       poll_loop Q (poll_tick Q (max_pages_of c) endpoints expands) limit n limit))"

section \<open>The probe\<close>

definition first_endpoint :: "config \<Rightarrow> string option" where
  "first_endpoint c =
     (case om_get c ''ENDPOINTS'' of
        Some (VArray (v # _)) \<Rightarrow> as_str v
      | _ \<Rightarrow> None)"

definition probe_target :: "config \<Rightarrow> (string, string) result" where
  "probe_target c =
     (case first_endpoint c of
        Some ep \<Rightarrow> Ok ep
      | None \<Rightarrow>
          (case parse_expands c of
             Ok (x # _) \<Rightarrow> Ok (ex_list x)
           | Panic \<Rightarrow> Panic
           | _ \<Rightarrow> Err no_targets))"

definition probe_answer :: "poll_env \<Rightarrow> string \<Rightarrow> web_answer \<Rightarrow> (string, string) result" where
  "probe_answer P ep r =
     (case r of
        Ok (code, body) \<Rightarrow>
          if ok_code code then
            Ok (''token OK'' @ mid_dot @ ''GET '' @ ep @ '' OK ('' @
                (case map_option (\<lambda>v. as_array (value_index v ''value'')) (cd_parse (pv_codec P) body) of
                   Some (Some a) \<Rightarrow> nat_str (length a) @ '' items)''
                 | _ \<Rightarrow> nat_str (length body) @ '' bytes)''))
          else Err (humanize (''token OK, but GET '' @ ep @ '' answered HTTP '' @ nat_str code @
                    '' (missing permission / admin consent?)''))
      | Err e \<Rightarrow> Err (humanize (''GET '' @ ep @ '': '' @ e))
      | Panic \<Rightarrow> Panic)"

definition oauth_probe :: "poll_env \<Rightarrow> config \<Rightarrow> (poll_state, string, string) stm" where
  "oauth_probe P c =
     mbind (mlift (oauth_settings P c)) (\<lambda>Q.
     mbind (mlift (probe_target c)) (\<lambda>ep s.
       case oauth_token Q s of
         (Err e, s1) \<Rightarrow> (Err (humanize e), s1)
       | (Panic, s1) \<Rightarrow> (Panic, s1)
       | (Ok (tok, _), s1) \<Rightarrow>
           (let rq = (''GET'', join_url (pv_base Q) ep, [(''Authorization'', ''Bearer '' @ tok)], None) in
            (probe_answer Q ep (pv_web Q (po_requests s1) rq), s1\<lparr>po_requests := po_requests s1 @ [rq]\<rparr>))))"

section \<open>Properties\<close>

text \<open>A manifest that is not complete costs nothing: no request is made, nothing is published.\<close>

theorem incomplete_manifest_is_silent:
  assumes "oauth_plan P subj_root c = Err e"
  shows "oauth_poll_run P connect subj_root c n s = (Err e, s)"
  using assms by (simp add: oauth_poll_run_def mbind_def mlift_def)

text \<open>A probe asks for a token and for one page, and publishes nothing.\<close>

lemma oauth_token_asks_once:
  "oauth_token P s = (r, s') \<Longrightarrow>
     length (po_requests s') \<le> length (po_requests s) + 1 \<and> po_history s' = po_history s"
  by (auto simp: oauth_token_def web_do_def mbind_def split: result.splits prod.splits option.splits if_splits)

theorem probe_asks_twice:
  "length (po_requests (snd (oauth_probe P c s))) \<le> length (po_requests s) + 2 \<and>
   po_history (snd (oauth_probe P c s)) = po_history s"
proof -
  have "po_history s' = po_history s \<and> length (po_requests s') \<le> length (po_requests s) + 1"
    if "oauth_token Q s = (r, s')" for Q r s'
    using oauth_token_asks_once [OF that] by simp
  thus ?thesis
    by (fastforce simp: oauth_probe_def mbind_def mlift_def Let_def split: result.splits prod.splits)
qed

text \<open>
  Between ticks the loop only looks at the clock: until its interval is over it makes no request and
  publishes nothing.
\<close>

lemma poll_loop_waits:
  assumes "waited + 250 * n < limit" and "limit < 2 ^ 64"
  shows "snd (poll_loop P tick limit n waited s) = s"
  using assms
proof (induction n arbitrary: waited)
  case (Suc n)
  hence "(waited + 250) mod 2 ^ 64 = waited + 250" and "waited + 250 < limit" by simp_all
  thus ?case using Suc.IH [of "waited + 250"] Suc.prems by simp
qed (simp add: mret_def)

theorem a_tick_is_followed_by_a_pause:
  assumes tick: "tick s = (Ok False, s')" and alive: "pv_alive P (po_requests s)"
    and n: "250 * n < limit" and limit: "limit + 250 < 2 ^ 64"
  shows "snd (poll_loop P tick limit (Suc n) limit s) = s'"
proof -
  have "(limit + 250) mod 2 ^ 64 = limit + 250" using limit by simp
  moreover have "snd (poll_loop P tick limit n 0 s') = s'"
    by (rule poll_loop_waits) (use n limit in simp_all)
  ultimately show ?thesis using tick alive by (simp add: mbind_def)
qed

end
