(* ===== verification/Jetstream.thy ===== *)
theory Jetstream
  imports Flow Governance "HOL-Library.Multiset"
begin

text \<open>
  Connections and the administration of JetStream (\<open>core/src/bus.rs\<close>): the registry of connections
  with the memory of a failed dial, the barrier of a link as steps of the threads and the server,
  and the requests that create streams, consumers and buckets, with the checks made on the
  replies. The client library is outside: a request is a subject and a body, and its reply is any
  function of the requests before it.
\<close>

section \<open>Connections\<close>

text \<open>
  A server of \<open>NATS_URL\<close> as the client parses it, reduced to the credentials it names. \<open>parse\<close> is
  the parser of the client.
\<close>

record server_addr =
  sv_host :: string
  sv_user :: "string option"
  sv_pass :: "string option"

datatype credentials = UserPass string string | Token string | NoCredentials

fun servers_from :: "(string \<Rightarrow> (server_addr, string) result) \<Rightarrow> string list \<Rightarrow> (server_addr list, string) result" where
  "servers_from parse_addr [] = Ok []"
| "servers_from parse_addr (s # rest) =
     rbind (parse_addr (trim s)) (\<lambda>a. rbind (servers_from parse_addr rest) (\<lambda>as. Ok (a # as)))"

definition servers_of :: "(string \<Rightarrow> (server_addr, string) result) \<Rightarrow> string \<Rightarrow> (server_addr list, string) result" where
  "servers_of parse_addr url = servers_from parse_addr (str_split url '','')"

definition with_url_credentials :: "server_addr list \<Rightarrow> credentials" where
  "with_url_credentials servers =
     (case List.find (\<lambda>a. sv_user a \<noteq> None) servers of
        None \<Rightarrow> NoCredentials
      | Some a \<Rightarrow>
          (case (sv_user a, sv_pass a) of
             (Some u, Some p) \<Rightarrow> UserPass u p
           | (Some t, None) \<Rightarrow> Token t
           | _ \<Rightarrow> NoCredentials))"

text \<open>
  The registry: the connections that are open, the dials that failed with the time of each in
  milliseconds, and the dials made. \<open>dial\<close> answers a dial, \<open>up\<close> tells whether an open connection is
  up.
\<close>

record registry =
  rg_open :: "string list"
  rg_failed :: "string \<rightharpoonup> nat \<times> string"
  rg_dials :: "string list"

definition connect_memo :: nat where
  "connect_memo = 1000"

definition connect ::
  "(string \<Rightarrow> string option) \<Rightarrow> (string \<Rightarrow> bool) \<Rightarrow> nat \<Rightarrow> string \<Rightarrow> (registry, string, string) stm" where
  "connect dial up now url R =
     (if url \<in> set (rg_open R) then
        (if up url then Ok url else Err ''the connection to NATS is down'', R)
      else
        let fresh = (\<lambda>R. case dial url of
              None \<Rightarrow> (Ok url, R\<lparr>rg_open := url # rg_open R, rg_dials := rg_dials R @ [url]\<rparr>)
            | Some e \<Rightarrow> (Err e, R\<lparr>rg_failed := (rg_failed R)(url \<mapsto> (now, e)), rg_dials := rg_dials R @ [url]\<rparr>))
        in case rg_failed R url of
             Some (since, e) \<Rightarrow> if now - since < connect_memo then (Err e, R) else fresh R
           | None \<Rightarrow> fresh R)"

section \<open>The barrier of a link\<close>

text \<open>
  What a link has handed to the connection is data or the echo of a barrier, which carries a
  number. The server reads in the order of the connection and sends echoes back in that order.
  A reconnect loses any part of what is under way; \<open>lk_carried\<close> is what it carried over, and
  \<open>lk_sent\<close> and \<open>lk_read\<close> start anew with each connection.
\<close>

datatype item = Data string | Echo nat

record link =
  lk_next_id :: nat
  lk_waiting :: "nat set"
  lk_heard :: "nat set"
  lk_epoch :: nat
  lk_first_id :: nat
  lk_carried :: "item list"
  lk_sent :: "item list"
  lk_read :: "item list"
  lk_out :: "item list"
  lk_back :: "nat list"

definition hand_over :: "item \<Rightarrow> link \<Rightarrow> link" where
  "hand_over x L = L\<lparr>lk_sent := lk_sent L @ [x], lk_out := lk_out L @ [x]\<rparr>"

text \<open>The start of a barrier: it takes a number and, when the connection takes writes, sends it.\<close>

definition barrier_ask :: "bool \<Rightarrow> link \<Rightarrow> link" where
  "barrier_ask taken L =
     (let i = lk_next_id L; L1 = L\<lparr>lk_next_id := i + 1\<rparr> in
      if taken then hand_over (Echo i) (L1\<lparr>lk_waiting := insert i (lk_waiting L)\<rparr>) else L1)"

definition barrier_give_up :: "nat \<Rightarrow> link \<Rightarrow> link" where
  "barrier_give_up i L = L\<lparr>lk_waiting := lk_waiting L - {i}\<rparr>"

text \<open>The task that hears the echoes: one nobody waits for any more is dropped.\<close>

definition hear :: "nat \<Rightarrow> link \<Rightarrow> link" where
  "hear i L =
     (if i \<in> lk_waiting L then L\<lparr>lk_waiting := lk_waiting L - {i}, lk_heard := insert i (lk_heard L)\<rparr> else L)"

inductive link_step :: "link \<Rightarrow> link \<Rightarrow> bool" where
  send: "link_step L (hand_over (Data d) L)"
| ask: "link_step L (barrier_ask taken L)"
| give_up: "link_step L (barrier_give_up i L)"
| serve_data: "lk_out L = Data d # rest \<Longrightarrow> link_step L (L\<lparr>lk_out := rest, lk_read := lk_read L @ [Data d]\<rparr>)"
| serve_echo: "lk_out L = Echo i # rest \<Longrightarrow>
    link_step L (L\<lparr>lk_out := rest, lk_read := lk_read L @ [Echo i], lk_back := lk_back L @ [i]\<rparr>)"
| heard: "lk_back L = i # rest \<Longrightarrow> link_step L (hear i (L\<lparr>lk_back := rest\<rparr>))"
| reconnect: "set out \<subseteq> set (lk_out L) \<Longrightarrow> set returning \<subseteq> set (lk_back L) \<Longrightarrow>
    link_step L (L\<lparr>lk_epoch := lk_epoch L + 1, lk_first_id := lk_next_id L, lk_carried := out, lk_sent := [], lk_read := [],
      lk_out := out, lk_back := returning\<rparr>)"

definition fresh_link :: link where
  "fresh_link = \<lparr>lk_next_id = 0, lk_waiting = {}, lk_heard = {}, lk_epoch = 1, lk_first_id = 0, lk_carried = [], lk_sent = [],
     lk_read = [], lk_out = [], lk_back = []\<rparr>"

inductive link_reachable :: "link \<Rightarrow> bool" where
  start: "link_reachable fresh_link"
| more: "link_reachable L \<Longrightarrow> link_step L L' \<Longrightarrow> link_reachable L'"

section \<open>The JetStream API\<close>

type_synonym js_requests = "(string \<times> string) list"
type_synonym 'a jm = "(js_requests, 'a, string) stm"

record js_env =
  js_reply :: "js_requests \<Rightarrow> string \<times> string \<Rightarrow> (string, string) result"
  js_codec :: codec
  js_json_error :: "string \<Rightarrow> string"
  js_debug :: "string list \<Rightarrow> string"
  js_subscribe :: "js_requests \<Rightarrow> string option"
  js_bucket :: "js_requests \<Rightarrow> string \<Rightarrow> bool"
  js_up :: "js_requests \<Rightarrow> bool"

definition api :: "js_env \<Rightarrow> string \<Rightarrow> string \<Rightarrow> json jm" where
  "api J verb body h =
     (let rq = (''$JS.API.'' @ verb, body) in
      (rbind (js_reply J h rq) (\<lambda>reply.
         case cd_parse (js_codec J) reply of
           None \<Rightarrow> Err (''unreadable reply: '' @ js_json_error J reply)
         | Some answer \<Rightarrow>
             (case value_get answer ''error'' of
                None \<Rightarrow> Ok answer
              | Some e \<Rightarrow> Err (case value_get e ''description'' of
                  Some d \<Rightarrow> (case as_str d of Some t \<Rightarrow> t | None \<Rightarrow> ''error'') | None \<Rightarrow> ''error''))),
       h @ [rq]))"

subsection \<open>Streams\<close>

datatype discard = Old | New

record stream_config =
  sg_name :: string
  sg_subjects :: "string list"
  sg_max_msgs :: int
  sg_max_msgs_per_subject :: int
  sg_max_age :: nat
  sg_discard :: discard
  sg_allow_rollup :: bool
  sg_deny_delete :: bool

definition default_stream :: stream_config where
  "default_stream = \<lparr>sg_name = [], sg_subjects = [], sg_max_msgs = 0, sg_max_msgs_per_subject = 0, sg_max_age = 0,
     sg_discard = Old, sg_allow_rollup = False, sg_deny_delete = False\<rparr>"

definition int_json :: "int \<Rightarrow> json" where
  "int_json i = VNumber (if i < 0 then NegInt i else PosInt i)"

definition strings_json :: "string list \<Rightarrow> json" where
  "strings_json xs = VArray (map VString xs)"

text \<open>Durations are nanoseconds, cut to 64 bits.\<close>

definition nanos_json :: "nat \<Rightarrow> json" where
  "nanos_json n = num_json (n mod 2 ^ 64)"

definition stream_body :: "stream_config \<Rightarrow> json" where
  "stream_body G =
     VObject (om_of_list (
       [(''name'', VString (sg_name G)), (''subjects'', strings_json (sg_subjects G)),
        (''max_msgs'', int_json (sg_max_msgs G)), (''max_msgs_per_subject'', int_json (sg_max_msgs_per_subject G)),
        (''max_age'', nanos_json (sg_max_age G)), (''discard'', VString (case sg_discard G of Old \<Rightarrow> ''old'' | New \<Rightarrow> ''new'')),
        (''retention'', VString ''limits''), (''storage'', VString ''file'')] @
       (if sg_allow_rollup G then [(''allow_rollup_hdrs'', VBool True)] else []) @
       (if sg_deny_delete G then [(''deny_delete'', VBool True)] else [])))"

definition add_stream :: "js_env \<Rightarrow> stream_config \<Rightarrow> unit jm" where
  "add_stream J G =
     mbind (api J (''STREAM.CREATE.'' @ sg_name G) (cd_print (js_codec J) (stream_body G))) (\<lambda>_. mret ())"

definition u64_at :: "json \<Rightarrow> string \<Rightarrow> nat" where
  "u64_at v k = (case as_u64 (value_index v k) of Some n \<Rightarrow> nat n | None \<Rightarrow> 0)"

definition stream_state :: "js_env \<Rightarrow> string \<Rightarrow> (nat \<times> nat \<times> nat) jm" where
  "stream_state J stream =
     mbind (api J (''STREAM.INFO.'' @ stream) []) (\<lambda>info.
       let st = value_index info ''state'' in mret (u64_at st ''first_seq'', u64_at st ''last_seq'', u64_at st ''messages''))"

definition delete_message :: "js_env \<Rightarrow> string \<Rightarrow> nat \<Rightarrow> unit jm" where
  "delete_message J stream sq =
     mbind (api J (''STREAM.MSG.DELETE.'' @ stream) (cd_print (js_codec J) (VObject [(''seq'', num_json sq)]))) (\<lambda>_. mret ())"

definition purge_stream :: "js_env \<Rightarrow> string \<Rightarrow> nat jm" where
  "purge_stream J stream = mbind (api J (''STREAM.PURGE.'' @ stream) []) (\<lambda>reply. mret (u64_at reply ''purged''))"

text \<open>The result of creating a stream is ignored: one that exists is left as it is.\<close>

definition ensure :: "js_env \<Rightarrow> stream_config \<Rightarrow> unit jm" where
  "ensure J G h = (case add_stream J G h of (Panic, h') \<Rightarrow> (Panic, h') | (_, h') \<Rightarrow> (Ok (), h'))"

definition ensure_dlq_stream :: "js_env \<Rightarrow> unit jm" where
  "ensure_dlq_stream J =
     ensure J (default_stream\<lparr>sg_name := ''VEJAS_DLQ'', sg_subjects := [''vxdlq.>''], sg_max_msgs := 100000, sg_discard := Old\<rparr>)"

definition ensure_audit_stream :: "js_env \<Rightarrow> unit jm" where
  "ensure_audit_stream J =
     ensure J (default_stream\<lparr>sg_name := ''VEJAS_AUDIT'', sg_subjects := [''vxaudit.>''], sg_max_msgs := 1000000, sg_discard := Old\<rparr>)"

definition ensure_hot_stream :: "js_env \<Rightarrow> string \<Rightarrow> string \<Rightarrow> unit jm" where
  "ensure_hot_stream J stream subj_root =
     ensure J (default_stream\<lparr>sg_name := stream, sg_subjects := [subj_root @ ''.>'']\<rparr>)"

subsection \<open>Consumers\<close>

definition filters_of :: "json \<Rightarrow> string list" where
  "filters_of c =
     (case value_get c ''filter_subjects'' of
        Some (VArray all) \<Rightarrow> List.map_filter as_str all
      | _ \<Rightarrow> (case value_get c ''filter_subject'' of
                Some v \<Rightarrow> (case as_str v of Some one \<Rightarrow> [one] | None \<Rightarrow> []) | None \<Rightarrow> []))"

definition from_seq :: "nat option \<Rightarrow> (string \<times> json) list" where
  "from_seq start_seq =
     (case start_seq of
        None \<Rightarrow> []
      | Some q \<Rightarrow> [(''deliver_policy'', VString ''by_start_sequence''), (''opt_start_seq'', num_json q)])"

definition consumer_config :: "string \<Rightarrow> string list \<Rightarrow> nat \<Rightarrow> nat option \<Rightarrow> json" where
  "consumer_config durable filters ack_wait start_seq =
     VObject (om_of_list (
       [(''durable_name'', VString durable), (''ack_policy'', VString ''explicit''), (''ack_wait'', nanos_json ack_wait),
        (''deliver_policy'', VString ''all''), (''replay_policy'', VString ''instant'')] @
       from_seq start_seq @
       (case filters of [one] \<Rightarrow> [(''filter_subject'', VString one)] | many \<Rightarrow> [(''filter_subjects'', strings_json many)])))"

definition consumer_body :: "string \<Rightarrow> json \<Rightarrow> json" where
  "consumer_body stream cfg = VObject (om_of_list [(''stream_name'', VString stream), (''config'', cfg)])"

definition create_pull_consumer :: "js_env \<Rightarrow> string \<Rightarrow> string \<Rightarrow> string list \<Rightarrow> nat \<Rightarrow> nat option \<Rightarrow> unit jm" where
  "create_pull_consumer J stream durable filters ack_wait start_seq h =
     (case api J (''CONSUMER.DURABLE.CREATE.'' @ stream @ ''.'' @ durable)
             (cd_print (js_codec J) (consumer_body stream (consumer_config durable filters ack_wait start_seq))) h of
        (Err e, h') \<Rightarrow> (Err (''consumer '' @ durable @ '': '' @ e), h')
      | (Panic, h') \<Rightarrow> (Panic, h')
      | (Ok reply, h') \<Rightarrow>
          (let kept = sort (filters_of (value_index reply ''config'')); asked = sort filters in
           if kept \<noteq> asked then
             (Err (''consumer '' @ durable @ '': the server kept the filters '' @ js_debug J kept @ '', not '' @ js_debug J asked @
                '' (several `.from()` subjects need NATS 2.10 or newer)''), h')
           else (Ok (), h')))"

definition delete_consumer :: "js_env \<Rightarrow> string \<Rightarrow> string \<Rightarrow> unit jm" where
  "delete_consumer J stream consumer = mbind (api J (''CONSUMER.DELETE.'' @ stream @ ''.'' @ consumer) []) (\<lambda>_. mret ())"

definition ack_floor :: "js_env \<Rightarrow> string \<Rightarrow> string \<Rightarrow> nat jm" where
  "ack_floor J stream consumer =
     mbind (api J (''CONSUMER.INFO.'' @ stream @ ''.'' @ consumer) []) (\<lambda>info.
       mret (u64_at (value_index info ''ack_floor'') ''stream_seq''))"

record puller =
  pl_next :: string
  pl_owned :: "(string \<times> string) option"

definition open_puller :: "js_env \<Rightarrow> string \<Rightarrow> string \<Rightarrow> (string \<times> string) option \<Rightarrow> puller jm" where
  "open_puller J stream consumer owned h =
     (case js_subscribe J h of
        Some e \<Rightarrow> (Err e, h)
      | None \<Rightarrow> (Ok \<lparr>pl_next = ''$JS.API.CONSUMER.MSG.NEXT.'' @ stream @ ''.'' @ consumer, pl_owned = owned\<rparr>, h))"

definition pull_durable :: "js_env \<Rightarrow> string \<Rightarrow> string \<Rightarrow> string option \<Rightarrow> puller jm" where
  "pull_durable J stream durable wanted h =
     (case api J (''CONSUMER.INFO.'' @ stream @ ''.'' @ durable) [] h of
        (Err e, h') \<Rightarrow> (Err (''provided durable consumer doesn'' @ [CHR 0x27] @ ''t exist: '' @ e), h')
      | (Panic, h') \<Rightarrow> (Panic, h')
      | (Ok info, h') \<Rightarrow>
          (let filters = filters_of (value_index info ''config'') in
           case wanted of
             Some f \<Rightarrow>
               if filters \<noteq> [] \<and> filters \<noteq> [f] then (Err ''subjects do not match'', h')
               else open_puller J stream durable None h'
           | None \<Rightarrow> open_puller J stream durable None h'))"

definition ephemeral_config :: "string \<Rightarrow> nat option \<Rightarrow> nat \<Rightarrow> json" where
  "ephemeral_config wanted start_seq inactive =
     VObject (om_of_list (
       [(''deliver_policy'', VString ''new''), (''ack_policy'', VString ''explicit''), (''filter_subject'', VString wanted),
        (''replay_policy'', VString ''instant''), (''inactive_threshold'', nanos_json inactive)] @ from_seq start_seq))"

definition pull_ephemeral :: "js_env \<Rightarrow> string \<Rightarrow> string \<Rightarrow> nat option \<Rightarrow> nat \<Rightarrow> puller jm" where
  "pull_ephemeral J stream wanted start_seq inactive =
     mbind (api J (''CONSUMER.CREATE.'' @ stream)
       (cd_print (js_codec J) (consumer_body stream (ephemeral_config wanted start_seq inactive)))) (\<lambda>info.
     case as_str (value_index info ''name'') of
       None \<Rightarrow> mfail ''the server named no consumer''
     | Some name \<Rightarrow> open_puller J stream name (Some (stream, name)))"

text \<open>A handle that goes away deletes the consumer it owns, when the connection is up.\<close>

definition drop_puller :: "js_env \<Rightarrow> puller \<Rightarrow> js_requests \<Rightarrow> js_requests" where
  "drop_puller J p h =
     (case pl_owned p of
        Some (stream, consumer) \<Rightarrow> if js_up J h then snd (delete_consumer J stream consumer h) else h
      | None \<Rightarrow> h)"

subsection \<open>Buckets\<close>

record kv_config =
  kc_bucket :: string
  kc_history :: int
  kc_max_age :: nat

definition key_value :: "js_env \<Rightarrow> kv_config \<Rightarrow> bool jm" where
  "key_value J K =
     mbind (ensure J (default_stream\<lparr>sg_name := ''KV_'' @ kc_bucket K, sg_subjects := [''$KV.'' @ kc_bucket K @ ''.>''],
        sg_max_msgs_per_subject := max (kc_history K) 1, sg_max_age := kc_max_age K, sg_discard := New,
        sg_allow_rollup := True, sg_deny_delete := True\<rparr>))
       (\<lambda>_ h. (Ok (js_bucket J h (kc_bucket K)), h))"

definition object_store :: "js_env \<Rightarrow> string \<Rightarrow> bool jm" where
  "object_store J bucket =
     mbind (ensure J (default_stream\<lparr>sg_name := ''OBJ_'' @ bucket, sg_subjects := [''$O.'' @ bucket @ ''.C.>'', ''$O.'' @ bucket @ ''.M.>''],
        sg_discard := New, sg_allow_rollup := True\<rparr>))
       (\<lambda>_ h. (Ok (js_bucket J h bucket), h))"

definition open_offset_store :: "js_env \<Rightarrow> bool jm" where
  "open_offset_store J = key_value J \<lparr>kc_bucket = ''VEJAS_OFFSETS'', kc_history = 1, kc_max_age = 0\<rparr>"

definition open_proposal_store :: "js_env \<Rightarrow> bool jm" where
  "open_proposal_store J = key_value J \<lparr>kc_bucket = ''VEJAS_PROPOSALS'', kc_history = 64, kc_max_age = 0\<rparr>"

definition open_version_store :: "js_env \<Rightarrow> bool jm" where
  "open_version_store J = key_value J \<lparr>kc_bucket = ''VEJAS_VERSIONS'', kc_history = 64, kc_max_age = 0\<rparr>"

definition lease_ttl :: "env \<Rightarrow> nat" where
  "lease_ttl env =
     (case env ''VEJAS_LEASE_TTL_SECS'' of
        None \<Rightarrow> 10
      | Some v \<Rightarrow> (case parse_u64 v of Some n \<Rightarrow> if 0 < n then nat n else 10 | None \<Rightarrow> 10))"

definition open_lease_store :: "js_env \<Rightarrow> env \<Rightarrow> bool jm" where
  "open_lease_store J env = key_value J \<lparr>kc_bucket = ''VEJAS_LEASES'', kc_history = 1, kc_max_age = lease_ttl env * 10 ^ 9\<rparr>"

definition open_state_store :: "js_env \<Rightarrow> bool jm" where
  "open_state_store J = object_store J ''VEJAS_DETECT_STATE''"

text \<open>How a flow comes to its consumer: whatever creating it answers, it must then be there.\<close>

definition flow_consumer :: "js_env \<Rightarrow> string \<Rightarrow> string \<Rightarrow> string \<Rightarrow> string \<Rightarrow> nat \<Rightarrow> puller jm" where
  "flow_consumer J stream subj_root unit source ack_wait =
     mbind (ensure_hot_stream J stream subj_root) (\<lambda>_ h.
       case create_pull_consumer J stream (durable_name unit) [source] ack_wait None h of
         (Panic, h') \<Rightarrow> (Panic, h')
       | (_, h') \<Rightarrow> pull_durable J stream (durable_name unit) (Some source) h')"

section \<open>A heard barrier stands for what was sent before it\<close>

definition echoes :: "item list \<Rightarrow> nat list" where
  "echoes xs = List.map_filter (\<lambda>x. case x of Echo i \<Rightarrow> Some i | Data _ \<Rightarrow> None) xs"

lemma echoes_simps [simp]:
  "echoes [] = []" "echoes (Data d # xs) = echoes xs" "echoes (Echo i # xs) = i # echoes xs" "echoes (xs @ ys) = echoes xs @ echoes ys"
  by (simp_all add: echoes_def map_filter_def)

lemma set_echoes [simp]: "i \<in> set (echoes xs) \<longleftrightarrow> Echo i \<in> set xs"
proof (induction xs)
  case (Cons x xs)
  thus ?case by (cases x) auto
qed simp

definition link_inv :: "link \<Rightarrow> bool" where
  "link_inv L \<longleftrightarrow>
     lk_carried L @ lk_sent L = lk_read L @ lk_out L \<and>
     (\<forall>i. Echo i \<in> set (lk_carried L) \<longrightarrow> i < lk_first_id L) \<and>
     (\<forall>i. Echo i \<in> set (lk_sent L) \<longrightarrow> lk_first_id L \<le> i \<and> i < lk_next_id L) \<and>
     distinct (echoes (lk_sent L)) \<and> lk_first_id L \<le> lk_next_id L \<and>
     (\<forall>i \<in> set (lk_back L) \<union> lk_heard L. i < lk_next_id L \<and> (lk_first_id L \<le> i \<longrightarrow> Echo i \<in> set (lk_read L)))"

lemma link_inv_fresh: "link_inv fresh_link"
  by (simp add: link_inv_def fresh_link_def)

lemma link_inv_out:
  assumes "link_inv L" and "Echo i \<in> set (lk_out L)"
  shows "i < lk_next_id L"
proof -
  have "Echo i \<in> set (lk_carried L @ lk_sent L)" using assms by (simp add: link_inv_def)
  thus ?thesis using assms(1) by (auto simp: link_inv_def)
qed

lemma link_inv_send: "link_inv L \<Longrightarrow> link_inv (hand_over (Data d) L)"
  by (auto simp: link_inv_def hand_over_def)

lemma link_inv_ask: "link_inv L \<Longrightarrow> link_inv (barrier_ask taken L)"
  by (auto simp: link_inv_def barrier_ask_def hand_over_def Let_def less_Suc_eq)

lemma link_inv_hear: "link_inv L \<Longrightarrow> lk_back L = i # rest \<Longrightarrow> link_inv (hear i (L\<lparr>lk_back := rest\<rparr>))"
  by (auto simp: link_inv_def hear_def)

lemma link_inv_step: "link_step L L' \<Longrightarrow> link_inv L \<Longrightarrow> link_inv L'"
proof (induction rule: link_step.induct)
  case (serve_echo L i rest)
  thus ?case using link_inv_out [of L i] by (auto simp: link_inv_def)
next
  case (reconnect out L returning)
  thus ?case using link_inv_out [OF reconnect.prems] by (auto simp: link_inv_def not_le [symmetric] dest: subsetD)
next
  case (give_up L i)
  thus ?case by (simp add: link_inv_def barrier_give_up_def)
next
  case (serve_data L d rest)
  thus ?case by (auto simp: link_inv_def)
qed (auto intro: link_inv_send link_inv_ask link_inv_hear)

lemma link_inv_reachable: "link_reachable L \<Longrightarrow> link_inv L"
  by (induction rule: link_reachable.induct) (auto intro: link_inv_fresh link_inv_step)

text \<open>
  (C22) What a barrier proves: when its echo has been heard on the connection it was sent on, the server
  has read everything handed to that connection before it, however many barriers of other threads
  are under way, were given up, or were answered late.
\<close>

theorem heard_barrier_covers_what_was_sent:
  assumes "link_reachable L" and "lk_sent L = before @ Echo i # after" and "i \<in> lk_heard L"
  shows "set before \<subseteq> set (lk_read L)"
proof -
  have inv: "link_inv L" using assms(1) by (rule link_inv_reachable)
  hence new: "lk_first_id L \<le> i" and read: "Echo i \<in> set (lk_read L)"
    using assms(2,3) by (auto simp: link_inv_def)
  have notin: "Echo i \<notin> set (lk_carried L @ before)"
    using inv new assms(2) by (auto simp: link_inv_def)
  have "(lk_carried L @ before) @ Echo i # after = lk_read L @ lk_out L"
    using inv assms(2) by (simp add: link_inv_def)
  then obtain us where "lk_carried L @ before = lk_read L @ us \<or> (lk_carried L @ before) @ us = lk_read L"
    unfolding append_eq_append_conv2 by blast
  thus ?thesis
  proof
    assume "lk_carried L @ before = lk_read L @ us"
    hence "Echo i \<in> set (lk_carried L @ before)" using read by simp
    thus ?thesis using notin by blast
  next
    assume "(lk_carried L @ before) @ us = lk_read L"
    hence "set (lk_read L) = set ((lk_carried L @ before) @ us)" by simp
    thus ?thesis by auto
  qed
qed

text \<open>One message and one barrier.\<close>

definition demo_link :: link where
  "demo_link = \<lparr>lk_next_id = 1, lk_waiting = {}, lk_heard = {0}, lk_epoch = 1, lk_first_id = 0, lk_carried = [],
     lk_sent = [Data ''m'', Echo 0], lk_read = [Data ''m'', Echo 0], lk_out = [], lk_back = []\<rparr>"

lemma demo_link_reachable: "link_reachable demo_link"
proof -
  let ?a = "barrier_ask True (hand_over (Data ''m'') fresh_link)"
  let ?b = "?a\<lparr>lk_out := [Echo 0], lk_read := lk_read ?a @ [Data ''m'']\<rparr>"
  let ?c = "?b\<lparr>lk_out := [], lk_read := lk_read ?b @ [Echo 0], lk_back := lk_back ?b @ [0]\<rparr>"
  have "link_reachable ?a"
    by (rule link_reachable.more [OF link_reachable.more [OF link_reachable.start link_step.send] link_step.ask])
  hence "link_reachable ?b"
    by (rule link_reachable.more, intro link_step.serve_data)
      (simp add: barrier_ask_def hand_over_def fresh_link_def)
  hence "link_reachable ?c"
    by (rule link_reachable.more, intro link_step.serve_echo) simp
  hence "link_reachable (hear 0 (?c\<lparr>lk_back := []\<rparr>))"
    by (rule link_reachable.more, intro link_step.heard)
      (simp add: barrier_ask_def hand_over_def fresh_link_def)
  thus ?thesis
    by (simp add: hear_def barrier_ask_def hand_over_def fresh_link_def demo_link_def)
qed

theorem heard_barrier_covers_what_was_sent_witness:
  "link_reachable demo_link \<and> lk_sent demo_link = [Data ''m''] @ Echo 0 # [] \<and> 0 \<in> lk_heard demo_link \<and>
   set [Data ''m''] \<subseteq> set (lk_read demo_link)"
proof (intro conjI)
  show r: "link_reachable demo_link" by (rule demo_link_reachable)
  show s: "lk_sent demo_link = [Data ''m''] @ Echo 0 # []" by (simp add: demo_link_def)
  show h: "0 \<in> lk_heard demo_link" by (simp add: demo_link_def)
  show "set [Data ''m''] \<subseteq> set (lk_read demo_link)"
    by (rule heard_barrier_covers_what_was_sent [OF r s h])
qed

text \<open>An echo answers the barrier whose number it carries, and no other.\<close>

theorem late_echo_answers_nobody_else:
  "j \<noteq> i \<Longrightarrow> j \<in> lk_heard (hear i L) \<longleftrightarrow> j \<in> lk_heard L"
  "i \<notin> lk_waiting L \<Longrightarrow> hear i L = L"
  by (simp_all add: hear_def)

section \<open>Dials\<close>

theorem open_connection_is_not_dialled_again:
  assumes "url \<in> set (rg_open R)"
  shows "snd (connect dial up now url R) = R"
  using assms by (simp add: connect_def)

text \<open>A dial that failed is not tried again within a second, and answers as it did.\<close>

theorem failed_dial_is_remembered:
  assumes "connect dial up t url R = (Err e, R')" and "url \<notin> set (rg_open R)" and "rg_dials R' \<noteq> rg_dials R"
    and "now < t + connect_memo"
  shows "connect dial' up' now url R' = (Err e, R')"
  using assms by (auto simp: connect_def Let_def connect_memo_def split: option.splits if_splits)

section \<open>Consumers are those asked for\<close>

lemma filters_of_config: "filters_of (consumer_config durable filters ack_wait start_seq) = filters"
  by (cases filters rule: remdups_adj.cases)
    (auto simp: filters_of_def consumer_config_def from_seq_def strings_json_def map_filter_def comp_def split: option.splits)

text \<open>
  A consumer that is reported as created has exactly the filters asked for: a server that ignores
  them, and would deliver the whole stream, is refused.
\<close>

theorem consumer_has_the_filters_asked_for:
  assumes "create_pull_consumer J stream durable filters ack_wait start_seq h = (Ok (), h')"
  shows "\<exists>reply. fst (api J (''CONSUMER.DURABLE.CREATE.'' @ stream @ ''.'' @ durable)
      (cd_print (js_codec J) (consumer_body stream (consumer_config durable filters ack_wait start_seq))) h) = Ok reply \<and>
    mset (filters_of (value_index reply ''config'')) = mset filters"
  using assms
  by (auto simp: create_pull_consumer_def Let_def split: prod.splits result.splits if_splits) (metis mset_sort)

text \<open>A consumer made for one reading is deleted with its handle, and nothing else is.\<close>

theorem ephemeral_consumer_is_deleted:
  assumes "pull_ephemeral J stream wanted start_seq inactive h = (Ok p, h1)" and "js_up J h1"
  shows "\<exists>name. pl_next p = ''$JS.API.CONSUMER.MSG.NEXT.'' @ stream @ ''.'' @ name \<and>
    drop_puller J p h1 = h1 @ [(''$JS.API.CONSUMER.DELETE.'' @ stream @ ''.'' @ name, [])]"
  using assms
  by (auto simp: pull_ephemeral_def mbind_def open_puller_def drop_puller_def delete_consumer_def api_def Let_def mfail_def mret_def
    split: result.splits prod.splits option.splits)

text \<open>
  The name of a durable consumer forgets where a package ends: a flow of a package and a flow of
  the project can share one consumer. Messages of their subject then go to one of the two each, or,
  when their subjects differ, the second to start changes the filter under the first.
\<close>

theorem durable_names_collide:
  "durable_name (flow_proc_name [''packages'', ''eu'', ''flows'', ''orders.vjs'']) =
   durable_name (flow_proc_name [''flows'', ''eu_orders.vjs''])"
  "flow_proc_name [''packages'', ''eu'', ''flows'', ''orders.vjs''] \<noteq> flow_proc_name [''flows'', ''eu_orders.vjs'']"
  by code_simp+

end
