(* ===== verification/Spec2Isabelle.thy ===== *)
theory Spec2Isabelle
  imports Script_Props Edit Secrets Mqtt Lease Provision Bridges Salesforce Detect Exec_Stream Mqtt_Bridge Routes Cli Oauth Jetstream
begin

text \<open>
  A verification of Vejas, an integration runtime written in Rust (\<open>src/core\<close>). A project is a
  directory of small programs in a language of its own, VejasScript. A flow is a program that
  consumes messages of a NATS subject, runs on each, and emits events; services are programs
  that flows invoke; connectors move events in and out. The runtime supervises the units, keeps
  dead letters, serves an HTTP panel and flows as HTTP endpoints, and governs changes: a change
  is edited into a source, tried on past or live traffic, proposed, decided by a human, and
  promoted as a version that overlays the file.

  \<^bold>\<open>The theories, in the order of their dependencies.\<close>

  \<^item> \<open>Prelude\<close>: Rust's \<open>Result\<close> with panics as a third outcome, the state-and-error monad, frames
    of computations (locale \<open>frame\<close>), simulations, ordered maps with the contract of a finite
    map (locale \<open>finite_map\<close>). \<open>Rust_Str\<close>: strings as lists of bytes, UTF-8, slices that panic off
    a character boundary, splitting, trimming, numerals. \<open>F64\<close>: binary64 with rounding to nearest
    even. \<open>Json\<close>: \<open>serde_json::Value\<close> and its accessors.
  \<^item> \<open>Lexer\<close>, \<open>Ast\<close>, \<open>Static\<close>, \<open>Parser\<close>, \<open>Eval\<close>: the language (\<open>src/core/src/vjs.rs\<close>), its scanner
    with byte offsets, syntax, the static walks over a program, recursive descent, and the
    interpreter with its engine, packages, exports and composition of services. \<open>Lexer_Facts\<close>,
    \<open>Parser_Facts\<close>, \<open>Frames\<close>, \<open>Sims\<close> and \<open>Wf\<close> hold the lemmas: consumption and termination,
    frames of every statement and expression, two runs in step, well-formed values.
    \<open>Script_Props\<close> states the properties of the language. \<open>Edit\<close>: \<open>get_literal\<close> and \<open>set_literal\<close>.
  \<^item> \<open>Secrets\<close> (\<open>secrets.rs\<close>): the file, environment, Vault and redacted stores.
  \<^item> \<open>Versions\<close> (\<open>versions.rs\<close>, \<open>proposals.rs\<close>): overlays and proposals in a key-value bucket.
    \<open>Lease\<close> (\<open>cluster.rs\<close>): the lease of a singleton as a transition system of instances.
  \<^item> \<open>Mqtt\<close> (\<open>mqtt.rs\<close>): packets as bytes, both directions. \<open>Metrics\<close> (\<open>metrics.rs\<close>): counters and
    histograms.
  \<^item> \<open>Bus\<close> (\<open>bus.rs\<close>): batches and their barrier, acknowledgements, delivery metadata, rounds.
    \<open>Dlq\<close> (\<open>connectors.rs\<close>, \<open>main.rs\<close>): dead letters, their announcements, listing, replay, purge.
  \<^item> \<open>Flow\<close> (\<open>main.rs\<close>, \<open>supervise_vjs\<close>): the trace ring, one message, one round, the loop, the
    start of an attempt and supervision. \<open>Governance\<close> (\<open>main.rs\<close>): paths, tokens, gates, promotion,
    proposals. \<open>Jetstream\<close> (\<open>bus.rs\<close>): the registry of connections, the barrier of a link as a step
    relation, streams, consumers and buckets. \<open>Shadow\<close> (\<open>main.rs\<close>): replay of a literal, time
    travel, canary. \<open>Units\<close> (\<open>main.rs\<close>): the scan of a project, the registry of supervised units,
    restart, reload, rotation of a secret. \<open>Provision\<close> (\<open>main.rs\<close>): packages made from templates.
    \<open>Detect\<close> (\<open>main.rs\<close>, \<open>connectors.rs\<close>): units of pattern detection, their batches and snapshots.
  \<^item> Drivers (\<open>connectors.rs\<close>): \<open>Calendar\<close> (dates), \<open>Sinks\<close> (\<open>run_sink\<close>), \<open>Http_In\<close> (configuration, the
    webhook), \<open>Polling\<close> and \<open>Oauth\<close> (\<open>oauth-poll\<close>), \<open>Drivers\<close> (timer, polling, Slack, HTTP and commands),
    \<open>Exec_Stream\<close> (a child that streams, with offsets), \<open>Exec_Rpc\<close> (a child that answers),
    \<open>Mqtt_Bridge\<close> (both directions of MQTT). \<open>Control\<close> (\<open>control.rs\<close>): the control channel and the
    views it answers from.
  \<^item> Connectors (\<open>src/connectors\<close>): \<open>Bridges\<close> (IBM MQ and AMQP), \<open>Salesforce\<close>, \<open>Sap\<close>.
  \<^item> The server (\<open>main.rs\<close>): \<open>Api\<close> (flows as endpoints, the front of \<open>handle_request\<close>), \<open>Texts\<close> (the
    fixed texts: drivers, language, contracts, tools), \<open>Views\<close> (surface, graph, rules, previews,
    golden cases), \<open>Agent\<close> (flows and connectors written by an agent), \<open>Mcp\<close> and \<open>Mcp_Props\<close> (the tool
    server), \<open>Exposition\<close> (\<open>metrics.rs\<close>: the metrics page and the exported spans), \<open>Routes\<close> (the whole
    table of \<open>handle_request\<close> over one state of the runtime), \<open>Cli\<close> (\<open>main\<close>: commands, golden tests, the
    bounded pools of the listeners).

  \<^bold>\<open>How state and effects correspond.\<close> A struct is a record, an enum a datatype, a method that
  takes \<open>&mut self\<close> a function in the state monad that returns the state on its error paths too.
  A Rust panic is the outcome \<open>Panic\<close>, never an error value. Global tables (\<open>TRACES\<close>, \<open>UNITS\<close>,
  \<open>CANARIES\<close>, the pending announcements) are fields of the state. A \<open>HashMap\<close> is an ordered map,
  where the code does not depend on its order. Counters of 64 bits are natural numbers: none can
  wrap in the life of a process; hashes, packet identifiers, lengths on the wire and HTTP status
  codes keep their width.

  \<^bold>\<open>What is outside.\<close> The NATS client and server are an oracle: what they answer is any function
  of the calls made so far, and the state of the bus is that list of calls, so that orders
  between publishes, acknowledgements and deletions are orders in the list. The same holds of the
  RFC library, the MQI, the AMQP client, HTTP, sockets and child processes. The key-value bucket
  is a record of operations with the laws NATS documents (\<open>kv_laws\<close>), with a model of it in
  memory. The file system, the clock, the environment variables, \<open>serde_json\<close>'s printer
  and parser (\<open>codec\<close>), the printing of floats, error texts and the Unicode case tables are
  arguments, as are the detection engine and the agent's command.

  \<^bold>\<open>Bounds and fuel.\<close> The scanner calls itself on the holes of f-strings: its level is bounded by
  the length of the source, and \<open>lex_is_recursive\<close> shows the bound is never met. The parser runs
  on a budget linear in the number of tokens, never used up (\<open>parse_terminates\<close>). The interpreter
  composes services to 33 levels, one more than the depth the code checks, and
  \<open>run_service_is_recursive\<close> shows it is the recursion of the source. Loops that serve forever
  (the flow loop, the canary, supervision, the listeners) run over lists of what arrives, of any
  length; those that wake by the clock (\<open>tick_loop\<close>, \<open>poll_loop\<close>, the loops of the bridges and of MQTT)
  take a number of turns, and their theorems hold for every number. The loops of the Salesforce
  client that poll a job count their turns and end in \<open>OutOfFuel\<close> when these are used up; the
  theorem on result pages gives the number that is enough. The search of a free file name ends
  because a directory is finite. The counter of spans is a 64-bit word, since its product wraps.

  \<^bold>\<open>What the theorems show.\<close>

  \<^item> At-least-once delivery: no acknowledgement before the message is safe, for flows, detect units,
    sinks and the bridges; poison messages are parked, replays publish before they delete, no dead
    letter goes uncounted, supervision never gives up; a heard barrier covers what was sent before
    it; an offset follows a published record; a snapshot is resumed.
  \<^item> Security: a request without credentials has no effect on any route, governed mode holds on
    every door, the tools of an agent included, only the human credential decides, a service of
    another package needs an export, a shadow run is blind to secret values, the control channel
    reveals none, a guarded path stays inside the project, a template cannot be broken out of, a
    webhook publishes where it is allowed to, and \<open>writes_bus\<close>, on which the HTTP gate rests, is
    sound.
  \<^item> Governance: a decision is final and recorded, only a fresh approval writes, a promoted version
    is what runs, git wins over a stale overlay, trying a change writes nothing, its diff is
    honest, an edit replaces one span of the source, at most one leader can renew; a unit has one
    supervisor and a reload runs what is wanted; a generated flow replaces no file.
  \<^item> The language: scanning, parsing and running end, without panics on ASCII projects; values stay
    well formed; caches change nothing; an assignment is read back; integers are exact.
  \<^item> Connectors: SAP gets the identifier of an IDoc as it was given, leaves nothing open and answers
    every line; every row of a Salesforce result is written; polling and the listeners are
    bounded; a consumer has the filters asked for.
  \<^item> Round trips and references: MQTT lengths and messages, secrets in a file, versions in the
    bucket, CSV, labels of metrics, a curated golden case passes; dates against the calendar
    counted day by day.

  Theorems that record a defect stand beside their component. Language and governance:
  \<open>lex_em_dash_panics\<close>, \<open>integer_is_not_its_float\<close>, \<open>set_literal_loses_carriage_return\<close>,
  \<open>key_of_collides\<close>, \<open>vault_set_after_failed_read\<close>, \<open>fenced_drop_frees_the_lease\<close>,
  \<open>refused_emit_keeps_earlier\<close>, \<open>overlapping_restarts_leave_two_supervisors\<close>,
  \<open>project_below_packages_is_a_package\<close>, \<open>curated_names_collide\<close>, \<open>shared_credential_starts\<close>. Bus and
  detection: \<open>durable_names_collide\<close>, \<open>failed_barrier_is_snapshotted_over\<close>,
  \<open>refused_publish_is_snapshotted_over\<close>. Drivers: \<open>requests_together_are_lost\<close>,
  \<open>refused_record_is_committed_over\<close>, \<open>newline_shifts_the_replies\<close>, \<open>blank_request_blocks_the_driver\<close>,
  \<open>refused_poll_is_traced_as_done\<close>, \<open>queued_message_fails_the_subscription\<close>. Connectors:
  \<open>truncated_get_is_taken_whole\<close>, \<open>late_confirm_acks_the_next_message\<close>, \<open>closed_channel_is_idle\<close>,
  \<open>failed_start_leaves_the_token\<close>, \<open>early_hints_is_taken_for_the_answer\<close>, \<open>replayed_idoc_gets_a_new_tid\<close>,
  \<open>replayed_call_is_invoked_twice\<close>, \<open>server_acknowledges_what_it_lost\<close>, \<open>failed_reopen_closes_again\<close>. Server:
  \<open>detects_are_not_in_the_status\<close>, \<open>flow_tools_collide\<close>, \<open>vpl_check_reads_any_file\<close>.

  \<^bold>\<open>Not modelled.\<close> The page of the panel; the C structures of the MQI and the loading of foreign
  libraries; TLS and the opening of sockets; heartbeats and signals; the start of threads. These
  are input and output around the parts above, or code that is not in the repository. A change of
  the project's files during a round of a flow is not modelled: the files of a round are those
  of its start.
\<close>

end
